(* ===== verification/Prelude.thy ===== *)
theory Prelude
  imports Main "HOL-Library.Word" "HOL-Library.Char_ord" "HOL-Library.List_Lexorder"
    "HOL-Library.Product_Lexorder" "HOL-Library.Multiset"
begin

text \<open>
  The shared layer of the development. It holds what every component needs and no component owns:
  the result type of fallible operations and the joined error lists of the validators, decimal and
  hexadecimal rendering (\<^verbatim>\<open>%d\<close>, \<^verbatim>\<open>%x\<close>) with its injectivity, \<^verbatim>\<open>strings.Split\<close> and its inverse,
  \<^verbatim>\<open>slices.SortFunc\<close> under a three-way comparator and \<^verbatim>\<open>slices.Compact\<close>, the scan with a \<^verbatim>\<open>seen\<close>
  map that the validators repeat, and \<^verbatim>\<open>time.Time\<close> and \<^verbatim>\<open>time.Duration\<close> arithmetic at 64 bits.
\<close>

named_theorems go_simps \<open>unfolding rules for the operations of the model\<close>
named_theorems wf_intros \<open>introduction rules for well-formedness invariants\<close>

section \<open>Results and errors\<close>

type_synonym ('e, 'a) result = "'e + 'a"

text \<open>The error a port (an adapter, a kernel interface, a daemon) reports is opaque to the core.\<close>

type_synonym port_error = string

text \<open>
  A joined error (\<^verbatim>\<open>errors.Join\<close>) is the list of its parts, the empty list being \<^verbatim>\<open>nil\<close>; wrapping a nil
  error appends nothing.
\<close>

definition wrap_errors :: "('e list \<Rightarrow> 'f) \<Rightarrow> 'e list \<Rightarrow> 'f list" where
  "wrap_errors f es = (if es = [] then [] else [f es])"

definition wrap_error :: "('e \<Rightarrow> 'f) \<Rightarrow> 'e option \<Rightarrow> 'f list" where
  "wrap_error f e = (case e of None \<Rightarrow> [] | Some x \<Rightarrow> [f x])"

definition error_if :: "bool \<Rightarrow> 'e \<Rightarrow> 'e list" where
  "error_if b e = (if b then [e] else [])"

lemma wrap_errors_Nil_iff [simp]: "wrap_errors f es = [] \<longleftrightarrow> es = []"
  by (simp add: wrap_errors_def)

lemma wrap_error_Nil_iff [simp]: "wrap_error f e = [] \<longleftrightarrow> e = None"
  by (simp add: wrap_error_def split: option.splits)

lemma error_if_Nil_iff [simp]: "error_if b e = [] \<longleftrightarrow> \<not> b"
  by (simp add: error_if_def)

lemma isl_cases: "isl r \<longleftrightarrow> (\<exists>e. r = Inl e)"
  by (cases r) auto

lemma not_isl_cases: "\<not> isl r \<longleftrightarrow> (\<exists>x. r = Inr x)"
  by (cases r) auto

section \<open>Rendering numbers\<close>

text \<open>Digits of a number in base \<open>b\<close>, most significant first, as the decimal and hexadecimal verbs print them.\<close>

function to_base :: "nat \<Rightarrow> nat \<Rightarrow> nat list" where
  "to_base b n = (if n < b \<or> b < 2 then [n] else to_base b (n div b) @ [n mod b])"
  by pat_completeness auto
termination
  by (relation "measure snd") auto

declare to_base.simps [simp del]

definition from_base :: "nat \<Rightarrow> nat list \<Rightarrow> nat" where
  "from_base b ds = foldl (\<lambda>a d. a * b + d) 0 ds"

lemma from_base_snoc: "from_base b (ds @ [d]) = from_base b ds * b + d"
  by (simp add: from_base_def)

lemma from_to_base: "2 \<le> b \<Longrightarrow> from_base b (to_base b n) = n"
proof (induction b n rule: to_base.induct)
  case (1 b n)
  show ?case
  proof (cases "n < b")
    case True
    then show ?thesis by (simp add: to_base.simps [of b n] from_base_def)
  next
    case False
    with "1.IH" "1.prems" have "from_base b (to_base b (n div b)) = n div b" by auto
    with False "1.prems" show ?thesis
      by (simp add: to_base.simps [of b n] from_base_snoc)
  qed
qed

lemma to_base_inj: "2 \<le> b \<Longrightarrow> to_base b m = to_base b n \<longleftrightarrow> m = n"
  by (metis from_to_base)

lemma to_base_nonempty [simp]: "to_base b n \<noteq> []"
  by (subst to_base.simps) simp

lemma to_base_digits: "2 \<le> b \<Longrightarrow> d \<in> set (to_base b n) \<Longrightarrow> d < b"
proof (induction b n rule: to_base.induct)
  case (1 b n)
  then show ?case
    by (cases "n < b") (auto simp: to_base.simps [of b n])
qed

definition digit_char :: "nat \<Rightarrow> char" where
  "digit_char d = (if d < 10 then char_of (48 + d) else char_of (87 + d))"

lemma of_digit_char: "d < 16 \<Longrightarrow> of_char (digit_char d) = (if d < 10 then 48 + d else 87 + d)"
  by (simp add: digit_char_def of_char_of)

lemma digit_char_inj: "inj_on digit_char {..<16}"
proof (rule inj_onI)
  fix x y
  assume "x \<in> {..<16::nat}" "y \<in> {..<16}" "digit_char x = digit_char y"
  then have "(if x < 10 then 48 + x else 87 + x) = (if y < 10 then 48 + y else 87 + y)"
    by (metis lessThan_iff of_digit_char)
  with \<open>x \<in> {..<16}\<close> \<open>y \<in> {..<16}\<close> show "x = y" by (auto split: if_splits)
qed

definition show_base :: "nat \<Rightarrow> nat \<Rightarrow> string" where
  "show_base b n = map digit_char (to_base b n)"

definition show_dec :: "nat \<Rightarrow> string" where
  "show_dec n = show_base 10 n"

definition show_hex :: "nat \<Rightarrow> string" where
  "show_hex n = show_base 16 n"

text \<open>The verb \<^verbatim>\<open>%d\<close> on a Go \<^verbatim>\<open>int\<close>.\<close>

definition show_int :: "int \<Rightarrow> string" where
  "show_int i = (if i < 0 then CHR ''-'' # show_dec (nat (- i)) else show_dec (nat i))"

lemma show_base_inj:
  assumes "2 \<le> b" "b \<le> 16"
  shows "show_base b m = show_base b n \<longleftrightarrow> m = n"
proof
  assume eq: "show_base b m = show_base b n"
  have "set (to_base b m) \<union> set (to_base b n) \<subseteq> {..<16}"
    using assms to_base_digits by fastforce
  then have "inj_on digit_char (set (to_base b m) \<union> set (to_base b n))"
    using digit_char_inj inj_on_subset by blast
  with eq have "to_base b m = to_base b n"
    by (simp add: show_base_def inj_on_map_eq_map)
  with assms show "m = n" by (simp add: to_base_inj)
qed simp

lemma show_dec_inj [simp]: "show_dec m = show_dec n \<longleftrightarrow> m = n"
  by (simp add: show_dec_def show_base_inj)

lemma show_hex_inj [simp]: "show_hex m = show_hex n \<longleftrightarrow> m = n"
  by (simp add: show_hex_def show_base_inj)

lemma show_base_nonempty: "show_base b n \<noteq> []"
  by (simp add: show_base_def)

lemma show_dec_nonempty [simp]: "show_dec n \<noteq> []"
  by (simp add: show_dec_def show_base_nonempty)

lemma show_hex_nonempty [simp]: "show_hex n \<noteq> []"
  by (simp add: show_hex_def show_base_nonempty)

definition digit_chars :: "char set" where
  "digit_chars = digit_char ` {..<16}"

lemma show_base_chars:
  assumes "2 \<le> b" "b \<le> 16"
  shows "set (show_base b n) \<subseteq> digit_chars"
  using assms to_base_digits [of b _ n] by (fastforce simp: show_base_def digit_chars_def)

lemma show_dec_chars: "set (show_dec n) \<subseteq> digit_chars"
  by (simp add: show_dec_def show_base_chars)

lemma show_hex_chars: "set (show_hex n) \<subseteq> digit_chars"
  by (simp add: show_hex_def show_base_chars)

lemma digit_charsD:
  "c \<in> digit_chars \<Longrightarrow> (48::nat) \<le> of_char c \<and> (of_char c :: nat) \<le> 57 \<or> 97 \<le> (of_char c :: nat) \<and> (of_char c :: nat) \<le> 102"
  by (auto simp: digit_chars_def of_digit_char split: if_splits)

lemma separators_not_digits [simp]:
  "CHR ''/'' \<notin> digit_chars" "CHR '':'' \<notin> digit_chars" "CHR ''.'' \<notin> digit_chars"
  "CHR ''-'' \<notin> digit_chars" "CHR '';'' \<notin> digit_chars" "CHR ''@'' \<notin> digit_chars"
  by (auto dest: digit_charsD)

lemma not_in_digits:
  assumes "c \<notin> digit_chars"
  shows "c \<notin> set (show_dec n)" "c \<notin> set (show_hex n)"
  using assms show_dec_chars show_hex_chars by blast+

lemma show_int_inj [simp]: "show_int i = show_int j \<longleftrightarrow> i = j"
proof
  assume eq: "show_int i = show_int j"
  have neg: "CHR ''-'' # s \<noteq> show_dec n" for s n
    using not_in_digits(1) [of "CHR ''-''" n] by (metis list.set_intros(1) separators_not_digits(4))
  from eq show "i = j"
    by (auto simp: show_int_def neg neg [symmetric] nat_eq_iff split: if_splits)
qed simp

lemma show_int_sep:
  assumes "c \<notin> digit_chars" "c \<noteq> CHR ''-''"
  shows "c \<notin> set (show_int i)"
  using assms not_in_digits by (auto simp: show_int_def)

section \<open>Splitting and joining strings\<close>

text \<open>\<^verbatim>\<open>strings.Split(s, sep)\<close> for a one-byte separator: always at least one field.\<close>

fun split_on :: "char \<Rightarrow> string \<Rightarrow> string list" where
  "split_on c [] = [[]]"
| "split_on c (x # xs) =
     (if x = c then [] # split_on c xs
      else case split_on c xs of [] \<Rightarrow> [[x]] | t # ts \<Rightarrow> (x # t) # ts)"

fun join_with :: "char \<Rightarrow> string list \<Rightarrow> string" where
  "join_with c [] = []"
| "join_with c [t] = t"
| "join_with c (t # ts) = t @ c # join_with c ts"

lemma split_on_nonempty [simp]: "split_on c s \<noteq> []"
  by (induction s) (auto split: list.splits)

lemma split_on_no_sep [simp]: "c \<notin> set t \<Longrightarrow> split_on c t = [t]"
  by (induction t) auto

lemma split_on_append: "c \<notin> set t \<Longrightarrow> split_on c (t @ c # rest) = t # split_on c rest"
  by (induction t) auto

lemma append_sep_eq_iff:
  "c \<notin> set a \<Longrightarrow> c \<notin> set b \<Longrightarrow> a @ c # s = b @ c # t \<longleftrightarrow> a = b \<and> s = t"
proof (induction a arbitrary: b)
  case Nil
  then show ?case by (cases b) auto
next
  case (Cons x a)
  then show ?case by (cases b) auto
qed

lemma append_sep_end_iff:
  assumes "c \<notin> set a" "c \<notin> set b"
  shows "s @ c # a = t @ c # b \<longleftrightarrow> a = b \<and> s = t"
proof -
  have "s @ c # a = t @ c # b \<longleftrightarrow> rev a @ c # rev s = rev b @ c # rev t"
    by (metis append.assoc append_Cons append_Nil rev.simps(2) rev_append rev_rev_ident)
  also have "\<dots> \<longleftrightarrow> a = b \<and> s = t"
    using assms append_sep_eq_iff [of c "rev a" "rev b" "rev s" "rev t"] by simp
  finally show ?thesis .
qed

lemma split_join:
  "ts \<noteq> [] \<Longrightarrow> (\<forall>t \<in> set ts. c \<notin> set t) \<Longrightarrow> split_on c (join_with c ts) = ts"
  by (induction c ts rule: join_with.induct) (auto simp: split_on_append)

lemma join_inj:
  assumes "ts \<noteq> []" "us \<noteq> []" "\<forall>t \<in> set ts. c \<notin> set t" "\<forall>u \<in> set us. c \<notin> set u"
    and "join_with c ts = join_with c us"
  shows "ts = us"
  using assms split_join by metis

lemma join_split: "join_with c (split_on c s) = s"
proof (induction s)
  case (Cons x xs)
  obtain t ts where "split_on c xs = t # ts"
    by (meson neq_Nil_conv split_on_nonempty)
  with Cons.IH show ?case by (cases ts) auto
qed simp

lemma split_on_fields: "t \<in> set (split_on c s) \<Longrightarrow> c \<notin> set t"
  by (induction s arbitrary: t) (fastforce split: list.splits if_splits)+

lemma split_on_append_sep: "split_on c (s @ c # t) = split_on c s @ split_on c t"
  by (induction s) (auto split: list.splits)

lemma join_with_chars: "ts \<noteq> [] \<Longrightarrow> set (join_with c ts) \<subseteq> insert c (\<Union> (set ` set ts))"
  by (induction c ts rule: join_with.induct) auto

section \<open>Sorting under a comparator\<close>

text \<open>
  \<^verbatim>\<open>slices.SortFunc(xs, cmp)\<close>. The library promises a sorted permutation and no stability. The model
  inserts element by element; \<open>comparator_key\<close> shows that under a comparator that reads a linearly
  ordered key, every sorted permutation with distinct keys is this one, so the choice of algorithm
  is not observable.
\<close>

fun insert_func :: "('a \<Rightarrow> 'a \<Rightarrow> int) \<Rightarrow> 'a \<Rightarrow> 'a list \<Rightarrow> 'a list" where
  "insert_func cmp x [] = [x]"
| "insert_func cmp x (y # ys) = (if cmp x y \<le> 0 then x # y # ys else y # insert_func cmp x ys)"

definition sort_func :: "('a \<Rightarrow> 'a \<Rightarrow> int) \<Rightarrow> 'a list \<Rightarrow> 'a list" where
  "sort_func cmp xs = foldr (insert_func cmp) xs []"

locale comparator_key =
  fixes cmp :: "'a \<Rightarrow> 'a \<Rightarrow> int" and key :: "'a \<Rightarrow> 'k::linorder"
  assumes cmp_less: "cmp x y < 0 \<longleftrightarrow> key x < key y"
    and cmp_greater: "cmp x y > 0 \<longleftrightarrow> key y < key x"
begin

lemma cmp_zero: "cmp x y = 0 \<longleftrightarrow> key x = key y"
  using cmp_less [of x y] cmp_greater [of x y] by fastforce

lemma cmp_le: "cmp x y \<le> 0 \<longleftrightarrow> key x \<le> key y"
  using cmp_greater [of x y] by (simp add: linorder_not_less [symmetric])

lemma insert_func_insort: "insert_func cmp x ys = insort_key key x ys"
  by (induction ys) (auto simp: cmp_le)

lemma sort_func_sort_key: "sort_func cmp xs = sort_key key xs"
  by (simp add: sort_func_def sort_key_def insert_func_insort cong: foldr_cong)

lemma mset_sort_func: "mset (sort_func cmp xs) = mset xs"
  by (simp add: sort_func_sort_key)

lemma set_sort_func: "set (sort_func cmp xs) = set xs"
  by (simp add: sort_func_sort_key)

lemma sorted_sort_func: "sorted (map key (sort_func cmp xs))"
  by (simp add: sort_func_sort_key)

lemma sort_func_unique:
  assumes "mset ys = mset xs" "sorted (map key ys)" "distinct (map key xs)"
  shows "ys = sort_func cmp xs"
proof -
  have inj: "inj_on key (set xs)" using assms(3) by (simp add: distinct_map)
  have "set ys = set xs" using assms(1) by (metis set_mset_mset)
  moreover have "sorted (map key (sort_func cmp xs))" by (rule sorted_sort_func)
  moreover have "mset (map key ys) = mset (map key (sort_func cmp xs))"
    using assms(1) by (simp add: mset_sort_func)
  then have "map key ys = map key (sort_func cmp xs)"
    using assms(2) sorted_sort_func by (metis properties_for_sort sorted_sort_id)
  ultimately show ?thesis
    using inj by (metis inj_on_map_eq_map set_sort_func sup.idem)
qed

lemma sort_func_perm:
  assumes "mset xs = mset ys" "distinct (map key xs)"
  shows "sort_func cmp xs = sort_func cmp ys"
proof -
  have "mset (sort_func cmp xs) = mset ys" using assms(1) by (simp add: mset_sort_func)
  moreover have "distinct (map key ys)"
    using assms by (metis mset_eq_imp_distinct_iff mset_map)
  ultimately show ?thesis using sort_func_unique sorted_sort_func by blast
qed

lemma sort_func_Nil_iff: "sort_func cmp xs = [] \<longleftrightarrow> xs = []"
  by (metis mset_sort_func mset_zero_iff)

end

text \<open>\<^verbatim>\<open>slices.Compact\<close> is \<open>remdups_adj\<close>: on a sorted list it leaves the set of elements, in order.\<close>

lemma distinct_compact: "sorted xs \<Longrightarrow> distinct (remdups_adj xs)"
  by (induction xs rule: remdups_adj.induct) (auto simp: order.antisym)

lemma compact_sort: "remdups_adj (sort xs) = sorted_list_of_set (set xs)"
proof -
  have "sorted (remdups_adj (sort xs))" by (simp add: sorted_remdups_adj)
  moreover have "distinct (remdups_adj (sort xs))"
    by (simp add: distinct_compact)
  ultimately show ?thesis
    by (metis remdups_adj_set set_sort sorted_list_of_set.idem_if_sorted_distinct)
qed

section \<open>Scanning a list with a map of the values seen\<close>

text \<open>
  The idiom the validators repeat: each value is checked, a value whose check ends in
  \<^verbatim>\<open>continue\<close> has no key, any other key is reported when it was already seen and then recorded.
\<close>

fun scan_seen :: "('a \<Rightarrow> 'e list) \<Rightarrow> ('a \<Rightarrow> 'k option) \<Rightarrow> ('a \<Rightarrow> 'e) \<Rightarrow> 'k list \<Rightarrow> 'a list \<Rightarrow> 'e list" where
  "scan_seen chk key dup seen [] = []"
| "scan_seen chk key dup seen (x # xs) =
     chk x @
     (case key x of
        None \<Rightarrow> scan_seen chk key dup seen xs
      | Some k \<Rightarrow> (if k \<in> set seen then [dup x] else []) @ scan_seen chk key dup (k # seen) xs)"

lemma scan_seen_Nil_iff:
  "scan_seen chk key dup seen xs = [] \<longleftrightarrow>
     (\<forall>x \<in> set xs. chk x = []) \<and> distinct (List.map_filter key xs) \<and>
     set (List.map_filter key xs) \<inter> set seen = {}"
  by (induction xs arbitrary: seen) (auto simp: List.map_filter_simps split: option.splits)

lemma map_filter_Some: "(\<And>x. x \<in> set xs \<Longrightarrow> key x = Some (f x)) \<Longrightarrow> List.map_filter key xs = map f xs"
  by (induction xs) (auto simp: List.map_filter_simps)

lemma set_map_filter_eq: "set (List.map_filter f xs) = {y. \<exists>x \<in> set xs. f x = Some y}"
  by (induction xs) (auto simp: List.map_filter_simps split: option.splits)

lemma distinct_map_ex1: "distinct (map f xs) \<Longrightarrow> k \<in> f ` set xs \<Longrightarrow> \<exists>!x. x \<in> set xs \<and> f x = k"
  by (auto simp: distinct_map inj_on_def)

lemma distinct_map_same_length:
  assumes "distinct (map f xs)" "distinct (map g ys)" "f ` set xs = g ` set ys"
  shows "length xs = length ys"
  using distinct_card [OF assms(1)] distinct_card [OF assms(2)] assms(3) by simp

text \<open>The same idiom with checks after the value is recorded.\<close>

fun scan_seen_post ::
  "('a \<Rightarrow> 'e list) \<Rightarrow> ('a \<Rightarrow> 'k option) \<Rightarrow> ('a \<Rightarrow> 'e) \<Rightarrow> ('a \<Rightarrow> 'e list) \<Rightarrow> 'k list \<Rightarrow> 'a list \<Rightarrow> 'e list" where
  "scan_seen_post chk key dup post seen [] = []"
| "scan_seen_post chk key dup post seen (x # xs) =
     chk x @
     (case key x of
        None \<Rightarrow> scan_seen_post chk key dup post seen xs
      | Some k \<Rightarrow> (if k \<in> set seen then [dup x] else []) @ post x @ scan_seen_post chk key dup post (k # seen) xs)"

lemma scan_seen_post_Nil_iff:
  "scan_seen_post chk key dup post seen xs = [] \<longleftrightarrow>
     (\<forall>x \<in> set xs. chk x = [] \<and> (key x \<noteq> None \<longrightarrow> post x = [])) \<and> distinct (List.map_filter key xs) \<and>
     set (List.map_filter key xs) \<inter> set seen = {}"
  by (induction xs arbitrary: seen) (auto simp: List.map_filter_simps split: option.splits)

section \<open>Time and durations\<close>

text \<open>
  A \<^verbatim>\<open>time.Duration\<close> is a 64-bit count of nanoseconds; \<open>wrap64\<close> is the wrap-around of its arithmetic.
  A \<^verbatim>\<open>time.Time\<close> is the count of nanoseconds since the zero time, so that \<open>0\<close> is the zero value that
  \<^verbatim>\<open>IsZero\<close> tests; \<^verbatim>\<open>Sub\<close> saturates at the range of a duration.
\<close>

type_synonym time = int
type_synonym duration = int

definition min_duration :: duration where
  "min_duration = - (2 ^ 63)"

definition max_duration :: duration where
  "max_duration = 2 ^ 63 - 1"

definition wrap64 :: "int \<Rightarrow> int" where
  "wrap64 x = (x + 2 ^ 63) mod 2 ^ 64 - 2 ^ 63"

definition time_IsZero :: "time \<Rightarrow> bool" where
  "time_IsZero t \<longleftrightarrow> t = 0"

definition time_Sub :: "time \<Rightarrow> time \<Rightarrow> duration" where
  "time_Sub t u = max min_duration (min max_duration (t - u))"

definition time_Add :: "time \<Rightarrow> duration \<Rightarrow> time" where
  "time_Add t d = t + d"

definition second :: duration where
  "second = 1000000000"

definition millisecond :: duration where
  "millisecond = 1000000"

definition minute :: duration where
  "minute = 60 * second"

definition hour :: duration where
  "hour = 60 * minute"

lemmas time_defs = time_IsZero_def time_Sub_def time_Add_def min_duration_def max_duration_def

lemma wrap64_id: "min_duration \<le> x \<Longrightarrow> x \<le> max_duration \<Longrightarrow> wrap64 x = x"
  by (simp add: wrap64_def min_duration_def max_duration_def)

lemma wrap64_range: "min_duration \<le> wrap64 x \<and> wrap64 x \<le> max_duration"
proof -
  have "0 \<le> (x + 2 ^ 63) mod (2::int) ^ 64" "(x + 2 ^ 63) mod (2::int) ^ 64 < 2 ^ 64" by auto
  then show ?thesis by (simp add: wrap64_def min_duration_def max_duration_def)
qed

lemma time_Sub_nonneg: "0 \<le> time_Sub t u \<longleftrightarrow> u \<le> t"
  by (auto simp: time_defs)

lemma time_Sub_le: "d < max_duration \<Longrightarrow> min_duration \<le> d \<Longrightarrow> time_Sub t u \<le> d \<longleftrightarrow> t - u \<le> d"
  by (auto simp: time_Sub_def)

end
