(* ===== verification/Netip.thy ===== *)
theory Netip
  imports Prelude
begin

unbundle bit_operations_syntax

text \<open>
  The parts of Go's \<^verbatim>\<open>net/netip\<close> that the agent is written in: \<^verbatim>\<open>netip.Addr\<close> with its zero value,
  IPv4 and IPv6 addresses and zones, \<^verbatim>\<open>netip.Prefix\<close> with its \<^verbatim>\<open>bitsPlusOne\<close> encoding, and the operations
  the sources call. The order of \<^verbatim>\<open>Addr.Compare\<close> is the linear order of the type; the rendering of a
  prefix is shown injective, which is what makes the string keys of the routing diff identities.
\<close>

section \<open>Addresses\<close>

datatype addr = AddrZero | Addr4 "32 word" | Addr6 "128 word" string

fun addr_IsValid :: "addr \<Rightarrow> bool" where
  "addr_IsValid AddrZero = False"
| "addr_IsValid _ = True"

fun addr_Is4 :: "addr \<Rightarrow> bool" where
  "addr_Is4 (Addr4 _) = True"
| "addr_Is4 _ = False"

fun addr_Is6 :: "addr \<Rightarrow> bool" where
  "addr_Is6 (Addr6 _ _) = True"
| "addr_Is6 _ = False"

fun addr_Is4In6 :: "addr \<Rightarrow> bool" where
  "addr_Is4In6 (Addr6 a _) = (drop_bit 32 a = 0xFFFF)"
| "addr_Is4In6 _ = False"

fun addr_Unmap :: "addr \<Rightarrow> addr" where
  "addr_Unmap (Addr6 a z) = (if addr_Is4In6 (Addr6 a z) then Addr4 (ucast a) else Addr6 a z)"
| "addr_Unmap a = a"

fun addr_Zone :: "addr \<Rightarrow> string" where
  "addr_Zone (Addr6 _ z) = z"
| "addr_Zone _ = []"

fun addr_withoutZone :: "addr \<Rightarrow> addr" where
  "addr_withoutZone (Addr6 a _) = Addr6 a []"
| "addr_withoutZone a = a"

fun addr_BitLen :: "addr \<Rightarrow> nat" where
  "addr_BitLen AddrZero = 0"
| "addr_BitLen (Addr4 _) = 32"
| "addr_BitLen (Addr6 _ _) = 128"

definition IPv4Unspecified :: addr where
  "IPv4Unspecified = Addr4 0"

definition IPv6Unspecified :: addr where
  "IPv6Unspecified = Addr6 0 []"

definition addr_IsUnspecified :: "addr \<Rightarrow> bool" where
  "addr_IsUnspecified a \<longleftrightarrow> a = IPv4Unspecified \<or> a = IPv6Unspecified"

fun addr_IsMulticast :: "addr \<Rightarrow> bool" where
  "addr_IsMulticast AddrZero = False"
| "addr_IsMulticast (Addr4 a) = (drop_bit 28 a = 0xE)"
| "addr_IsMulticast (Addr6 a z) =
     (case addr_Unmap (Addr6 a z) of Addr4 b \<Rightarrow> drop_bit 28 b = 0xE | _ \<Rightarrow> drop_bit 120 a = 0xFF)"

text \<open>The numeric value both IP versions compare by; an IPv4 address is stored under the mapped prefix.\<close>

fun addr_value :: "addr \<Rightarrow> nat" where
  "addr_value AddrZero = 0"
| "addr_value (Addr4 a) = unat a"
| "addr_value (Addr6 a _) = unat a"

definition cmp3 :: "'a::linorder \<Rightarrow> 'a \<Rightarrow> int" where
  "cmp3 x y = (if x < y then - 1 else if y < x then 1 else 0)"

definition addr_Compare :: "addr \<Rightarrow> addr \<Rightarrow> int" where
  "addr_Compare a b =
     (if addr_BitLen a \<noteq> addr_BitLen b then cmp3 (addr_BitLen a) (addr_BitLen b)
      else if addr_value a \<noteq> addr_value b then cmp3 (addr_value a) (addr_value b)
      else if addr_Is6 a then cmp3 (addr_Zone a) (addr_Zone b)
      else 0)"

definition addr_key :: "addr \<Rightarrow> nat \<times> nat \<times> string" where
  "addr_key a = (addr_BitLen a, addr_value a, addr_Zone a)"

lemma addr_key_inj: "addr_key a = addr_key b \<longleftrightarrow> a = b"
  by (cases a; cases b) (auto simp: addr_key_def word_unat_eq_iff)

instantiation addr :: linorder
begin

definition less_eq_addr :: "addr \<Rightarrow> addr \<Rightarrow> bool" where
  "less_eq_addr a b \<longleftrightarrow> addr_key a \<le> addr_key b"

definition less_addr :: "addr \<Rightarrow> addr \<Rightarrow> bool" where
  "less_addr a b \<longleftrightarrow> addr_key a < addr_key b"

instance
proof
  fix x y z :: addr
  show "x < y \<longleftrightarrow> x \<le> y \<and> \<not> y \<le> x"
    by (auto simp: less_eq_addr_def less_addr_def)
  show "x \<le> x" by (simp add: less_eq_addr_def)
  show "x \<le> y \<Longrightarrow> y \<le> z \<Longrightarrow> x \<le> z"
    unfolding less_eq_addr_def by (rule order_trans)
  show "x \<le> y \<Longrightarrow> y \<le> x \<Longrightarrow> x = y"
    unfolding less_eq_addr_def using addr_key_inj order.antisym by blast
  show "x \<le> y \<or> y \<le> x"
    unfolding less_eq_addr_def by (rule linear)
qed

end

interpretation addr_cmp: comparator_key addr_Compare "\<lambda>a::addr. a"
proof
  fix a b :: addr
  show "addr_Compare a b < 0 \<longleftrightarrow> a < b"
    by (cases a; cases b) (auto simp: addr_Compare_def cmp3_def less_addr_def addr_key_def less_prod_def)
  show "0 < addr_Compare a b \<longleftrightarrow> b < a"
    by (cases a; cases b) (auto simp: addr_Compare_def cmp3_def less_addr_def addr_key_def less_prod_def)
qed

lemma addr_sort: "sort_func addr_Compare xs = sort xs"
  by (rule addr_cmp.sort_func_sort_key)

lemma addr_Unmap_idem [simp]: "addr_Unmap (addr_Unmap a) = addr_Unmap a"
  by (cases a) auto

lemma addr_Unmap_not_4In6 [simp]: "\<not> addr_Is4In6 (addr_Unmap a)"
  by (cases a) auto

lemma addr_IsValid_Unmap [simp]: "addr_IsValid (addr_Unmap a) = addr_IsValid a"
  by (cases a) auto

lemma addr_Unmap_id: "\<not> addr_Is4In6 a \<Longrightarrow> addr_Unmap a = a"
  by (cases a) auto

section \<open>Prefixes\<close>

text \<open>
  \<^verbatim>\<open>netip.Prefix{ip, bitsPlusOne}\<close>: \<open>0\<close> in the second field marks an invalid prefix, whatever the
  address. Only \<^verbatim>\<open>PrefixFrom\<close> builds prefixes, so \<open>prefix_ok\<close> holds of every value of the Go type.
\<close>

datatype prefix = Prefix (prefix_Addr: addr) (prefix_bitsPlusOne: nat)

definition PrefixZero :: prefix where
  "PrefixZero = Prefix AddrZero 0"

definition PrefixFrom :: "addr \<Rightarrow> int \<Rightarrow> prefix" where
  "PrefixFrom a bits =
     Prefix (addr_withoutZone a)
       (if a \<noteq> AddrZero \<and> 0 \<le> bits \<and> bits \<le> int (addr_BitLen a) then nat bits + 1 else 0)"

definition prefix_IsValid :: "prefix \<Rightarrow> bool" where
  "prefix_IsValid p \<longleftrightarrow> prefix_bitsPlusOne p > 0"

definition prefix_Bits :: "prefix \<Rightarrow> int" where
  "prefix_Bits p = int (prefix_bitsPlusOne p) - 1"

definition prefix_ok :: "prefix \<Rightarrow> bool" where
  "prefix_ok p \<longleftrightarrow> addr_Zone (prefix_Addr p) = [] \<and>
     prefix_bitsPlusOne p \<le> addr_BitLen (prefix_Addr p) + 1 \<and>
     (prefix_Addr p = AddrZero \<longrightarrow> prefix_bitsPlusOne p = 0)"

definition netmask4 :: "nat \<Rightarrow> 32 word" where
  "netmask4 n = NOT (mask (32 - n))"

definition netmask6 :: "nat \<Rightarrow> 128 word" where
  "netmask6 n = NOT (mask (128 - n))"

text \<open>\<^verbatim>\<open>Masked\<close> calls \<^verbatim>\<open>Addr.Prefix(bits)\<close>, whose error on an invalid prefix leaves the zero prefix.\<close>

definition prefix_Masked :: "prefix \<Rightarrow> prefix" where
  "prefix_Masked p =
     (if prefix_bitsPlusOne p = 0 then PrefixZero
      else let b = prefix_bitsPlusOne p - 1 in
        case prefix_Addr p of
          AddrZero \<Rightarrow> PrefixZero
        | Addr4 a \<Rightarrow> if 32 < b then PrefixZero else PrefixFrom (Addr4 (a AND netmask4 b)) (int b)
        | Addr6 a z \<Rightarrow> if 128 < b then PrefixZero else PrefixFrom (Addr6 (a AND netmask6 b) z) (int b))"

definition prefix_Contains :: "prefix \<Rightarrow> addr \<Rightarrow> bool" where
  "prefix_Contains p a =
     (if \<not> prefix_IsValid p \<or> addr_Zone a \<noteq> [] then False
      else case (prefix_Addr p, a) of
          (Addr4 n, Addr4 x) \<Rightarrow> drop_bit (32 - (prefix_bitsPlusOne p - 1)) (x XOR n) = 0
        | (Addr6 n _, Addr6 x _) \<Rightarrow> (x XOR n) AND netmask6 (prefix_bitsPlusOne p - 1) = 0
        | _ \<Rightarrow> False)"

lemma prefix_ok_PrefixFrom [simp, intro]: "prefix_ok (PrefixFrom a b)"
  by (cases a) (auto simp: prefix_ok_def PrefixFrom_def)

lemma prefix_ok_Zero [simp, intro]: "prefix_ok PrefixZero"
  by (simp add: prefix_ok_def PrefixZero_def)

lemma prefix_ok_Masked [simp, intro]: "prefix_ok (prefix_Masked p)"
  by (auto simp: prefix_Masked_def Let_def split: addr.splits)

lemma prefix_IsValid_PrefixFrom:
  "prefix_IsValid (PrefixFrom a b) \<longleftrightarrow> a \<noteq> AddrZero \<and> 0 \<le> b \<and> b \<le> int (addr_BitLen a)"
  by (simp add: prefix_IsValid_def PrefixFrom_def)

lemma word_xor_0_iff [simp]: "x XOR y = 0 \<longleftrightarrow> x = (y :: 'a::len word)"
  by (auto simp: bit_eq_iff bit_simps)

lemma drop_bit_xor_0: "drop_bit n (x XOR y) = 0 \<longleftrightarrow> drop_bit n x = drop_bit n (y :: 'a::len word)"
  by simp

lemma and_netmask_0:
  "x AND NOT (mask n) = 0 \<longleftrightarrow> drop_bit n (x :: 'a::len word) = 0"
proof
  assume "x AND NOT (mask n) = 0"
  then have "\<not> (bit x i \<and> n \<le> i)" if "i < LENGTH('a)" for i
    using that by (auto simp: bit_eq_iff bit_simps)
  then show "drop_bit n x = 0"
    by (auto simp: bit_eq_iff bit_simps) (meson bit_imp_le_length le_add1)
next
  assume "drop_bit n x = 0"
  then have "\<not> bit x (n + i)" for i
    by (metis bit_0_eq bit_drop_bit_eq bot_apply bot_bool_def comp_apply)
  then show "x AND NOT (mask n) = 0"
    by (auto simp: bit_eq_iff bit_simps) (metis le_add_diff_inverse not_le)
qed

lemma drop_bit_mono:
  assumes "drop_bit m x = drop_bit m (y :: 'a::len word)" "m \<le> k"
  shows "drop_bit k x = drop_bit k y"
proof -
  have eq: "drop_bit k z = drop_bit (k - m) (drop_bit m z)" for z :: "'a word"
    using assms(2) by simp
  show ?thesis unfolding eq [of x] eq [of y] assms(1) ..
qed

text \<open>
  A valid prefix is an address with a length within its address size; the two shapes below are the
  only ones, and containment is agreement on the leading bits.
\<close>

lemma prefix_cases_valid:
  assumes "prefix_ok p" "prefix_IsValid p"
  obtains (v4) n b where "p = Prefix (Addr4 n) (Suc b)" "b \<le> 32"
  | (v6) n b where "p = Prefix (Addr6 n []) (Suc b)" "b \<le> 128"
proof (cases p)
  case (Prefix a k)
  with assms obtain b where "k = Suc b"
    by (auto simp: prefix_IsValid_def gr0_conv_Suc)
  with Prefix assms that show thesis
    by (cases a) (auto simp: prefix_ok_def)
qed

lemma prefix_Contains4 [simp]:
  "prefix_Contains (Prefix (Addr4 n) (Suc b)) (Addr4 x) \<longleftrightarrow> drop_bit (32 - b) x = drop_bit (32 - b) n"
  by (simp add: prefix_Contains_def prefix_IsValid_def drop_bit_xor_0)

lemma prefix_Contains6 [simp]:
  "prefix_Contains (Prefix (Addr6 n z) (Suc b)) (Addr6 x w) \<longleftrightarrow>
     w = [] \<and> drop_bit (128 - b) x = drop_bit (128 - b) n"
  by (simp add: prefix_Contains_def prefix_IsValid_def netmask6_def and_netmask_0 drop_bit_xor_0)

lemma prefix_Contains_mixed [simp]:
  "\<not> prefix_Contains (Prefix (Addr4 n) b) (Addr6 x w)"
  "\<not> prefix_Contains (Prefix (Addr6 m z) b) (Addr4 y)"
  "\<not> prefix_Contains p AddrZero"
  by (auto simp: prefix_Contains_def split: addr.splits)

lemma prefix_Contains_valid: "prefix_Contains p a \<Longrightarrow> prefix_IsValid p"
  by (auto simp: prefix_Contains_def split: if_splits)

lemma prefix_Contains_BitLen: "prefix_Contains p a \<Longrightarrow> addr_BitLen a = addr_BitLen (prefix_Addr p)"
  by (cases p; cases "prefix_Addr p"; cases a) (auto simp: prefix_Contains_def split: if_splits addr.splits)

lemma prefix_Contains_Addr:
  assumes "prefix_ok p" "prefix_IsValid p"
  shows "prefix_Contains p (prefix_Addr p)"
  using assms by (cases rule: prefix_cases_valid) auto

text \<open>Two prefixes that share an address are nested: the shorter one holds the other's base address.\<close>

lemma prefix_Contains_nested:
  assumes "prefix_ok p" "prefix_ok q" "prefix_Contains p a" "prefix_Contains q a"
    and le: "prefix_Bits p \<le> prefix_Bits q"
  shows "prefix_Contains p (prefix_Addr q)"
proof -
  from assms have vp: "prefix_IsValid p" and vq: "prefix_IsValid q"
    by (auto dest: prefix_Contains_valid)
  show ?thesis
    using assms(1) vp
  proof (cases rule: prefix_cases_valid)
    case p: (v4 n b)
    from assms(2) vq show ?thesis
    proof (cases rule: prefix_cases_valid)
      case q: (v4 m c)
      from p q assms(3,4) obtain x where "a = Addr4 x" by (cases a) auto
      with p q assms(3,4) le show ?thesis
        using drop_bit_mono [of "32 - c" x m "32 - b"] by (auto simp: prefix_Bits_def)
    next
      case (v6 m c)
      with p assms(3,4) show ?thesis by (cases a) auto
    qed
  next
    case p: (v6 n b)
    from assms(2) vq show ?thesis
    proof (cases rule: prefix_cases_valid)
      case (v4 m c)
      with p assms(3,4) show ?thesis by (cases a) auto
    next
      case q: (v6 m c)
      from p q assms(3,4) obtain x where "a = Addr6 x []" by (cases a) auto
      with p q assms(3,4) le show ?thesis
        using drop_bit_mono [of "128 - c" x m "128 - b"] by (auto simp: prefix_Bits_def)
    qed
  qed
qed

lemma and_NOT_mask_idem: "(a AND NOT (mask k)) AND NOT (mask k) = a AND NOT (mask k :: 'a::len word)"
  by (simp add: and.assoc)

lemma drop_bit_and_NOT_mask:
  "drop_bit k a AND drop_bit k (NOT (mask k)) = drop_bit k (a :: 'a::len word)"
  by (auto simp: bit_eq_iff bit_simps dest: bit_imp_le_length)

lemma prefix_Masked4: "b \<le> 32 \<Longrightarrow> prefix_Masked (Prefix (Addr4 a) (Suc b)) = Prefix (Addr4 (a AND netmask4 b)) (Suc b)"
  by (simp add: prefix_Masked_def PrefixFrom_def)

lemma prefix_Masked6: "b \<le> 128 \<Longrightarrow> prefix_Masked (Prefix (Addr6 a z) (Suc b)) = Prefix (Addr6 (a AND netmask6 b) []) (Suc b)"
  by (simp add: prefix_Masked_def PrefixFrom_def)

lemma prefix_Masked_invalid: "\<not> prefix_IsValid p \<Longrightarrow> prefix_Masked p = PrefixZero"
  by (simp add: prefix_Masked_def prefix_IsValid_def)

lemma prefix_Masked_Zero [simp]: "prefix_Masked PrefixZero = PrefixZero"
  by (simp add: prefix_Masked_def PrefixZero_def)

lemma prefix_IsValid_Zero [simp]: "\<not> prefix_IsValid PrefixZero"
  by (simp add: prefix_IsValid_def PrefixZero_def)

lemma prefix_Masked_idem:
  assumes "prefix_ok p"
  shows "prefix_Masked (prefix_Masked p) = prefix_Masked p"
proof (cases "prefix_IsValid p")
  case True
  with assms show ?thesis
    by (cases rule: prefix_cases_valid)
      (simp_all add: prefix_Masked4 prefix_Masked6 netmask4_def netmask6_def and_NOT_mask_idem)
qed (simp add: prefix_Masked_invalid)

lemma prefix_Masked_valid:
  assumes "prefix_ok p" "prefix_IsValid p"
  shows "prefix_IsValid (prefix_Masked p)" "prefix_Bits (prefix_Masked p) = prefix_Bits p"
  using assms
  by (cases rule: prefix_cases_valid, simp_all add: prefix_Masked4 prefix_Masked6 prefix_IsValid_def prefix_Bits_def)+

lemma prefix_Contains_Masked:
  assumes "prefix_ok p" "prefix_IsValid p"
  shows "prefix_Contains (prefix_Masked p) a = prefix_Contains p a"
  using assms
proof (cases rule: prefix_cases_valid)
  case (v4 n b)
  then show ?thesis
    by (cases a) (simp_all add: prefix_Masked4 netmask4_def drop_bit_and_NOT_mask)
next
  case (v6 n b)
  then show ?thesis
    by (cases a) (simp_all add: prefix_Masked6 netmask6_def drop_bit_and_NOT_mask)
qed

end
