(* ===== verification/Netip_String.thy ===== *)
theory Netip_String
  imports Netip
begin

unbundle bit_operations_syntax

text \<open>
  The textual form of addresses and prefixes (\<^verbatim>\<open>Addr.String\<close>, \<^verbatim>\<open>Prefix.String\<close>): dotted quads, IPv6
  groups with the longest run of zero groups elided, and IPv4-mapped addresses. The main result is
  that rendering a valid prefix loses nothing: two valid prefixes with the same text are equal.
\<close>

section \<open>Octets and groups\<close>

definition octets :: "32 word \<Rightarrow> nat list" where
  "octets a = map (\<lambda>i. unat (take_bit 8 (drop_bit (8 * i) a))) [3, 2, 1, 0]"

definition groups :: "128 word \<Rightarrow> nat list" where
  "groups a = map (\<lambda>i. unat (take_bit 16 (drop_bit (16 * i) a))) [7, 6, 5, 4, 3, 2, 1, 0]"

lemma length_groups [simp]: "length (groups a) = 8"
  by (simp add: groups_def)

text \<open>A word is determined by its chunks of \<open>k\<close> bits.\<close>

lemma word_eq_from_chunks:
  fixes a b :: "'a::len word"
  assumes "0 < k" "\<And>i. k * i < LENGTH('a) \<Longrightarrow> take_bit k (drop_bit (k * i) a) = take_bit k (drop_bit (k * i) b)"
  shows "a = b"
proof (rule bit_eqI)
  fix n
  assume "possible_bit TYPE('a word) n"
  then have n: "n < LENGTH('a)" by simp
  let ?i = "n div k" and ?j = "n mod k"
  have "k * ?i \<le> n" by simp
  with n have "k * ?i < LENGTH('a)" by linarith
  then have eq: "take_bit k (drop_bit (k * ?i) a) = take_bit k (drop_bit (k * ?i) b)" by (rule assms(2))
  have "bit (take_bit k (drop_bit (k * ?i) c)) ?j = bit c n" for c :: "'a word"
    using assms(1) by (simp add: bit_simps)
  with eq show "bit a n = bit b n" by metis
qed

lemma octets_inj [simp]: "octets a = octets b \<longleftrightarrow> a = b"
proof
  assume eq: "octets a = octets b"
  show "a = b"
  proof (rule word_eq_from_chunks [of 8])
    fix i :: nat
    assume "8 * i < LENGTH(32)"
    then have "i \<in> {0, 1, 2, 3}" by auto
    with eq show "take_bit 8 (drop_bit (8 * i) a) = take_bit 8 (drop_bit (8 * i) b)"
      by (auto simp: octets_def word_unat_eq_iff)
  qed simp
qed simp

lemma groups_inj [simp]: "groups a = groups b \<longleftrightarrow> a = b"
proof
  assume eq: "groups a = groups b"
  show "a = b"
  proof (rule word_eq_from_chunks [of 16])
    fix i :: nat
    assume "16 * i < LENGTH(128)"
    then have "i \<in> {0, 1, 2, 3, 4, 5, 6, 7}" by auto
    with eq show "take_bit 16 (drop_bit (16 * i) a) = take_bit 16 (drop_bit (16 * i) b)"
      by (auto simp: groups_def word_unat_eq_iff)
  qed simp
qed simp

section \<open>Rendering\<close>

definition string4 :: "32 word \<Rightarrow> string" where
  "string4 a = join_with CHR ''.'' (map show_dec (octets a))"

text \<open>The longest run of at least two zero groups, the first of equals, as \<^verbatim>\<open>appendTo6\<close> finds it.\<close>

fun best_run :: "nat \<Rightarrow> nat list \<Rightarrow> nat \<times> nat \<Rightarrow> nat \<times> nat" where
  "best_run i [] best = best"
| "best_run i (g # gs) best =
     (let l = length (takeWhile (\<lambda>x. x = 0) (g # gs))
      in best_run (Suc i) gs (if 2 \<le> l \<and> snd best - fst best < l then (i, i + l) else best))"

definition render_groups :: "nat list \<Rightarrow> string" where
  "render_groups gs = join_with CHR '':'' (map show_hex gs)"

definition string6 :: "128 word \<Rightarrow> string" where
  "string6 a =
     (let gs = groups a; (s, e) = best_run 0 gs (255, 255)
      in if s = 255 then render_groups gs
         else render_groups (take s gs) @ ''::'' @ render_groups (drop e gs))"

fun addr_String :: "addr \<Rightarrow> string" where
  "addr_String AddrZero = ''invalid IP''"
| "addr_String (Addr4 a) = string4 a"
| "addr_String (Addr6 a z) =
     (if addr_Is4In6 (Addr6 a z) then ''::ffff:'' @ string4 (ucast a) else string6 a) @
     (if z = [] then [] else CHR ''%'' # z)"

definition prefix_String :: "prefix \<Rightarrow> string" where
  "prefix_String p =
     (if \<not> prefix_IsValid p then ''invalid Prefix''
      else addr_String (prefix_Addr p) @ CHR ''/'' # show_int (prefix_Bits p))"

section \<open>Rendering is injective\<close>

lemma render_groups_no_sep:
  assumes "c \<notin> digit_chars" "c \<noteq> CHR '':''"
  shows "c \<notin> set (render_groups gs)"
proof (cases "gs = []")
  case False
  have "c \<notin> set t" if "t \<in> set (map show_hex gs)" for t
    using that assms not_in_digits by auto
  then show ?thesis
    using join_with_chars [of "map show_hex gs" "CHR '':''"] assms(2) False
    by (auto simp: render_groups_def)
qed (simp add: render_groups_def)

lemma string4_no_sep:
  assumes "c \<notin> digit_chars" "c \<noteq> CHR ''.''"
  shows "c \<notin> set (string4 a)"
proof -
  have "c \<notin> set t" if "t \<in> set (map show_dec (octets a))" for t
    using that assms not_in_digits by auto
  then show ?thesis
    using join_with_chars [of "map show_dec (octets a)" "CHR ''.''"] assms(2)
    by (auto simp: string4_def octets_def)
qed

lemma string4_inj [simp]: "string4 a = string4 b \<longleftrightarrow> a = b"
proof
  assume eq: "string4 a = string4 b"
  have "map show_dec (octets a) = map show_dec (octets b)"
  proof (rule join_inj [of _ _ "CHR ''.''"])
    show "join_with CHR ''.'' (map show_dec (octets a)) = join_with CHR ''.'' (map show_dec (octets b))"
      using eq by (simp add: string4_def)
  qed (auto simp: octets_def not_in_digits)
  moreover have "inj show_dec" by (simp add: inj_on_def)
  ultimately have "octets a = octets b" by (simp add: inj_map_eq_map)
  then show "a = b" by simp
qed simp

lemma string4_has_dot: "CHR ''.'' \<in> set (string4 a)"
  by (simp add: string4_def octets_def)

text \<open>The fields of rendered groups, where an empty list renders as one empty field.\<close>

definition group_fields :: "nat list \<Rightarrow> string list" where
  "group_fields gs = (if gs = [] then [[]] else map show_hex gs)"

lemma split_render_groups: "split_on CHR '':'' (render_groups gs) = group_fields gs"
  by (simp add: render_groups_def group_fields_def split_join not_in_digits)

lemma split_elided:
  "split_on CHR '':'' (render_groups pre @ ''::'' @ render_groups post) = group_fields pre @ [] # group_fields post"
  using split_on_append_sep [of "CHR '':''" "render_groups pre" "CHR '':'' # render_groups post"]
  by (simp add: split_render_groups)

lemma takeWhile_group_fields: "takeWhile (\<lambda>t. t \<noteq> []) (group_fields gs @ [] # ts) = map show_hex gs"
  by (auto simp: group_fields_def takeWhile_append)

lemma filter_group_fields: "filter (\<lambda>t. t \<noteq> []) (group_fields gs) = map show_hex gs"
  by (auto simp: group_fields_def filter_True)

lemma elided_inj:
  assumes "render_groups pre @ ''::'' @ render_groups post = render_groups pre' @ ''::'' @ render_groups post'"
  shows "pre = pre' \<and> post = post'"
proof -
  have fields: "group_fields pre @ [] # group_fields post = group_fields pre' @ [] # group_fields post'"
    using assms by (metis split_elided)
  have inj: "inj show_hex" by (simp add: inj_on_def)
  have "map show_hex pre = map show_hex pre'"
    using arg_cong [OF fields, of "takeWhile (\<lambda>t. t \<noteq> [])"] by (simp only: takeWhile_group_fields)
  moreover have "map show_hex pre @ map show_hex post = map show_hex pre' @ map show_hex post'"
    using arg_cong [OF fields, of "filter (\<lambda>t. t \<noteq> [])"] by (simp add: filter_group_fields)
  ultimately show ?thesis using inj by (simp add: inj_map_eq_map)
qed

lemma elided_not_plain:
  assumes "gs \<noteq> []"
  shows "render_groups gs \<noteq> render_groups pre @ ''::'' @ render_groups post"
proof
  assume "render_groups gs = render_groups pre @ ''::'' @ render_groups post"
  then have "group_fields gs = group_fields pre @ [] # group_fields post"
    by (metis split_elided split_render_groups)
  then have "[] \<in> set (group_fields gs)" by simp
  with assms show False by (auto simp: group_fields_def) (metis show_hex_nonempty)
qed

lemma takeWhile_zero_run:
  "takeWhile (\<lambda>x. x = (0::nat)) gs = replicate (length (takeWhile (\<lambda>x. x = 0) gs)) 0"
  by (induction gs) auto

text \<open>The run is within the groups and its groups are all zero.\<close>

definition zero_span :: "nat list \<Rightarrow> nat \<times> nat \<Rightarrow> bool" where
  "zero_span gs se \<longleftrightarrow> se = (255, 255) \<or>
     fst se < snd se \<and> snd se \<le> length gs \<and>
     gs = take (fst se) gs @ replicate (snd se - fst se) 0 @ drop (snd se) gs"

lemma zero_span_here:
  assumes "2 \<le> l" "l = length (takeWhile (\<lambda>x. x = 0) (drop i gs))" "i \<le> length gs"
  shows "zero_span gs (i, i + l)"
proof -
  have "drop i gs = replicate l 0 @ drop l (drop i gs)"
    using takeWhile_zero_run [of "drop i gs"] assms(2)
    by (metis dropWhile_eq_drop takeWhile_dropWhile_id)
  then have "gs = take i gs @ replicate l 0 @ drop (i + l) gs"
    using append_take_drop_id [of i gs] by (simp add: add.commute)
  moreover have "i + l \<le> length gs"
    using assms(2,3) length_takeWhile_le [of "\<lambda>x. x = 0" "drop i gs"] by simp
  ultimately show ?thesis
    using assms(1) unfolding zero_span_def by simp
qed

lemma best_run_span:
  assumes "zero_span gs best" "i \<le> length gs" "rest = drop i gs"
  shows "zero_span gs (best_run i rest best)"
  using assms
proof (induction i rest best rule: best_run.induct)
  case (2 i g rest best)
  let ?l = "length (takeWhile (\<lambda>x. x = 0) (g # rest))"
  have ne: "drop i gs = g # rest" using "2.prems"(3) by simp
  then have i: "i < length gs" by (metis drop_all leI list.distinct(1))
  from ne have rest: "rest = drop (Suc i) gs" by (metis drop_Suc list.sel(3) tl_drop)
  let ?b = "if 2 \<le> ?l \<and> snd best - fst best < ?l then (i, i + ?l) else best"
  have "zero_span gs ?b"
    using "2.prems" zero_span_here [of ?l i gs] i by auto
  then have "zero_span gs (best_run (Suc i) rest ?b)"
    by (rule "2.IH" [OF refl _ Suc_leI [OF i] rest])
  then show ?case by (simp only: best_run.simps Let_def)
qed auto

lemma string6_groups:
  obtains "string6 a = render_groups (groups a)"
  | s e where "string6 a = render_groups (take s (groups a)) @ ''::'' @ render_groups (drop e (groups a))"
      "s < e" "e \<le> 8" "groups a = take s (groups a) @ replicate (e - s) 0 @ drop e (groups a)"
proof -
  obtain s e where b: "best_run 0 (groups a) (255, 255) = (s, e)" by (metis surj_pair)
  have span: "zero_span (groups a) (s, e)"
    using best_run_span [of "groups a" "(255, 255)" 0 "groups a"] b by (simp add: zero_span_def)
  show thesis
  proof (cases "s = 255")
    case True
    with b show thesis by (intro that(1)) (simp add: string6_def)
  next
    case False
    with span have "s < e" "e \<le> 8" "groups a = take s (groups a) @ replicate (e - s) 0 @ drop e (groups a)"
      by (auto simp: zero_span_def)
    moreover from b False have "string6 a = render_groups (take s (groups a)) @ ''::'' @ render_groups (drop e (groups a))"
      by (simp add: string6_def Let_def)
    ultimately show thesis by (intro that(2))
  qed
qed

lemma string6_inj [simp]: "string6 a = string6 b \<longleftrightarrow> a = b"
proof
  assume eq: "string6 a = string6 b"
  have ne: "groups c \<noteq> []" for c by (metis length_groups length_0_conv zero_neq_numeral)
  have "groups a = groups b"
  proof (cases a rule: string6_groups)
    case a: 1
    show ?thesis
    proof (cases b rule: string6_groups)
      case 1
      with a eq have "group_fields (groups a) = group_fields (groups b)"
        by (metis split_render_groups)
      with ne have "map show_hex (groups a) = map show_hex (groups b)" by (simp add: group_fields_def)
      moreover have "inj show_hex" by (simp add: inj_on_def)
      ultimately show ?thesis by (simp add: inj_map_eq_map)
    next
      case 2
      with a eq ne elided_not_plain show ?thesis by metis
    qed
  next
    case a: (2 s e)
    show ?thesis
    proof (cases b rule: string6_groups)
      case 1
      with a eq ne elided_not_plain show ?thesis by metis
    next
      case b: (2 t f)
      from a(1) b(1) eq have eqs: "take s (groups a) = take t (groups b)" "drop e (groups a) = drop f (groups b)"
        using elided_inj by metis+
      have "s = t" using arg_cong [OF eqs(1), of length] a(2,3) b(2,3) by simp
      moreover have "e = f" using arg_cong [OF eqs(2), of length] a(2,3) b(2,3) by simp
      ultimately show ?thesis using eqs a(4) b(4) by metis
    qed
  qed
  then show "a = b" by simp
qed simp

lemma string6_no_sep:
  assumes "c \<notin> digit_chars" "c \<noteq> CHR '':''"
  shows "c \<notin> set (string6 a)"
  by (cases a rule: string6_groups) (use assms render_groups_no_sep in auto)

lemma string6_has_colon: "CHR '':'' \<in> set (string6 a)"
proof (cases a rule: string6_groups)
  case 1
  have "\<exists>x y zs. groups a = x # y # zs" by (simp add: groups_def)
  with 1 show ?thesis by (auto simp: render_groups_def)
qed simp

lemma addr_String_no_slash:
  assumes "addr_IsValid a" "addr_Zone a = []"
  shows "CHR ''/'' \<notin> set (addr_String a)"
  using assms by (cases a) (auto simp: string4_no_sep string6_no_sep)

lemma Is4In6_ucast_inj:
  assumes "drop_bit 32 a = (0xFFFF :: 128 word)" "drop_bit 32 b = (0xFFFF :: 128 word)" "ucast a = (ucast b :: 32 word)"
  shows "a = b"
proof (rule bit_eqI)
  fix n
  assume "possible_bit TYPE(128 word) n"
  show "bit a n = bit b n"
  proof (cases "n < 32")
    case True
    have "bit (ucast a :: 32 word) n = bit (ucast b :: 32 word) n" using assms(3) by simp
    with True show ?thesis by (simp add: bit_simps)
  next
    case False
    have "bit (drop_bit 32 a) (n - 32) = bit (drop_bit 32 b) (n - 32)" using assms(1,2) by simp
    with False show ?thesis by (simp add: bit_simps)
  qed
qed

lemma addr_String_inj:
  assumes "addr_IsValid a" "addr_Zone a = []" "addr_IsValid b" "addr_Zone b = []"
  shows "addr_String a = addr_String b \<longleftrightarrow> a = b"
proof
  assume eq: "addr_String a = addr_String b"
  have colon: "CHR '':'' \<notin> set (string4 x)" for x by (rule string4_no_sep) auto
  have dot: "CHR ''.'' \<notin> set (string6 x)" for x by (rule string6_no_sep) auto
  note marks = colon dot string4_has_dot string6_has_colon
  have neq: "string4 x \<noteq> string6 y" "string4 x \<noteq> CHR '':'' # w" "string6 y \<noteq> w @ string4 x" for x y w
    using marks by (metis, metis list.set_intros(1), metis UnCI set_append)
  have neq2: "CHR '':'' # v @ string4 x \<noteq> string6 y" for x y v
    using neq(3) [of y "CHR '':'' # v" x] by auto
  show "a = b"
  proof (cases a)
    case a: (Addr4 x)
    with assms eq neq show ?thesis by (cases b) (auto split: if_splits)
  next
    case a: (Addr6 x z)
    show ?thesis
    proof (cases b)
      case (Addr4 y)
      have "''::ffff:'' @ w \<noteq> string4 y" for w
        using neq(2) [of y] by (metis append_Cons)
      with Addr4 a assms eq neq(1) show ?thesis by (auto split: if_splits) metis+
    next
      case b: (Addr6 y w)
      have "''::ffff:'' @ string4 u \<noteq> string6 v" for u v
        using neq(3) [of v "''::ffff:''" u] by metis
      with a b assms eq Is4In6_ucast_inj show ?thesis
        by (auto split: if_splits) metis+
    qed (use assms in simp)
  qed (use assms in simp)
qed simp

lemma prefix_String_inj:
  assumes "prefix_ok p" "prefix_IsValid p" "prefix_ok q" "prefix_IsValid q"
  shows "prefix_String p = prefix_String q \<longleftrightarrow> p = q"
proof
  assume eq: "prefix_String p = prefix_String q"
  have wf: "addr_IsValid (prefix_Addr r) \<and> addr_Zone (prefix_Addr r) = []" if "prefix_ok r" "prefix_IsValid r" for r
    using that by (cases rule: prefix_cases_valid) auto
  have split: "split_on CHR ''/'' (prefix_String r) = [addr_String (prefix_Addr r), show_int (prefix_Bits r)]"
    if "prefix_ok r" "prefix_IsValid r" for r
    using that wf [OF that] by (simp add: prefix_String_def split_on_append addr_String_no_slash show_int_sep)
  from eq split assms have "addr_String (prefix_Addr p) = addr_String (prefix_Addr q)" "prefix_Bits p = prefix_Bits q"
    by (metis list.inject, metis list.inject show_int_inj)
  moreover from this have "prefix_Addr p = prefix_Addr q"
    using addr_String_inj wf assms by blast
  ultimately show "p = q" by (simp add: prefix.expand prefix_Bits_def)
qed simp

end
