(* ===== verification/Family.thy ===== *)
theory Family
  imports Netip_String
begin

unbundle bit_operations_syntax

text \<open>
  \<^verbatim>\<open>internal/domain/family.go\<close>: address families, link identities and their validation, default
  prefixes, the prefix predicates every validator uses and the uniqueness scans over addresses,
  prefixes and integers.
\<close>

definition MaximumInterfaceNameBytes :: nat where
  "MaximumInterfaceNameBytes = 15"

text \<open>\<^verbatim>\<open>AddressFamily\<close> is a \<^verbatim>\<open>uint8\<close>: values other than 4 and 6 exist and are rejected by the code.\<close>

type_synonym family = "8 word"

definition IPv4 :: family where
  "IPv4 = 4"

definition IPv6 :: family where
  "IPv6 = 6"

lemma IPv4_neq_IPv6 [simp]: "IPv4 \<noteq> IPv6" "IPv6 \<noteq> IPv4"
  by (simp_all add: IPv4_def IPv6_def)

lemma family_neq_0 [simp]: "IPv4 \<noteq> 0" "IPv6 \<noteq> 0" "0 \<noteq> IPv4" "0 \<noteq> IPv6"
  by (simp_all add: IPv4_def IPv6_def)

record link_identity =
  link_Index :: int
  link_Name :: string

definition LinkZero :: link_identity where
  "LinkZero = \<lparr>link_Index = 0, link_Name = []\<rparr>"

datatype link_error =
    LinkIndexNotPositive int
  | LinkNameEmpty
  | LinkNameTooLong string
  | LinkNameReserved string
  | LinkNameDelimiter string
  | LinkNameControlByte string

definition control_byte :: "char \<Rightarrow> bool" where
  "control_byte c \<longleftrightarrow> (of_char c :: nat) \<le> 32 \<or> (of_char c :: nat) = 127"

definition link_Validate :: "link_identity \<Rightarrow> link_error option" where
  "link_Validate link =
     (if link_Index link \<le> 0 then Some (LinkIndexNotPositive (link_Index link))
      else if link_Name link = [] then Some LinkNameEmpty
      else if length (link_Name link) > MaximumInterfaceNameBytes then Some (LinkNameTooLong (link_Name link))
      else if link_Name link = ''.'' \<or> link_Name link = ''..'' then Some (LinkNameReserved (link_Name link))
      else if CHR ''/'' \<in> set (link_Name link) \<or> CHR '':'' \<in> set (link_Name link)
        then Some (LinkNameDelimiter (link_Name link))
      else if list_ex control_byte (link_Name link) then Some (LinkNameControlByte (link_Name link))
      else None)"

definition link_Valid :: "link_identity \<Rightarrow> bool" where
  "link_Valid link \<longleftrightarrow> link_Validate link = None"

datatype disposition =
    RouteUnicast | RouteBlackhole | RouteUnreachable | RouteProhibit | RouteThrow | RouteUnknown

fun disposition_string :: "disposition \<Rightarrow> string" where
  "disposition_string RouteUnicast = ''unicast''"
| "disposition_string RouteBlackhole = ''blackhole''"
| "disposition_string RouteUnreachable = ''unreachable''"
| "disposition_string RouteProhibit = ''prohibit''"
| "disposition_string RouteThrow = ''throw''"
| "disposition_string RouteUnknown = ''unknown''"

definition DefaultPrefix :: "family \<Rightarrow> prefix" where
  "DefaultPrefix family =
     (if family = IPv4 then PrefixFrom IPv4Unspecified 0 else PrefixFrom IPv6Unspecified 0)"

definition FamilyOfAddress :: "addr \<Rightarrow> family" where
  "FamilyOfAddress a = (if addr_Is4 (addr_Unmap a) then IPv4 else IPv6)"

definition FamilyOfPrefix :: "prefix \<Rightarrow> family" where
  "FamilyOfPrefix p = FamilyOfAddress (prefix_Addr p)"

definition validInterfaceAddressPrefix :: "prefix \<Rightarrow> bool" where
  "validInterfaceAddressPrefix p =
     (if \<not> prefix_IsValid p \<or> prefix_Bits p = 0 \<or> addr_Zone (prefix_Addr p) \<noteq> [] \<or> addr_Is4In6 (prefix_Addr p)
      then False
      else prefix_Bits p \<le> int (addr_BitLen (prefix_Addr p)))"

definition validMaskedPrefix :: "prefix \<Rightarrow> family \<Rightarrow> bool" where
  "validMaskedPrefix p family \<longleftrightarrow> prefix_IsValid p \<and> p = prefix_Masked p \<and> FamilyOfPrefix p = family"

definition prefixesOverlap :: "prefix \<Rightarrow> prefix \<Rightarrow> bool" where
  "prefixesOverlap left right =
     (if \<not> prefix_IsValid left \<or> \<not> prefix_IsValid right \<or> FamilyOfPrefix left \<noteq> FamilyOfPrefix right
      then False
      else prefix_Contains left (prefix_Addr right) \<or> prefix_Contains right (prefix_Addr left))"

text \<open>The uniqueness scans. A label names the list in the error; the joined error is the list of them.\<close>

datatype unique_error =
    NoneGiven string
  | AddressInvalid string addr
  | AddressDuplicated string addr
  | PrefixNotMasked string prefix
  | PrefixDuplicated string prefix
  | PrefixesOverlap string prefix prefix
  | IntegerNotPositive string int
  | IntegerDuplicated string int

definition unusable_address :: "addr \<Rightarrow> bool" where
  "unusable_address a \<longleftrightarrow> \<not> addr_IsValid a \<or> addr_Zone a \<noteq> [] \<or> addr_IsUnspecified a \<or> addr_IsMulticast a"

definition validateUniqueAddresses :: "string \<Rightarrow> addr list \<Rightarrow> bool \<Rightarrow> unique_error list" where
  "validateUniqueAddresses label values requireNonEmpty =
     (if requireNonEmpty \<and> values = [] then [NoneGiven label] else []) @
     scan_seen
       (\<lambda>v. if unusable_address (addr_Unmap v) then [AddressInvalid label v] else [])
       (\<lambda>v. if unusable_address (addr_Unmap v) then None else Some (addr_Unmap v))
       (\<lambda>v. AddressDuplicated label (addr_Unmap v)) [] values"

text \<open>The loop over \<^verbatim>\<open>values[:index]\<close>: \<open>previous\<close> holds the values already passed, in order.\<close>

fun uniquePrefixLoop :: "string \<Rightarrow> prefix list \<Rightarrow> prefix list \<Rightarrow> prefix list \<Rightarrow> unique_error list" where
  "uniquePrefixLoop label previous seen [] = []"
| "uniquePrefixLoop label previous seen (v # vs) =
     (if \<not> prefix_IsValid v \<or> prefix_Bits v = 0 \<or> v \<noteq> prefix_Masked v
      then PrefixNotMasked label v # uniquePrefixLoop label (previous @ [v]) seen vs
      else (if v \<in> set seen then [PrefixDuplicated label v] else []) @
           map (\<lambda>q. PrefixesOverlap label q v) (filter (\<lambda>q. v \<noteq> q \<and> prefixesOverlap v q) previous) @
           uniquePrefixLoop label (previous @ [v]) (v # seen) vs)"

definition validateUniquePrefixes :: "string \<Rightarrow> prefix list \<Rightarrow> unique_error list" where
  "validateUniquePrefixes label values = uniquePrefixLoop label [] [] values"

definition validateUniquePositiveIntegers :: "string \<Rightarrow> int list \<Rightarrow> unique_error list" where
  "validateUniquePositiveIntegers label values =
     scan_seen (\<lambda>v. if v \<le> 0 then [IntegerNotPositive label v] else []) Some (IntegerDuplicated label) [] values"

definition sortedAddresses :: "addr list \<Rightarrow> addr list" where
  "sortedAddresses values = remdups_adj (sort_func addr_Compare (map addr_Unmap values))"

definition compareStrings :: "string \<Rightarrow> string \<Rightarrow> int" where
  "compareStrings left right = (if left < right then - 1 else if right < left then 1 else 0)"

text \<open>The prefixes the scan accepts: masked and not a default route.\<close>

definition masked_nondefault :: "prefix \<Rightarrow> bool" where
  "masked_nondefault p \<longleftrightarrow> prefix_IsValid p \<and> prefix_Bits p \<noteq> 0 \<and> p = prefix_Masked p"

section \<open>Link identities\<close>

lemma link_Valid_iff:
  "link_Valid link \<longleftrightarrow>
     0 < link_Index link \<and> link_Name link \<noteq> [] \<and> length (link_Name link) \<le> 15 \<and>
     link_Name link \<noteq> ''.'' \<and> link_Name link \<noteq> ''..'' \<and>
     (\<forall>c \<in> set (link_Name link). c \<noteq> CHR ''/'' \<and> c \<noteq> CHR '':'' \<and> \<not> control_byte c)"
  by (auto simp: link_Valid_def link_Validate_def MaximumInterfaceNameBytes_def list_ex_iff)

lemma LinkZero_invalid [simp]: "\<not> link_Valid LinkZero"
  by (simp add: link_Valid_iff LinkZero_def)

lemma link_Validate_None [simp]: "link_Validate link = None \<longleftrightarrow> link_Valid link"
  by (simp add: link_Valid_def)

lemma link_Valid_not_Zero: "link_Valid link \<Longrightarrow> link \<noteq> LinkZero"
  by auto

text \<open>Validity of the name does not depend on which positive index carries it.\<close>

lemma link_Valid_reindex:
  "link_Valid \<lparr>link_Index = i, link_Name = n\<rparr> \<Longrightarrow> 0 < j \<Longrightarrow> link_Valid \<lparr>link_Index = j, link_Name = n\<rparr>"
  by (simp add: link_Valid_iff)

section \<open>Families and default prefixes\<close>

lemma FamilyOfAddress_cases: "FamilyOfAddress a = IPv4 \<or> FamilyOfAddress a = IPv6"
  by (simp add: FamilyOfAddress_def)

lemma FamilyOfAddress_Unmap [simp]: "FamilyOfAddress (addr_Unmap a) = FamilyOfAddress a"
  by (simp add: FamilyOfAddress_def)

lemma DefaultPrefix_simps:
  "DefaultPrefix IPv4 = Prefix (Addr4 0) 1" "DefaultPrefix IPv6 = Prefix (Addr6 0 []) 1"
  by (simp_all add: DefaultPrefix_def PrefixFrom_def IPv4Unspecified_def IPv6Unspecified_def)

lemma Default_family_cases [consumes 1]:
  assumes "family = IPv4 \<or> family = IPv6"
  obtains "family = IPv4" "DefaultPrefix family = Prefix (Addr4 0) 1"
  | "family = IPv6" "DefaultPrefix family = Prefix (Addr6 0 []) 1"
  using assms DefaultPrefix_simps by auto

lemma DefaultPrefix_ok [simp]: "prefix_ok (DefaultPrefix family)"
  by (simp add: DefaultPrefix_def)

lemma DefaultPrefix_valid [simp]: "prefix_IsValid (DefaultPrefix family)"
  by (simp add: DefaultPrefix_def prefix_IsValid_PrefixFrom IPv4Unspecified_def IPv6Unspecified_def)

lemma DefaultPrefix_Bits [simp]: "prefix_Bits (DefaultPrefix family) = 0"
  by (simp add: DefaultPrefix_def prefix_Bits_def PrefixFrom_def IPv4Unspecified_def IPv6Unspecified_def)

lemma DefaultPrefix_Masked [simp]: "prefix_Masked (DefaultPrefix family) = DefaultPrefix family"
  by (simp add: DefaultPrefix_def PrefixFrom_def IPv4Unspecified_def IPv6Unspecified_def
      prefix_Masked4 [of 0, simplified] prefix_Masked6 [of 0, simplified])

lemma DefaultPrefix_family [simp]:
  "FamilyOfPrefix (DefaultPrefix IPv4) = IPv4" "FamilyOfPrefix (DefaultPrefix IPv6) = IPv6"
  by (simp_all add: DefaultPrefix_simps FamilyOfPrefix_def FamilyOfAddress_def)

lemma DefaultPrefix_inj [simp]: "DefaultPrefix IPv4 \<noteq> DefaultPrefix IPv6" "DefaultPrefix IPv6 \<noteq> DefaultPrefix IPv4"
  by (simp_all add: DefaultPrefix_simps)

lemma validMaskedPrefix_Default [simp]:
  "family = IPv4 \<or> family = IPv6 \<Longrightarrow> validMaskedPrefix (DefaultPrefix family) family"
  by (auto simp: validMaskedPrefix_def)

lemma validMaskedPrefix_ok: "validMaskedPrefix p family \<Longrightarrow> prefix_ok p"
  using prefix_ok_Masked [of p] by (simp add: validMaskedPrefix_def)

section \<open>Overlap\<close>

lemma prefixesOverlap_sym: "prefixesOverlap p q = prefixesOverlap q p"
  by (auto simp: prefixesOverlap_def)

lemma prefixesOverlap_refl: "prefix_ok p \<Longrightarrow> prefix_IsValid p \<Longrightarrow> prefixesOverlap p p"
  by (simp add: prefixesOverlap_def prefix_Contains_Addr)

lemma prefixesOverlap_iff:
  assumes "prefix_ok p" "prefix_ok q" "prefix_IsValid p" "prefix_IsValid q" "FamilyOfPrefix p = FamilyOfPrefix q"
  shows "prefixesOverlap p q \<longleftrightarrow> (\<exists>a. prefix_Contains p a \<and> prefix_Contains q a)"
proof
  assume "prefixesOverlap p q"
  with assms show "\<exists>a. prefix_Contains p a \<and> prefix_Contains q a"
    by (auto simp: prefixesOverlap_def dest: prefix_Contains_Addr)
next
  assume "\<exists>a. prefix_Contains p a \<and> prefix_Contains q a"
  then obtain a where a: "prefix_Contains p a" "prefix_Contains q a" by blast
  show "prefixesOverlap p q"
  proof (cases "prefix_Bits p \<le> prefix_Bits q")
    case True
    with assms a show ?thesis by (auto simp: prefixesOverlap_def intro: prefix_Contains_nested)
  next
    case False
    with assms a show ?thesis
      using prefix_Contains_nested [of q p a] by (simp add: prefixesOverlap_def)
  qed
qed

section \<open>Uniqueness scans\<close>

lemma map_filter_cond: "List.map_filter (\<lambda>x. if P x then None else Some (f x)) xs = map f (filter (\<lambda>x. \<not> P x) xs)"
  by (induction xs) auto

lemma validateUniqueAddresses_Nil_iff:
  "validateUniqueAddresses label values req = [] \<longleftrightarrow>
     (req \<longrightarrow> values \<noteq> []) \<and> (\<forall>v \<in> set values. \<not> unusable_address (addr_Unmap v)) \<and>
     distinct (map addr_Unmap values)"
proof -
  have "filter (\<lambda>v. \<not> unusable_address (addr_Unmap v)) values = values"
    if "\<forall>v \<in> set values. \<not> unusable_address (addr_Unmap v)"
    using that by simp
  then show ?thesis
    by (auto simp: validateUniqueAddresses_def scan_seen_Nil_iff map_filter_cond split: if_splits)
qed

lemma masked_nondefault_ok: "masked_nondefault p \<Longrightarrow> prefix_ok p"
  using prefix_ok_Masked [of p] by (simp add: masked_nondefault_def)

lemma uniquePrefixLoop_Nil_iff:
  "uniquePrefixLoop label previous seen vs = [] \<longleftrightarrow>
     (\<forall>v \<in> set vs. masked_nondefault v \<and> (\<forall>q \<in> set previous. v \<noteq> q \<longrightarrow> \<not> prefixesOverlap v q)) \<and>
     distinct vs \<and> set vs \<inter> set seen = {} \<and>
     pairwise (\<lambda>p q. \<not> prefixesOverlap p q) (set vs)"
proof (induction vs arbitrary: previous seen)
  case (Cons v vs)
  have "pairwise (\<lambda>p q. \<not> prefixesOverlap p q) (set (v # vs)) \<longleftrightarrow>
    pairwise (\<lambda>p q. \<not> prefixesOverlap p q) (set vs) \<and> (\<forall>q \<in> set vs. q \<noteq> v \<longrightarrow> \<not> prefixesOverlap q v)"
    by (auto simp: pairwise_insert prefixesOverlap_sym)
  with Cons.IH show ?case
    by (auto simp: masked_nondefault_def filter_empty_conv)
qed simp

lemma validateUniquePrefixes_Nil_iff:
  "validateUniquePrefixes label vs = [] \<longleftrightarrow>
     (\<forall>v \<in> set vs. masked_nondefault v) \<and> distinct vs \<and> pairwise (\<lambda>p q. \<not> prefixesOverlap p q) (set vs)"
  by (auto simp: validateUniquePrefixes_def uniquePrefixLoop_Nil_iff)

lemma validateUniquePositiveIntegers_Nil_iff:
  "validateUniquePositiveIntegers label vs = [] \<longleftrightarrow> (\<forall>v \<in> set vs. 0 < v) \<and> distinct vs"
  by (auto simp: validateUniquePositiveIntegers_def scan_seen_Nil_iff map_filter_Some [of _ _ "\<lambda>x. x"] split: if_splits)

section \<open>Normal forms\<close>

lemma sortedAddresses_eq: "sortedAddresses values = sorted_list_of_set (addr_Unmap ` set values)"
  by (simp add: sortedAddresses_def addr_sort compact_sort)

lemma set_sortedAddresses [simp]: "set (sortedAddresses values) = addr_Unmap ` set values"
  by (simp add: sortedAddresses_eq)

lemma sortedAddresses_Nil_iff [simp]: "sortedAddresses values = [] \<longleftrightarrow> values = []"
  by (metis image_is_empty set_empty set_sortedAddresses)

interpretation string_cmp: comparator_key compareStrings "\<lambda>s::string. s"
  by standard (auto simp: compareStrings_def)

end
