(* ===== verification/Keyed_Diff.thy ===== *)
theory Keyed_Diff
  imports Prelude
begin

text \<open>
  The diff of two lists indexed by an identity string, as the routing planner computes it once for
  routes and once for rules. The functions below are the bodies of its loops over the two index
  maps; \<open>keyed_diff\<close> states what identity and equality must satisfy and proves the diff sound and
  complete once for both clients.
\<close>

type_synonym 'a index = "(string \<times> 'a) list"

text \<open>
  The loop that fills an index map: an element fails its checks, repeats an identity or is recorded.
  \<open>acc\<close> is the map filled so far, in insertion order.
\<close>

fun index_loop ::
  "('a \<Rightarrow> 'e option) \<Rightarrow> ('a \<Rightarrow> string) \<Rightarrow> (string \<Rightarrow> 'e) \<Rightarrow> 'a index \<Rightarrow> 'a list \<Rightarrow> ('e, 'a index) result" where
  "index_loop chk key dup acc [] = Inr acc"
| "index_loop chk key dup acc (x # xs) =
     (case chk x of
        Some e \<Rightarrow> Inl e
      | None \<Rightarrow>
          if map_of acc (key x) \<noteq> None then Inl (dup (key x))
          else index_loop chk key dup (acc @ [(key x, x)]) xs)"

text \<open>Desired entries that are absent or different in the observed index.\<close>

definition diff_missing :: "('a \<Rightarrow> 'a \<Rightarrow> bool) \<Rightarrow> 'a index \<Rightarrow> 'a index \<Rightarrow> 'a list" where
  "diff_missing eq desired observed =
     map snd (filter (\<lambda>(k, v). case map_of observed k of None \<Rightarrow> True | Some w \<Rightarrow> \<not> eq v w) desired)"

text \<open>Observed entries whose identity is desired with a different value.\<close>

definition diff_replaced :: "('a \<Rightarrow> 'a \<Rightarrow> bool) \<Rightarrow> 'a index \<Rightarrow> 'a index \<Rightarrow> 'a list" where
  "diff_replaced eq desired observed =
     List.map_filter (\<lambda>(k, v). case map_of observed k of
       None \<Rightarrow> None | Some w \<Rightarrow> if eq v w then None else Some w) desired"

text \<open>Observed entries whose identity is not desired.\<close>

definition diff_extra :: "'a index \<Rightarrow> 'a index \<Rightarrow> 'a list" where
  "diff_extra desired observed =
     map snd (filter (\<lambda>(k, w). map_of desired k = None) observed)"

text \<open>The index of a list of values with distinct identities.\<close>

definition index_by :: "('a \<Rightarrow> string) \<Rightarrow> 'a list \<Rightarrow> 'a index" where
  "index_by key xs = map (\<lambda>x. (key x, x)) xs"

text \<open>
  Two kinds of store. In the first an insertion replaces the value of its identity and a deletion removes it; in the second an
  insertion adds a value beside whatever is there and a deletion removes exactly the value it names.
\<close>

definition store_put :: "('a \<Rightarrow> string) \<Rightarrow> 'a \<Rightarrow> 'a list \<Rightarrow> 'a list" where
  "store_put key x xs = filter (\<lambda>y. key y \<noteq> key x) xs @ [x]"

definition store_drop :: "('a \<Rightarrow> string) \<Rightarrow> 'a \<Rightarrow> 'a list \<Rightarrow> 'a list" where
  "store_drop key x xs = filter (\<lambda>y. key y \<noteq> key x) xs"

definition bag_add :: "'a \<Rightarrow> 'a list \<Rightarrow> 'a list" where
  "bag_add x xs = xs @ [x]"

definition bag_remove :: "'a \<Rightarrow> 'a list \<Rightarrow> 'a list" where
  "bag_remove x xs = filter (\<lambda>y. y \<noteq> x) xs"

lemma fold_store_put:
  "distinct (map key us) \<Longrightarrow> fold (store_put key) us xs = filter (\<lambda>x. key x \<notin> key ` set us) xs @ us"
proof (induction us arbitrary: xs)
  case (Cons u us)
  then have "key u \<notin> key ` set us" by auto
  with Cons show ?case by (auto simp: store_put_def intro: filter_cong)
qed simp

lemma fold_store_drop: "fold (store_drop key) ds xs = filter (\<lambda>x. key x \<notin> key ` set ds) xs"
  by (induction ds arbitrary: xs) (auto simp: store_drop_def intro: filter_cong)

lemma fold_bag_add: "fold bag_add us xs = xs @ us"
  by (induction us arbitrary: xs) (auto simp: bag_add_def)

lemma fold_bag_remove: "fold bag_remove ds xs = filter (\<lambda>x. x \<notin> set ds) xs"
  by (induction ds arbitrary: xs) (auto simp: bag_remove_def intro: filter_cong)

lemma map_of_index_by:
  "distinct (map key xs) \<Longrightarrow> map_of (index_by key xs) k = Some x \<longleftrightarrow> x \<in> set xs \<and> key x = k"
  by (auto simp: index_by_def map_of_eq_Some_iff comp_def)

lemma map_of_index_by_None: "map_of (index_by key xs) k = None \<longleftrightarrow> k \<notin> key ` set xs"
  by (auto simp: index_by_def map_of_eq_None_iff image_iff)

lemma index_by_Nil [simp]: "index_by key [] = []"
  by (simp add: index_by_def)

lemma index_by_snoc: "index_by key xs @ [(key x, x)] = index_by key (xs @ [x])"
  by (simp add: index_by_def)

lemma index_loop_Inr_iff:
  "index_loop chk key dup (index_by key acc) xs = Inr m \<longleftrightarrow>
     (\<forall>x \<in> set xs. chk x = None) \<and> distinct (map key xs) \<and> key ` set xs \<inter> key ` set acc = {} \<and>
     m = index_by key (acc @ xs)"
proof (induction xs arbitrary: acc)
  case (Cons x xs)
  have seen: "map_of (index_by key acc) (key x) = None \<longleftrightarrow> key x \<notin> key ` set acc"
    by (rule map_of_index_by_None)
  show ?case
    by (cases "chk x") (auto simp: seen index_by_snoc Cons.IH simp del: not_None_eq)
qed auto

lemma index_loop_Nil_Inr_iff:
  "index_loop chk key dup [] xs = Inr m \<longleftrightarrow>
     (\<forall>x \<in> set xs. chk x = None) \<and> distinct (map key xs) \<and> m = index_by key xs"
  using index_loop_Inr_iff [of chk key dup "[]" xs m] by simp

lemma set_eq_mset_eq: "distinct xs \<Longrightarrow> distinct ys \<Longrightarrow> set xs = set ys \<longleftrightarrow> mset xs = mset ys"
  by (rule set_eq_iff_mset_eq_distinct)

locale keyed_diff = comparator_key cmp key
  for cmp :: "'a \<Rightarrow> 'a \<Rightarrow> int" and key :: "'a \<Rightarrow> string" +
  fixes eq :: "'a \<Rightarrow> 'a \<Rightarrow> bool" and ok :: "'a \<Rightarrow> bool"
  assumes eq_iff: "ok x \<Longrightarrow> ok y \<Longrightarrow> eq x y \<longleftrightarrow> x = y"
begin

definition indexed :: "'a list \<Rightarrow> bool" where
  "indexed xs \<longleftrightarrow> distinct (map key xs) \<and> (\<forall>x \<in> set xs. ok x)"

lemma indexed_distinct: "indexed xs \<Longrightarrow> distinct xs"
  by (simp add: indexed_def distinct_map)

lemma indexed_inj: "indexed xs \<Longrightarrow> x \<in> set xs \<Longrightarrow> y \<in> set xs \<Longrightarrow> key x = key y \<Longrightarrow> x = y"
  by (simp add: indexed_def distinct_map inj_on_def)

lemma lookup_differs:
  assumes d: "indexed d" and c: "indexed c" and x: "x \<in> set d"
  shows "(case map_of (index_by key c) (key x) of None \<Rightarrow> True | Some w \<Rightarrow> \<not> eq x w) \<longleftrightarrow> x \<notin> set c"
proof (cases "map_of (index_by key c) (key x)")
  case None
  then have "key x \<notin> key ` set c" by (rule map_of_index_by_None [THEN iffD1])
  then have "x \<notin> set c" by blast
  with None show ?thesis by simp
next
  case (Some w)
  with c have w: "w \<in> set c" "key w = key x"
    by (simp_all add: indexed_def map_of_index_by)
  have "eq x w \<longleftrightarrow> x = w"
    using d c x w(1) by (intro eq_iff) (simp_all add: indexed_def)
  moreover have "x \<in> set c \<longleftrightarrow> x = w"
    using w indexed_inj [OF c w(1)] by metis
  ultimately show ?thesis using Some by simp
qed

lemma missing_eq:
  assumes d: "indexed d" and c: "indexed c"
  shows "diff_missing eq (index_by key d) (index_by key c) = filter (\<lambda>x. x \<notin> set c) d"
proof -
  have "diff_missing eq (index_by key d) (index_by key c) =
    filter (\<lambda>x. case map_of (index_by key c) (key x) of None \<Rightarrow> True | Some w \<Rightarrow> \<not> eq x w) d"
    unfolding diff_missing_def index_by_def [of key d] by (simp add: filter_map comp_def)
  also have "\<dots> = filter (\<lambda>x. x \<notin> set c) d"
    by (intro filter_cong refl lookup_differs [OF d c])
  finally show ?thesis .
qed

lemma extra_eq: "diff_extra (index_by key d) (index_by key c) = filter (\<lambda>x. key x \<notin> key ` set d) c"
  unfolding diff_extra_def index_by_def [of key c]
  by (simp add: filter_map comp_def map_of_index_by_None)

lemma set_replaced:
  assumes d: "indexed d" and c: "indexed c"
  shows "set (diff_replaced eq (index_by key d) (index_by key c)) =
           {w \<in> set c. key w \<in> key ` set d \<and> w \<notin> set d}"
proof -
  have "set (diff_replaced eq (index_by key d) (index_by key c)) =
    {w. \<exists>v \<in> set d. map_of (index_by key c) (key v) = Some w \<and> \<not> eq v w}"
    by (force simp: diff_replaced_def index_by_def [of key d] set_map_filter_eq split: option.splits if_splits)
  also have "\<dots> = {w. \<exists>v \<in> set d. w \<in> set c \<and> key w = key v \<and> v \<noteq> w}"
    using d c eq_iff by (fastforce simp: indexed_def map_of_index_by)
  also have "\<dots> = {w \<in> set c. key w \<in> key ` set d \<and> w \<notin> set d}"
    using indexed_inj [OF d] by (auto simp: image_iff)
  finally show ?thesis .
qed

lemma diff_empty_iff:
  assumes "indexed d" "indexed c"
  shows "diff_missing eq (index_by key d) (index_by key c) = [] \<and>
         diff_extra (index_by key d) (index_by key c) = [] \<longleftrightarrow> mset d = mset c"
proof -
  have "diff_missing eq (index_by key d) (index_by key c) = [] \<and>
         diff_extra (index_by key d) (index_by key c) = [] \<longleftrightarrow>
        set d \<subseteq> set c \<and> key ` set c \<subseteq> key ` set d"
    using assms by (auto simp: missing_eq extra_eq filter_empty_conv)
  also have "\<dots> \<longleftrightarrow> set d = set c"
    using indexed_inj [OF assms(2)] by (blast dest: subsetD)
  also have "\<dots> \<longleftrightarrow> mset d = mset c"
    using assms by (simp add: set_eq_mset_eq indexed_distinct)
  finally show ?thesis .
qed

text \<open>
  A map may be walked in any order: the diff lists of two listings of the same maps are
  permutations of each other, with distinct identities, so sorting them gives the same list.
\<close>

definition keyed :: "'a index \<Rightarrow> bool" where
  "keyed m \<longleftrightarrow> distinct (map fst m) \<and> (\<forall>(k, x) \<in> set m. key x = k)"

lemma keyed_index_by: "distinct (map key xs) \<Longrightarrow> keyed (index_by key xs)"
  by (auto simp: keyed_def index_by_def comp_def)

lemma keyed_map_key: "keyed m \<Longrightarrow> map key (map snd (filter P m)) = map fst (filter P m)"
  by (auto simp: keyed_def)

lemma keyed_distinct: "keyed m \<Longrightarrow> distinct (map key (map snd (filter P m)))"
  unfolding keyed_map_key by (simp add: keyed_def distinct_map_filter)

lemma keyed_replaced:
  assumes "keyed c"
  shows "map key (diff_replaced eq d c) =
    map fst (filter (\<lambda>(k, v). case map_of c k of None \<Rightarrow> False | Some w \<Rightarrow> \<not> eq v w) d)"
proof -
  have "key w = k" if "map_of c k = Some w" for k w
    using assms map_of_SomeD [OF that] by (auto simp: keyed_def)
  then show ?thesis
    unfolding diff_replaced_def
    by (induction d) (auto simp: List.map_filter_simps split: option.splits)
qed

lemma perm_map_of: "keyed m \<Longrightarrow> mset m' = mset m \<Longrightarrow> map_of m' = map_of m"
  by (metis keyed_def map_of_inject_set mset_eq_imp_distinct_iff mset_eq_setD mset_map)

lemma sorted_missing_perm:
  assumes "keyed d" "keyed c" "mset d' = mset d" "mset c' = mset c"
  shows "sort_func cmp (diff_missing eq d' c') = sort_func cmp (diff_missing eq d c)"
  by (rule sort_func_perm [symmetric])
    (simp_all add: diff_missing_def perm_map_of [OF assms(2,4)] assms keyed_distinct del: map_map)

lemma sorted_extra_perm:
  assumes "keyed d" "keyed c" "mset d' = mset d" "mset c' = mset c"
  shows "sort_func cmp (diff_extra d' c') = sort_func cmp (diff_extra d c)"
  by (rule sort_func_perm [symmetric])
    (simp_all add: diff_extra_def perm_map_of [OF assms(1,3)] assms keyed_distinct del: map_map)

lemma sorted_removed_perm:
  assumes k: "keyed d" "keyed c" and m: "mset d' = mset d" "mset c' = mset c"
  shows "sort_func cmp (diff_replaced eq d' c' @ diff_extra d' c') =
         sort_func cmp (diff_replaced eq d c @ diff_extra d c)"
proof (rule sort_func_perm [symmetric])
  show "mset (diff_replaced eq d c @ diff_extra d c) = mset (diff_replaced eq d' c' @ diff_extra d' c')"
    by (simp add: diff_replaced_def diff_extra_def List.map_filter_def m
        perm_map_of [OF k(1) m(1)] perm_map_of [OF k(2) m(2)])
  have fresh: "key x \<notin> set (map fst d)" if "x \<in> set (diff_extra d c)" for x
  proof -
    from that obtain a where a: "(a, x) \<in> set c" "a \<notin> fst ` set d"
      by (auto simp: diff_extra_def map_of_eq_None_iff)
    with k(2) have "key x = a" by (auto simp: keyed_def)
    with a(2) show ?thesis by simp
  qed
  have "set (map key (diff_replaced eq d c)) \<subseteq> set (map fst d)"
    unfolding keyed_replaced [OF k(2)] by auto
  then have disj: "set (map key (diff_replaced eq d c)) \<inter> set (map key (diff_extra d c)) = {}"
    unfolding set_map [of key "diff_extra d c"] disjoint_iff image_iff using fresh by blast
  have "distinct (map key (diff_replaced eq d c))"
    unfolding keyed_replaced [OF k(2)] using k(1) by (simp add: keyed_def distinct_map_filter)
  moreover have "distinct (map key (diff_extra d c))"
    unfolding diff_extra_def by (rule keyed_distinct [OF k(2)])
  ultimately show "distinct (map key (diff_replaced eq d c @ diff_extra d c))"
    using disj by (simp only: map_append distinct_append simp_thms)
qed

text \<open>
  Applying the diff to the observed values gives the desired ones. Where an insertion replaces, only the values whose identity is
  not desired have to be deleted; where it does not, the replaced values have to be deleted as well.
\<close>

lemma store_converges:
  assumes d: "indexed d" and c: "indexed c"
    and ins: "set inserted = set d - set c" "distinct inserted"
    and del: "set deleted = {w \<in> set c. key w \<notin> key ` set d}"
  shows "mset (fold (store_drop key) deleted (fold (store_put key) inserted c)) = mset d"
proof -
  have "distinct (map key inserted)" using ins d by (auto simp: distinct_map indexed_def inj_on_def)
  then have eq: "fold (store_drop key) deleted (fold (store_put key) inserted c) =
      filter (\<lambda>x. key x \<notin> key ` set deleted) (filter (\<lambda>x. key x \<notin> key ` set inserted) c @ inserted)"
    by (simp add: fold_store_put fold_store_drop)
  have kept: "x \<in> set d" if "x \<in> set c" "key x \<notin> key ` set deleted" "key x \<notin> key ` set inserted" for x
  proof -
    from that(1,2) del have "key x \<in> key ` set d" by blast
    then obtain y where y: "y \<in> set d" "key y = key x" by auto
    with that(3) ins(1) have "y \<in> set c" by (metis DiffI imageI)
    with y that(1) show ?thesis using indexed_inj [OF c] by blast
  qed
  have fresh: "key x \<notin> key ` set deleted" if "x \<in> set d" for x using that by (auto simp: del) (metis imageI)
  have stays: "key x \<notin> key ` set inserted" if "x \<in> set d" "x \<in> set c" for x
    using that ins(1) indexed_inj [OF d that(1)] by (auto simp: image_iff)
  have "set (fold (store_drop key) deleted (fold (store_put key) inserted c)) = set d"
    unfolding eq set_filter set_append ins(1) using kept fresh stays [unfolded ins(1)] ins(1) by blast
  moreover have "distinct (fold (store_drop key) deleted (fold (store_put key) inserted c))"
    unfolding eq using ins(2) indexed_distinct [OF c] by auto
  ultimately show ?thesis using d by (simp add: set_eq_mset_eq [symmetric] indexed_distinct)
qed

lemma bag_converges:
  assumes d: "indexed d" and c: "indexed c"
    and ins: "set inserted = set d - set c" "distinct inserted" and del: "set deleted = set c - set d"
  shows "mset (fold bag_remove deleted (fold bag_add inserted c)) = mset d"
proof -
  have "distinct (fold bag_remove deleted (fold bag_add inserted c))"
    using ins indexed_distinct [OF c] by (auto simp: fold_bag_add fold_bag_remove)
  moreover have "set (fold bag_remove deleted (fold bag_add inserted c)) = set d"
    using ins(1) del by (auto simp: fold_bag_add fold_bag_remove)
  ultimately show ?thesis using d by (simp add: set_eq_mset_eq [symmetric] indexed_distinct)
qed

end

end
