(* ===== verification/Routing.thy ===== *)
theory Routing
  imports Family Keyed_Diff
begin

text \<open>
  \<^verbatim>\<open>internal/domain/routing.go\<close>: routes, policy rules, the ownership of tables and priorities, and the
  diff between the desired and the observed routing state. Routes and rules are two clients of
  \<open>keyed_diff\<close>: their identity strings are injective on the identity fields, so that the diff, its
  convergence and its independence of the iteration order of Go maps come from the locale.
\<close>

section \<open>Routes and rules\<close>

definition maximumNetlinkInteger :: int where
  "maximumNetlinkInteger = 2147483647"

record route =
  route_Family :: family
  route_Disposition :: disposition
  route_Table :: int
  route_Prefix :: prefix
  route_Gateway :: addr
  route_Link :: link_identity
  route_OnLink :: bool
  route_Metric :: int
  route_UnexpectedAttributes :: bool

datatype route_error =
    RouteHasUnexpectedAttributes
  | RouteUnsupportedFamily family
  | RouteTableNotPositive int
  | RoutePrefixMismatch prefix family
  | RouteMetricOutOfRange int
  | RouteInvalidLink prefix link_error
  | RouteInvalidGateway prefix addr
  | RouteOnLinkWithoutGateway prefix
  | BlackholeCarriesNextHop prefix
  | RouteUnsupportedDisposition prefix disposition
  | ObservedRouteInvalid int prefix int

definition unicast_Validate :: "route \<Rightarrow> route_error option" where
  "unicast_Validate route =
     (case link_Validate (route_Link route) of
        Some e \<Rightarrow> Some (RouteInvalidLink (route_Prefix route) e)
      | None \<Rightarrow>
          if addr_IsValid (route_Gateway route) then
            (let gateway = addr_Unmap (route_Gateway route) in
             if addr_Zone gateway \<noteq> [] \<or> FamilyOfAddress gateway \<noteq> route_Family route
             then Some (RouteInvalidGateway (route_Prefix route) (route_Gateway route)) else None)
          else if route_OnLink route then Some (RouteOnLinkWithoutGateway (route_Prefix route))
          else None)"

definition route_Validate :: "route \<Rightarrow> route_error option" where
  "route_Validate route =
     (if route_UnexpectedAttributes route then Some RouteHasUnexpectedAttributes
      else if route_Family route \<noteq> IPv4 \<and> route_Family route \<noteq> IPv6
        then Some (RouteUnsupportedFamily (route_Family route))
      else if route_Table route \<le> 0 then Some (RouteTableNotPositive (route_Table route))
      else if \<not> validMaskedPrefix (route_Prefix route) (route_Family route)
        then Some (RoutePrefixMismatch (route_Prefix route) (route_Family route))
      else if route_Metric route \<le> 0 \<or> route_Metric route > maximumNetlinkInteger
        then Some (RouteMetricOutOfRange (route_Metric route))
      else case route_Disposition route of
        RouteUnicast \<Rightarrow> unicast_Validate route
      | RouteBlackhole \<Rightarrow>
          if route_Link route \<noteq> LinkZero \<or> addr_IsValid (route_Gateway route) \<or> route_OnLink route
          then Some (BlackholeCarriesNextHop (route_Prefix route)) else None
      | other \<Rightarrow> Some (RouteUnsupportedDisposition (route_Prefix route) other))"

record rule =
  rule_Family :: family
  rule_Priority :: int
  rule_Table :: int
  rule_IncomingInterface :: string
  rule_Mark :: "32 word"
  rule_Mask :: "32 word"
  rule_UnexpectedMatch :: bool

datatype rule_error =
    RuleHasUnexpectedMatch
  | RuleUnsupportedFamily family
  | RuleNotPositive int int
  | RuleInvalidInterface link_error
  | RuleMarkMaskMismatch
  | RuleCombinesSelectors
  | RuleWithoutSelector
  | ObservedRuleInvalid int int

definition rule_Validate :: "rule \<Rightarrow> rule_error option" where
  "rule_Validate rule =
     (if rule_UnexpectedMatch rule then Some RuleHasUnexpectedMatch
      else if rule_Family rule \<noteq> IPv4 \<and> rule_Family rule \<noteq> IPv6
        then Some (RuleUnsupportedFamily (rule_Family rule))
      else if rule_Priority rule \<le> 0 \<or> rule_Table rule \<le> 0
        then Some (RuleNotPositive (rule_Priority rule) (rule_Table rule))
      else case (if rule_IncomingInterface rule \<noteq> []
                 then link_Validate \<lparr>link_Index = 1, link_Name = rule_IncomingInterface rule\<rparr> else None) of
        Some e \<Rightarrow> Some (RuleInvalidInterface e)
      | None \<Rightarrow>
          if rule_Mark rule = 0 \<and> rule_Mask rule \<noteq> 0 \<or> rule_Mark rule \<noteq> 0 \<and> rule_Mask rule = 0
            then Some RuleMarkMaskMismatch
          else if rule_IncomingInterface rule \<noteq> [] \<and> rule_Mark rule \<noteq> 0 then Some RuleCombinesSelectors
          else if rule_IncomingInterface rule = [] \<and> rule_Mark rule = 0 then Some RuleWithoutSelector
          else None)"

section \<open>States, ownership and changes\<close>

record routing_state =
  rs_Routes :: "route list"
  rs_Rules :: "rule list"

record exit_default_route_set =
  ex_IPv4 :: bool
  ex_IPv6 :: bool

definition ExitNone :: exit_default_route_set where
  "ExitNone = \<lparr>ex_IPv4 = False, ex_IPv6 = False\<rparr>"

definition AllExitDefaultRoutes :: exit_default_route_set where
  "AllExitDefaultRoutes = \<lparr>ex_IPv4 = True, ex_IPv6 = True\<rparr>"

definition exit_Empty :: "exit_default_route_set \<Rightarrow> bool" where
  "exit_Empty routes \<longleftrightarrow> \<not> ex_IPv4 routes \<and> \<not> ex_IPv6 routes"

definition exit_Equal :: "exit_default_route_set \<Rightarrow> exit_default_route_set \<Rightarrow> bool" where
  "exit_Equal routes other \<longleftrightarrow> ex_IPv4 routes = ex_IPv4 other \<and> ex_IPv6 routes = ex_IPv6 other"

definition exit_Contains :: "exit_default_route_set \<Rightarrow> family \<Rightarrow> bool" where
  "exit_Contains routes family =
     (if family = IPv4 then ex_IPv4 routes else if family = IPv6 then ex_IPv6 routes else False)"

record routing_ownership =
  own_Tables :: "int list"
  own_RulePriorities :: "int list"

datatype ownership_error = NoOwnedTable | NoOwnedPriority | OwnedNotUnique "unique_error list"

definition ownership_Validate :: "routing_ownership \<Rightarrow> ownership_error list" where
  "ownership_Validate ownership =
     error_if (length (own_Tables ownership) = 0) NoOwnedTable @
     error_if (length (own_RulePriorities ownership) = 0) NoOwnedPriority @
     wrap_errors OwnedNotUnique (validateUniquePositiveIntegers ''route table'' (own_Tables ownership)) @
     wrap_errors OwnedNotUnique
       (validateUniquePositiveIntegers ''rule priority'' (own_RulePriorities ownership))"

record routing_changes =
  ch_UpsertRoutes :: "route list"
  ch_DeleteRules :: "rule list"
  ch_AddRules :: "rule list"
  ch_DeleteRoutes :: "route list"

definition ChangesZero :: routing_changes where
  "ChangesZero = \<lparr>ch_UpsertRoutes = [], ch_DeleteRules = [], ch_AddRules = [], ch_DeleteRoutes = []\<rparr>"

definition changes_Empty :: "routing_changes \<Rightarrow> bool" where
  "changes_Empty changes \<longleftrightarrow>
     length (ch_UpsertRoutes changes) = 0 \<and> length (ch_DeleteRules changes) = 0 \<and>
     length (ch_AddRules changes) = 0 \<and> length (ch_DeleteRoutes changes) = 0"

definition changes_Equal :: "routing_changes \<Rightarrow> routing_changes \<Rightarrow> bool" where
  "changes_Equal changes other \<longleftrightarrow>
     ch_UpsertRoutes changes = ch_UpsertRoutes other \<and> ch_DeleteRules changes = ch_DeleteRules other \<and>
     ch_AddRules changes = ch_AddRules other \<and> ch_DeleteRoutes changes = ch_DeleteRoutes other"

section \<open>Identity, equality and order\<close>

definition routeKey :: "route \<Rightarrow> string" where
  "routeKey route =
     show_dec (unat (route_Family route)) @ ''/'' @ disposition_string (route_Disposition route) @ ''/'' @
     show_int (route_Table route) @ ''/'' @ prefix_String (prefix_Masked (route_Prefix route)) @ ''/'' @
     show_int (route_Metric route)"

definition ruleKey :: "rule \<Rightarrow> string" where
  "ruleKey rule = show_dec (unat (rule_Family rule)) @ ''/'' @ show_int (rule_Priority rule)"

definition routeEqual :: "route \<Rightarrow> route \<Rightarrow> bool" where
  "routeEqual left right \<longleftrightarrow>
     route_Family left = route_Family right \<and> route_Disposition left = route_Disposition right \<and>
     route_Table left = route_Table right \<and>
     prefix_Masked (route_Prefix left) = prefix_Masked (route_Prefix right) \<and>
     route_Gateway left = route_Gateway right \<and> route_Link left = route_Link right \<and>
     route_OnLink left = route_OnLink right \<and> route_Metric left = route_Metric right \<and>
     route_UnexpectedAttributes left = route_UnexpectedAttributes right"

definition ruleEqual :: "rule \<Rightarrow> rule \<Rightarrow> bool" where
  "ruleEqual left right \<longleftrightarrow>
     rule_Family left = rule_Family right \<and> rule_Priority left = rule_Priority right \<and>
     rule_Table left = rule_Table right \<and>
     rule_IncomingInterface left = rule_IncomingInterface right \<and>
     rule_Mark left = rule_Mark right \<and> rule_Mask left = rule_Mask right \<and>
     rule_UnexpectedMatch left = rule_UnexpectedMatch right"

definition compareRoutes :: "route \<Rightarrow> route \<Rightarrow> int" where
  "compareRoutes left right = compareStrings (routeKey left) (routeKey right)"

definition compareRules :: "rule \<Rightarrow> rule \<Rightarrow> int" where
  "compareRules left right = compareStrings (ruleKey left) (ruleKey right)"

section \<open>Indexing and diff\<close>

definition validateObservedRouteIdentity :: "route \<Rightarrow> route_error option" where
  "validateObservedRouteIdentity route =
     (if route_Family route \<noteq> IPv4 \<and> route_Family route \<noteq> IPv6
      then Some (RouteUnsupportedFamily (route_Family route))
      else if route_Table route \<le> 0 \<or> \<not> validMaskedPrefix (route_Prefix route) (route_Family route) \<or>
              route_Metric route < 0
      then Some (ObservedRouteInvalid (route_Table route) (route_Prefix route) (route_Metric route))
      else None)"

definition validateObservedRuleIdentity :: "rule \<Rightarrow> rule_error option" where
  "validateObservedRuleIdentity rule =
     (if rule_Family rule \<noteq> IPv4 \<and> rule_Family rule \<noteq> IPv6
      then Some (RuleUnsupportedFamily (rule_Family rule))
      else if rule_Priority rule \<le> 0 \<or> rule_Table rule \<le> 0
      then Some (ObservedRuleInvalid (rule_Priority rule) (rule_Table rule))
      else None)"

datatype diff_error =
    InvalidOwnership "ownership_error list"
  | InvalidRoute string route_error
  | InvalidRule string rule_error
  | RouteTableNotOwned string int
  | RulePriorityNotOwned string int
  | RuleTableNotOwned string int
  | DuplicateRoute string string
  | DuplicateRule string string

text \<open>The checks each loop makes before it indexes an element, and the loops.\<close>

definition indexRouteCheck :: "routing_ownership \<Rightarrow> bool \<Rightarrow> string \<Rightarrow> route \<Rightarrow> diff_error option" where
  "indexRouteCheck ownership strict label route =
     (case (if strict then route_Validate route else validateObservedRouteIdentity route) of
        Some e \<Rightarrow> Some (InvalidRoute label e)
      | None \<Rightarrow>
          if route_Table route \<notin> set (own_Tables ownership)
          then Some (RouteTableNotOwned label (route_Table route)) else None)"

definition indexRoutes ::
  "route list \<Rightarrow> routing_ownership \<Rightarrow> bool \<Rightarrow> string \<Rightarrow> (diff_error, route index) result" where
  "indexRoutes routes ownership strict label =
     index_loop (indexRouteCheck ownership strict label) routeKey (DuplicateRoute label) [] routes"

definition indexRuleCheck :: "routing_ownership \<Rightarrow> bool \<Rightarrow> string \<Rightarrow> rule \<Rightarrow> diff_error option" where
  "indexRuleCheck ownership strict label rule =
     (case (if strict then rule_Validate rule else validateObservedRuleIdentity rule) of
        Some e \<Rightarrow> Some (InvalidRule label e)
      | None \<Rightarrow>
          if rule_Priority rule \<notin> set (own_RulePriorities ownership)
          then Some (RulePriorityNotOwned label (rule_Priority rule))
          else if strict \<and> rule_Table rule \<notin> set (own_Tables ownership)
          then Some (RuleTableNotOwned label (rule_Table rule)) else None)"

definition indexRules ::
  "rule list \<Rightarrow> routing_ownership \<Rightarrow> bool \<Rightarrow> string \<Rightarrow> (diff_error, rule index) result" where
  "indexRules rules ownership strict label =
     index_loop (indexRuleCheck ownership strict label) ruleKey (DuplicateRule label) [] rules"

definition indexDesiredRoutes :: "route list \<Rightarrow> routing_ownership \<Rightarrow> (diff_error, route index) result" where
  "indexDesiredRoutes routes ownership = indexRoutes routes ownership True ''desired''"

definition indexObservedRoutes :: "route list \<Rightarrow> routing_ownership \<Rightarrow> (diff_error, route index) result" where
  "indexObservedRoutes routes ownership = indexRoutes routes ownership False ''observed''"

definition indexDesiredRules :: "rule list \<Rightarrow> routing_ownership \<Rightarrow> (diff_error, rule index) result" where
  "indexDesiredRules rules ownership = indexRules rules ownership True ''desired''"

definition indexObservedRules :: "rule list \<Rightarrow> routing_ownership \<Rightarrow> (diff_error, rule index) result" where
  "indexObservedRules rules ownership = indexRules rules ownership False ''observed''"

text \<open>The loops over the four maps and the final sorts; an index lists a map in its iteration order.\<close>

definition diffIndexed ::
  "route index \<Rightarrow> route index \<Rightarrow> rule index \<Rightarrow> rule index \<Rightarrow> routing_changes" where
  "diffIndexed desiredRoutes observedRoutes desiredRules observedRules =
     \<lparr>ch_UpsertRoutes = sort_func compareRoutes (diff_missing routeEqual desiredRoutes observedRoutes),
      ch_DeleteRules = sort_func compareRules
        (diff_replaced ruleEqual desiredRules observedRules @ diff_extra desiredRules observedRules),
      ch_AddRules = sort_func compareRules (diff_missing ruleEqual desiredRules observedRules),
      ch_DeleteRoutes = sort_func compareRoutes (diff_extra desiredRoutes observedRoutes)\<rparr>"

definition DiffRouting ::
  "routing_state \<Rightarrow> routing_state \<Rightarrow> routing_ownership \<Rightarrow> (diff_error, routing_changes) result" where
  "DiffRouting desired observed ownership =
     (case ownership_Validate ownership of
        e # es \<Rightarrow> Inl (InvalidOwnership (e # es))
      | [] \<Rightarrow>
     (case indexDesiredRoutes (rs_Routes desired) ownership of Inl e \<Rightarrow> Inl e | Inr desiredRoutes \<Rightarrow>
     (case indexObservedRoutes (rs_Routes observed) ownership of Inl e \<Rightarrow> Inl e | Inr observedRoutes \<Rightarrow>
     (case indexDesiredRules (rs_Rules desired) ownership of Inl e \<Rightarrow> Inl e | Inr desiredRules \<Rightarrow>
     (case indexObservedRules (rs_Rules observed) ownership of Inl e \<Rightarrow> Inl e | Inr observedRules \<Rightarrow>
        Inr (diffIndexed desiredRoutes observedRoutes desiredRules observedRules))))))"

text \<open>
  The reference effect of a change set, one change after the other in the order in which they are applied: upserted routes
  replace the route of their identity, added rules stand beside all others, also those of their own priority, until a
  deletion names them. Then the states the diff accepts.
\<close>

definition apply_changes :: "routing_changes \<Rightarrow> routing_state \<Rightarrow> routing_state" where
  "apply_changes changes st =
     \<lparr>rs_Routes = fold (store_drop routeKey) (ch_DeleteRoutes changes) (fold (store_put routeKey) (ch_UpsertRoutes changes) (rs_Routes st)),
      rs_Rules = fold bag_remove (ch_DeleteRules changes) (fold bag_add (ch_AddRules changes) (rs_Rules st))\<rparr>"

definition route_masked :: "route \<Rightarrow> bool" where
  "route_masked r \<longleftrightarrow> prefix_Masked (route_Prefix r) = route_Prefix r"

definition routes_accepted :: "routing_ownership \<Rightarrow> bool \<Rightarrow> route list \<Rightarrow> bool" where
  "routes_accepted ownership strict routes \<longleftrightarrow>
     (\<forall>r \<in> set routes. (if strict then route_Validate r else validateObservedRouteIdentity r) = None \<and>
                       route_Table r \<in> set (own_Tables ownership)) \<and>
     distinct (map routeKey routes)"

definition rules_accepted :: "routing_ownership \<Rightarrow> bool \<Rightarrow> rule list \<Rightarrow> bool" where
  "rules_accepted ownership strict rules \<longleftrightarrow>
     (\<forall>r \<in> set rules. (if strict then rule_Validate r else validateObservedRuleIdentity r) = None \<and>
                      rule_Priority r \<in> set (own_RulePriorities ownership) \<and>
                      (strict \<longrightarrow> rule_Table r \<in> set (own_Tables ownership))) \<and>
     distinct (map ruleKey rules)"

definition state_accepted :: "routing_ownership \<Rightarrow> bool \<Rightarrow> routing_state \<Rightarrow> bool" where
  "state_accepted ownership strict st \<longleftrightarrow>
     routes_accepted ownership strict (rs_Routes st) \<and> rules_accepted ownership strict (rs_Rules st)"

section \<open>Exit default route sets and changes\<close>

lemma exit_Equal_iff [simp]: "exit_Equal a b \<longleftrightarrow> a = b"
  by (cases a; cases b) (auto simp: exit_Equal_def)

lemma exit_Empty_iff [simp]: "exit_Empty a \<longleftrightarrow> a = ExitNone"
  by (cases a) (auto simp: exit_Empty_def ExitNone_def)

lemma changes_Equal_iff [simp]: "changes_Equal a b \<longleftrightarrow> a = b"
  by (cases a; cases b) (auto simp: changes_Equal_def)

lemma changes_Empty_iff [simp]: "changes_Empty a \<longleftrightarrow> a = ChangesZero"
  by (cases a) (auto simp: changes_Empty_def ChangesZero_def)

lemma ownership_Validate_Nil_iff:
  "ownership_Validate ownership = [] \<longleftrightarrow>
     own_Tables ownership \<noteq> [] \<and> own_RulePriorities ownership \<noteq> [] \<and>
     (\<forall>t \<in> set (own_Tables ownership). 0 < t) \<and> distinct (own_Tables ownership) \<and>
     (\<forall>p \<in> set (own_RulePriorities ownership). 0 < p) \<and> distinct (own_RulePriorities ownership)"
  by (auto simp: ownership_Validate_def validateUniquePositiveIntegers_Nil_iff)

section \<open>Identity strings are injective on the identity fields\<close>

lemma route_observable:
  "route_Validate r = None \<Longrightarrow> validateObservedRouteIdentity r = None"
  by (auto simp: route_Validate_def validateObservedRouteIdentity_def split: if_splits)

lemma rule_observable:
  "rule_Validate r = None \<Longrightarrow> validateObservedRuleIdentity r = None"
  by (auto simp: rule_Validate_def validateObservedRuleIdentity_def split: if_splits)

lemma observed_prefix:
  assumes "validateObservedRouteIdentity r = None"
  shows "prefix_Masked (route_Prefix r) = route_Prefix r" "prefix_ok (route_Prefix r)" "prefix_IsValid (route_Prefix r)"
  using assms validMaskedPrefix_ok [of "route_Prefix r" "route_Family r"]
  by (auto simp: validateObservedRouteIdentity_def validMaskedPrefix_def split: if_splits)

lemma disposition_string_no_slash: "CHR ''/'' \<notin> set (disposition_string d)"
  by (cases d) auto

lemma disposition_string_inj: "disposition_string a = disposition_string b \<longleftrightarrow> a = b"
  by (cases a; cases b) auto

lemma dec_no_slash [simp]: "CHR ''/'' \<notin> set (show_dec n)" "CHR ''/'' \<notin> set (show_int i)"
  by (simp_all add: not_in_digits show_int_sep)

lemma routeKey_fields:
  "routeKey r = routeKey s \<longleftrightarrow>
     route_Family r = route_Family s \<and> route_Disposition r = route_Disposition s \<and>
     route_Table r = route_Table s \<and>
     prefix_String (prefix_Masked (route_Prefix r)) = prefix_String (prefix_Masked (route_Prefix s)) \<and>
     route_Metric r = route_Metric s"
  by (auto simp: routeKey_def append_sep_eq_iff append_sep_end_iff disposition_string_no_slash disposition_string_inj
      unsigned_word_eqI)

lemma ruleKey_iff:
  "ruleKey r = ruleKey s \<longleftrightarrow> rule_Family r = rule_Family s \<and> rule_Priority r = rule_Priority s"
  by (auto simp: ruleKey_def append_sep_eq_iff unsigned_word_eqI)

lemma routeKey_iff:
  assumes "validateObservedRouteIdentity r = None" "validateObservedRouteIdentity s = None"
  shows "routeKey r = routeKey s \<longleftrightarrow>
     route_Family r = route_Family s \<and> route_Disposition r = route_Disposition s \<and>
     route_Table r = route_Table s \<and> route_Prefix r = route_Prefix s \<and> route_Metric r = route_Metric s"
  using observed_prefix [OF assms(1)] observed_prefix [OF assms(2)]
  by (simp add: routeKey_fields prefix_String_inj)

section \<open>Routes and rules as clients of the keyed diff\<close>

lemma routeEqual_iff: "route_masked r \<Longrightarrow> route_masked s \<Longrightarrow> routeEqual r s \<longleftrightarrow> r = s"
  by (cases r; cases s) (auto simp: routeEqual_def route_masked_def)

lemma ruleEqual_iff [simp]: "ruleEqual r s \<longleftrightarrow> r = s"
  by (cases r; cases s) (auto simp: ruleEqual_def)

interpretation routes: keyed_diff compareRoutes routeKey routeEqual route_masked
  by unfold_locales (auto simp: compareRoutes_def string_cmp.cmp_less string_cmp.cmp_greater routeEqual_iff)

interpretation rules: keyed_diff compareRules ruleKey ruleEqual "\<lambda>_. True"
  by unfold_locales (auto simp: compareRules_def string_cmp.cmp_less string_cmp.cmp_greater)

lemma indexRoutes_Inr_iff:
  "indexRoutes rs own strict label = Inr m \<longleftrightarrow> routes_accepted own strict rs \<and> m = index_by routeKey rs"
proof -
  have "indexRouteCheck own strict label r = None \<longleftrightarrow>
      (if strict then route_Validate r else validateObservedRouteIdentity r) = None \<and>
      route_Table r \<in> set (own_Tables own)" for r
    by (auto simp: indexRouteCheck_def split: option.splits)
  then show ?thesis by (simp add: indexRoutes_def index_loop_Nil_Inr_iff routes_accepted_def)
qed

lemma indexRules_Inr_iff:
  "indexRules rs own strict label = Inr m \<longleftrightarrow> rules_accepted own strict rs \<and> m = index_by ruleKey rs"
proof -
  have "indexRuleCheck own strict label r = None \<longleftrightarrow>
      (if strict then rule_Validate r else validateObservedRuleIdentity r) = None \<and>
      rule_Priority r \<in> set (own_RulePriorities own) \<and> (strict \<longrightarrow> rule_Table r \<in> set (own_Tables own))" for r
    by (auto simp: indexRuleCheck_def split: option.splits)
  then show ?thesis by (simp add: indexRules_def index_loop_Nil_Inr_iff rules_accepted_def)
qed

lemmas index_defs = indexDesiredRoutes_def indexObservedRoutes_def indexDesiredRules_def indexObservedRules_def

lemma DiffRouting_Inr_iff:
  "DiffRouting d c own = Inr ch \<longleftrightarrow>
     ownership_Validate own = [] \<and> state_accepted own True d \<and> state_accepted own False c \<and>
     ch = diffIndexed (index_by routeKey (rs_Routes d)) (index_by routeKey (rs_Routes c))
            (index_by ruleKey (rs_Rules d)) (index_by ruleKey (rs_Rules c))"
proof -
  let ?dr = "indexRoutes (rs_Routes d) own True ''desired''" and ?cr = "indexRoutes (rs_Routes c) own False ''observed''"
  let ?du = "indexRules (rs_Rules d) own True ''desired''" and ?cu = "indexRules (rs_Rules c) own False ''observed''"
  have "DiffRouting d c own = Inr ch \<longleftrightarrow> ownership_Validate own = [] \<and>
      (\<exists>dr cr du cu. ?dr = Inr dr \<and> ?cr = Inr cr \<and> ?du = Inr du \<and> ?cu = Inr cu \<and> ch = diffIndexed dr cr du cu)"
    unfolding DiffRouting_def index_defs
    by (cases "ownership_Validate own"; cases ?dr; cases ?cr; cases ?du; cases ?cu) auto
  then show ?thesis
    by (auto simp: indexRoutes_Inr_iff indexRules_Inr_iff state_accepted_def)
qed

lemma accepted_indexed:
  assumes "state_accepted own strict st"
  shows "routes.indexed (rs_Routes st)" "rules.indexed (rs_Rules st)"
proof -
  have "validateObservedRouteIdentity r = None" if "r \<in> set (rs_Routes st)" for r
    using assms that route_observable [of r]
    by (auto simp: state_accepted_def routes_accepted_def split: if_splits)
  then show "routes.indexed (rs_Routes st)"
    using assms observed_prefix(1)
    by (auto simp: state_accepted_def routes_accepted_def routes.indexed_def route_masked_def)
  show "rules.indexed (rs_Rules st)"
    using assms by (auto simp: state_accepted_def rules_accepted_def rules.indexed_def)
qed

lemma accepted_weaken: "state_accepted own True st \<Longrightarrow> state_accepted own False st"
  by (auto simp: state_accepted_def routes_accepted_def rules_accepted_def route_observable rule_observable)

lemma accepted_mset:
  assumes "mset (rs_Routes s) = mset (rs_Routes t)" "mset (rs_Rules s) = mset (rs_Rules t)"
  shows "state_accepted own strict s \<longleftrightarrow> state_accepted own strict t"
  using mset_eq_setD [OF assms(1)] mset_eq_setD [OF assms(2)]
    mset_eq_imp_distinct_iff [of "map routeKey (rs_Routes s)" "map routeKey (rs_Routes t)"]
    mset_eq_imp_distinct_iff [of "map ruleKey (rs_Rules s)" "map ruleKey (rs_Rules t)"] assms
  by (simp add: state_accepted_def routes_accepted_def rules_accepted_def)

text \<open>The four lists of a successful diff, in closed form.\<close>

lemma DiffRouting_sets:
  assumes "DiffRouting d c own = Inr ch"
  shows "set (ch_UpsertRoutes ch) = set (rs_Routes d) - set (rs_Routes c)"
    and "set (ch_DeleteRoutes ch) = {r \<in> set (rs_Routes c). routeKey r \<notin> routeKey ` set (rs_Routes d)}"
    and "set (ch_AddRules ch) = set (rs_Rules d) - set (rs_Rules c)"
    and "set (ch_DeleteRules ch) = set (rs_Rules c) - set (rs_Rules d)"
    and "distinct (ch_UpsertRoutes ch)" "distinct (ch_AddRules ch)" "distinct (ch_DeleteRoutes ch)"
proof -
  from assms have ok: "routes.indexed (rs_Routes d)" "rules.indexed (rs_Rules d)"
      "routes.indexed (rs_Routes c)" "rules.indexed (rs_Rules c)"
    using accepted_indexed by (auto simp: DiffRouting_Inr_iff)
  note ch = assms [unfolded DiffRouting_Inr_iff diffIndexed_def]
  show "set (ch_UpsertRoutes ch) = set (rs_Routes d) - set (rs_Routes c)"
    "set (ch_AddRules ch) = set (rs_Rules d) - set (rs_Rules c)"
    using ch ok by (auto simp: routes.set_sort_func rules.set_sort_func routes.missing_eq rules.missing_eq)
  show "set (ch_DeleteRoutes ch) = {r \<in> set (rs_Routes c). routeKey r \<notin> routeKey ` set (rs_Routes d)}"
    using ch ok by (auto simp: routes.set_sort_func routes.extra_eq)
  show "set (ch_DeleteRules ch) = set (rs_Rules c) - set (rs_Rules d)"
    using ch ok by (auto simp: rules.set_sort_func rules.extra_eq rules.set_replaced)
  show "distinct (ch_UpsertRoutes ch)" "distinct (ch_AddRules ch)" "distinct (ch_DeleteRoutes ch)"
    using ch ok routes.indexed_distinct rules.indexed_distinct
    by (auto simp: routes.sort_func_sort_key rules.sort_func_sort_key routes.missing_eq rules.missing_eq routes.extra_eq)
qed

lemma DiffRouting_Empty_iff:
  assumes "DiffRouting d c own = Inr ch"
  shows "changes_Empty ch \<longleftrightarrow> mset (rs_Routes d) = mset (rs_Routes c) \<and> mset (rs_Rules d) = mset (rs_Rules c)"
proof -
  from assms have ok: "routes.indexed (rs_Routes d)" "rules.indexed (rs_Rules d)"
      "routes.indexed (rs_Routes c)" "rules.indexed (rs_Rules c)"
    using accepted_indexed by (auto simp: DiffRouting_Inr_iff)
  note ch = assms [unfolded DiffRouting_Inr_iff diffIndexed_def]
  have "ch_DeleteRules ch = [] \<longleftrightarrow> set (rs_Rules c) \<subseteq> set (rs_Rules d)"
    using DiffRouting_sets(4) [OF assms] by (metis Diff_eq_empty_iff set_empty)
  moreover have "ch_AddRules ch = [] \<longleftrightarrow> set (rs_Rules d) \<subseteq> set (rs_Rules c)"
    using DiffRouting_sets(3) [OF assms] by (metis Diff_eq_empty_iff set_empty)
  moreover have "ch_UpsertRoutes ch = [] \<and> ch_DeleteRoutes ch = [] \<longleftrightarrow> mset (rs_Routes d) = mset (rs_Routes c)"
    using ch routes.diff_empty_iff [OF ok(1,3)] by (simp add: routes.sort_func_Nil_iff)
  moreover have "set (rs_Rules d) = set (rs_Rules c) \<longleftrightarrow> mset (rs_Rules d) = mset (rs_Rules c)"
    using ok by (simp add: set_eq_mset_eq rules.indexed_distinct)
  ultimately show ?thesis unfolding changes_Empty_def length_0_conv by auto
qed

lemma apply_changes_mset:
  assumes "DiffRouting d c own = Inr ch"
  shows "mset (rs_Routes (apply_changes ch c)) = mset (rs_Routes d)"
    "mset (rs_Rules (apply_changes ch c)) = mset (rs_Rules d)"
proof -
  from assms have ok: "routes.indexed (rs_Routes d)" "rules.indexed (rs_Rules d)"
      "routes.indexed (rs_Routes c)" "rules.indexed (rs_Rules c)"
    using accepted_indexed by (auto simp: DiffRouting_Inr_iff)
  note sets = DiffRouting_sets [OF assms]
  show "mset (rs_Routes (apply_changes ch c)) = mset (rs_Routes d)"
    unfolding apply_changes_def routing_state.select_convs
    by (rule routes.store_converges [OF ok(1,3) sets(1,5,2)])
  show "mset (rs_Rules (apply_changes ch c)) = mset (rs_Rules d)"
    unfolding apply_changes_def routing_state.select_convs
    by (rule rules.bag_converges [OF ok(2,4) sets(3,6,4)])
qed

lemma DiffRouting_mset:
  assumes "DiffRouting d c own = Inr ch"
    and "mset (rs_Routes d') = mset (rs_Routes d)" "mset (rs_Rules d') = mset (rs_Rules d)"
    and "mset (rs_Routes c') = mset (rs_Routes c)" "mset (rs_Rules c') = mset (rs_Rules c)"
  obtains ch' where "DiffRouting d' c' own = Inr ch'"
  using assms(1) accepted_mset [OF assms(2,3)] accepted_mset [OF assms(4,5)]
  by (auto simp: DiffRouting_Inr_iff)

lemma diffIndexed_perm:
  assumes "routes.keyed dr" "routes.keyed cr" "rules.keyed du" "rules.keyed cu"
    and "mset dr' = mset dr" "mset cr' = mset cr" "mset du' = mset du" "mset cu' = mset cu"
  shows "diffIndexed dr' cr' du' cu' = diffIndexed dr cr du cu"
  unfolding diffIndexed_def
  using routes.sorted_missing_perm [OF assms(1,2,5,6)] routes.sorted_extra_perm [OF assms(1,2,5,6)]
    rules.sorted_missing_perm [OF assms(3,4,7,8)] rules.sorted_removed_perm [OF assms(3,4,7,8)]
  by simp

section \<open>Properties\<close>

text \<open>
  C34: the routing diff converges. Whenever \<^verbatim>\<open>DiffRouting\<close> accepts a desired and an observed state, the
  observed state with the changes applied one by one holds exactly the desired routes and rules, and a second
  diff against it is accepted and empty. A rule that is added does not displace the rule of its priority: the stale rule is
  gone because the changes delete it.
\<close>

theorem DiffRouting_converges:
  assumes "DiffRouting desired observed ownership = Inr changes"
  shows "mset (rs_Routes (apply_changes changes observed)) = mset (rs_Routes desired) \<and>
         mset (rs_Rules (apply_changes changes observed)) = mset (rs_Rules desired) \<and>
         DiffRouting desired (apply_changes changes observed) ownership = Inr ChangesZero"
proof -
  let ?new = "apply_changes changes observed"
  note eq = apply_changes_mset [OF assms]
  have "state_accepted ownership False ?new"
    using assms accepted_mset [OF eq] accepted_weaken by (auto simp: DiffRouting_Inr_iff)
  with assms obtain ch where ch: "DiffRouting desired ?new ownership = Inr ch"
    by (auto simp: DiffRouting_Inr_iff)
  with DiffRouting_Empty_iff [OF ch] eq show ?thesis by simp
qed

text \<open>
  the diff decides equality. An accepted diff is empty exactly when the observed state holds
  the desired routes and rules with the same multiplicities: nothing that differs in any field is
  overlooked and nothing equal is rewritten.
\<close>

theorem DiffRouting_empty_exact:
  assumes "DiffRouting desired observed ownership = Inr changes"
  shows "changes_Empty changes \<longleftrightarrow>
           mset (rs_Routes desired) = mset (rs_Routes observed) \<and>
           mset (rs_Rules desired) = mset (rs_Rules observed)"
  by (rule DiffRouting_Empty_iff [OF assms])

text \<open>
  C35: the diff stays inside the ownership. Every route it upserts or deletes is in an owned table,
  every rule it adds or deletes has an owned priority; it adds only desired entries, deletes only
  observed ones, and never deletes a route whose identity is desired or a rule that is desired.
\<close>

theorem DiffRouting_within_ownership:
  assumes "DiffRouting desired observed ownership = Inr changes"
  shows "route_Table ` (set (ch_UpsertRoutes changes) \<union> set (ch_DeleteRoutes changes)) \<subseteq> set (own_Tables ownership) \<and>
         rule_Priority ` (set (ch_AddRules changes) \<union> set (ch_DeleteRules changes)) \<subseteq> set (own_RulePriorities ownership) \<and>
         rule_Table ` set (ch_AddRules changes) \<subseteq> set (own_Tables ownership) \<and>
         set (ch_UpsertRoutes changes) \<subseteq> set (rs_Routes desired) \<and> set (ch_AddRules changes) \<subseteq> set (rs_Rules desired) \<and>
         set (ch_DeleteRoutes changes) \<subseteq> set (rs_Routes observed) \<and> set (ch_DeleteRules changes) \<subseteq> set (rs_Rules observed) \<and>
         routeKey ` set (ch_DeleteRoutes changes) \<inter> routeKey ` set (rs_Routes desired) = {} \<and>
         set (ch_DeleteRules changes) \<inter> set (rs_Rules desired) = {}"
proof -
  have "route_Table r \<in> set (own_Tables ownership)" if "r \<in> set (rs_Routes desired) \<union> set (rs_Routes observed)" for r
    using assms that by (auto simp: DiffRouting_Inr_iff state_accepted_def routes_accepted_def)
  moreover have "rule_Priority r \<in> set (own_RulePriorities ownership)"
    if "r \<in> set (rs_Rules desired) \<union> set (rs_Rules observed)" for r
    using assms that by (auto simp: DiffRouting_Inr_iff state_accepted_def rules_accepted_def)
  moreover have "rule_Table r \<in> set (own_Tables ownership)" if "r \<in> set (rs_Rules desired)" for r
    using assms that by (auto simp: DiffRouting_Inr_iff state_accepted_def rules_accepted_def)
  ultimately show ?thesis
    unfolding DiffRouting_sets(1-4) [OF assms] by blast
qed

text \<open>
  the iteration order of Go maps is not observable. However the four index maps that the diff
  builds are walked, the change set it returns is the same.
\<close>

theorem DiffRouting_order_independent:
  assumes "DiffRouting desired observed ownership = Inr changes"
    and "mset desiredRoutes = mset (index_by routeKey (rs_Routes desired))"
    and "mset observedRoutes = mset (index_by routeKey (rs_Routes observed))"
    and "mset desiredRules = mset (index_by ruleKey (rs_Rules desired))"
    and "mset observedRules = mset (index_by ruleKey (rs_Rules observed))"
  shows "diffIndexed desiredRoutes observedRoutes desiredRules observedRules = changes"
proof -
  have "routes.indexed (rs_Routes desired)" "routes.indexed (rs_Routes observed)"
      "rules.indexed (rs_Rules desired)" "rules.indexed (rs_Rules observed)"
    using assms(1) accepted_indexed by (auto simp: DiffRouting_Inr_iff)
  then have "routes.keyed (index_by routeKey (rs_Routes desired))" "routes.keyed (index_by routeKey (rs_Routes observed))"
      "rules.keyed (index_by ruleKey (rs_Rules desired))" "rules.keyed (index_by ruleKey (rs_Rules observed))"
    by (auto simp: routes.indexed_def rules.indexed_def routes.keyed_index_by rules.keyed_index_by)
  from diffIndexed_perm [OF this assms(2-5)] show ?thesis
    using assms(1) by (simp add: DiffRouting_Inr_iff)
qed

text \<open>
  The identity string of a route is faithful. Two routes that pass the checks of an observed route have
  the same key exactly when family, disposition, table, prefix and metric agree, although the
  prefix itself prints with the separator of the key.
\<close>

theorem routeKey_identity:
  assumes "validateObservedRouteIdentity left = None" "validateObservedRouteIdentity right = None"
  shows "routeKey left = routeKey right \<longleftrightarrow>
     route_Family left = route_Family right \<and> route_Disposition left = route_Disposition right \<and>
     route_Table left = route_Table right \<and> route_Prefix left = route_Prefix right \<and>
     route_Metric left = route_Metric right"
  by (rule routeKey_iff [OF assms])

section \<open>Witnesses\<close>

text \<open>
  A gateway whose table 52 must hold a blackhole default and a next hop, with the old next hop and
  a stale rule observed.
\<close>

definition example_route :: "disposition \<Rightarrow> addr \<Rightarrow> link_identity \<Rightarrow> int \<Rightarrow> route" where
  "example_route d gw link metric =
     \<lparr>route_Family = IPv4, route_Disposition = d, route_Table = 52, route_Prefix = Prefix (Addr4 0) 1,
      route_Gateway = gw, route_Link = link, route_OnLink = False, route_Metric = metric,
      route_UnexpectedAttributes = False\<rparr>"

definition example_rule :: "int \<Rightarrow> 32 word \<Rightarrow> rule" where
  "example_rule table mark =
     \<lparr>rule_Family = IPv4, rule_Priority = 50, rule_Table = table, rule_IncomingInterface = [],
      rule_Mark = mark, rule_Mask = mark, rule_UnexpectedMatch = False\<rparr>"

definition example_ownership :: routing_ownership where
  "example_ownership = \<lparr>own_Tables = [52], own_RulePriorities = [50]\<rparr>"

definition example_link :: link_identity where
  "example_link = \<lparr>link_Index = 2, link_Name = ''eth0''\<rparr>"

definition example_desired :: routing_state where
  "example_desired =
     \<lparr>rs_Routes = [example_route RouteUnicast (Addr4 16) example_link 10,
                   example_route RouteBlackhole AddrZero LinkZero 20],
      rs_Rules = [example_rule 52 1]\<rparr>"

definition example_observed :: routing_state where
  "example_observed =
     \<lparr>rs_Routes = [example_route RouteUnicast (Addr4 17) example_link 10,
                   example_route RouteBlackhole AddrZero LinkZero 30],
      rs_Rules = [example_rule 99 2]\<rparr>"

definition example_changes :: routing_changes where
  "example_changes =
     \<lparr>ch_UpsertRoutes = [example_route RouteBlackhole AddrZero LinkZero 20,
                         example_route RouteUnicast (Addr4 16) example_link 10],
      ch_DeleteRules = [example_rule 99 2], ch_AddRules = [example_rule 52 1],
      ch_DeleteRoutes = [example_route RouteBlackhole AddrZero LinkZero 30]\<rparr>"

lemma example_diff: "DiffRouting example_desired example_observed example_ownership = Inr example_changes"
  by code_simp

lemma DiffRouting_converges_witness:
  "DiffRouting example_desired (apply_changes example_changes example_observed) example_ownership = Inr ChangesZero"
  using DiffRouting_converges [OF example_diff] by simp

lemma DiffRouting_empty_exact_witness:
  "changes_Empty example_changes \<longleftrightarrow>
     mset (rs_Routes example_desired) = mset (rs_Routes example_observed) \<and>
     mset (rs_Rules example_desired) = mset (rs_Rules example_observed)"
  by (rule DiffRouting_empty_exact [OF example_diff])

lemma DiffRouting_within_ownership_witness:
  "route_Table ` set (ch_DeleteRoutes example_changes) \<subseteq> set (own_Tables example_ownership)"
  using DiffRouting_within_ownership [OF example_diff, THEN conjunct1] by (simp add: image_Un)

lemma DiffRouting_order_independent_witness:
  "diffIndexed (rev (index_by routeKey (rs_Routes example_desired)))
     (rev (index_by routeKey (rs_Routes example_observed)))
     (rev (index_by ruleKey (rs_Rules example_desired)))
     (rev (index_by ruleKey (rs_Rules example_observed))) = example_changes"
  by (rule DiffRouting_order_independent [OF example_diff]) simp_all

lemma routeKey_identity_witness:
  "routeKey (example_route RouteUnicast AddrZero LinkZero 1) \<noteq> routeKey (example_route RouteUnicast AddrZero LinkZero 2)"
proof -
  have "validateObservedRouteIdentity (example_route RouteUnicast AddrZero LinkZero 1) = None"
    "validateObservedRouteIdentity (example_route RouteUnicast AddrZero LinkZero 2) = None"
    by code_simp+
  from routeKey_identity [OF this] show ?thesis by (simp add: example_route_def)
qed

end
