(* ===== verification/Fingerprint.thy ===== *)
theory Fingerprint
  imports Prelude
begin

unbundle bit_operations_syntax

text \<open>
  The \<open>fingerprint\<close> function of \<^verbatim>\<open>internal/domain/packetfilter.go\<close>: a list of fields is written in the canonical
  form \<^verbatim>\<open>length:field;\<close> and hashed. \<^verbatim>\<open>crypto/sha256\<close> is written out from FIPS 180-4; the lemmas here are about
  the canonical form, which determines the list of fields, so that two lists with the same
  fingerprint are equal or exhibit a SHA-256 collision.
\<close>

section \<open>SHA-256\<close>

type_synonym sha_state = "32 word list"

text \<open>
  The constants are the first 32 bits of the fractional parts of the cube roots of the first 64 primes, and of
  the square roots of the first eight: \<open>root_bits\<close> finds an integer root one binary digit at a time.
\<close>

fun root_bits :: "nat \<Rightarrow> int \<Rightarrow> nat \<Rightarrow> int \<Rightarrow> int" where
  "root_bits k n 0 r = r"
| "root_bits k n (Suc b) r = root_bits k n b (if (r + 2 ^ b) ^ k \<le> n then r + 2 ^ b else r)"

definition small_primes :: "nat \<Rightarrow> int list" where
  "small_primes n = map int (filter (\<lambda>p. list_all (\<lambda>d. p mod d \<noteq> 0) [2..<p]) [2..<n])"

definition sha256_K :: "32 word list" where
  "sha256_K = map (\<lambda>p. word_of_int (root_bits 3 (p * 2 ^ 96) 36 0)) (small_primes 312)"

definition sha256_H0 :: sha_state where
  "sha256_H0 = map (\<lambda>p. word_of_int (root_bits 2 (p * 2 ^ 64) 36 0)) (small_primes 20)"

definition rotr :: "nat \<Rightarrow> 32 word \<Rightarrow> 32 word" where
  "rotr n x = drop_bit n x OR push_bit (32 - n) x"

definition sha_sigma0 :: "32 word \<Rightarrow> 32 word" where
  "sha_sigma0 x = rotr 7 x XOR rotr 18 x XOR drop_bit 3 x"

definition sha_sigma1 :: "32 word \<Rightarrow> 32 word" where
  "sha_sigma1 x = rotr 17 x XOR rotr 19 x XOR drop_bit 10 x"

text \<open>The message schedule, latest word first.\<close>

fun sha_schedule :: "nat \<Rightarrow> 32 word list \<Rightarrow> 32 word list" where
  "sha_schedule 0 ws = ws"
| "sha_schedule (Suc n) ws =
     sha_schedule n ((sha_sigma1 (ws ! 1) + ws ! 6 + sha_sigma0 (ws ! 14) + ws ! 15) # ws)"

fun sha_round :: "32 word \<times> 32 word \<Rightarrow> sha_state \<Rightarrow> sha_state" where
  "sha_round (k, w) [a, b, c, d, e, f, g, h] =
     (let s1 = rotr 6 e XOR rotr 11 e XOR rotr 25 e;
          ch = (e AND f) XOR (NOT e AND g);
          t1 = h + s1 + ch + k + w;
          s0 = rotr 2 a XOR rotr 13 a XOR rotr 22 a;
          maj = (a AND b) XOR (a AND c) XOR (b AND c)
      in [t1 + (s0 + maj), a, b, c, d + t1, e, f, g])"
| "sha_round kw s = s"

definition sha_block :: "32 word list \<Rightarrow> sha_state \<Rightarrow> sha_state" where
  "sha_block ws s = map2 (+) s (fold sha_round (zip sha256_K (rev (sha_schedule 48 (rev ws)))) s)"

fun chunks :: "nat \<Rightarrow> 'a list \<Rightarrow> 'a list list" where
  "chunks 0 xs = []"
| "chunks (Suc n) [] = []"
| "chunks (Suc n) (x # xs) = take (Suc n) (x # xs) # chunks (Suc n) (drop n xs)"

definition be_word :: "8 word list \<Rightarrow> 32 word" where
  "be_word bs = foldl (\<lambda>a b. push_bit 8 a OR ucast b) 0 bs"

definition be_bytes :: "nat \<Rightarrow> 'a::len word \<Rightarrow> 8 word list" where
  "be_bytes n x = map (\<lambda>i. ucast (drop_bit (8 * i) x)) (rev [0..<n])"

definition sha256_pad :: "8 word list \<Rightarrow> 8 word list" where
  "sha256_pad m = m @ [0x80] @ replicate ((119 - length m mod 64) mod 64) 0 @ be_bytes 8 (word_of_nat (8 * length m) :: 64 word)"

definition Sum256 :: "string \<Rightarrow> 8 word list" where
  "Sum256 s =
     concat (map (\<lambda>w. be_bytes 4 w)
       (fold sha_block (chunks 16 (map be_word (chunks 4 (sha256_pad (map of_char s))))) sha256_H0))"

definition EncodeToString :: "8 word list \<Rightarrow> string" where
  "EncodeToString bs = concat (map (\<lambda>b. [digit_char (unat b div 16), digit_char (unat b mod 16)]) bs)"

section \<open>The canonical form\<close>

definition canonical_field :: "string \<Rightarrow> string" where
  "canonical_field f = show_dec (length f) @ '':'' @ f @ '';''"

definition canonical :: "string list \<Rightarrow> string" where
  "canonical fields = concat (map canonical_field fields)"

definition fingerprint :: "string list \<Rightarrow> string" where
  "fingerprint fields = EncodeToString (Sum256 (canonical fields))"

lemma canonical_field_prefix:
  assumes "canonical_field f @ s = canonical_field g @ t"
  shows "f = g \<and> s = t"
proof -
  from assms have "show_dec (length f) @ CHR '':'' # (f @ '';'' @ s) = show_dec (length g) @ CHR '':'' # (g @ '';'' @ t)"
    by (simp add: canonical_field_def)
  then have "length f = length g" "f @ '';'' @ s = g @ '';'' @ t"
    by (simp_all add: append_sep_eq_iff not_in_digits)
  then show ?thesis by simp
qed

lemma canonical_inj: "canonical fs = canonical gs \<longleftrightarrow> fs = gs"
proof
  show "canonical fs = canonical gs \<Longrightarrow> fs = gs"
  proof (induction fs arbitrary: gs)
    case Nil
    then show ?case by (cases gs) (auto simp: canonical_def canonical_field_def)
  next
    case (Cons f fs)
    then obtain g gs' where gs: "gs = g # gs'"
      by (cases gs) (auto simp: canonical_def canonical_field_def)
    with Cons.prems have "canonical_field f @ canonical fs = canonical_field g @ canonical gs'"
      by (simp add: canonical_def)
    from canonical_field_prefix [OF this] Cons.IH gs show ?case by blast
  qed
qed simp

text \<open>Two different strings with the same SHA-256 digest.\<close>

definition sha256_collision :: "string \<Rightarrow> string \<Rightarrow> bool" where
  "sha256_collision s t \<longleftrightarrow> s \<noteq> t \<and> Sum256 s = Sum256 t"

lemma digit_char_eq: "i < 16 \<Longrightarrow> j < 16 \<Longrightarrow> digit_char i = digit_char j \<longleftrightarrow> i = j"
  using digit_char_inj by (auto simp: inj_on_def)

lemma hex_byte_inj:
  fixes a b :: "8 word"
  assumes "digit_char (unat a div 16) = digit_char (unat b div 16)"
    and "digit_char (unat a mod 16) = digit_char (unat b mod 16)"
  shows "a = b"
proof -
  have small: "unat x div 16 < 16" "unat x mod 16 < 16" for x :: "8 word"
    using unsigned_less [of x, where ?'a = nat] by auto
  from assms have "unat a div 16 = unat b div 16" "unat a mod 16 = unat b mod 16"
    using digit_char_eq small by blast+
  then have "unat a = unat b" by (metis div_mult_mod_eq)
  then show ?thesis by (rule unsigned_word_eqI)
qed

lemma EncodeToString_inj: "EncodeToString a = EncodeToString b \<longleftrightarrow> a = b"
proof
  show "EncodeToString a = EncodeToString b \<Longrightarrow> a = b"
  proof (induction a arbitrary: b)
    case Nil
    then show ?case by (cases b) (auto simp: EncodeToString_def)
  next
    case (Cons x a)
    then show ?case by (cases b) (auto simp: EncodeToString_def intro: hex_byte_inj)
  qed
qed simp

lemma fingerprint_eq_iff:
  "fingerprint fs = fingerprint gs \<longleftrightarrow> fs = gs \<or> sha256_collision (canonical fs) (canonical gs)"
  by (auto simp: fingerprint_def EncodeToString_inj sha256_collision_def canonical_inj)

end
