(* ===== verification/Go_Text.thy ===== *)
theory Go_Text
  imports Prelude
begin

text \<open>
  The text functions of the Go standard library that the configuration validators use, written out from their
  documentation and sources: \<^verbatim>\<open>path.Clean\<close>, \<^verbatim>\<open>path.IsAbs\<close>, \<^verbatim>\<open>net.SplitHostPort\<close>, \<^verbatim>\<open>strconv.ParseUint\<close> in base ten, and the
  two regular expressions on labels as predicates.
\<close>

section \<open>Paths\<close>

text \<open>One component of a path against the components kept so far, innermost first.\<close>

fun clean_component :: "bool \<Rightarrow> string list \<Rightarrow> string \<Rightarrow> string list" where
  "clean_component rooted kept c =
     (if c = [] \<or> c = ''.'' then kept
      else if c = ''..'' then
        (case kept of
           [] \<Rightarrow> if rooted then [] else [''..'']
         | k # ks \<Rightarrow> if k = ''..'' then ''..'' # kept else ks)
      else c # kept)"

definition path_IsAbs :: "string \<Rightarrow> bool" where
  "path_IsAbs p \<longleftrightarrow> p \<noteq> [] \<and> hd p = CHR ''/''"

definition path_components :: "bool \<Rightarrow> string \<Rightarrow> string list" where
  "path_components rooted p = rev (foldl (clean_component rooted) [] (split_on CHR ''/'' p))"

definition path_Clean :: "string \<Rightarrow> string" where
  "path_Clean p =
     (if p = [] then ''.''
      else let body = join_with CHR ''/'' (path_components (path_IsAbs p) p)
           in if path_IsAbs p then CHR ''/'' # body else if body = [] then ''.'' else body)"

section \<open>Host and port\<close>

fun index_of :: "char \<Rightarrow> string \<Rightarrow> nat option" where
  "index_of c [] = None"
| "index_of c (x # xs) = (if x = c then Some 0 else map_option Suc (index_of c xs))"

definition last_index_of :: "char \<Rightarrow> string \<Rightarrow> nat option" where
  "last_index_of c s = map_option (\<lambda>i. length s - 1 - i) (index_of c (rev s))"

datatype addr_error = MissingPort | TooManyColons | MissingBracket | UnexpectedOpen | UnexpectedClose

definition SplitHostPort :: "string \<Rightarrow> (addr_error, string \<times> string) result" where
  "SplitHostPort hostport =
     (case last_index_of CHR '':'' hostport of
        None \<Rightarrow> Inl MissingPort
      | Some i \<Rightarrow>
          let finish = (\<lambda>host j k.
            if CHR ''['' \<in> set (drop j hostport) then Inl UnexpectedOpen
            else if CHR '']'' \<in> set (drop k hostport) then Inl UnexpectedClose
            else Inr (host, drop (i + 1) hostport))
          in if hd hostport = CHR ''['' then
               (case index_of CHR '']'' hostport of
                  None \<Rightarrow> Inl MissingBracket
                | Some e \<Rightarrow>
                    if e + 1 = length hostport then Inl MissingPort
                    else if e + 1 = i then finish (take (e - 1) (drop 1 hostport)) 1 (e + 1)
                    else if hostport ! (e + 1) = CHR '':'' then Inl TooManyColons
                    else Inl MissingPort)
             else if CHR '':'' \<in> set (take i hostport) then Inl TooManyColons
             else finish (take i hostport) 0 0)"

section \<open>Numbers and labels\<close>

definition ascii_letter :: "char \<Rightarrow> bool" where
  "ascii_letter c \<longleftrightarrow> CHR ''A'' \<le> c \<and> c \<le> CHR ''Z'' \<or> CHR ''a'' \<le> c \<and> c \<le> CHR ''z''"

definition ascii_lower :: "char \<Rightarrow> bool" where
  "ascii_lower c \<longleftrightarrow> CHR ''a'' \<le> c \<and> c \<le> CHR ''z''"

definition ascii_digit :: "char \<Rightarrow> bool" where
  "ascii_digit c \<longleftrightarrow> CHR ''0'' \<le> c \<and> c \<le> CHR ''9''"

text \<open>\<^verbatim>\<open>strconv.ParseUint(s, 10, bits)\<close>: \<open>None\<close> for a syntax or a range error.\<close>

definition ParseUint :: "string \<Rightarrow> nat \<Rightarrow> int option" where
  "ParseUint s bits =
     (if s = [] \<or> \<not> list_all ascii_digit s then None
      else let n = foldl (\<lambda>a c. a * 10 + (of_char c - 48)) (0 :: int) s
           in if n < 2 ^ bits then Some n else None)"

text \<open>The regular expression \<^verbatim>\<open>^[A-Za-z_][A-Za-z0-9_]{0,63}$\<close>.\<close>

fun nftIdentifierPattern :: "string \<Rightarrow> bool" where
  "nftIdentifierPattern [] = False"
| "nftIdentifierPattern (c # cs) \<longleftrightarrow>
     (ascii_letter c \<or> c = CHR ''_'') \<and> length cs \<le> 63 \<and>
     list_all (\<lambda>x. ascii_letter x \<or> ascii_digit x \<or> x = CHR ''_'') cs"

text \<open>The regular expression \<^verbatim>\<open>^[a-z0-9](?:[-a-z0-9]*[a-z0-9])?$\<close>.\<close>

definition dns1123LabelPattern :: "string \<Rightarrow> bool" where
  "dns1123LabelPattern s \<longleftrightarrow>
     s \<noteq> [] \<and> (ascii_lower (hd s) \<or> ascii_digit (hd s)) \<and> (ascii_lower (last s) \<or> ascii_digit (last s)) \<and>
     list_all (\<lambda>c. ascii_lower c \<or> ascii_digit c \<or> c = CHR ''-'') s"

section \<open>Clean absolute paths\<close>

text \<open>A component that names an entry of its parent.\<close>

definition plain_component :: "string \<Rightarrow> bool" where
  "plain_component c \<longleftrightarrow> c \<noteq> [] \<and> c \<noteq> ''.'' \<and> c \<noteq> ''..'' \<and> CHR ''/'' \<notin> set c"

lemma clean_plain:
  "list_all plain_component cs \<Longrightarrow> foldl (clean_component rooted) kept cs = rev cs @ kept"
  by (induction cs arbitrary: kept) (simp_all add: plain_component_def)

lemma clean_kept_plain:
  assumes "list_all plain_component kept" "\<forall>c \<in> set cs. CHR ''/'' \<notin> set c"
  shows "list_all plain_component (foldl (clean_component True) kept cs)"
  using assms
proof (induction cs arbitrary: kept)
  case (Cons c cs)
  have "list_all plain_component (clean_component True kept c)"
    using Cons.prems by (cases kept) (auto simp: plain_component_def list_all_iff)
  with Cons show ?case by simp
qed simp

lemma path_components_plain: "list_all plain_component (path_components True p)"
  using clean_kept_plain [of "[]" "split_on CHR ''/'' p"] split_on_fields
  by (auto simp: path_components_def list_all_iff)

lemma path_components_join:
  assumes "list_all plain_component cs"
  shows "path_components True (CHR ''/'' # join_with CHR ''/'' cs) = cs"
proof (cases "cs = []")
  case False
  then have "split_on CHR ''/'' (join_with CHR ''/'' cs) = cs"
    using assms by (intro split_join) (auto simp: list_all_iff plain_component_def)
  with clean_plain [OF assms] show ?thesis by (simp add: path_components_def)
qed (simp add: path_components_def)

lemma path_Clean_fixed_iff:
  "path_IsAbs p \<and> path_Clean p = p \<longleftrightarrow> (\<exists>cs. list_all plain_component cs \<and> p = CHR ''/'' # join_with CHR ''/'' cs)"
proof
  assume p: "path_IsAbs p \<and> path_Clean p = p"
  then have "p = CHR ''/'' # join_with CHR ''/'' (path_components True p)"
    by (auto simp: path_Clean_def path_IsAbs_def Let_def split: if_splits)
  with path_components_plain show "\<exists>cs. list_all plain_component cs \<and> p = CHR ''/'' # join_with CHR ''/'' cs"
    by blast
next
  assume "\<exists>cs. list_all plain_component cs \<and> p = CHR ''/'' # join_with CHR ''/'' cs"
  then show "path_IsAbs p \<and> path_Clean p = p"
    by (auto simp: path_Clean_def path_IsAbs_def Let_def path_components_join)
qed

end
