(* ===== verification/Packet_Filter.thy ===== *)
theory Packet_Filter
  imports Family Fingerprint Go_Text "HOL-Library.Sublist"
begin

unbundle bit_operations_syntax

text \<open>
  \<^verbatim>\<open>internal/domain/packetfilter.go\<close>: the packet filter policy, its validation, the revisions of its filter and
  NAT tables and the comparison of an observation with a policy. The lemmas show that a
  revision determines everything of the policy that the kernel tables depend on, up to a SHA-256
  collision, and nothing else: the order in which addresses, protocols and ports are listed does not matter.
\<close>

section \<open>Policies\<close>

definition ReservedPacketFilterMetadataChain :: string where
  "ReservedPacketFilterMetadataChain = ''_agent_metadata''"

definition LocalEgressPacketMarkMask :: "32 word" where
  "LocalEgressPacketMarkMask = 0x0000ffff"

type_synonym transport_protocol = string

definition TransportTCP :: transport_protocol where
  "TransportTCP = ''tcp''"

definition TransportUDP :: transport_protocol where
  "TransportUDP = ''udp''"

record dns_masquerade_target =
  dmt_Address :: addr
  dmt_OutputInterface :: string

record local_egress_policy =
  le_Enabled :: bool
  le_IPv4 :: "addr list"
  le_IPv6 :: "addr list"
  le_Protocols :: "transport_protocol list"
  le_Ports :: "16 word list"
  le_Mark :: "32 word"

definition LocalEgressZero :: local_egress_policy where
  "LocalEgressZero =
     \<lparr>le_Enabled = False, le_IPv4 = [], le_IPv6 = [], le_Protocols = [], le_Ports = [], le_Mark = 0\<rparr>"

record packet_filter_policy =
  pf_FilterTable :: string
  pf_ForwardGuardChain :: string
  pf_LocalEgressChain :: string
  pf_LocalEgressIPv4Set :: string
  pf_LocalEgressIPv6Set :: string
  pf_NATTable :: string
  pf_DNSMasqueradeChain :: string
  pf_GateClosed :: bool
  pf_TailnetIPv4Prefix :: prefix
  pf_TailnetIPv6Prefix :: prefix
  pf_DNSTargets :: "dns_masquerade_target list"
  pf_LocalEgress :: local_egress_policy

datatype policy_error =
    InvalidIdentifier string string
  | IdentifierNotDistinct string
  | TailnetIPv4PrefixInvalid prefix
  | TailnetIPv6PrefixInvalid prefix
  | DNSTargetAddressInvalid addr
  | DNSTargetInterfaceInvalid addr link_error
  | DNSTargetDuplicated addr
  | LocalEgressWithoutDestination
  | LocalEgressIncomplete
  | LocalEgressMarkTooWide
  | LocalEgressDisabledCarriesState
  | FamilyAddressInvalid string addr
  | FamilyAddressDuplicated string addr
  | LocalEgressAddresses "policy_error list"
  | ProtocolUnsupported string
  | ProtocolDuplicated string
  | PortZero
  | PortDuplicated "16 word"

definition family_address_ok :: "family \<Rightarrow> addr \<Rightarrow> bool" where
  "family_address_ok family a \<longleftrightarrow>
     \<not> (\<not> addr_IsValid a \<or> addr_Zone a \<noteq> [] \<or> FamilyOfAddress a \<noteq> family \<or> addr_IsUnspecified a \<or> addr_IsMulticast a)"

definition validateAddressFamilyList :: "string \<Rightarrow> addr list \<Rightarrow> family \<Rightarrow> policy_error list" where
  "validateAddressFamilyList label values family =
     scan_seen
       (\<lambda>v. error_if (\<not> family_address_ok family (addr_Unmap v)) (FamilyAddressInvalid label v))
       (\<lambda>v. if \<not> family_address_ok family (addr_Unmap v) then None else Some (addr_Unmap v))
       (\<lambda>v. FamilyAddressDuplicated label (addr_Unmap v)) [] values"

definition policy_identifiers :: "packet_filter_policy \<Rightarrow> (string \<times> string) list" where
  "policy_identifiers policy =
     [(''filter table'', pf_FilterTable policy), (''forward guard chain'', pf_ForwardGuardChain policy),
      (''local-egress chain'', pf_LocalEgressChain policy), (''local-egress IPv4 set'', pf_LocalEgressIPv4Set policy),
      (''local-egress IPv6 set'', pf_LocalEgressIPv6Set policy), (''NAT table'', pf_NATTable policy),
      (''DNS masquerade chain'', pf_DNSMasqueradeChain policy)]"

definition local_egress_shape :: "local_egress_policy \<Rightarrow> policy_error list" where
  "local_egress_shape local =
     (if le_Enabled local then
        error_if (length (le_IPv4 local) + length (le_IPv6 local) = 0) LocalEgressWithoutDestination @
        error_if (length (le_Protocols local) = 0 \<or> length (le_Ports local) = 0 \<or> le_Mark local = 0)
          LocalEgressIncomplete @
        error_if (le_Mark local AND NOT LocalEgressPacketMarkMask \<noteq> 0) LocalEgressMarkTooWide
      else
        error_if (length (le_IPv4 local) \<noteq> 0 \<or> length (le_IPv6 local) \<noteq> 0 \<or> length (le_Protocols local) \<noteq> 0 \<or>
                  length (le_Ports local) \<noteq> 0 \<or> le_Mark local \<noteq> 0) LocalEgressDisabledCarriesState)"

definition policy_Validate :: "packet_filter_policy \<Rightarrow> policy_error list" where
  "policy_Validate policy =
     (let local = pf_LocalEgress policy in
      scan_seen (\<lambda>(name, value). error_if (\<not> nftIdentifierPattern value) (InvalidIdentifier name value))
        (\<lambda>(name, value). Some value) (\<lambda>(name, value). IdentifierNotDistinct name)
        [ReservedPacketFilterMetadataChain] (policy_identifiers policy) @
      error_if (\<not> validMaskedPrefix (pf_TailnetIPv4Prefix policy) IPv4)
        (TailnetIPv4PrefixInvalid (pf_TailnetIPv4Prefix policy)) @
      error_if (\<not> validMaskedPrefix (pf_TailnetIPv6Prefix policy) IPv6)
        (TailnetIPv6PrefixInvalid (pf_TailnetIPv6Prefix policy)) @
      scan_seen
        (\<lambda>t. error_if (unusable_address (addr_Unmap (dmt_Address t))) (DNSTargetAddressInvalid (dmt_Address t)) @
             wrap_error (DNSTargetInterfaceInvalid (addr_Unmap (dmt_Address t)))
               (link_Validate \<lparr>link_Index = 1, link_Name = dmt_OutputInterface t\<rparr>))
        (\<lambda>t. Some (addr_Unmap (dmt_Address t))) (\<lambda>t. DNSTargetDuplicated (addr_Unmap (dmt_Address t)))
        [] (pf_DNSTargets policy) @
      local_egress_shape local @
      wrap_errors LocalEgressAddresses
        (validateAddressFamilyList ''local-egress IPv4 address'' (le_IPv4 local) IPv4) @
      wrap_errors LocalEgressAddresses
        (validateAddressFamilyList ''local-egress IPv6 address'' (le_IPv6 local) IPv6) @
      scan_seen (\<lambda>p. error_if (p \<noteq> TransportTCP \<and> p \<noteq> TransportUDP) (ProtocolUnsupported p))
        Some ProtocolDuplicated [] (le_Protocols local) @
      scan_seen (\<lambda>p. error_if (p = 0) PortZero) Some PortDuplicated [] (le_Ports local))"

section \<open>Revisions and observations\<close>

record packet_filter_observation =
  pfo_FilterTableExists :: bool
  pfo_FilterRevision :: string
  pfo_NATTableExists :: bool
  pfo_NATRevision :: string

definition show_bool :: "bool \<Rightarrow> string" where
  "show_bool b = (if b then ''true'' else ''false'')"

definition filter_head :: "packet_filter_policy \<Rightarrow> string list" where
  "filter_head policy =
     [pf_FilterTable policy, pf_ForwardGuardChain policy, pf_LocalEgressChain policy,
      pf_LocalEgressIPv4Set policy, pf_LocalEgressIPv6Set policy,
      ''gate='' @ show_bool (pf_GateClosed policy),
      prefix_String (pf_TailnetIPv4Prefix policy), prefix_String (pf_TailnetIPv6Prefix policy),
      ''local-enabled='' @ show_bool (le_Enabled (pf_LocalEgress policy))]"

definition egress_fields :: "local_egress_policy \<Rightarrow> string list" where
  "egress_fields local =
     (''mark='' @ show_dec (unat (le_Mark local))) #
     map (\<lambda>a. ''ipv4='' @ addr_String a) (sortedAddresses (le_IPv4 local)) @
     map (\<lambda>a. ''ipv6='' @ addr_String a) (sortedAddresses (le_IPv6 local)) @
     map (\<lambda>p. ''protocol='' @ p) (sort (le_Protocols local)) @
     map (\<lambda>p. ''port='' @ show_dec (unat p)) (sort (le_Ports local))"

definition filter_fields :: "packet_filter_policy \<Rightarrow> string list" where
  "filter_fields policy =
     filter_head policy @
     (if le_Enabled (pf_LocalEgress policy) then egress_fields (pf_LocalEgress policy) else [])"

definition FilterRevision :: "packet_filter_policy \<Rightarrow> string" where
  "FilterRevision policy = fingerprint (filter_fields policy)"

definition compareDNSMasqueradeTargets :: "dns_masquerade_target \<Rightarrow> dns_masquerade_target \<Rightarrow> int" where
  "compareDNSMasqueradeTargets left right =
     (let comparison = addr_Compare (addr_Unmap (dmt_Address left)) (addr_Unmap (dmt_Address right))
      in if comparison \<noteq> 0 then comparison
         else compareStrings (dmt_OutputInterface left) (dmt_OutputInterface right))"

definition nat_fields :: "packet_filter_policy \<Rightarrow> string list" where
  "nat_fields policy =
     [pf_NATTable policy, pf_DNSMasqueradeChain policy,
      prefix_String (pf_TailnetIPv4Prefix policy), prefix_String (pf_TailnetIPv6Prefix policy)] @
     map (\<lambda>t. addr_String (addr_Unmap (dmt_Address t)) @ ''@'' @ dmt_OutputInterface t)
       (sort_func compareDNSMasqueradeTargets (pf_DNSTargets policy))"

definition NATRevision :: "packet_filter_policy \<Rightarrow> string" where
  "NATRevision policy = fingerprint (nat_fields policy)"

definition FilterMatches :: "packet_filter_observation \<Rightarrow> packet_filter_policy \<Rightarrow> bool" where
  "FilterMatches observation policy \<longleftrightarrow>
     pfo_FilterTableExists observation \<and> pfo_FilterRevision observation = FilterRevision policy"

definition NATMatches :: "packet_filter_observation \<Rightarrow> packet_filter_policy \<Rightarrow> bool" where
  "NATMatches observation policy =
     (if length (pf_DNSTargets policy) = 0 then \<not> pfo_NATTableExists observation
      else pfo_NATTableExists observation \<and> pfo_NATRevision observation = NATRevision policy)"

definition Matches :: "packet_filter_observation \<Rightarrow> packet_filter_policy \<Rightarrow> bool" where
  "Matches observation policy \<longleftrightarrow> FilterMatches observation policy \<and> NATMatches observation policy"

text \<open>
  What the kernel tables realize of a policy: the rules do not depend on the order in which
  addresses, protocols, ports and targets are listed.
\<close>

definition egress_view ::
  "local_egress_policy \<Rightarrow> (32 word \<times> addr set \<times> addr set \<times> string multiset \<times> 16 word multiset) option" where
  "egress_view local =
     (if le_Enabled local
      then Some (le_Mark local, addr_Unmap ` set (le_IPv4 local), addr_Unmap ` set (le_IPv6 local),
                 mset (le_Protocols local), mset (le_Ports local))
      else None)"

definition filter_names :: "packet_filter_policy \<Rightarrow> string list" where
  "filter_names policy =
     [pf_FilterTable policy, pf_ForwardGuardChain policy, pf_LocalEgressChain policy,
      pf_LocalEgressIPv4Set policy, pf_LocalEgressIPv6Set policy]"

definition same_filter :: "packet_filter_policy \<Rightarrow> packet_filter_policy \<Rightarrow> bool" where
  "same_filter p q \<longleftrightarrow>
     filter_names p = filter_names q \<and> pf_GateClosed p = pf_GateClosed q \<and>
     pf_TailnetIPv4Prefix p = pf_TailnetIPv4Prefix q \<and> pf_TailnetIPv6Prefix p = pf_TailnetIPv6Prefix q \<and>
     egress_view (pf_LocalEgress p) = egress_view (pf_LocalEgress q)"

definition dns_view :: "dns_masquerade_target \<Rightarrow> addr \<times> string" where
  "dns_view t = (addr_Unmap (dmt_Address t), dmt_OutputInterface t)"

definition same_nat :: "packet_filter_policy \<Rightarrow> packet_filter_policy \<Rightarrow> bool" where
  "same_nat p q \<longleftrightarrow>
     pf_NATTable p = pf_NATTable q \<and> pf_DNSMasqueradeChain p = pf_DNSMasqueradeChain q \<and>
     pf_TailnetIPv4Prefix p = pf_TailnetIPv4Prefix q \<and> pf_TailnetIPv6Prefix p = pf_TailnetIPv6Prefix q \<and>
     mset (map dns_view (pf_DNSTargets p)) = mset (map dns_view (pf_DNSTargets q))"

text \<open>The fields of a list that carry a tag.\<close>

definition tag_of :: "string \<Rightarrow> string list \<Rightarrow> string list" where
  "tag_of t fs = filter (prefix t) fs"

section \<open>What validation promises\<close>

lemma policy_prefixes:
  assumes "policy_Validate p = []"
  shows "validMaskedPrefix (pf_TailnetIPv4Prefix p) IPv4" "validMaskedPrefix (pf_TailnetIPv6Prefix p) IPv6"
  using assms by (auto simp: policy_Validate_def Let_def)

lemma policy_targets:
  assumes "policy_Validate p = []" "t \<in> set (pf_DNSTargets p)"
  shows "addr_IsValid (addr_Unmap (dmt_Address t)) \<and> addr_Zone (addr_Unmap (dmt_Address t)) = []"
  using assms by (auto simp: policy_Validate_def Let_def scan_seen_Nil_iff unusable_address_def)

lemma validateAddressFamilyList_Nil_iff:
  "validateAddressFamilyList label values family = [] \<longleftrightarrow>
     (\<forall>v \<in> set values. family_address_ok family (addr_Unmap v)) \<and> distinct (map addr_Unmap values)"
proof -
  have "filter (\<lambda>v. family_address_ok family (addr_Unmap v)) values = values"
    if "\<forall>v \<in> set values. family_address_ok family (addr_Unmap v)"
    using that by simp
  then show ?thesis
    using map_filter_cond [of "\<lambda>v. \<not> family_address_ok family (addr_Unmap v)" addr_Unmap "values"]
    by (auto simp: validateAddressFamilyList_def scan_seen_Nil_iff)
qed

lemma policy_egress_addresses:
  assumes "policy_Validate p = []" "a \<in> set (le_IPv4 (pf_LocalEgress p)) \<union> set (le_IPv6 (pf_LocalEgress p))"
  shows "addr_IsValid (addr_Unmap a) \<and> addr_Zone (addr_Unmap a) = []"
  using assms
  by (auto simp: policy_Validate_def Let_def validateAddressFamilyList_Nil_iff family_address_ok_def)

section \<open>The canonical fields determine the policy\<close>

lemma show_bool_inj [simp]: "show_bool a = show_bool b \<longleftrightarrow> a = b"
  by (simp add: show_bool_def)

lemma egress_fields_tagged:
  "tag_of ''ipv4='' (egress_fields e) = map (\<lambda>a. ''ipv4='' @ addr_String a) (sortedAddresses (le_IPv4 e))"
  "tag_of ''ipv6='' (egress_fields e) = map (\<lambda>a. ''ipv6='' @ addr_String a) (sortedAddresses (le_IPv6 e))"
  "tag_of ''protocol='' (egress_fields e) = map (\<lambda>p. ''protocol='' @ p) (sort (le_Protocols e))"
  "tag_of ''port='' (egress_fields e) = map (\<lambda>p. ''port='' @ show_dec (unat p)) (sort (le_Ports e))"
  by (simp_all add: tag_of_def egress_fields_def filter_empty_conv)

lemma map_addr_String_inj:
  assumes "\<And>a. a \<in> set xs \<union> set ys \<Longrightarrow> addr_IsValid a \<and> addr_Zone a = []"
  shows "map (\<lambda>a. t @ addr_String a) xs = map (\<lambda>a. t @ addr_String a) ys \<longleftrightarrow> xs = ys"
proof -
  have "inj_on (\<lambda>a. t @ addr_String a) (set xs \<union> set ys)"
    using assms addr_String_inj by (auto simp: inj_on_def)
  then show ?thesis by (rule inj_on_map_eq_map)
qed

lemma sorted_eq_iff_mset: "sort xs = sort ys \<longleftrightarrow> mset xs = mset ys"
  by (metis mset_sort properties_for_sort sorted_sort)

lemma sortedAddresses_eq_iff: "sortedAddresses xs = sortedAddresses ys \<longleftrightarrow> addr_Unmap ` set xs = addr_Unmap ` set ys"
  by (metis List.finite_set finite_imageI sortedAddresses_eq sorted_list_of_set.set_sorted_key_list_of_set)

lemma egress_fields_eq_iff:
  assumes "\<And>a. a \<in> set (le_IPv4 d) \<union> set (le_IPv4 e) \<union> set (le_IPv6 d) \<union> set (le_IPv6 e) \<Longrightarrow>
             addr_IsValid (addr_Unmap a) \<and> addr_Zone (addr_Unmap a) = []"
    and "le_Enabled d" "le_Enabled e"
  shows "egress_fields d = egress_fields e \<longleftrightarrow> egress_view d = egress_view e"
proof
  have v4: "map (\<lambda>a. ''ipv4='' @ addr_String a) (sortedAddresses (le_IPv4 d)) =
            map (\<lambda>a. ''ipv4='' @ addr_String a) (sortedAddresses (le_IPv4 e)) \<longleftrightarrow>
            sortedAddresses (le_IPv4 d) = sortedAddresses (le_IPv4 e)"
    using assms(1) by (intro map_addr_String_inj) auto
  have v6: "map (\<lambda>a. ''ipv6='' @ addr_String a) (sortedAddresses (le_IPv6 d)) =
            map (\<lambda>a. ''ipv6='' @ addr_String a) (sortedAddresses (le_IPv6 e)) \<longleftrightarrow>
            sortedAddresses (le_IPv6 d) = sortedAddresses (le_IPv6 e)"
    using assms(1) by (intro map_addr_String_inj) auto
  have port_inj: "inj (\<lambda>p :: 16 word. ''port='' @ show_dec (unat p))"
    by (auto intro!: injI intro: unsigned_word_eqI)
  assume eq: "egress_fields d = egress_fields e"
  have "le_Mark d = le_Mark e"
    using arg_cong [OF eq, of hd] by (auto simp: egress_fields_def intro: unsigned_word_eqI)
  moreover have "addr_Unmap ` set (le_IPv4 d) = addr_Unmap ` set (le_IPv4 e)"
    using arg_cong [OF eq, of "tag_of ''ipv4=''"] v4 by (simp only: egress_fields_tagged sortedAddresses_eq_iff)
  moreover have "addr_Unmap ` set (le_IPv6 d) = addr_Unmap ` set (le_IPv6 e)"
    using arg_cong [OF eq, of "tag_of ''ipv6=''"] v6 by (simp only: egress_fields_tagged sortedAddresses_eq_iff)
  moreover have "mset (le_Protocols d) = mset (le_Protocols e)"
    using arg_cong [OF eq, of "tag_of ''protocol=''"]
    by (simp add: egress_fields_tagged inj_map_eq_map inj_def sorted_eq_iff_mset)
  moreover have "mset (le_Ports d) = mset (le_Ports e)"
    using arg_cong [OF eq, of "tag_of ''port=''"]
    by (simp only: egress_fields_tagged inj_map_eq_map [OF port_inj] sorted_eq_iff_mset)
  ultimately show "egress_view d = egress_view e"
    using assms(2,3) by (simp add: egress_view_def)
next
  assume "egress_view d = egress_view e"
  with assms(2,3) show "egress_fields d = egress_fields e"
    by (simp add: egress_view_def egress_fields_def sortedAddresses_eq_iff [symmetric] sorted_eq_iff_mset [symmetric])
qed

lemma masked_String_inj:
  "validMaskedPrefix p f \<Longrightarrow> validMaskedPrefix q g \<Longrightarrow> prefix_String p = prefix_String q \<longleftrightarrow> p = q"
  by (rule prefix_String_inj) (auto simp: validMaskedPrefix_ok validMaskedPrefix_def)

lemma filter_head_eq_iff:
  assumes "policy_Validate p = []" "policy_Validate q = []"
  shows "filter_head p = filter_head q \<longleftrightarrow>
     filter_names p = filter_names q \<and> pf_GateClosed p = pf_GateClosed q \<and>
     pf_TailnetIPv4Prefix p = pf_TailnetIPv4Prefix q \<and> pf_TailnetIPv6Prefix p = pf_TailnetIPv6Prefix q \<and>
     le_Enabled (pf_LocalEgress p) = le_Enabled (pf_LocalEgress q)"
  using masked_String_inj policy_prefixes [OF assms(1)] policy_prefixes [OF assms(2)]
  by (auto simp: filter_head_def filter_names_def)

lemma filter_fields_eq_iff:
  assumes "policy_Validate p = []" "policy_Validate q = []"
  shows "filter_fields p = filter_fields q \<longleftrightarrow> same_filter p q"
proof -
  have len: "length (filter_head p) = length (filter_head q)" by (simp add: filter_head_def)
  have addrs: "addr_IsValid (addr_Unmap a) \<and> addr_Zone (addr_Unmap a) = []"
    if "a \<in> set (le_IPv4 (pf_LocalEgress p)) \<union> set (le_IPv4 (pf_LocalEgress q)) \<union>
             set (le_IPv6 (pf_LocalEgress p)) \<union> set (le_IPv6 (pf_LocalEgress q))" for a
    using that policy_egress_addresses [OF assms(1)] policy_egress_addresses [OF assms(2)] by blast
  show ?thesis
    using len filter_head_eq_iff [OF assms] egress_fields_eq_iff [OF addrs]
    by (auto simp: filter_fields_def same_filter_def egress_view_def)
qed

lemma dns_cmp_key:
  "compareDNSMasqueradeTargets l r < 0 \<longleftrightarrow> dns_view l < dns_view r"
  "compareDNSMasqueradeTargets l r > 0 \<longleftrightarrow> dns_view r < dns_view l"
  using addr_cmp.cmp_less [of "addr_Unmap (dmt_Address l)" "addr_Unmap (dmt_Address r)"]
    addr_cmp.cmp_greater [of "addr_Unmap (dmt_Address l)" "addr_Unmap (dmt_Address r)"]
    addr_cmp.cmp_zero [of "addr_Unmap (dmt_Address l)" "addr_Unmap (dmt_Address r)"]
    string_cmp.cmp_less [of "dmt_OutputInterface l" "dmt_OutputInterface r"]
    string_cmp.cmp_greater [of "dmt_OutputInterface l" "dmt_OutputInterface r"]
  by (auto simp: compareDNSMasqueradeTargets_def Let_def dns_view_def less_prod_def split: if_splits)

interpretation dns_targets: comparator_key compareDNSMasqueradeTargets dns_view
  by unfold_locales (rule dns_cmp_key)+

lemma dns_field_inj:
  assumes "addr_IsValid a" "addr_Zone a = []" "addr_IsValid b" "addr_Zone b = []"
  shows "addr_String a @ CHR ''@'' # i = addr_String b @ CHR ''@'' # j \<longleftrightarrow> a = b \<and> i = j"
proof -
  have no: "CHR ''@'' \<notin> set (addr_String c)" if "addr_IsValid c" "addr_Zone c = []" for c
    using that by (cases c) (auto simp: string4_no_sep string6_no_sep)
  show ?thesis
    using no [OF assms(1,2)] no [OF assms(3,4)] addr_String_inj [OF assms] by (simp add: append_sep_eq_iff)
qed

lemma nat_fields_eq_iff:
  assumes "policy_Validate p = []" "policy_Validate q = []"
  shows "nat_fields p = nat_fields q \<longleftrightarrow> same_nat p q"
proof -
  let ?s = "\<lambda>p. sort_func compareDNSMasqueradeTargets (pf_DNSTargets p)"
  let ?f = "\<lambda>(a, i). addr_String a @ ''@'' @ i"
  have field: "(\<lambda>t. addr_String (addr_Unmap (dmt_Address t)) @ ''@'' @ dmt_OutputInterface t) = ?f \<circ> dns_view"
    by (auto simp: dns_view_def)
  have "inj_on ?f (set (map dns_view (?s p)) \<union> set (map dns_view (?s q)))"
    using policy_targets [OF assms(1)] policy_targets [OF assms(2)] dns_field_inj
    by (auto simp: inj_on_def dns_view_def dns_targets.set_sort_func)
  then have "map ?f (map dns_view (?s p)) = map ?f (map dns_view (?s q)) \<longleftrightarrow> map dns_view (?s p) = map dns_view (?s q)"
    by (rule inj_on_map_eq_map)
  also have "\<dots> \<longleftrightarrow> mset (map dns_view (?s p)) = mset (map dns_view (?s q))"
    using dns_targets.sorted_sort_func by (metis properties_for_sort sorted_sort_id)
  also have "\<dots> \<longleftrightarrow> mset (map dns_view (pf_DNSTargets p)) = mset (map dns_view (pf_DNSTargets q))"
    by (simp add: dns_targets.mset_sort_func)
  finally show ?thesis
    using masked_String_inj policy_prefixes [OF assms(1)] policy_prefixes [OF assms(2)]
    unfolding nat_fields_def field same_nat_def by auto
qed

section \<open>Properties\<close>

text \<open>
  C39: the filter revision is a faithful name of the filter table. Two valid policies have the same
  revision exactly when they agree on the table, chain and set names, the gate, the Tailnet
  prefixes and, when local egress is enabled, on its mark, its sets of addresses and its protocols and ports, in
  whatever order they are listed; otherwise their canonical encodings are a SHA-256 collision.
\<close>

theorem FilterRevision_faithful:
  assumes "policy_Validate p = []" "policy_Validate q = []"
  shows "FilterRevision p = FilterRevision q \<longleftrightarrow>
           same_filter p q \<or> sha256_collision (canonical (filter_fields p)) (canonical (filter_fields q))"
  by (simp add: FilterRevision_def fingerprint_eq_iff filter_fields_eq_iff [OF assms])

text \<open>
  the NAT revision is a faithful name of the NAT table: two valid policies have the same revision exactly
  when they agree on its names, the Tailnet prefixes and the multiset of DNS targets with their output
  interfaces, or exhibit a SHA-256 collision.
\<close>

theorem NATRevision_faithful:
  assumes "policy_Validate p = []" "policy_Validate q = []"
  shows "NATRevision p = NATRevision q \<longleftrightarrow>
           same_nat p q \<or> sha256_collision (canonical (nat_fields p)) (canonical (nat_fields q))"
  by (simp add: NATRevision_def fingerprint_eq_iff nat_fields_eq_iff [OF assms])

text \<open>
  an observation vouches for one gate only. Two valid policies that the same observation matches have the same
  gate, unless their canonical encodings collide under SHA-256; so a closed gate is never taken for an open one.
\<close>

theorem Matches_gate:
  assumes "policy_Validate p = []" "policy_Validate q = []" "Matches observation p" "Matches observation q"
  shows "pf_GateClosed p = pf_GateClosed q \<or>
         sha256_collision (canonical (filter_fields p)) (canonical (filter_fields q))"
proof -
  from assms(3,4) have "fingerprint (filter_fields p) = fingerprint (filter_fields q)"
    by (simp add: Matches_def FilterMatches_def FilterRevision_def)
  then have "same_filter p q \<or> sha256_collision (canonical (filter_fields p)) (canonical (filter_fields q))"
    unfolding fingerprint_eq_iff filter_fields_eq_iff [OF assms(1,2)] by blast
  then show ?thesis by (auto simp: same_filter_def)
qed

section \<open>Witnesses\<close>

definition example_policy :: "bool \<Rightarrow> addr list \<Rightarrow> packet_filter_policy" where
  "example_policy gate addresses =
     \<lparr>pf_FilterTable = ''f'', pf_ForwardGuardChain = ''g'', pf_LocalEgressChain = ''e'',
      pf_LocalEgressIPv4Set = ''s4'', pf_LocalEgressIPv6Set = ''s6'', pf_NATTable = ''n'',
      pf_DNSMasqueradeChain = ''d'', pf_GateClosed = gate,
      pf_TailnetIPv4Prefix = Prefix (Addr4 0x64400000) 11, pf_TailnetIPv6Prefix = Prefix (Addr6 0 []) 1,
      pf_DNSTargets = [\<lparr>dmt_Address = Addr4 16, dmt_OutputInterface = ''eth0''\<rparr>],
      pf_LocalEgress = \<lparr>le_Enabled = True, le_IPv4 = addresses, le_IPv6 = [], le_Protocols = [''tcp''],
        le_Ports = [53], le_Mark = 1\<rparr>\<rparr>"

lemma example_policy_valid:
  "policy_Validate (example_policy gate [Addr4 1, Addr4 2]) = []"
  "policy_Validate (example_policy gate [Addr4 2, Addr4 1]) = []"
  by (cases gate; code_simp)+

lemma FilterRevision_faithful_witness:
  "FilterRevision (example_policy True [Addr4 1, Addr4 2]) = FilterRevision (example_policy True [Addr4 2, Addr4 1])"
proof -
  have "same_filter (example_policy True [Addr4 1, Addr4 2]) (example_policy True [Addr4 2, Addr4 1])"
    by (auto simp: same_filter_def filter_names_def egress_view_def example_policy_def)
  then show ?thesis
    using FilterRevision_faithful [OF example_policy_valid(1) [of True] example_policy_valid(2) [of True]] by blast
qed

lemma NATRevision_faithful_witness:
  "NATRevision (example_policy True [Addr4 1, Addr4 2]) = NATRevision (example_policy False [Addr4 2, Addr4 1])"
proof -
  have "same_nat (example_policy True [Addr4 1, Addr4 2]) (example_policy False [Addr4 2, Addr4 1])"
    by (simp add: same_nat_def example_policy_def)
  then show ?thesis
    using NATRevision_faithful [OF example_policy_valid(1) [of True] example_policy_valid(2) [of False]] by blast
qed

definition example_observation :: packet_filter_observation where
  "example_observation =
     \<lparr>pfo_FilterTableExists = True, pfo_FilterRevision = FilterRevision (example_policy True [Addr4 1, Addr4 2]),
      pfo_NATTableExists = True, pfo_NATRevision = NATRevision (example_policy True [Addr4 1, Addr4 2])\<rparr>"

lemma Matches_gate_witness:
  "Matches example_observation (example_policy True [Addr4 2, Addr4 1]) \<and>
   (pf_GateClosed (example_policy True [Addr4 1, Addr4 2]) = pf_GateClosed (example_policy True [Addr4 2, Addr4 1]) \<or>
    sha256_collision (canonical (filter_fields (example_policy True [Addr4 1, Addr4 2])))
      (canonical (filter_fields (example_policy True [Addr4 2, Addr4 1]))))"
proof -
  have one: "Matches example_observation (example_policy True [Addr4 1, Addr4 2])"
    by (simp add: Matches_def FilterMatches_def NATMatches_def example_observation_def example_policy_def)
  have "filter_fields (example_policy True [Addr4 1, Addr4 2]) = filter_fields (example_policy True [Addr4 2, Addr4 1])"
    "nat_fields (example_policy True [Addr4 1, Addr4 2]) = nat_fields (example_policy True [Addr4 2, Addr4 1])"
    by code_simp+
  then have two: "Matches example_observation (example_policy True [Addr4 2, Addr4 1])"
    unfolding Matches_def FilterMatches_def NATMatches_def example_observation_def FilterRevision_def NATRevision_def
    by (simp add: example_policy_def)
  from Matches_gate [OF example_policy_valid one two] two show ?thesis by blast
qed

end
