(* ===== verification/Tailnet.thy ===== *)
theory Tailnet
  imports Routing
begin

text \<open>
  \<^verbatim>\<open>internal/domain/tailnet.go\<close>: the advertised routes of the Tailnet node, their normal form, the exit
  default routes they carry and the validation of what the Tailnet control plane reports.
\<close>

section \<open>Preferences\<close>

record tailnet_preferences =
  tp_AdvertiseRoutes :: "prefix list"

definition compareTailnetRoutes :: "prefix \<Rightarrow> prefix \<Rightarrow> int" where
  "compareTailnetRoutes left right =
     (let comparison = addr_Compare (prefix_Addr left) (prefix_Addr right)
      in if comparison \<noteq> 0 then comparison else prefix_Bits left - prefix_Bits right)"

definition NormalizeTailnetPreferences :: "prefix list \<Rightarrow> tailnet_preferences" where
  "NormalizeTailnetPreferences advertisedRoutes =
     \<lparr>tp_AdvertiseRoutes = remdups_adj (sort_func compareTailnetRoutes (map prefix_Masked advertisedRoutes))\<rparr>"

definition NewTailnetPreferences :: "prefix list \<Rightarrow> tailnet_preferences" where
  "NewTailnetPreferences advertisedRoutes = NormalizeTailnetPreferences advertisedRoutes"

definition NewTailnetExitNodePreferences :: "prefix list \<Rightarrow> tailnet_preferences" where
  "NewTailnetExitNodePreferences advertisedRoutes =
     NormalizeTailnetPreferences (advertisedRoutes @ [DefaultPrefix IPv4, DefaultPrefix IPv6])"

definition ExitDefaultRoutes :: "tailnet_preferences \<Rightarrow> exit_default_route_set" where
  "ExitDefaultRoutes preferences =
     foldl (\<lambda>result p.
       if p = DefaultPrefix IPv4 then result\<lparr>ex_IPv4 := True\<rparr>
       else if p = DefaultPrefix IPv6 then result\<lparr>ex_IPv6 := True\<rparr> else result)
       ExitNone (tp_AdvertiseRoutes preferences)"

definition AdvertisesExitNode :: "tailnet_preferences \<Rightarrow> bool" where
  "AdvertisesExitNode preferences \<longleftrightarrow> exit_Equal (ExitDefaultRoutes preferences) AllExitDefaultRoutes"

definition HasExitDefaultRoutes :: "tailnet_preferences \<Rightarrow> bool" where
  "HasExitDefaultRoutes preferences \<longleftrightarrow> \<not> exit_Empty (ExitDefaultRoutes preferences)"

definition RoutesWithoutExitDefaults :: "tailnet_preferences \<Rightarrow> prefix list" where
  "RoutesWithoutExitDefaults preferences =
     filter (\<lambda>p. p \<noteq> DefaultPrefix (FamilyOfPrefix p)) (tp_AdvertiseRoutes preferences)"

definition preferences_Equal :: "tailnet_preferences \<Rightarrow> tailnet_preferences \<Rightarrow> bool" where
  "preferences_Equal preferences other \<longleftrightarrow> tp_AdvertiseRoutes preferences = tp_AdvertiseRoutes other"

datatype tailnet_error =
    PreferenceRouteInvalid prefix
  | PreferenceRouteDuplicated prefix
  | EventKindUnsupported string
  | ControlTimeRequired
  | MissingSelfCarriesState
  | UnavailableAllowedIPsCarriesRoutes
  | ApprovedRouteInvalid prefix
  | ApprovedRouteDuplicated prefix

definition scan_masked ::
  "(prefix \<Rightarrow> tailnet_error) \<Rightarrow> (prefix \<Rightarrow> tailnet_error) \<Rightarrow> prefix list \<Rightarrow> tailnet_error list" where
  "scan_masked invalid duplicated prefixes =
     scan_seen (\<lambda>p. error_if (\<not> prefix_IsValid p \<or> p \<noteq> prefix_Masked p) (invalid p))
       (\<lambda>p. if \<not> prefix_IsValid p \<or> p \<noteq> prefix_Masked p then None else Some p)
       duplicated [] prefixes"

definition preferences_Validate :: "tailnet_preferences \<Rightarrow> tailnet_error list" where
  "preferences_Validate preferences =
     scan_masked PreferenceRouteInvalid PreferenceRouteDuplicated (tp_AdvertiseRoutes preferences)"

section \<open>Observed state\<close>

record tailnet_control_observation =
  tc_SelfPresent :: bool
  tc_InNetworkMap :: bool
  tc_Online :: bool
  tc_AllowedIPsAvailable :: bool
  tc_ApprovedRoutes :: "prefix list"
  tc_ObservedAt :: time

definition control_Validate :: "tailnet_control_observation \<Rightarrow> tailnet_error list" where
  "control_Validate observation =
     error_if (time_IsZero (tc_ObservedAt observation)) ControlTimeRequired @
     error_if (\<not> tc_SelfPresent observation \<and>
        (tc_InNetworkMap observation \<or> tc_Online observation \<or> tc_AllowedIPsAvailable observation \<or>
         length (tc_ApprovedRoutes observation) \<noteq> 0)) MissingSelfCarriesState @
     error_if (\<not> tc_AllowedIPsAvailable observation \<and> length (tc_ApprovedRoutes observation) \<noteq> 0)
        UnavailableAllowedIPsCarriesRoutes @
     scan_masked ApprovedRouteInvalid ApprovedRouteDuplicated (tc_ApprovedRoutes observation)"

record tailnet_state =
  ts_Running :: bool
  ts_KernelTunnel :: bool
  ts_SelfAddresses :: "addr list"
  ts_Preferences :: tailnet_preferences
  ts_Control :: tailnet_control_observation

type_synonym tailnet_event_kind = string

definition TailnetEventStateChanged :: tailnet_event_kind where
  "TailnetEventStateChanged = ''state_changed''"

definition TailnetEventNetworkMap :: tailnet_event_kind where
  "TailnetEventNetworkMap = ''network_map_changed''"

definition TailnetEventSelfNode :: tailnet_event_kind where
  "TailnetEventSelfNode = ''self_node_changed''"

record tailnet_event =
  te_Kind :: tailnet_event_kind

definition event_Validate :: "tailnet_event \<Rightarrow> tailnet_error option" where
  "event_Validate event =
     (if te_Kind event \<in> {TailnetEventStateChanged, TailnetEventNetworkMap, TailnetEventSelfNode}
      then None else Some (EventKindUnsupported (te_Kind event)))"

text \<open>The order in which the normal form lists prefixes.\<close>

definition prefix_key :: "prefix \<Rightarrow> addr \<times> nat" where
  "prefix_key p = (prefix_Addr p, prefix_bitsPlusOne p)"

section \<open>The normal form of advertised routes\<close>

lemma prefix_key_inj: "prefix_key p = prefix_key q \<longleftrightarrow> p = q"
  by (cases p; cases q) (auto simp: prefix_key_def)

instantiation prefix :: linorder
begin

definition less_eq_prefix :: "prefix \<Rightarrow> prefix \<Rightarrow> bool" where
  "p \<le> q \<longleftrightarrow> prefix_key p \<le> prefix_key q"

definition less_prefix :: "prefix \<Rightarrow> prefix \<Rightarrow> bool" where
  "p < q \<longleftrightarrow> prefix_key p < prefix_key q"

instance
  by standard (auto simp: less_eq_prefix_def less_prefix_def prefix_key_inj dest: order.antisym)

end

interpretation tailnet_routes: comparator_key compareTailnetRoutes "\<lambda>p::prefix. p"
proof
  fix p q :: prefix
  note cmp = addr_cmp.cmp_less [of "prefix_Addr p" "prefix_Addr q"]
    addr_cmp.cmp_greater [of "prefix_Addr p" "prefix_Addr q"] addr_cmp.cmp_zero [of "prefix_Addr p" "prefix_Addr q"]
  show "compareTailnetRoutes p q < 0 \<longleftrightarrow> p < q" "0 < compareTailnetRoutes p q \<longleftrightarrow> q < p"
    using cmp by (auto simp: compareTailnetRoutes_def Let_def less_prefix_def prefix_key_def less_prod_def
        prefix_Bits_def split: if_splits)
qed

lemma tailnet_sort: "sort_func compareTailnetRoutes xs = sort xs"
  by (simp add: tailnet_routes.sort_func_sort_key)

lemma Normalize_eq:
  "tp_AdvertiseRoutes (NormalizeTailnetPreferences xs) = sorted_list_of_set (prefix_Masked ` set xs)"
  by (simp add: NormalizeTailnetPreferences_def tailnet_sort compact_sort)

lemma set_Normalize [simp]:
  "set (tp_AdvertiseRoutes (NormalizeTailnetPreferences xs)) = prefix_Masked ` set xs"
  by (simp add: Normalize_eq)

lemma set_NewTailnetPreferences [simp]:
  "set (tp_AdvertiseRoutes (NewTailnetPreferences xs)) = prefix_Masked ` set xs"
  by (simp add: NewTailnetPreferences_def)

lemma set_NewTailnetExitNodePreferences [simp]:
  "set (tp_AdvertiseRoutes (NewTailnetExitNodePreferences xs)) =
     prefix_Masked ` set xs \<union> {DefaultPrefix IPv4, DefaultPrefix IPv6}"
  by (auto simp: NewTailnetExitNodePreferences_def)

lemma preferences_eqI: "tp_AdvertiseRoutes a = tp_AdvertiseRoutes b \<Longrightarrow> a = (b :: tailnet_preferences)"
  by (cases a; cases b) simp

lemma preferences_Equal_iff [simp]: "preferences_Equal a b \<longleftrightarrow> a = b"
  by (auto simp: preferences_Equal_def intro: preferences_eqI)

lemma Normalize_eq_iff:
  "NormalizeTailnetPreferences xs = NormalizeTailnetPreferences ys \<longleftrightarrow> prefix_Masked ` set xs = prefix_Masked ` set ys"
proof
  assume "prefix_Masked ` set xs = prefix_Masked ` set ys"
  then show "NormalizeTailnetPreferences xs = NormalizeTailnetPreferences ys"
    by (intro preferences_eqI) (simp add: Normalize_eq)
qed (metis set_Normalize)

section \<open>Exit default routes\<close>

lemma ExitDefaultRoutes_iff:
  "ex_IPv4 (ExitDefaultRoutes p) \<longleftrightarrow> DefaultPrefix IPv4 \<in> set (tp_AdvertiseRoutes p)"
  "ex_IPv6 (ExitDefaultRoutes p) \<longleftrightarrow> DefaultPrefix IPv6 \<in> set (tp_AdvertiseRoutes p)"
proof -
  let ?f = "\<lambda>result p. if p = DefaultPrefix IPv4 then result\<lparr>ex_IPv4 := True\<rparr>
       else if p = DefaultPrefix IPv6 then result\<lparr>ex_IPv6 := True\<rparr> else (result :: exit_default_route_set)"
  have "ex_IPv4 (foldl ?f r ps) \<longleftrightarrow> ex_IPv4 r \<or> DefaultPrefix IPv4 \<in> set ps"
    "ex_IPv6 (foldl ?f r ps) \<longleftrightarrow> ex_IPv6 r \<or> DefaultPrefix IPv6 \<in> set ps" for r ps
    by (induction ps arbitrary: r) auto
  then show "ex_IPv4 (ExitDefaultRoutes p) \<longleftrightarrow> DefaultPrefix IPv4 \<in> set (tp_AdvertiseRoutes p)"
    "ex_IPv6 (ExitDefaultRoutes p) \<longleftrightarrow> DefaultPrefix IPv6 \<in> set (tp_AdvertiseRoutes p)"
    unfolding ExitDefaultRoutes_def by (simp_all add: ExitNone_def)
qed

lemma is_default_iff:
  "p = DefaultPrefix (FamilyOfPrefix p) \<longleftrightarrow> p = DefaultPrefix IPv4 \<or> p = DefaultPrefix IPv6"
  by (metis DefaultPrefix_family FamilyOfAddress_cases FamilyOfPrefix_def)

lemma AdvertisesExitNode_iff:
  "AdvertisesExitNode p \<longleftrightarrow>
     DefaultPrefix IPv4 \<in> set (tp_AdvertiseRoutes p) \<and> DefaultPrefix IPv6 \<in> set (tp_AdvertiseRoutes p)"
  using ExitDefaultRoutes_iff [of p]
  by (cases "ExitDefaultRoutes p") (auto simp: AdvertisesExitNode_def AllExitDefaultRoutes_def)

lemma HasExitDefaultRoutes_iff:
  "HasExitDefaultRoutes p \<longleftrightarrow>
     DefaultPrefix IPv4 \<in> set (tp_AdvertiseRoutes p) \<or> DefaultPrefix IPv6 \<in> set (tp_AdvertiseRoutes p)"
  using ExitDefaultRoutes_iff [of p]
  by (cases "ExitDefaultRoutes p") (auto simp: HasExitDefaultRoutes_def ExitNone_def)

lemma set_RoutesWithoutExitDefaults:
  "set (RoutesWithoutExitDefaults p) = set (tp_AdvertiseRoutes p) - {DefaultPrefix IPv4, DefaultPrefix IPv6}"
  using is_default_iff by (auto simp: RoutesWithoutExitDefaults_def)

lemma sorted_RoutesWithoutExitDefaults:
  assumes "sorted (tp_AdvertiseRoutes p)" "distinct (tp_AdvertiseRoutes p)"
  shows "RoutesWithoutExitDefaults p =
    sorted_list_of_set (set (tp_AdvertiseRoutes p) - {DefaultPrefix IPv4, DefaultPrefix IPv6})"
proof -
  have "sorted (RoutesWithoutExitDefaults p)" "distinct (RoutesWithoutExitDefaults p)"
    using assms by (simp_all add: RoutesWithoutExitDefaults_def sorted_wrt_filter)
  then show ?thesis
    by (metis set_RoutesWithoutExitDefaults sorted_list_of_set.idem_if_sorted_distinct)
qed

lemma scan_masked_Nil_iff:
  "scan_masked e d ps = [] \<longleftrightarrow> (\<forall>p \<in> set ps. prefix_IsValid p \<and> prefix_Masked p = p) \<and> distinct ps"
proof -
  have "List.map_filter (\<lambda>p. if \<not> prefix_IsValid p \<or> p \<noteq> prefix_Masked p then None else Some p) ps = ps"
    if "\<forall>p \<in> set ps. prefix_IsValid p \<and> prefix_Masked p = p"
    using that map_filter_Some [of ps "\<lambda>p. if \<not> prefix_IsValid p \<or> p \<noteq> prefix_Masked p then None else Some p" "\<lambda>p. p"]
    by auto
  then show ?thesis by (auto simp: scan_masked_def scan_seen_Nil_iff)
qed

section \<open>Properties\<close>

text \<open>
  the normal form of advertised routes. Normalizing is insensitive to the order and repetition of
  the routes and to their host bits, is idempotent, and its result passes validation exactly when
  every route is a valid prefix. The hypothesis is the representation invariant of \<^verbatim>\<open>netip.Prefix\<close>.
\<close>

theorem NormalizeTailnetPreferences_canonical:
  assumes "list_all prefix_ok xs"
  shows "(NormalizeTailnetPreferences xs = NormalizeTailnetPreferences ys \<longleftrightarrow> prefix_Masked ` set xs = prefix_Masked ` set ys) \<and>
   NormalizeTailnetPreferences (tp_AdvertiseRoutes (NormalizeTailnetPreferences xs)) = NormalizeTailnetPreferences xs \<and>
   (preferences_Validate (NormalizeTailnetPreferences xs) = [] \<longleftrightarrow> list_all prefix_IsValid xs)"
proof (intro conjI)
  have idem: "prefix_Masked (prefix_Masked x) = prefix_Masked x" if "x \<in> set xs" for x
    using that assms by (simp add: list_all_iff prefix_Masked_idem)
  then show "NormalizeTailnetPreferences (tp_AdvertiseRoutes (NormalizeTailnetPreferences xs)) = NormalizeTailnetPreferences xs"
    by (auto simp: Normalize_eq_iff image_image)
  have valid: "prefix_IsValid (prefix_Masked x) \<longleftrightarrow> prefix_IsValid x" if "x \<in> set xs" for x
  proof (cases "prefix_IsValid x")
    case True
    with that assms show ?thesis by (simp add: list_all_iff prefix_Masked_valid)
  qed (simp add: prefix_Masked_invalid)
  have "distinct (tp_AdvertiseRoutes (NormalizeTailnetPreferences xs))" by (simp add: Normalize_eq)
  with idem valid show "preferences_Validate (NormalizeTailnetPreferences xs) = [] \<longleftrightarrow> list_all prefix_IsValid xs"
    by (auto simp: preferences_Validate_def scan_masked_Nil_iff list_all_iff)
qed (rule Normalize_eq_iff)

lemma NormalizeTailnetPreferences_canonical_witness:
  "NormalizeTailnetPreferences [Prefix (Addr4 0x0A000001) 9, Prefix (Addr4 0x0A000000) 9] =
   NormalizeTailnetPreferences [Prefix (Addr4 0x0A000000) 9]"
proof -
  have "list_all prefix_ok [Prefix (Addr4 0x0A000001) 9, Prefix (Addr4 0x0A000000) 9]" by code_simp
  moreover have "prefix_Masked (Prefix (Addr4 0x0A000001) 9) = Prefix (Addr4 0x0A000000) 9"
    "prefix_Masked (Prefix (Addr4 0x0A000000) 9) = Prefix (Addr4 0x0A000000) 9"
    by code_simp+
  ultimately show ?thesis
    using NormalizeTailnetPreferences_canonical
      [of "[Prefix (Addr4 0x0A000001) 9, Prefix (Addr4 0x0A000000) 9]" "[Prefix (Addr4 0x0A000000) 9]"]
    by simp
qed

text \<open>
  Exit-node preferences are the plain preferences plus the two default routes. They always advertise
  the exit node, and removing the exit defaults from either gives the same list of routes.
\<close>

theorem NewTailnetExitNodePreferences_spec:
  "AdvertisesExitNode (NewTailnetExitNodePreferences xs) \<and>
   set (tp_AdvertiseRoutes (NewTailnetExitNodePreferences xs)) =
     set (tp_AdvertiseRoutes (NewTailnetPreferences xs)) \<union> {DefaultPrefix IPv4, DefaultPrefix IPv6} \<and>
   RoutesWithoutExitDefaults (NewTailnetExitNodePreferences xs) = RoutesWithoutExitDefaults (NewTailnetPreferences xs)"
proof (intro conjI)
  show "RoutesWithoutExitDefaults (NewTailnetExitNodePreferences xs) = RoutesWithoutExitDefaults (NewTailnetPreferences xs)"
  proof -
    have "sorted (tp_AdvertiseRoutes (NormalizeTailnetPreferences ys))"
      "distinct (tp_AdvertiseRoutes (NormalizeTailnetPreferences ys))" for ys
      by (simp_all add: Normalize_eq)
    then show ?thesis
      unfolding NewTailnetExitNodePreferences_def NewTailnetPreferences_def
      by (simp add: sorted_RoutesWithoutExitDefaults)
  qed
qed (simp_all add: AdvertisesExitNode_iff)

end
