(* ===== verification/Discovery.thy ===== *)
theory Discovery
  imports Routing
begin

text \<open>
  \<^verbatim>\<open>internal/domain/discovery.go\<close>: the route resolutions and network snapshots that discovery reports and their
  validation. The lemmas turn the joined errors of the validators into the facts the reconciler
  relies on: a valid snapshot covers exactly the requested prefixes and nameservers, and nothing it reports
  leaves through a managed tunnel.
\<close>

section \<open>Resolutions and requests\<close>

record route_resolution =
  res_Target :: addr
  res_MatchedPrefix :: prefix
  res_Disposition :: disposition
  res_Table :: int
  res_Gateway :: addr
  res_Link :: link_identity
  res_OnLink :: bool
  res_Multipath :: bool
  res_UnexpectedAttributes :: bool

datatype resolution_error =
    ResTargetInvalid addr
  | ResDisposition addr disposition
  | ResMultipath addr
  | ResUnsupportedAttributes addr
  | ResTableInvalid addr int
  | ResNoLink addr link_error
  | ResMatchedPrefixInvalid addr prefix
  | ResGatewayInvalid addr addr
  | ResOnLinkWithoutGateway addr

definition resolution_Validate :: "route_resolution \<Rightarrow> resolution_error option" where
  "resolution_Validate resolution =
     (let target = addr_Unmap (res_Target resolution) in
      if \<not> addr_IsValid target \<or> addr_Zone target \<noteq> [] then Some (ResTargetInvalid (res_Target resolution))
      else if res_Disposition resolution \<noteq> RouteUnicast then Some (ResDisposition target (res_Disposition resolution))
      else if res_Multipath resolution then Some (ResMultipath target)
      else if res_UnexpectedAttributes resolution then Some (ResUnsupportedAttributes target)
      else if res_Table resolution \<le> 0 then Some (ResTableInvalid target (res_Table resolution))
      else case link_Validate (res_Link resolution) of
        Some e \<Rightarrow> Some (ResNoLink target e)
      | None \<Rightarrow>
          if \<not> validMaskedPrefix (res_MatchedPrefix resolution) (FamilyOfAddress target) \<or>
             \<not> prefix_Contains (res_MatchedPrefix resolution) target
          then Some (ResMatchedPrefixInvalid target (res_MatchedPrefix resolution))
          else if addr_IsValid (res_Gateway resolution) then
            (let gateway = addr_Unmap (res_Gateway resolution) in
             if addr_Zone gateway \<noteq> [] \<or> FamilyOfAddress gateway \<noteq> FamilyOfAddress target
             then Some (ResGatewayInvalid target (res_Gateway resolution)) else None)
          else if res_OnLink resolution then Some (ResOnLinkWithoutGateway target)
          else None)"

record discovery_request =
  dq_TailnetAddresses :: "addr list"
  dq_ProxyTunnelAddresses :: "prefix list"
  dq_AdvertisedPrefixes :: "prefix list"
  dq_NameServers :: "addr list"

record proxy_tunnel_request =
  pq_Addresses :: "prefix list"

datatype request_error =
    NoProxyTunnelAddress
  | ProxyTunnelAddressInvalid prefix
  | ProxyTunnelAddressDuplicated addr
  | ProxyTunnelWithoutIPv4
  | ProxyTunnelWithoutIPv6
  | RequestNotUnique "unique_error list"

definition scan_tunnel_addresses :: "prefix list \<Rightarrow> request_error list" where
  "scan_tunnel_addresses prefixes =
     scan_seen (\<lambda>p. error_if (\<not> validInterfaceAddressPrefix p) (ProxyTunnelAddressInvalid p))
       (\<lambda>p. if \<not> validInterfaceAddressPrefix p then None else Some (addr_Unmap (prefix_Addr p)))
       (\<lambda>p. ProxyTunnelAddressDuplicated (addr_Unmap (prefix_Addr p))) [] prefixes"

text \<open>\<^verbatim>\<open>seenFamilies\<close>: the families of the valid addresses of the request.\<close>

definition tunnel_families :: "prefix list \<Rightarrow> family list" where
  "tunnel_families prefixes =
     map (\<lambda>p. FamilyOfAddress (addr_Unmap (prefix_Addr p))) (filter validInterfaceAddressPrefix prefixes)"

definition proxy_request_Validate :: "proxy_tunnel_request \<Rightarrow> request_error list" where
  "proxy_request_Validate request =
     (if length (pq_Addresses request) = 0 then [NoProxyTunnelAddress]
      else
        scan_tunnel_addresses (pq_Addresses request) @
        error_if (IPv4 \<notin> set (tunnel_families (pq_Addresses request))) ProxyTunnelWithoutIPv4 @
        error_if (IPv6 \<notin> set (tunnel_families (pq_Addresses request))) ProxyTunnelWithoutIPv6)"

definition request_Validate :: "discovery_request \<Rightarrow> request_error list" where
  "request_Validate request =
     wrap_errors RequestNotUnique (validateUniqueAddresses ''tailnet address'' (dq_TailnetAddresses request) True) @
     error_if (length (dq_ProxyTunnelAddresses request) = 0) NoProxyTunnelAddress @
     scan_tunnel_addresses (dq_ProxyTunnelAddresses request) @
     wrap_errors RequestNotUnique (validateUniquePrefixes ''advertised prefix'' (dq_AdvertisedPrefixes request)) @
     wrap_errors RequestNotUnique (validateUniqueAddresses ''DNS nameserver'' (dq_NameServers request) True)"

section \<open>Snapshots\<close>

record direct_route_projection =
  dp_Prefix :: prefix
  dp_Gateway :: addr
  dp_Link :: link_identity
  dp_OnLink :: bool

datatype projection_error =
    ProjPrefixInvalid prefix
  | ProjLinkInvalid prefix link_error
  | ProjGatewayInvalid prefix addr
  | ProjOnLinkWithoutGateway prefix

definition projection_Validate :: "direct_route_projection \<Rightarrow> projection_error option" where
  "projection_Validate projection =
     (if \<not> prefix_IsValid (dp_Prefix projection) \<or> prefix_Bits (dp_Prefix projection) = 0 \<or>
         dp_Prefix projection \<noteq> prefix_Masked (dp_Prefix projection)
      then Some (ProjPrefixInvalid (dp_Prefix projection))
      else case link_Validate (dp_Link projection) of
        Some e \<Rightarrow> Some (ProjLinkInvalid (dp_Prefix projection) e)
      | None \<Rightarrow>
          if addr_IsValid (dp_Gateway projection) then
            (let gateway = addr_Unmap (dp_Gateway projection) in
             if addr_Zone gateway \<noteq> [] \<or> FamilyOfAddress gateway \<noteq> FamilyOfPrefix (dp_Prefix projection)
             then Some (ProjGatewayInvalid (dp_Prefix projection) (dp_Gateway projection)) else None)
          else if dp_OnLink projection then Some (ProjOnLinkWithoutGateway (dp_Prefix projection))
          else None)"

record dns_egress_path =
  dns_NameServer :: addr
  dns_Gateway :: addr
  dns_Link :: link_identity
  dns_OnLink :: bool

record network_snapshot =
  sn_TailnetLink :: link_identity
  sn_ProxyTunnelLink :: link_identity
  sn_AdvertisedRoutes :: "direct_route_projection list"
  sn_DNSEgressPaths :: "dns_egress_path list"

datatype snapshot_error =
    InvalidDiscoveryRequest "request_error list"
  | TailnetLinkInvalid link_error
  | ProxyTunnelLinkInvalid link_error
  | TunnelsShareLink
  | ProjectionInvalid projection_error
  | ProjectionUnexpected prefix
  | ProjectionDuplicated prefix
  | ProjectionThroughTunnel prefix
  | PrefixWithoutProjection prefix
  | PathNameServerInvalid addr
  | PathLinkInvalid addr link_error
  | PathGatewayInvalid addr addr
  | PathOnLinkWithoutGateway addr
  | PathUnexpected addr
  | PathDuplicated addr
  | PathThroughTunnel addr
  | PathDisagrees addr prefix
  | NameServerWithoutPath addr

definition managed_index :: "network_snapshot \<Rightarrow> link_identity \<Rightarrow> bool" where
  "managed_index snapshot link \<longleftrightarrow>
     link_Index link = link_Index (sn_TailnetLink snapshot) \<or> link_Index link = link_Index (sn_ProxyTunnelLink snapshot)"

definition snapshot_routes_check :: "network_snapshot \<Rightarrow> discovery_request \<Rightarrow> snapshot_error list" where
  "snapshot_routes_check snapshot request =
     scan_seen_post
       (\<lambda>p. case projection_Validate p of
          Some e \<Rightarrow> [ProjectionInvalid e]
        | None \<Rightarrow> error_if (dp_Prefix p \<notin> set (dq_AdvertisedPrefixes request)) (ProjectionUnexpected (dp_Prefix p)))
       (\<lambda>p. if projection_Validate p \<noteq> None then None else Some (dp_Prefix p))
       (\<lambda>p. ProjectionDuplicated (dp_Prefix p))
       (\<lambda>p. error_if (managed_index snapshot (dp_Link p)) (ProjectionThroughTunnel (dp_Prefix p)))
       [] (sn_AdvertisedRoutes snapshot) @
     map PrefixWithoutProjection
       (filter (\<lambda>p. p \<notin> set (map dp_Prefix (filter (\<lambda>q. projection_Validate q = None) (sn_AdvertisedRoutes snapshot))))
          (dq_AdvertisedPrefixes request))"

definition path_usable :: "dns_egress_path \<Rightarrow> bool" where
  "path_usable path \<longleftrightarrow>
     addr_IsValid (addr_Unmap (dns_NameServer path)) \<and> addr_Zone (addr_Unmap (dns_NameServer path)) = []"

definition path_gateway_check :: "dns_egress_path \<Rightarrow> snapshot_error list" where
  "path_gateway_check path =
     (let address = addr_Unmap (dns_NameServer path) in
      if addr_IsValid (dns_Gateway path) then
        error_if (addr_Zone (addr_Unmap (dns_Gateway path)) \<noteq> [] \<or>
                  FamilyOfAddress (addr_Unmap (dns_Gateway path)) \<noteq> FamilyOfAddress address)
          (PathGatewayInvalid address (dns_Gateway path))
      else error_if (dns_OnLink path) (PathOnLinkWithoutGateway address))"

definition path_disagrees :: "dns_egress_path \<Rightarrow> direct_route_projection \<Rightarrow> bool" where
  "path_disagrees path projection \<longleftrightarrow>
     dns_Link path \<noteq> dp_Link projection \<or> addr_Unmap (dns_Gateway path) \<noteq> addr_Unmap (dp_Gateway projection) \<or>
     dns_OnLink path \<noteq> dp_OnLink projection"

definition snapshot_paths_check :: "network_snapshot \<Rightarrow> discovery_request \<Rightarrow> snapshot_error list" where
  "snapshot_paths_check snapshot request =
     scan_seen_post
       (\<lambda>path. let address = addr_Unmap (dns_NameServer path) in
          if \<not> path_usable path then [PathNameServerInvalid (dns_NameServer path)]
          else wrap_error (PathLinkInvalid address) (link_Validate (dns_Link path)) @
               path_gateway_check path @
               error_if (address \<notin> set (map addr_Unmap (dq_NameServers request))) (PathUnexpected address))
       (\<lambda>path. if \<not> path_usable path then None else Some (addr_Unmap (dns_NameServer path)))
       (\<lambda>path. PathDuplicated (addr_Unmap (dns_NameServer path)))
       (\<lambda>path. let address = addr_Unmap (dns_NameServer path) in
          error_if (managed_index snapshot (dns_Link path)) (PathThroughTunnel address) @
          map (\<lambda>p. PathDisagrees address (dp_Prefix p))
            (filter (\<lambda>p. prefix_Contains (dp_Prefix p) address \<and> path_disagrees path p) (sn_AdvertisedRoutes snapshot)))
       [] (sn_DNSEgressPaths snapshot) @
     map (\<lambda>a. NameServerWithoutPath (addr_Unmap a))
       (filter (\<lambda>a. addr_Unmap a \<notin>
           set (map (\<lambda>path. addr_Unmap (dns_NameServer path)) (filter path_usable (sn_DNSEgressPaths snapshot))))
          (dq_NameServers request))"

definition snapshot_Validate :: "network_snapshot \<Rightarrow> discovery_request \<Rightarrow> snapshot_error list" where
  "snapshot_Validate snapshot request =
     (if request_Validate request \<noteq> [] then [InvalidDiscoveryRequest (request_Validate request)]
      else
        wrap_error TailnetLinkInvalid (link_Validate (sn_TailnetLink snapshot)) @
        wrap_error ProxyTunnelLinkInvalid (link_Validate (sn_ProxyTunnelLink snapshot)) @
        error_if (link_Index (sn_TailnetLink snapshot) > 0 \<and>
                  link_Index (sn_TailnetLink snapshot) = link_Index (sn_ProxyTunnelLink snapshot)) TunnelsShareLink @
        snapshot_routes_check snapshot request @
        snapshot_paths_check snapshot request)"

section \<open>What validation promises\<close>

lemma map_filter_valid:
  "(\<forall>x \<in> set xs. ok x) \<Longrightarrow> List.map_filter (\<lambda>x. if \<not> ok x then None else Some (f x)) xs = map f xs"
  by (rule map_filter_Some) simp

lemma scan_tunnel_addresses_Nil_iff:
  "scan_tunnel_addresses ps = [] \<longleftrightarrow>
     (\<forall>p \<in> set ps. validInterfaceAddressPrefix p) \<and> distinct (map (\<lambda>p. addr_Unmap (prefix_Addr p)) ps)"
  using map_filter_valid [of ps validInterfaceAddressPrefix "\<lambda>p. addr_Unmap (prefix_Addr p)"]
  by (auto simp: scan_tunnel_addresses_def scan_seen_Nil_iff)

lemma proxy_request_Nil_iff:
  "proxy_request_Validate request = [] \<longleftrightarrow>
     (\<forall>p \<in> set (pq_Addresses request). validInterfaceAddressPrefix p) \<and>
     distinct (map (\<lambda>p. addr_Unmap (prefix_Addr p)) (pq_Addresses request)) \<and>
     (\<exists>p \<in> set (pq_Addresses request). FamilyOfPrefix p = IPv4) \<and>
     (\<exists>p \<in> set (pq_Addresses request). FamilyOfPrefix p = IPv6)"
  by (auto simp: proxy_request_Validate_def scan_tunnel_addresses_Nil_iff tunnel_families_def FamilyOfPrefix_def
      image_iff split: if_splits) metis+

lemma request_Nil_iff:
  "request_Validate request = [] \<longleftrightarrow>
     dq_TailnetAddresses request \<noteq> [] \<and> dq_ProxyTunnelAddresses request \<noteq> [] \<and> dq_NameServers request \<noteq> [] \<and>
     (\<forall>a \<in> set (dq_TailnetAddresses request) \<union> set (dq_NameServers request). \<not> unusable_address (addr_Unmap a)) \<and>
     distinct (map addr_Unmap (dq_TailnetAddresses request)) \<and> distinct (map addr_Unmap (dq_NameServers request)) \<and>
     (\<forall>p \<in> set (dq_ProxyTunnelAddresses request). validInterfaceAddressPrefix p) \<and>
     distinct (map (\<lambda>p. addr_Unmap (prefix_Addr p)) (dq_ProxyTunnelAddresses request)) \<and>
     (\<forall>p \<in> set (dq_AdvertisedPrefixes request). masked_nondefault p) \<and>
     distinct (dq_AdvertisedPrefixes request) \<and>
     pairwise (\<lambda>p q. \<not> prefixesOverlap p q) (set (dq_AdvertisedPrefixes request))"
  by (auto simp: request_Validate_def validateUniqueAddresses_Nil_iff scan_tunnel_addresses_Nil_iff
      validateUniquePrefixes_Nil_iff)

lemma snapshot_routes_check_Nil_iff:
  "snapshot_routes_check s request = [] \<longleftrightarrow>
     (\<forall>p \<in> set (sn_AdvertisedRoutes s). projection_Validate p = None \<and> \<not> managed_index s (dp_Link p)) \<and>
     distinct (map dp_Prefix (sn_AdvertisedRoutes s)) \<and>
     dp_Prefix ` set (sn_AdvertisedRoutes s) = set (dq_AdvertisedPrefixes request)"
proof (cases "\<forall>p \<in> set (sn_AdvertisedRoutes s). projection_Validate p = None")
  case True
  then have all: "filter (\<lambda>q. projection_Validate q = None) (sn_AdvertisedRoutes s) = sn_AdvertisedRoutes s"
    by simp
  have "List.map_filter (\<lambda>p. if projection_Validate p \<noteq> None then None else Some (dp_Prefix p)) (sn_AdvertisedRoutes s) =
      map dp_Prefix (sn_AdvertisedRoutes s)"
    using True by (intro map_filter_Some) simp
  with True show ?thesis
    unfolding snapshot_routes_check_def append_is_Nil_conv scan_seen_post_Nil_iff all
    by (auto simp: filter_empty_conv image_iff)
next
  case False
  then show ?thesis
    by (fastforce simp: snapshot_routes_check_def scan_seen_post_Nil_iff split: option.splits)
qed

lemma snapshot_paths_check_Nil_iff:
  "snapshot_paths_check s request = [] \<longleftrightarrow>
     (\<forall>path \<in> set (sn_DNSEgressPaths s).
        path_usable path \<and> link_Valid (dns_Link path) \<and> path_gateway_check path = [] \<and>
        \<not> managed_index s (dns_Link path) \<and>
        (\<forall>p \<in> set (sn_AdvertisedRoutes s).
           prefix_Contains (dp_Prefix p) (addr_Unmap (dns_NameServer path)) \<longrightarrow> \<not> path_disagrees path p)) \<and>
     distinct (map (\<lambda>path. addr_Unmap (dns_NameServer path)) (sn_DNSEgressPaths s)) \<and>
     (\<lambda>path. addr_Unmap (dns_NameServer path)) ` set (sn_DNSEgressPaths s) = addr_Unmap ` set (dq_NameServers request)"
proof (cases "\<forall>path \<in> set (sn_DNSEgressPaths s). path_usable path")
  case True
  then have all: "filter path_usable (sn_DNSEgressPaths s) = sn_DNSEgressPaths s"
    by simp
  note keys = map_filter_valid [OF True, of "\<lambda>path. addr_Unmap (dns_NameServer path)"]
  with True show ?thesis
    unfolding snapshot_paths_check_def append_is_Nil_conv scan_seen_post_Nil_iff all keys
    by (auto simp: Let_def filter_empty_conv image_iff)
next
  case False
  then show ?thesis
    by (auto simp: snapshot_paths_check_def scan_seen_post_Nil_iff Let_def)
qed

lemma snapshot_Nil_iff:
  "snapshot_Validate s request = [] \<longleftrightarrow>
     request_Validate request = [] \<and> link_Valid (sn_TailnetLink s) \<and> link_Valid (sn_ProxyTunnelLink s) \<and>
     link_Index (sn_TailnetLink s) \<noteq> link_Index (sn_ProxyTunnelLink s) \<and>
     snapshot_routes_check s request = [] \<and> snapshot_paths_check s request = []"
  by (auto simp: snapshot_Validate_def link_Valid_iff split: if_splits)

lemma projection_link: "projection_Validate q = None \<Longrightarrow> link_Valid (dp_Link q)"
  by (auto simp: projection_Validate_def split: if_splits option.splits)

section \<open>Properties\<close>

text \<open>
  a validated snapshot covers the request exactly. Every advertised prefix has exactly one projection and every
  nameserver exactly one egress path, there are no others, none of them uses the Tailnet or
  the proxy tunnel link, the two tunnel links differ, and the egress path of a nameserver inside an
  advertised prefix has the link, gateway and on-link flag of that prefix's projection.
\<close>

theorem snapshot_Validate_covers:
  assumes "snapshot_Validate snapshot request = []"
  shows "(\<forall>p \<in> set (dq_AdvertisedPrefixes request).
            \<exists>!q. q \<in> set (sn_AdvertisedRoutes snapshot) \<and> dp_Prefix q = p) \<and>
         (\<forall>a \<in> set (dq_NameServers request).
            \<exists>!path. path \<in> set (sn_DNSEgressPaths snapshot) \<and> addr_Unmap (dns_NameServer path) = addr_Unmap a) \<and>
         length (sn_AdvertisedRoutes snapshot) = length (dq_AdvertisedPrefixes request) \<and>
         length (sn_DNSEgressPaths snapshot) = length (dq_NameServers request) \<and>
         link_Index (sn_TailnetLink snapshot) \<noteq> link_Index (sn_ProxyTunnelLink snapshot) \<and>
         (\<forall>link \<in> dp_Link ` set (sn_AdvertisedRoutes snapshot) \<union> dns_Link ` set (sn_DNSEgressPaths snapshot).
            link_Valid link \<and> link_Index link \<noteq> link_Index (sn_TailnetLink snapshot) \<and>
            link_Index link \<noteq> link_Index (sn_ProxyTunnelLink snapshot)) \<and>
         (\<forall>path \<in> set (sn_DNSEgressPaths snapshot). \<forall>q \<in> set (sn_AdvertisedRoutes snapshot).
            prefix_Contains (dp_Prefix q) (addr_Unmap (dns_NameServer path)) \<longrightarrow>
            dns_Link path = dp_Link q \<and> addr_Unmap (dns_Gateway path) = addr_Unmap (dp_Gateway q) \<and>
            dns_OnLink path = dp_OnLink q)"
proof -
  from assms have req: "request_Validate request = []" and r: "snapshot_routes_check snapshot request = []"
    and d: "snapshot_paths_check snapshot request = []"
    and links: "link_Index (sn_TailnetLink snapshot) \<noteq> link_Index (sn_ProxyTunnelLink snapshot)"
    by (simp_all add: snapshot_Nil_iff)
  note R = r [unfolded snapshot_routes_check_Nil_iff] and D = d [unfolded snapshot_paths_check_Nil_iff]
  let ?ns = "\<lambda>path. addr_Unmap (dns_NameServer path)"
  have "\<exists>!q. q \<in> set (sn_AdvertisedRoutes snapshot) \<and> dp_Prefix q = p"
    if "p \<in> set (dq_AdvertisedPrefixes request)" for p
    using that R by (intro distinct_map_ex1) auto
  moreover have "\<exists>!path. path \<in> set (sn_DNSEgressPaths snapshot) \<and> ?ns path = addr_Unmap a"
    if "a \<in> set (dq_NameServers request)" for a
    using that D by (intro distinct_map_ex1) auto
  moreover have "length (sn_AdvertisedRoutes snapshot) = length (dq_AdvertisedPrefixes request)"
    by (rule distinct_map_same_length [of dp_Prefix _ "\<lambda>p. p"]) (use R req in \<open>simp_all add: request_Nil_iff\<close>)
  moreover have "length (sn_DNSEgressPaths snapshot) = length (dq_NameServers request)"
    by (rule distinct_map_same_length [of ?ns _ addr_Unmap]) (use D req in \<open>simp_all add: request_Nil_iff\<close>)
  moreover have "\<forall>link \<in> dp_Link ` set (sn_AdvertisedRoutes snapshot) \<union> dns_Link ` set (sn_DNSEgressPaths snapshot).
      link_Valid link \<and> \<not> managed_index snapshot link"
    using R D projection_link by (simp add: ball_Un)
  moreover have "\<forall>path \<in> set (sn_DNSEgressPaths snapshot). \<forall>q \<in> set (sn_AdvertisedRoutes snapshot).
      prefix_Contains (dp_Prefix q) (?ns path) \<longrightarrow> \<not> path_disagrees path q"
    using D by simp
  ultimately show ?thesis
    using links unfolding managed_index_def path_disagrees_def de_Morgan_disj not_not by blast
qed

section \<open>Witnesses\<close>

definition example_request :: discovery_request where
  "example_request =
     \<lparr>dq_TailnetAddresses = [Addr4 0x64400001], dq_ProxyTunnelAddresses = [Prefix (Addr4 0xAC130001) 31],
      dq_AdvertisedPrefixes = [Prefix (Addr4 0x0A000000) 9], dq_NameServers = [Addr4 0x0A000035]\<rparr>"

definition example_snapshot :: network_snapshot where
  "example_snapshot =
     \<lparr>sn_TailnetLink = \<lparr>link_Index = 2, link_Name = ''ts0''\<rparr>,
      sn_ProxyTunnelLink = \<lparr>link_Index = 3, link_Name = ''tun0''\<rparr>,
      sn_AdvertisedRoutes =
        [\<lparr>dp_Prefix = Prefix (Addr4 0x0A000000) 9, dp_Gateway = AddrZero,
          dp_Link = \<lparr>link_Index = 4, link_Name = ''eth0''\<rparr>, dp_OnLink = False\<rparr>],
      sn_DNSEgressPaths =
        [\<lparr>dns_NameServer = Addr4 0x0A000035, dns_Gateway = AddrZero,
          dns_Link = \<lparr>link_Index = 4, link_Name = ''eth0''\<rparr>, dns_OnLink = False\<rparr>]\<rparr>"

lemma snapshot_Validate_covers_witness:
  "snapshot_Validate example_snapshot example_request = [] \<and>
   length (sn_DNSEgressPaths example_snapshot) = length (dq_NameServers example_request)"
proof -
  have "snapshot_Validate example_snapshot example_request = []" by code_simp
  with snapshot_Validate_covers [OF this] show ?thesis by blast
qed

end
