(* ===== verification/Runtime.thy ===== *)
theory Runtime
  imports Routing
begin

text \<open>
  \<^verbatim>\<open>internal/domain/runtime.go\<close>: resolved addresses, reconciliation conditions, route approvals and the
  report a reconciliation returns, with their validation.
\<close>

section \<open>Resolved addresses\<close>

record resolved_addresses =
  ra_IPv4 :: "addr list"
  ra_IPv6 :: "addr list"

definition NewResolvedAddresses :: "addr list \<Rightarrow> resolved_addresses" where
  "NewResolvedAddresses addresses =
     (let collected = foldl (\<lambda>result a.
            let address = addr_Unmap a in
            if addr_Is4 address then result\<lparr>ra_IPv4 := ra_IPv4 result @ [address]\<rparr>
            else if addr_Is6 address \<and> addr_Zone address = [] then result\<lparr>ra_IPv6 := ra_IPv6 result @ [address]\<rparr>
            else result)
          \<lparr>ra_IPv4 = [], ra_IPv6 = []\<rparr> addresses
      in \<lparr>ra_IPv4 = sortedAddresses (ra_IPv4 collected), ra_IPv6 = sortedAddresses (ra_IPv6 collected)\<rparr>)"

definition resolved_Empty :: "resolved_addresses \<Rightarrow> bool" where
  "resolved_Empty addresses \<longleftrightarrow> length (ra_IPv4 addresses) = 0 \<and> length (ra_IPv6 addresses) = 0"

definition resolved_All :: "resolved_addresses \<Rightarrow> addr list" where
  "resolved_All addresses = ra_IPv4 addresses @ ra_IPv6 addresses"

section \<open>Network events\<close>

type_synonym network_event_kind = string
type_synonym network_event_action = string

definition NetworkEventLink :: network_event_kind where
  "NetworkEventLink = ''link''"

definition NetworkEventAddress :: network_event_kind where
  "NetworkEventAddress = ''address''"

definition NetworkEventRoute :: network_event_kind where
  "NetworkEventRoute = ''route''"

definition NetworkEventUpsert :: network_event_action where
  "NetworkEventUpsert = ''upsert''"

definition NetworkEventDelete :: network_event_action where
  "NetworkEventDelete = ''delete''"

record network_event =
  ne_Kind :: network_event_kind
  ne_Action :: network_event_action
  ne_Family :: family
  ne_Table :: int
  ne_Protocol :: "8 word"
  ne_RouteType :: int
  ne_Prefix :: prefix
  ne_Metric :: int

section \<open>Conditions, approvals and reports\<close>

type_synonym condition_kind = string

definition ConditionRouteNotApproved :: condition_kind where
  "ConditionRouteNotApproved = ''route_not_approved''"

definition ConditionInternetCapabilityInitializing :: condition_kind where
  "ConditionInternetCapabilityInitializing = ''internet_capability_initializing''"

definition ConditionInternetCapabilityUnavailable :: condition_kind where
  "ConditionInternetCapabilityUnavailable = ''internet_capability_unavailable''"

definition ConditionInternetCapabilityStale :: condition_kind where
  "ConditionInternetCapabilityStale = ''internet_capability_stale''"

definition ConditionInternetCapabilityLinkMismatch :: condition_kind where
  "ConditionInternetCapabilityLinkMismatch = ''internet_capability_link_mismatch''"

lemmas condition_kinds =
  ConditionRouteNotApproved_def ConditionInternetCapabilityInitializing_def
  ConditionInternetCapabilityUnavailable_def ConditionInternetCapabilityStale_def
  ConditionInternetCapabilityLinkMismatch_def

record reconcile_condition =
  rc_Kind :: condition_kind
  rc_Family :: family
  rc_Prefix :: prefix

datatype report_error =
    ApprovalConditionPrefixInvalid prefix
  | ApprovalConditionFamilyMismatch
  | CapabilityConditionFamilyInvalid family
  | CapabilityConditionCarriesPrefix
  | LinkConditionCarriesState
  | ConditionKindUnsupported string
  | ApprovalPrefixInvalid prefix
  | ApprovalNotObserved
  | UnavailableWithoutCondition
  | ConditionDuplicated reconcile_condition
  | ApprovalsWithoutObservation
  | ApprovalDuplicated prefix

definition condition_Validate :: "reconcile_condition \<Rightarrow> report_error option" where
  "condition_Validate condition =
     (if rc_Kind condition = ConditionRouteNotApproved then
        (if \<not> prefix_IsValid (rc_Prefix condition) \<or> rc_Prefix condition \<noteq> prefix_Masked (rc_Prefix condition)
         then Some (ApprovalConditionPrefixInvalid (rc_Prefix condition))
         else if rc_Family condition \<noteq> FamilyOfPrefix (rc_Prefix condition)
         then Some ApprovalConditionFamilyMismatch else None)
      else if rc_Kind condition \<in> {ConditionInternetCapabilityInitializing,
          ConditionInternetCapabilityUnavailable, ConditionInternetCapabilityStale} then
        (if rc_Family condition \<noteq> IPv4 \<and> rc_Family condition \<noteq> IPv6
         then Some (CapabilityConditionFamilyInvalid (rc_Family condition))
         else if prefix_IsValid (rc_Prefix condition) then Some CapabilityConditionCarriesPrefix else None)
      else if rc_Kind condition = ConditionInternetCapabilityLinkMismatch then
        (if rc_Family condition \<noteq> 0 \<or> prefix_IsValid (rc_Prefix condition)
         then Some LinkConditionCarriesState else None)
      else Some (ConditionKindUnsupported (rc_Kind condition)))"

record route_approval =
  ap_Prefix :: prefix
  ap_Approved :: bool

definition approval_Validate :: "route_approval \<Rightarrow> report_error option" where
  "approval_Validate approval =
     (if \<not> prefix_IsValid (ap_Prefix approval) \<or> ap_Prefix approval \<noteq> prefix_Masked (ap_Prefix approval)
      then Some (ApprovalPrefixInvalid (ap_Prefix approval)) else None)"

record reconcile_report =
  rp_Changed :: bool
  rp_DataPlaneAvailable :: bool
  rp_RoutingWrites :: int
  rp_PacketFilterWrites :: int
  rp_TailnetWrites :: int
  rp_Conditions :: "reconcile_condition list"
  rp_ApprovalObserved :: bool
  rp_RouteApprovals :: "route_approval list"

definition ReportZero :: reconcile_report where
  "ReportZero =
     \<lparr>rp_Changed = False, rp_DataPlaneAvailable = False, rp_RoutingWrites = 0, rp_PacketFilterWrites = 0,
      rp_TailnetWrites = 0, rp_Conditions = [], rp_ApprovalObserved = False, rp_RouteApprovals = []\<rparr>"

definition report_Validate :: "reconcile_report \<Rightarrow> report_error list" where
  "report_Validate report =
     error_if (\<not> rp_ApprovalObserved report) ApprovalNotObserved @
     error_if (\<not> rp_DataPlaneAvailable report \<and> length (rp_Conditions report) = 0) UnavailableWithoutCondition @
     scan_seen (\<lambda>c. wrap_error (\<lambda>e. e) (condition_Validate c)) Some ConditionDuplicated [] (rp_Conditions report) @
     error_if (\<not> rp_ApprovalObserved report \<and> length (rp_RouteApprovals report) \<noteq> 0) ApprovalsWithoutObservation @
     scan_seen (\<lambda>a. wrap_error (\<lambda>e. e) (approval_Validate a)) (\<lambda>a. Some (ap_Prefix a))
       (\<lambda>a. ApprovalDuplicated (ap_Prefix a)) [] (rp_RouteApprovals report)"

section \<open>Phases, health and processes\<close>

datatype runtime_phase =
    RuntimeStarting | RuntimeQuarantined | RuntimeReconciling | RuntimeReady | RuntimeDegraded | RuntimeStopping

record health_snapshot =
  hs_Live :: bool
  hs_Ready :: bool
  hs_DataPlaneAvailable :: bool
  hs_Phase :: runtime_phase
  hs_LastAttempt :: time
  hs_LastSuccess :: time
  hs_LastError :: string
  hs_SuccessfulRuns :: "64 word"
  hs_FailedRuns :: "64 word"
  hs_ConsecutiveErrors :: "64 word"
  hs_Conditions :: "reconcile_condition list"

record process_spec =
  ps_Executable :: string
  ps_Arguments :: "string list"
  ps_Environment :: "string list"

definition NewProcessSpec :: "string \<Rightarrow> string list \<Rightarrow> string list \<Rightarrow> process_spec" where
  "NewProcessSpec executable arguments environment =
     \<lparr>ps_Executable = executable, ps_Arguments = arguments, ps_Environment = environment\<rparr>"

section \<open>Facts\<close>

lemma NewResolvedAddresses_sets:
  "set (ra_IPv4 (NewResolvedAddresses as)) = {a \<in> addr_Unmap ` set as. addr_Is4 a}"
  "set (ra_IPv6 (NewResolvedAddresses as)) = {a \<in> addr_Unmap ` set as. addr_Is6 a \<and> addr_Zone a = []}"
proof -
  let ?f = "\<lambda>result a. let address = addr_Unmap a in
            if addr_Is4 address then result\<lparr>ra_IPv4 := ra_IPv4 result @ [address]\<rparr>
            else if addr_Is6 address \<and> addr_Zone address = [] then result\<lparr>ra_IPv6 := ra_IPv6 result @ [address]\<rparr>
            else (result :: resolved_addresses)"
  have excl: "addr_Is4 a \<Longrightarrow> \<not> addr_Is6 a" for a by (cases a) auto
  have "set (ra_IPv4 (foldl ?f r as)) = set (ra_IPv4 r) \<union> {a \<in> addr_Unmap ` set as. addr_Is4 a}"
    "set (ra_IPv6 (foldl ?f r as)) = set (ra_IPv6 r) \<union> {a \<in> addr_Unmap ` set as. addr_Is6 a \<and> addr_Zone a = []}" for r
    using excl by (induction as arbitrary: r) (auto simp: Let_def)
  note collected = this
  have idem: "addr_Unmap ` {a \<in> addr_Unmap ` S. P a} = {a \<in> addr_Unmap ` S. P a}" for S P
  proof -
    have "addr_Unmap ` {a \<in> addr_Unmap ` S. P a} = (\<lambda>a. a) ` {a \<in> addr_Unmap ` S. P a}"
      by (rule image_cong) auto
    then show ?thesis by simp
  qed
  show "set (ra_IPv4 (NewResolvedAddresses as)) = {a \<in> addr_Unmap ` set as. addr_Is4 a}"
    "set (ra_IPv6 (NewResolvedAddresses as)) = {a \<in> addr_Unmap ` set as. addr_Is6 a \<and> addr_Zone a = []}"
    unfolding NewResolvedAddresses_def Let_def [of "foldl _ _ _"] resolved_addresses.select_convs
      set_sortedAddresses collected
    by (simp_all add: idem)
qed

lemma report_Nil_iff:
  "report_Validate report = [] \<longleftrightarrow>
     rp_ApprovalObserved report \<and> (\<not> rp_DataPlaneAvailable report \<longrightarrow> rp_Conditions report \<noteq> []) \<and>
     (\<forall>c \<in> set (rp_Conditions report). condition_Validate c = None) \<and> distinct (rp_Conditions report) \<and>
     (\<forall>a \<in> set (rp_RouteApprovals report). approval_Validate a = None) \<and>
     distinct (map ap_Prefix (rp_RouteApprovals report))"
  using map_filter_Some [of "rp_Conditions report" Some "\<lambda>c. c"]
    map_filter_Some [of "rp_RouteApprovals report" "\<lambda>a. Some (ap_Prefix a)" ap_Prefix]
  by (auto simp: report_Validate_def scan_seen_Nil_iff)

end
