(* ===== verification/Configuration.thy ===== *)
theory Configuration
  imports Packet_Filter Routing Go_Text
begin

unbundle bit_operations_syntax

text \<open>
  \<^verbatim>\<open>internal/domain/configuration.go\<close>: the configuration of the agent, its defaults and its validation, section by
  section, and \<^verbatim>\<open>internal/application/mode.go\<close>. The lemmas extract from an empty error list what the planner and the
  schedulers rely on.
\<close>

section \<open>The configuration\<close>

record network_configuration =
  nc_ProxyTunnelAddresses :: "prefix list"
  nc_TailnetIPv4Prefix :: prefix
  nc_TailnetIPv6Prefix :: prefix
  nc_ExitRouteTable :: int
  nc_ExitRulePriority :: int
  nc_LocalEgressRouteTable :: int
  nc_LocalEgressRulePriority :: int
  nc_LocalEgressPacketMark :: "32 word"
  nc_ActiveRouteMetric :: int
  nc_FailClosedRouteMetric :: int

record local_egress_configuration =
  lc_Enabled :: bool
  lc_Domains :: "string list"
  lc_Protocols :: "transport_protocol list"
  lc_Ports :: "16 word list"
  lc_RefreshInterval :: duration
  lc_MaximumStaleness :: duration

record packet_filter_configuration =
  fc_FilterTable :: string
  fc_ForwardGuardChain :: string
  fc_LocalEgressChain :: string
  fc_LocalEgressIPv4Set :: string
  fc_LocalEgressIPv6Set :: string
  fc_NATTable :: string
  fc_DNSMasqueradeChain :: string
  fc_LocalEgress :: local_egress_configuration

record tailnet_configuration =
  tnc_SocketPath :: string
  tnc_AdvertiseRoutes :: "prefix list"
  tnc_AdvertiseExitNode :: bool
  tnc_PreferenceAuditInterval :: duration
  tnc_OperationTimeout :: duration

record internet_capability_configuration =
  icc_IPv4ProbeURL :: string
  icc_IPv6ProbeURL :: string
  icc_ProbeInterval :: duration
  icc_ProbeTimeout :: duration
  icc_ProbeValidity :: duration
  icc_SuccessThreshold :: "32 word"
  icc_FailureThreshold :: "32 word"

record runtime_configuration =
  rtc_AuditInterval :: duration
  rtc_ReconcileTimeout :: duration
  rtc_EventDebounce :: duration
  rtc_ReadinessMaximumAge :: duration
  rtc_DNSLookupTimeout :: duration
  rtc_ShutdownTimeout :: duration
  rtc_HealthListenAddress :: string
  rtc_ResolverPath :: string
  rtc_LogLevel :: string

type_synonym coordination_backend = string

definition CoordinationKubernetesLease :: coordination_backend where
  "CoordinationKubernetesLease = ''kubernetes-lease''"

definition CoordinationFileLock :: coordination_backend where
  "CoordinationFileLock = ''file-lock''"

record coordination_configuration =
  coc_Backend :: coordination_backend
  coc_ResourceName :: string
  coc_NamespacePath :: string
  coc_LockFile :: string
  coc_LeaseDuration :: duration
  coc_RenewDeadline :: duration
  coc_RetryPeriod :: duration
  coc_AcquireTimeout :: duration

record configuration =
  cf_APIVersion :: string
  cf_Network :: network_configuration
  cf_PacketFilter :: packet_filter_configuration
  cf_Tailnet :: tailnet_configuration
  cf_InternetCapability :: internet_capability_configuration
  cf_Runtime :: runtime_configuration
  cf_Coordination :: coordination_configuration

definition ConfigurationAPIVersionV1 :: string where
  "ConfigurationAPIVersionV1 = ''v1''"

text \<open>The prefixes \<^verbatim>\<open>100.64.0.0/10\<close> and \<^verbatim>\<open>fd7a:115c:a1e0::/48\<close>; fields the source omits hold their zero values.\<close>

definition DefaultConfiguration :: configuration where
  "DefaultConfiguration =
     \<lparr>cf_APIVersion = ConfigurationAPIVersionV1,
      cf_Network =
        \<lparr>nc_ProxyTunnelAddresses = [],
         nc_TailnetIPv4Prefix = PrefixFrom (Addr4 0x64400000) 10,
         nc_TailnetIPv6Prefix = PrefixFrom (Addr6 0xfd7a115ca1e000000000000000000000 []) 48,
         nc_ExitRouteTable = 100, nc_ExitRulePriority = 99, nc_LocalEgressRouteTable = 101,
         nc_LocalEgressRulePriority = 90, nc_LocalEgressPacketMark = 0x11, nc_ActiveRouteMetric = 100,
         nc_FailClosedRouteMetric = 32760\<rparr>,
      cf_PacketFilter =
        \<lparr>fc_FilterTable = ''tailscale_gateway'', fc_ForwardGuardChain = ''tailnet_forward_guard'',
         fc_LocalEgressChain = ''local_egress_proxy_output'', fc_LocalEgressIPv4Set = ''local_egress_ipv4'',
         fc_LocalEgressIPv6Set = ''local_egress_ipv6'', fc_NATTable = ''tailscale_gateway_nat'',
         fc_DNSMasqueradeChain = ''cluster_dns_masquerade'',
         fc_LocalEgress =
           \<lparr>lc_Enabled = False, lc_Domains = [], lc_Protocols = [TransportTCP], lc_Ports = [443],
            lc_RefreshInterval = 5 * minute, lc_MaximumStaleness = hour\<rparr>\<rparr>,
      cf_Tailnet =
        \<lparr>tnc_SocketPath = ''/var/run/tailscale/tailscaled.sock'', tnc_AdvertiseRoutes = [],
         tnc_AdvertiseExitNode = False, tnc_PreferenceAuditInterval = 30 * second,
         tnc_OperationTimeout = 20 * second\<rparr>,
      cf_InternetCapability =
        \<lparr>icc_IPv4ProbeURL = [], icc_IPv6ProbeURL = [], icc_ProbeInterval = 30 * second,
         icc_ProbeTimeout = 5 * second, icc_ProbeValidity = 2 * minute, icc_SuccessThreshold = 2,
         icc_FailureThreshold = 2\<rparr>,
      cf_Runtime =
        \<lparr>rtc_AuditInterval = 5 * minute, rtc_ReconcileTimeout = 2 * minute, rtc_EventDebounce = 500 * millisecond,
         rtc_ReadinessMaximumAge = 10 * minute, rtc_DNSLookupTimeout = 10 * second,
         rtc_ShutdownTimeout = 30 * second, rtc_HealthListenAddress = ''127.0.0.1:8080'',
         rtc_ResolverPath = ''/etc/resolv.conf'', rtc_LogLevel = ''info''\<rparr>,
      cf_Coordination =
        \<lparr>coc_Backend = [], coc_ResourceName = ''tailscale-gateway-identity'',
         coc_NamespacePath = ''/var/run/secrets/kubernetes.io/serviceaccount/namespace'',
         coc_LockFile = ''/run/tailscale-gateway-agent.lock'', coc_LeaseDuration = 90 * second,
         coc_RenewDeadline = 45 * second, coc_RetryPeriod = 2 * second, coc_AcquireTimeout = 5 * minute\<rparr>\<rparr>"

datatype capability_config_error =
    IPv4ProbeURLRequired | IPv6ProbeURLRequired | ProbeURLsWithoutExit
  | ProbeIntervalTooShort | ProbeTimeoutInvalid | ProbeTimeoutTooLong | ProbeValidityInvalid
  | SuccessThresholdInvalid | FailureThresholdInvalid

datatype network_config_error =
    TunnelAddressRequired | TunnelAddressInvalid prefix | TunnelAddressDuplicated addr
  | TunnelAddressOverlapsTailnet addr | TunnelFamiliesIncomplete
  | TailnetIPv4PrefixNotMasked prefix | TailnetIPv6PrefixNotMasked prefix
  | TableOutOfRange string int | TableReserved string int | PriorityOutOfRange string int
  | TablesEqual | PrioritiesEqual | MarkZero | MarkTooWide
  | ActiveMetricOutOfRange | FailClosedMetricOutOfRange | ActiveMetricNotLower

datatype filter_config_error =
    IdentifierInvalid string string | IdentifierDuplicated string
  | DomainsRequired | ProtocolsRequired | PortsRequired | MarkRequired | TooManyEntries
  | DomainInvalid string | DomainDuplicated string | ProtocolNotSupported string | ProtocolRepeated string
  | PortIsZero | PortRepeated "16 word" | RefreshIntervalTooShort | StalenessTooShort

datatype tailnet_config_error =
    SocketPathInvalid string | AdvertisedRouteInvalid prefix | AdvertisedRouteDuplicated prefix
  | AdvertisedRouteOverlapsTailnet prefix | AdvertisedRouteOverlapsTunnel prefix prefix
  | AdvertisedRoutesOverlap prefix prefix | PreferenceAuditTooShort | OperationTimeoutNotPositive

datatype runtime_config_error =
    AuditIntervalTooShort | ReconcileTimeoutInvalid | DebounceInvalid | ReadinessAgeTooShort
  | TimeoutsNotPositive | DNSTimeoutTooLong | HealthAddressInvalid string addr_error
  | HealthPortInvalid string | ResolverPathInvalid string | LogLevelUnsupported string

datatype coordination_config_error =
    BackendUnsupported string | ResourceNameInvalid string | NamespacePathInvalid string
  | LeaseTimingInvalid | LockFileInvalid string | RetryPeriodNotPositive | AcquireTimeoutNotPositive

datatype configuration_error =
    UnsupportedAPIVersion string
  | InvalidNetwork "network_config_error list"
  | InvalidPacketFilter "filter_config_error list"
  | InvalidTailnet "tailnet_config_error list"
  | InvalidInternetCapability "capability_config_error list"
  | InvalidRuntime "runtime_config_error list"
  | InvalidCoordination "coordination_config_error list"
  | OperationTimeoutTooLong

section \<open>Validation\<close>

definition validDomainName :: "string \<Rightarrow> bool" where
  "validDomainName value =
     (if length value = 0 \<or> length value > 253 \<or> last value = CHR ''.'' then False
      else list_all (\<lambda>label.
        \<not> (length label = 0 \<or> length label > 63 \<or> hd label = CHR ''-'' \<or> last label = CHR ''-'') \<and>
        list_all (\<lambda>c. ascii_lower c \<or> ascii_digit c \<or> c = CHR ''-'') label) (split_on CHR ''.'' value))"

definition validDNS1123Subdomain :: "string \<Rightarrow> bool" where
  "validDNS1123Subdomain value =
     (if length value = 0 \<or> length value > 253 then False
      else list_all (\<lambda>label. \<not> (length label = 0 \<or> length label > 63 \<or> \<not> dns1123LabelPattern label))
        (split_on CHR ''.'' value))"

definition validLinuxAbsolutePath :: "string \<Rightarrow> bool" where
  "validLinuxAbsolutePath value \<longleftrightarrow>
     path_IsAbs value \<and> path_Clean value = value \<and> CHR 0x5C \<notin> set value \<and> CHR 0x00 \<notin> set value"

definition validateInternetCapabilityConfiguration ::
  "internet_capability_configuration \<Rightarrow> tailnet_configuration \<Rightarrow> runtime_configuration \<Rightarrow> capability_config_error list" where
  "validateInternetCapabilityConfiguration cfg tailnet runtime =
     (if tnc_AdvertiseExitNode tailnet
      then error_if (icc_IPv4ProbeURL cfg = []) IPv4ProbeURLRequired @
           error_if (icc_IPv6ProbeURL cfg = []) IPv6ProbeURLRequired
      else error_if (icc_IPv4ProbeURL cfg \<noteq> [] \<or> icc_IPv6ProbeURL cfg \<noteq> []) ProbeURLsWithoutExit) @
     error_if (icc_ProbeInterval cfg < 10 * second) ProbeIntervalTooShort @
     error_if (icc_ProbeTimeout cfg \<le> 0 \<or> icc_ProbeTimeout cfg \<ge> icc_ProbeInterval cfg) ProbeTimeoutInvalid @
     error_if (icc_ProbeTimeout cfg \<ge> rtc_ReconcileTimeout runtime) ProbeTimeoutTooLong @
     error_if (icc_ProbeValidity cfg \<le> icc_ProbeInterval cfg \<or> icc_ProbeValidity cfg > rtc_ReadinessMaximumAge runtime)
       ProbeValidityInvalid @
     error_if (icc_SuccessThreshold cfg < 1 \<or> icc_SuccessThreshold cfg > 16) SuccessThresholdInvalid @
     error_if (icc_FailureThreshold cfg < 1 \<or> icc_FailureThreshold cfg > 16) FailureThresholdInvalid"

definition table_priority_errors :: "string \<times> int \<times> int \<Rightarrow> network_config_error list" where
  "table_priority_errors item =
     (case item of (name, table, priority) \<Rightarrow>
        error_if (table < 1 \<or> table > maximumNetlinkInteger) (TableOutOfRange name table) @
        error_if (table = 253 \<or> table = 254 \<or> table = 255) (TableReserved name table) @
        error_if (priority < 1 \<or> priority > 32765) (PriorityOutOfRange name priority))"

definition tunnel_seen_families :: "prefix list \<Rightarrow> family list" where
  "tunnel_seen_families ps =
     map (\<lambda>p. FamilyOfAddress (addr_Unmap (prefix_Addr p))) (filter validInterfaceAddressPrefix ps)"

definition validateNetworkConfiguration :: "network_configuration \<Rightarrow> network_config_error list" where
  "validateNetworkConfiguration cfg =
     error_if (length (nc_ProxyTunnelAddresses cfg) = 0) TunnelAddressRequired @
     scan_seen_post (\<lambda>p. error_if (\<not> validInterfaceAddressPrefix p) (TunnelAddressInvalid p))
       (\<lambda>p. if \<not> validInterfaceAddressPrefix p then None else Some (addr_Unmap (prefix_Addr p)))
       (\<lambda>p. TunnelAddressDuplicated (addr_Unmap (prefix_Addr p)))
       (\<lambda>p. error_if (prefix_Contains (nc_TailnetIPv4Prefix cfg) (addr_Unmap (prefix_Addr p)) \<or>
                      prefix_Contains (nc_TailnetIPv6Prefix cfg) (addr_Unmap (prefix_Addr p)))
              (TunnelAddressOverlapsTailnet (addr_Unmap (prefix_Addr p))))
       [] (nc_ProxyTunnelAddresses cfg) @
     error_if (IPv4 \<notin> set (tunnel_seen_families (nc_ProxyTunnelAddresses cfg)) \<or>
               IPv6 \<notin> set (tunnel_seen_families (nc_ProxyTunnelAddresses cfg))) TunnelFamiliesIncomplete @
     error_if (\<not> validMaskedPrefix (nc_TailnetIPv4Prefix cfg) IPv4) (TailnetIPv4PrefixNotMasked (nc_TailnetIPv4Prefix cfg)) @
     error_if (\<not> validMaskedPrefix (nc_TailnetIPv6Prefix cfg) IPv6) (TailnetIPv6PrefixNotMasked (nc_TailnetIPv6Prefix cfg)) @
     concat (map table_priority_errors
       [(''exit'', nc_ExitRouteTable cfg, nc_ExitRulePriority cfg),
        (''local egress'', nc_LocalEgressRouteTable cfg, nc_LocalEgressRulePriority cfg)]) @
     error_if (nc_ExitRouteTable cfg = nc_LocalEgressRouteTable cfg) TablesEqual @
     error_if (nc_ExitRulePriority cfg = nc_LocalEgressRulePriority cfg) PrioritiesEqual @
     error_if (nc_LocalEgressPacketMark cfg = 0) MarkZero @
     error_if (nc_LocalEgressPacketMark cfg AND NOT LocalEgressPacketMarkMask \<noteq> 0) MarkTooWide @
     error_if (nc_ActiveRouteMetric cfg < 1 \<or> nc_ActiveRouteMetric cfg > maximumNetlinkInteger) ActiveMetricOutOfRange @
     error_if (nc_FailClosedRouteMetric cfg < 1 \<or> nc_FailClosedRouteMetric cfg > maximumNetlinkInteger)
       FailClosedMetricOutOfRange @
     error_if (nc_ActiveRouteMetric cfg \<ge> nc_FailClosedRouteMetric cfg) ActiveMetricNotLower"

definition configuration_identifiers :: "packet_filter_configuration \<Rightarrow> (string \<times> string) list" where
  "configuration_identifiers cfg =
     [(''filter table'', fc_FilterTable cfg), (''forward guard chain'', fc_ForwardGuardChain cfg),
      (''local-egress chain'', fc_LocalEgressChain cfg), (''local-egress IPv4 set'', fc_LocalEgressIPv4Set cfg),
      (''local-egress IPv6 set'', fc_LocalEgressIPv6Set cfg), (''NAT table'', fc_NATTable cfg),
      (''DNS masquerade chain'', fc_DNSMasqueradeChain cfg)]"

definition validatePacketFilterConfiguration ::
  "packet_filter_configuration \<Rightarrow> network_configuration \<Rightarrow> filter_config_error list" where
  "validatePacketFilterConfiguration cfg network =
     (let local = fc_LocalEgress cfg in
      scan_seen (\<lambda>(name, value). error_if (\<not> nftIdentifierPattern value) (IdentifierInvalid name value))
        (\<lambda>(name, value). Some value) (\<lambda>(name, value). IdentifierDuplicated name)
        [ReservedPacketFilterMetadataChain] (configuration_identifiers cfg) @
      (if lc_Enabled local
       then error_if (length (lc_Domains local) = 0) DomainsRequired @
            error_if (length (lc_Protocols local) = 0) ProtocolsRequired @
            error_if (length (lc_Ports local) = 0) PortsRequired @
            error_if (nc_LocalEgressPacketMark network = 0) MarkRequired
       else []) @
      error_if (length (lc_Domains local) > 64 \<or> length (lc_Ports local) > 64) TooManyEntries @
      scan_seen (\<lambda>d. error_if (\<not> validDomainName d) (DomainInvalid d)) Some DomainDuplicated [] (lc_Domains local) @
      scan_seen (\<lambda>p. error_if (p \<noteq> TransportTCP \<and> p \<noteq> TransportUDP) (ProtocolNotSupported p))
        Some ProtocolRepeated [] (lc_Protocols local) @
      scan_seen (\<lambda>p. error_if (p = 0) PortIsZero) Some PortRepeated [] (lc_Ports local) @
      error_if (lc_RefreshInterval local < 30 * second) RefreshIntervalTooShort @
      error_if (lc_MaximumStaleness local \<le> lc_RefreshInterval local) StalenessTooShort)"

text \<open>The loop over the advertised routes: \<open>previous\<close> holds \<^verbatim>\<open>AdvertiseRoutes[:index]\<close>.\<close>

fun advertiseLoop ::
  "network_configuration \<Rightarrow> prefix list \<Rightarrow> prefix list \<Rightarrow> prefix list \<Rightarrow> tailnet_config_error list" where
  "advertiseLoop network previous seen [] = []"
| "advertiseLoop network previous seen (p # ps) =
     (if \<not> prefix_IsValid p \<or> p \<noteq> prefix_Masked p \<or> prefix_Bits p = 0
      then AdvertisedRouteInvalid p # advertiseLoop network (previous @ [p]) seen ps
      else (if p \<in> set seen then [AdvertisedRouteDuplicated p] else []) @
           error_if (prefixesOverlap p (nc_TailnetIPv4Prefix network) \<or> prefixesOverlap p (nc_TailnetIPv6Prefix network))
             (AdvertisedRouteOverlapsTailnet p) @
           map (\<lambda>t. AdvertisedRouteOverlapsTunnel p (prefix_Masked t))
             (filter (\<lambda>t. prefixesOverlap p (prefix_Masked t)) (nc_ProxyTunnelAddresses network)) @
           map (\<lambda>q. AdvertisedRoutesOverlap q p) (filter (\<lambda>q. p \<noteq> q \<and> prefixesOverlap p q) previous) @
           advertiseLoop network (previous @ [p]) (p # seen) ps)"

definition validateTailnetConfiguration ::
  "tailnet_configuration \<Rightarrow> network_configuration \<Rightarrow> tailnet_config_error list" where
  "validateTailnetConfiguration cfg network =
     error_if (\<not> validLinuxAbsolutePath (tnc_SocketPath cfg)) (SocketPathInvalid (tnc_SocketPath cfg)) @
     advertiseLoop network [] [] (tnc_AdvertiseRoutes cfg) @
     error_if (tnc_PreferenceAuditInterval cfg < 30 * second) PreferenceAuditTooShort @
     error_if (tnc_OperationTimeout cfg \<le> 0) OperationTimeoutNotPositive"

definition health_address_errors :: "string \<Rightarrow> runtime_config_error list" where
  "health_address_errors address =
     (case SplitHostPort address of
        Inl e \<Rightarrow> [HealthAddressInvalid address e]
      | Inr (host, port) \<Rightarrow>
          (case ParseUint port 16 of
             None \<Rightarrow> [HealthPortInvalid address]
           | Some n \<Rightarrow> error_if (n = 0) (HealthPortInvalid address)))"

definition validateRuntimeConfiguration :: "runtime_configuration \<Rightarrow> runtime_config_error list" where
  "validateRuntimeConfiguration cfg =
     error_if (rtc_AuditInterval cfg < 30 * second) AuditIntervalTooShort @
     error_if (rtc_ReconcileTimeout cfg < 10 * second \<or> rtc_ReconcileTimeout cfg \<ge> rtc_AuditInterval cfg)
       ReconcileTimeoutInvalid @
     error_if (rtc_EventDebounce cfg < 100 * millisecond \<or> rtc_EventDebounce cfg > 10 * second) DebounceInvalid @
     error_if (rtc_ReadinessMaximumAge cfg \<le> rtc_AuditInterval cfg) ReadinessAgeTooShort @
     error_if (rtc_DNSLookupTimeout cfg \<le> 0 \<or> rtc_ShutdownTimeout cfg \<le> 0) TimeoutsNotPositive @
     error_if (rtc_DNSLookupTimeout cfg \<ge> rtc_ReconcileTimeout cfg) DNSTimeoutTooLong @
     health_address_errors (rtc_HealthListenAddress cfg) @
     error_if (\<not> validLinuxAbsolutePath (rtc_ResolverPath cfg)) (ResolverPathInvalid (rtc_ResolverPath cfg)) @
     error_if (rtc_LogLevel cfg \<notin> {''debug'', ''info'', ''warn'', ''error''}) (LogLevelUnsupported (rtc_LogLevel cfg))"

definition validateCoordinationConfiguration :: "coordination_configuration \<Rightarrow> coordination_config_error list" where
  "validateCoordinationConfiguration cfg =
     error_if (coc_Backend cfg \<noteq> CoordinationKubernetesLease \<and> coc_Backend cfg \<noteq> CoordinationFileLock)
       (BackendUnsupported (coc_Backend cfg)) @
     (if coc_Backend cfg = CoordinationKubernetesLease
      then error_if (\<not> validDNS1123Subdomain (coc_ResourceName cfg)) (ResourceNameInvalid (coc_ResourceName cfg)) @
           error_if (\<not> validLinuxAbsolutePath (coc_NamespacePath cfg)) (NamespacePathInvalid (coc_NamespacePath cfg)) @
           error_if (coc_LeaseDuration cfg \<le> coc_RenewDeadline cfg \<or> coc_RenewDeadline cfg \<le> coc_RetryPeriod cfg \<or>
                     coc_RetryPeriod cfg \<le> 0) LeaseTimingInvalid
      else []) @
     error_if (coc_Backend cfg = CoordinationFileLock \<and> \<not> validLinuxAbsolutePath (coc_LockFile cfg))
       (LockFileInvalid (coc_LockFile cfg)) @
     error_if (coc_Backend cfg = CoordinationFileLock \<and> coc_RetryPeriod cfg \<le> 0) RetryPeriodNotPositive @
     error_if (coc_AcquireTimeout cfg \<le> 0) AcquireTimeoutNotPositive"

definition configuration_Validate :: "configuration \<Rightarrow> configuration_error list" where
  "configuration_Validate cfg =
     error_if (cf_APIVersion cfg \<noteq> ConfigurationAPIVersionV1) (UnsupportedAPIVersion (cf_APIVersion cfg)) @
     wrap_errors InvalidNetwork (validateNetworkConfiguration (cf_Network cfg)) @
     wrap_errors InvalidPacketFilter (validatePacketFilterConfiguration (cf_PacketFilter cfg) (cf_Network cfg)) @
     wrap_errors InvalidTailnet (validateTailnetConfiguration (cf_Tailnet cfg) (cf_Network cfg)) @
     wrap_errors InvalidInternetCapability
       (validateInternetCapabilityConfiguration (cf_InternetCapability cfg) (cf_Tailnet cfg) (cf_Runtime cfg)) @
     wrap_errors InvalidRuntime (validateRuntimeConfiguration (cf_Runtime cfg)) @
     wrap_errors InvalidCoordination (validateCoordinationConfiguration (cf_Coordination cfg)) @
     error_if (tnc_OperationTimeout (cf_Tailnet cfg) \<ge> rtc_ReconcileTimeout (cf_Runtime cfg)) OperationTimeoutTooLong"

section \<open>Runtime modes\<close>

type_synonym runtime_mode = string

definition RuntimeModeExternal :: runtime_mode where
  "RuntimeModeExternal = ''run''"

definition RuntimeModeSuperviseContainerboot :: runtime_mode where
  "RuntimeModeSuperviseContainerboot = ''supervise-containerboot''"

datatype mode_error = ModeBackendMismatch string string | ModeUnsupported string

definition ValidateRuntimeMode :: "configuration \<Rightarrow> runtime_mode \<Rightarrow> mode_error option" where
  "ValidateRuntimeMode cfg mode =
     (if mode = RuntimeModeExternal then
        (if coc_Backend (cf_Coordination cfg) \<noteq> CoordinationFileLock
         then Some (ModeBackendMismatch mode (coc_Backend (cf_Coordination cfg))) else None)
      else if mode = RuntimeModeSuperviseContainerboot then
        (if coc_Backend (cf_Coordination cfg) \<noteq> CoordinationKubernetesLease
         then Some (ModeBackendMismatch mode (coc_Backend (cf_Coordination cfg))) else None)
      else Some (ModeUnsupported mode))"

section \<open>What validation promises\<close>

lemma validLinuxAbsolutePath_eq:
  "validLinuxAbsolutePath v \<longleftrightarrow>
     (\<exists>cs. list_all plain_component cs \<and> v = CHR ''/'' # join_with CHR ''/'' cs) \<and>
     CHR 0x5C \<notin> set v \<and> CHR 0x00 \<notin> set v"
  using path_Clean_fixed_iff [of v] by (auto simp: validLinuxAbsolutePath_def)

lemma advertiseLoop_Nil_iff:
  "advertiseLoop network previous seen ps = [] \<longleftrightarrow>
     (\<forall>p \<in> set ps. masked_nondefault p \<and> \<not> prefixesOverlap p (nc_TailnetIPv4Prefix network) \<and>
        \<not> prefixesOverlap p (nc_TailnetIPv6Prefix network) \<and>
        (\<forall>t \<in> set (nc_ProxyTunnelAddresses network). \<not> prefixesOverlap p (prefix_Masked t)) \<and>
        (\<forall>q \<in> set previous. p \<noteq> q \<longrightarrow> \<not> prefixesOverlap p q)) \<and>
     distinct ps \<and> set ps \<inter> set seen = {} \<and> pairwise (\<lambda>p q. \<not> prefixesOverlap p q) (set ps)"
proof (induction ps arbitrary: previous seen)
  case (Cons p ps)
  have "pairwise (\<lambda>p q. \<not> prefixesOverlap p q) (set (p # ps)) \<longleftrightarrow>
    pairwise (\<lambda>p q. \<not> prefixesOverlap p q) (set ps) \<and> (\<forall>q \<in> set ps. q \<noteq> p \<longrightarrow> \<not> prefixesOverlap q p)"
    by (auto simp: pairwise_insert prefixesOverlap_sym)
  with Cons.IH show ?case
    by (auto simp: masked_nondefault_def filter_empty_conv)
qed simp

text \<open>The facts about tables, priorities, metrics, marks and prefixes the routing planner relies on.\<close>

lemma network_ok:
  assumes "validateNetworkConfiguration cfg = []"
  shows "1 \<le> nc_ExitRouteTable cfg" "1 \<le> nc_LocalEgressRouteTable cfg"
    "nc_ExitRouteTable cfg \<noteq> nc_LocalEgressRouteTable cfg"
    "1 \<le> nc_ExitRulePriority cfg" "1 \<le> nc_LocalEgressRulePriority cfg"
    "nc_ExitRulePriority cfg \<noteq> nc_LocalEgressRulePriority cfg"
    "nc_LocalEgressPacketMark cfg \<noteq> 0"
    "nc_LocalEgressPacketMark cfg AND NOT LocalEgressPacketMarkMask = 0"
    "1 \<le> nc_ActiveRouteMetric cfg" "nc_ActiveRouteMetric cfg \<le> maximumNetlinkInteger"
    "1 \<le> nc_FailClosedRouteMetric cfg" "nc_FailClosedRouteMetric cfg \<le> maximumNetlinkInteger"
    "nc_ActiveRouteMetric cfg < nc_FailClosedRouteMetric cfg"
    "validMaskedPrefix (nc_TailnetIPv4Prefix cfg) IPv4" "validMaskedPrefix (nc_TailnetIPv6Prefix cfg) IPv6"
    "\<forall>p \<in> set (nc_ProxyTunnelAddresses cfg). validInterfaceAddressPrefix p"
  using assms
  by (auto simp: validateNetworkConfiguration_def table_priority_errors_def scan_seen_post_Nil_iff)

lemma configuration_sections:
  assumes "configuration_Validate cfg = []"
  shows "validateNetworkConfiguration (cf_Network cfg) = []"
    "validatePacketFilterConfiguration (cf_PacketFilter cfg) (cf_Network cfg) = []"
    "validateTailnetConfiguration (cf_Tailnet cfg) (cf_Network cfg) = []"
    "validateInternetCapabilityConfiguration (cf_InternetCapability cfg) (cf_Tailnet cfg) (cf_Runtime cfg) = []"
    "validateRuntimeConfiguration (cf_Runtime cfg) = []"
    "validateCoordinationConfiguration (cf_Coordination cfg) = []"
    "tnc_OperationTimeout (cf_Tailnet cfg) < rtc_ReconcileTimeout (cf_Runtime cfg)"
  using assms by (auto simp: configuration_Validate_def)

lemma section_timing:
  "validateTailnetConfiguration t n = [] \<Longrightarrow> 0 < tnc_OperationTimeout t"
  "validateInternetCapabilityConfiguration c t r = [] \<Longrightarrow>
     0 < icc_ProbeTimeout c \<and> icc_ProbeTimeout c < rtc_ReconcileTimeout r \<and>
     icc_ProbeInterval c < icc_ProbeValidity c \<and> icc_ProbeValidity c \<le> rtc_ReadinessMaximumAge r"
  "validateRuntimeConfiguration r = [] \<Longrightarrow>
     rtc_ReconcileTimeout r < rtc_AuditInterval r \<and> rtc_AuditInterval r < rtc_ReadinessMaximumAge r"
  "validateCoordinationConfiguration k = [] \<Longrightarrow>
     0 < coc_RetryPeriod k \<and>
     (coc_Backend k = CoordinationKubernetesLease \<longrightarrow>
        coc_RetryPeriod k < coc_RenewDeadline k \<and> coc_RenewDeadline k < coc_LeaseDuration k)"
  by (simp_all add: validateTailnetConfiguration_def validateInternetCapabilityConfiguration_def
      validateRuntimeConfiguration_def validateCoordinationConfiguration_def not_le split: if_splits)

lemma identifiers_ok:
  assumes "validatePacketFilterConfiguration cfg network = []"
  shows "\<forall>(name, value) \<in> set (configuration_identifiers cfg). nftIdentifierPattern value"
    "distinct (map snd (configuration_identifiers cfg))"
    "ReservedPacketFilterMetadataChain \<notin> set (map snd (configuration_identifiers cfg))"
proof -
  have "List.map_filter (\<lambda>(name, value). Some value) xs = map snd xs" for xs :: "(string \<times> string) list"
    by (rule map_filter_Some) auto
  then show "\<forall>(name, value) \<in> set (configuration_identifiers cfg). nftIdentifierPattern value"
    "distinct (map snd (configuration_identifiers cfg))"
    "ReservedPacketFilterMetadataChain \<notin> set (map snd (configuration_identifiers cfg))"
    using assms unfolding validatePacketFilterConfiguration_def Let_def append_is_Nil_conv scan_seen_Nil_iff
    by (simp_all only: set_map disjoint_insert Int_empty_right) auto
qed

section \<open>Properties\<close>

text \<open>
  path validation. A path is accepted exactly when it is a slash followed by components that are
  separated by single slashes, none of them empty, a dot or two dots, with no backslash and no NUL:
  an accepted path never climbs out of its directory.
\<close>

theorem validLinuxAbsolutePath_iff:
  "validLinuxAbsolutePath v \<longleftrightarrow>
     (\<exists>cs. v = CHR ''/'' # join_with CHR ''/'' cs \<and> list_all plain_component cs) \<and>
     CHR 0x5C \<notin> set v \<and> CHR 0x00 \<notin> set v"
  using validLinuxAbsolutePath_eq [of v] by auto

text \<open>
  a validated configuration keeps the advertised routes apart. The advertised routes are masked and
  not default, pairwise without overlap, and none overlaps a Tailnet prefix or the network of a proxy tunnel address.
\<close>

theorem configuration_advertised_disjoint:
  assumes "configuration_Validate cfg = []"
  shows "distinct (tnc_AdvertiseRoutes (cf_Tailnet cfg)) \<and>
         pairwise (\<lambda>p q. \<not> prefixesOverlap p q) (set (tnc_AdvertiseRoutes (cf_Tailnet cfg))) \<and>
         (\<forall>p \<in> set (tnc_AdvertiseRoutes (cf_Tailnet cfg)).
            prefix_IsValid p \<and> prefix_Masked p = p \<and> prefix_Bits p \<noteq> 0 \<and>
            \<not> prefixesOverlap p (nc_TailnetIPv4Prefix (cf_Network cfg)) \<and>
            \<not> prefixesOverlap p (nc_TailnetIPv6Prefix (cf_Network cfg)) \<and>
            (\<forall>t \<in> set (nc_ProxyTunnelAddresses (cf_Network cfg)). \<not> prefixesOverlap p (prefix_Masked t)))"
proof -
  have "advertiseLoop (cf_Network cfg) [] [] (tnc_AdvertiseRoutes (cf_Tailnet cfg)) = []"
    using configuration_sections(3) [OF assms] by (simp add: validateTailnetConfiguration_def)
  then show ?thesis
    by (auto simp: advertiseLoop_Nil_iff masked_nondefault_def)
qed

text \<open>
  the timing of a validated configuration is consistent. Probes and Tailscale operations end within a
  reconciliation, a reconciliation within an audit interval, an audit interval within the readiness age, a
  probe result outlives the probe interval, and a lease outlives its renewal deadline.
\<close>

theorem configuration_timing:
  assumes "configuration_Validate cfg = []"
  shows "0 < tnc_OperationTimeout (cf_Tailnet cfg) \<and>
         tnc_OperationTimeout (cf_Tailnet cfg) < rtc_ReconcileTimeout (cf_Runtime cfg) \<and>
         0 < icc_ProbeTimeout (cf_InternetCapability cfg) \<and>
         icc_ProbeTimeout (cf_InternetCapability cfg) < rtc_ReconcileTimeout (cf_Runtime cfg) \<and>
         rtc_ReconcileTimeout (cf_Runtime cfg) < rtc_AuditInterval (cf_Runtime cfg) \<and>
         rtc_AuditInterval (cf_Runtime cfg) < rtc_ReadinessMaximumAge (cf_Runtime cfg) \<and>
         icc_ProbeInterval (cf_InternetCapability cfg) < icc_ProbeValidity (cf_InternetCapability cfg) \<and>
         icc_ProbeValidity (cf_InternetCapability cfg) \<le> rtc_ReadinessMaximumAge (cf_Runtime cfg) \<and>
         0 < coc_RetryPeriod (cf_Coordination cfg) \<and>
         (coc_Backend (cf_Coordination cfg) = CoordinationKubernetesLease \<longrightarrow>
            coc_RetryPeriod (cf_Coordination cfg) < coc_RenewDeadline (cf_Coordination cfg) \<and>
            coc_RenewDeadline (cf_Coordination cfg) < coc_LeaseDuration (cf_Coordination cfg))"
  using section_timing(1) [OF configuration_sections(3) [OF assms]]
    section_timing(2) [OF configuration_sections(4) [OF assms]]
    section_timing(3) [OF configuration_sections(5) [OF assms]]
    section_timing(4) [OF configuration_sections(6) [OF assms]] configuration_sections(7) [OF assms]
  by blast

section \<open>Witnesses\<close>

text \<open>The defaults, completed with what an operator must supply.\<close>

definition example_configuration :: configuration where
  "example_configuration =
     DefaultConfiguration
       \<lparr>cf_Network := (cf_Network DefaultConfiguration)
          \<lparr>nc_ProxyTunnelAddresses := [PrefixFrom (Addr4 0xAC130001) 30, PrefixFrom (Addr6 0xfdfe0001 []) 126]\<rparr>,
        cf_Tailnet := (cf_Tailnet DefaultConfiguration)
          \<lparr>tnc_AdvertiseRoutes := [PrefixFrom (Addr4 0x0A000000) 8]\<rparr>,
        cf_Coordination := (cf_Coordination DefaultConfiguration)\<lparr>coc_Backend := CoordinationFileLock\<rparr>\<rparr>"

lemma example_configuration_valid: "configuration_Validate example_configuration = []"
  by code_simp

lemma configuration_advertised_disjoint_witness:
  "\<not> prefixesOverlap (PrefixFrom (Addr4 0x0A000000) 8) (nc_TailnetIPv4Prefix (cf_Network example_configuration))"
  using configuration_advertised_disjoint [OF example_configuration_valid]
  by (simp add: example_configuration_def)

lemma configuration_timing_witness:
  "rtc_ReconcileTimeout (cf_Runtime example_configuration) < rtc_AuditInterval (cf_Runtime example_configuration)"
  using configuration_timing [OF example_configuration_valid] by blast

end
