(* ===== verification/Capability.thy ===== *)
theory Capability
  imports Runtime Configuration
begin

unbundle bit_operations_syntax

text \<open>
  Internet capability: \<^verbatim>\<open>internal/domain/internet_capability.go\<close> (what a probe cycle established and for how long),
  \<^verbatim>\<open>internal/application/capability/tracker.go\<close> (the tracker that probes, counts and publishes it),
  \<^verbatim>\<open>internal/port/internet_capability.go\<close> (probe requests) and \<^verbatim>\<open>internal/application/internet_capability.go\<close>
  (its evaluation into exit default routes and conditions). The tracker's counters are related to
  a specification over the history of probe results that has no counters.
\<close>

section \<open>Capabilities and snapshots\<close>

record family_capability =
  fcap_Initialized :: bool
  fcap_Available :: bool
  fcap_ObservedAt :: time
  fcap_ValidUntil :: time

definition CapabilityZero :: family_capability where
  "CapabilityZero = \<lparr>fcap_Initialized = False, fcap_Available = False, fcap_ObservedAt = 0, fcap_ValidUntil = 0\<rparr>"

datatype capability_error =
    CapUnsupportedFamily family
  | CapUninitializedCarriesState family
  | CapWithoutObservationTime family
  | CapInvalidWindow family
  | CapUnavailableCarriesDeadline family
  | CapInvalidProxyLink
  | CapWithoutProxyLink

definition fcap_Validate :: "family_capability \<Rightarrow> family \<Rightarrow> capability_error option" where
  "fcap_Validate cap family =
     (if family \<noteq> IPv4 \<and> family \<noteq> IPv6 then Some (CapUnsupportedFamily family)
      else if \<not> fcap_Initialized cap then
        (if fcap_Available cap \<or> \<not> time_IsZero (fcap_ObservedAt cap) \<or> \<not> time_IsZero (fcap_ValidUntil cap)
         then Some (CapUninitializedCarriesState family) else None)
      else if time_IsZero (fcap_ObservedAt cap) then Some (CapWithoutObservationTime family)
      else if fcap_Available cap then
        (if \<not> fcap_ValidUntil cap > fcap_ObservedAt cap then Some (CapInvalidWindow family) else None)
      else if \<not> time_IsZero (fcap_ValidUntil cap) then Some (CapUnavailableCarriesDeadline family)
      else None)"

definition fcap_Fresh :: "family_capability \<Rightarrow> time \<Rightarrow> bool" where
  "fcap_Fresh cap now \<longleftrightarrow>
     fcap_Initialized cap \<and> fcap_Available cap \<and> \<not> now < fcap_ObservedAt cap \<and> \<not> now > fcap_ValidUntil cap"

record capability_snapshot =
  cs_ProxyLink :: link_identity
  cs_IPv4 :: family_capability
  cs_IPv6 :: family_capability

definition CapabilitySnapshotZero :: capability_snapshot where
  "CapabilitySnapshotZero = \<lparr>cs_ProxyLink = LinkZero, cs_IPv4 = CapabilityZero, cs_IPv6 = CapabilityZero\<rparr>"

definition capability_snapshot_Validate :: "capability_snapshot \<Rightarrow> capability_error list" where
  "capability_snapshot_Validate snapshot =
     wrap_error (\<lambda>e. e) (fcap_Validate (cs_IPv4 snapshot) IPv4) @
     wrap_error (\<lambda>e. e) (fcap_Validate (cs_IPv6 snapshot) IPv6) @
     (if link_Valid (cs_ProxyLink snapshot) then []
      else error_if (cs_ProxyLink snapshot \<noteq> LinkZero) CapInvalidProxyLink @
           error_if (fcap_Initialized (cs_IPv4 snapshot) \<or> fcap_Initialized (cs_IPv6 snapshot)) CapWithoutProxyLink)"

definition AvailableExitDefaultRoutes ::
  "capability_snapshot \<Rightarrow> time \<Rightarrow> link_identity \<Rightarrow> exit_default_route_set" where
  "AvailableExitDefaultRoutes snapshot now proxyLink =
     (if capability_snapshot_Validate snapshot \<noteq> [] \<or> \<not> link_Valid proxyLink \<or> cs_ProxyLink snapshot \<noteq> proxyLink
      then ExitNone
      else \<lparr>ex_IPv4 = fcap_Fresh (cs_IPv4 snapshot) now, ex_IPv6 = fcap_Fresh (cs_IPv6 snapshot) now\<rparr>)"

section \<open>Evaluation\<close>

record capability_evaluation =
  ce_activeExitDefaultRoutes :: exit_default_route_set
  ce_conditions :: "reconcile_condition list"

definition capability_kind :: "family_capability \<Rightarrow> time \<Rightarrow> condition_kind" where
  "capability_kind cap now =
     (if \<not> fcap_Initialized cap then ConditionInternetCapabilityInitializing
      else if \<not> fcap_Available cap then ConditionInternetCapabilityUnavailable
      else if \<not> fcap_Fresh cap now then ConditionInternetCapabilityStale
      else [])"

definition evaluateInternetCapability ::
  "capability_snapshot \<Rightarrow> link_identity \<Rightarrow> time \<Rightarrow> (capability_error list, capability_evaluation) result" where
  "evaluateInternetCapability snapshot proxyLink now =
     (if capability_snapshot_Validate snapshot \<noteq> [] then Inl (capability_snapshot_Validate snapshot)
      else if cs_ProxyLink snapshot \<noteq> proxyLink then
        Inr \<lparr>ce_activeExitDefaultRoutes = ExitNone,
             ce_conditions = [\<lparr>rc_Kind = ConditionInternetCapabilityLinkMismatch, rc_Family = 0, rc_Prefix = PrefixZero\<rparr>]\<rparr>
      else
        Inr \<lparr>ce_activeExitDefaultRoutes = AvailableExitDefaultRoutes snapshot now proxyLink,
             ce_conditions = concat (map (\<lambda>(family, cap).
               let kind = capability_kind cap now in
               if kind \<noteq> [] then [\<lparr>rc_Kind = kind, rc_Family = family, rc_Prefix = PrefixZero\<rparr>] else [])
               [(IPv4, cs_IPv4 snapshot), (IPv6, cs_IPv6 snapshot)])\<rparr>)"

section \<open>Probe requests\<close>

record probe_request =
  pr_Family :: family
  pr_ProxyLink :: link_identity
  pr_PacketMark :: "32 word"

datatype probe_request_error =
    ProbeFamilyUnsupported family | ProbeLinkInvalid link_error | ProbeMarkRequired | ProbeMarkTooWide "32 word"

definition probe_request_Validate :: "probe_request \<Rightarrow> probe_request_error option" where
  "probe_request_Validate request =
     (if pr_Family request \<noteq> IPv4 \<and> pr_Family request \<noteq> IPv6 then Some (ProbeFamilyUnsupported (pr_Family request))
      else case link_Validate (pr_ProxyLink request) of
        Some e \<Rightarrow> Some (ProbeLinkInvalid e)
      | None \<Rightarrow>
          if pr_PacketMark request = 0 then Some ProbeMarkRequired
          else if pr_PacketMark request AND NOT LocalEgressPacketMarkMask \<noteq> 0
          then Some (ProbeMarkTooWide (pr_PacketMark request)) else None)"

section \<open>The tracker\<close>

record family_state =
  fs_capability :: family_capability
  fs_successCount :: "32 word"
  fs_failureCount :: "32 word"

definition FamilyStateZero :: family_state where
  "FamilyStateZero = \<lparr>fs_capability = CapabilityZero, fs_successCount = 0, fs_failureCount = 0\<rparr>"

record tracker =
  tk_configuration :: internet_capability_configuration
  tk_packetMark :: "32 word"
  tk_proxyLink :: link_identity
  tk_lastProbe :: time
  tk_ipv4 :: family_state
  tk_ipv6 :: family_state

datatype tracker_error =
    TrackerDependencyMissing
  | TrackerTimingInvalid
  | TrackerValidityTooShort
  | TrackerThresholdInvalid
  | TrackerMarkInvalid "32 word"
  | ObserveContextRequired
  | ObserveLinkInvalid link_error
  | ObserveContextDone port_error
  | ObserveClockZero
  | ObserveClockBackwards
  | ObserveTimeInvalid
  | ObserveSnapshotInvalid "capability_error list"

text \<open>\<^verbatim>\<open>NewTracker\<close>; \<open>dependencies\<close> says that neither the prober nor the metrics is nil.\<close>

definition NewTracker ::
  "internet_capability_configuration \<Rightarrow> 32 word \<Rightarrow> bool \<Rightarrow> (tracker_error, tracker) result" where
  "NewTracker cfg packetMark dependencies =
     (if \<not> dependencies then Inl TrackerDependencyMissing
      else if icc_ProbeInterval cfg \<le> 0 \<or> icc_ProbeTimeout cfg \<le> 0 \<or> icc_ProbeTimeout cfg \<ge> icc_ProbeInterval cfg
        then Inl TrackerTimingInvalid
      else if icc_ProbeValidity cfg \<le> icc_ProbeInterval cfg then Inl TrackerValidityTooShort
      else if icc_SuccessThreshold cfg = 0 \<or> icc_SuccessThreshold cfg > 16 \<or>
              icc_FailureThreshold cfg = 0 \<or> icc_FailureThreshold cfg > 16
        then Inl TrackerThresholdInvalid
      else if packetMark = 0 \<or> packetMark AND NOT LocalEgressPacketMarkMask \<noteq> 0 then Inl (TrackerMarkInvalid packetMark)
      else Inr \<lparr>tk_configuration = cfg, tk_packetMark = packetMark, tk_proxyLink = LinkZero, tk_lastProbe = 0,
                tk_ipv4 = FamilyStateZero, tk_ipv6 = FamilyStateZero\<rparr>)"

definition saturatingIncrement :: "32 word \<Rightarrow> 32 word \<Rightarrow> 32 word" where
  "saturatingIncrement value maximum = (if value \<ge> maximum then maximum else value + 1)"

definition tracker_snapshot :: "tracker \<Rightarrow> capability_snapshot" where
  "tracker_snapshot tracker =
     \<lparr>cs_ProxyLink = tk_proxyLink tracker, cs_IPv4 = fs_capability (tk_ipv4 tracker),
      cs_IPv6 = fs_capability (tk_ipv6 tracker)\<rparr>"

definition resetForLink :: "link_identity \<Rightarrow> tracker \<Rightarrow> tracker" where
  "resetForLink proxyLink tracker =
     tracker\<lparr>tk_proxyLink := proxyLink, tk_lastProbe := 0, tk_ipv4 := FamilyStateZero, tk_ipv6 := FamilyStateZero\<rparr>"

definition expired :: "family_capability \<Rightarrow> time \<Rightarrow> bool" where
  "expired cap now \<longleftrightarrow> fcap_Available cap \<and> now > fcap_ValidUntil cap"

definition probeDue :: "tracker \<Rightarrow> time \<Rightarrow> bool" where
  "probeDue tracker now =
     (if time_IsZero (tk_lastProbe tracker) \<or>
         \<not> now < time_Add (tk_lastProbe tracker) (icc_ProbeInterval (tk_configuration tracker)) then True
      else expired (fs_capability (tk_ipv4 tracker)) now \<or> expired (fs_capability (tk_ipv6 tracker)) now)"

text \<open>The update of one family's state, and \<^verbatim>\<open>applyObservation\<close>, which applies it through \<^verbatim>\<open>tracker.family\<close>.\<close>

definition apply_state ::
  "internet_capability_configuration \<Rightarrow> bool \<Rightarrow> time \<Rightarrow> family_state \<Rightarrow> family_state" where
  "apply_state cfg succeeded observedAt st =
     (if succeeded then
        (let s = st\<lparr>fs_failureCount := 0,
                    fs_successCount := saturatingIncrement (fs_successCount st) (icc_SuccessThreshold cfg)\<rparr>
         in if fs_successCount s \<ge> icc_SuccessThreshold cfg
            then s\<lparr>fs_capability := \<lparr>fcap_Initialized = True, fcap_Available = True, fcap_ObservedAt = observedAt,
                     fcap_ValidUntil = time_Add observedAt (icc_ProbeValidity cfg)\<rparr>\<rparr>
            else s)
      else
        (let s = st\<lparr>fs_successCount := 0,
                    fs_failureCount := saturatingIncrement (fs_failureCount st) (icc_FailureThreshold cfg)\<rparr>
         in if fs_failureCount s \<ge> icc_FailureThreshold cfg
            then s\<lparr>fs_capability := \<lparr>fcap_Initialized = True, fcap_Available = False, fcap_ObservedAt = observedAt,
                     fcap_ValidUntil = 0\<rparr>\<rparr>
            else s))"

definition applyObservation :: "family \<Rightarrow> bool \<Rightarrow> time \<Rightarrow> tracker \<Rightarrow> tracker" where
  "applyObservation family succeeded observedAt tracker =
     (if family = IPv4
      then tracker\<lparr>tk_ipv4 := apply_state (tk_configuration tracker) succeeded observedAt (tk_ipv4 tracker)\<rparr>
      else tracker\<lparr>tk_ipv6 := apply_state (tk_configuration tracker) succeeded observedAt (tk_ipv6 tracker)\<rparr>)"

datatype probe_outcome = ProbeSucceeded | ProbeFailed | ProbeCanceled

datatype capability_event =
    Probe probe_request
  | RecordProbe family probe_outcome
  | RecordSnapshot capability_snapshot time

text \<open>
  What the environment decides in one call of \<^verbatim>\<open>Observe\<close>: whether the context is nil, whether the cycle slot is
  obtained or the context ends first, the clock readings, the two probe results and the order
  in which they arrive, and the three readings of the context's error.
\<close>

record observe_env =
  oe_contextNil :: bool
  oe_waitError :: "port_error option"
  oe_now :: time
  oe_ipv4 :: "port_error option"
  oe_ipv6 :: "port_error option"
  oe_ipv6First :: bool
  oe_ctxErr1 :: "port_error option"
  oe_ctxErr2 :: "port_error option"
  oe_ctxErr3 :: "port_error option"
  oe_observedAt :: time

definition oe_observations :: "observe_env \<Rightarrow> (family \<times> port_error option) list" where
  "oe_observations env =
     (if oe_ipv6First env then [(IPv6, oe_ipv6 env), (IPv4, oe_ipv4 env)]
      else [(IPv4, oe_ipv4 env), (IPv6, oe_ipv6 env)])"

definition probe_outcome_of :: "port_error option \<Rightarrow> port_error option \<Rightarrow> probe_outcome" where
  "probe_outcome_of ctxErr err =
     (if ctxErr \<noteq> None then ProbeCanceled else if err = None then ProbeSucceeded else ProbeFailed)"

text \<open>A probe cycle: everything \<^verbatim>\<open>Observe\<close> does once a probe is due.\<close>

definition probeCycle ::
  "observe_env \<Rightarrow> link_identity \<Rightarrow> tracker \<Rightarrow> tracker \<times> capability_event list \<times> capability_snapshot \<times> tracker_error option" where
  "probeCycle env proxyLink tracker =
     (let probes = map (\<lambda>family. Probe \<lparr>pr_Family = family, pr_ProxyLink = proxyLink, pr_PacketMark = tk_packetMark tracker\<rparr>)
                     [IPv4, IPv6];
          observations = oe_observations env;
          records = map (\<lambda>(ctxErr, family, err). RecordProbe family (probe_outcome_of ctxErr err))
                      (zip [oe_ctxErr1 env, oe_ctxErr2 env] observations)
      in case oe_ctxErr3 env of
           Some e \<Rightarrow> (tracker, probes @ records, tracker_snapshot tracker, Some (ObserveContextDone e))
         | None \<Rightarrow>
             if time_IsZero (oe_observedAt env) \<or> oe_observedAt env < oe_now env
             then (tracker, probes @ records, tracker_snapshot tracker, Some ObserveTimeInvalid)
             else
               let applied = foldl (\<lambda>t (family, err). applyObservation family (err = None) (oe_observedAt env) t)
                               tracker observations;
                   tracker' = applied\<lparr>tk_lastProbe := oe_observedAt env\<rparr>;
                   snapshot = tracker_snapshot tracker'
               in if capability_snapshot_Validate snapshot \<noteq> []
                  then (tracker', probes @ records, CapabilitySnapshotZero,
                        Some (ObserveSnapshotInvalid (capability_snapshot_Validate snapshot)))
                  else (tracker', probes @ records @ [RecordSnapshot snapshot (oe_observedAt env)], snapshot, None))"

definition Observe ::
  "observe_env \<Rightarrow> link_identity \<Rightarrow> tracker \<Rightarrow> tracker \<times> capability_event list \<times> capability_snapshot \<times> tracker_error option" where
  "Observe env proxyLink tracker =
     (if oe_contextNil env then (tracker, [], CapabilitySnapshotZero, Some ObserveContextRequired)
      else case link_Validate proxyLink of
        Some e \<Rightarrow> (tracker, [], CapabilitySnapshotZero, Some (ObserveLinkInvalid e))
      | None \<Rightarrow>
      (case oe_waitError env of
        Some e \<Rightarrow> (tracker, [], CapabilitySnapshotZero, Some (ObserveContextDone e))
      | None \<Rightarrow>
        if time_IsZero (oe_now env) then (tracker, [], CapabilitySnapshotZero, Some ObserveClockZero)
        else
          let t = (if tk_proxyLink tracker \<noteq> proxyLink then resetForLink proxyLink tracker else tracker) in
          if \<not> time_IsZero (tk_lastProbe t) \<and> oe_now env < tk_lastProbe t
          then (t, [], tracker_snapshot t, Some ObserveClockBackwards)
          else if \<not> probeDue t (oe_now env)
          then (t, [RecordSnapshot (tracker_snapshot t) (oe_now env)], tracker_snapshot t, None)
          else probeCycle env proxyLink t))"

text \<open>
  The specification of one family's capability over the history of its probe results since the link was
  last reset, latest first: it is decided by the latest run of enough equal results.
\<close>

definition run_length :: "bool \<Rightarrow> (bool \<times> time) list \<Rightarrow> nat" where
  "run_length b history = length (takeWhile (\<lambda>x. fst x = b) history)"

fun capability_spec ::
  "internet_capability_configuration \<Rightarrow> (bool \<times> time) list \<Rightarrow> family_capability" where
  "capability_spec cfg [] = CapabilityZero"
| "capability_spec cfg ((ok, t) # history) =
     (if ok \<and> unat (icc_SuccessThreshold cfg) \<le> run_length True ((ok, t) # history)
      then \<lparr>fcap_Initialized = True, fcap_Available = True, fcap_ObservedAt = t,
            fcap_ValidUntil = time_Add t (icc_ProbeValidity cfg)\<rparr>
      else if \<not> ok \<and> unat (icc_FailureThreshold cfg) \<le> run_length False ((ok, t) # history)
      then \<lparr>fcap_Initialized = True, fcap_Available = False, fcap_ObservedAt = t, fcap_ValidUntil = 0\<rparr>
      else capability_spec cfg history)"

definition replay ::
  "internet_capability_configuration \<Rightarrow> (bool \<times> time) list \<Rightarrow> family_state" where
  "replay cfg history = foldl (\<lambda>st (ok, t). apply_state cfg ok t st) FamilyStateZero history"

text \<open>The tracker after a completed cycle.\<close>

definition cycle_tracker :: "observe_env \<Rightarrow> tracker \<Rightarrow> tracker" where
  "cycle_tracker env tracker =
     tracker\<lparr>tk_ipv4 := apply_state (tk_configuration tracker) (oe_ipv4 env = None) (oe_observedAt env) (tk_ipv4 tracker),
             tk_ipv6 := apply_state (tk_configuration tracker) (oe_ipv6 env = None) (oe_observedAt env) (tk_ipv6 tracker),
             tk_lastProbe := oe_observedAt env\<rparr>"

text \<open>The invariant of the tracker.\<close>

definition family_state_ok :: "internet_capability_configuration \<Rightarrow> family \<Rightarrow> time \<Rightarrow> family_state \<Rightarrow> bool" where
  "family_state_ok cfg family lastProbe st \<longleftrightarrow>
     fcap_Validate (fs_capability st) family = None \<and>
     fs_successCount st \<le> icc_SuccessThreshold cfg \<and> fs_failureCount st \<le> icc_FailureThreshold cfg \<and>
     (fs_successCount st = 0 \<or> fs_failureCount st = 0) \<and>
     (fcap_Initialized (fs_capability st) \<longrightarrow> \<not> time_IsZero lastProbe \<and> fcap_ObservedAt (fs_capability st) \<le> lastProbe)"

definition tracker_ok :: "tracker \<Rightarrow> bool" where
  "tracker_ok tracker \<longleftrightarrow>
     0 < icc_ProbeValidity (tk_configuration tracker) \<and>
     tk_packetMark tracker \<noteq> 0 \<and> tk_packetMark tracker AND NOT LocalEgressPacketMarkMask = 0 \<and>
     (tk_proxyLink tracker = LinkZero \<or> link_Valid (tk_proxyLink tracker)) \<and>
     (tk_proxyLink tracker = LinkZero \<longrightarrow> time_IsZero (tk_lastProbe tracker)) \<and>
     family_state_ok (tk_configuration tracker) IPv4 (tk_lastProbe tracker) (tk_ipv4 tracker) \<and>
     family_state_ok (tk_configuration tracker) IPv6 (tk_lastProbe tracker) (tk_ipv6 tracker)"

section \<open>Snapshots\<close>

lemma fcap_Validate_Zero [simp]: "family = IPv4 \<or> family = IPv6 \<Longrightarrow> fcap_Validate CapabilityZero family = None"
  by (auto simp: fcap_Validate_def CapabilityZero_def time_IsZero_def)

lemma Fresh_iff:
  "fcap_Fresh cap now \<longleftrightarrow>
     fcap_Initialized cap \<and> fcap_Available cap \<and> fcap_ObservedAt cap \<le> now \<and> now \<le> fcap_ValidUntil cap"
  by (auto simp: fcap_Fresh_def)

lemma capability_kind_empty_iff: "capability_kind cap now = [] \<longleftrightarrow> fcap_Fresh cap now"
  by (auto simp: capability_kind_def condition_kinds fcap_Fresh_def)

lemma capability_kind_cases:
  "capability_kind cap now \<in> {[], ConditionInternetCapabilityInitializing, ConditionInternetCapabilityUnavailable,
     ConditionInternetCapabilityStale}"
  by (simp add: capability_kind_def)

section \<open>Counters\<close>

lemma saturatingIncrement_unat:
  "unat (saturatingIncrement v m) = min (unat m) (Suc (unat v))"
proof (cases "v \<ge> m")
  case True
  then show ?thesis by (simp add: saturatingIncrement_def word_le_nat_alt)
next
  case False
  then have "Suc (unat v) \<le> unat m" by (simp add: word_le_nat_alt)
  then have "Suc (unat v) < 2 ^ 32"
    using unsigned_less [of m, where ?'a = nat] by simp
  then have "unat (v + 1) = Suc (unat v)"
    by (simp add: unat_word_ariths)
  with False show ?thesis by (simp add: saturatingIncrement_def word_le_nat_alt)
qed

lemma apply_state_counts:
  "unat (fs_successCount (apply_state cfg ok t st)) =
     (if ok then min (unat (icc_SuccessThreshold cfg)) (Suc (unat (fs_successCount st))) else 0)"
  "unat (fs_failureCount (apply_state cfg ok t st)) =
     (if ok then 0 else min (unat (icc_FailureThreshold cfg)) (Suc (unat (fs_failureCount st))))"
  by (simp_all add: apply_state_def Let_def saturatingIncrement_unat)

lemma apply_state_capability:
  "fs_capability (apply_state cfg ok t st) =
     (if ok \<and> unat (icc_SuccessThreshold cfg) \<le> Suc (unat (fs_successCount st))
      then \<lparr>fcap_Initialized = True, fcap_Available = True, fcap_ObservedAt = t,
            fcap_ValidUntil = time_Add t (icc_ProbeValidity cfg)\<rparr>
      else if \<not> ok \<and> unat (icc_FailureThreshold cfg) \<le> Suc (unat (fs_failureCount st))
      then \<lparr>fcap_Initialized = True, fcap_Available = False, fcap_ObservedAt = t, fcap_ValidUntil = 0\<rparr>
      else fs_capability st)"
  by (simp add: apply_state_def Let_def word_le_nat_alt saturatingIncrement_unat)

lemma run_length_Cons: "run_length b ((ok, t) # h) = (if ok = b then Suc (run_length b h) else 0)"
  by (simp add: run_length_def)

lemma replay_snoc: "replay cfg (h @ [(ok, t)]) = apply_state cfg ok t (replay cfg h)"
  by (simp add: replay_def)

lemma replay_spec:
  "unat (fs_successCount (replay cfg h)) = min (unat (icc_SuccessThreshold cfg)) (run_length True (rev h)) \<and>
   unat (fs_failureCount (replay cfg h)) = min (unat (icc_FailureThreshold cfg)) (run_length False (rev h)) \<and>
   fs_capability (replay cfg h) = capability_spec cfg (rev h)"
proof (induction h rule: rev_induct)
  case Nil
  then show ?case by (simp add: replay_def FamilyStateZero_def run_length_def)
next
  case (snoc x h)
  obtain ok t where x: "x = (ok, t)" by fastforce
  show ?case
    using snoc.IH
    by (simp add: x replay_snoc apply_state_counts apply_state_capability run_length_Cons min_def)
qed

section \<open>The tracker keeps its invariant\<close>

lemma family_state_ok_Zero [simp]:
  "family = IPv4 \<or> family = IPv6 \<Longrightarrow> family_state_ok cfg family t FamilyStateZero"
  by (auto simp: family_state_ok_def FamilyStateZero_def CapabilityZero_def fcap_Validate_def time_IsZero_def)

lemma saturatingIncrement_le: "saturatingIncrement v m \<le> m"
  by (simp add: word_le_nat_alt saturatingIncrement_unat)

lemma apply_state_ok:
  assumes "family_state_ok cfg family prev st" "0 < icc_ProbeValidity cfg" "\<not> time_IsZero t" "prev \<le> t \<or> time_IsZero prev"
    and "family = IPv4 \<or> family = IPv6"
  shows "family_state_ok cfg family t (apply_state cfg ok t st)"
proof -
  let ?s = "apply_state cfg ok t st"
  have old: "fcap_Validate (fs_capability st) family = None"
    "fcap_Initialized (fs_capability st) \<longrightarrow> fcap_ObservedAt (fs_capability st) \<le> t"
    using assms(1,4) by (auto simp: family_state_ok_def)
  have "fcap_Validate \<lparr>fcap_Initialized = True, fcap_Available = True, fcap_ObservedAt = t,
      fcap_ValidUntil = time_Add t (icc_ProbeValidity cfg)\<rparr> family = None"
    "fcap_Validate \<lparr>fcap_Initialized = True, fcap_Available = False, fcap_ObservedAt = t, fcap_ValidUntil = 0\<rparr> family = None"
    using assms(2,3,5) by (auto simp: fcap_Validate_def time_IsZero_def time_Add_def)
  then have "fcap_Validate (fs_capability ?s) family = None"
    unfolding apply_state_capability using old(1) by simp
  moreover have "fcap_Initialized (fs_capability ?s) \<longrightarrow> fcap_ObservedAt (fs_capability ?s) \<le> t"
    unfolding apply_state_capability using old(2) by simp
  moreover have "fs_successCount ?s \<le> icc_SuccessThreshold cfg" "fs_failureCount ?s \<le> icc_FailureThreshold cfg"
    by (simp_all add: word_le_nat_alt apply_state_counts)
  moreover have "fs_successCount ?s = 0 \<or> fs_failureCount ?s = 0"
    by (simp add: unat_eq_0 [symmetric] apply_state_counts)
  ultimately show ?thesis
    using assms(3) by (simp add: family_state_ok_def)
qed

lemma NewTracker_ok: "NewTracker cfg mark deps = Inr tracker \<Longrightarrow> tracker_ok tracker"
  by (auto simp: NewTracker_def tracker_ok_def time_IsZero_def split: if_splits)

lemma reset_ok: "tracker_ok tracker \<Longrightarrow> link_Valid link \<Longrightarrow> tracker_ok (resetForLink link tracker)"
  by (auto simp: tracker_ok_def resetForLink_def)

lemma tracker_snapshot_valid:
  assumes "tracker_ok tracker"
  shows "capability_snapshot_Validate (tracker_snapshot tracker) = []"
  using assms
  by (auto simp: tracker_ok_def family_state_ok_def capability_snapshot_Validate_def tracker_snapshot_def)

text \<open>The order in which the two probe results arrive does not matter.\<close>

lemma observations_applied:
  "foldl (\<lambda>t (family, err). applyObservation family (err = None) at t) tracker (oe_observations env) =
     tracker\<lparr>tk_ipv4 := apply_state (tk_configuration tracker) (oe_ipv4 env = None) at (tk_ipv4 tracker),
             tk_ipv6 := apply_state (tk_configuration tracker) (oe_ipv6 env = None) at (tk_ipv6 tracker)\<rparr>"
  by (simp add: oe_observations_def applyObservation_def)

lemma cycle_tracker_ok:
  assumes "tracker_ok tracker" "link_Valid (tk_proxyLink tracker)" "\<not> time_IsZero (oe_observedAt env)"
    and "tk_lastProbe tracker \<le> oe_observedAt env \<or> time_IsZero (tk_lastProbe tracker)"
  shows "tracker_ok (cycle_tracker env tracker)"
  using assms apply_state_ok [where t = "oe_observedAt env" and prev = "tk_lastProbe tracker"]
  by (auto simp: tracker_ok_def cycle_tracker_def)

lemma probeCycle_cases:
  assumes "tracker_ok tracker" "link_Valid (tk_proxyLink tracker)"
    and "tk_lastProbe tracker \<le> oe_now env \<or> time_IsZero (tk_lastProbe tracker)"
  obtains (failed) events e where "probeCycle env link tracker = (tracker, events, tracker_snapshot tracker, Some e)"
      "\<forall>es. e \<noteq> ObserveSnapshotInvalid es"
  | (completed) events where
      "probeCycle env link tracker =
         (cycle_tracker env tracker, events, tracker_snapshot (cycle_tracker env tracker), None)"
      "tracker_ok (cycle_tracker env tracker)" "oe_now env \<le> oe_observedAt env"
proof (cases "oe_ctxErr3 env")
  case (Some e)
  then show ?thesis by (intro failed [of _ "ObserveContextDone e"]) (simp_all add: probeCycle_def Let_def)
next
  case None
  show ?thesis
  proof (cases "time_IsZero (oe_observedAt env) \<or> oe_observedAt env < oe_now env")
    case True
    with None show ?thesis by (intro failed [of _ ObserveTimeInvalid]) (simp_all add: probeCycle_def Let_def)
  next
    case False
    with assms have ok: "tracker_ok (cycle_tracker env tracker)" by (intro cycle_tracker_ok) auto
    have "capability_snapshot_Validate (tracker_snapshot (cycle_tracker env tracker)) = []"
      by (rule tracker_snapshot_valid [OF ok])
    with None False ok show ?thesis
      by (intro completed) (simp_all add: probeCycle_def Let_def observations_applied cycle_tracker_def)
  qed
qed

lemma Observe_cases:
  assumes "tracker_ok tracker"
  obtains (rejected) e where "Observe env link tracker = (tracker, [], CapabilitySnapshotZero, Some e)"
      "\<forall>es. e \<noteq> ObserveSnapshotInvalid es"
  | (running) t where "t = (if tk_proxyLink tracker \<noteq> link then resetForLink link tracker else tracker)"
      "tracker_ok t" "link_Valid link" "tk_proxyLink t = link"
      "Observe env link tracker =
         (if \<not> time_IsZero (tk_lastProbe t) \<and> oe_now env < tk_lastProbe t
          then (t, [], tracker_snapshot t, Some ObserveClockBackwards)
          else if \<not> probeDue t (oe_now env)
          then (t, [RecordSnapshot (tracker_snapshot t) (oe_now env)], tracker_snapshot t, None)
          else probeCycle env link t)"
proof (cases "oe_contextNil env \<or> \<not> link_Valid link \<or> oe_waitError env \<noteq> None \<or> time_IsZero (oe_now env)")
  case True
  then have "\<exists>e. Observe env link tracker = (tracker, [], CapabilitySnapshotZero, Some e) \<and>
      (\<forall>es. e \<noteq> ObserveSnapshotInvalid es)"
    unfolding link_Valid_def Observe_def
    by (cases "oe_contextNil env"; cases "time_IsZero (oe_now env)"; cases "link_Validate link"; cases "oe_waitError env")
      (simp_all del: link_Validate_None)
  then show ?thesis using rejected by blast
next
  case False
  let ?t = "if tk_proxyLink tracker \<noteq> link then resetForLink link tracker else tracker"
  from False have conds: "link_Validate link = None" "\<not> oe_contextNil env" "oe_waitError env = None"
      "\<not> time_IsZero (oe_now env)" by simp_all
  have "Observe env link tracker =
       (if \<not> time_IsZero (tk_lastProbe ?t) \<and> oe_now env < tk_lastProbe ?t
        then (?t, [], tracker_snapshot ?t, Some ObserveClockBackwards)
        else if \<not> probeDue ?t (oe_now env)
        then (?t, [RecordSnapshot (tracker_snapshot ?t) (oe_now env)], tracker_snapshot ?t, None)
        else probeCycle env link ?t)"
    by (simp only: Observe_def Let_def conds if_False option.case)
  moreover have "tracker_ok ?t" using assms False reset_ok by auto
  moreover have "tk_proxyLink ?t = link" by (simp add: resetForLink_def)
  ultimately show ?thesis using False by (intro running [of ?t]) auto
qed

section \<open>Properties\<close>

text \<open>
  C40: the tracker implements hysteresis. Replaying any history of probe results of a family through the
  saturating counters gives the capability of the specification: the latest run of at least
  \<^verbatim>\<open>SuccessThreshold\<close> successes or \<^verbatim>\<open>FailureThreshold\<close> failures decides, shorter runs change nothing, and
  the counters never leave their thresholds.
\<close>

theorem tracker_hysteresis:
  "fs_capability (replay cfg history) = capability_spec cfg (rev history) \<and>
   fs_successCount (replay cfg history) \<le> icc_SuccessThreshold cfg \<and>
   fs_failureCount (replay cfg history) \<le> icc_FailureThreshold cfg"
  using replay_spec [of cfg history] by (simp add: word_le_nat_alt)

text \<open>
  every call of \<^verbatim>\<open>Observe\<close> keeps the tracker's invariant, whatever the clock, the probes and the context do, and
  the snapshot it returns always validates; the branch that rejects an invalid snapshot is dead.
\<close>

theorem Observe_invariant:
  assumes "tracker_ok tracker" "Observe env link tracker = (tracker', events, snapshot, err)"
  shows "tracker_ok tracker' \<and> capability_snapshot_Validate snapshot = [] \<and>
         err \<noteq> Some (ObserveSnapshotInvalid es)"
  using assms(1)
proof (cases rule: Observe_cases [of tracker env link])
  case (rejected e)
  have "capability_snapshot_Validate CapabilitySnapshotZero = []"
    by (simp add: capability_snapshot_Validate_def CapabilitySnapshotZero_def) (simp add: CapabilityZero_def)
  with rejected assms show ?thesis by auto
next
  case (running t)
  note valid = tracker_snapshot_valid [OF running(2)]
  show ?thesis
  proof (cases "(\<not> time_IsZero (tk_lastProbe t) \<and> oe_now env < tk_lastProbe t) \<or> \<not> probeDue t (oe_now env)")
    case True
    with running assms(2) valid show ?thesis by (auto split: if_splits)
  next
    case False
    with running(5) have eq: "Observe env link tracker = probeCycle env link t" by auto
    have "link_Valid (tk_proxyLink t)" using running(3,4) by simp
    moreover have "tk_lastProbe t \<le> oe_now env \<or> time_IsZero (tk_lastProbe t)" using False by auto
    ultimately show ?thesis
      by (cases rule: probeCycle_cases [OF running(2), of env link])
        (use eq assms(2) valid running(2) tracker_snapshot_valid in auto)
  qed
qed

text \<open>
  exit routes are offered only on fresh evidence. When a snapshot makes the exit default route of a family
  available, the snapshot is valid and belongs to the given link, and the family's capability was observed
  at or before the given time and has not run out.
\<close>

theorem AvailableExitDefaultRoutes_sound:
  assumes "exit_Contains (AvailableExitDefaultRoutes snapshot now link) family"
  shows "capability_snapshot_Validate snapshot = [] \<and> link_Valid link \<and> cs_ProxyLink snapshot = link \<and>
         (\<exists>cap \<in> {cs_IPv4 snapshot, cs_IPv6 snapshot}.
            cap = (if family = IPv4 then cs_IPv4 snapshot else cs_IPv6 snapshot) \<and>
            fcap_Available cap \<and> fcap_ObservedAt cap \<le> now \<and> now \<le> fcap_ValidUntil cap)"
  using assms
  by (auto simp: AvailableExitDefaultRoutes_def exit_Contains_def ExitNone_def Fresh_iff split: if_splits)

text \<open>
  the evaluation accounts for both families. When the snapshot belongs to the link, a family's exit
  route is active exactly when no condition names the family; when it belongs to another
  link nothing is active; and the conditions are distinct and valid.
\<close>

theorem evaluateInternetCapability_spec:
  assumes "evaluateInternetCapability snapshot link now = Inr evaluation" "link_Valid link"
  shows "(\<forall>family \<in> {IPv4, IPv6}.
            exit_Contains (ce_activeExitDefaultRoutes evaluation) family \<longleftrightarrow>
            cs_ProxyLink snapshot = link \<and> family \<notin> rc_Family ` set (ce_conditions evaluation)) \<and>
         (cs_ProxyLink snapshot \<noteq> link \<longrightarrow> exit_Empty (ce_activeExitDefaultRoutes evaluation)) \<and>
         (\<forall>c \<in> set (ce_conditions evaluation). condition_Validate c = None) \<and>
         distinct (ce_conditions evaluation)"
proof (cases "cs_ProxyLink snapshot = link")
  case True
  with assms have "evaluation =
      \<lparr>ce_activeExitDefaultRoutes = AvailableExitDefaultRoutes snapshot now link,
       ce_conditions = concat (map (\<lambda>(family, cap).
               let kind = capability_kind cap now in
               if kind \<noteq> [] then [\<lparr>rc_Kind = kind, rc_Family = family, rc_Prefix = PrefixZero\<rparr>] else [])
               [(IPv4, cs_IPv4 snapshot), (IPv6, cs_IPv6 snapshot)])\<rparr>"
      "capability_snapshot_Validate snapshot = []"
    by (auto simp: evaluateInternetCapability_def split: if_splits)
  then show ?thesis
    using True assms(2) capability_kind_cases [of "cs_IPv4 snapshot" now] capability_kind_cases [of "cs_IPv6 snapshot" now]
    by (auto simp: Let_def capability_kind_empty_iff AvailableExitDefaultRoutes_def exit_Contains_def
        condition_Validate_def condition_kinds)
next
  case False
  with assms have "evaluation = \<lparr>ce_activeExitDefaultRoutes = ExitNone,
      ce_conditions = [\<lparr>rc_Kind = ConditionInternetCapabilityLinkMismatch, rc_Family = 0, rc_Prefix = PrefixZero\<rparr>]\<rparr>"
    by (auto simp: evaluateInternetCapability_def split: if_splits)
  with False show ?thesis
    by (auto simp: exit_Contains_def ExitNone_def condition_Validate_def condition_kinds)
qed

section \<open>Witnesses\<close>

definition example_tracker :: tracker where
  "example_tracker =
     \<lparr>tk_configuration = cf_InternetCapability DefaultConfiguration, tk_packetMark = 0x11, tk_proxyLink = LinkZero,
      tk_lastProbe = 0, tk_ipv4 = FamilyStateZero, tk_ipv6 = FamilyStateZero\<rparr>"

definition example_proxy :: link_identity where
  "example_proxy = \<lparr>link_Index = 7, link_Name = ''tun0''\<rparr>"

definition example_observe :: observe_env where
  "example_observe =
     \<lparr>oe_contextNil = False, oe_waitError = None, oe_now = 100, oe_ipv4 = None, oe_ipv6 = Some ''timeout'',
      oe_ipv6First = True, oe_ctxErr1 = None, oe_ctxErr2 = None, oe_ctxErr3 = None, oe_observedAt = 105\<rparr>"

lemma example_tracker_ok: "tracker_ok example_tracker"
  by (rule NewTracker_ok [where cfg = "cf_InternetCapability DefaultConfiguration" and mark = "0x11" and deps = True]) code_simp

lemma Observe_invariant_witness:
  "tracker_ok (fst (Observe example_observe example_proxy example_tracker)) \<and>
   fst (snd (Observe example_observe example_proxy example_tracker)) \<noteq> []"
proof -
  obtain t ev sn e where o: "Observe example_observe example_proxy example_tracker = (t, ev, sn, e)"
    by (metis surj_pair)
  have "fst (snd (Observe example_observe example_proxy example_tracker)) \<noteq> []" by code_simp
  then show ?thesis using Observe_invariant [OF example_tracker_ok o] o by simp
qed

definition example_capability :: capability_snapshot where
  "example_capability =
     \<lparr>cs_ProxyLink = example_proxy,
      cs_IPv4 = \<lparr>fcap_Initialized = True, fcap_Available = True, fcap_ObservedAt = 100, fcap_ValidUntil = 200\<rparr>,
      cs_IPv6 = CapabilityZero\<rparr>"

lemma AvailableExitDefaultRoutes_sound_witness:
  "fcap_ObservedAt (cs_IPv4 example_capability) \<le> 150 \<and> capability_snapshot_Validate example_capability = []"
proof -
  have "exit_Contains (AvailableExitDefaultRoutes example_capability 150 example_proxy) IPv4" by code_simp
  from AvailableExitDefaultRoutes_sound [OF this] show ?thesis by auto
qed

lemma evaluateInternetCapability_spec_witness:
  "exit_Contains (ce_activeExitDefaultRoutes
     (projr (evaluateInternetCapability example_capability example_proxy 150))) IPv4"
proof -
  have ev: "evaluateInternetCapability example_capability example_proxy 150 =
      Inr \<lparr>ce_activeExitDefaultRoutes = \<lparr>ex_IPv4 = True, ex_IPv6 = False\<rparr>,
           ce_conditions = [\<lparr>rc_Kind = ConditionInternetCapabilityInitializing, rc_Family = IPv6, rc_Prefix = PrefixZero\<rparr>]\<rparr>"
    and "link_Valid example_proxy" "cs_ProxyLink example_capability = example_proxy"
    by code_simp+
  from evaluateInternetCapability_spec [OF this(1,2)] this(3) show ?thesis by (simp add: ev)
qed

end
