(* ===== verification/Routing_Plan.thy ===== *)
theory Routing_Plan
  imports Configuration Discovery
begin

text \<open>
  \<^verbatim>\<open>internal/application/routing.go\<close>: the routing states the reconciler plans (safety, prepared, fail-closed and
  desired), the ownership they live in, and the classification of a change set as a pure
  transition of active exit default routes. The main facts: what the planner builds from a valid
  configuration and a valid snapshot is always accepted by the diff, and every plan contains the blackhole
  routes of the safety baseline.
\<close>

section \<open>Plans\<close>

definition blackholeRoute :: "family \<Rightarrow> int \<Rightarrow> prefix \<Rightarrow> int \<Rightarrow> route" where
  "blackholeRoute family table p metric =
     \<lparr>route_Family = family, route_Disposition = RouteBlackhole, route_Table = table, route_Prefix = p,
      route_Gateway = AddrZero, route_Link = LinkZero, route_OnLink = False, route_Metric = metric,
      route_UnexpectedAttributes = False\<rparr>"

definition activeRoute ::
  "network_configuration \<Rightarrow> family \<Rightarrow> int \<Rightarrow> prefix \<Rightarrow> addr \<Rightarrow> link_identity \<Rightarrow> bool \<Rightarrow> route" where
  "activeRoute network family table p gateway link onLink =
     \<lparr>route_Family = family, route_Disposition = RouteUnicast, route_Table = table, route_Prefix = p,
      route_Gateway = gateway, route_Link = link, route_OnLink = onLink, route_Metric = nc_ActiveRouteMetric network,
      route_UnexpectedAttributes = False\<rparr>"

definition localEgressRule :: "network_configuration \<Rightarrow> family \<Rightarrow> rule" where
  "localEgressRule network family =
     \<lparr>rule_Family = family, rule_Priority = nc_LocalEgressRulePriority network,
      rule_Table = nc_LocalEgressRouteTable network, rule_IncomingInterface = [],
      rule_Mark = nc_LocalEgressPacketMark network, rule_Mask = LocalEgressPacketMarkMask,
      rule_UnexpectedMatch = False\<rparr>"

definition exitRule :: "network_configuration \<Rightarrow> link_identity \<Rightarrow> family \<Rightarrow> rule" where
  "exitRule network tailnetLink family =
     \<lparr>rule_Family = family, rule_Priority = nc_ExitRulePriority network, rule_Table = nc_ExitRouteTable network,
      rule_IncomingInterface = link_Name tailnetLink, rule_Mark = 0, rule_Mask = 0, rule_UnexpectedMatch = False\<rparr>"

definition buildSafetyRouting :: "configuration \<Rightarrow> routing_state" where
  "buildSafetyRouting cfg =
     (let network = cf_Network cfg;
          table = nc_ExitRouteTable network;
          metric = nc_FailClosedRouteMetric network;
          enabled = lc_Enabled (fc_LocalEgress (cf_PacketFilter cfg))
      in \<lparr>rs_Routes =
            map (\<lambda>family. blackholeRoute family table (DefaultPrefix family) metric) [IPv4, IPv6] @
            [blackholeRoute IPv4 table (nc_TailnetIPv4Prefix network) metric,
             blackholeRoute IPv6 table (nc_TailnetIPv6Prefix network) metric] @
            map (\<lambda>p. blackholeRoute (FamilyOfPrefix p) table p metric) (tnc_AdvertiseRoutes (cf_Tailnet cfg)) @
            (if enabled
             then map (\<lambda>family. blackholeRoute family (nc_LocalEgressRouteTable network) (DefaultPrefix family) metric)
                    [IPv4, IPv6]
             else []),
          rs_Rules = (if enabled then map (localEgressRule network) [IPv4, IPv6] else [])\<rparr>)"

definition buildPreparedRouting :: "configuration \<Rightarrow> link_identity \<Rightarrow> routing_state" where
  "buildPreparedRouting cfg proxyTunnelLink =
     (let state = buildSafetyRouting cfg; network = cf_Network cfg in
      if \<not> lc_Enabled (fc_LocalEgress (cf_PacketFilter cfg)) \<or> \<not> link_Valid proxyTunnelLink then state
      else state\<lparr>rs_Routes := rs_Routes state @
             map (\<lambda>family. activeRoute network family (nc_LocalEgressRouteTable network) (DefaultPrefix family)
                             AddrZero proxyTunnelLink False) [IPv4, IPv6]\<rparr>)"

definition buildFailClosedRouting :: "configuration \<Rightarrow> link_identity \<Rightarrow> link_identity \<Rightarrow> routing_state" where
  "buildFailClosedRouting cfg tailnetLink proxyTunnelLink =
     (let state = buildPreparedRouting cfg proxyTunnelLink in
      if \<not> link_Valid tailnetLink then state
      else state\<lparr>rs_Rules := rs_Rules state @ map (exitRule (cf_Network cfg) tailnetLink) [IPv4, IPv6]\<rparr>)"

text \<open>The body of the loop over the DNS egress paths: a host route unless an advertised prefix covers the nameserver.\<close>

definition dnsRoutes :: "network_configuration \<Rightarrow> network_snapshot \<Rightarrow> dns_egress_path \<Rightarrow> route list" where
  "dnsRoutes network snapshot path =
     (let address = addr_Unmap (dns_NameServer path) in
      if list_ex (\<lambda>projection. prefix_Contains (dp_Prefix projection) address) (sn_AdvertisedRoutes snapshot) then []
      else [activeRoute network (FamilyOfAddress address) (nc_ExitRouteTable network)
              (PrefixFrom address (int (addr_BitLen address))) (dns_Gateway path) (dns_Link path) (dns_OnLink path)])"

definition exitDefaults ::
  "network_configuration \<Rightarrow> network_snapshot \<Rightarrow> exit_default_route_set \<Rightarrow> route list" where
  "exitDefaults network snapshot active =
     map (\<lambda>family. activeRoute network family (nc_ExitRouteTable network) (DefaultPrefix family) AddrZero
                     (sn_ProxyTunnelLink snapshot) False)
       (filter (exit_Contains active) [IPv4, IPv6])"

definition buildDesiredRouting ::
  "configuration \<Rightarrow> network_snapshot \<Rightarrow> exit_default_route_set \<Rightarrow> routing_state" where
  "buildDesiredRouting cfg snapshot activeExitDefaultRoutes =
     (let network = cf_Network cfg;
          table = nc_ExitRouteTable network;
          state = buildPreparedRouting cfg (sn_ProxyTunnelLink snapshot)
      in \<lparr>rs_Routes =
            rs_Routes state @
            exitDefaults network snapshot activeExitDefaultRoutes @
            [activeRoute network IPv4 table (nc_TailnetIPv4Prefix network) AddrZero (sn_TailnetLink snapshot) False,
             activeRoute network IPv6 table (nc_TailnetIPv6Prefix network) AddrZero (sn_TailnetLink snapshot) False] @
            map (\<lambda>projection. activeRoute network (FamilyOfPrefix (dp_Prefix projection)) table (dp_Prefix projection)
                    (dp_Gateway projection) (dp_Link projection) (dp_OnLink projection)) (sn_AdvertisedRoutes snapshot) @
            concat (map (dnsRoutes network snapshot) (sn_DNSEgressPaths snapshot)),
          rs_Rules = rs_Rules state @ map (exitRule network (sn_TailnetLink snapshot)) [IPv4, IPv6]\<rparr>)"

definition routingOwnership :: "configuration \<Rightarrow> routing_ownership" where
  "routingOwnership cfg =
     \<lparr>own_Tables = [nc_ExitRouteTable (cf_Network cfg), nc_LocalEgressRouteTable (cf_Network cfg)],
      own_RulePriorities = [nc_ExitRulePriority (cf_Network cfg), nc_LocalEgressRulePriority (cf_Network cfg)]\<rparr>"

section \<open>Transitions of exit default routes\<close>

record exit_transition =
  et_activationChanges :: routing_changes
  et_deactivationChanges :: routing_changes

definition TransitionZero :: exit_transition where
  "TransitionZero = \<lparr>et_activationChanges = ChangesZero, et_deactivationChanges = ChangesZero\<rparr>"

definition isActiveExitDefaultRoute :: "route \<Rightarrow> network_configuration \<Rightarrow> bool" where
  "isActiveExitDefaultRoute route network =
     (if route_Family route \<noteq> IPv4 \<and> route_Family route \<noteq> IPv6 then False
      else route_Table route = nc_ExitRouteTable network \<and> route_Disposition route = RouteUnicast \<and>
           route_Metric route = nc_ActiveRouteMetric network \<and>
           route_Prefix route = DefaultPrefix (route_Family route))"

text \<open>\<^verbatim>\<open>addExitDefaultRoute\<close>: \<open>None\<close> when the pointer's target is unchanged and the function returns false.\<close>

definition addExitDefaultRoute :: "exit_default_route_set \<Rightarrow> family \<Rightarrow> exit_default_route_set option" where
  "addExitDefaultRoute routes family =
     (if exit_Contains routes family then None
      else if family = IPv4 then Some (routes\<lparr>ex_IPv4 := True\<rparr>)
      else if family = IPv6 then Some (routes\<lparr>ex_IPv6 := True\<rparr>)
      else None)"

text \<open>A loop over routes that stops at the first one it cannot add; \<open>excluded\<close> holds families already activated.\<close>

fun collectExitDefaults ::
  "network_configuration \<Rightarrow> exit_default_route_set \<Rightarrow> exit_default_route_set \<Rightarrow> route list \<Rightarrow>
   exit_default_route_set option" where
  "collectExitDefaults network excluded routes [] = Some routes"
| "collectExitDefaults network excluded routes (r # rs) =
     (if \<not> isActiveExitDefaultRoute r network \<or> exit_Contains excluded (route_Family r) then None
      else case addExitDefaultRoute routes (route_Family r) of
        None \<Rightarrow> None
      | Some routes' \<Rightarrow> collectExitDefaults network excluded routes' rs)"

definition classifyExitDefaultRouteTransition ::
  "routing_changes \<Rightarrow> network_configuration \<Rightarrow> exit_transition \<times> bool" where
  "classifyExitDefaultRouteTransition changes network =
     (if changes_Empty changes \<or> length (ch_AddRules changes) \<noteq> 0 \<or> length (ch_DeleteRules changes) \<noteq> 0
      then (TransitionZero, False)
      else case collectExitDefaults network ExitNone ExitNone (ch_UpsertRoutes changes) of
        None \<Rightarrow> (TransitionZero, False)
      | Some routesToActivate \<Rightarrow>
          (case collectExitDefaults network routesToActivate ExitNone (ch_DeleteRoutes changes) of
             None \<Rightarrow> (TransitionZero, False)
           | Some routesToDeactivate \<Rightarrow>
               (\<lparr>et_activationChanges = ChangesZero\<lparr>ch_UpsertRoutes := ch_UpsertRoutes changes\<rparr>,
                 et_deactivationChanges = ChangesZero\<lparr>ch_DeleteRoutes := ch_DeleteRoutes changes\<rparr>\<rparr>, True)))"

text \<open>Routes that passed validation are told apart by disposition, table and prefix when the metric follows from the disposition.\<close>

definition plan_key :: "route \<Rightarrow> disposition \<times> int \<times> prefix" where
  "plan_key r = (route_Disposition r, route_Table r, route_Prefix r)"

text \<open>The active routes of the exit table that the desired plan adds, and what a valid snapshot says of them.\<close>

definition exit_actives :: "configuration \<Rightarrow> network_snapshot \<Rightarrow> exit_default_route_set \<Rightarrow> route list" where
  "exit_actives cfg snapshot active =
     exitDefaults (cf_Network cfg) snapshot active @
     [activeRoute (cf_Network cfg) IPv4 (nc_ExitRouteTable (cf_Network cfg)) (nc_TailnetIPv4Prefix (cf_Network cfg))
        AddrZero (sn_TailnetLink snapshot) False,
      activeRoute (cf_Network cfg) IPv6 (nc_ExitRouteTable (cf_Network cfg)) (nc_TailnetIPv6Prefix (cf_Network cfg))
        AddrZero (sn_TailnetLink snapshot) False] @
     map (\<lambda>q. activeRoute (cf_Network cfg) (FamilyOfPrefix (dp_Prefix q)) (nc_ExitRouteTable (cf_Network cfg)) (dp_Prefix q)
             (dp_Gateway q) (dp_Link q) (dp_OnLink q)) (sn_AdvertisedRoutes snapshot) @
     concat (map (dnsRoutes (cf_Network cfg) snapshot) (sn_DNSEgressPaths snapshot))"

definition host_of :: "dns_egress_path \<Rightarrow> prefix" where
  "host_of path = PrefixFrom (addr_Unmap (dns_NameServer path)) (int (addr_BitLen (addr_Unmap (dns_NameServer path))))"

definition covered :: "network_snapshot \<Rightarrow> dns_egress_path \<Rightarrow> bool" where
  "covered snapshot path \<longleftrightarrow>
     list_ex (\<lambda>q. prefix_Contains (dp_Prefix q) (addr_Unmap (dns_NameServer path))) (sn_AdvertisedRoutes snapshot)"

text \<open>
  A snapshot that validates for the advertised routes of a valid configuration, the one collision that validation leaves
  possible (a nameserver outside the advertised prefixes that is the whole of a Tailnet prefix), and a snapshot without it.
\<close>

definition validated :: "configuration \<Rightarrow> network_snapshot \<Rightarrow> discovery_request \<Rightarrow> bool" where
  "validated cfg snapshot request \<longleftrightarrow>
     configuration_Validate cfg = [] \<and> snapshot_Validate snapshot request = [] \<and>
     dq_AdvertisedPrefixes request = tnc_AdvertiseRoutes (cf_Tailnet cfg)"

definition nameserver_clash :: "configuration \<Rightarrow> network_snapshot \<Rightarrow> bool" where
  "nameserver_clash cfg snapshot \<longleftrightarrow>
     list_ex (\<lambda>path. \<not> covered snapshot path \<and>
        (host_of path = nc_TailnetIPv4Prefix (cf_Network cfg) \<or> host_of path = nc_TailnetIPv6Prefix (cf_Network cfg)))
       (sn_DNSEgressPaths snapshot)"

definition plannable :: "configuration \<Rightarrow> network_snapshot \<Rightarrow> discovery_request \<Rightarrow> bool" where
  "plannable cfg snapshot request \<longleftrightarrow> validated cfg snapshot request \<and> \<not> nameserver_clash cfg snapshot"

section \<open>Planned routes are valid\<close>

lemma host_prefix_cases:
  assumes "addr_IsValid a" "addr_Zone a = []"
  obtains (v4) x where "a = Addr4 x" "PrefixFrom a (int (addr_BitLen a)) = Prefix (Addr4 x) (Suc 32)"
  | (v6) x where "a = Addr6 x []" "PrefixFrom a (int (addr_BitLen a)) = Prefix (Addr6 x []) (Suc 128)"
proof (cases a)
  case (Addr4 x)
  moreover from this have "PrefixFrom a (int (addr_BitLen a)) = Prefix (Addr4 x) (Suc 32)"
    by (simp add: PrefixFrom_def)
  ultimately show ?thesis by (rule v4)
next
  case (Addr6 x z)
  with assms(2) have "a = Addr6 x []" by simp
  moreover from this have "PrefixFrom a (int (addr_BitLen a)) = Prefix (Addr6 x []) (Suc 128)"
    by (simp add: PrefixFrom_def)
  ultimately show ?thesis by (rule v6)
qed (use assms in simp)

lemma host_prefix:
  assumes "addr_IsValid a" "addr_Zone a = []"
  shows "validMaskedPrefix (PrefixFrom a (int (addr_BitLen a))) (FamilyOfAddress a)"
    and "prefix_Contains (PrefixFrom a (int (addr_BitLen a))) a"
    and "prefix_Addr (PrefixFrom a (int (addr_BitLen a))) = a"
    and "prefix_Bits (PrefixFrom a (int (addr_BitLen a))) \<noteq> 0"
proof -
  have "validMaskedPrefix (PrefixFrom a (int (addr_BitLen a))) (FamilyOfAddress a) \<and>
      prefix_Contains (PrefixFrom a (int (addr_BitLen a))) a \<and>
      prefix_Addr (PrefixFrom a (int (addr_BitLen a))) = a \<and> prefix_Bits (PrefixFrom a (int (addr_BitLen a))) \<noteq> 0"
    using assms
  proof (cases rule: host_prefix_cases)
    case (v4 x)
    have "prefix_Masked (Prefix (Addr4 x) (Suc 32)) = Prefix (Addr4 x) (Suc 32)"
      by (subst prefix_Masked4) (simp_all add: netmask4_def)
    with v4 show ?thesis
      by (simp only: prefix.sel prefix_Contains4) (simp add: validMaskedPrefix_def prefix_IsValid_def FamilyOfPrefix_def prefix_Bits_def)
  next
    case (v6 x)
    have "prefix_Masked (Prefix (Addr6 x []) (Suc 128)) = Prefix (Addr6 x []) (Suc 128)"
      by (subst prefix_Masked6) (simp_all add: netmask6_def)
    with v6 show ?thesis
      by (simp only: prefix.sel prefix_Contains6) (simp add: validMaskedPrefix_def prefix_IsValid_def FamilyOfPrefix_def prefix_Bits_def)
  qed
  then show "validMaskedPrefix (PrefixFrom a (int (addr_BitLen a))) (FamilyOfAddress a)"
    "prefix_Contains (PrefixFrom a (int (addr_BitLen a))) a"
    "prefix_Addr (PrefixFrom a (int (addr_BitLen a))) = a"
    "prefix_Bits (PrefixFrom a (int (addr_BitLen a))) \<noteq> 0"
    by simp_all
qed

lemma default_contains:
  "addr_Is4 a \<Longrightarrow> prefix_Contains (DefaultPrefix IPv4) a"
  "addr_Is6 a \<Longrightarrow> addr_Zone a = [] \<Longrightarrow> prefix_Contains (DefaultPrefix IPv6) a"
  using prefix_Contains4 [of 0 0] prefix_Contains6 [of 0 "[]" 0] by (cases a; simp add: DefaultPrefix_simps)+

lemma route_sel [simp]:
  "route_Table (blackholeRoute f t p m) = t" "route_Disposition (blackholeRoute f t p m) = RouteBlackhole"
  "route_Prefix (blackholeRoute f t p m) = p" "route_Family (blackholeRoute f t p m) = f"
  "route_Table (activeRoute n f t p g l ol) = t" "route_Disposition (activeRoute n f t p g l ol) = RouteUnicast"
  "route_Prefix (activeRoute n f t p g l ol) = p" "route_Family (activeRoute n f t p g l ol) = f"
  "route_Metric (blackholeRoute f t p m) = m" "route_Metric (activeRoute n f t p g l ol) = nc_ActiveRouteMetric n"
  "route_Link (activeRoute n f t p g l ol) = l"
  by (simp_all add: blackholeRoute_def activeRoute_def)

lemma blackholeRoute_valid:
  assumes "validMaskedPrefix p family" "family = IPv4 \<or> family = IPv6" "0 < table" "0 < metric"
    "metric \<le> maximumNetlinkInteger"
  shows "route_Validate (blackholeRoute family table p metric) = None"
  using assms by (auto simp: blackholeRoute_def route_Validate_def)

lemma activeRoute_valid:
  assumes "validMaskedPrefix p family" "family = IPv4 \<or> family = IPv6" "0 < table" "link_Valid link"
    "0 < nc_ActiveRouteMetric network" "nc_ActiveRouteMetric network \<le> maximumNetlinkInteger"
    and "if addr_IsValid gw then addr_Zone (addr_Unmap gw) = [] \<and> FamilyOfAddress (addr_Unmap gw) = family else \<not> onLink"
  shows "route_Validate (activeRoute network family table p gw link onLink) = None"
proof -
  have link: "link_Validate link = None" using assms(4) by simp
  have "unicast_Validate (activeRoute network family table p gw link onLink) = None"
    using assms(7) unfolding unicast_Validate_def Let_def activeRoute_def route.select_convs link
    by (simp split: if_splits)
  then show ?thesis
    using assms by (auto simp: route_Validate_def activeRoute_def)
qed

lemma plan_keys_distinct:
  assumes "\<forall>r \<in> set rs. route_Validate r = None" "distinct (map plan_key rs)"
  shows "distinct (map routeKey rs)"
proof -
  have "inj_on routeKey (set rs)"
  proof (rule inj_onI)
    fix r s
    assume rs: "r \<in> set rs" "s \<in> set rs" "routeKey r = routeKey s"
    then have "plan_key r = plan_key s"
      using assms(1) routeKey_iff [of r s] route_observable by (auto simp: plan_key_def)
    with rs assms(2) show "r = s" by (auto simp: distinct_map inj_on_def)
  qed
  with assms(2) show ?thesis by (simp add: distinct_map)
qed


section \<open>What a valid configuration gives the planner\<close>

lemma tunnel_family_exists:
  assumes "validateNetworkConfiguration net = []" "family = IPv4 \<or> family = IPv6"
  obtains p where "p \<in> set (nc_ProxyTunnelAddresses net)" "validInterfaceAddressPrefix p"
    "FamilyOfAddress (addr_Unmap (prefix_Addr p)) = family"
    "\<not> prefix_Contains (nc_TailnetIPv4Prefix net) (addr_Unmap (prefix_Addr p))"
    "\<not> prefix_Contains (nc_TailnetIPv6Prefix net) (addr_Unmap (prefix_Addr p))"
proof -
  from assms have "family \<in> set (tunnel_seen_families (nc_ProxyTunnelAddresses net))"
    by (auto simp: validateNetworkConfiguration_def)
  then obtain p where p: "p \<in> set (nc_ProxyTunnelAddresses net)" "validInterfaceAddressPrefix p"
    "FamilyOfAddress (addr_Unmap (prefix_Addr p)) = family"
    by (auto simp: tunnel_seen_families_def)
  moreover from assms(1) p(1,2) have "\<not> prefix_Contains (nc_TailnetIPv4Prefix net) (addr_Unmap (prefix_Addr p))"
    "\<not> prefix_Contains (nc_TailnetIPv6Prefix net) (addr_Unmap (prefix_Addr p))"
    by (auto simp: validateNetworkConfiguration_def scan_seen_post_Nil_iff)
  ultimately show ?thesis using that by blast
qed

lemma tailnet_prefix_not_default:
  assumes "validateNetworkConfiguration net = []"
  shows "nc_TailnetIPv4Prefix net \<noteq> DefaultPrefix IPv4" "nc_TailnetIPv6Prefix net \<noteq> DefaultPrefix IPv6"
proof -
  show "nc_TailnetIPv4Prefix net \<noteq> DefaultPrefix IPv4"
  proof (rule tunnel_family_exists [OF assms, of IPv4])
    fix p
    assume "FamilyOfAddress (addr_Unmap (prefix_Addr p)) = IPv4"
      "\<not> prefix_Contains (nc_TailnetIPv4Prefix net) (addr_Unmap (prefix_Addr p))"
    then show ?thesis
      using default_contains(1) [of "addr_Unmap (prefix_Addr p)"] by (auto simp: FamilyOfAddress_def split: if_splits)
  qed simp
  show "nc_TailnetIPv6Prefix net \<noteq> DefaultPrefix IPv6"
  proof (rule tunnel_family_exists [OF assms, of IPv6])
    fix p
    assume p: "FamilyOfAddress (addr_Unmap (prefix_Addr p)) = IPv6" "validInterfaceAddressPrefix p"
      "\<not> prefix_Contains (nc_TailnetIPv6Prefix net) (addr_Unmap (prefix_Addr p))"
    from p(2) have "\<not> addr_Is4In6 (prefix_Addr p)" "addr_Zone (prefix_Addr p) = []" "prefix_IsValid p"
        "prefix_Bits p \<noteq> 0" "prefix_Bits p \<le> int (addr_BitLen (prefix_Addr p))"
      by (auto simp: validInterfaceAddressPrefix_def split: if_splits)
    then have "addr_Unmap (prefix_Addr p) = prefix_Addr p" "prefix_Addr p \<noteq> AddrZero"
      by (auto simp: addr_Unmap_id prefix_IsValid_def prefix_Bits_def)
    with p(1) have "addr_Is6 (addr_Unmap (prefix_Addr p))"
      by (cases "prefix_Addr p") (auto simp: FamilyOfAddress_def split: if_splits)
    then have "prefix_Contains (DefaultPrefix IPv6) (addr_Unmap (prefix_Addr p))"
      using \<open>addr_Zone (prefix_Addr p) = []\<close> \<open>addr_Unmap (prefix_Addr p) = prefix_Addr p\<close> by (intro default_contains(2)) auto
    with p(3) show ?thesis by auto
  qed simp
qed

lemma nondefault_neq: "prefix_Bits p \<noteq> 0 \<Longrightarrow> p \<noteq> DefaultPrefix family"
  by auto

lemma masked_families_neq: "validMaskedPrefix p f \<Longrightarrow> validMaskedPrefix q g \<Longrightarrow> f \<noteq> g \<Longrightarrow> p \<noteq> q"
  by (auto simp: validMaskedPrefix_def)

text \<open>The prefixes of the safety baseline are distinct, and each is valid for its family.\<close>

lemma advertised_ok:
  assumes "configuration_Validate cfg = []" "p \<in> set (tnc_AdvertiseRoutes (cf_Tailnet cfg))"
  shows "validMaskedPrefix p (FamilyOfPrefix p)" "prefix_Bits p \<noteq> 0"
    "p \<noteq> nc_TailnetIPv4Prefix (cf_Network cfg)" "p \<noteq> nc_TailnetIPv6Prefix (cf_Network cfg)"
proof -
  have loop: "advertiseLoop (cf_Network cfg) [] [] (tnc_AdvertiseRoutes (cf_Tailnet cfg)) = []"
    using configuration_sections(3) [OF assms(1)] by (simp add: validateTailnetConfiguration_def)
  then have p: "masked_nondefault p" "\<not> prefixesOverlap p (nc_TailnetIPv4Prefix (cf_Network cfg))"
      "\<not> prefixesOverlap p (nc_TailnetIPv6Prefix (cf_Network cfg))"
    using assms(2) by (auto simp: advertiseLoop_Nil_iff)
  then show "validMaskedPrefix p (FamilyOfPrefix p)" "prefix_Bits p \<noteq> 0"
    by (auto simp: masked_nondefault_def validMaskedPrefix_def)
  have "prefixesOverlap p p"
    using p(1) masked_nondefault_ok by (intro prefixesOverlap_refl) (auto simp: masked_nondefault_def)
  with p show "p \<noteq> nc_TailnetIPv4Prefix (cf_Network cfg)" "p \<noteq> nc_TailnetIPv6Prefix (cf_Network cfg)" by auto
qed

lemma advertised_distinct:
  "configuration_Validate cfg = [] \<Longrightarrow> distinct (tnc_AdvertiseRoutes (cf_Tailnet cfg))"
  using configuration_sections(3) [of cfg] by (simp add: validateTailnetConfiguration_def advertiseLoop_Nil_iff)

lemma baseline_prefixes_distinct:
  assumes "configuration_Validate cfg = []"
  shows "distinct ([DefaultPrefix IPv4, DefaultPrefix IPv6, nc_TailnetIPv4Prefix (cf_Network cfg),
           nc_TailnetIPv6Prefix (cf_Network cfg)] @ tnc_AdvertiseRoutes (cf_Tailnet cfg))"
proof -
  note net = configuration_sections(1) [OF assms]
  note T4 = network_ok(14) [OF net] and T6 = network_ok(15) [OF net]
  have "DefaultPrefix IPv4 \<noteq> nc_TailnetIPv4Prefix (cf_Network cfg)" "DefaultPrefix IPv6 \<noteq> nc_TailnetIPv6Prefix (cf_Network cfg)"
    using tailnet_prefix_not_default [OF net] by auto
  moreover have "DefaultPrefix IPv4 \<noteq> nc_TailnetIPv6Prefix (cf_Network cfg)" "DefaultPrefix IPv6 \<noteq> nc_TailnetIPv4Prefix (cf_Network cfg)"
      "nc_TailnetIPv4Prefix (cf_Network cfg) \<noteq> nc_TailnetIPv6Prefix (cf_Network cfg)"
    using masked_families_neq [OF _ T6, of _ IPv4] masked_families_neq [OF _ T4, of _ IPv6] T4 by force+
  moreover have "DefaultPrefix f \<notin> set (tnc_AdvertiseRoutes (cf_Tailnet cfg))" for f
    using advertised_ok(2) [OF assms] by force
  moreover have "nc_TailnetIPv4Prefix (cf_Network cfg) \<notin> set (tnc_AdvertiseRoutes (cf_Tailnet cfg))"
      "nc_TailnetIPv6Prefix (cf_Network cfg) \<notin> set (tnc_AdvertiseRoutes (cf_Tailnet cfg))"
    using advertised_ok(3,4) [OF assms] by blast+
  ultimately show ?thesis
    using advertised_distinct [OF assms] by simp
qed

section \<open>Plans are accepted by the diff\<close>

abbreviation local_enabled :: "configuration \<Rightarrow> bool" where
  "local_enabled cfg \<equiv> lc_Enabled (fc_LocalEgress (cf_PacketFilter cfg))"

lemma routingOwnership_valid:
  assumes "configuration_Validate cfg = []"
  shows "ownership_Validate (routingOwnership cfg) = []"
  using network_ok [OF configuration_sections(1) [OF assms]]
  by (auto simp: ownership_Validate_Nil_iff routingOwnership_def)

lemma safety_routes_valid:
  assumes "configuration_Validate cfg = []" "r \<in> set (rs_Routes (buildSafetyRouting cfg))"
  shows "route_Validate r = None" "route_Table r \<in> set (own_Tables (routingOwnership cfg))"
proof -
  note net = network_ok [OF configuration_sections(1) [OF assms(1)]]
  have pos: "0 < nc_ExitRouteTable (cf_Network cfg)" "0 < nc_LocalEgressRouteTable (cf_Network cfg)"
    "0 < nc_FailClosedRouteMetric (cf_Network cfg)" using net(1,2,11) by auto
  have fam: "FamilyOfPrefix p = IPv4 \<or> FamilyOfPrefix p = IPv6" for p
    by (simp add: FamilyOfPrefix_def FamilyOfAddress_cases)
  from assms(2) consider f where "f \<in> {IPv4, IPv6}" "r = blackholeRoute f (nc_ExitRouteTable (cf_Network cfg)) (DefaultPrefix f) (nc_FailClosedRouteMetric (cf_Network cfg))"
    | "r = blackholeRoute IPv4 (nc_ExitRouteTable (cf_Network cfg)) (nc_TailnetIPv4Prefix (cf_Network cfg)) (nc_FailClosedRouteMetric (cf_Network cfg))"
    | "r = blackholeRoute IPv6 (nc_ExitRouteTable (cf_Network cfg)) (nc_TailnetIPv6Prefix (cf_Network cfg)) (nc_FailClosedRouteMetric (cf_Network cfg))"
    | p where "p \<in> set (tnc_AdvertiseRoutes (cf_Tailnet cfg))"
        "r = blackholeRoute (FamilyOfPrefix p) (nc_ExitRouteTable (cf_Network cfg)) p (nc_FailClosedRouteMetric (cf_Network cfg))"
    | f where "f \<in> {IPv4, IPv6}" "r = blackholeRoute f (nc_LocalEgressRouteTable (cf_Network cfg)) (DefaultPrefix f) (nc_FailClosedRouteMetric (cf_Network cfg))"
    unfolding buildSafetyRouting_def Let_def by (auto split: if_splits)
  then have "route_Validate r = None \<and> route_Table r \<in> set (own_Tables (routingOwnership cfg))"
    by cases (use pos net(12,14,15) fam advertised_ok(1) [OF assms(1)] in
      \<open>auto intro!: blackholeRoute_valid simp: routingOwnership_def\<close>)
  then show "route_Validate r = None" "route_Table r \<in> set (own_Tables (routingOwnership cfg))" by simp_all
qed

lemma prepared_routes:
  "rs_Routes (buildPreparedRouting cfg plink) = rs_Routes (buildSafetyRouting cfg) @
     (if local_enabled cfg \<and> link_Valid plink
      then map (\<lambda>f. activeRoute (cf_Network cfg) f (nc_LocalEgressRouteTable (cf_Network cfg)) (DefaultPrefix f)
                 AddrZero plink False) [IPv4, IPv6] else [])"
  "rs_Rules (buildPreparedRouting cfg plink) = rs_Rules (buildSafetyRouting cfg)"
  by (simp_all add: buildPreparedRouting_def Let_def)

lemma failClosed_routes:
  "rs_Routes (buildFailClosedRouting cfg tlink plink) = rs_Routes (buildPreparedRouting cfg plink)"
  "rs_Rules (buildFailClosedRouting cfg tlink plink) = rs_Rules (buildSafetyRouting cfg) @
     (if link_Valid tlink then map (exitRule (cf_Network cfg) tlink) [IPv4, IPv6] else [])"
  by (simp_all add: buildFailClosedRouting_def Let_def prepared_routes)

lemma prepared_routes_valid:
  assumes "configuration_Validate cfg = []" "r \<in> set (rs_Routes (buildPreparedRouting cfg plink))"
  shows "route_Validate r = None" "route_Table r \<in> set (own_Tables (routingOwnership cfg))"
proof -
  note net = network_ok [OF configuration_sections(1) [OF assms(1)]]
  have "route_Validate r = None \<and> route_Table r \<in> set (own_Tables (routingOwnership cfg))"
  proof (cases "r \<in> set (rs_Routes (buildSafetyRouting cfg))")
    case True
    then show ?thesis using safety_routes_valid [OF assms(1)] by blast
  next
    case False
    with assms(2) obtain f where "f = IPv4 \<or> f = IPv6" "link_Valid plink"
        "r = activeRoute (cf_Network cfg) f (nc_LocalEgressRouteTable (cf_Network cfg)) (DefaultPrefix f) AddrZero plink False"
      by (auto simp: prepared_routes split: if_splits)
    then show ?thesis
      using net(2,9,10) by (auto intro!: activeRoute_valid simp: routingOwnership_def)
  qed
  then show "route_Validate r = None" "route_Table r \<in> set (own_Tables (routingOwnership cfg))" by simp_all
qed

lemma safety_keys:
  "map plan_key (rs_Routes (buildSafetyRouting cfg)) =
     map (\<lambda>p. (RouteBlackhole, nc_ExitRouteTable (cf_Network cfg), p))
       ([DefaultPrefix IPv4, DefaultPrefix IPv6, nc_TailnetIPv4Prefix (cf_Network cfg),
         nc_TailnetIPv6Prefix (cf_Network cfg)] @ tnc_AdvertiseRoutes (cf_Tailnet cfg)) @
     (if local_enabled cfg then map (\<lambda>f. (RouteBlackhole, nc_LocalEgressRouteTable (cf_Network cfg), DefaultPrefix f)) [IPv4, IPv6]
      else [])"
  by (simp add: buildSafetyRouting_def Let_def plan_key_def)

lemma safety_blackhole: "r \<in> set (rs_Routes (buildSafetyRouting cfg)) \<Longrightarrow> route_Disposition r = RouteBlackhole"
  by (auto simp: buildSafetyRouting_def Let_def split: if_splits)

lemma distinct_tagged: "distinct (map (\<lambda>p. (d, t, p)) ps) \<longleftrightarrow> distinct ps"
  by (simp add: distinct_map inj_on_def)

lemma prepared_keys_distinct:
  assumes "configuration_Validate cfg = []"
  shows "distinct (map plan_key (rs_Routes (buildPreparedRouting cfg plink)))"
proof -
  have tables: "nc_ExitRouteTable (cf_Network cfg) \<noteq> nc_LocalEgressRouteTable (cf_Network cfg)"
    using network_ok(3) [OF configuration_sections(1) [OF assms]] .
  have safe: "distinct (map plan_key (rs_Routes (buildSafetyRouting cfg)))"
    unfolding safety_keys distinct_append distinct_tagged
    using baseline_prefixes_distinct [OF assms] tables by auto
  with safety_blackhole [of _ cfg] show ?thesis
    by (auto simp: prepared_routes plan_key_def)
qed

lemma rules_valid:
  assumes "configuration_Validate cfg = []"
  shows "f = IPv4 \<or> f = IPv6 \<Longrightarrow> rule_Validate (localEgressRule (cf_Network cfg) f) = None"
    and "f = IPv4 \<or> f = IPv6 \<Longrightarrow> link_Valid tlink \<Longrightarrow> rule_Validate (exitRule (cf_Network cfg) tlink f) = None"
proof -
  note net = network_ok [OF configuration_sections(1) [OF assms]]
  show "rule_Validate (localEgressRule (cf_Network cfg) f) = None" if "f = IPv4 \<or> f = IPv6"
    using that net(2,5,7) by (auto simp: rule_Validate_def localEgressRule_def LocalEgressPacketMarkMask_def)
  show "rule_Validate (exitRule (cf_Network cfg) tlink f) = None" if f: "f = IPv4 \<or> f = IPv6" and tlink: "link_Valid tlink"
  proof -
    have "link_Valid \<lparr>link_Index = 1, link_Name = link_Name tlink\<rparr>" "link_Name tlink \<noteq> []"
      using tlink by (simp_all add: link_Valid_iff)
    then have "link_Validate \<lparr>link_Index = 1, link_Name = link_Name tlink\<rparr> = None" by simp
    then show ?thesis
      using f net(1,4) \<open>link_Name tlink \<noteq> []\<close> unfolding rule_Validate_def exitRule_def rule.select_convs
      by (auto simp del: link_Validate_None)
  qed
qed

lemma plan_rules_accepted:
  assumes "configuration_Validate cfg = []" "link_Valid tlink"
  shows "rules_accepted (routingOwnership cfg) True
    (rs_Rules (buildSafetyRouting cfg) @ map (exitRule (cf_Network cfg) tlink) [IPv4, IPv6])"
    "rules_accepted (routingOwnership cfg) True (rs_Rules (buildSafetyRouting cfg))"
proof -
  note net = network_ok [OF configuration_sections(1) [OF assms(1)]]
  have "rules_accepted (routingOwnership cfg) True
      (map (localEgressRule (cf_Network cfg)) [IPv4, IPv6] @ map (exitRule (cf_Network cfg) tlink) [IPv4, IPv6])"
    using net(6) rules_valid [OF assms(1)] assms(2)
    by (auto simp: rules_accepted_def ruleKey_iff routingOwnership_def localEgressRule_def exitRule_def)
  then show "rules_accepted (routingOwnership cfg) True
    (rs_Rules (buildSafetyRouting cfg) @ map (exitRule (cf_Network cfg) tlink) [IPv4, IPv6])"
    "rules_accepted (routingOwnership cfg) True (rs_Rules (buildSafetyRouting cfg))"
    by (auto simp: rules_accepted_def buildSafetyRouting_def Let_def)
qed

lemma failClosed_accepted:
  assumes "configuration_Validate cfg = []"
  shows "state_accepted (routingOwnership cfg) True (buildFailClosedRouting cfg tlink plink)"
proof -
  have "routes_accepted (routingOwnership cfg) True (rs_Routes (buildPreparedRouting cfg plink))"
    using prepared_routes_valid [OF assms] plan_keys_distinct [OF _ prepared_keys_distinct [OF assms, of plink]]
    by (auto simp: routes_accepted_def)
  moreover have "rules_accepted (routingOwnership cfg) True (rs_Rules (buildFailClosedRouting cfg tlink plink))"
    using plan_rules_accepted [OF assms, of tlink] plan_rules_accepted(2) [OF assms, of "\<lparr>link_Index = 1, link_Name = ''a''\<rparr>"]
    by (auto simp: failClosed_routes link_Valid_iff control_byte_def)
  ultimately show ?thesis by (simp add: state_accepted_def failClosed_routes)
qed

lemma desired_routes:
  "rs_Routes (buildDesiredRouting cfg sn act) =
     rs_Routes (buildPreparedRouting cfg (sn_ProxyTunnelLink sn)) @ exit_actives cfg sn act"
  "rs_Rules (buildDesiredRouting cfg sn act) =
     rs_Rules (buildSafetyRouting cfg) @ map (exitRule (cf_Network cfg) (sn_TailnetLink sn)) [IPv4, IPv6]"
  by (simp_all add: buildDesiredRouting_def Let_def exit_actives_def prepared_routes)

lemma dnsRoutes_concat:
  "concat (map (dnsRoutes net sn) paths) =
     map (\<lambda>path. activeRoute net (FamilyOfAddress (addr_Unmap (dns_NameServer path))) (nc_ExitRouteTable net) (host_of path)
             (dns_Gateway path) (dns_Link path) (dns_OnLink path)) (filter (\<lambda>path. \<not> covered sn path) paths)"
  by (induction paths) (simp_all add: dnsRoutes_def host_of_def covered_def Let_def)

lemma plannable_facts:
  assumes "plannable cfg sn request"
  shows "configuration_Validate cfg = []" "link_Valid (sn_TailnetLink sn)" "link_Valid (sn_ProxyTunnelLink sn)"
    "dp_Prefix ` set (sn_AdvertisedRoutes sn) = set (tnc_AdvertiseRoutes (cf_Tailnet cfg))"
    "distinct (map dp_Prefix (sn_AdvertisedRoutes sn))"
    "\<forall>q \<in> set (sn_AdvertisedRoutes sn). projection_Validate q = None"
    "\<forall>path \<in> set (sn_DNSEgressPaths sn). path_usable path \<and> link_Valid (dns_Link path) \<and> path_gateway_check path = []"
    "distinct (map (\<lambda>path. addr_Unmap (dns_NameServer path)) (sn_DNSEgressPaths sn))"
    "\<forall>path \<in> set (sn_DNSEgressPaths sn). covered sn path \<or>
        host_of path \<noteq> nc_TailnetIPv4Prefix (cf_Network cfg) \<and> host_of path \<noteq> nc_TailnetIPv6Prefix (cf_Network cfg)"
proof -
  from assms have s: "snapshot_routes_check sn request = []" "snapshot_paths_check sn request = []"
      "link_Valid (sn_TailnetLink sn)" "link_Valid (sn_ProxyTunnelLink sn)" "configuration_Validate cfg = []"
      "dq_AdvertisedPrefixes request = tnc_AdvertiseRoutes (cf_Tailnet cfg)"
    by (simp_all add: plannable_def validated_def snapshot_Nil_iff)
  show "configuration_Validate cfg = []" "link_Valid (sn_TailnetLink sn)" "link_Valid (sn_ProxyTunnelLink sn)" by fact+
  show "dp_Prefix ` set (sn_AdvertisedRoutes sn) = set (tnc_AdvertiseRoutes (cf_Tailnet cfg))"
    "distinct (map dp_Prefix (sn_AdvertisedRoutes sn))"
    "\<forall>q \<in> set (sn_AdvertisedRoutes sn). projection_Validate q = None"
    using s(1,6) by (simp_all add: snapshot_routes_check_Nil_iff)
  show "\<forall>path \<in> set (sn_DNSEgressPaths sn). path_usable path \<and> link_Valid (dns_Link path) \<and> path_gateway_check path = []"
    "distinct (map (\<lambda>path. addr_Unmap (dns_NameServer path)) (sn_DNSEgressPaths sn))"
    using s(2) by (simp_all add: snapshot_paths_check_Nil_iff)
  show "\<forall>path \<in> set (sn_DNSEgressPaths sn). covered sn path \<or>
        host_of path \<noteq> nc_TailnetIPv4Prefix (cf_Network cfg) \<and> host_of path \<noteq> nc_TailnetIPv6Prefix (cf_Network cfg)"
    using assms by (auto simp: plannable_def nameserver_clash_def list_ex_iff)
qed

lemma projection_gateway:
  assumes "projection_Validate q = None"
  shows "if addr_IsValid (dp_Gateway q)
         then addr_Zone (addr_Unmap (dp_Gateway q)) = [] \<and> FamilyOfAddress (addr_Unmap (dp_Gateway q)) = FamilyOfPrefix (dp_Prefix q)
         else \<not> dp_OnLink q"
    and "validMaskedPrefix (dp_Prefix q) (FamilyOfPrefix (dp_Prefix q))"
  using assms by (auto simp: projection_Validate_def validMaskedPrefix_def Let_def split: if_splits option.splits)

lemma path_gateway:
  assumes "path_gateway_check path = []"
  shows "if addr_IsValid (dns_Gateway path)
         then addr_Zone (addr_Unmap (dns_Gateway path)) = [] \<and>
              FamilyOfAddress (addr_Unmap (dns_Gateway path)) = FamilyOfAddress (addr_Unmap (dns_NameServer path))
         else \<not> dns_OnLink path"
  using assms by (auto simp: path_gateway_check_def Let_def split: if_splits)

lemma exit_actives_valid:
  assumes "plannable cfg sn request" "r \<in> set (exit_actives cfg sn act)"
  shows "route_Validate r = None" "route_Table r \<in> set (own_Tables (routingOwnership cfg))"
proof -
  note pf = plannable_facts [OF assms(1)]
  note net = network_ok [OF configuration_sections(1) [OF pf(1)]]
  have pos: "0 < nc_ExitRouteTable (cf_Network cfg)" "0 < nc_ActiveRouteMetric (cf_Network cfg)" using net(1,9) by auto
  have fam: "FamilyOfPrefix p = IPv4 \<or> FamilyOfPrefix p = IPv6" "FamilyOfAddress a = IPv4 \<or> FamilyOfAddress a = IPv6" for p a
    by (simp_all add: FamilyOfPrefix_def FamilyOfAddress_cases)
  note act = activeRoute_valid [where network = "cf_Network cfg" and table = "nc_ExitRouteTable (cf_Network cfg)", OF _ _ pos(1) _ pos(2) net(10)]
  from assms(2) consider (def) f where "f = IPv4 \<or> f = IPv6"
      "r = activeRoute (cf_Network cfg) f (nc_ExitRouteTable (cf_Network cfg)) (DefaultPrefix f) AddrZero (sn_ProxyTunnelLink sn) False"
    | (tail) f p where "f = IPv4 \<and> p = nc_TailnetIPv4Prefix (cf_Network cfg) \<or> f = IPv6 \<and> p = nc_TailnetIPv6Prefix (cf_Network cfg)"
      "r = activeRoute (cf_Network cfg) f (nc_ExitRouteTable (cf_Network cfg)) p AddrZero (sn_TailnetLink sn) False"
    | (proj) q where "q \<in> set (sn_AdvertisedRoutes sn)"
      "r = activeRoute (cf_Network cfg) (FamilyOfPrefix (dp_Prefix q)) (nc_ExitRouteTable (cf_Network cfg)) (dp_Prefix q)
             (dp_Gateway q) (dp_Link q) (dp_OnLink q)"
    | (dns) path where "path \<in> set (sn_DNSEgressPaths sn)"
      "r = activeRoute (cf_Network cfg) (FamilyOfAddress (addr_Unmap (dns_NameServer path))) (nc_ExitRouteTable (cf_Network cfg)) (host_of path)
             (dns_Gateway path) (dns_Link path) (dns_OnLink path)"
    unfolding exit_actives_def dnsRoutes_concat exitDefaults_def by (auto split: if_splits)
  then have "route_Validate r = None \<and> route_Table r = nc_ExitRouteTable (cf_Network cfg)"
  proof cases
    case def
    then show ?thesis using pf(3) by (auto intro!: act)
  next
    case tail
    then show ?thesis using pf(2) net(14,15) by (auto intro!: act)
  next
    case proj
    then show ?thesis
      using pf(6) projection_gateway [of q] projection_link [of q] fam(1) by (auto intro!: act simp del: FamilyOfAddress_Unmap)
  next
    case dns
    then have "validMaskedPrefix (host_of path) (FamilyOfAddress (addr_Unmap (dns_NameServer path)))"
      using pf(7) host_prefix(1) by (simp add: path_usable_def host_of_def del: FamilyOfAddress_Unmap)
    with dns show ?thesis
      using pf(7) path_gateway [of path] fam(2) by (auto intro!: act simp del: FamilyOfAddress_Unmap)
  qed
  then show "route_Validate r = None" "route_Table r \<in> set (own_Tables (routingOwnership cfg))"
    by (simp_all add: routingOwnership_def)
qed

lemma exit_actives_keys:
  "map plan_key (exit_actives cfg sn act) =
     map (\<lambda>p. (RouteUnicast, nc_ExitRouteTable (cf_Network cfg), p))
       (map DefaultPrefix (filter (exit_Contains act) [IPv4, IPv6]) @
        [nc_TailnetIPv4Prefix (cf_Network cfg), nc_TailnetIPv6Prefix (cf_Network cfg)] @
        map dp_Prefix (sn_AdvertisedRoutes sn) @
        map host_of (filter (\<lambda>path. \<not> covered sn path) (sn_DNSEgressPaths sn)))"
  unfolding exit_actives_def dnsRoutes_concat exitDefaults_def map_append map_map comp_def plan_key_def route_sel
  by simp

lemma host_of_facts:
  assumes "plannable cfg sn request" "path \<in> set (sn_DNSEgressPaths sn)" "\<not> covered sn path"
  shows "host_of path \<noteq> DefaultPrefix f" "host_of path \<noteq> nc_TailnetIPv4Prefix (cf_Network cfg)"
    "host_of path \<noteq> nc_TailnetIPv6Prefix (cf_Network cfg)" "host_of path \<notin> dp_Prefix ` set (sn_AdvertisedRoutes sn)"
    "prefix_Addr (host_of path) = addr_Unmap (dns_NameServer path)"
proof -
  note pf = plannable_facts [OF assms(1)]
  from pf(7) assms(2) have usable: "addr_IsValid (addr_Unmap (dns_NameServer path))" "addr_Zone (addr_Unmap (dns_NameServer path)) = []"
    by (auto simp: path_usable_def)
  note host = host_prefix [OF usable, folded host_of_def]
  show "host_of path \<noteq> DefaultPrefix f" using host(4) nondefault_neq by blast
  show "host_of path \<noteq> nc_TailnetIPv4Prefix (cf_Network cfg)" "host_of path \<noteq> nc_TailnetIPv6Prefix (cf_Network cfg)"
    using pf(9) assms(2,3) by blast+
  show "host_of path \<notin> dp_Prefix ` set (sn_AdvertisedRoutes sn)"
    using assms(3) host(2) by (auto simp: covered_def list_ex_iff)
  show "prefix_Addr (host_of path) = addr_Unmap (dns_NameServer path)" by (rule host(3))
qed

lemma exit_active_prefixes_distinct:
  assumes "plannable cfg sn request"
  shows "distinct (map DefaultPrefix (filter (exit_Contains act) [IPv4, IPv6]) @
        [nc_TailnetIPv4Prefix (cf_Network cfg), nc_TailnetIPv6Prefix (cf_Network cfg)] @
        map dp_Prefix (sn_AdvertisedRoutes sn) @
        map host_of (filter (\<lambda>path. \<not> covered sn path) (sn_DNSEgressPaths sn)))"
proof -
  note pf = plannable_facts [OF assms]
  note base = baseline_prefixes_distinct [OF pf(1)]
  let ?hosts = "map host_of (filter (\<lambda>path. \<not> covered sn path) (sn_DNSEgressPaths sn))"
  have proj: "set (map dp_Prefix (sn_AdvertisedRoutes sn)) = set (tnc_AdvertiseRoutes (cf_Tailnet cfg))"
    using pf(4) by simp
  have "inj_on host_of (set (filter (\<lambda>path. \<not> covered sn path) (sn_DNSEgressPaths sn)))"
  proof (rule inj_onI)
    fix p q
    assume pq: "p \<in> set (filter (\<lambda>path. \<not> covered sn path) (sn_DNSEgressPaths sn))"
      "q \<in> set (filter (\<lambda>path. \<not> covered sn path) (sn_DNSEgressPaths sn))" "host_of p = host_of q"
    then have "addr_Unmap (dns_NameServer p) = addr_Unmap (dns_NameServer q)"
      using host_of_facts(5) [OF assms, of p] host_of_facts(5) [OF assms, of q] by simp
    with pf(8) pq show "p = q" by (auto simp: distinct_map inj_on_def)
  qed
  then have hosts: "distinct ?hosts"
    using pf(8) by (simp add: distinct_map)
  have defaults: "distinct (map DefaultPrefix (filter (exit_Contains act) [IPv4, IPv6]))"
    "set (map DefaultPrefix (filter (exit_Contains act) [IPv4, IPv6])) \<subseteq> {DefaultPrefix IPv4, DefaultPrefix IPv6}"
    by auto
  have sep: "set ?hosts \<inter> ({DefaultPrefix IPv4, DefaultPrefix IPv6, nc_TailnetIPv4Prefix (cf_Network cfg),
      nc_TailnetIPv6Prefix (cf_Network cfg)} \<union> set (map dp_Prefix (sn_AdvertisedRoutes sn))) = {}"
  proof -
    have "h \<noteq> DefaultPrefix IPv4 \<and> h \<noteq> DefaultPrefix IPv6 \<and> h \<noteq> nc_TailnetIPv4Prefix (cf_Network cfg) \<and>
        h \<noteq> nc_TailnetIPv6Prefix (cf_Network cfg) \<and> h \<notin> dp_Prefix ` set (sn_AdvertisedRoutes sn)" if "h \<in> set ?hosts" for h
    proof -
      from that obtain path where path: "path \<in> set (sn_DNSEgressPaths sn)" "\<not> covered sn path" "h = host_of path" by auto
      show ?thesis
        unfolding path(3) using host_of_facts(1-4) [OF assms path(1,2)] by simp
    qed
    then show ?thesis unfolding set_map [of dp_Prefix] by blast
  qed
  have tails: "distinct ([nc_TailnetIPv4Prefix (cf_Network cfg), nc_TailnetIPv6Prefix (cf_Network cfg)] @
      map dp_Prefix (sn_AdvertisedRoutes sn))"
    using base proj pf(5) by auto
  let ?defaults = "map DefaultPrefix (filter (exit_Contains act) [IPv4, IPv6])"
    and ?tails = "[nc_TailnetIPv4Prefix (cf_Network cfg), nc_TailnetIPv6Prefix (cf_Network cfg)] @ map dp_Prefix (sn_AdvertisedRoutes sn)"
  have "{DefaultPrefix IPv4, DefaultPrefix IPv6} \<inter> set ?tails = {}"
    unfolding set_append proj using base by auto
  then have "set ?defaults \<inter> (set ?tails \<union> set ?hosts) = {}" using defaults(2) sep by blast
  moreover have "set ?tails \<inter> set ?hosts = {}" using sep unfolding set_append by auto
  ultimately have "distinct (?defaults @ ?tails @ ?hosts)"
    using defaults(1) hosts tails by (simp only: distinct_append set_append simp_thms)
  then show ?thesis by (simp only: append_assoc)
qed

lemma desired_accepted:
  assumes "plannable cfg sn request"
  shows "state_accepted (routingOwnership cfg) True (buildDesiredRouting cfg sn act)"
proof -
  note pf = plannable_facts [OF assms]
  let ?prep = "rs_Routes (buildPreparedRouting cfg (sn_ProxyTunnelLink sn))"
  have tables: "nc_ExitRouteTable (cf_Network cfg) \<noteq> nc_LocalEgressRouteTable (cf_Network cfg)"
    using network_ok(3) [OF configuration_sections(1) [OF pf(1)]] .
  have "distinct (map plan_key (exit_actives cfg sn act))"
    unfolding exit_actives_keys distinct_tagged by (rule exit_active_prefixes_distinct [OF assms])
  moreover have "set (map plan_key ?prep) \<inter> set (map plan_key (exit_actives cfg sn act)) = {}"
    unfolding exit_actives_keys using tables safety_blackhole [of _ cfg]
    by (auto simp: prepared_routes plan_key_def)
  ultimately have keys: "distinct (map plan_key (?prep @ exit_actives cfg sn act))"
    using prepared_keys_distinct [OF pf(1), of "sn_ProxyTunnelLink sn"] by simp
  have valid: "\<forall>r \<in> set (?prep @ exit_actives cfg sn act). route_Validate r = None \<and>
      route_Table r \<in> set (own_Tables (routingOwnership cfg))"
    using prepared_routes_valid [OF pf(1), of _ "sn_ProxyTunnelLink sn"] exit_actives_valid [OF assms, of _ act]
    unfolding set_append ball_Un by blast
  then have "distinct (map routeKey (?prep @ exit_actives cfg sn act))"
    using plan_keys_distinct [OF _ keys] by blast
  with valid have "routes_accepted (routingOwnership cfg) True (?prep @ exit_actives cfg sn act)"
    by (simp only: routes_accepted_def if_True)
  then show ?thesis
    using plan_rules_accepted(1) [OF pf(1,2)] by (simp add: state_accepted_def desired_routes)
qed

text \<open>With a clash two routes of the plan have one identity.\<close>

lemma clash_rejected:
  assumes "validated cfg sn request" "nameserver_clash cfg sn"
  shows "\<not> state_accepted (routingOwnership cfg) True (buildDesiredRouting cfg sn act)"
proof
  assume "state_accepted (routingOwnership cfg) True (buildDesiredRouting cfg sn act)"
  then have dist: "distinct (map routeKey (exit_actives cfg sn act))"
    by (simp add: state_accepted_def routes_accepted_def desired_routes)
  let ?net = "cf_Network cfg"
  let ?dns = "\<lambda>path. activeRoute ?net (FamilyOfAddress (addr_Unmap (dns_NameServer path))) (nc_ExitRouteTable ?net) (host_of path)
     (dns_Gateway path) (dns_Link path) (dns_OnLink path)"
  from assms(1) have ok: "configuration_Validate cfg = []" "snapshot_paths_check sn request = []"
    by (simp_all add: validated_def snapshot_Nil_iff)
  note net = network_ok [OF configuration_sections(1) [OF ok(1)]]
  from assms(2) obtain path f p where path: "path \<in> set (sn_DNSEgressPaths sn)" "\<not> covered sn path" "host_of path = p"
    and p: "f = IPv4 \<and> p = nc_TailnetIPv4Prefix ?net \<or> f = IPv6 \<and> p = nc_TailnetIPv6Prefix ?net"
    by (auto simp: nameserver_clash_def list_ex_iff)
  from ok(2) path(1) have "path_usable path" by (simp add: snapshot_paths_check_Nil_iff)
  then have "validMaskedPrefix p (FamilyOfAddress (addr_Unmap (dns_NameServer path)))"
    using host_prefix(1) path(3) by (auto simp: path_usable_def host_of_def simp del: FamilyOfAddress_Unmap)
  moreover have "validMaskedPrefix p f" using p net(14,15) by auto
  ultimately have "FamilyOfAddress (addr_Unmap (dns_NameServer path)) = f" by (simp add: validMaskedPrefix_def)
  with path(3) have "routeKey (?dns path) = routeKey (activeRoute ?net f (nc_ExitRouteTable ?net) p AddrZero (sn_TailnetLink sn) False)"
    by (simp only: routeKey_def route_sel)
  moreover have "routeKey (?dns path) \<in> routeKey ` set (concat (map (dnsRoutes ?net sn) (sn_DNSEgressPaths sn)))"
    unfolding dnsRoutes_concat using path(1,2) by auto
  ultimately show False using dist p unfolding exit_actives_def map_append distinct_append by auto
qed

section \<open>Classified transitions\<close>

lemma isActive_iff:
  "isActiveExitDefaultRoute r network \<longleftrightarrow>
     (route_Family r = IPv4 \<or> route_Family r = IPv6) \<and> route_Table r = nc_ExitRouteTable network \<and>
     route_Disposition r = RouteUnicast \<and> route_Metric r = nc_ActiveRouteMetric network \<and>
     route_Prefix r = DefaultPrefix (route_Family r)"
  by (simp add: isActiveExitDefaultRoute_def)

lemma addExitDefaultRoute_Some:
  "addExitDefaultRoute routes f = Some routes' \<longleftrightarrow>
     (f = IPv4 \<or> f = IPv6) \<and> \<not> exit_Contains routes f \<and>
     routes' = (if f = IPv4 then routes\<lparr>ex_IPv4 := True\<rparr> else routes\<lparr>ex_IPv6 := True\<rparr>)"
  by (auto simp: addExitDefaultRoute_def)

lemma exit_Contains_add:
  "f = IPv4 \<or> f = IPv6 \<Longrightarrow>
   exit_Contains (if f = IPv4 then routes\<lparr>ex_IPv4 := True\<rparr> else routes\<lparr>ex_IPv6 := True\<rparr>) g \<longleftrightarrow> exit_Contains routes g \<or> g = f"
  by (auto simp: exit_Contains_def)

lemma collectExitDefaults_Some:
  "collectExitDefaults network excluded routes rs = Some result \<longleftrightarrow>
     (\<forall>r \<in> set rs. isActiveExitDefaultRoute r network \<and> \<not> exit_Contains excluded (route_Family r) \<and>
        \<not> exit_Contains routes (route_Family r)) \<and>
     distinct (map route_Family rs) \<and>
     result = foldl (\<lambda>acc r. if route_Family r = IPv4 then acc\<lparr>ex_IPv4 := True\<rparr> else acc\<lparr>ex_IPv6 := True\<rparr>) routes rs"
proof (induction rs arbitrary: routes)
  case (Cons r rs)
  show ?case
  proof (cases "isActiveExitDefaultRoute r network \<and> \<not> exit_Contains excluded (route_Family r) \<and>
      \<not> exit_Contains routes (route_Family r)")
    case True
    let ?f = "route_Family r"
    let ?new = "if ?f = IPv4 then routes\<lparr>ex_IPv4 := True\<rparr> else routes\<lparr>ex_IPv6 := True\<rparr>"
    from True have f: "?f = IPv4 \<or> ?f = IPv6" by (simp add: isActive_iff)
    with True have add: "addExitDefaultRoute routes ?f = Some ?new"
      by (simp only: addExitDefaultRoute_Some) simp
    have "collectExitDefaults network excluded routes (r # rs) = collectExitDefaults network excluded ?new rs"
      using True add by simp
    with Cons.IH [of ?new] exit_Contains_add [OF f, of routes] True show ?thesis
      by (auto simp: image_iff)
  next
    case False
    then show ?thesis
      by (auto simp: addExitDefaultRoute_def)
  qed
qed auto

lemma foldl_exit_Contains:
  "(\<forall>r \<in> set rs. route_Family r = IPv4 \<or> route_Family r = IPv6) \<Longrightarrow>
   exit_Contains (foldl (\<lambda>acc r. if route_Family r = IPv4 then acc\<lparr>ex_IPv4 := True\<rparr> else acc\<lparr>ex_IPv6 := True\<rparr>) routes rs) g \<longleftrightarrow>
   exit_Contains routes g \<or> g \<in> route_Family ` set rs"
proof (induction rs arbitrary: routes)
  case (Cons r rs)
  then show ?case
    using exit_Contains_add [of "route_Family r" routes g] by auto
qed simp

lemma exit_Contains_None [simp]: "\<not> exit_Contains ExitNone f"
  by (simp add: exit_Contains_def ExitNone_def)

lemma image_disjoint: "A \<inter> f ` D = {} \<longleftrightarrow> (\<forall>r \<in> D. f r \<notin> A)"
  by blast

lemma classify_iff:
  "classifyExitDefaultRouteTransition changes network = (t, True) \<longleftrightarrow>
     \<not> changes_Empty changes \<and> ch_AddRules changes = [] \<and> ch_DeleteRules changes = [] \<and>
     (\<forall>r \<in> set (ch_UpsertRoutes changes) \<union> set (ch_DeleteRoutes changes). isActiveExitDefaultRoute r network) \<and>
     distinct (map route_Family (ch_UpsertRoutes changes @ ch_DeleteRoutes changes)) \<and>
     t = \<lparr>et_activationChanges = ChangesZero\<lparr>ch_UpsertRoutes := ch_UpsertRoutes changes\<rparr>,
          et_deactivationChanges = ChangesZero\<lparr>ch_DeleteRoutes := ch_DeleteRoutes changes\<rparr>\<rparr>"
proof -
  let ?up = "ch_UpsertRoutes changes" and ?del = "ch_DeleteRoutes changes"
  let ?acc = "\<lambda>rs. foldl (\<lambda>acc r. if route_Family r = IPv4 then acc\<lparr>ex_IPv4 := True\<rparr> else acc\<lparr>ex_IPv6 := True\<rparr>) ExitNone rs"
  have fam: "\<forall>r \<in> set ?up. isActiveExitDefaultRoute r network \<Longrightarrow> exit_Contains (?acc ?up) g \<longleftrightarrow> g \<in> route_Family ` set ?up" for g
    using foldl_exit_Contains [of ?up ExitNone g] by (simp add: isActive_iff)
  show ?thesis
  proof (cases "collectExitDefaults network ExitNone ExitNone ?up")
    case None
    then have "\<not> ((\<forall>r \<in> set ?up. isActiveExitDefaultRoute r network) \<and> distinct (map route_Family ?up))"
      using collectExitDefaults_Some [of network ExitNone ExitNone ?up "?acc ?up"] by auto
    with None show ?thesis by (auto simp: classifyExitDefaultRouteTransition_def)
  next
    case (Some a)
    then have up: "\<forall>r \<in> set ?up. isActiveExitDefaultRoute r network" "distinct (map route_Family ?up)" "a = ?acc ?up"
      by (simp_all add: collectExitDefaults_Some)
    have del: "(\<exists>d. collectExitDefaults network a ExitNone ?del = Some d) \<longleftrightarrow>
        (\<forall>r \<in> set ?del. isActiveExitDefaultRoute r network \<and> route_Family r \<notin> route_Family ` set ?up) \<and>
        distinct (map route_Family ?del)"
      using fam [OF up(1)] by (simp add: collectExitDefaults_Some up(3))
    have "classifyExitDefaultRouteTransition changes network = (t, True) \<longleftrightarrow>
        \<not> changes_Empty changes \<and> ch_AddRules changes = [] \<and> ch_DeleteRules changes = [] \<and>
        (\<exists>d. collectExitDefaults network a ExitNone ?del = Some d) \<and>
        t = \<lparr>et_activationChanges = ChangesZero\<lparr>ch_UpsertRoutes := ch_UpsertRoutes changes\<rparr>,
          et_deactivationChanges = ChangesZero\<lparr>ch_DeleteRoutes := ch_DeleteRoutes changes\<rparr>\<rparr>"
      using Some by (cases "collectExitDefaults network a ExitNone ?del") (auto simp: classifyExitDefaultRouteTransition_def)
    moreover have "distinct (map route_Family (?up @ ?del)) \<longleftrightarrow>
        distinct (map route_Family ?del) \<and> (\<forall>r \<in> set ?del. route_Family r \<notin> route_Family ` set ?up)"
      using up(2) by (simp only: map_append distinct_append set_map image_disjoint simp_thms)
    moreover have "(\<forall>r \<in> set ?up \<union> set ?del. isActiveExitDefaultRoute r network) \<longleftrightarrow>
        (\<forall>r \<in> set ?del. isActiveExitDefaultRoute r network)"
      using up(1) by blast
    ultimately show ?thesis
      by (simp only: del) (simp only: ball_conj_distrib conj_assoc conj_ac)
  qed
qed

lemma exitDefaults_set:
  "r \<in> set (exitDefaults network sn act) \<longleftrightarrow>
     (\<exists>f \<in> {IPv4, IPv6}. exit_Contains act f \<and>
        r = activeRoute network f (nc_ExitRouteTable network) (DefaultPrefix f) AddrZero (sn_ProxyTunnelLink sn) False)"
  by (auto simp: exitDefaults_def)

lemma exitDefaults_active: "r \<in> set (exitDefaults network sn act) \<Longrightarrow> isActiveExitDefaultRoute r network"
  unfolding exitDefaults_set isActive_iff by auto

lemma exit_Contains_families: "exit_Contains act f \<Longrightarrow> f = IPv4 \<or> f = IPv6"
  by (auto simp: exit_Contains_def split: if_splits)

lemma exit_set_eq_iff: "act = act' \<longleftrightarrow> (\<forall>f. exit_Contains act f \<longleftrightarrow> exit_Contains act' f)"
proof
  assume same: "\<forall>f. exit_Contains act f \<longleftrightarrow> exit_Contains act' f"
  from same [rule_format, of IPv4] same [rule_format, of IPv6] show "act = act'"
    by (cases act; cases act') (simp add: exit_Contains_def)
qed simp

text \<open>Two desired plans over the same snapshot share everything but their exit defaults.\<close>

lemma desired_difference:
  assumes "plannable cfg sn request" "DiffRouting (buildDesiredRouting cfg sn act') (buildDesiredRouting cfg sn act) own = Inr ch"
  shows "set (ch_UpsertRoutes ch) = set (exitDefaults (cf_Network cfg) sn act') - set (exitDefaults (cf_Network cfg) sn act)"
    "set (ch_DeleteRoutes ch) = set (exitDefaults (cf_Network cfg) sn act) - set (exitDefaults (cf_Network cfg) sn act')"
    "ch_AddRules ch = []" "ch_DeleteRules ch = []" "distinct (ch_UpsertRoutes ch)" "distinct (ch_DeleteRoutes ch)"
proof -
  let ?E = "\<lambda>a. set (exitDefaults (cf_Network cfg) sn a)" and ?R = "\<lambda>a. set (rs_Routes (buildDesiredRouting cfg sn a))"
  note sets = DiffRouting_sets [OF assms(2)]
  obtain before after where routes:
    "\<And>a. rs_Routes (buildDesiredRouting cfg sn a) = before @ exitDefaults (cf_Network cfg) sn a @ after"
    unfolding desired_routes exit_actives_def by blast
  have keys: "distinct (map routeKey (rs_Routes (buildDesiredRouting cfg sn AllExitDefaultRoutes)))"
    using desired_accepted [OF assms(1)] by (simp add: state_accepted_def routes_accepted_def)
  have all: "?E a \<subseteq> ?E AllExitDefaultRoutes" for a
    by (auto simp: exitDefaults_set AllExitDefaultRoutes_def exit_Contains_def)
  from keys have "(set before \<union> set after) \<inter> ?E AllExitDefaultRoutes = {}"
    unfolding routes distinct_map by auto
  with all have sep: "?R a - ?R b = ?E a - ?E b" for a b
    unfolding routes set_append by blast
  have sub: "?R a \<subseteq> ?R AllExitDefaultRoutes" for a
    unfolding routes set_append using all by blast
  from keys have inj: "inj_on routeKey (?R AllExitDefaultRoutes)" by (simp only: distinct_map simp_thms)
  have "routeKey r \<in> routeKey ` ?R a \<longleftrightarrow> r \<in> ?R a" if "r \<in> ?R b" for r a b
    by (rule inj_on_image_mem_iff [OF inj subsetD [OF sub that] sub])
  then have "set (ch_DeleteRoutes ch) = ?R act - ?R act'"
    unfolding sets(2) by blast
  then show "set (ch_DeleteRoutes ch) = ?E act - ?E act'" unfolding sep .
  show "set (ch_UpsertRoutes ch) = ?E act' - ?E act" unfolding sets(1) sep ..
  show "ch_AddRules ch = []" "ch_DeleteRules ch = []" using sets(3,4) by (simp_all add: desired_routes)
  show "distinct (ch_UpsertRoutes ch)" "distinct (ch_DeleteRoutes ch)" by (rule sets)+
qed

lemma exitDefaults_minus_families:
  "route_Family ` (set (exitDefaults network sn a) - set (exitDefaults network sn b)) =
     {f. exit_Contains a f \<and> \<not> exit_Contains b f}"
  "inj_on route_Family (set (exitDefaults network sn a) \<union> set (exitDefaults network sn b))"
proof -
  have r: "r \<in> set (exitDefaults network sn c) \<longleftrightarrow> exit_Contains c (route_Family r) \<and>
      r = activeRoute network (route_Family r) (nc_ExitRouteTable network) (DefaultPrefix (route_Family r)) AddrZero
            (sn_ProxyTunnelLink sn) False" for r c
    using exit_Contains_families [of c "route_Family r"] unfolding exitDefaults_set by force
  show "route_Family ` (set (exitDefaults network sn a) - set (exitDefaults network sn b)) =
     {f. exit_Contains a f \<and> \<not> exit_Contains b f}"
  proof (rule set_eqI)
    fix f
    let ?r = "activeRoute network f (nc_ExitRouteTable network) (DefaultPrefix f) AddrZero (sn_ProxyTunnelLink sn) False"
    have "?r \<in> set (exitDefaults network sn c) \<longleftrightarrow> exit_Contains c f" for c using r [of ?r c] by simp
    then show "f \<in> route_Family ` (set (exitDefaults network sn a) - set (exitDefaults network sn b)) \<longleftrightarrow>
        f \<in> {f. exit_Contains a f \<and> \<not> exit_Contains b f}"
      using r by (auto simp: image_iff intro!: bexI [of _ ?r])
  qed
  show "inj_on route_Family (set (exitDefaults network sn a) \<union> set (exitDefaults network sn b))"
    using r unfolding inj_on_def by (metis Un_iff)
qed

text \<open>A unicast route of a plan is in one of the two owned tables, and the baseline has the default blackhole of its family there.\<close>

lemma unicast_in_plan:
  assumes "r \<in> set (rs_Routes (buildDesiredRouting cfg sn act)) \<union> set (rs_Routes (buildFailClosedRouting cfg tlink plink))"
    "route_Disposition r = RouteUnicast"
  shows "route_Family r = IPv4 \<or> route_Family r = IPv6" "route_Metric r = nc_ActiveRouteMetric (cf_Network cfg)"
    "route_Table r = nc_ExitRouteTable (cf_Network cfg) \<or>
     route_Table r = nc_LocalEgressRouteTable (cf_Network cfg) \<and> local_enabled cfg"
proof -
  have prep: "(route_Family r = IPv4 \<or> route_Family r = IPv6) \<and> route_Metric r = nc_ActiveRouteMetric (cf_Network cfg) \<and>
      route_Table r = nc_LocalEgressRouteTable (cf_Network cfg) \<and> local_enabled cfg"
    if "r \<in> set (rs_Routes (buildPreparedRouting cfg l))" for l
    using that assms(2) safety_blackhole [of r cfg] by (auto simp: prepared_routes split: if_splits)
  have active: "(route_Family r = IPv4 \<or> route_Family r = IPv6) \<and> route_Metric r = nc_ActiveRouteMetric (cf_Network cfg) \<and>
      route_Table r = nc_ExitRouteTable (cf_Network cfg)" if "r \<in> set (exit_actives cfg sn act)"
    using that unfolding exit_actives_def dnsRoutes_concat exitDefaults_def
    by (auto simp: FamilyOfPrefix_def FamilyOfAddress_def split: if_splits)
  from assms(1) have "(route_Family r = IPv4 \<or> route_Family r = IPv6) \<and> route_Metric r = nc_ActiveRouteMetric (cf_Network cfg) \<and>
     (route_Table r = nc_ExitRouteTable (cf_Network cfg) \<or> route_Table r = nc_LocalEgressRouteTable (cf_Network cfg) \<and> local_enabled cfg)"
    unfolding desired_routes failClosed_routes set_append using prep active by blast
  then show "route_Family r = IPv4 \<or> route_Family r = IPv6" "route_Metric r = nc_ActiveRouteMetric (cf_Network cfg)"
    "route_Table r = nc_ExitRouteTable (cf_Network cfg) \<or>
     route_Table r = nc_LocalEgressRouteTable (cf_Network cfg) \<and> local_enabled cfg" by blast+
qed

lemma default_blackhole:
  assumes "f = IPv4 \<or> f = IPv6"
    "table = nc_ExitRouteTable (cf_Network cfg) \<or> table = nc_LocalEgressRouteTable (cf_Network cfg) \<and> local_enabled cfg"
  shows "blackholeRoute f table (DefaultPrefix f) (nc_FailClosedRouteMetric (cf_Network cfg)) \<in> set (rs_Routes (buildSafetyRouting cfg))"
  using assms by (auto simp: buildSafetyRouting_def Let_def)

section \<open>Properties\<close>

text \<open>
  C37: which plans the diff accepts. For a valid configuration, a valid snapshot and any observed state the diff can read, the
  fail-closed plan always has a change set in the configured ownership, whichever links are current. The desired plan has one
  exactly when no nameserver outside the advertised prefixes is the whole of a Tailnet prefix, whichever exit
  defaults are active: validation does not exclude that collision, and with it every reconciliation fails.
\<close>

theorem plans_diffable:
  assumes "validated cfg snapshot request" "state_accepted (routingOwnership cfg) False observed"
  shows "(\<exists>changes. DiffRouting (buildFailClosedRouting cfg tailnetLink proxyTunnelLink) observed (routingOwnership cfg) = Inr changes) \<and>
     ((\<exists>changes. DiffRouting (buildDesiredRouting cfg snapshot active) observed (routingOwnership cfg) = Inr changes) \<longleftrightarrow>
       \<not> nameserver_clash cfg snapshot)"
proof -
  have cfg: "configuration_Validate cfg = []" using assms(1) by (simp add: validated_def)
  have "state_accepted (routingOwnership cfg) True (buildDesiredRouting cfg snapshot active) \<longleftrightarrow> \<not> nameserver_clash cfg snapshot"
    using desired_accepted [of cfg snapshot request active] clash_rejected [OF assms(1)] assms(1) by (auto simp: plannable_def)
  then show ?thesis
    using failClosed_accepted [OF cfg, of tailnetLink proxyTunnelLink] routingOwnership_valid [OF cfg] assms(2)
    by (simp add: DiffRouting_Inr_iff)
qed

text \<open>
  C36: every forwarding route of a plan is backed by a blackhole. The safety baseline is part of every plan; each unicast
  route the planner adds has a blackhole of that baseline in the same table and family, with a worse metric,
  for the same prefix or for the default prefix; and the fail-closed plan forwards nothing in the exit table.
\<close>

theorem plans_fail_closed:
  assumes "configuration_Validate cfg = []"
  shows "set (rs_Routes (buildSafetyRouting cfg)) \<subseteq>
           set (rs_Routes (buildFailClosedRouting cfg tailnetLink proxyTunnelLink)) \<inter>
           set (rs_Routes (buildDesiredRouting cfg snapshot active)) \<and>
         (\<forall>r \<in> set (rs_Routes (buildDesiredRouting cfg snapshot active)) \<union>
               set (rs_Routes (buildFailClosedRouting cfg tailnetLink proxyTunnelLink)).
            route_Disposition r = RouteUnicast \<longrightarrow>
            (\<exists>b \<in> set (rs_Routes (buildSafetyRouting cfg)). route_Disposition b = RouteBlackhole \<and>
               route_Table b = route_Table r \<and> route_Family b = route_Family r \<and> route_Metric r < route_Metric b \<and>
               (route_Prefix b = route_Prefix r \<or> route_Prefix b = DefaultPrefix (route_Family r)))) \<and>
         (\<forall>r \<in> set (rs_Routes (buildFailClosedRouting cfg tailnetLink proxyTunnelLink)).
            route_Table r = nc_ExitRouteTable (cf_Network cfg) \<longrightarrow> route_Disposition r = RouteBlackhole)"
proof (intro conjI ballI impI)
  show "set (rs_Routes (buildSafetyRouting cfg)) \<subseteq>
           set (rs_Routes (buildFailClosedRouting cfg tailnetLink proxyTunnelLink)) \<inter>
           set (rs_Routes (buildDesiredRouting cfg snapshot active))"
    unfolding failClosed_routes desired_routes prepared_routes by auto
  fix r
  assume r: "r \<in> set (rs_Routes (buildDesiredRouting cfg snapshot active)) \<union>
               set (rs_Routes (buildFailClosedRouting cfg tailnetLink proxyTunnelLink))" "route_Disposition r = RouteUnicast"
  show "\<exists>b \<in> set (rs_Routes (buildSafetyRouting cfg)). route_Disposition b = RouteBlackhole \<and>
               route_Table b = route_Table r \<and> route_Family b = route_Family r \<and> route_Metric r < route_Metric b \<and>
               (route_Prefix b = route_Prefix r \<or> route_Prefix b = DefaultPrefix (route_Family r))"
    by (rule bexI [OF _ default_blackhole [OF unicast_in_plan(1,3) [OF r]]])
      (use unicast_in_plan [OF r] network_ok(13) [OF configuration_sections(1) [OF assms]] in simp)
next
  fix r
  assume r: "r \<in> set (rs_Routes (buildFailClosedRouting cfg tailnetLink proxyTunnelLink))"
    "route_Table r = nc_ExitRouteTable (cf_Network cfg)"
  then show "route_Disposition r = RouteBlackhole"
    using network_ok(3) [OF configuration_sections(1) [OF assms]] safety_blackhole [of r cfg]
    by (auto simp: failClosed_routes prepared_routes split: if_splits)
qed

text \<open>
  C38: a change of the active exit defaults alone is always recognised as an isolated transition. Between two desired
  plans over the same snapshot that differ in the active set, the classification succeeds, activates exactly the
  families gained and deactivates exactly the families lost, and touches nothing else.
\<close>

theorem exit_transition_complete:
  assumes "plannable cfg snapshot request" "active \<noteq> active'"
    and "DiffRouting (buildDesiredRouting cfg snapshot active') (buildDesiredRouting cfg snapshot active)
           (routingOwnership cfg) = Inr changes"
  shows "\<exists>transition. classifyExitDefaultRouteTransition changes (cf_Network cfg) = (transition, True) \<and>
     route_Family ` set (ch_UpsertRoutes (et_activationChanges transition)) =
       {f. exit_Contains active' f \<and> \<not> exit_Contains active f} \<and>
     route_Family ` set (ch_DeleteRoutes (et_deactivationChanges transition)) =
       {f. exit_Contains active f \<and> \<not> exit_Contains active' f} \<and>
     et_activationChanges transition = ChangesZero\<lparr>ch_UpsertRoutes := ch_UpsertRoutes changes\<rparr> \<and>
     et_deactivationChanges transition = ChangesZero\<lparr>ch_DeleteRoutes := ch_DeleteRoutes changes\<rparr>"
proof -
  let ?E = "\<lambda>a. set (exitDefaults (cf_Network cfg) snapshot a)"
  note d = desired_difference [OF assms(1,3)]
  note fam = exitDefaults_minus_families [of "cf_Network cfg" snapshot]
  have inj: "inj_on route_Family (set (ch_UpsertRoutes changes) \<union> set (ch_DeleteRoutes changes))"
    unfolding d(1,2) by (rule inj_on_subset [OF fam(2) [of active active']]) blast
  have "set (ch_UpsertRoutes changes) \<inter> set (ch_DeleteRoutes changes) = {}" unfolding d(1,2) by blast
  with d(5,6) inj have "distinct (map route_Family (ch_UpsertRoutes changes @ ch_DeleteRoutes changes))"
    by (simp only: distinct_map distinct_append set_append simp_thms)
  moreover have "\<forall>r \<in> set (ch_UpsertRoutes changes) \<union> set (ch_DeleteRoutes changes). isActiveExitDefaultRoute r (cf_Network cfg)"
    unfolding d(1,2) using exitDefaults_active by blast
  moreover have "\<not> changes_Empty changes"
  proof -
    from assms(2) obtain f where "exit_Contains active f \<noteq> exit_Contains active' f" by (auto simp: exit_set_eq_iff)
    then have "route_Family ` set (ch_UpsertRoutes changes) \<noteq> {} \<or> route_Family ` set (ch_DeleteRoutes changes) \<noteq> {}"
      unfolding d(1,2) fam(1) by blast
    then show ?thesis by (auto simp: ChangesZero_def)
  qed
  ultimately have "classifyExitDefaultRouteTransition changes (cf_Network cfg) =
      (\<lparr>et_activationChanges = ChangesZero\<lparr>ch_UpsertRoutes := ch_UpsertRoutes changes\<rparr>,
        et_deactivationChanges = ChangesZero\<lparr>ch_DeleteRoutes := ch_DeleteRoutes changes\<rparr>\<rparr>, True)"
    unfolding classify_iff using d(3,4) by blast
  then show ?thesis
    using fam(1) [of active' active, folded d(1)] fam(1) [of active active', folded d(2)] by simp
qed

section \<open>Witnesses\<close>

definition example_plan_request :: discovery_request where
  "example_plan_request =
     example_request\<lparr>dq_AdvertisedPrefixes := tnc_AdvertiseRoutes (cf_Tailnet example_configuration)\<rparr>"

lemma example_plannable: "plannable example_configuration example_snapshot example_plan_request"
  by code_simp

text \<open>A gateway whose Tailnet prefix is the address of its nameserver: all of it is valid, and the plan is refused.\<close>

definition clashing_configuration :: configuration where
  "clashing_configuration = example_configuration
     \<lparr>cf_Network := (cf_Network example_configuration)\<lparr>nc_TailnetIPv4Prefix := PrefixFrom (Addr4 0x01020304) 32\<rparr>\<rparr>"

definition clashing_snapshot :: network_snapshot where
  "clashing_snapshot = example_snapshot
     \<lparr>sn_DNSEgressPaths := map (\<lambda>path. path\<lparr>dns_NameServer := Addr4 0x01020304\<rparr>) (sn_DNSEgressPaths example_snapshot)\<rparr>"

lemma clashing_validated:
  "validated clashing_configuration clashing_snapshot (example_plan_request\<lparr>dq_NameServers := [Addr4 0x01020304]\<rparr>)"
  "nameserver_clash clashing_configuration clashing_snapshot"
  by code_simp+

lemma plans_diffable_witness:
  "(\<exists>changes. DiffRouting (buildDesiredRouting example_configuration example_snapshot AllExitDefaultRoutes)
     \<lparr>rs_Routes = [], rs_Rules = []\<rparr> (routingOwnership example_configuration) = Inr changes) \<and>
   \<not> (\<exists>changes. DiffRouting (buildDesiredRouting clashing_configuration clashing_snapshot AllExitDefaultRoutes)
     \<lparr>rs_Routes = [], rs_Rules = []\<rparr> (routingOwnership clashing_configuration) = Inr changes)"
proof -
  have empty: "state_accepted own False \<lparr>rs_Routes = [], rs_Rules = []\<rparr>" for own
    by (simp add: state_accepted_def routes_accepted_def rules_accepted_def)
  have "validated example_configuration example_snapshot example_plan_request" "\<not> nameserver_clash example_configuration example_snapshot"
    using example_plannable by (simp_all add: plannable_def)
  then show ?thesis
    using plans_diffable [OF _ empty] clashing_validated by blast
qed

lemma plans_fail_closed_witness:
  "route_Disposition ` {r \<in> set (rs_Routes (buildFailClosedRouting example_configuration LinkZero LinkZero)).
       route_Table r = nc_ExitRouteTable (cf_Network example_configuration)} \<subseteq> {RouteBlackhole} \<and>
   set (rs_Routes (buildSafetyRouting example_configuration)) \<subseteq>
     set (rs_Routes (buildDesiredRouting example_configuration example_snapshot AllExitDefaultRoutes))"
  using plans_fail_closed [OF example_configuration_valid] by blast

lemma exit_transition_complete_witness:
  "\<exists>changes transition.
     DiffRouting (buildDesiredRouting example_configuration example_snapshot \<lparr>ex_IPv4 = True, ex_IPv6 = False\<rparr>)
       (buildDesiredRouting example_configuration example_snapshot \<lparr>ex_IPv4 = False, ex_IPv6 = True\<rparr>)
       (routingOwnership example_configuration) = Inr changes \<and>
     classifyExitDefaultRouteTransition changes (cf_Network example_configuration) = (transition, True)"
proof -
  have "state_accepted (routingOwnership example_configuration) False
      (buildDesiredRouting example_configuration example_snapshot \<lparr>ex_IPv4 = False, ex_IPv6 = True\<rparr>)"
    using desired_accepted [OF example_plannable] accepted_weaken by blast
  then obtain changes where changes:
    "DiffRouting (buildDesiredRouting example_configuration example_snapshot \<lparr>ex_IPv4 = True, ex_IPv6 = False\<rparr>)
       (buildDesiredRouting example_configuration example_snapshot \<lparr>ex_IPv4 = False, ex_IPv6 = True\<rparr>)
       (routingOwnership example_configuration) = Inr changes"
    using desired_accepted [OF example_plannable] routingOwnership_valid [OF example_configuration_valid]
    by (simp add: DiffRouting_Inr_iff)
  from exit_transition_complete [OF example_plannable _ this] changes show ?thesis by auto
qed

end
