(* ===== verification/Effects.thy ===== *)
theory Effects
  imports Prelude "HOL-Library.State_Monad"
begin

text \<open>
  Stateful Go code as state monads: a function with early returns is a computation whose result is
  \<open>Inl\<close> of the returned value or \<open>Inr\<close> of the value its continuation needs. Weakest preconditions give
  the rules by which the components state and compose their specifications.
\<close>

section \<open>Computations with early return\<close>

definition fail :: "'x \<Rightarrow> ('s, 'x + 'a) state" where
  "fail x = State_Monad.return (Inl x)"

definition ok :: "'a \<Rightarrow> ('s, 'x + 'a) state" where
  "ok a = State_Monad.return (Inr a)"

definition chain :: "('s, 'x + 'a) state \<Rightarrow> ('a \<Rightarrow> ('s, 'x + 'b) state) \<Rightarrow> ('s, 'x + 'b) state" where
  "chain m f = do { r \<leftarrow> m; case r of Inl x \<Rightarrow> fail x | Inr a \<Rightarrow> f a }"

text \<open>\<open>on_error\<close> says what an early return of the caller yields when the callee fails.\<close>

definition on_error :: "('e \<Rightarrow> 'x) \<Rightarrow> ('s, 'e + 'a) state \<Rightarrow> ('s, 'x + 'a) state" where
  "on_error g m = do { r \<leftarrow> m; case r of Inl e \<Rightarrow> fail (g e) | Inr a \<Rightarrow> ok a }"

text \<open>A call that only reports an error, and a pure guard.\<close>

definition check :: "('s, 'e option) state \<Rightarrow> ('s, 'e + unit) state" where
  "check m = do { r \<leftarrow> m; case r of None \<Rightarrow> ok () | Some e \<Rightarrow> fail e }"

definition require :: "'x option \<Rightarrow> ('s, 'x + unit) state" where
  "require e = (case e of None \<Rightarrow> ok () | Some x \<Rightarrow> fail x)"

definition lift :: "('s, 'a) state \<Rightarrow> ('s, 'x + 'a) state" where
  "lift m = do { a \<leftarrow> m; ok a }"

definition finish :: "('s, 'x + 'x) state \<Rightarrow> ('s, 'x) state" where
  "finish m = do { r \<leftarrow> m; State_Monad.return (case r of Inl x \<Rightarrow> x | Inr x \<Rightarrow> x) }"

definition modify :: "('s \<Rightarrow> 's) \<Rightarrow> ('s, unit) state" where
  "modify f = State (\<lambda>s. ((), f s))"

section \<open>Weakest preconditions\<close>

definition wp :: "('s, 'a) state \<Rightarrow> ('a \<Rightarrow> 's \<Rightarrow> bool) \<Rightarrow> 's \<Rightarrow> bool" where
  "wp m Q s \<longleftrightarrow> (case run_state m s of (r, s') \<Rightarrow> Q r s')"

named_theorems wp_rules "how weakest preconditions pass through the combinators"

lemma wp_return [wp_rules, simp]: "wp (State_Monad.return x) Q s \<longleftrightarrow> Q x s"
  by (simp add: wp_def)

lemma wp_bind [wp_rules, simp]: "wp (State_Monad.bind m f) Q s \<longleftrightarrow> wp m (\<lambda>x. wp (f x) Q) s"
  by (simp add: wp_def split: prod.splits)

lemma wp_get [wp_rules, simp]: "wp State_Monad.get Q s \<longleftrightarrow> Q s s"
  by (simp add: wp_def)

lemma wp_modify [wp_rules, simp]: "wp (modify f) Q s \<longleftrightarrow> Q () (f s)"
  by (simp add: wp_def modify_def)

lemma wp_State [wp_rules, simp]: "wp (State f) Q s \<longleftrightarrow> (case f s of (r, s') \<Rightarrow> Q r s')"
  by (simp add: wp_def)

lemma wp_fail [wp_rules, simp]: "wp (fail x) Q s \<longleftrightarrow> Q (Inl x) s"
  by (simp add: fail_def)

lemma wp_ok [wp_rules, simp]: "wp (ok a) Q s \<longleftrightarrow> Q (Inr a) s"
  by (simp add: ok_def)

lemma wp_sum_case: "wp (case r of Inl x \<Rightarrow> f x | Inr a \<Rightarrow> g a) Q s \<longleftrightarrow> (case r of Inl x \<Rightarrow> wp (f x) Q s | Inr a \<Rightarrow> wp (g a) Q s)"
  by (cases r) simp_all

lemma wp_option_case: "wp (case r of None \<Rightarrow> f | Some a \<Rightarrow> g a) Q s \<longleftrightarrow> (case r of None \<Rightarrow> wp f Q s | Some a \<Rightarrow> wp (g a) Q s)"
  by (cases r) simp_all

lemma wp_prod_case: "wp (case r of (x, y) \<Rightarrow> f x y) Q s \<longleftrightarrow> (case r of (x, y) \<Rightarrow> wp (f x y) Q s)"
  by (cases r) simp

lemma wp_if: "wp (if b then f else g) Q s \<longleftrightarrow> (if b then wp f Q s else wp g Q s)"
  by simp

lemma wp_let: "wp (let x = a in f x) Q s \<longleftrightarrow> wp (f a) Q s"
  by simp

lemmas wp_cases [wp_rules] = wp_sum_case wp_option_case wp_prod_case wp_if wp_let

lemma wp_chain [wp_rules, simp]:
  "wp (chain m f) Q s \<longleftrightarrow> wp m (\<lambda>r s'. case r of Inl x \<Rightarrow> Q (Inl x) s' | Inr a \<Rightarrow> wp (f a) Q s') s"
  by (simp add: chain_def wp_def fail_def ok_def split: prod.split sum.split option.split)

lemma wp_on_error [wp_rules, simp]:
  "wp (on_error g m) Q s \<longleftrightarrow> wp m (\<lambda>r s'. case r of Inl e \<Rightarrow> Q (Inl (g e)) s' | Inr a \<Rightarrow> Q (Inr a) s') s"
  by (simp add: on_error_def wp_def fail_def ok_def split: prod.split sum.split option.split)

lemma wp_check [wp_rules, simp]:
  "wp (check m) Q s \<longleftrightarrow> wp m (\<lambda>r s'. case r of None \<Rightarrow> Q (Inr ()) s' | Some e \<Rightarrow> Q (Inl e) s') s"
  by (simp add: check_def wp_def fail_def ok_def split: prod.split sum.split option.split)

lemma wp_require [wp_rules, simp]:
  "wp (require e) Q s \<longleftrightarrow> (case e of None \<Rightarrow> Q (Inr ()) s | Some x \<Rightarrow> Q (Inl x) s)"
  by (simp add: require_def split: option.split)

lemma wp_require_chain:
  "wp (chain (require None) f) Q s \<longleftrightarrow> wp (f ()) Q s" "wp (chain (require (Some x)) f) Q s \<longleftrightarrow> Q (Inl x) s"
  by simp_all

lemma wp_lift [wp_rules, simp]: "wp (lift m) Q s \<longleftrightarrow> wp m (\<lambda>a. Q (Inr a)) s"
  by (simp add: lift_def wp_def ok_def split: prod.split)

lemma wp_finish [wp_rules, simp]:
  "wp (finish m) Q s \<longleftrightarrow> wp m (\<lambda>r. Q (case r of Inl x \<Rightarrow> x | Inr x \<Rightarrow> x)) s"
  by (simp add: finish_def wp_def split: prod.split sum.split)

text \<open>Specifications are weakened with \<open>wp_mono\<close> and read off with \<open>wp_run\<close>.\<close>

lemma wp_mono: "wp m P s \<Longrightarrow> (\<And>r s'. P r s' \<Longrightarrow> Q r s') \<Longrightarrow> wp m Q s"
  by (auto simp: wp_def split: prod.splits)

lemma wp_conj: "wp m P s \<Longrightarrow> wp m Q s \<Longrightarrow> wp m (\<lambda>r s'. P r s' \<and> Q r s') s"
  by (auto simp: wp_def split: prod.splits)

lemma wp_run: "wp m Q s \<Longrightarrow> run_state m s = (r, s') \<Longrightarrow> Q r s'"
  by (simp add: wp_def)

lemma wp_runI: "(\<And>r s'. run_state m s = (r, s') \<Longrightarrow> Q r s') \<Longrightarrow> wp m Q s"
  by (simp add: wp_def split: prod.splits)

end
