(* ===== verification/Ports.thy ===== *)
theory Ports
  imports Effects Routing_Plan Capability Packet_Filter Tailnet Runtime
begin

text \<open>
  The interfaces of \<^verbatim>\<open>internal/port\<close> as the reconciler sees them. Every call to a port is an event with its
  arguments and its answer; the answers come from an environment whose functions read the whole history of
  calls, so that nothing is assumed about routing tables, packet filters, resolvers or the control plane.
\<close>

section \<open>Calls and the environment\<close>

record resolver_snapshot =
  rss_NameServers :: "addr list"
  rss_Configuration :: string

datatype call =
    KernelCheck "port_error option"
  | DiscoverProxyTunnel proxy_tunnel_request "(port_error, link_identity) result"
  | Discover discovery_request "(port_error, network_snapshot) result"
  | ReadRouting routing_ownership "(port_error, routing_state) result"
  | ApplyRouting routing_changes int "port_error option"
  | ObserveFilter packet_filter_policy "(port_error, packet_filter_observation) result"
  | ApplyFilter packet_filter_policy packet_filter_observation "port_error option"
  | ResolverSnapshot "(port_error, resolver_snapshot) result"
  | Resolve resolver_snapshot string "(port_error, addr list) result"
  | ReadState "(port_error, tailnet_state) result"
  | WritePreferences tailnet_preferences "port_error option"
  | ObserveCapability link_identity "(port_error, capability_snapshot) result"
  | ContextErr "port_error option"
  | Now time

type_synonym history = "call list"

text \<open>The history has the latest call first. \<^verbatim>\<open>ApplyRouting\<close> answers with a number of writes and possibly an error.\<close>

record environment =
  env_Kernel :: "history \<Rightarrow> port_error option"
  env_ProxyTunnel :: "history \<Rightarrow> proxy_tunnel_request \<Rightarrow> (port_error, link_identity) result"
  env_Network :: "history \<Rightarrow> discovery_request \<Rightarrow> (port_error, network_snapshot) result"
  env_ReadRouting :: "history \<Rightarrow> routing_ownership \<Rightarrow> (port_error, routing_state) result"
  env_ApplyRouting :: "history \<Rightarrow> routing_changes \<Rightarrow> int \<times> port_error option"
  env_ObserveFilter :: "history \<Rightarrow> packet_filter_policy \<Rightarrow> (port_error, packet_filter_observation) result"
  env_ApplyFilter :: "history \<Rightarrow> packet_filter_policy \<Rightarrow> packet_filter_observation \<Rightarrow> port_error option"
  env_Snapshot :: "history \<Rightarrow> (port_error, resolver_snapshot) result"
  env_Resolve :: "history \<Rightarrow> resolver_snapshot \<Rightarrow> string \<Rightarrow> (port_error, addr list) result"
  env_ReadState :: "history \<Rightarrow> (port_error, tailnet_state) result"
  env_WritePreferences :: "history \<Rightarrow> tailnet_preferences \<Rightarrow> port_error option"
  env_Capability :: "history \<Rightarrow> link_identity \<Rightarrow> (port_error, capability_snapshot) result"
  env_ContextErr :: "history \<Rightarrow> port_error option"
  env_Now :: "history \<Rightarrow> time"

section \<open>The reconciler's state\<close>

record cached_domain_addresses =
  cda_addresses :: resolved_addresses
  cda_updatedAt :: time

record reconciler =
  rcl_addressCache :: "string \<rightharpoonup> cached_domain_addresses"
  rcl_lastPacketPolicy :: packet_filter_policy
  rcl_hasPacketPolicy :: bool
  rcl_lastTailnetLink :: link_identity
  rcl_quarantined :: bool
  rcl_history :: history

definition invoke :: "(history \<Rightarrow> 'r) \<Rightarrow> ('r \<Rightarrow> call) \<Rightarrow> (reconciler, 'r) state" where
  "invoke response event =
     State (\<lambda>s. let r = response (rcl_history s) in (r, s\<lparr>rcl_history := event r # rcl_history s\<rparr>))"

lemma wp_invoke [wp_rules, simp]:
  "wp (invoke response event) Q s \<longleftrightarrow>
     Q (response (rcl_history s)) (s\<lparr>rcl_history := event (response (rcl_history s)) # rcl_history s\<rparr>)"
  by (simp add: invoke_def Let_def)

definition contextErr :: "environment \<Rightarrow> (reconciler, port_error option) state" where
  "contextErr env = invoke (env_ContextErr env) ContextErr"

definition now :: "environment \<Rightarrow> (reconciler, time) state" where
  "now env = invoke (env_Now env) Now"

definition kernelCheck :: "environment \<Rightarrow> (reconciler, port_error option) state" where
  "kernelCheck env = invoke (env_Kernel env) KernelCheck"

definition discoverProxyTunnel :: "environment \<Rightarrow> proxy_tunnel_request \<Rightarrow> (reconciler, (port_error, link_identity) result) state" where
  "discoverProxyTunnel env request = invoke (\<lambda>h. env_ProxyTunnel env h request) (DiscoverProxyTunnel request)"

definition discover :: "environment \<Rightarrow> discovery_request \<Rightarrow> (reconciler, (port_error, network_snapshot) result) state" where
  "discover env request = invoke (\<lambda>h. env_Network env h request) (Discover request)"

definition readRouting :: "environment \<Rightarrow> routing_ownership \<Rightarrow> (reconciler, (port_error, routing_state) result) state" where
  "readRouting env ownership = invoke (\<lambda>h. env_ReadRouting env h ownership) (ReadRouting ownership)"

definition applyRouting :: "environment \<Rightarrow> routing_changes \<Rightarrow> (reconciler, int \<times> port_error option) state" where
  "applyRouting env changes = invoke (\<lambda>h. env_ApplyRouting env h changes) (\<lambda>(writes, err). ApplyRouting changes writes err)"

definition observeFilter ::
  "environment \<Rightarrow> packet_filter_policy \<Rightarrow> (reconciler, (port_error, packet_filter_observation) result) state" where
  "observeFilter env policy = invoke (\<lambda>h. env_ObserveFilter env h policy) (ObserveFilter policy)"

definition applyFilter ::
  "environment \<Rightarrow> packet_filter_policy \<Rightarrow> packet_filter_observation \<Rightarrow> (reconciler, port_error option) state" where
  "applyFilter env policy observation =
     invoke (\<lambda>h. env_ApplyFilter env h policy observation) (ApplyFilter policy observation)"

definition resolverSnapshot :: "environment \<Rightarrow> (reconciler, (port_error, resolver_snapshot) result) state" where
  "resolverSnapshot env = invoke (env_Snapshot env) ResolverSnapshot"

definition resolveDomain ::
  "environment \<Rightarrow> resolver_snapshot \<Rightarrow> string \<Rightarrow> (reconciler, (port_error, addr list) result) state" where
  "resolveDomain env snapshot domainName = invoke (\<lambda>h. env_Resolve env h snapshot domainName) (Resolve snapshot domainName)"

definition readState :: "environment \<Rightarrow> (reconciler, (port_error, tailnet_state) result) state" where
  "readState env = invoke (env_ReadState env) ReadState"

definition writePreferences :: "environment \<Rightarrow> tailnet_preferences \<Rightarrow> (reconciler, port_error option) state" where
  "writePreferences env preferences = invoke (\<lambda>h. env_WritePreferences env h preferences) (WritePreferences preferences)"

definition observeCapability ::
  "environment \<Rightarrow> link_identity \<Rightarrow> (reconciler, (port_error, capability_snapshot) result) state" where
  "observeCapability env link = invoke (\<lambda>h. env_Capability env h link) (ObserveCapability link)"

lemmas call_defs = contextErr_def now_def kernelCheck_def discoverProxyTunnel_def discover_def readRouting_def
  applyRouting_def observeFilter_def applyFilter_def resolverSnapshot_def resolveDomain_def readState_def
  writePreferences_def observeCapability_def

end
