(* ===== verification/Reconciler.thy ===== *)
theory Reconciler
  imports Ports
begin

text \<open>
  \<^verbatim>\<open>internal/application/reconciler.go\<close>: every operation of the reconciler, as computations over its state and the history of
  port calls. The facts about them are in the theories that import this one.
\<close>

section \<open>Errors\<close>

text \<open>\<^verbatim>\<open>fmt.Errorf("op: %w", err)\<close> is \<open>Wrapped\<close>, \<^verbatim>\<open>errors.New\<close> is \<open>Message\<close>, \<^verbatim>\<open>errors.Join\<close> is \<open>Joined\<close>.\<close>

datatype rec_error =
    PortFailed port_error
  | Wrapped string rec_error
  | Message string
  | Joined "rec_error list"
  | PolicyErrors "policy_error list"
  | DiffRejected diff_error
  | PendingChanges routing_changes routing_changes
  | RoutingNotConverged routing_changes
  | PreferenceErrors "tailnet_error list"
  | RequestErrors "request_error list"
  | SnapshotErrors "snapshot_error list"
  | CapabilityErrors "capability_error list"
  | LinkInvalid link_error
  | ObservationAge duration
  | SelfAddressInvalid addr
  | ApprovedSelfAddress prefix
  | PreferencesNotConverged tailnet_preferences tailnet_preferences
  | ConfigurationErrors "configuration_error list"
  | ReportErrors "report_error list"

definition wrapOptional :: "string \<Rightarrow> rec_error option \<Rightarrow> rec_error option" where
  "wrapOptional operation err = (case err of None \<Rightarrow> None | Some e \<Rightarrow> Some (Wrapped operation e))"

definition joinErrors :: "rec_error option list \<Rightarrow> rec_error option" where
  "joinErrors errs = (case List.map_filter (\<lambda>e. e) errs of [] \<Rightarrow> None | es \<Rightarrow> Some (Joined es))"

definition invalid :: "('e list \<Rightarrow> rec_error) \<Rightarrow> 'e list \<Rightarrow> rec_error option" where
  "invalid wrap errs = (if errs = [] then None else Some (wrap errs))"

section \<open>Construction\<close>

record dependencies =
  dep_complete :: bool
  dep_InternetCapability :: bool

definition PolicyZero :: packet_filter_policy where
  "PolicyZero =
     \<lparr>pf_FilterTable = [], pf_ForwardGuardChain = [], pf_LocalEgressChain = [], pf_LocalEgressIPv4Set = [],
      pf_LocalEgressIPv6Set = [], pf_NATTable = [], pf_DNSMasqueradeChain = [], pf_GateClosed = False,
      pf_TailnetIPv4Prefix = PrefixZero, pf_TailnetIPv6Prefix = PrefixZero, pf_DNSTargets = [],
      pf_LocalEgress = LocalEgressZero\<rparr>"

definition NewReconciler :: "configuration \<Rightarrow> dependencies \<Rightarrow> (rec_error, reconciler) result" where
  "NewReconciler cfg deps =
     (if configuration_Validate cfg \<noteq> []
      then Inl (Wrapped ''invalid reconciler configuration'' (ConfigurationErrors (configuration_Validate cfg)))
      else if \<not> dep_complete deps then Inl (Message ''all reconciler dependencies are required'')
      else if tnc_AdvertiseExitNode (cf_Tailnet cfg) \<and> \<not> dep_InternetCapability deps
      then Inl (Message ''internet capability observer is required when Exit advertisement is enabled'')
      else if \<not> tnc_AdvertiseExitNode (cf_Tailnet cfg) \<and> dep_InternetCapability deps
      then Inl (Message ''internet capability observer requires Exit advertisement to be enabled'')
      else Inr \<lparr>rcl_addressCache = (\<lambda>d. None), rcl_lastPacketPolicy = PolicyZero, rcl_hasPacketPolicy = False,
                rcl_lastTailnetLink = LinkZero, rcl_quarantined = True, rcl_history = []\<rparr>)"

section \<open>Policies and addresses\<close>

definition safetyPacketFilterPolicy :: "configuration \<Rightarrow> packet_filter_policy" where
  "safetyPacketFilterPolicy cfg =
     \<lparr>pf_FilterTable = fc_FilterTable (cf_PacketFilter cfg), pf_ForwardGuardChain = fc_ForwardGuardChain (cf_PacketFilter cfg),
      pf_LocalEgressChain = fc_LocalEgressChain (cf_PacketFilter cfg),
      pf_LocalEgressIPv4Set = fc_LocalEgressIPv4Set (cf_PacketFilter cfg),
      pf_LocalEgressIPv6Set = fc_LocalEgressIPv6Set (cf_PacketFilter cfg),
      pf_NATTable = fc_NATTable (cf_PacketFilter cfg), pf_DNSMasqueradeChain = fc_DNSMasqueradeChain (cf_PacketFilter cfg),
      pf_GateClosed = True, pf_TailnetIPv4Prefix = nc_TailnetIPv4Prefix (cf_Network cfg),
      pf_TailnetIPv6Prefix = nc_TailnetIPv6Prefix (cf_Network cfg), pf_DNSTargets = [], pf_LocalEgress = LocalEgressZero\<rparr>"

text \<open>Of the network snapshot only the DNS egress paths are read; \<^verbatim>\<open>domain.NetworkSnapshot{}\<close> has none.\<close>

definition packetFilterPolicy :: "configuration \<Rightarrow> dns_egress_path list \<Rightarrow> resolved_addresses \<Rightarrow> bool \<Rightarrow> packet_filter_policy" where
  "packetFilterPolicy cfg paths addresses gateClosed =
     (let policy = (safetyPacketFilterPolicy cfg)
            \<lparr>pf_GateClosed := gateClosed,
             pf_DNSTargets := map (\<lambda>path. \<lparr>dmt_Address = dns_NameServer path, dmt_OutputInterface = link_Name (dns_Link path)\<rparr>) paths\<rparr>;
          local = fc_LocalEgress (cf_PacketFilter cfg)
      in if \<not> lc_Enabled local then policy
         else policy\<lparr>pf_LocalEgress :=
           \<lparr>le_Enabled = lc_Enabled local, le_IPv4 = ra_IPv4 addresses, le_IPv6 = ra_IPv6 addresses,
            le_Protocols = lc_Protocols local, le_Ports = lc_Ports local, le_Mark = nc_LocalEgressPacketMark (cf_Network cfg)\<rparr>\<rparr>)"

definition normalizeAddresses :: "addr list \<Rightarrow> addr list" where
  "normalizeAddresses addresses =
     remdups_adj (sort_func addr_Compare
       (filter (\<lambda>a. addr_IsValid a \<and> addr_Zone a = []) (map addr_Unmap addresses)))"

section \<open>Routing\<close>

definition planRouting :: "configuration \<Rightarrow> environment \<Rightarrow> routing_state \<Rightarrow> (reconciler, (rec_error, routing_changes) result) state" where
  "planRouting cfg env desired =
     chain (on_error (\<lambda>e. Wrapped ''read managed routing state'' (PortFailed e)) (readRouting env (routingOwnership cfg)))
       (\<lambda>observed. case DiffRouting desired observed (routingOwnership cfg) of
          Inl e \<Rightarrow> fail (Wrapped ''plan managed routing changes'' (DiffRejected e))
        | Inr changes \<Rightarrow> ok changes)"

definition applyRoutingChanges :: "environment \<Rightarrow> routing_changes \<Rightarrow> (reconciler, int \<times> rec_error option) state" where
  "applyRoutingChanges env changes =
     (if changes_Empty changes then State_Monad.return (0, None)
      else do {
        (writes, err) \<leftarrow> applyRouting env changes;
        State_Monad.return (writes, wrapOptional ''apply managed routing state'' (map_option PortFailed err)) })"

definition verifyRouting :: "configuration \<Rightarrow> environment \<Rightarrow> routing_state \<Rightarrow> (reconciler, rec_error option) state" where
  "verifyRouting cfg env desired = do {
     verified \<leftarrow> readRouting env (routingOwnership cfg);
     State_Monad.return (case verified of
       Inl e \<Rightarrow> Some (Wrapped ''verify managed routing state'' (PortFailed e))
     | Inr observed \<Rightarrow> (case DiffRouting desired observed (routingOwnership cfg) of
         Inl e \<Rightarrow> Some (Wrapped ''validate verified managed routing state'' (DiffRejected e))
       | Inr remaining \<Rightarrow> if \<not> changes_Empty remaining then Some (RoutingNotConverged remaining) else None)) }"

definition verifyPendingRoutingChanges ::
  "configuration \<Rightarrow> environment \<Rightarrow> routing_state \<Rightarrow> routing_changes \<Rightarrow> (reconciler, rec_error option) state" where
  "verifyPendingRoutingChanges cfg env desired expected = do {
     remaining \<leftarrow> planRouting cfg env desired;
     State_Monad.return (case remaining of
       Inl e \<Rightarrow> Some e
     | Inr changes \<Rightarrow> if \<not> changes_Equal changes expected then Some (PendingChanges changes expected) else None) }"

definition applyRoutingPlan ::
  "configuration \<Rightarrow> environment \<Rightarrow> routing_state \<Rightarrow> routing_changes \<Rightarrow> (reconciler, int \<times> rec_error option) state" where
  "applyRoutingPlan cfg env desired changes =
     (if changes_Empty changes then State_Monad.return (0, None)
      else do {
        (writes, err) \<leftarrow> applyRoutingChanges env changes;
        case err of Some e \<Rightarrow> State_Monad.return (writes, Some e)
        | None \<Rightarrow> do { verification \<leftarrow> verifyRouting cfg env desired; State_Monad.return (writes, verification) } })"

definition reconcileRouting :: "configuration \<Rightarrow> environment \<Rightarrow> routing_state \<Rightarrow> (reconciler, int \<times> rec_error option) state" where
  "reconcileRouting cfg env desired = do {
     planned \<leftarrow> planRouting cfg env desired;
     case planned of Inl e \<Rightarrow> State_Monad.return (0, Some e)
     | Inr changes \<Rightarrow> applyRoutingPlan cfg env desired changes }"

definition deactivateExitDefaults ::
  "configuration \<Rightarrow> environment \<Rightarrow> routing_state \<Rightarrow> exit_transition \<Rightarrow> (reconciler, int \<times> rec_error option) state" where
  "deactivateExitDefaults cfg env desired transition =
     (if changes_Empty (et_deactivationChanges transition) then State_Monad.return (0, None)
      else do {
        (writes, err) \<leftarrow> applyRoutingChanges env (et_deactivationChanges transition);
        case err of
          Some e \<Rightarrow> State_Monad.return (writes, Some (Wrapped ''deactivate unavailable Exit default routes'' e))
        | None \<Rightarrow> do {
            pending \<leftarrow> verifyPendingRoutingChanges cfg env desired (et_activationChanges transition);
            State_Monad.return (writes, wrapOptional ''verify Exit default route deactivation'' pending) } })"

definition activateExitDefaults ::
  "configuration \<Rightarrow> environment \<Rightarrow> routing_state \<Rightarrow> exit_transition \<Rightarrow> (reconciler, int \<times> rec_error option) state" where
  "activateExitDefaults cfg env desired transition =
     (if changes_Empty (et_activationChanges transition) then State_Monad.return (0, None)
      else do {
        (writes, err) \<leftarrow> applyRoutingPlan cfg env desired (et_activationChanges transition);
        State_Monad.return (writes, wrapOptional ''activate available Exit default routes'' err) })"

definition applyExitDefaultRouteTransition ::
  "configuration \<Rightarrow> environment \<Rightarrow> routing_state \<Rightarrow> exit_transition \<Rightarrow> (reconciler, int \<times> rec_error option) state" where
  "applyExitDefaultRouteTransition cfg env desired transition = do {
     (writes, err) \<leftarrow> deactivateExitDefaults cfg env desired transition;
     case err of
       Some e \<Rightarrow> State_Monad.return (writes, Some e)
     | None \<Rightarrow> do {
         (activationWrites, err) \<leftarrow> activateExitDefaults cfg env desired transition;
         State_Monad.return (writes + activationWrites, err) } }"

section \<open>Packet filter\<close>

definition observePacketFilter ::
  "environment \<Rightarrow> packet_filter_policy \<Rightarrow> (reconciler, (rec_error, packet_filter_observation) result) state" where
  "observePacketFilter env policy =
     chain (require (invalid (\<lambda>es. Wrapped ''validate desired nftables policy'' (PolicyErrors es)) (policy_Validate policy)))
       (\<lambda>u. on_error (\<lambda>e. Wrapped ''observe managed nftables state'' (PortFailed e)) (observeFilter env policy))"

definition reconcilePacketFilter :: "environment \<Rightarrow> packet_filter_policy \<Rightarrow> (reconciler, int \<times> rec_error option) state" where
  "reconcilePacketFilter env policy = do {
     observed \<leftarrow> observePacketFilter env policy;
     case observed of
       Inl e \<Rightarrow> State_Monad.return (0, Some e)
     | Inr observation \<Rightarrow>
         if Matches observation policy then State_Monad.return (0, None)
         else do {
           applied \<leftarrow> applyFilter env policy observation;
           case applied of
             Some e \<Rightarrow> State_Monad.return (0, Some (Wrapped ''apply managed nftables state'' (PortFailed e)))
           | None \<Rightarrow> do {
               verification \<leftarrow> observePacketFilter env policy;
               State_Monad.return (1, case verification of
                 Inl e \<Rightarrow> Some (Wrapped ''verify managed nftables state'' e)
               | Inr verified \<Rightarrow>
                   if \<not> Matches verified policy then Some (Message ''managed nftables state did not converge'') else None) } } }"

definition verifyDataPlane ::
  "configuration \<Rightarrow> environment \<Rightarrow> routing_state \<Rightarrow> packet_filter_policy \<Rightarrow> (reconciler, rec_error + unit) state" where
  "verifyDataPlane cfg env routing policy =
     chain (on_error (Wrapped ''final routing verification'') (check (verifyRouting cfg env routing)))
       (\<lambda>u. chain (on_error (Wrapped ''final nftables verification'') (observePacketFilter env policy))
         (\<lambda>observation. if \<not> Matches observation policy then fail (Message ''final nftables verification observed drift'')
            else on_error (\<lambda>e. Wrapped ''final kernel prerequisite verification'' (PortFailed e)) (check (kernelCheck env))))"

section \<open>Local egress\<close>

text \<open>
  A refresh that is due: a usable answer replaces the cache entry; otherwise an entry that is not too stale is kept,
  and without one the domain contributes an error.
\<close>

definition refreshDomain ::
  "environment \<Rightarrow> local_egress_configuration \<Rightarrow> resolver_snapshot \<Rightarrow> time \<Rightarrow> string \<Rightarrow> cached_domain_addresses option \<Rightarrow>
   (reconciler, (rec_error, addr list) result) state" where
  "refreshDomain env local resolver t domainName cached = do {
     answer \<leftarrow> resolveDomain env resolver domainName;
     let resolved = (case answer of
           Inl e \<Rightarrow> Inl (PortFailed e)
         | Inr addresses \<Rightarrow>
             if resolved_Empty (NewResolvedAddresses addresses) then Inl (Message ''resolver returned no usable addresses'')
             else Inr (NewResolvedAddresses addresses));
     case resolved of
       Inr addresses \<Rightarrow> do {
         modify (\<lambda>s. s\<lparr>rcl_addressCache := (rcl_addressCache s)
           (domainName \<mapsto> \<lparr>cda_addresses = addresses, cda_updatedAt = t\<rparr>)\<rparr>);
         ok (resolved_All addresses) }
     | Inl e \<Rightarrow>
         (case cached of
            None \<Rightarrow> fail (Wrapped (''resolve '' @ domainName) e)
          | Some entry \<Rightarrow>
              if time_Sub t (cda_updatedAt entry) > lc_MaximumStaleness local then fail (Wrapped (''resolve '' @ domainName) e)
              else ok (resolved_All (cda_addresses entry))) }"

text \<open>One iteration of the loop over the configured domains: the addresses it appends, or the error it appends.\<close>

definition resolveOne ::
  "environment \<Rightarrow> local_egress_configuration \<Rightarrow> resolver_snapshot \<Rightarrow> time \<Rightarrow> string \<Rightarrow>
   (reconciler, (rec_error, addr list) result) state" where
  "resolveOne env local resolver t domainName = do {
     s \<leftarrow> State_Monad.get;
     case rcl_addressCache s domainName of
       None \<Rightarrow> refreshDomain env local resolver t domainName None
     | Some entry \<Rightarrow>
         if time_Sub t (cda_updatedAt entry) \<ge> lc_RefreshInterval local
         then refreshDomain env local resolver t domainName (Some entry)
         else ok (resolved_All (cda_addresses entry)) }"

fun resolveLoop ::
  "environment \<Rightarrow> local_egress_configuration \<Rightarrow> resolver_snapshot \<Rightarrow> time \<Rightarrow> string list \<Rightarrow> addr list \<Rightarrow> rec_error list \<Rightarrow>
   (reconciler, addr list \<times> rec_error list) state" where
  "resolveLoop env local resolver t [] combined errs = State_Monad.return (combined, errs)"
| "resolveLoop env local resolver t (d # ds) combined errs = do {
     r \<leftarrow> resolveOne env local resolver t d;
     case r of Inl e \<Rightarrow> resolveLoop env local resolver t ds combined (errs @ [e])
     | Inr addresses \<Rightarrow> resolveLoop env local resolver t ds (combined @ addresses) errs }"

definition resolveLocalEgress ::
  "configuration \<Rightarrow> environment \<Rightarrow> resolver_snapshot \<Rightarrow> (reconciler, (rec_error, resolved_addresses) result) state" where
  "resolveLocalEgress cfg env resolver =
     (let local = fc_LocalEgress (cf_PacketFilter cfg) in
      if \<not> lc_Enabled local then ok \<lparr>ra_IPv4 = [], ra_IPv6 = []\<rparr>
      else do {
        t \<leftarrow> now env;
        (combined, errs) \<leftarrow> resolveLoop env local resolver t (lc_Domains local) [] [];
        if errs \<noteq> [] then fail (Wrapped ''resolve local-egress domains'' (Joined errs))
        else if resolved_Empty (NewResolvedAddresses combined)
        then fail (Message ''local-egress domains resolved to an empty address set'')
        else ok (NewResolvedAddresses combined) })"

section \<open>Tailnet control\<close>

definition tailnet_freshness :: "configuration \<Rightarrow> time \<Rightarrow> tailnet_state \<Rightarrow> rec_error option" where
  "tailnet_freshness cfg t state =
     (let age = time_Sub t (tc_ObservedAt (ts_Control state)) in
      if age < 0 \<or> age > tnc_PreferenceAuditInterval (cf_Tailnet cfg) then Some (ObservationAge age) else None)"

definition tailnet_control_error :: "tailnet_state \<Rightarrow> rec_error option" where
  "tailnet_control_error state =
     (let control = ts_Control state in
      if preferences_Validate (ts_Preferences state) \<noteq> []
      then Some (Wrapped ''validate Tailscale preferences'' (PreferenceErrors (preferences_Validate (ts_Preferences state))))
      else if control_Validate control \<noteq> []
      then Some (Wrapped ''validate Tailscale control observation'' (PreferenceErrors (control_Validate control)))
      else if \<not> tc_SelfPresent control then Some (Message ''tailscale status has no self node'')
      else if \<not> tc_InNetworkMap control then Some (Message ''tailscale self node is absent from the current network map'')
      else if \<not> tc_Online control then Some (Message ''tailscale control poll is offline'')
      else if \<not> tc_AllowedIPsAvailable control then Some (Message ''tailscale self AllowedIPs is unavailable'')
      else None)"

definition tailnet_self_error :: "tailnet_state \<Rightarrow> rec_error option" where
  "tailnet_self_error state =
     (let normalized = normalizeAddresses (ts_SelfAddresses state);
          selfPrefixes = map (\<lambda>a. PrefixFrom a (int (addr_BitLen a))) normalized
      in case find (\<lambda>a. \<not> addr_IsValid a \<or> addr_Zone a \<noteq> []) (ts_SelfAddresses state) of
        Some a \<Rightarrow> Some (SelfAddressInvalid a)
      | None \<Rightarrow>
          if length normalized \<noteq> length (ts_SelfAddresses state) then Some (Message ''tailscale reported duplicate self addresses'')
          else case find (\<lambda>p. p \<in> set selfPrefixes) (tc_ApprovedRoutes (ts_Control state)) of
            Some p \<Rightarrow> Some (ApprovedSelfAddress p)
          | None \<Rightarrow> None)"

definition normalize_state :: "tailnet_state \<Rightarrow> tailnet_state" where
  "normalize_state state =
     state\<lparr>ts_SelfAddresses := normalizeAddresses (ts_SelfAddresses state),
           ts_Control := (ts_Control state)\<lparr>tc_ApprovedRoutes :=
             tp_AdvertiseRoutes (NormalizeTailnetPreferences (tc_ApprovedRoutes (ts_Control state)))\<rparr>\<rparr>"

definition readTailnetState :: "configuration \<Rightarrow> environment \<Rightarrow> (reconciler, (rec_error, tailnet_state) result) state" where
  "readTailnetState cfg env =
     chain (on_error (\<lambda>e. Wrapped ''read Tailscale state'' (PortFailed e)) (readState env))
       (\<lambda>state. chain (require (tailnet_control_error state))
         (\<lambda>u. chain (lift (now env))
           (\<lambda>t. chain (require (tailnet_freshness cfg t state))
             (\<lambda>u. chain (require (tailnet_self_error state))
               (\<lambda>u. ok (normalize_state state))))))"

definition writeTailnetPreferences ::
  "environment \<Rightarrow> tailnet_preferences \<Rightarrow> (reconciler, rec_error + unit) state" where
  "writeTailnetPreferences env preferences =
     chain (require (invalid (\<lambda>es. Wrapped ''validate Tailscale preferences'' (PreferenceErrors es)) (preferences_Validate preferences)))
       (\<lambda>u. on_error PortFailed (check (writePreferences env preferences)))"

definition writeAndVerifyTailnetPreferences ::
  "configuration \<Rightarrow> environment \<Rightarrow> tailnet_preferences \<Rightarrow> (reconciler, (rec_error, tailnet_state) result) state" where
  "writeAndVerifyTailnetPreferences cfg env preferences =
     chain (writeTailnetPreferences env preferences)
       (\<lambda>u. chain (on_error (Wrapped ''verify Tailscale preferences'') (readTailnetState cfg env))
         (\<lambda>state. if \<not> preferences_Equal (ts_Preferences state) preferences
            then fail (PreferencesNotConverged (ts_Preferences state) preferences)
            else ok state))"

definition publishTailnetPreferences ::
  "configuration \<Rightarrow> environment \<Rightarrow> reconcile_report \<Rightarrow> tailnet_preferences \<Rightarrow> string \<Rightarrow>
   (reconciler, rec_error + tailnet_state \<times> reconcile_report) state" where
  "publishTailnetPreferences cfg env report preferences operation =
     chain (on_error (Wrapped operation) (writeAndVerifyTailnetPreferences cfg env preferences))
       (\<lambda>verifiedState. ok (verifiedState,
          report\<lparr>rp_TailnetWrites := rp_TailnetWrites report + 1, rp_Changed := True\<rparr>))"

section \<open>Reports\<close>

definition recordRouteApprovals :: "reconcile_report \<Rightarrow> tailnet_state \<Rightarrow> tailnet_preferences \<Rightarrow> reconcile_report" where
  "recordRouteApprovals report state desired =
     (let approved = (\<lambda>p. p \<in> set (tc_ApprovedRoutes (ts_Control state)))
      in report\<lparr>rp_ApprovalObserved := True,
           rp_RouteApprovals := map (\<lambda>p. \<lparr>ap_Prefix = p, ap_Approved = approved p\<rparr>) (tp_AdvertiseRoutes desired),
           rp_Conditions := rp_Conditions report @
             map (\<lambda>p. \<lparr>rc_Kind = ConditionRouteNotApproved, rc_Family = FamilyOfPrefix p, rc_Prefix = p\<rparr>)
               (filter (\<lambda>p. \<not> approved p) (tp_AdvertiseRoutes desired))\<rparr>)"

definition completeReconcileReport ::
  "configuration \<Rightarrow> reconcile_report \<Rightarrow> tailnet_state \<Rightarrow> tailnet_preferences \<Rightarrow> exit_default_route_set \<Rightarrow> reconcile_report" where
  "completeReconcileReport cfg report state desired activeExitDefaultRoutes =
     (recordRouteApprovals report state desired)
       \<lparr>rp_DataPlaneAvailable := \<not> tnc_AdvertiseExitNode (cf_Tailnet cfg) \<or> \<not> exit_Empty activeExitDefaultRoutes\<rparr>"

definition finalizeSuccessfulReconcile ::
  "configuration \<Rightarrow> reconcile_report \<Rightarrow> tailnet_state \<Rightarrow> tailnet_preferences \<Rightarrow> exit_default_route_set \<Rightarrow> packet_filter_policy \<Rightarrow>
   (reconciler, reconcile_report) state" where
  "finalizeSuccessfulReconcile cfg report state desiredPreferences activeExitDefaultRoutes desiredPolicy = do {
     modify (\<lambda>s. s\<lparr>rcl_lastPacketPolicy := desiredPolicy, rcl_hasPacketPolicy := True, rcl_quarantined := False\<rparr>);
     State_Monad.return (completeReconcileReport cfg report state desiredPreferences activeExitDefaultRoutes) }"

definition record_routing :: "reconcile_report \<Rightarrow> int \<Rightarrow> reconcile_report" where
  "record_routing report writes =
     report\<lparr>rp_RoutingWrites := rp_RoutingWrites report + writes, rp_Changed := rp_Changed report \<or> writes > 0\<rparr>"

definition record_filter :: "reconcile_report \<Rightarrow> int \<Rightarrow> reconcile_report" where
  "record_filter report writes =
     report\<lparr>rp_PacketFilterWrites := rp_PacketFilterWrites report + writes, rp_Changed := rp_Changed report \<or> writes > 0\<rparr>"

text \<open>The outcome of a reconciliation: the report, with the error of an early return.\<close>

type_synonym outcome = "reconcile_report \<times> rec_error option"

definition with_report :: "reconcile_report \<Rightarrow> (reconciler, rec_error + 'a) state \<Rightarrow> (reconciler, outcome + 'a) state" where
  "with_report report = on_error (\<lambda>e. (report, Some e))"

definition require_live :: "environment \<Rightarrow> reconcile_report \<Rightarrow> (reconciler, outcome + unit) state" where
  "require_live env report = on_error (\<lambda>e. (report, Some (PortFailed e))) (check (contextErr env))"

section \<open>Reconciliation\<close>

text \<open>A step that publishes preferences unless they are already in place, as every branch has several.\<close>

definition publishUnless ::
  "configuration \<Rightarrow> environment \<Rightarrow> bool \<Rightarrow> tailnet_state \<Rightarrow> reconcile_report \<Rightarrow> tailnet_preferences \<Rightarrow> string \<Rightarrow>
   (reconciler, outcome + tailnet_state \<times> reconcile_report) state" where
  "publishUnless cfg env unneeded tailnetState report preferences operation =
     (if unneeded then ok (tailnetState, report)
      else with_report report (publishTailnetPreferences cfg env report preferences operation))"

definition finishReconcile ::
  "configuration \<Rightarrow> tailnet_preferences \<Rightarrow> exit_default_route_set \<Rightarrow> packet_filter_policy \<Rightarrow> tailnet_state \<times> reconcile_report \<Rightarrow>
   (reconciler, outcome + outcome) state" where
  "finishReconcile cfg preferences active policy = (\<lambda>(tailnetState, report). do {
     final \<leftarrow> finalizeSuccessfulReconcile cfg report tailnetState preferences active policy;
     ok (final, None) })"

definition reconcileNoDrift ::
  "configuration \<Rightarrow> environment \<Rightarrow> reconcile_report \<Rightarrow> tailnet_state \<Rightarrow> routing_state \<Rightarrow> packet_filter_policy \<Rightarrow>
   tailnet_preferences \<Rightarrow> exit_default_route_set \<Rightarrow> (reconciler, outcome) state" where
  "reconcileNoDrift cfg env report tailnetState desiredRouting desiredPolicy desiredPreferences active =
     finish (chain (require_live env report)
       (\<lambda>u. chain
         (if \<not> preferences_Equal (ts_Preferences tailnetState) desiredPreferences
          then chain (with_report report (verifyDataPlane cfg env desiredRouting desiredPolicy))
            (\<lambda>u. with_report report (publishTailnetPreferences cfg env report desiredPreferences
               ''publish Tailscale advertisements after final data-plane verification''))
          else ok (tailnetState, report))
         (finishReconcile cfg desiredPreferences active desiredPolicy)))"

text \<open>An isolated transition after a possible withdrawal: the routes, then the verification and the publication.\<close>

definition publishVerified ::
  "configuration \<Rightarrow> environment \<Rightarrow> routing_state \<Rightarrow> packet_filter_policy \<Rightarrow> tailnet_preferences \<Rightarrow> exit_default_route_set \<Rightarrow>
   tailnet_state \<Rightarrow> reconcile_report \<Rightarrow> (reconciler, outcome + outcome) state" where
  "publishVerified cfg env desiredRouting desiredPolicy desiredPreferences active tailnetState report =
     chain (with_report report (verifyDataPlane cfg env desiredRouting desiredPolicy))
       (\<lambda>u. chain (require_live env report)
         (\<lambda>u. chain (publishUnless cfg env (preferences_Equal (ts_Preferences tailnetState) desiredPreferences)
                  tailnetState report desiredPreferences ''publish atomic Exit Node advertisement after route verification'')
           (finishReconcile cfg desiredPreferences active desiredPolicy)))"

definition transitionAndPublish ::
  "configuration \<Rightarrow> environment \<Rightarrow> routing_state \<Rightarrow> packet_filter_policy \<Rightarrow> tailnet_preferences \<Rightarrow> exit_default_route_set \<Rightarrow>
   exit_transition \<Rightarrow> tailnet_state \<times> reconcile_report \<Rightarrow> (reconciler, outcome + outcome) state" where
  "transitionAndPublish cfg env desiredRouting desiredPolicy desiredPreferences active transition = (\<lambda>(tailnetState, report). do {
     (routingWrites, applyErr) \<leftarrow> applyExitDefaultRouteTransition cfg env desiredRouting transition;
     chain (require (map_option (\<lambda>e. (record_routing report routingWrites, Some e)) applyErr))
       (\<lambda>u. publishVerified cfg env desiredRouting desiredPolicy desiredPreferences active tailnetState
          (record_routing report routingWrites)) })"

definition reconcileIsolatedExitDefaultTransition ::
  "configuration \<Rightarrow> environment \<Rightarrow> reconcile_report \<Rightarrow> tailnet_state \<Rightarrow> routing_state \<Rightarrow> packet_filter_policy \<Rightarrow>
   tailnet_preferences \<Rightarrow> exit_default_route_set \<Rightarrow> exit_transition \<Rightarrow> (reconciler, outcome) state" where
  "reconcileIsolatedExitDefaultTransition cfg env report tailnetState desiredRouting desiredPolicy desiredPreferences active transition =
     finish (chain
       (publishUnless cfg env (\<not> (\<not> AdvertisesExitNode desiredPreferences \<and> HasExitDefaultRoutes (ts_Preferences tailnetState)))
          tailnetState report desiredPreferences ''withdraw Exit Node advertisement before deactivating its final route'')
       (transitionAndPublish cfg env desiredRouting desiredPolicy desiredPreferences active transition))"

text \<open>A global convergence: close the gate, withdraw and change the routing behind it, then open the gate and publish.\<close>

definition applyDrift ::
  "configuration \<Rightarrow> environment \<Rightarrow> routing_state \<Rightarrow> routing_changes \<Rightarrow> tailnet_state \<times> reconcile_report \<Rightarrow>
   (reconciler, outcome + tailnet_state \<times> reconcile_report) state" where
  "applyDrift cfg env desiredRouting routingChanges = (\<lambda>(tailnetState, report). do {
     (routingWrites, err) \<leftarrow> applyRoutingPlan cfg env desiredRouting routingChanges;
     chain (require (map_option (\<lambda>e. (record_routing report routingWrites, Some e)) err))
       (\<lambda>u. ok (tailnetState, record_routing report routingWrites)) })"

definition convergeClosed ::
  "configuration \<Rightarrow> environment \<Rightarrow> reconcile_report \<Rightarrow> tailnet_state \<Rightarrow> routing_state \<Rightarrow> packet_filter_policy \<Rightarrow>
   routing_changes \<Rightarrow> tailnet_preferences \<Rightarrow> (reconciler, outcome + tailnet_state \<times> reconcile_report) state" where
  "convergeClosed cfg env report tailnetState desiredRouting desiredPolicy routingChanges disabledPreferences = do {
     let closedPolicy = desiredPolicy\<lparr>pf_GateClosed := True\<rparr>;
     (packetFilterWrites, err) \<leftarrow> reconcilePacketFilter env closedPolicy;
     chain (require (map_option (\<lambda>e. (record_filter report packetFilterWrites,
              Some (Wrapped ''close forwarding gate before applying drift'' e))) err))
       (\<lambda>u. do {
          modify (\<lambda>s. s\<lparr>rcl_lastPacketPolicy := closedPolicy, rcl_hasPacketPolicy := True, rcl_quarantined := True\<rparr>);
          chain (publishUnless cfg env (preferences_Equal (ts_Preferences tailnetState) disabledPreferences) tailnetState
                   (record_filter report packetFilterWrites) disabledPreferences ''clear Tailscale advertisements before applying drift'')
            (applyDrift cfg env desiredRouting routingChanges) }) }"

definition refreshApproval ::
  "configuration \<Rightarrow> environment \<Rightarrow> reconcile_report \<Rightarrow> (reconciler, outcome + tailnet_state \<times> reconcile_report) state" where
  "refreshApproval cfg env report =
     chain (on_error (\<lambda>e. (report, Some (Wrapped ''refresh Tailscale approval after data-plane convergence'' e))) (readTailnetState cfg env))
       (\<lambda>tailnetState. ok (tailnetState, report))"

definition publishConverged ::
  "configuration \<Rightarrow> environment \<Rightarrow> tailnet_preferences \<Rightarrow> exit_default_route_set \<Rightarrow> packet_filter_policy \<Rightarrow> tailnet_state \<Rightarrow>
   reconcile_report \<Rightarrow> (reconciler, outcome + outcome) state" where
  "publishConverged cfg env desiredPreferences active desiredPolicy tailnetState report =
     chain (require_live env report)
       (\<lambda>u. chain
         (if \<not> preferences_Equal (ts_Preferences tailnetState) desiredPreferences
          then with_report report (publishTailnetPreferences cfg env report desiredPreferences ''publish Tailscale advertisements'')
          else refreshApproval cfg env report)
         (\<lambda>(tailnetState, report). chain (require_live env report)
            (\<lambda>u. finishReconcile cfg desiredPreferences active desiredPolicy (tailnetState, report))))"

definition openAndPublish ::
  "configuration \<Rightarrow> environment \<Rightarrow> routing_state \<Rightarrow> packet_filter_policy \<Rightarrow> tailnet_preferences \<Rightarrow> exit_default_route_set \<Rightarrow>
   tailnet_state \<times> reconcile_report \<Rightarrow> (reconciler, outcome + outcome) state" where
  "openAndPublish cfg env desiredRouting desiredPolicy desiredPreferences active = (\<lambda>(tailnetState, report). do {
     (packetFilterWrites, err) \<leftarrow> reconcilePacketFilter env desiredPolicy;
     chain (require (map_option (\<lambda>e. (record_filter report packetFilterWrites,
              Some (Wrapped ''open forwarding gate after convergence'' e))) err))
       (\<lambda>u. chain (with_report (record_filter report packetFilterWrites) (verifyDataPlane cfg env desiredRouting desiredPolicy))
         (\<lambda>u. publishConverged cfg env desiredPreferences active desiredPolicy tailnetState (record_filter report packetFilterWrites))) })"

definition reconcileGlobalDrift ::
  "configuration \<Rightarrow> environment \<Rightarrow> reconcile_report \<Rightarrow> tailnet_state \<Rightarrow> routing_state \<Rightarrow> packet_filter_policy \<Rightarrow>
   tailnet_preferences \<Rightarrow> exit_default_route_set \<Rightarrow> routing_changes \<Rightarrow> tailnet_preferences \<Rightarrow> (reconciler, outcome) state" where
  "reconcileGlobalDrift cfg env report tailnetState desiredRouting desiredPolicy desiredPreferences active routingChanges disabledPreferences =
     finish (chain (convergeClosed cfg env report tailnetState desiredRouting desiredPolicy routingChanges disabledPreferences)
       (openAndPublish cfg env desiredRouting desiredPolicy desiredPreferences active))"

text \<open>
  \<^verbatim>\<open>Reconcile\<close> in four parts: the Tailnet state with restored advertisements cleared, the network discovery, the
  capability observation, and the plan with its dispatch.
\<close>

definition reconcileTailnet ::
  "configuration \<Rightarrow> environment \<Rightarrow> tailnet_preferences \<Rightarrow> (reconciler, outcome + tailnet_state \<times> reconcile_report) state" where
  "reconcileTailnet cfg env disabledPreferences =
     chain (on_error (\<lambda>e. (ReportZero, Some (Wrapped ''verify kernel prerequisites'' (PortFailed e)))) (check (kernelCheck env)))
       (\<lambda>u. chain (with_report ReportZero (readTailnetState cfg env))
         (\<lambda>tailnetState.
            if \<not> ts_Running tailnetState then fail (ReportZero, Some (Message ''tailscale backend is not running''))
            else if \<not> ts_KernelTunnel tailnetState
            then fail (ReportZero, Some (Message ''tailscale backend is not using a kernel tunnel''))
            else if length (ts_SelfAddresses tailnetState) = 0
            then fail (ReportZero, Some (Message ''tailscale backend reported no self addresses''))
            else do {
              s \<leftarrow> State_Monad.get;
              publishUnless cfg env (\<not> (rcl_quarantined s \<and> \<not> preferences_Equal (ts_Preferences tailnetState) disabledPreferences))
                tailnetState ReportZero disabledPreferences ''clear restored Tailscale advertisements'' }))"

definition discoveryRequest :: "configuration \<Rightarrow> tailnet_state \<Rightarrow> addr list \<Rightarrow> discovery_request" where
  "discoveryRequest cfg tailnetState nameServers =
     \<lparr>dq_TailnetAddresses = normalizeAddresses (ts_SelfAddresses tailnetState),
      dq_ProxyTunnelAddresses = nc_ProxyTunnelAddresses (cf_Network cfg),
      dq_AdvertisedPrefixes = tnc_AdvertiseRoutes (cf_Tailnet cfg), dq_NameServers = nameServers\<rparr>"

definition reconcileDiscovery ::
  "configuration \<Rightarrow> environment \<Rightarrow> tailnet_state \<Rightarrow> (reconciler, rec_error + network_snapshot \<times> resolved_addresses) state" where
  "reconcileDiscovery cfg env tailnetState =
     chain (on_error (\<lambda>e. Wrapped ''read DNS resolver snapshot'' (PortFailed e)) (resolverSnapshot env))
       (\<lambda>resolver.
          if length (rss_NameServers resolver) = 0
          then fail (Message ''resolver configuration contains no usable nameservers'')
          else chain (resolveLocalEgress cfg env resolver)
            (\<lambda>localEgressAddresses.
               let request = discoveryRequest cfg tailnetState (rss_NameServers resolver) in
               chain (require (invalid (\<lambda>es. Wrapped ''build network discovery request'' (RequestErrors es)) (request_Validate request)))
                 (\<lambda>u. chain (on_error (\<lambda>e. Wrapped ''discover network state'' (PortFailed e)) (discover env request))
                   (\<lambda>snapshot.
                      chain (require (invalid (\<lambda>es. Wrapped ''validate network discovery'' (SnapshotErrors es))
                               (snapshot_Validate snapshot request)))
                        (\<lambda>u. do {
                           modify (\<lambda>s. s\<lparr>rcl_lastTailnetLink := sn_TailnetLink snapshot\<rparr>);
                           ok (snapshot, localEgressAddresses) })))))"

definition reconcileCapability ::
  "configuration \<Rightarrow> environment \<Rightarrow> network_snapshot \<Rightarrow> (reconciler, rec_error + capability_evaluation) state" where
  "reconcileCapability cfg env snapshot =
     (if tnc_AdvertiseExitNode (cf_Tailnet cfg)
      then chain (on_error (\<lambda>e. Wrapped ''observe Internet capability'' (PortFailed e))
                   (observeCapability env (sn_ProxyTunnelLink snapshot)))
        (\<lambda>capability. chain (lift (now env))
          (\<lambda>t. case evaluateInternetCapability capability (sn_ProxyTunnelLink snapshot) t of
             Inl es \<Rightarrow> fail (CapabilityErrors es)
           | Inr evaluation \<Rightarrow> ok evaluation))
      else ok \<lparr>ce_activeExitDefaultRoutes = ExitNone, ce_conditions = []\<rparr>)"

definition desiredPreferences :: "configuration \<Rightarrow> exit_default_route_set \<Rightarrow> tailnet_preferences" where
  "desiredPreferences cfg active =
     (if \<not> exit_Empty active then NewTailnetExitNodePreferences (tnc_AdvertiseRoutes (cf_Tailnet cfg))
      else NewTailnetPreferences (tnc_AdvertiseRoutes (cf_Tailnet cfg)))"

definition reconcileConverge ::
  "configuration \<Rightarrow> environment \<Rightarrow> reconcile_report \<Rightarrow> tailnet_state \<Rightarrow> network_snapshot \<Rightarrow> resolved_addresses \<Rightarrow>
   exit_default_route_set \<Rightarrow> (reconciler, outcome) state" where
  "reconcileConverge cfg env report tailnetState snapshot localEgressAddresses active =
     (let desiredRouting = buildDesiredRouting cfg snapshot active;
          desiredPolicy = packetFilterPolicy cfg (sn_DNSEgressPaths snapshot) localEgressAddresses False;
          preferences = desiredPreferences cfg active;
          nonExitPreferencesMatch =
            (RoutesWithoutExitDefaults (ts_Preferences tailnetState) = RoutesWithoutExitDefaults preferences)
      in finish (chain (with_report report (planRouting cfg env desiredRouting))
           (\<lambda>routingChanges. chain (with_report report (observePacketFilter env desiredPolicy))
             (\<lambda>observation.
                let (transition, onlyExitDefaultRoutesChanged) = classifyExitDefaultRouteTransition routingChanges (cf_Network cfg) in
                lift (if changes_Empty routingChanges \<and> Matches observation desiredPolicy
                      then reconcileNoDrift cfg env report tailnetState desiredRouting desiredPolicy preferences active
                      else if nonExitPreferencesMatch \<and> onlyExitDefaultRoutesChanged \<and> Matches observation desiredPolicy
                      then reconcileIsolatedExitDefaultTransition cfg env report tailnetState desiredRouting desiredPolicy
                             preferences active transition
                      else reconcileGlobalDrift cfg env report tailnetState desiredRouting desiredPolicy preferences active
                             routingChanges (NewTailnetPreferences []))))))"

definition Reconcile :: "configuration \<Rightarrow> environment \<Rightarrow> (reconciler, outcome) state" where
  "Reconcile cfg env =
     finish (chain (reconcileTailnet cfg env (NewTailnetPreferences []))
       (\<lambda>(tailnetState, report). chain (with_report report (reconcileDiscovery cfg env tailnetState))
         (\<lambda>(snapshot, localEgressAddresses). chain (with_report report (reconcileCapability cfg env snapshot))
           (\<lambda>evaluation.
              lift (reconcileConverge cfg env
                (report\<lparr>rp_Conditions := rp_Conditions report @ ce_conditions evaluation\<rparr>)
                tailnetState snapshot localEgressAddresses (ce_activeExitDefaultRoutes evaluation))))))"

section \<open>Preparation\<close>

definition establishQuarantine :: "configuration \<Rightarrow> environment \<Rightarrow> (reconciler, rec_error + unit) state" where
  "establishQuarantine cfg env = do {
     let policy = safetyPacketFilterPolicy cfg;
     (writes, err) \<leftarrow> reconcilePacketFilter env policy;
     chain (require (wrapOptional ''establish forwarding quarantine'' err))
       (\<lambda>u. do {
          modify (\<lambda>s. s\<lparr>rcl_lastPacketPolicy := policy, rcl_hasPacketPolicy := True, rcl_quarantined := True\<rparr>);
          (writes, err) \<leftarrow> reconcileRouting cfg env (buildSafetyRouting cfg);
          require (wrapOptional ''establish fail-closed routing baseline'' err) }) }"

definition prepareDataPlane :: "configuration \<Rightarrow> environment \<Rightarrow> resolved_addresses \<Rightarrow> link_identity \<Rightarrow> (reconciler, rec_error + unit) state" where
  "prepareDataPlane cfg env localEgressAddresses proxyTunnelLink = do {
     (writes, err) \<leftarrow> reconcileRouting cfg env (buildPreparedRouting cfg proxyTunnelLink);
     chain (require (wrapOptional ''prepare local control-plane routing'' err))
       (\<lambda>u. do {
          let policy = packetFilterPolicy cfg [] localEgressAddresses True;
          (writes, err) \<leftarrow> reconcilePacketFilter env policy;
          chain (require (wrapOptional ''prepare local control-plane packet marking'' err))
            (\<lambda>u. do { modify (\<lambda>s. s\<lparr>rcl_lastPacketPolicy := policy\<rparr>); ok () }) }) }"

definition prepareLocalEgress :: "configuration \<Rightarrow> environment \<Rightarrow> (reconciler, rec_error + unit) state" where
  "prepareLocalEgress cfg env =
     chain (on_error (\<lambda>e. Wrapped ''read DNS resolver snapshot'' (PortFailed e)) (resolverSnapshot env))
       (\<lambda>resolver. chain (on_error (Wrapped ''prepare local control-plane destinations'') (resolveLocalEgress cfg env resolver))
         (\<lambda>localEgressAddresses.
            chain (on_error (\<lambda>e. Wrapped ''discover proxy tunnel before managed process startup'' (PortFailed e))
                     (discoverProxyTunnel env \<lparr>pq_Addresses = nc_ProxyTunnelAddresses (cf_Network cfg)\<rparr>))
              (\<lambda>proxyTunnelLink.
                 chain (require (wrapOptional ''validate proxy tunnel before managed process startup''
                          (map_option LinkInvalid (link_Validate proxyTunnelLink))))
                   (\<lambda>u. prepareDataPlane cfg env localEgressAddresses proxyTunnelLink))))"

definition Prepare :: "configuration \<Rightarrow> environment \<Rightarrow> (reconciler, rec_error + unit) state" where
  "Prepare cfg env =
     chain (establishQuarantine cfg env)
       (\<lambda>u. chain (on_error (\<lambda>e. Wrapped ''verify kernel prerequisites'' (PortFailed e)) (check (kernelCheck env)))
         (\<lambda>u. if \<not> lc_Enabled (fc_LocalEgress (cf_PacketFilter cfg)) then ok () else prepareLocalEgress cfg env))"

section \<open>Failing closed\<close>

definition liveFailClosedState ::
  "configuration \<Rightarrow> environment \<Rightarrow> (reconciler, rec_error + routing_state \<times> packet_filter_policy) state" where
  "liveFailClosedState cfg env =
     chain (on_error (\<lambda>e. Wrapped ''verify kernel prerequisites'' (PortFailed e)) (check (kernelCheck env)))
       (\<lambda>u. chain (on_error (\<lambda>e. Wrapped ''read DNS resolver snapshot'' (PortFailed e)) (resolverSnapshot env))
         (\<lambda>resolver. chain (on_error (Wrapped ''resolve local control-plane destinations'') (resolveLocalEgress cfg env resolver))
           (\<lambda>localEgressAddresses.
              chain (on_error (\<lambda>e. Wrapped ''discover proxy tunnel'' (PortFailed e))
                       (discoverProxyTunnel env \<lparr>pq_Addresses = nc_ProxyTunnelAddresses (cf_Network cfg)\<rparr>))
                (\<lambda>proxyTunnelLink.
                   chain (require (wrapOptional ''validate proxy tunnel'' (map_option LinkInvalid (link_Validate proxyTunnelLink))))
                     (\<lambda>u. do {
                        s \<leftarrow> State_Monad.get;
                        ok (buildFailClosedRouting cfg (rcl_lastTailnetLink s) proxyTunnelLink,
                            packetFilterPolicy cfg [] localEgressAddresses True) })))))"

text \<open>What the attempt to keep local control egress leaves for the rest of the function.\<close>

record recovery =
  rec_report :: reconcile_report
  rec_routing :: routing_state
  rec_policy :: packet_filter_policy
  rec_stateErr :: "rec_error option"
  rec_policyErr :: "rec_error option"
  rec_ready :: bool

definition failClosedRecovery ::
  "configuration \<Rightarrow> environment \<Rightarrow> reconcile_report \<Rightarrow> routing_state \<Rightarrow> packet_filter_policy \<Rightarrow> bool \<Rightarrow> (reconciler, recovery) state" where
  "failClosedRecovery cfg env report strictRouting policy attempt =
     (let strict = \<lparr>rec_report = report, rec_routing = strictRouting, rec_policy = policy, rec_stateErr = None,
                    rec_policyErr = None, rec_ready = False\<rparr>
      in if \<not> attempt then State_Monad.return strict
         else do {
           live \<leftarrow> liveFailClosedState cfg env;
           case live of
             Inl e \<Rightarrow> State_Monad.return (strict\<lparr>rec_stateErr := Some e\<rparr>)
           | Inr (desiredRouting, recoveryPolicy) \<Rightarrow> do {
               (writes, err) \<leftarrow> reconcilePacketFilter env recoveryPolicy;
               let strict = strict\<lparr>rec_report := record_filter report writes\<rparr>;
               State_Monad.return (case err of
                 None \<Rightarrow> strict\<lparr>rec_routing := desiredRouting, rec_policy := recoveryPolicy, rec_ready := True\<rparr>
               | Some e \<Rightarrow> strict\<lparr>rec_policyErr := Some e\<rparr>) } })"

definition reverifyRecovery :: "configuration \<Rightarrow> environment \<Rightarrow> recovery \<Rightarrow> rec_error option \<Rightarrow> (reconciler, rec_error option) state" where
  "reverifyRecovery cfg env recovery routingErr =
     (if routingErr = None \<and> rec_ready recovery
      then do {
        verification \<leftarrow> verifyRouting cfg env (rec_routing recovery);
        case verification of
          Some e \<Rightarrow> State_Monad.return (Some (Wrapped ''verify local control-plane recovery routing'' e))
        | None \<Rightarrow> do {
            kernel \<leftarrow> kernelCheck env;
            State_Monad.return (wrapOptional ''reverify kernel prerequisites for local control-plane recovery'' (map_option PortFailed kernel)) } }
      else State_Monad.return routingErr)"

definition fallbackRouting ::
  "configuration \<Rightarrow> environment \<Rightarrow> routing_state \<Rightarrow> recovery \<Rightarrow> reconcile_report \<Rightarrow> rec_error option \<Rightarrow> (reconciler, outcome) state" where
  "fallbackRouting cfg env strictRouting recovery report routingErr =
     (if routingErr \<noteq> None \<and> rec_ready recovery
      then do {
        (fallbackWrites, fallbackErr) \<leftarrow> reconcileRouting cfg env strictRouting;
        State_Monad.return (record_routing report fallbackWrites,
          joinErrors [routingErr, wrapOptional ''restore strict fail-closed routing after recovery-path failure'' fallbackErr]) }
      else State_Monad.return (report, routingErr))"

definition failClosedRouting ::
  "configuration \<Rightarrow> environment \<Rightarrow> routing_state \<Rightarrow> recovery \<Rightarrow> (reconciler, outcome) state" where
  "failClosedRouting cfg env strictRouting recovery = do {
     (routingWrites, routingErr) \<leftarrow> reconcileRouting cfg env (rec_routing recovery);
     routingErr \<leftarrow> reverifyRecovery cfg env recovery routingErr;
     fallbackRouting cfg env strictRouting recovery (record_routing (rec_report recovery) routingWrites) routingErr }"

definition failClosedTailnet ::
  "configuration \<Rightarrow> environment \<Rightarrow> reconcile_report \<Rightarrow> (reconciler, reconcile_report \<times> rec_error option \<times> rec_error option) state" where
  "failClosedTailnet cfg env report = do {
     read \<leftarrow> readTailnetState cfg env;
     case read of
       Inl readErr \<Rightarrow> State_Monad.return (report, Some readErr, None)
     | Inr tailnetState \<Rightarrow>
         if preferences_Equal (ts_Preferences tailnetState) (NewTailnetPreferences []) then State_Monad.return (report, None, None)
         else do {
           written \<leftarrow> writeAndVerifyTailnetPreferences cfg env (NewTailnetPreferences []);
           State_Monad.return (case written of
             Inl preferenceErr \<Rightarrow> (report, None, Some preferenceErr)
           | Inr verifiedState \<Rightarrow> (report\<lparr>rp_TailnetWrites := rp_TailnetWrites report + 1, rp_Changed := True\<rparr>, None, None)) } }"

text \<open>The body of \<^verbatim>\<open>failClosed\<close>; with its outcome it returns the policy that the deferred function records.\<close>

definition failClosedBody ::
  "configuration \<Rightarrow> environment \<Rightarrow> bool \<Rightarrow> packet_filter_policy \<Rightarrow> (reconciler, outcome \<times> packet_filter_policy) state" where
  "failClosedBody cfg env retainLocalControlEgress policy = do {
     (writes, packetFilterErr) \<leftarrow> reconcilePacketFilter env policy;
     let report = record_filter ReportZero writes;
     cancellation \<leftarrow> contextErr env;
     case cancellation of
       Some c \<Rightarrow> State_Monad.return ((report, joinErrors [wrapOptional ''close forwarding quarantine'' packetFilterErr, Some (PortFailed c)]), policy)
     | None \<Rightarrow> do {
         s \<leftarrow> State_Monad.get;
         let strictRouting = buildFailClosedRouting cfg (rcl_lastTailnetLink s) LinkZero;
         recovery \<leftarrow> failClosedRecovery cfg env report strictRouting policy
           (retainLocalControlEgress \<and> lc_Enabled (fc_LocalEgress (cf_PacketFilter cfg)) \<and> packetFilterErr = None);
         (report, routingErr) \<leftarrow> failClosedRouting cfg env strictRouting recovery;
         let errs = [wrapOptional ''close forwarding quarantine'' packetFilterErr,
                     wrapOptional ''verify local control-plane recovery path'' (rec_stateErr recovery),
                     wrapOptional ''refresh fail-closed local control-plane marking'' (rec_policyErr recovery),
                     wrapOptional ''establish fail-closed routing'' routingErr];
         cancellation \<leftarrow> contextErr env;
         case cancellation of
           Some c \<Rightarrow> State_Monad.return ((report, joinErrors (errs @ [Some (PortFailed c)])), rec_policy recovery)
         | None \<Rightarrow> do {
             (report, readErr, preferenceErr) \<leftarrow> failClosedTailnet cfg env report;
             State_Monad.return ((report, joinErrors (errs @
               [wrapOptional ''read Tailscale state while failing closed'' readErr,
                wrapOptional ''clear Tailscale advertisements while failing closed'' preferenceErr])), rec_policy recovery) } } }"

definition failClosed :: "configuration \<Rightarrow> environment \<Rightarrow> bool \<Rightarrow> (reconciler, outcome) state" where
  "failClosed cfg env retainLocalControlEgress = do {
     s \<leftarrow> State_Monad.get;
     (outcome, policy) \<leftarrow> failClosedBody cfg env retainLocalControlEgress
       (if rcl_hasPacketPolicy s then (rcl_lastPacketPolicy s)\<lparr>pf_GateClosed := True\<rparr> else safetyPacketFilterPolicy cfg);
     modify (\<lambda>s. s\<lparr>rcl_lastPacketPolicy := policy, rcl_hasPacketPolicy := True, rcl_quarantined := True\<rparr>);
     State_Monad.return outcome }"

definition FailClosed :: "configuration \<Rightarrow> environment \<Rightarrow> (reconciler, outcome) state" where
  "FailClosed cfg env = failClosed cfg env True"

definition Shutdown :: "configuration \<Rightarrow> environment \<Rightarrow> (reconciler, rec_error option) state" where
  "Shutdown cfg env = do { (report, err) \<leftarrow> failClosed cfg env False; State_Monad.return err }"

end
