(* ===== verification/Reconciler_Safety.thy ===== *)
theory Reconciler_Safety
  imports Reconciler
begin

text \<open>
  What the reconciler guarantees about the order of its calls. Monitors read the history: what the latest reads have
  verified since the last write, and how much has been written. A history is safe when every write it
  contains was guarded: routing is changed behind a verified closed gate, or only towards blackholes, or only in exit
  defaults; the gate is opened only over verified routing; an exit node is advertised only over a verified data plane.
\<close>

section \<open>Monitors\<close>

fun routing_verified :: "configuration \<Rightarrow> routing_state \<Rightarrow> history \<Rightarrow> bool" where
  "routing_verified cfg desired [] = False"
| "routing_verified cfg desired (ReadRouting own r # h) =
     (case r of Inl e \<Rightarrow> False | Inr observed \<Rightarrow> DiffRouting desired observed (routingOwnership cfg) = Inr ChangesZero)"
| "routing_verified cfg desired (ApplyRouting ch w e # h) = False"
| "routing_verified cfg desired (c # h) = routing_verified cfg desired h"

fun filter_verified :: "packet_filter_policy \<Rightarrow> history \<Rightarrow> bool" where
  "filter_verified policy [] = False"
| "filter_verified policy (ObserveFilter p r # h) =
     (case r of Inl e \<Rightarrow> False | Inr observation \<Rightarrow> p = policy \<and> Matches observation p)"
| "filter_verified policy (ApplyFilter p obs e # h) = False"
| "filter_verified policy (c # h) = filter_verified policy h"

fun kernel_verified :: "history \<Rightarrow> bool" where
  "kernel_verified [] = False"
| "kernel_verified (KernelCheck r # h) = (r = None)"
| "kernel_verified (ApplyRouting ch w e # h) = False"
| "kernel_verified (ApplyFilter p obs e # h) = False"
| "kernel_verified (c # h) = kernel_verified h"

fun routing_writes :: "history \<Rightarrow> int" where
  "routing_writes [] = 0"
| "routing_writes (ApplyRouting ch w e # h) = w + routing_writes h"
| "routing_writes (c # h) = routing_writes h"

fun filter_writes :: "history \<Rightarrow> int" where
  "filter_writes [] = 0"
| "filter_writes (ApplyFilter p obs e # h) = (if e = None then 1 else 0) + filter_writes h"
| "filter_writes (c # h) = filter_writes h"

section \<open>Guards\<close>

definition blackholes_only :: "routing_changes \<Rightarrow> bool" where
  "blackholes_only ch \<longleftrightarrow> (\<forall>r \<in> set (ch_UpsertRoutes ch). route_Disposition r = RouteBlackhole)"

definition exit_defaults_only :: "configuration \<Rightarrow> routing_changes \<Rightarrow> bool" where
  "exit_defaults_only cfg ch \<longleftrightarrow> ch_AddRules ch = [] \<and> ch_DeleteRules ch = [] \<and>
     (\<forall>r \<in> set (ch_UpsertRoutes ch) \<union> set (ch_DeleteRoutes ch). isActiveExitDefaultRoute r (cf_Network cfg))"

definition gate_closed :: "history \<Rightarrow> bool" where
  "gate_closed h \<longleftrightarrow> (\<exists>policy. pf_GateClosed policy \<and> filter_verified policy h)"

definition may_apply :: "configuration \<Rightarrow> routing_changes \<Rightarrow> history \<Rightarrow> bool" where
  "may_apply cfg ch h \<longleftrightarrow> gate_closed h \<or> blackholes_only ch \<or> exit_defaults_only cfg ch"

definition may_open :: "configuration \<Rightarrow> history \<Rightarrow> bool" where
  "may_open cfg h \<longleftrightarrow> (\<exists>snapshot active. routing_verified cfg (buildDesiredRouting cfg snapshot active) h)"

definition may_advertise :: "configuration \<Rightarrow> history \<Rightarrow> bool" where
  "may_advertise cfg h \<longleftrightarrow> (\<exists>snapshot active policy. \<not> exit_Empty active \<and>
     routing_verified cfg (buildDesiredRouting cfg snapshot active) h \<and>
     \<not> pf_GateClosed policy \<and> filter_verified policy h \<and> kernel_verified h)"

fun guarded :: "configuration \<Rightarrow> call \<Rightarrow> history \<Rightarrow> bool" where
  "guarded cfg (ApplyRouting ch w e) h = may_apply cfg ch h"
| "guarded cfg (ApplyFilter policy obs e) h = (pf_GateClosed policy \<or> may_open cfg h)"
| "guarded cfg (WritePreferences preferences e) h = (HasExitDefaultRoutes preferences \<longrightarrow> may_advertise cfg h)"
| "guarded cfg c h = True"

fun safe :: "configuration \<Rightarrow> history \<Rightarrow> bool" where
  "safe cfg [] = True"
| "safe cfg (c # h) = (guarded cfg c h \<and> safe cfg h)"

section \<open>Runs without data-plane calls\<close>

fun quiet :: "call \<Rightarrow> bool" where
  "quiet (KernelCheck r) = False"
| "quiet (ReadRouting own r) = False"
| "quiet (ApplyRouting ch w e) = False"
| "quiet (ObserveFilter p r) = False"
| "quiet (ApplyFilter p obs e) = False"
| "quiet (WritePreferences p e) = False"
| "quiet c = True"

lemma quiet_guarded: "quiet c \<Longrightarrow> guarded cfg c h"
  by (cases c) simp_all

lemma quiet_monitors:
  assumes "quiet c"
  shows "routing_verified cfg d (c # h) = routing_verified cfg d h" "filter_verified p (c # h) = filter_verified p h"
    "kernel_verified (c # h) = kernel_verified h" "routing_writes (c # h) = routing_writes h"
    "filter_writes (c # h) = filter_writes h" "safe cfg (c # h) = safe cfg h"
  using assms by (cases c; simp)+

text \<open>The fields that only the operations on the gate change.\<close>

definition gate_fields :: "reconciler \<Rightarrow> packet_filter_policy \<times> bool \<times> bool" where
  "gate_fields s = (rcl_lastPacketPolicy s, rcl_hasPacketPolicy s, rcl_quarantined s)"

definition keeps_routing :: "reconciler \<Rightarrow> reconciler \<Rightarrow> bool" where
  "keeps_routing s s' \<longleftrightarrow> (\<forall>cfg d. routing_verified cfg d (rcl_history s') = routing_verified cfg d (rcl_history s))"

definition keeps_filter :: "reconciler \<Rightarrow> reconciler \<Rightarrow> bool" where
  "keeps_filter s s' \<longleftrightarrow> (\<forall>p. filter_verified p (rcl_history s') = filter_verified p (rcl_history s))"

definition evolves :: "configuration \<Rightarrow> int \<Rightarrow> int \<Rightarrow> reconciler \<Rightarrow> reconciler \<Rightarrow> bool" where
  "evolves cfg rw fw s s' \<longleftrightarrow>
     (safe cfg (rcl_history s) \<longrightarrow> safe cfg (rcl_history s')) \<and> gate_fields s' = gate_fields s \<and>
     routing_writes (rcl_history s') = routing_writes (rcl_history s) + rw \<and>
     filter_writes (rcl_history s') = filter_writes (rcl_history s) + fw"

definition quiet_run :: "reconciler \<Rightarrow> reconciler \<Rightarrow> bool" where
  "quiet_run s s' \<longleftrightarrow> (\<forall>cfg. evolves cfg 0 0 s s') \<and> keeps_routing s s' \<and> keeps_filter s s' \<and>
     kernel_verified (rcl_history s') = kernel_verified (rcl_history s)"

named_theorems quiet_rules "specifications of computations that make no data-plane call"
named_theorems spec_rules "specifications of computations that touch the data plane"

lemma evolves_refl [simp, intro]: "evolves cfg 0 0 s s"
  by (simp add: evolves_def)

lemma evolves_trans [trans]:
  "evolves cfg a b s t \<Longrightarrow> evolves cfg a' b' t u \<Longrightarrow> evolves cfg (a + a') (b + b') s u"
  by (simp add: evolves_def)

lemma quiet_run_refl [simp, intro]: "quiet_run s s"
  by (simp add: quiet_run_def keeps_routing_def keeps_filter_def)

lemma quiet_run_trans [trans]: "quiet_run s t \<Longrightarrow> quiet_run t u \<Longrightarrow> quiet_run s u"
  by (simp add: quiet_run_def evolves_def keeps_routing_def keeps_filter_def)

lemma quiet_run_call: "quiet c \<Longrightarrow> quiet_run s (s\<lparr>rcl_history := c # rcl_history s\<rparr>)"
  by (simp add: quiet_run_def evolves_def keeps_routing_def keeps_filter_def quiet_monitors quiet_guarded gate_fields_def)

lemma quiet_run_cache: "quiet_run s (s\<lparr>rcl_addressCache := cache\<rparr>)" "quiet_run s (s\<lparr>rcl_lastTailnetLink := link\<rparr>)"
  by (simp_all add: quiet_run_def evolves_def keeps_routing_def keeps_filter_def gate_fields_def)

definition quietly :: "(reconciler, 'a) state \<Rightarrow> bool" where
  "quietly m \<longleftrightarrow> (\<forall>s. wp m (\<lambda>r s'. quiet_run s s') s)"

lemma quietlyD: "quietly m \<Longrightarrow> run_state m s = (r, s') \<Longrightarrow> quiet_run s s'"
  unfolding quietly_def using wp_run by fast

lemma quietly_return [quiet_rules]: "quietly (State_Monad.return x)" "quietly (ok a)" "quietly (fail e)" "quietly State_Monad.get"
  by (simp_all add: quietly_def)

lemma quietly_bind [quiet_rules]: "quietly m \<Longrightarrow> (\<And>x. quietly (f x)) \<Longrightarrow> quietly (State_Monad.bind m f)"
  unfolding quietly_def wp_bind
proof (intro allI, elim allE)
  fix s
  assume f: "\<And>x. \<forall>s. wp (f x) (\<lambda>r s'. quiet_run s s') s" and "wp m (\<lambda>r s'. quiet_run s s') s"
  then show "wp m (\<lambda>x. wp (f x) (\<lambda>r s'. quiet_run s s')) s"
    by (elim wp_mono) (rule wp_mono [OF f [rule_format]], erule (1) quiet_run_trans)
qed

lemma quietly_require [quiet_rules]: "quietly (require e)"
  by (cases e) (simp_all add: require_def quiet_rules)

lemma quietly_chain [quiet_rules]: "quietly m \<Longrightarrow> (\<And>x. quietly (f x)) \<Longrightarrow> quietly (chain m f)"
  unfolding chain_def by (intro quiet_rules) (auto simp: quiet_rules split: sum.split)

lemma quietly_on_error [quiet_rules]: "quietly m \<Longrightarrow> quietly (on_error g m)"
  unfolding on_error_def by (intro quiet_rules) (auto simp: quiet_rules split: sum.split)

lemma quietly_check [quiet_rules]: "quietly m \<Longrightarrow> quietly (check m)"
  unfolding check_def by (intro quiet_rules) (auto simp: quiet_rules split: option.split)

lemma quietly_lift [quiet_rules]: "quietly m \<Longrightarrow> quietly (lift m)"
  unfolding lift_def by (intro quiet_rules)

lemma quietly_invoke: "(\<And>r. quiet (event r)) \<Longrightarrow> quietly (invoke response event)"
  by (simp add: quietly_def quiet_run_call)

lemma quietly_calls [quiet_rules]:
  "quietly (contextErr env)" "quietly (now env)" "quietly (discoverProxyTunnel env request)" "quietly (discover env query)"
  "quietly (resolverSnapshot env)" "quietly (resolveDomain env resolver d)" "quietly (readState env)"
  "quietly (observeCapability env link)"
  unfolding call_defs by (auto intro!: quietly_invoke)

lemma quietly_cases [quiet_rules]:
  "(\<And>x. quietly (f x)) \<Longrightarrow> (\<And>y. quietly (g y)) \<Longrightarrow> quietly (case r of Inl x \<Rightarrow> f x | Inr y \<Rightarrow> g y)"
  "quietly m \<Longrightarrow> (\<And>y. quietly (h y)) \<Longrightarrow> quietly (case v of None \<Rightarrow> m | Some y \<Rightarrow> h y)"
  "quietly m \<Longrightarrow> quietly n \<Longrightarrow> quietly (if b then m else n)"
  "(\<And>x y. quietly (k x y)) \<Longrightarrow> quietly (case p of (x, y) \<Rightarrow> k x y)"
  by (auto split: sum.split option.split prod.split)

lemma quietly_modify [quiet_rules]:
  "quietly (modify (\<lambda>s. s\<lparr>rcl_addressCache := cache s\<rparr>))" "quietly (modify (\<lambda>s. s\<lparr>rcl_lastTailnetLink := link\<rparr>))"
  by (simp_all add: quietly_def quiet_run_cache)

lemma quietly_readTailnetState [quiet_rules]: "quietly (readTailnetState cfg env)"
  unfolding readTailnetState_def by (intro quiet_rules)

lemma quietly_resolveOne [quiet_rules]: "quietly (resolveOne env local resolver t d)"
  unfolding resolveOne_def refreshDomain_def Let_def by (intro quiet_rules)

lemma quietly_resolveLoop [quiet_rules]: "quietly (resolveLoop env local resolver t ds combined errs)"
  by (induction ds arbitrary: combined errs) (auto intro!: quiet_rules split: sum.split)

lemma quietly_resolveLocalEgress [quiet_rules]: "quietly (resolveLocalEgress cfg env resolver)"
  unfolding resolveLocalEgress_def Let_def by (intro quiet_rules)

lemma quietly_reconcileDiscovery [quiet_rules]: "quietly (reconcileDiscovery cfg env state)"
  unfolding reconcileDiscovery_def Let_def by (intro quiet_rules)

lemma quietly_reconcileCapability [quiet_rules]: "quietly (reconcileCapability cfg env snapshot)"
  unfolding reconcileCapability_def by (intro quiet_rules)

lemma quietly_require_live [quiet_rules]: "quietly (require_live env report)"
  unfolding require_live_def by (intro quiet_rules)

lemma quiet_wp: "quietly m \<Longrightarrow> (\<And>r s'. quiet_run s s' \<Longrightarrow> Q r s') \<Longrightarrow> wp m Q s"
  unfolding quietly_def by (blast intro: wp_mono)

section \<open>Specifications of the data-plane operations\<close>

definition keeps_kernel :: "reconciler \<Rightarrow> reconciler \<Rightarrow> bool" where
  "keeps_kernel s s' \<longleftrightarrow> kernel_verified (rcl_history s') = kernel_verified (rcl_history s)"

lemmas keeps_defs = keeps_routing_def keeps_filter_def keeps_kernel_def evolves_def gate_fields_def

lemma quiet_runD:
  assumes "quiet_run s s'"
  shows "evolves cfg 0 0 s s'" "keeps_routing s s'" "keeps_filter s s'" "keeps_kernel s s'"
  using assms by (auto simp: quiet_run_def keeps_kernel_def)

lemma keeps_refl [simp, intro]: "keeps_filter s s" "keeps_routing s s" "keeps_kernel s s"
  by (simp_all add: keeps_filter_def keeps_routing_def keeps_kernel_def)

lemma planRouting_wp:
  assumes "\<And>r s'. evolves cfg 0 0 s s' \<Longrightarrow> keeps_filter s s' \<Longrightarrow> keeps_kernel s s' \<Longrightarrow>
      (\<And>ch. r = Inr ch \<Longrightarrow> (\<exists>observed. DiffRouting desired observed (routingOwnership cfg) = Inr ch) \<and>
         (changes_Empty ch \<longrightarrow> routing_verified cfg desired (rcl_history s'))) \<Longrightarrow> Q r s'"
  shows "wp (planRouting cfg env desired) Q s"
  unfolding planRouting_def call_defs wp_rules
  by (auto simp: keeps_defs split: sum.split intro!: assms)

lemma verifyRouting_wp:
  assumes "\<And>r s'. evolves cfg 0 0 s s' \<Longrightarrow> keeps_filter s s' \<Longrightarrow> keeps_kernel s s' \<Longrightarrow>
      (r = None \<Longrightarrow> routing_verified cfg desired (rcl_history s')) \<Longrightarrow> Q r s'"
  shows "wp (verifyRouting cfg env desired) Q s"
  unfolding verifyRouting_def call_defs wp_rules
  by (rule assms) (auto simp: keeps_defs split: sum.splits if_splits)

lemma applyRoutingChanges_wp:
  assumes "changes_Empty ch \<or> may_apply cfg ch (rcl_history s)"
    and "\<And>w err s'. evolves cfg w 0 s s' \<Longrightarrow> keeps_filter s s' \<Longrightarrow> Q (w, err) s'"
  shows "wp (applyRoutingChanges env ch) Q s"
  using assms(1) unfolding applyRoutingChanges_def call_defs wp_rules
  by (auto simp: keeps_defs split: prod.split intro!: assms(2))

lemma applyRoutingPlan_wp:
  assumes "if changes_Empty ch then routing_verified cfg desired (rcl_history s) else may_apply cfg ch (rcl_history s)"
    and "\<And>w err s'. evolves cfg w 0 s s' \<Longrightarrow> keeps_filter s s' \<Longrightarrow>
      (err = None \<Longrightarrow> routing_verified cfg desired (rcl_history s')) \<Longrightarrow> Q (w, err) s'"
  shows "wp (applyRoutingPlan cfg env desired ch) Q s"
proof (cases "changes_Empty ch")
  case True
  then show ?thesis
    using assms(1) unfolding applyRoutingPlan_def by (auto simp: keeps_defs intro!: assms(2))
next
  case False
  have "wp (applyRoutingChanges env ch) (\<lambda>r s'. wp (case r of (w, err) \<Rightarrow>
      case err of Some e \<Rightarrow> State_Monad.return (w, Some e)
        | None \<Rightarrow> do { verification \<leftarrow> verifyRouting cfg env desired; State_Monad.return (w, verification) }) Q s') s"
  proof (rule applyRoutingChanges_wp)
    fix w err s'
    assume s': "evolves cfg w 0 s s'" "keeps_filter s s'"
    show "wp (case (w, err) of (w, err) \<Rightarrow>
      case err of Some e \<Rightarrow> State_Monad.return (w, Some e)
        | None \<Rightarrow> do { verification \<leftarrow> verifyRouting cfg env desired; State_Monad.return (w, verification) }) Q s'"
      using s' by (cases err) (auto simp: keeps_defs intro!: verifyRouting_wp [of cfg] assms(2))
  qed (use False assms(1) in auto)
  with False show ?thesis unfolding applyRoutingPlan_def wp_rules by simp
qed

lemma may_apply_keeps: "keeps_filter s s' \<Longrightarrow> may_apply cfg ch (rcl_history s') \<longleftrightarrow> may_apply cfg ch (rcl_history s)"
  by (simp add: may_apply_def gate_closed_def keeps_filter_def)

lemma evolves_trans0: "evolves cfg 0 0 s t \<Longrightarrow> evolves cfg a b t u \<Longrightarrow> evolves cfg a b s u"
  "evolves cfg a b s t \<Longrightarrow> evolves cfg 0 0 t u \<Longrightarrow> evolves cfg a b s u"
  by (simp_all add: evolves_def)

lemma keeps_trans [trans]:
  "keeps_filter s t \<Longrightarrow> keeps_filter t u \<Longrightarrow> keeps_filter s u"
  "keeps_routing s t \<Longrightarrow> keeps_routing t u \<Longrightarrow> keeps_routing s u"
  "keeps_kernel s t \<Longrightarrow> keeps_kernel t u \<Longrightarrow> keeps_kernel s u"
  by (simp_all add: keeps_filter_def keeps_routing_def keeps_kernel_def)

lemma reconcileRouting_wp:
  assumes may: "\<And>ch observed. DiffRouting desired observed (routingOwnership cfg) = Inr ch \<Longrightarrow> may_apply cfg ch (rcl_history s)"
    and Q: "\<And>w err s'. evolves cfg w 0 s s' \<Longrightarrow> keeps_filter s s' \<Longrightarrow>
      (err = None \<Longrightarrow> routing_verified cfg desired (rcl_history s')) \<Longrightarrow> Q (w, err) s'"
  shows "wp (reconcileRouting cfg env desired) Q s"
  unfolding reconcileRouting_def wp_bind
proof (rule planRouting_wp)
  fix r :: "rec_error + routing_changes" and s'
  assume s': "evolves cfg 0 0 s s'" "keeps_filter s s'"
    and ch: "\<And>ch. r = Inr ch \<Longrightarrow> (\<exists>observed. DiffRouting desired observed (routingOwnership cfg) = Inr ch) \<and>
         (changes_Empty ch \<longrightarrow> routing_verified cfg desired (rcl_history s'))"
  show "wp (case r of Inl e \<Rightarrow> State_Monad.return (0, Some e) | Inr changes \<Rightarrow> applyRoutingPlan cfg env desired changes) Q s'"
  proof (cases r)
    case (Inl e)
    with s' show ?thesis by (auto intro!: Q)
  next
    case (Inr changes)
    then have "may_apply cfg changes (rcl_history s')" "changes_Empty changes \<longrightarrow> routing_verified cfg desired (rcl_history s')"
      using ch may may_apply_keeps [OF s'(2)] by blast+
    with Inr show ?thesis
      by (auto intro!: applyRoutingPlan_wp Q evolves_trans0(1) [OF s'(1)] keeps_trans(1) [OF s'(2)])
  qed
qed

lemma observePacketFilter_wp:
  assumes "\<And>r s'. evolves cfg 0 0 s s' \<Longrightarrow> keeps_routing s s' \<Longrightarrow> keeps_kernel s s' \<Longrightarrow>
      (\<And>observation. r = Inr observation \<Longrightarrow> Matches observation policy \<Longrightarrow> filter_verified policy (rcl_history s')) \<Longrightarrow>
      Q r s'"
  shows "wp (observePacketFilter env policy) Q s"
  unfolding observePacketFilter_def call_defs wp_rules
  by (auto simp: keeps_defs split: sum.split option.split intro!: assms)

lemma reconcilePacketFilter_wp:
  assumes pre: "pf_GateClosed policy \<or> may_open cfg (rcl_history s)"
    and Q: "\<And>w err s'. evolves cfg 0 w s s' \<Longrightarrow> keeps_routing s s' \<Longrightarrow>
      (err = None \<Longrightarrow> filter_verified policy (rcl_history s')) \<Longrightarrow> Q (w, err) s'"
  shows "wp (reconcilePacketFilter env policy) Q s"
  unfolding reconcilePacketFilter_def wp_bind
proof (rule observePacketFilter_wp [of cfg])
  fix r :: "rec_error + packet_filter_observation" and s'
  assume s': "evolves cfg 0 0 s s'" "keeps_routing s s'"
    and m: "\<And>obs. r = Inr obs \<Longrightarrow> Matches obs policy \<Longrightarrow> filter_verified policy (rcl_history s')"
  have pre': "pf_GateClosed policy \<or> may_open cfg (rcl_history s')"
    using pre s'(2) by (simp add: may_open_def keeps_routing_def)
  let ?after = "\<lambda>applied. case applied of
             Some e \<Rightarrow> State_Monad.return (0, Some (Wrapped ''apply managed nftables state'' (PortFailed e)))
           | None \<Rightarrow> do {
               verification \<leftarrow> observePacketFilter env policy;
               State_Monad.return (1, case verification of
                 Inl e \<Rightarrow> Some (Wrapped ''verify managed nftables state'' e)
               | Inr verified \<Rightarrow>
                   if \<not> Matches verified policy then Some (Message ''managed nftables state did not converge'') else None) }"
  have after: "wp (?after applied) Q t"
    if "evolves cfg 0 (if applied = None then 1 else 0) s t" "keeps_routing s t" for applied t
    using that by (cases applied)
      (auto intro!: Q observePacketFilter_wp [of cfg] intro: evolves_trans0(2) keeps_trans(2) split: sum.splits if_splits)
  have applied: "evolves cfg 0 (if a = None then 1 else 0) s (s'\<lparr>rcl_history := ApplyFilter policy obs a # rcl_history s'\<rparr>)"
    "keeps_routing s (s'\<lparr>rcl_history := ApplyFilter policy obs a # rcl_history s'\<rparr>)" for obs a
    using s' pre' by (auto simp: keeps_defs)
  show "wp (case r of Inl e \<Rightarrow> State_Monad.return (0, Some e)
     | Inr observation \<Rightarrow>
         if Matches observation policy then State_Monad.return (0, None)
         else applyFilter env policy observation \<bind> ?after) Q s'"
  proof (cases r)
    case (Inr obs)
    with m s' show ?thesis
      unfolding applyFilter_def by (auto intro!: Q after applied)
  qed (use s' in \<open>auto intro!: Q\<close>)
qed

lemma verifyDataPlane_wp:
  assumes Q: "\<And>r s'. evolves cfg 0 0 s s' \<Longrightarrow>
      (r = Inr () \<Longrightarrow> routing_verified cfg desired (rcl_history s') \<and> filter_verified policy (rcl_history s') \<and>
         kernel_verified (rcl_history s')) \<Longrightarrow> Q r s'"
  shows "wp (verifyDataPlane cfg env desired policy) Q s"
  unfolding verifyDataPlane_def wp_chain wp_on_error wp_check
  by (rule verifyRouting_wp)
    (auto split: sum.split option.split simp: kernelCheck_def keeps_defs
      intro!: Q observePacketFilter_wp [of cfg])

lemma writeAndVerify_wp:
  assumes pre: "HasExitDefaultRoutes preferences \<Longrightarrow> may_advertise cfg (rcl_history s)"
    and Q: "\<And>r s'. evolves cfg 0 0 s s' \<Longrightarrow> keeps_routing s s' \<Longrightarrow> keeps_filter s s' \<Longrightarrow> keeps_kernel s s' \<Longrightarrow>
      (\<And>state. r = Inr state \<Longrightarrow> preferences_Equal (ts_Preferences state) preferences) \<Longrightarrow> Q r s'"
  shows "wp (writeAndVerifyTailnetPreferences cfg env preferences) Q s"
proof -
  have written: "evolves cfg 0 0 s (s\<lparr>rcl_history := WritePreferences preferences e # rcl_history s\<rparr>)"
    "keeps_routing s (s\<lparr>rcl_history := WritePreferences preferences e # rcl_history s\<rparr>)"
    "keeps_filter s (s\<lparr>rcl_history := WritePreferences preferences e # rcl_history s\<rparr>)"
    "keeps_kernel s (s\<lparr>rcl_history := WritePreferences preferences e # rcl_history s\<rparr>)" for e
    using pre by (auto simp: keeps_defs)
  have after: "evolves cfg 0 0 s s'" "keeps_routing s s'" "keeps_filter s s'" "keeps_kernel s s'"
    if "quiet_run (s\<lparr>rcl_history := WritePreferences preferences e # rcl_history s\<rparr>) s'" for e s'
    using written [of e] quiet_runD [OF that] by (auto intro: evolves_trans0 keeps_trans)
  show ?thesis
    unfolding writeAndVerifyTailnetPreferences_def writeTailnetPreferences_def writePreferences_def
    by (auto split: option.split sum.split intro!: Q written quiet_wp [OF quietly_readTailnetState] dest: after
      simp del: preferences_Equal_iff)
qed

lemma publish_wp:
  assumes pre: "HasExitDefaultRoutes preferences \<Longrightarrow> may_advertise cfg (rcl_history s)"
    and Q: "\<And>r s'. evolves cfg 0 0 s s' \<Longrightarrow> keeps_routing s s' \<Longrightarrow> keeps_filter s s' \<Longrightarrow> keeps_kernel s s' \<Longrightarrow>
      (\<And>state report'. r = Inr (state, report') \<Longrightarrow> preferences_Equal (ts_Preferences state) preferences \<and>
         report' = report\<lparr>rp_TailnetWrites := rp_TailnetWrites report + 1, rp_Changed := True\<rparr>) \<Longrightarrow> Q r s'"
  shows "wp (publishTailnetPreferences cfg env report preferences operation) Q s"
  unfolding publishTailnetPreferences_def wp_rules
  by (rule writeAndVerify_wp [OF pre]) (auto split: sum.split intro!: Q)

end
