(* ===== verification/Reconciler_Convergence.thy ===== *)
theory Reconciler_Convergence
  imports Reconciler_Safety
begin

text \<open>
  The operations of the reconciler against the monitors: every operation keeps histories safe and its gate fields
  consistent, its report accounts for exactly the writes it made, and a reconciliation that succeeds leaves the
  verified desired state behind an open gate.
\<close>

section \<open>What an operation preserves\<close>

definition consistent :: "reconciler \<Rightarrow> bool" where
  "consistent s \<longleftrightarrow>
     (if rcl_hasPacketPolicy s then rcl_quarantined s = pf_GateClosed (rcl_lastPacketPolicy s) else rcl_quarantined s)"

definition accounts :: "configuration \<Rightarrow> reconciler \<Rightarrow> reconcile_report \<Rightarrow> reconciler \<Rightarrow> bool" where
  "accounts cfg start report s \<longleftrightarrow>
     (safe cfg (rcl_history start) \<longrightarrow> safe cfg (rcl_history s)) \<and> (consistent start \<longrightarrow> consistent s) \<and>
     rp_RoutingWrites report = routing_writes (rcl_history s) - routing_writes (rcl_history start) \<and>
     rp_PacketFilterWrites report = filter_writes (rcl_history s) - filter_writes (rcl_history start)"

lemma accounts_start: "accounts cfg s ReportZero s"
  by (simp add: accounts_def ReportZero_def)

lemma accounts_evolves:
  assumes "accounts cfg start report s" "evolves cfg rw fw s s'"
  shows "rw = 0 \<Longrightarrow> fw = 0 \<Longrightarrow> accounts cfg start report s'"
    "fw = 0 \<Longrightarrow> accounts cfg start (record_routing report rw) s'"
    "rw = 0 \<Longrightarrow> accounts cfg start (record_filter report fw) s'"
  using assms by (auto simp: accounts_def evolves_def record_routing_def record_filter_def consistent_def gate_fields_def)

lemma accounts_report:
  assumes "accounts cfg start report s"
  shows "accounts cfg start (report\<lparr>rp_TailnetWrites := n, rp_Changed := b\<rparr>) s"
    "accounts cfg start (report\<lparr>rp_Conditions := cs\<rparr>) s"
    "accounts cfg start (completeReconcileReport cfg report state preferences active) s"
  using assms by (simp_all add: accounts_def completeReconcileReport_def recordRouteApprovals_def Let_def)

lemma accounts_gate:
  assumes "accounts cfg start report s" "b = pf_GateClosed policy"
  shows "accounts cfg start report (s\<lparr>rcl_lastPacketPolicy := policy, rcl_hasPacketPolicy := True, rcl_quarantined := b\<rparr>)"
  using assms by (simp add: accounts_def consistent_def)

section \<open>The preferences of a reconciliation\<close>

lemma desired_has_exit:
  assumes "configuration_Validate cfg = []"
  shows "HasExitDefaultRoutes (desiredPreferences cfg active) \<longleftrightarrow> \<not> exit_Empty active"
    "AdvertisesExitNode (desiredPreferences cfg active) \<longleftrightarrow> \<not> exit_Empty active"
proof -
  have none: "DefaultPrefix f \<notin> prefix_Masked ` set (tnc_AdvertiseRoutes (cf_Tailnet cfg))" for f
    using advertised_ok(1,2) [OF assms] by (force simp: validMaskedPrefix_def)
  show "HasExitDefaultRoutes (desiredPreferences cfg active) \<longleftrightarrow> \<not> exit_Empty active"
    "AdvertisesExitNode (desiredPreferences cfg active) \<longleftrightarrow> \<not> exit_Empty active"
    using none by (cases "exit_Empty active"; simp add: desiredPreferences_def HasExitDefaultRoutes_iff AdvertisesExitNode_iff)+
qed

lemma disabled_no_exit: "\<not> HasExitDefaultRoutes (NewTailnetPreferences [])"
  by (simp add: HasExitDefaultRoutes_iff)

section \<open>Converged outcomes\<close>

definition settled :: "configuration \<Rightarrow> network_snapshot \<Rightarrow> exit_default_route_set \<Rightarrow> packet_filter_policy \<Rightarrow> reconciler \<Rightarrow> bool" where
  "settled cfg snapshot active policy s \<longleftrightarrow>
     \<not> rcl_quarantined s \<and> rcl_hasPacketPolicy s \<and> rcl_lastPacketPolicy s = policy \<and> \<not> pf_GateClosed policy \<and>
     routing_verified cfg (buildDesiredRouting cfg snapshot active) (rcl_history s) \<and> filter_verified policy (rcl_history s)"

definition reported :: "configuration \<Rightarrow> reconcile_condition list \<Rightarrow> exit_default_route_set \<Rightarrow> reconcile_report \<Rightarrow> bool" where
  "reported cfg conditions active report \<longleftrightarrow>
     (\<exists>before state. rp_Conditions before = conditions \<and>
        report = completeReconcileReport cfg before state (desiredPreferences cfg active) active)"

definition settles ::
  "configuration \<Rightarrow> reconciler \<Rightarrow> network_snapshot \<Rightarrow> exit_default_route_set \<Rightarrow> packet_filter_policy \<Rightarrow>
   reconcile_condition list \<Rightarrow> outcome \<Rightarrow> reconciler \<Rightarrow> bool" where
  "settles cfg start snapshot active policy conditions result s' \<longleftrightarrow>
     accounts cfg start (fst result) s' \<and>
     (snd result = None \<longrightarrow> settled cfg snapshot active policy s' \<and> reported cfg conditions active (fst result))"

lemma settles_error: "accounts cfg start report s \<Longrightarrow> settles cfg start snapshot active policy conditions (report, Some e) s"
  by (simp add: settles_def)

text \<open>The plan is in place and verified: what remains is to publish it and to finish.\<close>

definition ready ::
  "configuration \<Rightarrow> reconciler \<Rightarrow> network_snapshot \<Rightarrow> exit_default_route_set \<Rightarrow> packet_filter_policy \<Rightarrow>
   reconcile_condition list \<Rightarrow> reconcile_report \<Rightarrow> reconciler \<Rightarrow> bool" where
  "ready cfg start snapshot active policy conditions report s \<longleftrightarrow>
     accounts cfg start report s \<and> routing_verified cfg (buildDesiredRouting cfg snapshot active) (rcl_history s) \<and>
     filter_verified policy (rcl_history s) \<and> rp_Conditions report = conditions \<and> \<not> pf_GateClosed policy"

lemma ready_accounts: "ready cfg start snapshot active policy conditions report s \<Longrightarrow> accounts cfg start report s"
  by (simp add: ready_def)

lemma ready_keeps:
  assumes "ready cfg start snapshot active policy conditions report s" "evolves cfg 0 0 s s'" "keeps_routing s s'" "keeps_filter s s'"
  shows "ready cfg start snapshot active policy conditions report s'"
  using assms accounts_evolves(1) [OF _ assms(2)] by (simp add: ready_def keeps_routing_def keeps_filter_def)

lemma ready_quiet:
  "ready cfg start snapshot active policy conditions report s \<Longrightarrow> quiet_run s s' \<Longrightarrow> ready cfg start snapshot active policy conditions report s'"
  by (rule ready_keeps) (auto dest: quiet_runD)

lemma ready_facts:
  assumes "ready cfg start snapshot active policy conditions report s"
  shows "accounts cfg start report s" "\<not> pf_GateClosed policy" "rp_Conditions report = conditions"
  using assms by (simp_all add: ready_def)

lemma ready_advertise:
  assumes "configuration_Validate cfg = []" "ready cfg start snapshot active policy conditions report s" "kernel_verified (rcl_history s)"
    "HasExitDefaultRoutes (desiredPreferences cfg active)"
  shows "may_advertise cfg (rcl_history s)"
  using assms(2-4) unfolding desired_has_exit(1) [OF assms(1)] may_advertise_def ready_def by blast

lemma kernel_quiet: "quiet_run s s' \<Longrightarrow> kernel_verified (rcl_history s') \<longleftrightarrow> kernel_verified (rcl_history s)"
  using quiet_runD(4) by (simp add: keeps_kernel_def)

lemma record_conditions [simp]:
  "rp_Conditions (record_routing report w) = rp_Conditions report" "rp_Conditions (record_filter report w) = rp_Conditions report"
  by (simp_all add: record_routing_def record_filter_def)

section \<open>Steps shared by the branches\<close>

lemma finishReconcile_wp:
  assumes "ready cfg start snapshot active policy conditions report s"
    and Q: "\<And>final s'. settles cfg start snapshot active policy conditions (final, None) s' \<Longrightarrow> Q (Inr (final, None)) s'"
  shows "wp (finishReconcile cfg (desiredPreferences cfg active) active policy (state, report)) Q s"
proof -
  let ?final = "completeReconcileReport cfg report state (desiredPreferences cfg active) active"
  have "reported cfg conditions active ?final"
    unfolding reported_def using ready_facts(3) [OF assms(1)] by blast
  with assms(1) show ?thesis
    unfolding finishReconcile_def finalizeSuccessfulReconcile_def prod.case wp_rules
    by (auto simp: settles_def settled_def ready_def intro!: Q accounts_report(3) accounts_gate)
qed

lemma with_publish_wp:
  assumes acc: "accounts cfg start report s" and pre: "HasExitDefaultRoutes preferences \<Longrightarrow> may_advertise cfg (rcl_history s)"
    and error: "\<And>e s'. accounts cfg start report s' \<Longrightarrow> Q (Inl (report, Some e)) s'"
    and success: "\<And>state report' s'. accounts cfg start report' s' \<Longrightarrow> rp_Conditions report' = rp_Conditions report \<Longrightarrow>
      keeps_routing s s' \<Longrightarrow> keeps_filter s s' \<Longrightarrow> Q (Inr (state, report')) s'"
  shows "wp (with_report report (publishTailnetPreferences cfg env report preferences operation)) Q s"
  unfolding with_report_def wp_on_error
  by (rule publish_wp [OF pre])
    (auto split: sum.split intro!: error success accounts_report(1) accounts_evolves(1) [OF acc])

lemma publishUnless_wp:
  assumes acc: "accounts cfg start report s"
    and pre: "\<not> unneeded \<Longrightarrow> HasExitDefaultRoutes preferences \<Longrightarrow> may_advertise cfg (rcl_history s)"
    and error: "\<And>e s'. accounts cfg start report s' \<Longrightarrow> Q (Inl (report, Some e)) s'"
    and success: "\<And>state report' s'. accounts cfg start report' s' \<Longrightarrow> rp_Conditions report' = rp_Conditions report \<Longrightarrow>
      keeps_routing s s' \<Longrightarrow> keeps_filter s s' \<Longrightarrow> Q (Inr (state, report')) s'"
  shows "wp (publishUnless cfg env unneeded state report preferences operation) Q s"
  unfolding publishUnless_def
  by (cases unneeded) (auto intro!: with_publish_wp [OF acc] pre error success acc)

lemma ready_republished:
  assumes "ready cfg start snapshot active policy conditions report s" "accounts cfg start report' s'"
    "rp_Conditions report' = rp_Conditions report" "keeps_routing s s'" "keeps_filter s s'"
  shows "ready cfg start snapshot active policy conditions report' s'"
  using assms by (simp add: ready_def keeps_routing_def keeps_filter_def)

lemma verifyDataPlane_ready_wp:
  assumes "accounts cfg start report s" "\<not> pf_GateClosed policy" "rp_Conditions report = conditions"
    and "\<And>e s'. accounts cfg start report s' \<Longrightarrow> Q (Inl (report, Some e)) s'"
    and "\<And>s'. ready cfg start snapshot active policy conditions report s' \<Longrightarrow> kernel_verified (rcl_history s') \<Longrightarrow> Q (Inr ()) s'"
  shows "wp (with_report report (verifyDataPlane cfg env (buildDesiredRouting cfg snapshot active) policy)) Q s"
  unfolding with_report_def wp_on_error
  by (rule verifyDataPlane_wp)
    (auto split: sum.split simp: ready_def assms(2,3) intro!: assms(4,5) accounts_evolves(1) [OF assms(1)])

lemma require_live_wp:
  assumes rd: "ready cfg start snapshot active policy conditions report s"
    and error: "\<And>e s'. accounts cfg start report s' \<Longrightarrow> Q (Inl (report, Some e)) s'"
    and live: "\<And>s'. ready cfg start snapshot active policy conditions report s' \<Longrightarrow>
      kernel_verified (rcl_history s') = kernel_verified (rcl_history s) \<Longrightarrow> Q (Inr ()) s'"
  shows "wp (require_live env report) Q s"
  unfolding require_live_def wp_on_error wp_check
  by (rule quiet_wp [OF quietly_calls(1)])
    (auto split: option.split intro!: error live dest: kernel_quiet intro: ready_accounts ready_quiet [OF rd])

section \<open>The three branches\<close>

text \<open>The result of a branch, whichever way it returns.\<close>

abbreviation settling ::
  "configuration \<Rightarrow> reconciler \<Rightarrow> network_snapshot \<Rightarrow> exit_default_route_set \<Rightarrow> packet_filter_policy \<Rightarrow>
   reconcile_condition list \<Rightarrow> outcome + outcome \<Rightarrow> reconciler \<Rightarrow> bool" where
  "settling cfg start snapshot active policy conditions r \<equiv>
     settles cfg start snapshot active policy conditions (case r of Inl x \<Rightarrow> x | Inr x \<Rightarrow> x)"

lemma noDrift:
  assumes valid: "configuration_Validate cfg = []" and rd: "ready cfg start snapshot active policy conditions report s"
  shows "wp (reconcileNoDrift cfg env report state (buildDesiredRouting cfg snapshot active) policy (desiredPreferences cfg active) active)
           (settles cfg start snapshot active policy conditions) s"
proof -
  let ?Q = "\<lambda>r s'. case r of Inl x \<Rightarrow> settling cfg start snapshot active policy conditions (Inl x) s'
      | Inr a \<Rightarrow> wp (finishReconcile cfg (desiredPreferences cfg active) active policy a) (settling cfg start snapshot active policy conditions) s'"
  have publish: "wp (chain (with_report report (verifyDataPlane cfg env (buildDesiredRouting cfg snapshot active) policy))
      (\<lambda>u. with_report report (publishTailnetPreferences cfg env report (desiredPreferences cfg active) operation))) ?Q t"
    if "ready cfg start snapshot active policy conditions report t" for t operation
    unfolding wp_chain
    by (rule verifyDataPlane_ready_wp [OF ready_facts [OF that]])
      (auto intro!: settles_error with_publish_wp [where start = start] finishReconcile_wp
        intro: ready_republished ready_accounts ready_advertise [OF valid])
  show ?thesis
    unfolding reconcileNoDrift_def wp_finish wp_chain [where m = "require_live _ _"]
    by (rule require_live_wp [OF rd])
      (auto intro!: settles_error finishReconcile_wp publish [simplified])
qed

lemma classified_exit_defaults:
  assumes "classifyExitDefaultRouteTransition changes (cf_Network cfg) = (transition, True)"
  shows "exit_defaults_only cfg (et_activationChanges transition)" "exit_defaults_only cfg (et_deactivationChanges transition)"
  using assms unfolding classify_iff exit_defaults_only_def by (auto simp: ChangesZero_def)

lemma deactivate_wp:
  assumes "exit_defaults_only cfg (et_deactivationChanges transition)"
    and Q: "\<And>w err s'. evolves cfg w 0 s s' \<Longrightarrow> Q (w, err) s'"
  shows "wp (deactivateExitDefaults cfg env desired transition) Q s"
proof (cases "changes_Empty (et_deactivationChanges transition)")
  case False
  have pending: "wp (verifyPendingRoutingChanges cfg env desired (et_activationChanges transition))
      (\<lambda>x. wp (State_Monad.return (w, wrapOptional msg x)) Q) t" if "evolves cfg w 0 s t" for w t msg
    unfolding verifyPendingRoutingChanges_def wp_rules
    by (rule planRouting_wp) (auto intro!: Q evolves_trans0(2) [OF that])
  from False show ?thesis
    unfolding deactivateExitDefaults_def
    by (simp, intro applyRoutingChanges_wp [of _ cfg])
      (use assms(1) in \<open>auto simp: may_apply_def split: option.split intro!: Q pending\<close>)
qed (use Q in \<open>auto simp: deactivateExitDefaults_def\<close>)

lemma activate_wp:
  assumes "exit_defaults_only cfg (et_activationChanges transition)"
    and Q: "\<And>w err s'. evolves cfg w 0 s s' \<Longrightarrow> Q (w, err) s'"
  shows "wp (activateExitDefaults cfg env desired transition) Q s"
proof (cases "changes_Empty (et_activationChanges transition)")
  case False
  then show ?thesis
    unfolding activateExitDefaults_def
    by (simp, intro applyRoutingPlan_wp [of _ cfg]) (use assms(1) in \<open>auto simp: may_apply_def intro!: Q\<close>)
qed (use Q in \<open>auto simp: activateExitDefaults_def\<close>)

lemma applyTransition_wp:
  assumes ex: "exit_defaults_only cfg (et_activationChanges transition)" "exit_defaults_only cfg (et_deactivationChanges transition)"
    and Q: "\<And>w err s'. evolves cfg w 0 s s' \<Longrightarrow> Q (w, err) s'"
  shows "wp (applyExitDefaultRouteTransition cfg env desired transition) Q s"
  unfolding applyExitDefaultRouteTransition_def wp_bind
proof (rule deactivate_wp [OF ex(2)])
  fix w err s'
  assume s': "evolves cfg w 0 s s'"
  have "evolves cfg (w + v) 0 s t" if "evolves cfg v 0 s' t" for v t
    using evolves_trans [OF s' that] by simp
  with s' show "wp (case (w, err) of (writes, err) \<Rightarrow> case err of Some e \<Rightarrow> State_Monad.return (writes, Some e)
     | None \<Rightarrow> do { (activationWrites, err) \<leftarrow> activateExitDefaults cfg env desired transition;
         State_Monad.return (writes + activationWrites, err) }) Q s'"
    by (cases err) (auto intro!: Q activate_wp [OF ex(1)])
qed

lemma publishVerified_wp:
  assumes valid: "configuration_Validate cfg = []" and gate: "\<not> pf_GateClosed policy"
    and acc: "accounts cfg start report s" "rp_Conditions report = conditions"
  shows "wp (publishVerified cfg env (buildDesiredRouting cfg snapshot active) policy (desiredPreferences cfg active) active state report)
           (settling cfg start snapshot active policy conditions) s"
proof -
  let ?Q = "settling cfg start snapshot active policy conditions"
  have live: "wp (chain (require_live env report) (\<lambda>u. chain (publishUnless cfg env unneeded state report (desiredPreferences cfg active) operation)
        (finishReconcile cfg (desiredPreferences cfg active) active policy))) ?Q t"
    if rd: "ready cfg start snapshot active policy conditions report t" "kernel_verified (rcl_history t)" for t unneeded operation
    unfolding wp_chain
    by (rule require_live_wp [OF rd(1)])
      (auto intro!: settles_error publishUnless_wp [where start = start] finishReconcile_wp
        intro: ready_republished ready_accounts ready_advertise [OF valid] simp: rd(2))
  show ?thesis
    unfolding publishVerified_def wp_chain [where m = "with_report _ _"]
    by (rule verifyDataPlane_ready_wp [OF acc(1) gate acc(2)])
      (auto intro!: settles_error live simp del: wp_chain preferences_Equal_iff)
qed

lemma transitionAndPublish_wp:
  assumes valid: "configuration_Validate cfg = []" and gate: "\<not> pf_GateClosed policy"
    and acc: "accounts cfg start report s" "rp_Conditions report = conditions"
    and ex: "exit_defaults_only cfg (et_activationChanges transition)" "exit_defaults_only cfg (et_deactivationChanges transition)"
  shows "wp (transitionAndPublish cfg env (buildDesiredRouting cfg snapshot active) policy (desiredPreferences cfg active) active
             transition (state, report)) (settling cfg start snapshot active policy conditions) s"
  unfolding transitionAndPublish_def prod.case wp_bind
proof (rule applyTransition_wp [OF ex], goal_cases)
  case (1 w err s')
  note acc' = accounts_evolves(2) [OF acc(1) 1 refl]
  show ?case
    using acc' publishVerified_wp [OF valid gate acc'] acc(2)
    by (cases err) (auto simp: wp_require_chain settles_error simp del: wp_chain)
qed

lemma isolatedTransition:
  assumes valid: "configuration_Validate cfg = []" and gate: "\<not> pf_GateClosed policy"
    and acc: "accounts cfg start report s" "rp_Conditions report = conditions"
    and transition: "classifyExitDefaultRouteTransition changes (cf_Network cfg) = (transition, True)"
  shows "wp (reconcileIsolatedExitDefaultTransition cfg env report state (buildDesiredRouting cfg snapshot active) policy
             (desiredPreferences cfg active) active transition)
           (settles cfg start snapshot active policy conditions) s"
  unfolding reconcileIsolatedExitDefaultTransition_def wp_finish wp_chain
  by (rule publishUnless_wp [OF acc(1)])
    (use acc(2) desired_has_exit [OF valid, of active] in
      \<open>auto intro!: settles_error transitionAndPublish_wp [OF valid gate _ _ classified_exit_defaults [OF transition]]\<close>)

lemma applyDrift_wp:
  assumes acc: "accounts cfg start report s" and closed: "gate_closed (rcl_history s)"
    and verified: "changes_Empty changes \<Longrightarrow> routing_verified cfg desired (rcl_history s)"
    and error: "\<And>rep e s'. accounts cfg start rep s' \<Longrightarrow> Q (Inl (rep, Some e)) s'"
    and success: "\<And>rep s'. accounts cfg start rep s' \<Longrightarrow> rp_Conditions rep = rp_Conditions report \<Longrightarrow>
      routing_verified cfg desired (rcl_history s') \<Longrightarrow> Q (Inr (state, rep)) s'"
  shows "wp (applyDrift cfg env desired changes (state, report)) Q s"
  unfolding applyDrift_def prod.case wp_bind
proof (rule applyRoutingPlan_wp [of _ cfg])
  show "if changes_Empty changes then routing_verified cfg desired (rcl_history s) else may_apply cfg changes (rcl_history s)"
    using verified closed by (simp add: may_apply_def)
next
  fix w :: int and err :: "rec_error option" and s'
  assume s': "evolves cfg w 0 s s'" and v: "err = None \<Longrightarrow> routing_verified cfg desired (rcl_history s')"
  note acc' = accounts_evolves(2) [OF acc s' refl]
  show "wp (case (w, err) of (routingWrites, err) \<Rightarrow>
      chain (require (map_option (\<lambda>e. (record_routing report routingWrites, Some e)) err))
       (\<lambda>u. ok (state, record_routing report routingWrites))) Q s'"
    using v acc' by (cases err) (auto intro!: error success)
qed

lemma convergeClosed_wp:
  assumes acc: "accounts cfg start report s"
    and verified: "changes_Empty changes \<Longrightarrow> routing_verified cfg desired (rcl_history s)"
    and error: "\<And>rep e s'. accounts cfg start rep s' \<Longrightarrow> Q (Inl (rep, Some e)) s'"
    and success: "\<And>st rep s'. accounts cfg start rep s' \<Longrightarrow> rp_Conditions rep = rp_Conditions report \<Longrightarrow>
      routing_verified cfg desired (rcl_history s') \<Longrightarrow> Q (Inr (st, rep)) s'"
  shows "wp (convergeClosed cfg env report state desired policy changes (NewTailnetPreferences [])) Q s"
  unfolding convergeClosed_def Let_def wp_bind
proof (rule reconcilePacketFilter_wp [of _ cfg], simp, goal_cases)
  case (1 w err s')
  note acc' = accounts_evolves(3) [OF acc 1(1) refl]
  let ?closed = "policy\<lparr>pf_GateClosed := True\<rparr>"
  let ?t = "s'\<lparr>rcl_lastPacketPolicy := ?closed, rcl_hasPacketPolicy := True, rcl_quarantined := True\<rparr>"
  have after: "wp (chain (publishUnless cfg env unneeded state (record_filter report w) (NewTailnetPreferences []) operation)
      (applyDrift cfg env desired changes)) Q ?t" if "err = None" for unneeded operation
    unfolding wp_chain
  proof (rule publishUnless_wp [where start = start], goal_cases)
    case 1
    show ?case by (rule accounts_gate [OF acc']) simp
  next
    case (4 st rep u)
    have "gate_closed (rcl_history u)"
      using 1(3) [OF that] 4(4) by (auto simp: gate_closed_def keeps_filter_def intro!: exI [of _ ?closed])
    moreover have "routing_verified cfg desired (rcl_history u)" if "changes_Empty changes"
      using verified [OF that] 1(2) 4(3) by (simp add: keeps_routing_def)
    ultimately show ?case
      using 4(1,2) by (auto intro!: applyDrift_wp error success)
  qed (use disabled_no_exit error in simp_all)
  show ?case
    using acc' after by (cases err) (auto simp: wp_require_chain intro!: error simp del: wp_chain preferences_Equal_iff)
qed

lemma refreshApproval_wp:
  assumes rd: "ready cfg start snapshot active policy conditions report s"
    and error: "\<And>e s'. accounts cfg start report s' \<Longrightarrow> Q (Inl (report, Some e)) s'"
    and success: "\<And>st s'. ready cfg start snapshot active policy conditions report s' \<Longrightarrow> Q (Inr (st, report)) s'"
  shows "wp (refreshApproval cfg env report) Q s"
  unfolding refreshApproval_def wp_chain wp_on_error
  by (rule quiet_wp [OF quietly_readTailnetState])
    (auto split: sum.split intro!: error success intro: ready_accounts ready_quiet [OF rd])

lemma publishConverged_wp:
  assumes valid: "configuration_Validate cfg = []" and rd: "ready cfg start snapshot active policy conditions report s"
    and kernel: "kernel_verified (rcl_history s)"
  shows "wp (publishConverged cfg env (desiredPreferences cfg active) active policy state report)
           (settling cfg start snapshot active policy conditions) s"
proof -
  let ?Q = "settling cfg start snapshot active policy conditions"
  have last: "wp (chain (require_live env rep) (\<lambda>u. finishReconcile cfg (desiredPreferences cfg active) active policy (st, rep))) ?Q t"
    if "ready cfg start snapshot active policy conditions rep t" for st rep t
    unfolding wp_chain by (rule require_live_wp [OF that]) (auto intro!: settles_error finishReconcile_wp)
  let ?last = "\<lambda>(st, rep). chain (require_live env rep) (\<lambda>u. finishReconcile cfg (desiredPreferences cfg active) active policy (st, rep))"
  have published: "wp (chain (if b then with_report report (publishTailnetPreferences cfg env report (desiredPreferences cfg active) operation)
          else refreshApproval cfg env report) ?last) ?Q t"
    if rd': "ready cfg start snapshot active policy conditions report t" "kernel_verified (rcl_history t)" for b operation t
  proof (cases b)
    case True
    then show ?thesis
      by (subst wp_chain, simp only: if_True, intro with_publish_wp [where start = start])
        (auto intro!: settles_error last simp del: wp_chain
          intro: ready_accounts [OF rd'(1)] ready_republished [OF rd'(1)] ready_advertise [OF valid rd'])
  next
    case False
    then show ?thesis
      by (subst wp_chain, simp only: if_False, intro refreshApproval_wp [OF rd'(1)])
        (auto intro!: settles_error last simp del: wp_chain)
  qed
  show ?thesis
    unfolding publishConverged_def
    by (subst wp_chain, rule require_live_wp [OF rd])
      (auto intro!: settles_error published [where b = True, simplified if_True] published [where b = False, simplified if_False]
        simp: kernel simp del: wp_chain preferences_Equal_iff)
qed

lemma openAndPublish_wp:
  assumes valid: "configuration_Validate cfg = []" and gate: "\<not> pf_GateClosed policy"
    and acc: "accounts cfg start report s" "rp_Conditions report = conditions"
    and verified: "routing_verified cfg (buildDesiredRouting cfg snapshot active) (rcl_history s)"
  shows "wp (openAndPublish cfg env (buildDesiredRouting cfg snapshot active) policy (desiredPreferences cfg active) active (state, report))
           (settling cfg start snapshot active policy conditions) s"
  unfolding openAndPublish_def prod.case wp_bind
proof (rule reconcilePacketFilter_wp [of _ cfg], goal_cases)
  case 1
  then show ?case using verified by (auto simp: may_open_def)
next
  case (2 w err s')
  note acc' = accounts_evolves(3) [OF acc(1) 2(1) refl]
  have "wp (chain (with_report (record_filter report w) (verifyDataPlane cfg env (buildDesiredRouting cfg snapshot active) policy))
      (\<lambda>u. publishConverged cfg env (desiredPreferences cfg active) active policy state (record_filter report w)))
      (settling cfg start snapshot active policy conditions) s'"
    unfolding wp_chain
    by (rule verifyDataPlane_ready_wp [OF acc' gate])
      (auto intro!: settles_error publishConverged_wp [OF valid] simp: acc(2))
  with acc' show ?case
    by (cases err) (auto simp: wp_require_chain settles_error simp del: wp_chain)
qed

lemma globalDrift:
  assumes valid: "configuration_Validate cfg = []" and gate: "\<not> pf_GateClosed policy"
    and acc: "accounts cfg start report s" "rp_Conditions report = conditions"
    and verified: "changes_Empty changes \<Longrightarrow> routing_verified cfg (buildDesiredRouting cfg snapshot active) (rcl_history s)"
  shows "wp (reconcileGlobalDrift cfg env report state (buildDesiredRouting cfg snapshot active) policy (desiredPreferences cfg active)
             active changes (NewTailnetPreferences []))
           (settles cfg start snapshot active policy conditions) s"
  unfolding reconcileGlobalDrift_def wp_finish wp_chain
  by (rule convergeClosed_wp [OF acc(1) verified])
    (auto intro!: settles_error openAndPublish_wp [OF valid gate] simp: acc(2))

section \<open>Reconcile\<close>

lemma packetFilterPolicy_gate [simp]: "pf_GateClosed (packetFilterPolicy cfg paths addresses gateClosed) = gateClosed"
  by (simp add: packetFilterPolicy_def Let_def)

lemma reconcileConverge_wp:
  assumes valid: "configuration_Validate cfg = []" and acc: "accounts cfg start report s" "rp_Conditions report = conditions"
  shows "wp (reconcileConverge cfg env report state snapshot addresses active)
           (settles cfg start snapshot active (packetFilterPolicy cfg (sn_DNSEgressPaths snapshot) addresses False) conditions) s"
proof -
  let ?policy = "packetFilterPolicy cfg (sn_DNSEgressPaths snapshot) addresses False"
  let ?desired = "buildDesiredRouting cfg snapshot active"
  show ?thesis
    unfolding reconcileConverge_def Let_def wp_finish wp_chain with_report_def wp_on_error
  proof (rule planRouting_wp, goal_cases)
    case (1 r s1)
    show ?case
    proof (cases r)
      case (Inl e)
      with accounts_evolves(1) [OF acc(1) 1(1)] show ?thesis by (simp add: settles_error)
    next
      case (Inr changes)
      obtain transition isolated where cl: "classifyExitDefaultRouteTransition changes (cf_Network cfg) = (transition, isolated)"
        by (cases "classifyExitDefaultRouteTransition changes (cf_Network cfg)")
      have branches: "wp (lift (if changes_Empty changes \<and> Matches obs ?policy
            then reconcileNoDrift cfg env report state ?desired ?policy (desiredPreferences cfg active) active
            else if match \<and> isolated \<and> Matches obs ?policy
            then reconcileIsolatedExitDefaultTransition cfg env report state ?desired ?policy (desiredPreferences cfg active) active transition
            else reconcileGlobalDrift cfg env report state ?desired ?policy (desiredPreferences cfg active) active changes (NewTailnetPreferences [])))
          (settling cfg start snapshot active ?policy conditions) s2"
        if s2: "evolves cfg 0 0 s s2" "changes_Empty changes \<Longrightarrow> routing_verified cfg ?desired (rcl_history s2)"
          "Matches obs ?policy \<Longrightarrow> filter_verified ?policy (rcl_history s2)" for obs s2 match
      proof -
        have acc2: "accounts cfg start report s2" by (rule accounts_evolves(1) [OF acc(1) s2(1) refl refl])
        have ready2: "ready cfg start snapshot active ?policy conditions report s2" if "changes_Empty changes" "Matches obs ?policy"
          using acc2 acc(2) s2(2,3) that by (simp add: ready_def)
        have gate: "\<not> pf_GateClosed ?policy" by simp
        show ?thesis
          unfolding wp_lift sum.case wp_if if_split
          using noDrift [OF valid ready2] isolatedTransition [OF valid gate acc2 acc(2), of changes transition]
            globalDrift [OF valid gate acc2 acc(2) s2(2)] cl by (simp only: simp_thms) blast
      qed
      show ?thesis
        unfolding Inr sum.case
      proof (rule observePacketFilter_wp [of cfg], goal_cases)
        case (1 q s2)
        from \<open>evolves cfg 0 0 s s1\<close> 1(1) have ev: "evolves cfg 0 0 s s2" by (rule evolves_trans0)
        show ?case
        proof (cases q)
          case (Inl e)
          with accounts_evolves(1) [OF acc(1) ev] show ?thesis by (simp add: settles_error)
        next
          case (Inr obs)
          have "routing_verified cfg ?desired (rcl_history s2)" if "changes_Empty changes"
            using that \<open>r = Inr changes\<close> \<open>\<And>ch. r = Inr ch \<Longrightarrow> _\<close> 1(2) by (auto simp: keeps_routing_def)
          with branches [OF ev] 1(4) [OF Inr] Inr show ?thesis
            by (simp only: sum.case cl prod.case)
        qed
      qed
    qed
  qed
qed

lemma kernelCheck_wp:
  assumes "\<And>r s'. evolves cfg 0 0 s s' \<Longrightarrow> keeps_routing s s' \<Longrightarrow> keeps_filter s s' \<Longrightarrow> Q r s'"
  shows "wp (kernelCheck env) Q s"
  unfolding kernelCheck_def wp_invoke by (rule assms) (simp_all add: keeps_defs)

lemma reconcileTailnet_wp:
  assumes error: "\<And>rep e s'. accounts cfg s rep s' \<Longrightarrow> Q (Inl (rep, Some e)) s'"
    and success: "\<And>st rep s'. accounts cfg s rep s' \<Longrightarrow> rp_Conditions rep = [] \<Longrightarrow> Q (Inr (st, rep)) s'"
  shows "wp (reconcileTailnet cfg env (NewTailnetPreferences [])) Q s"
proof -
  have zero: "rp_Conditions ReportZero = []" by (simp add: ReportZero_def)
  have acc: "accounts cfg s ReportZero s1" if "evolves cfg 0 0 s s1" for s1
    by (rule accounts_evolves(1) [OF accounts_start that refl refl])
  have acc2: "accounts cfg s ReportZero s2" if "evolves cfg 0 0 s s1" "quiet_run s1 s2" for s1 s2
    by (rule acc, rule evolves_trans0(1) [OF that(1) quiet_runD(1) [OF that(2)]])
  show ?thesis
    unfolding reconcileTailnet_def wp_chain with_report_def wp_on_error wp_check
    by (rule kernelCheck_wp [of cfg])
      (auto split: option.split sum.split intro!: error success quiet_wp [OF quietly_readTailnetState] publishUnless_wp [where start = s]
         simp: disabled_no_exit zero intro: acc acc2)
qed

text \<open>Where the active set and the conditions of a reconciliation come from.\<close>

definition evaluated :: "configuration \<Rightarrow> reconcile_condition list \<Rightarrow> exit_default_route_set \<Rightarrow> bool" where
  "evaluated cfg conditions active \<longleftrightarrow>
     (if tnc_AdvertiseExitNode (cf_Tailnet cfg)
      then \<exists>capability link t evaluation. evaluateInternetCapability capability link t = Inr evaluation \<and>
        active = ce_activeExitDefaultRoutes evaluation \<and> conditions = ce_conditions evaluation
      else conditions = [] \<and> active = ExitNone)"

lemma reconcileCapability_wp:
  assumes "\<And>e s'. quiet_run s s' \<Longrightarrow> Q (Inl e) s'"
    and "\<And>evaluation s'. quiet_run s s' \<Longrightarrow> evaluated cfg (ce_conditions evaluation) (ce_activeExitDefaultRoutes evaluation) \<Longrightarrow> Q (Inr evaluation) s'"
  shows "wp (reconcileCapability cfg env snapshot) Q s"
proof -
  have "wp (reconcileCapability cfg env snapshot) (\<lambda>r s'. quiet_run s s') s"
    using quietly_reconcileCapability by (simp add: quietly_def)
  moreover have "wp (reconcileCapability cfg env snapshot) (\<lambda>r s'. case r of Inl e \<Rightarrow> True
      | Inr evaluation \<Rightarrow> evaluated cfg (ce_conditions evaluation) (ce_activeExitDefaultRoutes evaluation)) s"
    unfolding reconcileCapability_def evaluated_def call_defs wp_rules
    by (auto split: sum.split intro!: exI)
  ultimately show ?thesis
    by (rule wp_mono [OF wp_conj]) (auto split: sum.splits intro!: assms)
qed

lemma Reconcile_wp:
  assumes valid: "configuration_Validate cfg = []"
  shows "wp (Reconcile cfg env) (\<lambda>(report, err) s'. accounts cfg s report s' \<and>
     (err = None \<longrightarrow> (\<exists>snapshot active policy conditions. settled cfg snapshot active policy s' \<and>
        reported cfg conditions active report \<and> evaluated cfg conditions active))) s"
proof -
  let ?P = "\<lambda>(report, err) s'. accounts cfg s report s' \<and>
     (err = None \<longrightarrow> (\<exists>snapshot active policy conditions. settled cfg snapshot active policy s' \<and>
        reported cfg conditions active report \<and> evaluated cfg conditions active))"
  let ?Q = "\<lambda>r. ?P (case r of Inl x \<Rightarrow> x | Inr x \<Rightarrow> x)"
  have converge: "wp (lift (reconcileConverge cfg env (rep\<lparr>rp_Conditions := [] @ ce_conditions ev\<rparr>) st snapshot addresses
        (ce_activeExitDefaultRoutes ev))) ?Q t"
    if "accounts cfg s rep t" "evaluated cfg (ce_conditions ev) (ce_activeExitDefaultRoutes ev)" for rep st snapshot addresses ev t
    unfolding wp_lift
    by (rule wp_mono, rule reconcileConverge_wp [OF valid accounts_report(2) [OF that(1)] refl])
      (use that(2) in \<open>auto simp: settles_def, blast\<close>)
  have quiet: "accounts cfg s rep s''" if "accounts cfg s rep s'" "quiet_run s' s''" for rep s' s''
    by (rule accounts_evolves(1) [OF that(1) quiet_runD(1) [OF that(2)] refl refl])
  show ?thesis
    unfolding Reconcile_def wp_finish wp_chain with_report_def wp_on_error
    by (rule reconcileTailnet_wp)
      (auto split: sum.split intro!: quiet_wp [OF quietly_reconcileDiscovery] reconcileCapability_wp
        converge [simplified] dest: quiet)
qed

section \<open>Prepare\<close>

definition sound :: "configuration \<Rightarrow> reconciler \<Rightarrow> reconciler \<Rightarrow> bool" where
  "sound cfg s s' \<longleftrightarrow> (safe cfg (rcl_history s) \<longrightarrow> safe cfg (rcl_history s')) \<and> (consistent s \<longrightarrow> consistent s')"

lemma sound_refl: "sound cfg s s"
  by (simp add: sound_def)

lemma sound_trans: "sound cfg s t \<Longrightarrow> sound cfg t u \<Longrightarrow> sound cfg s u"
  by (simp add: sound_def)

lemma evolves_sound: "evolves cfg a b s s' \<Longrightarrow> sound cfg s s'"
  by (auto simp: evolves_def sound_def consistent_def gate_fields_def)

lemma accounts_sound: "accounts cfg s report s' \<Longrightarrow> sound cfg s s'"
  by (simp add: accounts_def sound_def)

text \<open>A quarantine: the recorded policy is closed, and the packet filter was last seen to match a closed policy.\<close>

definition quarantine :: "reconciler \<Rightarrow> bool" where
  "quarantine s \<longleftrightarrow> rcl_quarantined s \<and> rcl_hasPacketPolicy s \<and> pf_GateClosed (rcl_lastPacketPolicy s)"

lemma evolves_quarantine: "evolves cfg a b s s' \<Longrightarrow> quarantine s' \<longleftrightarrow> quarantine s"
  by (simp add: evolves_def quarantine_def gate_fields_def)

lemma safetyPolicy_gate [simp]: "pf_GateClosed (safetyPacketFilterPolicy cfg)"
  by (simp add: safetyPacketFilterPolicy_def)

lemma establishQuarantine_wp:
  assumes error: "\<And>e s'. sound cfg s s' \<Longrightarrow> Q (Inl e) s'"
    and success: "\<And>s'. sound cfg s s' \<Longrightarrow> quarantine s' \<Longrightarrow> gate_closed (rcl_history s') \<Longrightarrow> Q (Inr ()) s'"
  shows "wp (establishQuarantine cfg env) Q s"
  unfolding establishQuarantine_def Let_def wp_bind
proof (rule reconcilePacketFilter_wp [of _ cfg], simp, goal_cases)
  case (1 w err s1)
  let ?t = "s1\<lparr>rcl_lastPacketPolicy := safetyPacketFilterPolicy cfg, rcl_hasPacketPolicy := True, rcl_quarantined := True\<rparr>"
  have t: "sound cfg s ?t" "quarantine ?t"
    using evolves_sound [OF 1(1)] by (auto simp: sound_def consistent_def quarantine_def)
  have "wp (reconcileRouting cfg env (buildSafetyRouting cfg)) (\<lambda>x. wp (case x of (writes, err) \<Rightarrow>
      require (wrapOptional ''establish fail-closed routing baseline'' err)) Q) ?t" if "err = None"
  proof (rule reconcileRouting_wp, goal_cases)
    case (1 ch observed)
    with \<open>err = None \<Longrightarrow> filter_verified _ _\<close> that show ?case by (auto simp: may_apply_def gate_closed_def intro!: exI [of _ "safetyPacketFilterPolicy cfg"])
  next
    case (2 v e u)
    have "gate_closed (rcl_history u)"
      using \<open>err = None \<Longrightarrow> filter_verified _ _\<close> that 2(2) by (auto simp: keeps_filter_def gate_closed_def intro!: exI [of _ "safetyPacketFilterPolicy cfg"])
    moreover have "sound cfg s u" by (rule sound_trans [OF t(1) evolves_sound [OF 2(1)]])
    moreover have "quarantine u" using t(2) evolves_quarantine [OF 2(1)] by simp
    ultimately show ?case by (cases e) (auto simp: wrapOptional_def intro!: error success)
  qed
  with evolves_sound [OF 1(1)] show ?case
    by (cases err) (auto simp: wrapOptional_def wp_require_chain intro!: error simp del: wp_chain)
qed

definition held :: "configuration \<Rightarrow> reconciler \<Rightarrow> reconciler \<Rightarrow> bool" where
  "held cfg start s \<longleftrightarrow> sound cfg start s \<and> quarantine s \<and> gate_closed (rcl_history s)"

lemma held_evolves: "held cfg start s \<Longrightarrow> evolves cfg a b s s' \<Longrightarrow> keeps_filter s s' \<Longrightarrow> held cfg start s'"
  using evolves_quarantine [of cfg a b s s']
  by (auto simp: held_def gate_closed_def keeps_filter_def intro: sound_trans evolves_sound)

lemma held_quiet: "held cfg start s \<Longrightarrow> quiet_run s s' \<Longrightarrow> held cfg start s'"
  by (rule held_evolves) (auto dest: quiet_runD)

lemma held_sound: "held cfg start s \<Longrightarrow> sound cfg start s"
  by (simp add: held_def)

lemma prepareDataPlane_wp:
  assumes held: "held cfg start s"
    and error: "\<And>e s'. sound cfg start s' \<Longrightarrow> Q (Inl e) s'"
    and success: "\<And>s'. held cfg start s' \<Longrightarrow> Q (Inr ()) s'"
  shows "wp (prepareDataPlane cfg env addresses link) Q s"
proof -
  have final: "wp (do {
      let policy = packetFilterPolicy cfg [] addresses True;
      (writes, err) \<leftarrow> reconcilePacketFilter env policy;
      chain (require (wrapOptional msg err)) (\<lambda>u. do { modify (\<lambda>s. s\<lparr>rcl_lastPacketPolicy := policy\<rparr>); ok () }) }) Q t"
    if t: "held cfg start t" for t msg
    unfolding Let_def wp_bind
  proof (rule reconcilePacketFilter_wp [of _ cfg], simp, goal_cases)
    case (1 w err u)
    have "sound cfg start u" "quarantine u"
      using t evolves_sound [OF 1(1)] evolves_quarantine [OF 1(1)] by (auto simp: held_def intro: sound_trans)
    moreover have "gate_closed (rcl_history u)" if "err = None"
      using 1(3) [OF that] unfolding gate_closed_def by (metis packetFilterPolicy_gate)
    ultimately show ?case
      by (cases err) (auto simp: wrapOptional_def sound_def consistent_def quarantine_def held_def intro!: error success)
  qed
  show ?thesis
    unfolding prepareDataPlane_def wp_bind [where m = "reconcileRouting _ _ _"]
  proof (rule reconcileRouting_wp, goal_cases)
    case (1 ch observed)
    from held show ?case by (simp add: may_apply_def held_def)
  next
    case (2 w err u)
    from final [OF held_evolves [OF held 2(1,2)]] held_sound [OF held_evolves [OF held 2(1,2)]] show ?case
      by (cases err) (auto simp: wrapOptional_def wp_require_chain intro!: error simp del: wp_chain)
  qed
qed

lemma prepareLocalEgress_wp:
  assumes held: "held cfg start s"
    and error: "\<And>e s'. sound cfg start s' \<Longrightarrow> Q (Inl e) s'"
    and success: "\<And>s'. held cfg start s' \<Longrightarrow> Q (Inr ()) s'"
  shows "wp (prepareLocalEgress cfg env) Q s"
proof -
  have stopped: "Q (Inl e) s'" if "held cfg start s'" for e s'
    by (rule error [OF held_sound [OF that]])
  show ?thesis
    unfolding prepareLocalEgress_def wp_chain wp_on_error wp_require
    by (auto split: sum.split option.split intro!: quiet_wp [OF quietly_calls(5)] quiet_wp [OF quietly_resolveLocalEgress]
        quiet_wp [OF quietly_calls(3)] prepareDataPlane_wp [OF _ error success] stopped
        intro: held_quiet [OF held_quiet [OF held_quiet [OF held]]] held_quiet [OF held_quiet [OF held]] held_quiet [OF held])
qed

lemma Prepare_wp:
  "wp (Prepare cfg env) (\<lambda>r s'. sound cfg s s' \<and> (r = Inr () \<longrightarrow> quarantine s' \<and> gate_closed (rcl_history s'))) s"
  unfolding Prepare_def wp_chain wp_on_error wp_check
proof (rule establishQuarantine_wp [of cfg], goal_cases)
  case (2 s1)
  then show ?case
    unfolding sum.case
  proof (intro kernelCheck_wp [of cfg], goal_cases)
    case (1 r s2)
    then have "held cfg s s1" by (simp add: held_def)
    from held_evolves [OF this 1(4,6)] show ?case
      by (cases r) (auto simp: held_def intro!: prepareLocalEgress_wp [where start = s])
  qed
qed simp

section \<open>Failing closed\<close>

lemma strict_blackholes:
  assumes "DiffRouting (buildFailClosedRouting cfg link LinkZero) observed own = Inr ch"
  shows "blackholes_only ch"
proof -
  have "\<not> link_Valid LinkZero" by (simp add: link_Valid_iff LinkZero_def)
  then show ?thesis
    using DiffRouting_sets(1) [OF assms] safety_blackhole by (auto simp: blackholes_only_def failClosed_routes prepared_routes)
qed

text \<open>Steps that leave every verified fact but the kernel check as it was.\<close>

definition unchanged :: "configuration \<Rightarrow> reconciler \<Rightarrow> reconciler \<Rightarrow> bool" where
  "unchanged cfg s s' \<longleftrightarrow> evolves cfg 0 0 s s' \<and> keeps_routing s s' \<and> keeps_filter s s'"

lemma unchanged_quiet: "unchanged cfg s t \<Longrightarrow> quiet_run t u \<Longrightarrow> unchanged cfg s u"
  unfolding unchanged_def using quiet_runD [of t u] by (auto intro: evolves_trans0 keeps_trans)

lemma unchanged_kernel: "unchanged cfg s t \<Longrightarrow> (\<And>r u. unchanged cfg s u \<Longrightarrow> Q r u) \<Longrightarrow> wp (kernelCheck env) Q t"
  unfolding unchanged_def by (rule kernelCheck_wp [of cfg]) (auto intro: evolves_trans0 keeps_trans)

lemma unchanged_refl [simp, intro]: "unchanged cfg s s"
  by (simp add: unchanged_def)

lemma liveFailClosedState_wp:
  assumes error: "\<And>e s'. unchanged cfg s s' \<Longrightarrow> Q (Inl e) s'"
    and success: "\<And>link proxy policy s'. unchanged cfg s s' \<Longrightarrow> pf_GateClosed policy \<Longrightarrow>
      Q (Inr (buildFailClosedRouting cfg link proxy, policy)) s'"
  shows "wp (liveFailClosedState cfg env) Q s"
  unfolding liveFailClosedState_def wp_chain wp_on_error wp_check wp_require
  by (rule unchanged_kernel [OF unchanged_refl])
    (auto split: sum.split option.split intro!: error success quiet_wp [OF quietly_calls(5)] quiet_wp [OF quietly_resolveLocalEgress]
        quiet_wp [OF quietly_calls(3)] elim!: unchanged_quiet [rotated])

definition fail_closed_plan :: "configuration \<Rightarrow> routing_state \<Rightarrow> bool" where
  "fail_closed_plan cfg plan \<longleftrightarrow> (\<exists>link proxy. plan = buildFailClosedRouting cfg link proxy)"

lemma fail_closed_planI [simp, intro]: "fail_closed_plan cfg (buildFailClosedRouting cfg link proxy)"
  unfolding fail_closed_plan_def by blast

text \<open>What the recovery attempt leaves for the routing step.\<close>

definition recovered :: "configuration \<Rightarrow> reconciler \<Rightarrow> routing_state \<Rightarrow> packet_filter_policy \<Rightarrow> reconciler \<Rightarrow> recovery \<Rightarrow> reconciler \<Rightarrow> bool" where
  "recovered cfg start strict policy s recovery s' \<longleftrightarrow>
     accounts cfg start (rec_report recovery) s' \<and> pf_GateClosed (rec_policy recovery) \<and>
     (if rec_ready recovery then filter_verified (rec_policy recovery) (rcl_history s') \<and>
        fail_closed_plan cfg (rec_routing recovery)
      else rec_routing recovery = strict \<and> rec_policy recovery = policy) \<and>
     (rec_stateErr recovery = None \<and> rec_policyErr recovery = None \<and> \<not> rec_ready recovery \<longrightarrow> keeps_filter s s')"

lemma failClosedRecovery_wp:
  assumes acc: "accounts cfg start report s" and closed: "pf_GateClosed policy"
    and Q: "\<And>recovery s'. recovered cfg start strict policy s recovery s' \<Longrightarrow> Q recovery s'"
  shows "wp (failClosedRecovery cfg env report strict policy attempt) Q s"
proof (cases attempt)
  case False
  with acc closed show ?thesis
    by (auto simp: failClosedRecovery_def recovered_def intro!: Q)
next
  case True
  have unch: "accounts cfg start report s'" if "unchanged cfg s s'" for s'
    using accounts_evolves(1) [OF acc] that by (simp add: unchanged_def)
  have filter: "wp (reconcilePacketFilter env recoveryPolicy) P t"
    if "unchanged cfg s t" "pf_GateClosed recoveryPolicy"
      "\<And>w err s'. accounts cfg start (record_filter report w) s' \<Longrightarrow> (err = None \<Longrightarrow> filter_verified recoveryPolicy (rcl_history s')) \<Longrightarrow> P (w, err) s'"
    for recoveryPolicy P t
    by (rule reconcilePacketFilter_wp [of _ cfg], use that(2) in simp)
      (blast intro: that(3) accounts_evolves(3) [OF unch [OF that(1)] _ refl])
  from True show ?thesis
    unfolding failClosedRecovery_def Let_def
    by simp (rule liveFailClosedState_wp [of cfg],
      auto intro!: Q filter simp: recovered_def closed unch split: option.split)
qed

lemma strict_reconcile_wp:
  assumes acc: "accounts cfg start report s"
    and Q: "\<And>w err s'. accounts cfg start (record_routing report w) s' \<Longrightarrow> keeps_filter s s' \<Longrightarrow>
      (err = None \<Longrightarrow> routing_verified cfg desired (rcl_history s')) \<Longrightarrow> Q (w, err) s'"
    and may: "gate_closed (rcl_history s) \<or> (\<exists>link. desired = buildFailClosedRouting cfg link LinkZero)"
  shows "wp (reconcileRouting cfg env desired) Q s"
proof (rule reconcileRouting_wp, goal_cases)
  case (1 ch observed)
  with may strict_blackholes show ?case by (auto simp: may_apply_def)
next
  case (2 w err s')
  then show ?case by (intro Q accounts_evolves(2) [OF acc]) auto
qed

lemma reverifyRecovery_wp:
  assumes acc: "accounts cfg start report s"
    and verified: "err = None \<Longrightarrow> routing_verified cfg (rec_routing recovery) (rcl_history s)"
    and Q: "\<And>err' s'. accounts cfg start report s' \<Longrightarrow> keeps_filter s s' \<Longrightarrow>
      (err' = None \<Longrightarrow> routing_verified cfg (rec_routing recovery) (rcl_history s')) \<Longrightarrow> Q err' s'"
  shows "wp (reverifyRecovery cfg env recovery err) Q s"
proof (cases "err = None \<and> rec_ready recovery")
  case True
  have "wp (kernelCheck env) (\<lambda>x. wp (State_Monad.return (wrapOptional msg (map_option PortFailed x))) Q) t"
    if t: "evolves cfg 0 0 s t" "keeps_filter s t" "routing_verified cfg (rec_routing recovery) (rcl_history t)" for msg t
    by (rule kernelCheck_wp [of cfg])
      (auto intro!: Q accounts_evolves(1) [OF acc evolves_trans0(1) [OF t(1)]] keeps_trans(1) [OF t(2)]
        simp: keeps_routing_def t(3))
  with True show ?thesis
    unfolding reverifyRecovery_def
    by simp (rule verifyRouting_wp [of cfg], auto split: option.split intro!: Q accounts_evolves(1) [OF acc])
next
  case False
  with acc verified show ?thesis by (auto simp: reverifyRecovery_def intro!: Q)
qed

lemma fallbackRouting_wp:
  assumes acc: "accounts cfg start report s" and ready: "rec_ready recovery \<Longrightarrow> gate_closed (rcl_history s)"
    and Q: "\<And>report' err' s'. accounts cfg start report' s' \<Longrightarrow> keeps_filter s s' \<Longrightarrow>
      (err' = None \<Longrightarrow> err = None \<and> keeps_routing s s') \<Longrightarrow> Q (report', err') s'"
  shows "wp (fallbackRouting cfg env strict recovery report err) Q s"
proof (cases "err \<noteq> None \<and> rec_ready recovery")
  case True
  have "wp (reconcileRouting cfg env strict) (\<lambda>x. wp (case x of (w, e) \<Rightarrow>
      State_Monad.return (record_routing report w, joinErrors [err, wrapOptional msg e])) Q) s" for msg
    by (rule strict_reconcile_wp [OF acc])
      (use True ready in \<open>auto simp: joinErrors_def wrapOptional_def map_filter_simps split: option.split intro!: Q\<close>)
  with True show ?thesis by (simp add: fallbackRouting_def)
next
  case False
  with acc show ?thesis by (auto simp: fallbackRouting_def intro!: Q)
qed

lemma failClosedRouting_wp:
  assumes rec: "recovered cfg start (buildFailClosedRouting cfg link LinkZero) policy before recovery s"
    and Q: "\<And>report err s'. accounts cfg start report s' \<Longrightarrow> keeps_filter s s' \<Longrightarrow>
      (err = None \<Longrightarrow> \<exists>plan. fail_closed_plan cfg plan \<and> routing_verified cfg plan (rcl_history s')) \<Longrightarrow> Q (report, err) s'"
  shows "wp (failClosedRouting cfg env (buildFailClosedRouting cfg link LinkZero) recovery) Q s"
proof -
  let ?strict = "buildFailClosedRouting cfg link LinkZero"
  from rec have acc: "accounts cfg start (rec_report recovery) s" and plan: "fail_closed_plan cfg (rec_routing recovery)"
    and may: "gate_closed (rcl_history s) \<or> (\<exists>link. rec_routing recovery = buildFailClosedRouting cfg link LinkZero)"
    and ready: "rec_ready recovery \<Longrightarrow> gate_closed (rcl_history s)"
    by (auto simp: recovered_def gate_closed_def split: if_splits)
  have closed: "gate_closed (rcl_history t)" if "rec_ready recovery" "keeps_filter s t" for t
    using ready [OF that(1)] that(2) by (simp add: gate_closed_def keeps_filter_def)
  show ?thesis
    unfolding failClosedRouting_def wp_bind
  proof (rule strict_reconcile_wp [OF acc _ may], goal_cases)
    case (1 w err t)
    show ?case
      unfolding prod.case wp_bind
    proof (rule reverifyRecovery_wp [OF 1(1,3)], assumption, goal_cases)
      case (1 err' u)
      have keeps: "keeps_filter s u" by (rule keeps_trans(1) [OF \<open>keeps_filter s t\<close> 1(2)])
      show ?case
      proof (rule fallbackRouting_wp [OF 1(1) closed [OF _ keeps]], assumption, goal_cases)
        case (1 report' e v)
        have "\<exists>plan. fail_closed_plan cfg plan \<and> routing_verified cfg plan (rcl_history v)" if "e = None"
          using plan 1(3) [OF that] \<open>err' = None \<Longrightarrow> _\<close> by (auto simp: keeps_routing_def)
        then show ?case by (intro Q 1(1) keeps_trans(1) [OF keeps 1(2)])
      qed
    qed
  qed
qed

lemma joinErrors_None [simp]: "joinErrors errs = None \<longleftrightarrow> (\<forall>e \<in> set errs. e = None)"
proof -
  have "List.map_filter (\<lambda>e. e) errs = [] \<longleftrightarrow> (\<forall>e \<in> set errs. e = None)"
    by (induction errs) (auto simp: map_filter_simps split: option.split)
  then show ?thesis by (auto simp: joinErrors_def split: list.split)
qed

lemma wrapOptional_None [simp]: "wrapOptional msg e = None \<longleftrightarrow> e = None"
  by (simp add: wrapOptional_def split: option.split)

lemma failClosedTailnet_wp:
  assumes acc: "accounts cfg start report s"
    and Q: "\<And>report' readErr preferenceErr s'. accounts cfg start report' s' \<Longrightarrow> keeps_routing s s' \<Longrightarrow> keeps_filter s s' \<Longrightarrow>
      Q (report', readErr, preferenceErr) s'"
  shows "wp (failClosedTailnet cfg env report) Q s"
  unfolding failClosedTailnet_def wp_bind
proof (rule quiet_wp [OF quietly_readTailnetState], goal_cases)
  case (1 r t)
  have t: "accounts cfg start report t" "keeps_routing s t" "keeps_filter s t"
    using accounts_evolves(1) [OF acc quiet_runD(1) [OF 1] refl refl] quiet_runD [OF 1] by auto
  have written: "wp (writeAndVerifyTailnetPreferences cfg env (NewTailnetPreferences [])) P t"
    if "\<And>q u. accounts cfg start report u \<Longrightarrow> keeps_routing s u \<Longrightarrow> keeps_filter s u \<Longrightarrow> P q u" for P
    by (rule writeAndVerify_wp)
      (auto simp: disabled_no_exit intro!: that accounts_evolves(1) [OF t(1)] keeps_trans(2) [OF t(2)] keeps_trans(1) [OF t(3)])
  show ?case
    using t by (cases r) (auto split: sum.split intro!: Q written accounts_report(1) simp del: preferences_Equal_iff)
qed

text \<open>The verified end of a fail-closed run.\<close>

definition failed_closed :: "configuration \<Rightarrow> packet_filter_policy \<Rightarrow> reconciler \<Rightarrow> bool" where
  "failed_closed cfg policy s \<longleftrightarrow> filter_verified policy (rcl_history s) \<and>
     (\<exists>plan. fail_closed_plan cfg plan \<and> routing_verified cfg plan (rcl_history s))"

lemma contextErr_wp:
  assumes "\<And>r s'. quiet_run s s' \<Longrightarrow> Q r s'"
  shows "wp (contextErr env) Q s"
  by (rule quiet_wp [OF quietly_calls(1)]) (rule assms)

lemma failClosedBody_wp:
  assumes closed: "pf_GateClosed policy"
    and Q: "\<And>report err policy' s'. accounts cfg s report s' \<Longrightarrow> pf_GateClosed policy' \<Longrightarrow>
      (err = None \<Longrightarrow> failed_closed cfg policy' s') \<Longrightarrow> Q ((report, err), policy') s'"
  shows "wp (failClosedBody cfg env retain policy) Q s"
  unfolding failClosedBody_def Let_def wp_bind [where m = "reconcilePacketFilter _ _"]
proof (rule reconcilePacketFilter_wp [of _ cfg], use closed in simp, goal_cases)
  case (1 w filterErr s1)
  have acc1: "accounts cfg s (record_filter ReportZero w) s1"
    by (rule accounts_evolves(3) [OF accounts_start 1(1) refl])
  show ?case
    unfolding prod.case wp_bind [where m = "contextErr _"]
  proof (rule contextErr_wp, goal_cases)
    case (1 cancel s2)
    note q = quiet_runD [OF 1]
    have acc2: "accounts cfg s (record_filter ReportZero w) s2" by (rule accounts_evolves(1) [OF acc1 q(1) refl refl])
    have fv2: "filter_verified policy (rcl_history s2)" if "filterErr = None"
      using \<open>filterErr = None \<Longrightarrow> _\<close> [OF that] q(3) by (simp add: keeps_filter_def)
    show ?case
    proof (cases cancel)
      case (Some c)
      with acc2 closed show ?thesis by (auto intro!: Q)
    next
      case None
      show ?thesis
        unfolding None option.case wp_bind [where m = State_Monad.get] wp_get wp_bind [where m = "failClosedRecovery _ _ _ _ _ _"]
      proof (rule failClosedRecovery_wp [OF acc2 closed], goal_cases)
        case (1 recovery s3)
        have fv3: "filter_verified (rec_policy recovery) (rcl_history s3)"
          if "filterErr = None" "rec_stateErr recovery = None" "rec_policyErr recovery = None"
          using 1 that fv2 by (auto simp: recovered_def keeps_filter_def split: if_splits)
        have closed3: "pf_GateClosed (rec_policy recovery)" using 1 by (simp add: recovered_def)
        show ?case
          unfolding wp_bind [where m = "failClosedRouting _ _ _ _"]
        proof (rule failClosedRouting_wp [OF 1], goal_cases)
          case (1 report routingErr s4)
          show ?case
            unfolding prod.case wp_bind [where m = "contextErr _"]
          proof (rule contextErr_wp, goal_cases)
            case (1 cancel s5)
            note q5 = quiet_runD [OF 1]
            have acc5: "accounts cfg s report s5"
              by (rule accounts_evolves(1) [OF \<open>accounts cfg s report s4\<close> q5(1) refl refl])
            have final: "failed_closed cfg (rec_policy recovery) u"
              if "filterErr = None" "rec_stateErr recovery = None" "rec_policyErr recovery = None" "routingErr = None"
                "keeps_routing s5 u" "keeps_filter s5 u" for u
              using fv3 [OF that(1-3)] \<open>keeps_filter s3 s4\<close> \<open>routingErr = None \<Longrightarrow> _\<close> [OF that(4)] q5(2,3) that(5,6)
              by (auto simp: failed_closed_def keeps_filter_def keeps_routing_def)
            show ?case
            proof (cases cancel)
              case (Some c)
              with acc5 closed3 show ?thesis by (auto intro!: Q)
            next
              case None
              then show ?thesis
                unfolding None option.case wp_bind [where m = "failClosedTailnet _ _ _"]
                by (intro failClosedTailnet_wp [OF acc5]) (auto intro!: Q closed3 final)
            qed
          qed
        qed
      qed
    qed
  qed
qed

lemma failClosed_wp:
  "wp (failClosed cfg env retain) (\<lambda>(report, err) s'. accounts cfg s report s' \<and> quarantine s' \<and>
     (err = None \<longrightarrow> failed_closed cfg (rcl_lastPacketPolicy s') s')) s"
  unfolding failClosed_def wp_bind [where m = State_Monad.get] wp_get wp_bind [where m = "failClosedBody _ _ _ _"]
  by (rule failClosedBody_wp)
    (auto simp: quarantine_def failed_closed_def intro!: accounts_gate)

end
