(* ===== verification/Reconciler_Liveness.thy ===== *)
theory Reconciler_Liveness
  imports Reconciler_Convergence
begin

text \<open>
  What a reconciliation does when nothing stands in its way. The ports are stores: routing tables, packet filter and Tailscale hold what
  was written to them last and show it when they are read, the kernel is ready, and the network is discovered. Then a
  reconciliation succeeds from whatever was installed before, and leaves the desired routing, the desired packet filter and the desired
  advertisements in place.
\<close>

section \<open>Changes in two parts\<close>

definition same_routing :: "routing_state \<Rightarrow> routing_state \<Rightarrow> bool" where
  "same_routing s t \<longleftrightarrow> mset (rs_Routes s) = mset (rs_Routes t) \<and> mset (rs_Rules s) = mset (rs_Rules t)"

lemma same_routing_refl [simp]: "same_routing s s"
  by (simp add: same_routing_def)

lemma same_routing_sym: "same_routing s t \<Longrightarrow> same_routing t s"
  by (simp add: same_routing_def)

lemma DiffRouting_indexed:
  assumes "DiffRouting d c own = Inr ch"
  shows "routes.indexed (rs_Routes d)" "rules.indexed (rs_Rules d)" "routes.indexed (rs_Routes c)" "rules.indexed (rs_Rules c)"
  using assms accepted_indexed by (auto simp: DiffRouting_Inr_iff)

lemma DiffRouting_cong:
  assumes same: "same_routing c' c" and diff: "DiffRouting d c own = Inr ch"
  shows "DiffRouting d c' own = Inr ch"
proof -
  note ok = DiffRouting_indexed [OF diff]
  have "routes.keyed (index_by routeKey (rs_Routes d))" "routes.keyed (index_by routeKey (rs_Routes c))"
      "rules.keyed (index_by ruleKey (rs_Rules d))" "rules.keyed (index_by ruleKey (rs_Rules c))"
    using ok by (auto simp: routes.indexed_def rules.indexed_def routes.keyed_index_by rules.keyed_index_by)
  from diffIndexed_perm [OF this refl _ refl, of "index_by routeKey (rs_Routes c')" "index_by ruleKey (rs_Rules c')"] same
  have "diffIndexed (index_by routeKey (rs_Routes d)) (index_by routeKey (rs_Routes c'))
      (index_by ruleKey (rs_Rules d)) (index_by ruleKey (rs_Rules c')) = ch"
    using diff by (simp add: same_routing_def index_by_def DiffRouting_Inr_iff)
  with diff accepted_mset [of c' c] same show ?thesis by (simp add: same_routing_def DiffRouting_Inr_iff)
qed

lemma apply_changes_desired: "DiffRouting d c own = Inr ch \<Longrightarrow> same_routing (apply_changes ch c) d"
  by (simp add: same_routing_def apply_changes_mset)

lemma DiffRouting_desired:
  assumes "DiffRouting d c own = Inr ch" "same_routing c' d"
  shows "DiffRouting d c' own = Inr ChangesZero"
proof -
  have "state_accepted own False c'"
    using assms accepted_mset [of c' d] accepted_weaken by (auto simp: DiffRouting_Inr_iff same_routing_def)
  with assms(1) obtain ch' where ch': "DiffRouting d c' own = Inr ch'" by (auto simp: DiffRouting_Inr_iff)
  with DiffRouting_Empty_iff [OF ch'] assms(2) show ?thesis by (simp add: same_routing_def)
qed

text \<open>After the deletions of routes alone, the difference is what was left out.\<close>

lemma DiffRouting_after_deletions:
  assumes diff: "DiffRouting d c own = Inr ch"
  shows "DiffRouting d (apply_changes (ChangesZero\<lparr>ch_DeleteRoutes := ch_DeleteRoutes ch\<rparr>) c) own = Inr (ch\<lparr>ch_DeleteRoutes := []\<rparr>)"
proof -
  let ?kept = "filter (\<lambda>r. routeKey r \<in> routeKey ` set (rs_Routes d)) (rs_Routes c)"
  let ?c = "c\<lparr>rs_Routes := ?kept\<rparr>"
  have "routeKey r \<in> routeKey ` set (ch_DeleteRoutes ch) \<longleftrightarrow> routeKey r \<notin> routeKey ` set (rs_Routes d)" if "r \<in> set (rs_Routes c)" for r
    using that unfolding DiffRouting_sets(2) [OF diff] by auto (metis imageI)
  then have after: "apply_changes (ChangesZero\<lparr>ch_DeleteRoutes := ch_DeleteRoutes ch\<rparr>) c = ?c"
    by (cases c) (simp add: apply_changes_def ChangesZero_def fold_store_drop cong: filter_cong)
  note ok = DiffRouting_indexed [OF diff]
  have kept: "routes.indexed ?kept" using ok(3) by (simp add: routes.indexed_def distinct_map_filter)
  have accepted: "state_accepted own False ?c"
    using diff by (simp add: DiffRouting_Inr_iff state_accepted_def routes_accepted_def distinct_map_filter)
  have "filter (\<lambda>r. r \<notin> set ?kept) (rs_Routes d) = filter (\<lambda>r. r \<notin> set (rs_Routes c)) (rs_Routes d)"
    by (rule filter_cong) auto
  with ok kept have "diffIndexed (index_by routeKey (rs_Routes d)) (index_by routeKey ?kept)
      (index_by ruleKey (rs_Rules d)) (index_by ruleKey (rs_Rules c)) = ch\<lparr>ch_DeleteRoutes := []\<rparr>"
    using diff by (auto simp: DiffRouting_Inr_iff diffIndexed_def routes.missing_eq routes.extra_eq routes.sort_func_Nil_iff)
  with accepted diff show ?thesis unfolding after by (simp add: DiffRouting_Inr_iff)
qed

section \<open>Valid policies and preferences\<close>

text \<open>What a nameserver has to answer for its addresses to be allowed in a policy.\<close>

definition usable_answer :: "addr list \<Rightarrow> bool" where
  "usable_answer as \<longleftrightarrow> as \<noteq> [] \<and> list_all (\<lambda>a. \<not> unusable_address (addr_Unmap a)) as"

lemma usable_family: "\<not> unusable_address a \<Longrightarrow> addr_Is4 a \<or> addr_Is6 a \<and> addr_Zone a = []"
  by (cases a) (auto simp: unusable_address_def)

lemma resolved_All_set:
  assumes "list_all (\<lambda>a. \<not> unusable_address (addr_Unmap a)) as"
  shows "set (resolved_All (NewResolvedAddresses as)) = addr_Unmap ` set as"
proof -
  have "addr_Is4 (addr_Unmap a) \<or> addr_Is6 (addr_Unmap a) \<and> addr_Zone (addr_Unmap a) = []" if "a \<in> set as" for a
    using assms that by (intro usable_family) (simp add: list_all_iff)
  then show ?thesis by (auto simp: resolved_All_def NewResolvedAddresses_sets)
qed

lemma usable_resolved:
  assumes "usable_answer as"
  shows "usable_answer (resolved_All (NewResolvedAddresses as))" "\<not> resolved_Empty (NewResolvedAddresses as)"
proof -
  note all = resolved_All_set [of as]
  with assms show "usable_answer (resolved_All (NewResolvedAddresses as))"
    by (auto simp: usable_answer_def list_all_iff simp flip: set_empty)
  with assms show "\<not> resolved_Empty (NewResolvedAddresses as)"
    by (auto simp: usable_answer_def resolved_Empty_def resolved_All_def)
qed

lemma egress_addresses_valid:
  assumes "usable_answer as"
  shows "validateAddressFamilyList label (ra_IPv4 (NewResolvedAddresses as)) IPv4 = []"
    "validateAddressFamilyList label (ra_IPv6 (NewResolvedAddresses as)) IPv6 = []"
proof -
  let ?r = "NewResolvedAddresses as"
  have ok: "\<not> unusable_address a" "addr_Unmap a = a" if "a \<in> set (ra_IPv4 ?r) \<union> set (ra_IPv6 ?r)" for a
    using that assms by (auto simp: NewResolvedAddresses_sets usable_answer_def list_all_iff)
  have is4: "family_address_ok IPv4 a" if "a \<in> set (ra_IPv4 ?r)" for a
    using that ok(1) [of a] by (auto simp: NewResolvedAddresses_sets unusable_address_def family_address_ok_def FamilyOfAddress_def)
  have "family_address_ok IPv6 a" if "addr_Is6 a" "addr_Unmap a = a" "\<not> unusable_address a" for a
    using that by (cases a) (auto simp: unusable_address_def family_address_ok_def FamilyOfAddress_def)
  then have is6: "family_address_ok IPv6 a" if "a \<in> set (ra_IPv6 ?r)" for a
    using that ok [of a] by (auto simp: NewResolvedAddresses_sets)
  have "distinct (ra_IPv4 ?r)" "distinct (ra_IPv6 ?r)" by (simp_all add: NewResolvedAddresses_def Let_def sortedAddresses_eq)
  then show "validateAddressFamilyList label (ra_IPv4 ?r) IPv4 = []" "validateAddressFamilyList label (ra_IPv6 ?r) IPv6 = []"
    using is4 is6 ok(2) map_filter_Some [of "ra_IPv4 ?r" _ "\<lambda>a. a"] map_filter_Some [of "ra_IPv6 ?r" _ "\<lambda>a. a"]
    by (auto simp: validateAddressFamilyList_def scan_seen_Nil_iff)
qed

lemma dns_targets_valid:
  assumes "plannable cfg sn request"
  shows "\<forall>path \<in> set (sn_DNSEgressPaths sn). \<not> unusable_address (addr_Unmap (dns_NameServer path)) \<and>
     link_Validate \<lparr>link_Index = 1, link_Name = link_Name (dns_Link path)\<rparr> = None"
proof
  fix path assume path: "path \<in> set (sn_DNSEgressPaths sn)"
  from assms have req: "request_Validate request = []" and paths: "snapshot_paths_check sn request = []"
    by (auto simp: plannable_def validated_def snapshot_Nil_iff)
  have "(\<lambda>path. addr_Unmap (dns_NameServer path)) ` set (sn_DNSEgressPaths sn) = addr_Unmap ` set (dq_NameServers request)"
    using paths by (simp add: snapshot_paths_check_Nil_iff)
  with path obtain a where "a \<in> set (dq_NameServers request)" "addr_Unmap (dns_NameServer path) = addr_Unmap a"
    by (metis (no_types, lifting) image_iff)
  with req have "\<not> unusable_address (addr_Unmap (dns_NameServer path))"
    by (auto simp: request_Validate_def validateUniqueAddresses_Nil_iff)
  moreover have "link_Validate (dns_Link path) = None"
    using paths path by (simp add: snapshot_paths_check_Nil_iff)
  ultimately show "\<not> unusable_address (addr_Unmap (dns_NameServer path)) \<and>
      link_Validate \<lparr>link_Index = 1, link_Name = link_Name (dns_Link path)\<rparr> = None"
    by (auto simp: link_Validate_def split: if_splits)
qed

text \<open>The addresses that local egress contributes to a policy.\<close>

definition egress_resolved :: "configuration \<Rightarrow> resolved_addresses \<Rightarrow> bool" where
  "egress_resolved cfg addresses \<longleftrightarrow>
     (if lc_Enabled (fc_LocalEgress (cf_PacketFilter cfg)) then \<exists>as. usable_answer as \<and> addresses = NewResolvedAddresses as
      else addresses = \<lparr>ra_IPv4 = [], ra_IPv6 = []\<rparr>)"

lemma desired_policy_valid:
  assumes plan: "plannable cfg sn request" and egress: "egress_resolved cfg addresses"
  shows "policy_Validate (packetFilterPolicy cfg (sn_DNSEgressPaths sn) addresses closed) = []"
proof -
  let ?policy = "packetFilterPolicy cfg (sn_DNSEgressPaths sn) addresses closed"
  let ?local = "fc_LocalEgress (cf_PacketFilter cfg)"
  note cfg = plannable_facts(1) [OF plan]
  note net = network_ok [OF configuration_sections(1) [OF cfg]]
  note filter = configuration_sections(2) [OF cfg, unfolded validatePacketFilterConfiguration_def Let_def]
  have ids: "policy_identifiers ?policy = configuration_identifiers (cf_PacketFilter cfg)"
    by (simp add: policy_identifiers_def configuration_identifiers_def packetFilterPolicy_def safetyPacketFilterPolicy_def Let_def)
  have "scan_seen (\<lambda>(name, value). error_if (\<not> nftIdentifierPattern value) (InvalidIdentifier name value))
        (\<lambda>(name, value). Some value) (\<lambda>(name, value). IdentifierNotDistinct name)
        [ReservedPacketFilterMetadataChain] (policy_identifiers ?policy) = []"
    using filter unfolding ids by (auto simp: scan_seen_Nil_iff split_beta)
  moreover have "scan_seen
        (\<lambda>t. error_if (unusable_address (addr_Unmap (dmt_Address t))) (DNSTargetAddressInvalid (dmt_Address t)) @
             wrap_error (DNSTargetInterfaceInvalid (addr_Unmap (dmt_Address t)))
               (link_Validate \<lparr>link_Index = 1, link_Name = dmt_OutputInterface t\<rparr>))
        (\<lambda>t. Some (addr_Unmap (dmt_Address t))) (\<lambda>t. DNSTargetDuplicated (addr_Unmap (dmt_Address t)))
        [] (pf_DNSTargets ?policy) = []"
  proof -
    have "pf_DNSTargets ?policy = map (\<lambda>path. \<lparr>dmt_Address = dns_NameServer path, dmt_OutputInterface = link_Name (dns_Link path)\<rparr>)
        (sn_DNSEgressPaths sn)"
      by (simp add: packetFilterPolicy_def safetyPacketFilterPolicy_def Let_def)
    with dns_targets_valid [OF plan] plannable_facts(8) [OF plan]
      map_filter_Some [of "pf_DNSTargets ?policy" "\<lambda>t. Some (addr_Unmap (dmt_Address t))" "\<lambda>t. addr_Unmap (dmt_Address t)"]
    show ?thesis by (auto simp: scan_seen_Nil_iff comp_def)
  qed
  moreover have "pf_TailnetIPv4Prefix ?policy = nc_TailnetIPv4Prefix (cf_Network cfg)" "pf_TailnetIPv6Prefix ?policy = nc_TailnetIPv6Prefix (cf_Network cfg)"
    by (simp_all add: packetFilterPolicy_def safetyPacketFilterPolicy_def Let_def)
  moreover have "local_egress_shape (pf_LocalEgress ?policy) = [] \<and>
      validateAddressFamilyList ''local-egress IPv4 address'' (le_IPv4 (pf_LocalEgress ?policy)) IPv4 = [] \<and>
      validateAddressFamilyList ''local-egress IPv6 address'' (le_IPv6 (pf_LocalEgress ?policy)) IPv6 = [] \<and>
      scan_seen (\<lambda>p. error_if (p \<noteq> TransportTCP \<and> p \<noteq> TransportUDP) (ProtocolUnsupported p))
        Some ProtocolDuplicated [] (le_Protocols (pf_LocalEgress ?policy)) = [] \<and>
      scan_seen (\<lambda>p. error_if (p = 0) PortZero) Some PortDuplicated [] (le_Ports (pf_LocalEgress ?policy)) = []"
  proof (cases "lc_Enabled ?local")
    case True
    with egress obtain as where as: "usable_answer as" "addresses = NewResolvedAddresses as" by (auto simp: egress_resolved_def)
    have local: "pf_LocalEgress ?policy = \<lparr>le_Enabled = True, le_IPv4 = ra_IPv4 addresses, le_IPv6 = ra_IPv6 addresses,
        le_Protocols = lc_Protocols ?local, le_Ports = lc_Ports ?local, le_Mark = nc_LocalEgressPacketMark (cf_Network cfg)\<rparr>"
      using True by (simp add: packetFilterPolicy_def Let_def)
    show ?thesis
      using True filter net(7,8) as egress_addresses_valid [OF as(1)] usable_resolved(2) [OF as(1)]
      unfolding local by (auto simp: local_egress_shape_def resolved_Empty_def scan_seen_Nil_iff)
  next
    case False
    then have "pf_LocalEgress ?policy = LocalEgressZero"
      by (simp add: packetFilterPolicy_def safetyPacketFilterPolicy_def Let_def)
    then show ?thesis
      by (simp add: LocalEgressZero_def local_egress_shape_def validateAddressFamilyList_def scan_seen_Nil_iff)
  qed
  ultimately show ?thesis using net(14,15) by (simp add: policy_Validate_def Let_def)
qed

lemma close_policy: "(packetFilterPolicy cfg paths addresses False)\<lparr>pf_GateClosed := True\<rparr> = packetFilterPolicy cfg paths addresses True"
  by (simp add: packetFilterPolicy_def Let_def)

lemma valid_NewTailnetPreferences:
  "\<forall>p \<in> set ps. prefix_IsValid p \<and> prefix_Masked p = p \<Longrightarrow> preferences_Validate (NewTailnetPreferences ps) = []"
  by (auto simp: preferences_Validate_def scan_masked_Nil_iff NewTailnetPreferences_def Normalize_eq)

lemma valid_disabled: "preferences_Validate (NewTailnetPreferences []) = []"
  by (rule valid_NewTailnetPreferences) simp

lemma valid_desired:
  assumes "configuration_Validate cfg = []"
  shows "preferences_Validate (desiredPreferences cfg active) = []"
proof -
  have "\<forall>p \<in> set (tnc_AdvertiseRoutes (cf_Tailnet cfg) @ [DefaultPrefix IPv4, DefaultPrefix IPv6]). prefix_IsValid p \<and> prefix_Masked p = p"
    using configuration_sections(3) [OF assms]
    by (auto simp: validateTailnetConfiguration_def advertiseLoop_Nil_iff masked_nondefault_def)
  then show ?thesis
    using valid_NewTailnetPreferences [of "tnc_AdvertiseRoutes (cf_Tailnet cfg) @ [DefaultPrefix IPv4, DefaultPrefix IPv6]"]
      valid_NewTailnetPreferences [of "tnc_AdvertiseRoutes (cf_Tailnet cfg)"]
    by (auto simp: desiredPreferences_def NewTailnetExitNodePreferences_def NewTailnetPreferences_def)
qed

section \<open>Ports that hold what is written to them\<close>

fun published :: "tailnet_preferences \<Rightarrow> history \<Rightarrow> tailnet_preferences" where
  "published initial [] = initial"
| "published initial (WritePreferences p None # h) = p"
| "published initial (c # h) = published initial h"

fun installed_routing :: "routing_state \<Rightarrow> history \<Rightarrow> routing_state" where
  "installed_routing initial [] = initial"
| "installed_routing initial (ApplyRouting ch w None # h) = apply_changes ch (installed_routing initial h)"
| "installed_routing initial (c # h) = installed_routing initial h"

text \<open>The policy applied last; \<open>None\<close> stands for whatever ruleset was found.\<close>

fun installed_filter :: "history \<Rightarrow> packet_filter_policy option" where
  "installed_filter [] = None"
| "installed_filter (ApplyFilter p observation None # h) = Some p"
| "installed_filter (c # h) = installed_filter h"

text \<open>
  Every write takes effect and every read shows the result: the preferences written last; the routes and rules that the changes have
  led to, in any order; and of the one ruleset that is installed what it looks like for the policy that is asked for, which is a match
  for the policy it was made from. What the ruleset looks like for other policies is left open.
\<close>

definition stores ::
  "configuration \<Rightarrow> environment \<Rightarrow> tailnet_state \<Rightarrow> routing_state \<Rightarrow>
   (packet_filter_policy option \<Rightarrow> packet_filter_policy \<Rightarrow> packet_filter_observation) \<Rightarrow> bool" where
  "stores cfg env state routing look \<longleftrightarrow>
     (\<forall>h. env_ReadState env h = Inr (state\<lparr>ts_Preferences := published (ts_Preferences state) h\<rparr>)) \<and>
     (\<forall>h p. env_WritePreferences env h p = None) \<and>
     (\<forall>h. \<exists>observed. env_ReadRouting env h (routingOwnership cfg) = Inr observed \<and> same_routing observed (installed_routing routing h)) \<and>
     (\<forall>h changes. snd (env_ApplyRouting env h changes) = None) \<and>
     (\<forall>h policy. env_ObserveFilter env h policy = Inr (look (installed_filter h) policy)) \<and>
     (\<forall>policy. Matches (look (Some policy) policy) policy) \<and>
     (\<forall>h policy observation. env_ApplyFilter env h policy observation = None)"

text \<open>
  Nothing else stands in the way: the kernel is ready, the context is alive, Tailscale runs and its state is fresh whenever it is read,
  the nameservers answer for the domains of local egress, and network and capability are observed.
\<close>

definition observed_capability :: "configuration \<Rightarrow> environment \<Rightarrow> network_snapshot \<Rightarrow> capability_evaluation \<Rightarrow> bool" where
  "observed_capability cfg env snapshot evaluation \<longleftrightarrow>
     (if tnc_AdvertiseExitNode (cf_Tailnet cfg)
      then \<exists>capability. (\<forall>h. env_Capability env h (sn_ProxyTunnelLink snapshot) = Inr capability) \<and>
        (\<forall>h. evaluateInternetCapability capability (sn_ProxyTunnelLink snapshot) (env_Now env h) = Inr evaluation)
      else evaluation = \<lparr>ce_activeExitDefaultRoutes = ExitNone, ce_conditions = []\<rparr>)"

definition unhindered ::
  "configuration \<Rightarrow> environment \<Rightarrow> tailnet_state \<Rightarrow> resolver_snapshot \<Rightarrow> network_snapshot \<Rightarrow> capability_evaluation \<Rightarrow> bool" where
  "unhindered cfg env state resolver snapshot evaluation \<longleftrightarrow>
     (\<forall>h. env_Kernel env h = None) \<and> (\<forall>h. env_ContextErr env h = None) \<and>
     tailnet_control_error state = None \<and> (\<forall>h. tailnet_freshness cfg (env_Now env h) state = None) \<and> tailnet_self_error state = None \<and>
     ts_Running state \<and> ts_KernelTunnel state \<and> normalizeAddresses (ts_SelfAddresses state) \<noteq> [] \<and>
     (\<forall>h. env_Snapshot env h = Inr resolver) \<and> rss_NameServers resolver \<noteq> [] \<and>
     (lc_Enabled (fc_LocalEgress (cf_PacketFilter cfg)) \<longrightarrow> (\<forall>d \<in> set (lc_Domains (fc_LocalEgress (cf_PacketFilter cfg))).
        \<forall>h. \<exists>addresses. env_Resolve env h resolver d = Inr addresses \<and> usable_answer addresses)) \<and>
     (\<forall>h request. env_Network env h request = Inr snapshot) \<and>
     plannable cfg snapshot (discoveryRequest cfg state (rss_NameServers resolver)) \<and>
     observed_capability cfg env snapshot evaluation"

lemma storesD:
  assumes "stores cfg env state routing look"
  shows "env_ReadState env h = Inr (state\<lparr>ts_Preferences := published (ts_Preferences state) h\<rparr>)" "env_WritePreferences env h p = None"
    "\<exists>observed. env_ReadRouting env h (routingOwnership cfg) = Inr observed \<and> same_routing observed (installed_routing routing h)"
    "snd (env_ApplyRouting env h changes) = None" "env_ObserveFilter env h policy = Inr (look (installed_filter h) policy)"
    "Matches (look (Some policy) policy) policy" "env_ApplyFilter env h policy observation = None"
  using assms by (simp_all add: stores_def)

lemma unhinderedD:
  assumes "unhindered cfg env state resolver snapshot evaluation"
  shows "env_Kernel env h = None" "env_ContextErr env h = None" "tailnet_control_error state = None"
    "tailnet_freshness cfg (env_Now env h) state = None" "tailnet_self_error state = None" "ts_Running state" "ts_KernelTunnel state"
    "normalizeAddresses (ts_SelfAddresses state) \<noteq> []" "env_Snapshot env h = Inr resolver" "rss_NameServers resolver \<noteq> []"
    "lc_Enabled (fc_LocalEgress (cf_PacketFilter cfg)) \<Longrightarrow> d \<in> set (lc_Domains (fc_LocalEgress (cf_PacketFilter cfg))) \<Longrightarrow>
       \<exists>addresses. env_Resolve env h resolver d = Inr addresses \<and> usable_answer addresses"
    "env_Network env h request = Inr snapshot" "plannable cfg snapshot (discoveryRequest cfg state (rss_NameServers resolver))"
    "observed_capability cfg env snapshot evaluation"
  using assms unfolding unhindered_def by blast+

section \<open>Runs that only read\<close>

fun is_write :: "call \<Rightarrow> bool" where
  "is_write (ApplyRouting ch w e) = True"
| "is_write (ApplyFilter p obs e) = True"
| "is_write (WritePreferences p e) = True"
| "is_write c = False"

definition reads :: "reconciler \<Rightarrow> reconciler \<Rightarrow> bool" where
  "reads s s' \<longleftrightarrow> rcl_quarantined s' = rcl_quarantined s \<and>
     (\<exists>new. rcl_history s' = new @ rcl_history s \<and> list_all (\<lambda>c. \<not> is_write c) new)"

lemma reads_refl [simp, intro]: "reads s s"
  by (simp add: reads_def)

lemma reads_trans [trans]: "reads s t \<Longrightarrow> reads t u \<Longrightarrow> reads s u"
  by (auto simp: reads_def)

lemma reads_call: "\<not> is_write c \<Longrightarrow> reads s (s\<lparr>rcl_history := c # rcl_history s\<rparr>)"
  by (simp add: reads_def)

lemma reads_only:
  assumes "\<not> is_write c"
  shows "published initial (c # h) = published initial h" "installed_routing routing (c # h) = installed_routing routing h"
    "installed_filter (c # h) = installed_filter h"
  using assms by (cases c; simp)+

lemma reads_stores:
  assumes "reads s s'"
  shows "published initial (rcl_history s') = published initial (rcl_history s)"
    "installed_routing routing (rcl_history s') = installed_routing routing (rcl_history s)"
    "installed_filter (rcl_history s') = installed_filter (rcl_history s)" "rcl_quarantined s' = rcl_quarantined s"
proof -
  from assms obtain new where new: "rcl_history s' = new @ rcl_history s" "list_all (\<lambda>c. \<not> is_write c) new" by (auto simp: reads_def)
  from new(2) show "published initial (rcl_history s') = published initial (rcl_history s)"
    "installed_routing routing (rcl_history s') = installed_routing routing (rcl_history s)"
    "installed_filter (rcl_history s') = installed_filter (rcl_history s)"
    unfolding new(1) by (induction new; simp add: reads_only)+
  show "rcl_quarantined s' = rcl_quarantined s" using assms by (simp add: reads_def)
qed

text \<open>What the stores hold, with the quarantine flag.\<close>

type_synonym contents = "tailnet_preferences \<times> routing_state \<times> packet_filter_policy option \<times> bool"

definition contents :: "tailnet_state \<Rightarrow> routing_state \<Rightarrow> reconciler \<Rightarrow> contents" where
  "contents state routing s =
     (published (ts_Preferences state) (rcl_history s), installed_routing routing (rcl_history s), installed_filter (rcl_history s),
      rcl_quarantined s)"

lemma reads_contents: "reads s s' \<Longrightarrow> contents state routing s' = contents state routing s"
  by (simp add: contents_def reads_stores)

definition current :: "tailnet_state \<Rightarrow> tailnet_preferences \<Rightarrow> tailnet_state" where
  "current state p = normalize_state (state\<lparr>ts_Preferences := p\<rparr>)"

lemma current_sel [simp]:
  "ts_Preferences (current state p) = p" "ts_Running (current state p) = ts_Running state"
  "ts_KernelTunnel (current state p) = ts_KernelTunnel state"
  "ts_SelfAddresses (current state p) = normalizeAddresses (ts_SelfAddresses state)"
  by (simp_all add: current_def normalize_state_def)

lemma preferences_checks:
  "tailnet_self_error (state\<lparr>ts_Preferences := p\<rparr>) = tailnet_self_error state"
  "tailnet_freshness cfg t (state\<lparr>ts_Preferences := p\<rparr>) = tailnet_freshness cfg t state"
  "tailnet_control_error state = None \<Longrightarrow> preferences_Validate p = [] \<Longrightarrow> tailnet_control_error (state\<lparr>ts_Preferences := p\<rparr>) = None"
  by (cases state, simp only: tailnet_self_error_def tailnet_state.select_convs tailnet_state.update_convs)
    (auto simp: tailnet_freshness_def tailnet_control_error_def Let_def split: if_splits)

section \<open>Tailscale\<close>

lemma readTailnetState_live:
  assumes st: "stores cfg env state routing look" and un: "unhindered cfg env state resolver snapshot evaluation"
    and c: "contents state routing s = (p, r, f, q)" "preferences_Validate p = []"
    and Q: "\<And>s'. reads s s' \<Longrightarrow> Q (Inr (current state p)) s'"
  shows "wp (readTailnetState cfg env) Q s"
proof -
  have "published (ts_Preferences state) (rcl_history s) = p" using c(1) by (simp add: contents_def)
  then show ?thesis
    using unhinderedD(3-5) [OF un] c(2) storesD(1) [OF st]
    by (simp add: readTailnetState_def call_defs preferences_checks current_def [symmetric]) (rule Q, simp add: reads_def)
qed

lemma publish_live:
  assumes st: "stores cfg env state routing look" and un: "unhindered cfg env state resolver snapshot evaluation"
    and c: "contents state routing s = (p0, r, f, q)" and valid: "preferences_Validate p = []"
    and Q: "\<And>s' report'. contents state routing s' = (p, r, f, q) \<Longrightarrow> Q (Inr (current state p, report')) s'"
  shows "wp (publishTailnetPreferences cfg env report p operation) Q s"
proof -
  let ?s = "s\<lparr>rcl_history := WritePreferences p None # rcl_history s\<rparr>"
  have c': "contents state routing ?s = (p, r, f, q)" using c by (simp add: contents_def)
  show ?thesis
    unfolding publishTailnetPreferences_def writeAndVerifyTailnetPreferences_def writeTailnetPreferences_def
    using valid storesD(2) [OF st]
    by (simp add: call_defs invalid_def)
      (rule readTailnetState_live [OF st un c' valid], simp add: Q reads_contents c')
qed

lemma publishUnless_live:
  assumes st: "stores cfg env state routing look" and un: "unhindered cfg env state resolver snapshot evaluation"
    and c: "contents state routing s = (p0, r, f, q)" and valid: "preferences_Validate p = []"
    and Q: "\<And>s' report'. contents state routing s' = (if unneeded then p0 else p, r, f, q) \<Longrightarrow> (unneeded \<Longrightarrow> s' = s) \<Longrightarrow>
      Q (Inr (current state (if unneeded then p0 else p), report')) s'"
  shows "wp (publishUnless cfg env unneeded (current state p0) report p operation) Q s"
proof (cases unneeded)
  case True
  then show ?thesis using Q [of s report] c by (simp add: publishUnless_def)
next
  case False
  then show ?thesis
    unfolding publishUnless_def with_report_def
    by (simp, intro publish_live [OF st un c valid]) (use Q in simp)
qed

section \<open>The data plane\<close>

lemma wp_return_eq: "wp (State_Monad.return x) Q = Q x"
  by (rule ext) simp

lemma observe_live:
  assumes st: "stores cfg env state routing look" and c: "contents state routing s = (p, r, f, q)" and valid: "policy_Validate policy = []"
    and Q: "\<And>s'. reads s s' \<Longrightarrow> Q (Inr (look f policy)) s'"
  shows "wp (observePacketFilter env policy) Q s"
proof -
  have "installed_filter (rcl_history s) = f" using c by (simp add: contents_def)
  with valid storesD(5) [OF st] show ?thesis
    by (simp add: observePacketFilter_def call_defs invalid_def) (rule Q, simp add: reads_def)
qed

lemma reconcilePacketFilter_live:
  assumes st: "stores cfg env state routing look" and c: "contents state routing s = (p, r, f, q)" and valid: "policy_Validate policy = []"
    and Q: "\<And>w f' s'. contents state routing s' = (p, r, f', q) \<Longrightarrow> Matches (look f' policy) policy \<Longrightarrow> Q (w, None) s'"
  shows "wp (reconcilePacketFilter env policy) Q s"
  unfolding reconcilePacketFilter_def wp_bind
proof (rule observe_live [OF st c valid], goal_cases)
  case (1 s1)
  note c1 = reads_contents [OF 1, of state routing, unfolded c]
  show ?case
  proof (cases "Matches (look f policy) policy")
    case True
    with Q [OF c1] show ?thesis by simp
  next
    case False
    let ?s = "s1\<lparr>rcl_history := ApplyFilter policy (look f policy) None # rcl_history s1\<rparr>"
    have c2: "contents state routing ?s = (p, r, Some policy, q)" using c1 by (simp add: contents_def)
    have "wp (observePacketFilter env policy) (\<lambda>verification. Q (1, case verification of
                 Inl e \<Rightarrow> Some (Wrapped ''verify managed nftables state'' e)
               | Inr verified \<Rightarrow>
                   if \<not> Matches verified policy then Some (Message ''managed nftables state did not converge'') else None)) ?s"
      by (rule observe_live [OF st c2 valid])
        (use Q storesD(6) [OF st] in \<open>simp add: reads_contents [where state = state and routing = routing] c2\<close>)
    with False storesD(7) [OF st] show ?thesis by (simp add: call_defs wp_return_eq)
  qed
qed

lemma readRouting_live:
  assumes st: "stores cfg env state routing look" and c: "contents state routing s = (p, r, f, q)"
    and Q: "\<And>observed s'. reads s s' \<Longrightarrow> same_routing observed r \<Longrightarrow> Q (Inr observed) s'"
  shows "wp (readRouting env (routingOwnership cfg)) Q s"
proof -
  have "installed_routing routing (rcl_history s) = r" using c by (simp add: contents_def)
  with storesD(3) [OF st, of "rcl_history s"] obtain observed where
    "env_ReadRouting env (rcl_history s) (routingOwnership cfg) = Inr observed" "same_routing observed r" by auto
  with Q show ?thesis by (simp add: call_defs reads_def)
qed

lemma planRouting_live:
  assumes st: "stores cfg env state routing look" and c: "contents state routing s = (p, r, f, q)"
    and diff: "DiffRouting d r (routingOwnership cfg) = Inr ch"
    and Q: "\<And>s'. reads s s' \<Longrightarrow> Q (Inr ch) s'"
  shows "wp (planRouting cfg env d) Q s"
  unfolding planRouting_def wp_chain wp_on_error
  by (rule readRouting_live [OF st c]) (simp add: DiffRouting_cong [OF _ diff] Q)

lemma verifyRouting_live:
  assumes st: "stores cfg env state routing look" and c: "contents state routing s = (p, r, f, q)"
    and diff: "DiffRouting d r0 (routingOwnership cfg) = Inr ch" "same_routing r d"
    and Q: "\<And>s'. reads s s' \<Longrightarrow> Q None s'"
  shows "wp (verifyRouting cfg env d) Q s"
  unfolding verifyRouting_def wp_bind
  by (rule readRouting_live [OF st c])
    (simp add: DiffRouting_cong [OF _ DiffRouting_desired [OF diff]] Q)

lemma applied:
  assumes st: "stores cfg env state routing look" and c: "contents state routing s = (p, r, f, q)" and "\<not> changes_Empty changes"
    and Q: "\<And>w s'. contents state routing s' = (p, apply_changes changes r, f, q) \<Longrightarrow> Q (w, None) s'"
  shows "wp (applyRoutingChanges env changes) Q s"
proof -
  obtain w where "env_ApplyRouting env (rcl_history s) changes = (w, None)"
    using storesD(4) [OF st] by (metis prod.collapse)
  with assms(3) c Q show ?thesis
    by (simp add: applyRoutingChanges_def call_defs wrapOptional_def contents_def)
qed

lemma applyRoutingPlan_live:
  assumes st: "stores cfg env state routing look" and c: "contents state routing s = (p, r, f, q)"
    and diff: "DiffRouting d r (routingOwnership cfg) = Inr ch"
    and Q: "\<And>w r' s'. contents state routing s' = (p, r', f, q) \<Longrightarrow> same_routing r' d \<Longrightarrow> Q (w, None) s'"
  shows "wp (applyRoutingPlan cfg env d ch) Q s"
proof (cases "changes_Empty ch")
  case True
  with DiffRouting_Empty_iff [OF diff] Q [OF c] show ?thesis by (simp add: applyRoutingPlan_def same_routing_def)
next
  case False
  then show ?thesis
    unfolding applyRoutingPlan_def
  proof (simp, intro applied [OF st c False], simp, goal_cases)
    case (1 w s1)
    note c1 = 1(2)
    show ?case
      by (rule verifyRouting_live [OF st c1 diff apply_changes_desired [OF diff]])
        (use Q [OF _ apply_changes_desired [OF diff]] c1 in \<open>simp add: reads_contents\<close>)
  qed
qed

lemma verifyDataPlane_live:
  assumes st: "stores cfg env state routing look" and un: "unhindered cfg env state resolver snapshot evaluation"
    and c: "contents state routing s = (p, r, f, q)"
    and diff: "DiffRouting d r0 (routingOwnership cfg) = Inr ch" "same_routing r d"
    and filter: "policy_Validate policy = []" "Matches (look f policy) policy"
    and Q: "\<And>s'. reads s s' \<Longrightarrow> Q (Inr ()) s'"
  shows "wp (verifyDataPlane cfg env d policy) Q s"
  unfolding verifyDataPlane_def wp_chain wp_on_error wp_check
proof (rule verifyRouting_live [OF st c diff], goal_cases)
  case (1 s1)
  show ?case
    unfolding option.case sum.case wp_chain wp_on_error
  proof (rule observe_live [OF st trans [OF reads_contents [OF 1] c] filter(1)], goal_cases)
    case (1 s2)
    with \<open>reads s s1\<close> have "reads s (s2\<lparr>rcl_history := KernelCheck None # rcl_history s2\<rparr>)"
      by (metis reads_trans reads_call is_write.simps(4))
    with Q filter(2) unhinderedD(1) [OF un] show ?case by (simp add: call_defs)
  qed
qed

text \<open>The transition of exit defaults: deletions, the check that exactly the rest is pending, then the rest.\<close>

lemma transition_live:
  assumes st: "stores cfg env state routing look" and c: "contents state routing s = (p, r, f, q)"
    and diff: "DiffRouting d r (routingOwnership cfg) = Inr ch" and rules: "ch_AddRules ch = []" "ch_DeleteRules ch = []"
    and transition: "et_activationChanges transition = ChangesZero\<lparr>ch_UpsertRoutes := ch_UpsertRoutes ch\<rparr>"
      "et_deactivationChanges transition = ChangesZero\<lparr>ch_DeleteRoutes := ch_DeleteRoutes ch\<rparr>"
    and Q: "\<And>w r' s'. contents state routing s' = (p, r', f, q) \<Longrightarrow> same_routing r' d \<Longrightarrow> Q (w, None) s'"
  shows "wp (applyExitDefaultRouteTransition cfg env d transition) Q s"
proof -
  have rest: "ch\<lparr>ch_DeleteRoutes := []\<rparr> = et_activationChanges transition"
    using rules transition(1) by (cases ch) (simp add: ChangesZero_def)
  have activate: "wp (activateExitDefaults cfg env d transition) (\<lambda>(w', err) s'. Q (w + w', err) s') s1"
    if c1: "contents state routing s1 = (p, r1, f, q)"
      and left: "DiffRouting d r1 (routingOwnership cfg) = Inr (et_activationChanges transition)" for w r1 s1
  proof (cases "changes_Empty (et_activationChanges transition)")
    case True
    with DiffRouting_Empty_iff [OF left] Q [OF c1] show ?thesis by (simp add: activateExitDefaults_def same_routing_def)
  next
    case False
    then show ?thesis
      unfolding activateExitDefaults_def
      by (simp, intro applyRoutingPlan_live [OF st c1 left]) (simp add: wrapOptional_def Q)
  qed
  show ?thesis
  proof (cases "changes_Empty (et_deactivationChanges transition)")
    case True
    then have "ch\<lparr>ch_DeleteRoutes := []\<rparr> = ch" unfolding transition(2) by (cases ch) (simp add: ChangesZero_def)
    with rest diff have "DiffRouting d r (routingOwnership cfg) = Inr (et_activationChanges transition)" by simp
    from activate [OF c this, of 0] True show ?thesis
      by (simp add: applyExitDefaultRouteTransition_def deactivateExitDefaults_def split_def)
  next
    case False
    let ?r = "apply_changes (et_deactivationChanges transition) r"
    have left: "DiffRouting d ?r (routingOwnership cfg) = Inr (et_activationChanges transition)"
      using DiffRouting_after_deletions [OF diff] unfolding transition(2) rest [symmetric] by simp
    show ?thesis
      unfolding applyExitDefaultRouteTransition_def deactivateExitDefaults_def if_not_P [OF False] wp_bind
    proof (rule applied [OF st c False], simp add: verifyPendingRoutingChanges_def, goal_cases)
      case (1 w s1)
      show ?case
        by (rule planRouting_live [OF st 1 left])
          (use activate [OF _ left] 1 in \<open>simp add: changes_Equal_def wrapOptional_def reads_contents split_def wp_return_eq\<close>)
    qed
  qed
qed

section \<open>The branches of a run\<close>

text \<open>Everything desired is in place.\<close>

definition in_force ::
  "configuration \<Rightarrow> (packet_filter_policy option \<Rightarrow> packet_filter_policy \<Rightarrow> packet_filter_observation) \<Rightarrow> network_snapshot \<Rightarrow>
   exit_default_route_set \<Rightarrow> packet_filter_policy \<Rightarrow> contents \<Rightarrow> bool" where
  "in_force cfg look snapshot active policy = (\<lambda>(p, r, f, q). p = desiredPreferences cfg active \<and>
     same_routing r (buildDesiredRouting cfg snapshot active) \<and> Matches (look f policy) policy)"

text \<open>How a successful run ends.\<close>

definition arrived ::
  "configuration \<Rightarrow> tailnet_state \<Rightarrow> routing_state \<Rightarrow> (packet_filter_policy option \<Rightarrow> packet_filter_policy \<Rightarrow> packet_filter_observation) \<Rightarrow>
   network_snapshot \<Rightarrow> exit_default_route_set \<Rightarrow> packet_filter_policy \<Rightarrow> reconcile_report \<Rightarrow> reconciler \<Rightarrow> bool" where
  "arrived cfg state routing look snapshot active policy report s \<longleftrightarrow>
     in_force cfg look snapshot active policy (contents state routing s) \<and> \<not> rcl_quarantined s \<and> rcl_lastPacketPolicy s = policy \<and>
     rp_DataPlaneAvailable report = (\<not> tnc_AdvertiseExitNode (cf_Tailnet cfg) \<or> \<not> exit_Empty active)"

definition unwritten :: "reconciler \<Rightarrow> reconciler \<Rightarrow> bool" where
  "unwritten s s' \<longleftrightarrow> (\<exists>new. rcl_history s' = new @ rcl_history s \<and> list_all (\<lambda>c. \<not> is_write c) new)"

lemma reads_unwritten: "reads s s' \<Longrightarrow> unwritten s s'"
  by (auto simp: reads_def unwritten_def)

lemma unwritten_trans [trans]: "unwritten s t \<Longrightarrow> unwritten t u \<Longrightarrow> unwritten s u"
  by (auto simp: unwritten_def)

lemma finish_live:
  assumes "contents state routing s = (desiredPreferences cfg active, r, f, q)"
    "same_routing r (buildDesiredRouting cfg snapshot active)" "Matches (look f policy) policy"
    and Q: "\<And>report' s'. arrived cfg state routing look snapshot active policy report' s' \<Longrightarrow> unwritten s s' \<Longrightarrow> Q (Inr (report', None)) s'"
  shows "wp (finishReconcile cfg (desiredPreferences cfg active) active policy (tailnetState, report)) Q s"
  using assms(1-3)
  by (simp add: finishReconcile_def finalizeSuccessfulReconcile_def completeReconcileReport_def recordRouteApprovals_def Let_def)
    (rule Q, auto simp: arrived_def in_force_def contents_def unwritten_def)

lemma valid_desired_live: "unhindered cfg env state resolver snapshot evaluation \<Longrightarrow> preferences_Validate (desiredPreferences cfg active) = []"
  by (rule valid_desired [OF plannable_facts(1) [OF unhinderedD(13)]])

lemma live_context:
  assumes un: "unhindered cfg env state resolver snapshot evaluation"
    and Q: "\<And>s'. reads s s' \<Longrightarrow> Q (Inr ()) s'"
  shows "wp (require_live env report) Q s"
  using unhinderedD(2) [OF un] by (simp add: require_live_def call_defs) (rule Q, simp add: reads_def)

lemma reconcileNoDrift_live:
  assumes st: "stores cfg env state routing look" and un: "unhindered cfg env state resolver snapshot evaluation"
    and c: "contents state routing s = (p, r, f, q)"
    and diff: "DiffRouting (buildDesiredRouting cfg snapshot active) r (routingOwnership cfg) = Inr ch"
      "same_routing r (buildDesiredRouting cfg snapshot active)"
    and filter: "policy_Validate policy = []" "Matches (look f policy) policy"
    and Q: "\<And>report' s'. arrived cfg state routing look snapshot active policy report' s' \<Longrightarrow>
        (p = desiredPreferences cfg active \<Longrightarrow> unwritten s s') \<Longrightarrow> Q (report', None) s'"
  shows "wp (reconcileNoDrift cfg env report (current state p) (buildDesiredRouting cfg snapshot active) policy
    (desiredPreferences cfg active) active) Q s"
  unfolding reconcileNoDrift_def wp_finish wp_chain
proof (rule live_context [OF un], goal_cases)
  case (1 s1)
  note c1 = reads_contents [OF 1, of state routing, unfolded c]
  show ?case
  proof (cases "p = desiredPreferences cfg active")
    case True
    then have "wp (finishReconcile cfg (desiredPreferences cfg active) active policy (current state p, report))
        (\<lambda>r. Q (case r of Inl x \<Rightarrow> x | Inr x \<Rightarrow> x)) s1"
      by (intro finish_live [where look = look and policy = policy, OF c1 [unfolded True] diff(2) filter(2)])
        (use Q unwritten_trans [OF reads_unwritten [OF \<open>reads s s1\<close>]] in simp)
    with True show ?thesis by simp
  next
    case False
    then show ?thesis
    proof (simp add: with_report_def, intro verifyDataPlane_live [OF st un c1 diff filter], simp, goal_cases)
      case (1 s2)
      show ?case
        by (rule publish_live [OF st un trans [OF reads_contents [OF 1(1)] c1] valid_desired_live [OF un]], simp)
          (rule finish_live [where look = look, OF _ diff(2) filter(2)], assumption, use Q False in simp)
    qed
  qed
qed

lemma publishVerified_live:
  assumes st: "stores cfg env state routing look" and un: "unhindered cfg env state resolver snapshot evaluation"
    and c: "contents state routing s = (p, r, f, q)"
    and diff: "DiffRouting (buildDesiredRouting cfg snapshot active) r0 (routingOwnership cfg) = Inr ch"
      "same_routing r (buildDesiredRouting cfg snapshot active)"
    and filter: "policy_Validate policy = []" "Matches (look f policy) policy"
    and Q: "\<And>report' s'. arrived cfg state routing look snapshot active policy report' s' \<Longrightarrow> Q (Inr (report', None)) s'"
  shows "wp (publishVerified cfg env (buildDesiredRouting cfg snapshot active) policy (desiredPreferences cfg active) active
    (current state p) report) Q s"
  unfolding publishVerified_def with_report_def wp_chain wp_on_error
proof (rule verifyDataPlane_live [OF st un c diff filter], goal_cases)
  case (1 s1)
  note c1 = reads_contents [OF 1, of state routing, unfolded c]
  show ?case
    unfolding sum.case wp_chain
  proof (rule live_context [OF un], goal_cases)
    case (1 s2)
    note c2 = reads_contents [OF 1, of state routing, unfolded c1]
    show ?case
      unfolding sum.case wp_chain
    proof (rule publishUnless_live [OF st un c2 valid_desired_live [OF un]], goal_cases)
      case (1 s3 report')
      then have c3: "contents state routing s3 = (desiredPreferences cfg active, r, f, q)" by (auto split: if_splits)
      show ?case
        unfolding sum.case by (rule finish_live [where look = look, OF c3 diff(2) filter(2)]) (rule Q)
    qed
  qed
qed

lemma isolated_live:
  assumes st: "stores cfg env state routing look" and un: "unhindered cfg env state resolver snapshot evaluation"
    and c: "contents state routing s = (p, r, f, q)"
    and diff: "DiffRouting (buildDesiredRouting cfg snapshot active) r (routingOwnership cfg) = Inr ch"
    and classified: "classifyExitDefaultRouteTransition ch (cf_Network cfg) = (transition, True)"
    and filter: "policy_Validate policy = []" "Matches (look f policy) policy"
    and Q: "\<And>report' s'. arrived cfg state routing look snapshot active policy report' s' \<Longrightarrow> Q (report', None) s'"
  shows "wp (reconcileIsolatedExitDefaultTransition cfg env report (current state p) (buildDesiredRouting cfg snapshot active) policy
    (desiredPreferences cfg active) active transition) Q s"
proof -
  have parts: "ch_AddRules ch = []" "ch_DeleteRules ch = []" "et_activationChanges transition = ChangesZero\<lparr>ch_UpsertRoutes := ch_UpsertRoutes ch\<rparr>"
      "et_deactivationChanges transition = ChangesZero\<lparr>ch_DeleteRoutes := ch_DeleteRoutes ch\<rparr>"
    using classified by (auto simp: classifyExitDefaultRouteTransition_def split: if_splits option.splits)
  show ?thesis
    unfolding reconcileIsolatedExitDefaultTransition_def wp_finish wp_chain
  proof (rule publishUnless_live [OF st un c valid_desired_live [OF un]], goal_cases)
    case (1 s1 report1)
    show ?case
      unfolding sum.case transitionAndPublish_def prod.case wp_bind
    proof (rule transition_live [OF st 1(1) diff parts], goal_cases)
      case (1 w r' s2)
      show ?case
        unfolding prod.case option.map wp_require_chain
        by (rule publishVerified_live [OF st un 1(1) diff 1(2) filter]) (simp add: Q)
    qed
  qed
qed

lemma convergeClosed_live:
  assumes st: "stores cfg env state routing look" and un: "unhindered cfg env state resolver snapshot evaluation"
    and c: "contents state routing s = (p, r, f, q)"
    and diff: "DiffRouting d r (routingOwnership cfg) = Inr ch"
    and closed: "policy_Validate (policy\<lparr>pf_GateClosed := True\<rparr>) = []"
    and Q: "\<And>r' f' q' report' s'. contents state routing s' = (NewTailnetPreferences [], r', f', q') \<Longrightarrow> same_routing r' d \<Longrightarrow>
      Q (Inr (current state (NewTailnetPreferences []), report')) s'"
  shows "wp (convergeClosed cfg env report (current state p) d policy ch (NewTailnetPreferences [])) Q s"
  unfolding convergeClosed_def Let_def wp_bind
proof (rule reconcilePacketFilter_live [OF st c closed], simp, goal_cases)
  case (1 w f' s1)
  let ?s = "s1\<lparr>rcl_lastPacketPolicy := policy\<lparr>pf_GateClosed := True\<rparr>, rcl_hasPacketPolicy := True, rcl_quarantined := True\<rparr>"
  have c1: "contents state routing ?s = (p, r, f', True)" using 1(1) by (simp add: contents_def)
  show ?case
  proof (rule publishUnless_live [OF st un c1 valid_disabled], goal_cases)
    case (1 s2 report2)
    have same: "(if preferences_Equal (ts_Preferences (current state p)) (NewTailnetPreferences []) then p else NewTailnetPreferences []) =
      NewTailnetPreferences []" by simp
    show ?case
      unfolding sum.case applyDrift_def prod.case wp_bind same
      by (rule applyRoutingPlan_live [OF st 1(1) [unfolded same] diff]) (simp add: Q)
  qed
qed

lemma openAndPublish_live:
  assumes st: "stores cfg env state routing look" and un: "unhindered cfg env state resolver snapshot evaluation"
    and c: "contents state routing s = (p, r, f, q)" "preferences_Validate p = []"
    and diff: "DiffRouting (buildDesiredRouting cfg snapshot active) r0 (routingOwnership cfg) = Inr ch"
      "same_routing r (buildDesiredRouting cfg snapshot active)"
    and policy: "policy_Validate policy = []"
    and Q: "\<And>report' s'. arrived cfg state routing look snapshot active policy report' s' \<Longrightarrow> Q (Inr (report', None)) s'"
  shows "wp (openAndPublish cfg env (buildDesiredRouting cfg snapshot active) policy (desiredPreferences cfg active) active
    (current state p, report)) Q s"
  unfolding openAndPublish_def prod.case wp_bind
proof (rule reconcilePacketFilter_live [OF st c(1) policy], simp add: with_report_def, goal_cases)
  case (1 w f' s1)
  note opened = 1
  show ?case
  proof (rule verifyDataPlane_live [OF st un opened(1) diff policy opened(2)], goal_cases)
    case (1 s2)
    note c2 = reads_contents [OF 1, of state routing, unfolded opened(1)]
    show ?case
      unfolding sum.case publishConverged_def wp_chain
    proof (rule live_context [OF un], goal_cases)
      case (1 s3)
      note c3 = reads_contents [OF 1, of state routing, unfolded c2]
      have final: "wp (chain (require_live env report') (\<lambda>u. finishReconcile cfg (desiredPreferences cfg active) active policy
          (current state (desiredPreferences cfg active), report'))) Q s4"
        if "contents state routing s4 = (desiredPreferences cfg active, r, f', q)" for report' s4
        unfolding wp_chain
        by (rule live_context [OF un])
          (simp, rule finish_live [where look = look, OF trans [OF reads_contents that] diff(2) opened(2)], assumption, rule Q)
      show ?case
      proof (cases "p = desiredPreferences cfg active")
        case True
        with final [of s4 for s4, unfolded wp_chain] show ?thesis
          by (simp add: refreshApproval_def, intro readTailnetState_live [OF st un c3 c(2)]) (simp add: reads_contents c3)
      next
        case False
        with final [unfolded wp_chain] show ?thesis
          by (simp add: with_report_def, intro publish_live [OF st un c3 valid_desired_live [OF un]]) simp
      qed
    qed
  qed
qed

section \<open>Local egress\<close>

definition well_cached :: "reconciler \<Rightarrow> bool" where
  "well_cached s \<longleftrightarrow> (\<forall>d entry. rcl_addressCache s d = Some entry \<longrightarrow> usable_answer (resolved_All (cda_addresses entry)))"

lemma resolveOne_live:
  assumes un: "unhindered cfg env state resolver snapshot evaluation" and enabled: "lc_Enabled (fc_LocalEgress (cf_PacketFilter cfg))"
    and d: "d \<in> set (lc_Domains (fc_LocalEgress (cf_PacketFilter cfg)))" and cached: "well_cached s"
    and Q: "\<And>xs s'. reads s s' \<Longrightarrow> well_cached s' \<Longrightarrow> usable_answer xs \<Longrightarrow> Q (Inr xs) s'"
  shows "wp (resolveOne env local resolver t d) Q s"
proof -
  obtain as where as: "env_Resolve env (rcl_history s) resolver d = Inr as" "usable_answer as"
    using unhinderedD(11) [OF un enabled d] by blast
  have "wp (refreshDomain env local resolver t d old) Q s" for old
    using as usable_resolved [OF as(2)]
    by (simp add: refreshDomain_def call_defs Let_def)
      (rule Q, insert cached, auto simp: reads_def well_cached_def)
  moreover have "Q (Inr (resolved_All (cda_addresses entry))) s" if "rcl_addressCache s d = Some entry" for entry
    using that cached by (intro Q) (auto simp: well_cached_def)
  ultimately show ?thesis by (simp add: resolveOne_def split: option.split)
qed

lemma resolveLoop_live:
  assumes un: "unhindered cfg env state resolver snapshot evaluation" and enabled: "lc_Enabled (fc_LocalEgress (cf_PacketFilter cfg))"
  shows "set ds \<subseteq> set (lc_Domains (fc_LocalEgress (cf_PacketFilter cfg))) \<Longrightarrow> well_cached s \<Longrightarrow>
    ds \<noteq> [] \<and> list_all (\<lambda>a. \<not> unusable_address (addr_Unmap a)) combined \<or> usable_answer combined \<Longrightarrow>
    (\<And>xs s'. reads s s' \<Longrightarrow> usable_answer xs \<Longrightarrow> Q (xs, []) s') \<Longrightarrow>
    wp (resolveLoop env local resolver t ds combined []) Q s"
proof (induction ds arbitrary: combined s)
  case Nil
  then show ?case by simp
next
  case (Cons d ds)
  show ?case
    unfolding resolveLoop.simps wp_bind
  proof (rule resolveOne_live [OF un enabled _ Cons.prems(2)], use Cons.prems(1) in simp, simp, goal_cases)
    case (1 xs s1)
    then have "usable_answer (combined @ xs)" using Cons.prems(3) by (auto simp: usable_answer_def)
    with 1 Cons.prems(1,4) show ?case by (intro Cons.IH) (auto intro: reads_trans)
  qed
qed

lemma resolveLocalEgress_live:
  assumes un: "unhindered cfg env state resolver snapshot evaluation" and cached: "well_cached s"
    and Q: "\<And>addresses s'. reads s s' \<Longrightarrow> egress_resolved cfg addresses \<Longrightarrow> Q (Inr addresses) s'"
  shows "wp (resolveLocalEgress cfg env resolver) Q s"
proof (cases "lc_Enabled (fc_LocalEgress (cf_PacketFilter cfg))")
  case True
  let ?local = "fc_LocalEgress (cf_PacketFilter cfg)"
  let ?s = "s\<lparr>rcl_history := Now (env_Now env (rcl_history s)) # rcl_history s\<rparr>"
  have start: "reads s ?s" "well_cached ?s" using cached by (simp_all add: reads_def well_cached_def)
  have "lc_Domains ?local \<noteq> []"
    using True configuration_sections(2) [OF plannable_facts(1) [OF unhinderedD(13) [OF un]]]
    by (auto simp: validatePacketFilterConfiguration_def Let_def)
  moreover have "Q (Inr (NewResolvedAddresses xs)) s'" if "reads ?s s'" "usable_answer xs" for xs s'
    using that True reads_trans [OF start(1)] by (intro Q) (auto simp: egress_resolved_def)
  ultimately show ?thesis
    using True unfolding resolveLocalEgress_def Let_def
    by (simp add: call_defs, intro resolveLoop_live [OF un True _ start(2)]) (auto simp: usable_resolved)
next
  case False
  with Q [of s] show ?thesis by (simp add: resolveLocalEgress_def egress_resolved_def)
qed

section \<open>The whole run\<close>

lemma normalizeAddresses_eq:
  "normalizeAddresses xs = sorted_list_of_set {a \<in> addr_Unmap ` set xs. addr_IsValid a \<and> addr_Zone a = []}"
  by (simp add: normalizeAddresses_def addr_sort compact_sort)

lemma normalizeAddresses_idem: "normalizeAddresses (normalizeAddresses xs) = normalizeAddresses xs"
  by (auto simp: normalizeAddresses_eq image_iff intro!: arg_cong [where f = sorted_list_of_set])

lemma readTailnetState_cache: "wp (readTailnetState cfg env) (\<lambda>_ s'. rcl_addressCache s' = rcl_addressCache s) s"
  by (simp add: readTailnetState_def call_defs split: sum.split option.split)

lemma publish_cache: "wp (publishTailnetPreferences cfg env report p operation) (\<lambda>_ s'. rcl_addressCache s' = rcl_addressCache s) s"
proof -
  let ?s = "\<lambda>e. s\<lparr>rcl_history := WritePreferences p e # rcl_history s\<rparr>"
  have "wp (readTailnetState cfg env) (\<lambda>_ s'. rcl_addressCache s' = rcl_addressCache s) (?s e)" for e
    using readTailnetState_cache [of cfg env "?s e"] by simp
  from wp_mono [OF this] show ?thesis
    unfolding publishTailnetPreferences_def writeAndVerifyTailnetPreferences_def writeTailnetPreferences_def
    by (auto simp: call_defs split: option.split sum.split)
qed

lemma reconcileTailnet_cache:
  "wp (reconcileTailnet cfg env disabled) (\<lambda>_ s'. rcl_addressCache s' = rcl_addressCache s) s"
proof -
  let ?s = "\<lambda>e. s\<lparr>rcl_history := KernelCheck e # rcl_history s\<rparr>"
  let ?same = "\<lambda>t. rcl_addressCache t = rcl_addressCache s"
  have read: "wp (readTailnetState cfg env) (\<lambda>_. ?same) (?s e)" for e
    using readTailnetState_cache [of cfg env "?s e"] by simp
  have "wp (publishUnless cfg env unneeded state ReportZero disabled operation) (\<lambda>_. ?same) t" if "?same t" for unneeded state operation t
    using that wp_mono [OF publish_cache [of cfg env ReportZero disabled operation t]]
    by (auto simp: publishUnless_def with_report_def split: sum.split)
  with wp_mono [OF read] show ?thesis
    by (auto simp: reconcileTailnet_def with_report_def call_defs split: option.split sum.split)
qed

lemma reconcileTailnet_live:
  assumes st: "stores cfg env state routing look" and un: "unhindered cfg env state resolver snapshot evaluation"
    and c: "contents state routing s = (p, r, f, q)" "preferences_Validate p = []"
    and Q: "\<And>p' report s'. contents state routing s' = (p', r, f, q) \<Longrightarrow> preferences_Validate p' = [] \<Longrightarrow>
      (\<not> q \<Longrightarrow> p' = p \<and> unwritten s s') \<Longrightarrow> Q (Inr (current state p', report)) s'"
  shows "wp (reconcileTailnet cfg env (NewTailnetPreferences [])) Q s"
proof -
  let ?s = "s\<lparr>rcl_history := KernelCheck None # rcl_history s\<rparr>"
  have start: "reads s ?s" by (simp add: reads_def)
  note c1 = trans [OF reads_contents [OF start] c(1)]
  show ?thesis
    unfolding reconcileTailnet_def with_report_def
  proof (simp add: call_defs unhinderedD(1) [OF un], rule readTailnetState_live [OF st un c1 c(2)], goal_cases)
    case (1 s1)
    note c2 = trans [OF reads_contents [OF 1] c1]
    have q: "rcl_quarantined s1 = q" using c2 by (simp add: contents_def)
    have quiet: "unwritten s s1" by (rule reads_unwritten [OF reads_trans [OF start 1]])
    have "wp (publishUnless cfg env (\<not> (rcl_quarantined s1 \<and> \<not> preferences_Equal p (NewTailnetPreferences []))) (current state p)
        ReportZero (NewTailnetPreferences []) ''clear restored Tailscale advertisements'') Q s1"
    proof (rule publishUnless_live [OF st un c2 valid_disabled], goal_cases)
      case (1 s2 report)
      then show ?case
        using c(2) valid_disabled quiet q by (intro Q) (auto split: if_splits)
    qed
    then show ?case using unhinderedD(6-8) [OF un] by simp
  qed
qed

lemma reconcileDiscovery_live:
  assumes un: "unhindered cfg env state resolver snapshot evaluation" and cached: "well_cached s"
    and Q: "\<And>addresses s'. reads s s' \<Longrightarrow> egress_resolved cfg addresses \<Longrightarrow> Q (Inr (snapshot, addresses)) s'"
  shows "wp (reconcileDiscovery cfg env (current state p)) Q s"
proof -
  let ?request = "discoveryRequest cfg state (rss_NameServers resolver)"
  let ?s = "s\<lparr>rcl_history := ResolverSnapshot (Inr resolver) # rcl_history s\<rparr>"
  have start: "reads s ?s" "well_cached ?s" using cached by (simp_all add: reads_def well_cached_def)
  have request: "discoveryRequest cfg (current state p) (rss_NameServers resolver) = ?request"
    by (simp add: discoveryRequest_def normalizeAddresses_idem)
  have "request_Validate ?request = []" "snapshot_Validate snapshot ?request = []"
    using unhinderedD(13) [OF un] by (auto simp: plannable_def validated_def snapshot_Nil_iff)
  then show ?thesis
    using unhinderedD(9,10,12) [OF un]
    by (simp add: reconcileDiscovery_def call_defs request invalid_def Let_def)
      (rule resolveLocalEgress_live [OF un start(2)], simp,
       rule Q, insert start(1), auto simp: reads_def)
qed

lemma reconcileCapability_live:
  assumes un: "unhindered cfg env state resolver snapshot evaluation"
    and Q: "\<And>s'. reads s s' \<Longrightarrow> Q (Inr evaluation) s'"
  shows "wp (reconcileCapability cfg env snapshot) Q s"
proof (cases "tnc_AdvertiseExitNode (cf_Tailnet cfg)")
  case True
  with unhinderedD(14) [OF un] obtain capability where "\<forall>h. env_Capability env h (sn_ProxyTunnelLink snapshot) = Inr capability"
      "\<forall>h. evaluateInternetCapability capability (sn_ProxyTunnelLink snapshot) (env_Now env h) = Inr evaluation"
    by (auto simp: observed_capability_def)
  with True show ?thesis
    by (simp add: reconcileCapability_def call_defs) (rule Q, simp add: reads_def)
next
  case False
  with unhinderedD(14) [OF un] Q [of s] show ?thesis by (simp add: observed_capability_def reconcileCapability_def)
qed

lemma reconcileConverge_live:
  assumes st: "stores cfg env state routing look" and un: "unhindered cfg env state resolver snapshot evaluation"
    and c: "contents state routing s = (p, r, f, q)" "preferences_Validate p = []"
    and accepted: "state_accepted (routingOwnership cfg) False r" and egress: "egress_resolved cfg addresses"
    and Q: "\<And>report' s'. arrived cfg state routing look snapshot active
          (packetFilterPolicy cfg (sn_DNSEgressPaths snapshot) addresses False) report' s' \<Longrightarrow>
        (in_force cfg look snapshot active (packetFilterPolicy cfg (sn_DNSEgressPaths snapshot) addresses False) (p, r, f, q) \<Longrightarrow>
          unwritten s s') \<Longrightarrow> Q (report', None) s'"
  shows "wp (reconcileConverge cfg env report (current state p) snapshot addresses active) Q s"
proof -
  let ?routing = "buildDesiredRouting cfg snapshot active"
  let ?policy = "packetFilterPolicy cfg (sn_DNSEgressPaths snapshot) addresses False"
  note plan = unhinderedD(13) [OF un]
  note cfg = plannable_facts(1) [OF plan]
  have policy: "policy_Validate ?policy = []" and closed: "policy_Validate (?policy\<lparr>pf_GateClosed := True\<rparr>) = []"
    unfolding close_policy by (rule desired_policy_valid [OF plan egress])+
  obtain ch where diff: "DiffRouting ?routing r (routingOwnership cfg) = Inr ch"
    using accepted desired_accepted [OF plan] routingOwnership_valid [OF cfg] by (auto simp: DiffRouting_Inr_iff)
  have same: "changes_Empty ch \<longleftrightarrow> same_routing r ?routing"
    using DiffRouting_Empty_iff [OF diff] by (auto simp: same_routing_def)
  obtain transition isolated where kind: "classifyExitDefaultRouteTransition ch (cf_Network cfg) = (transition, isolated)" by fastforce
  show ?thesis
    unfolding reconcileConverge_def Let_def wp_finish wp_chain with_report_def wp_on_error
  proof (rule planRouting_live [OF st c(1) diff], goal_cases)
    case (1 s1)
    note c1 = trans [OF reads_contents [OF 1] c(1)]
    show ?case
      unfolding sum.case wp_chain wp_on_error
    proof (rule observe_live [OF st c1 policy], goal_cases)
      case (1 s2)
      note c2 = trans [OF reads_contents [OF 1] c1]
      have quiet: "unwritten s s2" by (rule reads_unwritten [OF reads_trans [OF \<open>reads s s1\<close> 1]])
      consider (none) "changes_Empty ch" "Matches (look f ?policy) ?policy"
        | (isolated) "\<not> (changes_Empty ch \<and> Matches (look f ?policy) ?policy)" "isolated" "Matches (look f ?policy) ?policy"
            "RoutesWithoutExitDefaults p = RoutesWithoutExitDefaults (desiredPreferences cfg active)"
        | (global) "\<not> (changes_Empty ch \<and> Matches (look f ?policy) ?policy)" "\<not> (RoutesWithoutExitDefaults p =
            RoutesWithoutExitDefaults (desiredPreferences cfg active) \<and> isolated \<and> Matches (look f ?policy) ?policy)"
        by blast
      then show ?case
      proof cases
        case none
        have "wp (reconcileNoDrift cfg env report (current state p) ?routing ?policy (desiredPreferences cfg active) active) Q s2"
          by (rule reconcileNoDrift_live [OF st un c2 diff same [THEN iffD1, OF none(1)] policy none(2)])
            (rule Q, auto simp: in_force_def intro: unwritten_trans [OF quiet])
        with none kind show ?thesis unfolding sum.case kind prod.case by simp
      next
        case isolated
        have "wp (reconcileIsolatedExitDefaultTransition cfg env report (current state p) ?routing ?policy
            (desiredPreferences cfg active) active transition) Q s2"
          by (rule isolated_live [OF st un c2 diff _ policy isolated(3)])
            (use kind isolated(1,2) same in \<open>auto intro!: Q simp: in_force_def\<close>)
        with isolated kind show ?thesis unfolding sum.case kind prod.case by simp
      next
        case global
        have "wp (reconcileGlobalDrift cfg env report (current state p) ?routing ?policy (desiredPreferences cfg active) active ch
            (NewTailnetPreferences [])) Q s2"
          unfolding reconcileGlobalDrift_def wp_finish wp_chain
        proof (rule convergeClosed_live [OF st un c2 diff closed], goal_cases)
          case (1 r' f' q' report' s3)
          show ?case
            unfolding sum.case
            by (rule openAndPublish_live [OF st un 1(1) valid_disabled diff 1(2) policy])
              (use global(1) same in \<open>auto intro!: Q simp: in_force_def\<close>)
        qed
        with global kind show ?thesis unfolding sum.case kind prod.case by auto
      qed
    qed
  qed
qed

lemma Reconcile_live:
  assumes st: "stores cfg env state routing look" and un: "unhindered cfg env state resolver snapshot evaluation"
    and c: "contents state routing s = (p, r, f, q)" "preferences_Validate p = []"
    and accepted: "state_accepted (routingOwnership cfg) False r" and cached: "well_cached s"
    and Q: "\<And>addresses policy report s'. policy = packetFilterPolicy cfg (sn_DNSEgressPaths snapshot) addresses False \<Longrightarrow>
        arrived cfg state routing look snapshot (ce_activeExitDefaultRoutes evaluation) policy report s' \<Longrightarrow>
        (\<not> q \<Longrightarrow> in_force cfg look snapshot (ce_activeExitDefaultRoutes evaluation) policy (p, r, f, q) \<Longrightarrow> unwritten s s') \<Longrightarrow>
        Q (report, None) s'"
  shows "wp (Reconcile cfg env) Q s"
proof -
  let ?ok = "\<lambda>p' s'. contents state routing s' = (p', r, f, q) \<and> preferences_Validate p' = [] \<and> (\<not> q \<longrightarrow> p' = p \<and> unwritten s s')"
  have "wp (reconcileTailnet cfg env (NewTailnetPreferences [])) (\<lambda>x s'. (\<exists>p' report. x = Inr (current state p', report) \<and> ?ok p' s') \<and>
      well_cached s') s"
    by (rule wp_mono [OF wp_conj [OF reconcileTailnet_live [OF st un c, where Q = "\<lambda>x s'. \<exists>p' report. x = Inr (current state p', report) \<and> ?ok p' s'"]
          reconcileTailnet_cache]]) (use cached in \<open>auto simp: well_cached_def\<close>)
  then show ?thesis
    unfolding Reconcile_def wp_finish wp_chain with_report_def wp_on_error wp_lift
  proof (rule wp_mono, goal_cases)
    case (1 x s1)
    then obtain p' report where x: "x = Inr (current state p', report)" and tailnet: "?ok p' s1" and cached: "well_cached s1" by blast
    show ?case
      unfolding x sum.case prod.case wp_chain wp_on_error
    proof (rule reconcileDiscovery_live [OF un cached], simp only: sum.case prod.case wp_chain wp_on_error, goal_cases)
      case (1 addresses s2)
      note discovery = this
      show ?case
      proof (rule reconcileCapability_live [OF un], simp only: sum.case prod.case wp_lift, goal_cases)
        case (1 s3)
        have reads: "reads s1 s3" by (rule reads_trans [OF discovery(1) 1])
        have c3: "contents state routing s3 = (p', r, f, q)" using reads_contents [OF reads] tailnet by simp
        show ?case
        proof (rule reconcileConverge_live [OF st un c3 _ accepted discovery(2)], use tailnet in simp, goal_cases)
          case (1 report' s4)
          show ?case
            by (rule Q [OF refl 1(1)]) (use 1(2) tailnet reads_unwritten [OF reads] in \<open>auto intro: unwritten_trans\<close>)
        qed
      qed
    qed
  qed
qed

end
