(* ===== verification/Reconciler_Properties.thy ===== *)
theory Reconciler_Properties
  imports Reconciler_Liveness
begin

text \<open>
  The properties of the reconciler: the invariant of every reachable state, what a successful or failed operation
  guarantees, and that a converged system is left alone.
\<close>

section \<open>Reachable states\<close>

inductive reconciler_step :: "configuration \<Rightarrow> reconciler \<Rightarrow> reconciler \<Rightarrow> bool" for cfg where
  prepare: "run_state (Prepare cfg env) s = (prepared, s') \<Longrightarrow> reconciler_step cfg s s'"
| reconcile: "run_state (Reconcile cfg env) s = (outcome, s') \<Longrightarrow> reconciler_step cfg s s'"
| fail_closed: "run_state (FailClosed cfg env) s = (outcome, s') \<Longrightarrow> reconciler_step cfg s s'"
| shutdown: "run_state (Shutdown cfg env) s = (err, s') \<Longrightarrow> reconciler_step cfg s s'"

inductive reachable :: "configuration \<Rightarrow> reconciler \<Rightarrow> bool" for cfg where
  start: "NewReconciler cfg deps = Inr s \<Longrightarrow> reachable cfg s"
| step: "reachable cfg s \<Longrightarrow> reconciler_step cfg s s' \<Longrightarrow> reachable cfg s'"

lemma NewReconciler_Inr:
  assumes "NewReconciler cfg deps = Inr s"
  shows "configuration_Validate cfg = []" "rcl_history s = []" "consistent s" "rcl_quarantined s"
  using assms by (auto simp: NewReconciler_def consistent_def split: if_splits)

lemma reachable_valid: "reachable cfg s \<Longrightarrow> configuration_Validate cfg = []"
  by (induction rule: reachable.induct) (auto dest: NewReconciler_Inr)

lemma Shutdown_wp: "wp (Shutdown cfg env) (\<lambda>err s'. sound cfg s s' \<and> quarantine s') s"
  unfolding Shutdown_def wp_rules
  by (rule wp_mono [OF failClosed_wp]) (auto dest: accounts_sound)

lemma step_sound:
  assumes "reconciler_step cfg s s'" "configuration_Validate cfg = []"
  shows "sound cfg s s'"
  using assms(1)
proof (cases rule: reconciler_step.cases)
  case (prepare env r)
  with wp_run [OF Prepare_wp prepare] show ?thesis by simp
next
  case (reconcile env outcome)
  from wp_run [OF Reconcile_wp [OF assms(2)] reconcile] show ?thesis by (auto dest: accounts_sound)
next
  case (fail_closed env outcome)
  from wp_run [OF failClosed_wp fail_closed [unfolded FailClosed_def]] show ?thesis by (auto dest: accounts_sound)
next
  case (shutdown env err)
  from wp_run [OF Shutdown_wp shutdown] show ?thesis by simp
qed

lemma reachable_safe: "reachable cfg s \<Longrightarrow> safe cfg (rcl_history s) \<and> consistent s"
proof (induction rule: reachable.induct)
  case (start deps s)
  then show ?case by (simp add: NewReconciler_Inr)
next
  case (step s s')
  with step_sound [OF step.hyps(2) reachable_valid] show ?case by (simp add: sound_def)
qed

lemma safe_split: "safe cfg (later @ c # earlier) \<Longrightarrow> guarded cfg c earlier"
  by (induction later) auto

section \<open>A concrete environment\<close>

text \<open>
  A gateway that may advertise an exit node, over ports that hold what is written to them: the routing tables and the packet filter start
  empty, the packet filter shows the revisions of the policy that was applied last, and Tailscale starts without advertisements.
\<close>

definition example_gateway :: configuration where
  "example_gateway =
     example_configuration
       \<lparr>cf_Tailnet := (cf_Tailnet example_configuration)\<lparr>tnc_AdvertiseExitNode := True\<rparr>,
        cf_InternetCapability := (cf_InternetCapability example_configuration)
          \<lparr>icc_IPv4ProbeURL := ''https://v4.example.org'', icc_IPv6ProbeURL := ''https://v6.example.org''\<rparr>\<rparr>"

definition example_state :: tailnet_state where
  "example_state =
     \<lparr>ts_Running = True, ts_KernelTunnel = True, ts_SelfAddresses = dq_TailnetAddresses example_request,
      ts_Preferences = NewTailnetPreferences [],
      ts_Control = \<lparr>tc_SelfPresent = True, tc_InNetworkMap = True, tc_Online = True, tc_AllowedIPsAvailable = True,
        tc_ApprovedRoutes = [], tc_ObservedAt = 100\<rparr>\<rparr>"

definition example_resolver :: resolver_snapshot where
  "example_resolver = \<lparr>rss_NameServers = dq_NameServers example_request, rss_Configuration = []\<rparr>"

definition example_evaluation :: capability_evaluation where
  "example_evaluation =
     \<lparr>ce_activeExitDefaultRoutes = \<lparr>ex_IPv4 = True, ex_IPv6 = False\<rparr>,
      ce_conditions = [\<lparr>rc_Kind = ConditionInternetCapabilityInitializing, rc_Family = IPv6, rc_Prefix = PrefixZero\<rparr>]\<rparr>"

definition ruleset_view :: "packet_filter_policy option \<Rightarrow> packet_filter_policy \<Rightarrow> packet_filter_observation" where
  "ruleset_view installed policy =
     (case installed of
        None \<Rightarrow> \<lparr>pfo_FilterTableExists = False, pfo_FilterRevision = [], pfo_NATTableExists = False, pfo_NATRevision = []\<rparr>
      | Some p \<Rightarrow> \<lparr>pfo_FilterTableExists = True, pfo_FilterRevision = FilterRevision p,
          pfo_NATTableExists = (pf_DNSTargets p \<noteq> []), pfo_NATRevision = NATRevision p\<rparr>)"

definition example_tables :: routing_state where
  "example_tables = \<lparr>rs_Routes = [], rs_Rules = []\<rparr>"

definition example_environment :: environment where
  "example_environment =
     \<lparr>env_Kernel = (\<lambda>h. None), env_ProxyTunnel = (\<lambda>h request. Inr example_proxy),
      env_Network = (\<lambda>h request. Inr example_snapshot),
      env_ReadRouting = (\<lambda>h own. Inr (installed_routing example_tables h)),
      env_ApplyRouting = (\<lambda>h changes. (int (length (ch_UpsertRoutes changes) + length (ch_AddRules changes) +
         length (ch_DeleteRules changes) + length (ch_DeleteRoutes changes)), None)),
      env_ObserveFilter = (\<lambda>h policy. Inr (ruleset_view (installed_filter h) policy)),
      env_ApplyFilter = (\<lambda>h policy observation. None),
      env_Snapshot = (\<lambda>h. Inr example_resolver), env_Resolve = (\<lambda>h resolver domain. Inr [Addr4 0x01010101]),
      env_ReadState = (\<lambda>h. Inr (example_state\<lparr>ts_Preferences := published (ts_Preferences example_state) h\<rparr>)),
      env_WritePreferences = (\<lambda>h preferences. None), env_Capability = (\<lambda>h link. Inr (example_capability\<lparr>cs_ProxyLink := link\<rparr>)),
      env_ContextErr = (\<lambda>h. None), env_Now = (\<lambda>h. 150)\<rparr>"

definition example_start :: reconciler where
  "example_start =
     \<lparr>rcl_addressCache = (\<lambda>d. None), rcl_lastPacketPolicy = PolicyZero, rcl_hasPacketPolicy = False,
      rcl_lastTailnetLink = LinkZero, rcl_quarantined = True, rcl_history = []\<rparr>"

lemma example_gateway_valid: "configuration_Validate example_gateway = []"
  by code_simp

lemma example_stores: "stores example_gateway example_environment example_state example_tables ruleset_view"
  by (simp add: stores_def example_environment_def ruleset_view_def Matches_def FilterMatches_def NATMatches_def)

lemma example_unhindered:
  "unhindered example_gateway example_environment example_state example_resolver example_snapshot example_evaluation"
proof -
  have "\<not> lc_Enabled (fc_LocalEgress (cf_PacketFilter example_gateway))" by code_simp
  moreover have "tailnet_control_error example_state = None" by code_simp
  moreover have "tailnet_freshness example_gateway 150 example_state = None" by code_simp
  moreover have "tailnet_self_error example_state = None" by code_simp
  moreover have "normalizeAddresses (ts_SelfAddresses example_state) \<noteq> []" by code_simp
  moreover have "rss_NameServers example_resolver \<noteq> []" by code_simp
  moreover have "plannable example_gateway example_snapshot (discoveryRequest example_gateway example_state (rss_NameServers example_resolver))"
    by code_simp
  moreover have "evaluateInternetCapability (example_capability\<lparr>cs_ProxyLink := sn_ProxyTunnelLink example_snapshot\<rparr>) (sn_ProxyTunnelLink example_snapshot) 150 = Inr example_evaluation" by code_simp
  moreover have "tnc_AdvertiseExitNode (cf_Tailnet example_gateway)" by code_simp
  ultimately show ?thesis
    by (simp add: unhindered_def example_environment_def observed_capability_def example_state_def)
qed

lemma example_contents:
  "contents example_state example_tables example_start = (NewTailnetPreferences [], example_tables, None, True)" "well_cached example_start"
  by (simp_all add: contents_def example_start_def example_state_def well_cached_def)

lemma example_tables_accepted: "state_accepted own False example_tables"
  by (simp add: example_tables_def state_accepted_def routes_accepted_def rules_accepted_def)

lemma example_reachable: "reachable example_gateway example_start"
  by (rule reachable.start [of _ "\<lparr>dep_complete = True, dep_InternetCapability = True\<rparr>"])
    (simp add: NewReconciler_def example_gateway_valid example_start_def, simp add: example_gateway_def)

section \<open>Reports\<close>

lemma capability_condition:
  assumes "kind \<in> {ConditionInternetCapabilityInitializing, ConditionInternetCapabilityUnavailable, ConditionInternetCapabilityStale}"
    "family = IPv4 \<or> family = IPv6"
  shows "condition_Validate \<lparr>rc_Kind = kind, rc_Family = family, rc_Prefix = PrefixZero\<rparr> = None" "kind \<noteq> ConditionRouteNotApproved"
  using assms by (auto simp: condition_Validate_def condition_kinds)

lemma link_condition:
  "condition_Validate \<lparr>rc_Kind = ConditionInternetCapabilityLinkMismatch, rc_Family = 0, rc_Prefix = PrefixZero\<rparr> = None"
  "ConditionInternetCapabilityLinkMismatch \<noteq> ConditionRouteNotApproved"
  by (auto simp: condition_Validate_def condition_kinds)

lemma evaluate_cases:
  assumes "evaluateInternetCapability snapshot link t = Inr evaluation"
  obtains (mismatch) "evaluation = \<lparr>ce_activeExitDefaultRoutes = ExitNone,
      ce_conditions = [\<lparr>rc_Kind = ConditionInternetCapabilityLinkMismatch, rc_Family = 0, rc_Prefix = PrefixZero\<rparr>]\<rparr>"
  | (current) "capability_snapshot_Validate snapshot = []" "cs_ProxyLink snapshot = link"
      "evaluation = \<lparr>ce_activeExitDefaultRoutes = AvailableExitDefaultRoutes snapshot t link,
         ce_conditions =
           (if fcap_Fresh (cs_IPv4 snapshot) t then []
            else [\<lparr>rc_Kind = capability_kind (cs_IPv4 snapshot) t, rc_Family = IPv4, rc_Prefix = PrefixZero\<rparr>]) @
           (if fcap_Fresh (cs_IPv6 snapshot) t then []
            else [\<lparr>rc_Kind = capability_kind (cs_IPv6 snapshot) t, rc_Family = IPv6, rc_Prefix = PrefixZero\<rparr>])\<rparr>"
  using assms by (auto simp: evaluateInternetCapability_def Let_def capability_kind_empty_iff split: if_splits)

lemma evaluate_conditions:
  assumes "evaluateInternetCapability snapshot link t = Inr evaluation"
  shows "\<forall>c \<in> set (ce_conditions evaluation). condition_Validate c = None \<and> rc_Kind c \<noteq> ConditionRouteNotApproved"
    "distinct (ce_conditions evaluation)" "exit_Empty (ce_activeExitDefaultRoutes evaluation) \<Longrightarrow> ce_conditions evaluation \<noteq> []"
  using assms
proof (atomize (full), cases rule: evaluate_cases)
  case mismatch
  then show "(\<forall>c \<in> set (ce_conditions evaluation). condition_Validate c = None \<and> rc_Kind c \<noteq> ConditionRouteNotApproved) \<and>
    distinct (ce_conditions evaluation) \<and> (exit_Empty (ce_activeExitDefaultRoutes evaluation) \<longrightarrow> ce_conditions evaluation \<noteq> [])"
    by (simp add: link_condition)
next
  case current
  have kind: "capability_kind cap t \<in> {ConditionInternetCapabilityInitializing, ConditionInternetCapabilityUnavailable, ConditionInternetCapabilityStale}"
    if "\<not> fcap_Fresh cap t" for cap
    using that capability_kind_cases [of cap t] by (simp add: capability_kind_empty_iff)
  have valid: "condition_Validate \<lparr>rc_Kind = capability_kind cap t, rc_Family = IPv4, rc_Prefix = PrefixZero\<rparr> = None"
    "condition_Validate \<lparr>rc_Kind = capability_kind cap t, rc_Family = IPv6, rc_Prefix = PrefixZero\<rparr> = None"
    "capability_kind cap t \<noteq> ConditionRouteNotApproved" if "\<not> fcap_Fresh cap t" for cap
    using capability_condition [OF kind [OF that]] by blast+
  have "link_Valid link" if "fcap_Fresh (cs_IPv4 snapshot) t"
    using that current(1,2) by (auto simp: capability_snapshot_Validate_def fcap_Fresh_def split: if_splits)
  with current show "(\<forall>c \<in> set (ce_conditions evaluation). condition_Validate c = None \<and> rc_Kind c \<noteq> ConditionRouteNotApproved) \<and>
    distinct (ce_conditions evaluation) \<and> (exit_Empty (ce_activeExitDefaultRoutes evaluation) \<longrightarrow> ce_conditions evaluation \<noteq> [])"
    by (simp add: valid AvailableExitDefaultRoutes_def exit_Empty_def ExitNone_def)
qed

lemma evaluated_facts:
  assumes "evaluated cfg conditions active"
  shows "\<forall>c \<in> set conditions. condition_Validate c = None \<and> rc_Kind c \<noteq> ConditionRouteNotApproved" "distinct conditions"
    "tnc_AdvertiseExitNode (cf_Tailnet cfg) \<Longrightarrow> exit_Empty active \<Longrightarrow> conditions \<noteq> []"
  using assms evaluate_conditions by (auto simp: evaluated_def split: if_splits)

lemma reported_valid:
  assumes cfg: "configuration_Validate cfg = []" and ev: "evaluated cfg conditions active" and rep: "reported cfg conditions active report"
  shows "report_Validate report = []"
proof -
  have routes: "\<forall>p \<in> set (tp_AdvertiseRoutes (desiredPreferences cfg active)). prefix_IsValid p \<and> prefix_Masked p = p"
    "distinct (tp_AdvertiseRoutes (desiredPreferences cfg active))"
    using valid_desired [OF cfg, of active] by (simp_all add: preferences_Validate_def scan_masked_Nil_iff)
  from rep obtain before state where report: "rp_Conditions before = conditions"
      "report = completeReconcileReport cfg before state (desiredPreferences cfg active) active"
    by (auto simp: reported_def)
  have unapproved: "condition_Validate \<lparr>rc_Kind = ConditionRouteNotApproved, rc_Family = FamilyOfPrefix p, rc_Prefix = p\<rparr> = None"
    if "prefix_IsValid p \<and> prefix_Masked p = p" for p
    using that by (simp add: condition_Validate_def)
  have conditions: "rp_Conditions report = conditions @
      map (\<lambda>p. \<lparr>rc_Kind = ConditionRouteNotApproved, rc_Family = FamilyOfPrefix p, rc_Prefix = p\<rparr>)
        (filter (\<lambda>p. p \<notin> set (tc_ApprovedRoutes (ts_Control state))) (tp_AdvertiseRoutes (desiredPreferences cfg active)))"
    "rp_ApprovalObserved report"
    "rp_RouteApprovals report = map (\<lambda>p. \<lparr>ap_Prefix = p, ap_Approved = (p \<in> set (tc_ApprovedRoutes (ts_Control state)))\<rparr>)
        (tp_AdvertiseRoutes (desiredPreferences cfg active))"
    "rp_DataPlaneAvailable report \<longleftrightarrow> \<not> tnc_AdvertiseExitNode (cf_Tailnet cfg) \<or> \<not> exit_Empty active"
    using report by (simp_all add: completeReconcileReport_def recordRouteApprovals_def Let_def)
  note facts = evaluated_facts [OF ev]
  have "distinct (rp_Conditions report)"
    using facts(1,2) routes(2) unfolding conditions by (auto simp: distinct_map inj_on_def)
  moreover have "\<forall>c \<in> set (rp_Conditions report). condition_Validate c = None"
    using facts(1) routes(1) unapproved unfolding conditions by auto
  moreover have "\<not> rp_DataPlaneAvailable report \<longrightarrow> rp_Conditions report \<noteq> []"
    using facts(3) unfolding conditions by auto
  moreover have "\<forall>a \<in> set (rp_RouteApprovals report). approval_Validate a = None"
    using routes(1) unfolding conditions(3) by (auto simp: approval_Validate_def)
  moreover have "distinct (map ap_Prefix (rp_RouteApprovals report))"
    using routes(2) unfolding conditions(3) by (simp add: comp_def)
  ultimately show ?thesis using conditions(2) by (simp add: report_Nil_iff)
qed

section \<open>Local egress\<close>

definition usable_entry :: "local_egress_configuration \<Rightarrow> time \<Rightarrow> cached_domain_addresses \<Rightarrow> bool" where
  "usable_entry local t entry \<longleftrightarrow> time_Sub t (cda_updatedAt entry) \<le> lc_MaximumStaleness local"

lemma local_egress_intervals:
  assumes "configuration_Validate cfg = []" "lc_Enabled (fc_LocalEgress (cf_PacketFilter cfg))"
  shows "0 \<le> lc_RefreshInterval (fc_LocalEgress (cf_PacketFilter cfg))"
    "lc_RefreshInterval (fc_LocalEgress (cf_PacketFilter cfg)) \<le> lc_MaximumStaleness (fc_LocalEgress (cf_PacketFilter cfg))"
    "distinct (lc_Domains (fc_LocalEgress (cf_PacketFilter cfg)))"
  using configuration_sections(2) [OF assms(1)] assms(2)
    map_filter_Some [of "lc_Domains (fc_LocalEgress (cf_PacketFilter cfg))" Some "\<lambda>d. d"]
  by (auto simp: validatePacketFilterConfiguration_def Let_def scan_seen_Nil_iff second_def)

lemma resolveOne_wp:
  assumes "0 \<le> lc_RefreshInterval local" "lc_RefreshInterval local \<le> lc_MaximumStaleness local"
    and error: "\<And>e s'. rcl_addressCache s' = rcl_addressCache s \<Longrightarrow> Q (Inl e) s'"
    and success: "\<And>entry s'. rcl_addressCache s' = (rcl_addressCache s)(d \<mapsto> entry) \<Longrightarrow> usable_entry local t entry \<Longrightarrow>
      Q (Inr (resolved_All (cda_addresses entry))) s'"
  shows "wp (resolveOne env local resolver t d) Q s"
proof -
  have now: "time_Sub t t \<le> lc_MaximumStaleness local" using assms(1,2) by (simp add: time_Sub_def min_duration_def max_duration_def)
  have stored: "Q (Inr (resolved_All a)) s'"
    if "rcl_addressCache s' = (rcl_addressCache s)(d \<mapsto> \<lparr>cda_addresses = a, cda_updatedAt = t\<rparr>)" for a s'
    using success [OF that] now by (simp add: usable_entry_def)
  have kept: "Q (Inr (resolved_All (cda_addresses entry))) s'"
    if "rcl_addressCache s d = Some entry" "rcl_addressCache s' = rcl_addressCache s" "usable_entry local t entry" for entry s'
    using success [of s' entry] that by (simp add: fun_upd_idem)
  have refresh: "wp (refreshDomain env local resolver t d cached) Q s" if "cached = rcl_addressCache s d" for cached
    unfolding refreshDomain_def call_defs
    using that by (auto simp: Let_def usable_entry_def error kept stored split: sum.split option.split)
  show ?thesis
    unfolding resolveOne_def using refresh assms(2)
    by (auto simp: usable_entry_def kept split: option.split)
qed

lemma resolveLoop_wp:
  assumes iv: "0 \<le> lc_RefreshInterval local" "lc_RefreshInterval local \<le> lc_MaximumStaleness local" and "distinct ds"
  shows "wp (resolveLoop env local resolver t ds combined errs) (\<lambda>(combined', errs') s'.
     (\<forall>d. d \<notin> set ds \<longrightarrow> rcl_addressCache s' d = rcl_addressCache s d) \<and>
     (errs' = [] \<longrightarrow> errs = [] \<and> (\<forall>d \<in> set ds. \<exists>entry. rcl_addressCache s' d = Some entry \<and> usable_entry local t entry) \<and>
        combined' = combined @ concat (map (\<lambda>d. resolved_All (cda_addresses (the (rcl_addressCache s' d)))) ds))) s"
  using assms(3)
proof (induction ds arbitrary: combined errs s)
  case (Cons d ds)
  show ?case
    unfolding resolveLoop.simps wp_bind
  proof (rule resolveOne_wp [OF iv], goal_cases)
    case (1 e s')
    with Cons.prems show ?case
      unfolding sum.case by (intro wp_mono [OF Cons.IH]) auto
  next
    case (2 entry s')
    with Cons.prems show ?case
      unfolding sum.case by (intro wp_mono [OF Cons.IH]) auto
  qed
qed simp

section \<open>Properties\<close>

text \<open>
  C1: the order of writes. In every history the reconciler can produce, whatever the ports answer: routing is
  changed only behind a packet filter verified with a closed gate, or to add blackholes only, or in exit default routes
  only; a policy with an open gate is applied only when the last read of the routing showed a desired plan; and preferences that
  advertise exit routes are written only when routing with active exit routes, an open gate and the kernel prerequisites
  have all been verified since the last write to them.
\<close>

theorem writes_guarded:
  assumes "reachable cfg s" "rcl_history s = later @ c # earlier"
  shows "(case c of
      ApplyRouting changes n e \<Rightarrow> gate_closed earlier \<or> blackholes_only changes \<or> exit_defaults_only cfg changes
    | ApplyFilter policy observation e \<Rightarrow> pf_GateClosed policy \<or>
        (\<exists>snapshot active. routing_verified cfg (buildDesiredRouting cfg snapshot active) earlier)
    | WritePreferences preferences e \<Rightarrow> HasExitDefaultRoutes preferences \<longrightarrow>
        (\<exists>snapshot active policy. \<not> exit_Empty active \<and> routing_verified cfg (buildDesiredRouting cfg snapshot active) earlier \<and>
           \<not> pf_GateClosed policy \<and> filter_verified policy earlier \<and> kernel_verified earlier)
    | _ \<Rightarrow> True)"
proof -
  from reachable_safe [OF assms(1)] assms(2) have "guarded cfg c earlier" by (auto dest: safe_split)
  then show ?thesis by (cases c) (auto simp: may_apply_def may_open_def may_advertise_def)
qed

text \<open>
  C5: the quarantine flag tells the truth about the gate. In every reachable state the reconciler counts as quarantined exactly
  when it has not yet established a policy or the policy it established last has its gate closed.
\<close>

theorem quarantine_consistent:
  assumes "reachable cfg s"
  shows "rcl_quarantined s \<longleftrightarrow> (rcl_hasPacketPolicy s \<longrightarrow> pf_GateClosed (rcl_lastPacketPolicy s))"
  using reachable_safe [OF assms] by (auto simp: consistent_def split: if_splits)

text \<open>
  C2: a reconciliation without an error has converged. The last reads of routing and packet filter, after the last writes to them,
  showed exactly the desired plan of some snapshot and a matching policy with an open gate; the reconciler is
  no longer quarantined and remembers that policy; and the report passes its validation.
\<close>

theorem Reconcile_success:
  assumes "configuration_Validate cfg = []" "run_state (Reconcile cfg env) s = ((report, None), s')"
  shows "\<not> rcl_quarantined s' \<and> \<not> pf_GateClosed (rcl_lastPacketPolicy s') \<and>
     filter_verified (rcl_lastPacketPolicy s') (rcl_history s') \<and>
     (\<exists>snapshot active. routing_verified cfg (buildDesiredRouting cfg snapshot active) (rcl_history s')) \<and>
     report_Validate report = []"
  using wp_run [OF Reconcile_wp [OF assms(1)] assms(2)] by (auto simp: settled_def intro: reported_valid [OF assms(1)])

text \<open>
  the report accounts for every write. Whether a reconciliation succeeds or fails, the numbers of routing and packet-filter writes
  it reports are those the ports confirmed during the run.
\<close>

theorem Reconcile_accounts:
  assumes "configuration_Validate cfg = []" "run_state (Reconcile cfg env) s = ((report, err), s')"
  shows "rp_RoutingWrites report = routing_writes (rcl_history s') - routing_writes (rcl_history s) \<and>
     rp_PacketFilterWrites report = filter_writes (rcl_history s') - filter_writes (rcl_history s)"
  using wp_run [OF Reconcile_wp [OF assms(1)] assms(2)] by (auto simp: accounts_def)

text \<open>
  C3: failing closed always quarantines, and closes everything when it reports no error. Whatever the ports answer, the
  reconciler ends quarantined with a closed policy; without an error the packet filter was last seen to match that closed policy
  and the routing to match a fail-closed plan.
\<close>

theorem FailClosed_closes:
  assumes "run_state (FailClosed cfg env) s = ((report, err), s')"
  shows "rcl_quarantined s' \<and> pf_GateClosed (rcl_lastPacketPolicy s') \<and>
     (err = None \<longrightarrow> filter_verified (rcl_lastPacketPolicy s') (rcl_history s') \<and>
        (\<exists>link proxy. routing_verified cfg (buildFailClosedRouting cfg link proxy) (rcl_history s')))"
  using wp_run [OF failClosed_wp assms [unfolded FailClosed_def]]
  by (auto simp: quarantine_def failed_closed_def fail_closed_plan_def)


text \<open>
  C32: preparation leaves the gateway closed. When \<^verbatim>\<open>Prepare\<close> returns without an error the reconciler is quarantined, its policy has
  the gate closed, and the packet filter was last seen to match a policy with a closed gate.
\<close>

theorem Prepare_quarantines:
  assumes "run_state (Prepare cfg env) s = (Inr (), s')"
  shows "rcl_quarantined s' \<and> rcl_hasPacketPolicy s' \<and> pf_GateClosed (rcl_lastPacketPolicy s') \<and> gate_closed (rcl_history s')"
  using wp_run [OF Prepare_wp assms] by (simp add: quarantine_def)

text \<open>
  C6: local egress never uses addresses that are too old. When the addresses of the configured domains are resolved without an error, every
  domain has a cache entry no older than the maximum staleness, and the result is made of the addresses of exactly these
  entries and not empty.
\<close>

theorem local_egress_staleness:
  assumes "configuration_Validate cfg = []" "lc_Enabled (fc_LocalEgress (cf_PacketFilter cfg))"
    and "run_state (resolveLocalEgress cfg env resolver) s = (Inr addresses, s')"
  shows "(\<forall>d \<in> set (lc_Domains (fc_LocalEgress (cf_PacketFilter cfg))). \<exists>entry. rcl_addressCache s' d = Some entry \<and>
       time_Sub (env_Now env (rcl_history s)) (cda_updatedAt entry) \<le> lc_MaximumStaleness (fc_LocalEgress (cf_PacketFilter cfg))) \<and>
     addresses = NewResolvedAddresses (concat (map (\<lambda>d. resolved_All (cda_addresses (the (rcl_addressCache s' d))))
       (lc_Domains (fc_LocalEgress (cf_PacketFilter cfg))))) \<and>
     \<not> resolved_Empty addresses"
proof -
  let ?local = "fc_LocalEgress (cf_PacketFilter cfg)"
  note iv = local_egress_intervals [OF assms(1,2)]
  have "wp (resolveLocalEgress cfg env resolver) (\<lambda>r s'. case r of Inl e \<Rightarrow> True | Inr addresses \<Rightarrow>
     (\<forall>d \<in> set (lc_Domains ?local). \<exists>entry. rcl_addressCache s' d = Some entry \<and>
        usable_entry ?local (env_Now env (rcl_history s)) entry) \<and>
     addresses = NewResolvedAddresses (concat (map (\<lambda>d. resolved_All (cda_addresses (the (rcl_addressCache s' d)))) (lc_Domains ?local))) \<and>
     \<not> resolved_Empty addresses) s"
    using assms(2) unfolding resolveLocalEgress_def Let_def call_defs
    by (simp, intro wp_mono [OF resolveLoop_wp [OF iv]]) (auto split: if_splits)
  from wp_run [OF this assms(3)] show ?thesis unfolding usable_entry_def sum.case .
qed

section \<open>Witnesses\<close>

lemma example_desired: "HasExitDefaultRoutes (desiredPreferences example_gateway (ce_activeExitDefaultRoutes example_evaluation))"
  by (simp add: desiredPreferences_def example_evaluation_def exit_Empty_def ExitNone_def HasExitDefaultRoutes_iff)

lemma published_written: "published initial h = initial \<or> WritePreferences (published initial h) None \<in> set h"
  by (induction initial h rule: published.induct) auto

lemma example_run:
  obtains report s' where "run_state (Reconcile example_gateway example_environment) example_start = ((report, None), s')"
    "rp_DataPlaneAvailable report" "reachable example_gateway s'" "\<not> rcl_quarantined s'" "rcl_hasPacketPolicy s'"
    "WritePreferences (desiredPreferences example_gateway (ce_activeExitDefaultRoutes example_evaluation)) None \<in> set (rcl_history s')"
proof -
  let ?desired = "desiredPreferences example_gateway (ce_activeExitDefaultRoutes example_evaluation)"
  let ?run = "run_state (Reconcile example_gateway example_environment) example_start"
  have "\<not> HasExitDefaultRoutes (NewTailnetPreferences [])" by code_simp
  then have ne: "?desired \<noteq> NewTailnetPreferences []" using example_desired by metis
  have "wp (Reconcile example_gateway example_environment) (\<lambda>outcome s'. snd outcome = None \<and>
     (\<exists>policy. arrived example_gateway example_state example_tables ruleset_view example_snapshot
        (ce_activeExitDefaultRoutes example_evaluation) policy (fst outcome) s')) example_start"
    by (rule Reconcile_live [OF example_stores example_unhindered example_contents(1) valid_disabled example_tables_accepted example_contents(2)])
      auto
  from wp_run [OF this surjective_pairing] have run: "?run = ((fst (fst ?run), None), snd ?run)" "\<not> rcl_quarantined (snd ?run)"
      "rp_DataPlaneAvailable (fst (fst ?run))" "published (ts_Preferences example_state) (rcl_history (snd ?run)) = ?desired"
    by (auto simp: prod_eq_iff arrived_def in_force_def contents_def example_evaluation_def exit_Empty_def ExitNone_def)
  have written: "WritePreferences ?desired None \<in> set (rcl_history (snd ?run))"
    using published_written [of "ts_Preferences example_state" "rcl_history (snd ?run)"] ne unfolding run(4) by (simp add: example_state_def)
  have reach: "reachable example_gateway (snd ?run)"
    by (rule reachable.step [OF example_reachable reconciler_step.reconcile [OF run(1)]])
  moreover have "rcl_hasPacketPolicy (snd ?run)"
    using reachable_safe [OF reach] run(2) by (auto simp: consistent_def split: if_splits)
  ultimately show thesis using that run written by blast
qed

lemma writes_guarded_witness:
  "\<exists>s later p earlier. reachable example_gateway s \<and> rcl_history s = later @ WritePreferences p None # earlier \<and>
     HasExitDefaultRoutes p \<and> kernel_verified earlier"
proof -
  obtain report s where s: "reachable example_gateway s"
    "WritePreferences (desiredPreferences example_gateway (ce_activeExitDefaultRoutes example_evaluation)) None \<in> set (rcl_history s)"
    by (rule example_run)
  then obtain later earlier where "rcl_history s = later @
      WritePreferences (desiredPreferences example_gateway (ce_activeExitDefaultRoutes example_evaluation)) None # earlier"
    by (auto dest: split_list)
  with writes_guarded [OF s(1) this] s(1) example_desired show ?thesis by auto
qed

lemma quarantine_consistent_witness:
  "\<exists>s. reachable example_gateway s \<and> \<not> pf_GateClosed (rcl_lastPacketPolicy s)"
proof -
  obtain report s where "reachable example_gateway s" "\<not> rcl_quarantined s" by (rule example_run)
  with quarantine_consistent [OF this(1)] show ?thesis by auto
qed

lemma Reconcile_success_witness:
  "\<exists>report s'. run_state (Reconcile example_gateway example_environment) example_start = ((report, None), s') \<and>
     filter_verified (rcl_lastPacketPolicy s') (rcl_history s') \<and> report_Validate report = []"
proof -
  obtain report s where run: "run_state (Reconcile example_gateway example_environment) example_start = ((report, None), s)"
    by (rule example_run)
  with Reconcile_success [OF example_gateway_valid run] show ?thesis by auto
qed

lemma Reconcile_accounts_witness:
  "\<exists>report s'. run_state (Reconcile example_gateway example_environment) example_start = ((report, None), s') \<and>
     rp_RoutingWrites report = routing_writes (rcl_history s')"
proof -
  obtain report s where run: "run_state (Reconcile example_gateway example_environment) example_start = ((report, None), s)"
    by (rule example_run)
  with Reconcile_accounts [OF example_gateway_valid run] show ?thesis by (auto simp: example_start_def)
qed

lemma FailClosed_closes_witness:
  "pf_GateClosed (rcl_lastPacketPolicy (snd (run_state (FailClosed example_gateway example_environment) example_start)))"
  using FailClosed_closes [where cfg = example_gateway and env = example_environment and s = example_start, OF prod_eqI [OF prod_eqI]]
  by simp


lemma example_prepared:
  "run_state (Prepare example_gateway example_environment) example_start =
     (Inr (), snd (run_state (Prepare example_gateway example_environment) example_start))"
proof -
  let ?policy = "safetyPacketFilterPolicy example_gateway"
  have policy: "policy_Validate ?policy = []" by code_simp
  have off: "\<not> lc_Enabled (fc_LocalEgress (cf_PacketFilter example_gateway))" by code_simp
  have "buildFailClosedRouting example_gateway LinkZero LinkZero = buildSafetyRouting example_gateway" by code_simp
  then obtain ch where diff: "DiffRouting (buildSafetyRouting example_gateway) example_tables (routingOwnership example_gateway) = Inr ch"
    using failClosed_accepted [OF example_gateway_valid, of LinkZero LinkZero] routingOwnership_valid [OF example_gateway_valid]
      example_tables_accepted by (auto simp: DiffRouting_Inr_iff)
  have "wp (establishQuarantine example_gateway example_environment) (\<lambda>r s'. r = Inr ()) example_start"
    unfolding establishQuarantine_def Let_def wp_bind
  proof (rule reconcilePacketFilter_live [OF example_stores example_contents(1) policy], simp add: wrapOptional_def, goal_cases)
    case (1 f s)
    have c: "contents example_state example_tables (s\<lparr>rcl_lastPacketPolicy := ?policy, rcl_hasPacketPolicy := True, rcl_quarantined := True\<rparr>) =
        (NewTailnetPreferences [], example_tables, f, True)" using 1(1) by (simp add: contents_def)
    show ?case
      unfolding reconcileRouting_def wp_bind
    proof (rule planRouting_live [OF example_stores c diff], simp, goal_cases)
      case (1 s')
      show ?case
        by (rule applyRoutingPlan_live [OF example_stores trans [OF reads_contents [OF 1] c] diff]) simp
    qed
  qed
  with off have "wp (Prepare example_gateway example_environment) (\<lambda>r s'. r = Inr ()) example_start"
    unfolding Prepare_def wp_chain by (elim wp_mono) (simp add: call_defs example_environment_def)
  from wp_run [OF this surjective_pairing] show ?thesis by (simp add: prod_eq_iff)
qed

lemma Prepare_quarantines_witness:
  "gate_closed (rcl_history (snd (run_state (Prepare example_gateway example_environment) example_start)))"
  using Prepare_quarantines [OF example_prepared] by blast

definition egress_gateway :: configuration where
  "egress_gateway = example_configuration
     \<lparr>cf_PacketFilter := (cf_PacketFilter example_configuration)
        \<lparr>fc_LocalEgress := (fc_LocalEgress (cf_PacketFilter example_configuration))
           \<lparr>lc_Enabled := True, lc_Domains := [''controlplane.tailscale.com'']\<rparr>\<rparr>\<rparr>"

lemma local_egress_staleness_witness:
  "\<not> resolved_Empty (projr (fst (run_state (resolveLocalEgress egress_gateway example_environment example_resolver) example_start)))"
proof -
  have valid: "configuration_Validate egress_gateway = []" and enabled: "lc_Enabled (fc_LocalEgress (cf_PacketFilter egress_gateway))"
    by code_simp+
  have "wp (resolveLocalEgress egress_gateway example_environment example_resolver) (\<lambda>r s'. \<not> isl r) example_start"
  proof -
    have "\<not> resolved_Empty (NewResolvedAddresses [Addr4 0x01010101])"
      "\<not> resolved_Empty (NewResolvedAddresses (resolved_All (NewResolvedAddresses [Addr4 0x01010101])))" by code_simp+
    then show ?thesis
      using enabled
      by (simp add: resolveLocalEgress_def Let_def call_defs resolveOne_def refreshDomain_def example_environment_def
          example_start_def)
        (simp add: egress_gateway_def resolveOne_def refreshDomain_def call_defs Let_def)
  qed
  from wp_run [OF this surjective_pairing]
  obtain addresses s' where run: "run_state (resolveLocalEgress egress_gateway example_environment example_resolver) example_start = (Inr addresses, s')"
    by (metis isl_def obj_sumE prod.collapse)
  from local_egress_staleness [OF valid enabled run] show ?thesis unfolding run fst_conv sum.sel by blast
qed

end
