(* ===== verification/Status.thy ===== *)
theory Status
  imports Runtime
begin

text \<open>
  \<^verbatim>\<open>internal/application/status.go\<close>: the health of the agent. A counter of invalidating events, the dirty epoch, decides whether a
  success still speaks about the present: a run that began before the last event cannot make the agent ready. Every
  operation holds the mutex, so each is one step; the clock is an argument.
\<close>

section \<open>State and operations\<close>

record status =
  st_maximumAge :: duration
  st_snapshot :: health_snapshot
  st_dirtyEpoch :: "64 word"
  st_verifiedEpoch :: "64 word"

definition NewStatus :: "duration \<Rightarrow> status" where
  "NewStatus maximumAge =
     \<lparr>st_maximumAge = maximumAge,
      st_snapshot = \<lparr>hs_Live = True, hs_Ready = False, hs_DataPlaneAvailable = False, hs_Phase = RuntimeStarting, hs_LastAttempt = 0,
        hs_LastSuccess = 0, hs_LastError = [], hs_SuccessfulRuns = 0, hs_FailedRuns = 0, hs_ConsecutiveErrors = 0, hs_Conditions = []\<rparr>,
      st_dirtyEpoch = 0, st_verifiedEpoch = 0\<rparr>"

definition setUnavailablePhase :: "runtime_phase \<Rightarrow> status \<Rightarrow> status" where
  "setUnavailablePhase phase status =
     status\<lparr>st_snapshot := (st_snapshot status)\<lparr>hs_Phase := phase, hs_DataPlaneAvailable := False\<rparr>\<rparr>"

definition MarkQuarantined :: "status \<Rightarrow> status" where
  "MarkQuarantined = setUnavailablePhase RuntimeQuarantined"

definition MarkDirty :: "status \<Rightarrow> status" where
  "MarkDirty status =
     status\<lparr>st_dirtyEpoch := st_dirtyEpoch status + 1,
       st_snapshot := (st_snapshot status)\<lparr>hs_Phase := RuntimeReconciling, hs_DataPlaneAvailable := False\<rparr>\<rparr>"

definition MarkStopping :: "status \<Rightarrow> status" where
  "MarkStopping = setUnavailablePhase RuntimeStopping"

definition BeginReconcile :: "status \<Rightarrow> 64 word \<times> status" where
  "BeginReconcile status =
     (st_dirtyEpoch status, status\<lparr>st_snapshot := (st_snapshot status)\<lparr>hs_Phase := RuntimeReconciling\<rparr>\<rparr>)"

definition isCurrent :: "64 word \<Rightarrow> status \<Rightarrow> bool" where
  "isCurrent observedEpoch status \<longleftrightarrow> st_dirtyEpoch status = observedEpoch"

definition healthSnapshotReady :: "health_snapshot \<Rightarrow> bool \<Rightarrow> duration \<Rightarrow> duration \<Rightarrow> bool" where
  "healthSnapshotReady snapshot verificationCurrent age maximumAge \<longleftrightarrow>
     hs_Live snapshot \<and> hs_DataPlaneAvailable snapshot \<and> verificationCurrent \<and> hs_LastError snapshot = [] \<and>
     \<not> time_IsZero (hs_LastSuccess snapshot) \<and> age \<ge> 0 \<and> age \<le> maximumAge \<and> hs_Phase snapshot \<noteq> RuntimeStarting \<and>
     hs_Phase snapshot \<noteq> RuntimeQuarantined \<and> hs_Phase snapshot \<noteq> RuntimeStopping"

definition RecordSuccess :: "time \<Rightarrow> 64 word \<Rightarrow> reconcile_report \<Rightarrow> status \<Rightarrow> bool \<times> status" where
  "RecordSuccess at observedEpoch report status =
     (let attempted = (st_snapshot status)\<lparr>hs_LastAttempt := at, hs_SuccessfulRuns := hs_SuccessfulRuns (st_snapshot status) + 1\<rparr>
      in if st_dirtyEpoch status \<noteq> observedEpoch
         then (False, status\<lparr>st_snapshot := attempted\<lparr>hs_Phase := RuntimeReconciling\<rparr>\<rparr>)
         else
           let verified = attempted\<lparr>hs_LastSuccess := at, hs_LastError := [], hs_ConsecutiveErrors := 0,
                 hs_DataPlaneAvailable := rp_DataPlaneAvailable report, hs_Conditions := rp_Conditions report,
                 hs_Phase := (if length (rp_Conditions report) \<noteq> 0 \<or> \<not> rp_DataPlaneAvailable report then RuntimeDegraded
                              else RuntimeReady)\<rparr>;
               status' = status\<lparr>st_snapshot := verified, st_verifiedEpoch := observedEpoch\<rparr>
           in (healthSnapshotReady verified (st_verifiedEpoch status' = st_dirtyEpoch status') 0 (st_maximumAge status'), status'))"

definition RecordFailure :: "time \<Rightarrow> string \<Rightarrow> status \<Rightarrow> status" where
  "RecordFailure at err status =
     status\<lparr>st_snapshot := (st_snapshot status)\<lparr>hs_Phase := RuntimeDegraded, hs_DataPlaneAvailable := False, hs_LastAttempt := at,
       hs_LastError := err, hs_Conditions := [], hs_FailedRuns := hs_FailedRuns (st_snapshot status) + 1,
       hs_ConsecutiveErrors := hs_ConsecutiveErrors (st_snapshot status) + 1\<rparr>\<rparr>"

definition status_HealthSnapshot :: "time \<Rightarrow> status \<Rightarrow> health_snapshot" where
  "status_HealthSnapshot now status =
     (let snapshot = st_snapshot status; age = time_Sub now (hs_LastSuccess snapshot)
      in snapshot\<lparr>hs_Ready := healthSnapshotReady snapshot (st_verifiedEpoch status = st_dirtyEpoch status) age (st_maximumAge status)\<rparr>)"

definition Ready :: "time \<Rightarrow> status \<Rightarrow> bool" where
  "Ready now status \<longleftrightarrow> hs_Ready (status_HealthSnapshot now status)"

section \<open>Histories\<close>

text \<open>The operations other components perform, in any order.\<close>

datatype status_operation =
    DoMarkQuarantined | DoMarkDirty | DoMarkStopping | DoBeginReconcile
  | DoRecordSuccess time "64 word" reconcile_report | DoRecordFailure time string

fun status_apply :: "status_operation \<Rightarrow> status \<Rightarrow> status" where
  "status_apply DoMarkQuarantined status = MarkQuarantined status"
| "status_apply DoMarkDirty status = MarkDirty status"
| "status_apply DoMarkStopping status = MarkStopping status"
| "status_apply DoBeginReconcile status = snd (BeginReconcile status)"
| "status_apply (DoRecordSuccess at epoch report) status = snd (RecordSuccess at epoch report status)"
| "status_apply (DoRecordFailure at err) status = RecordFailure at err status"

definition status_run :: "status_operation list \<Rightarrow> status \<Rightarrow> status" where
  "status_run operations status = fold status_apply operations status"

text \<open>What a ready status rests on: the last success is current, and nothing has withdrawn the data plane since.\<close>

definition status_ok :: "status \<Rightarrow> bool" where
  "status_ok status \<longleftrightarrow>
     (hs_DataPlaneAvailable (st_snapshot status) \<longrightarrow>
        st_verifiedEpoch status = st_dirtyEpoch status \<and> hs_LastError (st_snapshot status) = [] \<and>
        hs_Phase (st_snapshot status) \<in> {RuntimeReconciling, RuntimeReady, RuntimeDegraded}) \<and>
     hs_Live (st_snapshot status)"

lemmas status_defs = setUnavailablePhase_def MarkQuarantined_def MarkDirty_def MarkStopping_def BeginReconcile_def RecordSuccess_def
  RecordFailure_def Let_def

lemma status_ok_new: "status_ok (NewStatus maximumAge)"
  by (simp add: status_ok_def NewStatus_def)

lemma status_ok_apply: "status_ok status \<Longrightarrow> status_ok (status_apply operation status)"
  by (cases operation) (auto simp: status_ok_def status_defs)

lemma status_ok_run: "status_ok status \<Longrightarrow> status_ok (status_run operations status)"
  unfolding status_run_def by (induction operations arbitrary: status) (auto simp: status_ok_apply)

lemma Ready_iff:
  assumes "status_ok status"
  shows "Ready now status \<longleftrightarrow> hs_DataPlaneAvailable (st_snapshot status) \<and> \<not> time_IsZero (hs_LastSuccess (st_snapshot status)) \<and>
    0 \<le> time_Sub now (hs_LastSuccess (st_snapshot status)) \<and>
    time_Sub now (hs_LastSuccess (st_snapshot status)) \<le> st_maximumAge status"
  using assms by (auto simp: Ready_def status_HealthSnapshot_def Let_def healthSnapshotReady_def status_ok_def)

lemma maximumAge_apply [simp]: "st_maximumAge (status_apply operation status) = st_maximumAge status"
  by (cases operation) (simp_all add: status_defs)

lemma maximumAge_run [simp]: "st_maximumAge (status_run operations status) = st_maximumAge status"
  unfolding status_run_def by (induction operations arbitrary: status) auto

section \<open>Properties\<close>

text \<open>An operation that neither withdraws the data plane nor records a current success.\<close>

fun idle :: "64 word \<Rightarrow> status_operation \<Rightarrow> bool" where
  "idle epoch DoBeginReconcile = True"
| "idle epoch (DoRecordSuccess at e report) = (e \<noteq> epoch)"
| "idle epoch op = False"

lemma apply_available:
  "hs_DataPlaneAvailable (st_snapshot (status_apply operation status)) \<longleftrightarrow>
     (case operation of
        DoBeginReconcile \<Rightarrow> hs_DataPlaneAvailable (st_snapshot status)
      | DoRecordSuccess at e report \<Rightarrow>
          if e = st_dirtyEpoch status then rp_DataPlaneAvailable report else hs_DataPlaneAvailable (st_snapshot status)
      | _ \<Rightarrow> False)"
  by (cases operation) (auto simp: status_defs)

lemma apply_idle:
  assumes "idle (st_dirtyEpoch status) operation"
  shows "st_dirtyEpoch (status_apply operation status) = st_dirtyEpoch status"
    "hs_LastSuccess (st_snapshot (status_apply operation status)) = hs_LastSuccess (st_snapshot status)"
  using assms by (cases operation; auto simp: status_defs)+

lemma status_run_snoc: "status_run (ops @ [op]) s = status_apply op (status_run ops s)"
  by (simp add: status_run_def)

lemma available_history:
  assumes "hs_DataPlaneAvailable (st_snapshot (status_run ops (NewStatus maximumAge)))"
  shows "\<exists>before report after. ops = before @ DoRecordSuccess (hs_LastSuccess (st_snapshot (status_run ops (NewStatus maximumAge))))
        (st_dirtyEpoch (status_run before (NewStatus maximumAge))) report # after \<and> rp_DataPlaneAvailable report \<and>
      list_all (idle (st_dirtyEpoch (status_run before (NewStatus maximumAge)))) after \<and>
      st_dirtyEpoch (status_run ops (NewStatus maximumAge)) = st_dirtyEpoch (status_run before (NewStatus maximumAge))"
  using assms
proof (induction ops rule: rev_induct)
  case Nil
  then show ?case by (simp add: status_run_def NewStatus_def)
next
  case (snoc op ops)
  let ?s = "status_run ops (NewStatus maximumAge)"
  note avail = snoc.prems [unfolded status_run_snoc apply_available]
  show ?case
  proof (cases "idle (st_dirtyEpoch ?s) op")
    case True
    with avail have "hs_DataPlaneAvailable (st_snapshot ?s)" by (cases op) auto
    from snoc.IH [OF this] obtain before report after where *:
      "ops = before @ DoRecordSuccess (hs_LastSuccess (st_snapshot ?s)) (st_dirtyEpoch (status_run before (NewStatus maximumAge))) report # after"
      "rp_DataPlaneAvailable report" "list_all (idle (st_dirtyEpoch (status_run before (NewStatus maximumAge)))) after"
      "st_dirtyEpoch ?s = st_dirtyEpoch (status_run before (NewStatus maximumAge))" by blast
    have "ops @ [op] = before @ DoRecordSuccess (hs_LastSuccess (st_snapshot (status_run (ops @ [op]) (NewStatus maximumAge))))
        (st_dirtyEpoch (status_run before (NewStatus maximumAge))) report # (after @ [op])"
      using *(1) apply_idle(2) [OF True] by (simp add: status_run_snoc)
    moreover have "list_all (idle (st_dirtyEpoch (status_run before (NewStatus maximumAge)))) (after @ [op])"
      "st_dirtyEpoch (status_run (ops @ [op]) (NewStatus maximumAge)) = st_dirtyEpoch (status_run before (NewStatus maximumAge))"
      using *(3,4) True apply_idle(1) [OF True] by (simp_all add: status_run_snoc)
    ultimately show ?thesis using *(2) by blast
  next
    case False
    with avail obtain at report where op: "op = DoRecordSuccess at (st_dirtyEpoch ?s) report" "rp_DataPlaneAvailable report"
      by (cases op) (auto split: if_splits)
    then have "hs_LastSuccess (st_snapshot (status_run (ops @ [op]) (NewStatus maximumAge))) = at"
      "st_dirtyEpoch (status_run (ops @ [op]) (NewStatus maximumAge)) = st_dirtyEpoch ?s"
      by (simp_all add: status_run_snoc status_defs)
    with op show ?thesis by (intro exI [of _ ops] exI [of _ report] exI [of _ "[]"]) simp
  qed
qed

text \<open>
  C33: readiness is earned. After any sequence of operations on a new status, a ready answer means: some success was recorded with the epoch that
  was current then and with an available data plane; since then no event, failure, quarantine or stop
  has been recorded; and the success is not older than the maximum age.
\<close>

theorem readiness_earned:
  assumes "Ready now (status_run ops (NewStatus maximumAge))"
  shows "\<exists>before at report after.
     ops = before @ DoRecordSuccess at (st_dirtyEpoch (status_run before (NewStatus maximumAge))) report # after \<and>
     rp_DataPlaneAvailable report \<and> list_all (idle (st_dirtyEpoch (status_run before (NewStatus maximumAge)))) after \<and>
     0 \<le> time_Sub now at \<and> time_Sub now at \<le> maximumAge"
proof -
  have max: "st_maximumAge (NewStatus maximumAge) = maximumAge" by (simp add: NewStatus_def)
  from assms have "hs_DataPlaneAvailable (st_snapshot (status_run ops (NewStatus maximumAge)))"
    and "0 \<le> time_Sub now (hs_LastSuccess (st_snapshot (status_run ops (NewStatus maximumAge))))"
    and "time_Sub now (hs_LastSuccess (st_snapshot (status_run ops (NewStatus maximumAge)))) \<le> maximumAge"
    by (simp_all add: Ready_iff [OF status_ok_run [OF status_ok_new]] max)
  with available_history [of ops maximumAge] show ?thesis by blast
qed

lemma dirtyEpoch_run:
  "st_dirtyEpoch (status_run ops status) = st_dirtyEpoch status + of_nat (count_list ops DoMarkDirty)"
proof (induction ops arbitrary: status)
  case (Cons op ops)
  have "st_dirtyEpoch (status_apply op status) = st_dirtyEpoch status + (if op = DoMarkDirty then 1 else 0)"
    by (cases op) (simp_all add: status_defs)
  with Cons [of "status_apply op status"] show ?case by (simp add: status_run_def)
qed (simp add: status_run_def)

text \<open>
  an event during a run spoils its success. When between one and \<open>2 ^ 64 - 1\<close> events are recorded between the beginning of a run and its
  success, among any other operations, the success reports not ready and the epoch and availability it leaves are those it found.
\<close>

theorem events_spoil_success:
  assumes "BeginReconcile status = (epoch, status')" "0 < count_list ops DoMarkDirty" "count_list ops DoMarkDirty < 2 ^ 64"
    and "RecordSuccess at epoch report (status_run ops status') = (ready, status'')"
  shows "\<not> ready \<and> st_verifiedEpoch status'' = st_verifiedEpoch (status_run ops status') \<and>
    hs_DataPlaneAvailable (st_snapshot status'') = hs_DataPlaneAvailable (st_snapshot (status_run ops status'))"
proof -
  have "(of_nat (count_list ops DoMarkDirty) :: 64 word) \<noteq> 0"
    using assms(2,3) by (simp add: word_of_nat_eq_0_iff dvd_imp_le nat_dvd_not_less)
  moreover have "epoch = st_dirtyEpoch status'" using assms(1) by (auto simp: BeginReconcile_def)
  ultimately have "st_dirtyEpoch (status_run ops status') \<noteq> epoch" by (simp add: dirtyEpoch_run)
  with assms(4) show ?thesis by (auto simp: RecordSuccess_def Let_def)
qed

section \<open>Witnesses\<close>

definition example_report :: reconcile_report where
  "example_report = ReportZero\<lparr>rp_DataPlaneAvailable := True, rp_ApprovalObserved := True\<rparr>"

lemma readiness_earned_witness:
  "Ready 150 (status_run [DoMarkDirty, DoBeginReconcile, DoRecordSuccess 100 1 example_report] (NewStatus 60)) \<and>
   (\<exists>before at report after. [DoMarkDirty, DoBeginReconcile, DoRecordSuccess 100 1 example_report] =
      before @ DoRecordSuccess at (st_dirtyEpoch (status_run before (NewStatus 60))) report # after \<and> time_Sub 150 at \<le> 60)"
proof -
  have "Ready 150 (status_run [DoMarkDirty, DoBeginReconcile, DoRecordSuccess 100 1 example_report] (NewStatus 60))"
    by code_simp
  with readiness_earned [OF this] show ?thesis by blast
qed

lemma events_spoil_success_witness:
  "\<not> fst (RecordSuccess 100 (fst (BeginReconcile (NewStatus 60))) example_report
     (status_run [DoMarkDirty] (snd (BeginReconcile (NewStatus 60)))))"
  using events_spoil_success [where status = "NewStatus 60" and ops = "[DoMarkDirty]" and at = 100 and report = example_report,
      OF surjective_pairing _ _ surjective_pairing]
  by simp

end
