(* ===== verification/Controller.thy ===== *)
theory Controller
  imports Status Reconciler "HOL-Library.Signed_Division"
begin

text \<open>
  \<^verbatim>\<open>internal/application/controller.go\<close>: the loop that runs the reconciler on triggers. The loop and the two event collectors are
  goroutines that share the status, the readiness gauge, the cancel function of the active run and the trigger channel; each access to a shared
  value is one step, and the steps of the goroutines interleave freely. A timer is what it is armed with, a channel of capacity one is an
  optional value. The parent context may be done at any moment. Log output is left out.
\<close>

section \<open>Delays and triggers\<close>

definition nextTailnetWatchDelay :: "duration \<Rightarrow> duration \<Rightarrow> duration" where
  "nextTailnetWatchDelay current maximum =
     (if current \<ge> maximum \<or> current > maximum sdiv 2 then maximum else current * 2)"

definition nextRetryDelay :: "duration \<Rightarrow> duration" where
  "nextRetryDelay retryDelay = min (retryDelay * 2) (30 * second)"

definition coalesce :: "string \<Rightarrow> string \<Rightarrow> string" where
  "coalesce pendingTrigger trigger =
     (if pendingTrigger = [] then trigger else if pendingTrigger \<noteq> trigger then ''coalesced'' else pendingTrigger)"

section \<open>State\<close>

text \<open>
  Where the goroutine of the loop is inside \<^verbatim>\<open>execute\<close>. \<open>Reconciling\<close> is the call of \<^verbatim>\<open>Reconcile\<close> and \<open>Cleared\<close> with an error the
  call of \<^verbatim>\<open>FailClosed\<close>: the step that leaves them is the return of the call, so a call lasts as long as that step is not taken, through
  any number of steps of the collectors, and one that never returns is a history without that step.
\<close>

datatype activity =
    Starting
  | Waiting
  | Begun string "64 word"
  | Measured string "64 word" bool
  | Gauged string "64 word"
  | Activated string "64 word"
  | Reconciling string "64 word"
  | Ended string "64 word" reconcile_report "rec_error option"
  | Cleared string "64 word" reconcile_report "rec_error option"
  | Reconciled string "64 word" reconcile_report "rec_error option"
  | Failed string reconcile_report
  | Succeeded string reconcile_report bool
  | Published bool
  | Reread bool
  | Returned "rec_error option"

text \<open>Where a collector is in the handling of an event.\<close>

datatype collector = Listening | Marked | Lowered | Cancelled | Finished

record controller =
  ct_status :: status
  ct_gauge :: bool
  ct_records :: "(string \<times> reconcile_report \<times> rec_error option) list"
  ct_reconciler :: reconciler
  ct_pendingTrigger :: string
  ct_debounce :: "duration option"
  ct_retryDelay :: duration
  ct_retry :: "duration option"
  ct_triggers :: "string option"
  ct_failures :: "rec_error option"
  ct_activeCancel :: bool
  ct_cancelled :: bool
  ct_parentDone :: bool
  ct_activity :: activity
  ct_network :: collector
  ct_tailnet :: collector
  ct_tailnetDelay :: duration

definition tailnetWatchInitialDelay :: duration where
  "tailnetWatchInitialDelay = second"

definition tailnetWatchMaximumDelay :: duration where
  "tailnetWatchMaximumDelay = 30 * second"

text \<open>\<^verbatim>\<open>Run\<close> up to the first call of \<^verbatim>\<open>execute\<close>, once the subscription stands.\<close>

definition controller_start :: "status \<Rightarrow> reconciler \<Rightarrow> controller" where
  "controller_start status reconciler =
     \<lparr>ct_status = MarkDirty status, ct_gauge = False, ct_records = [], ct_reconciler = reconciler, ct_pendingTrigger = [],
      ct_debounce = None, ct_retryDelay = second, ct_retry = None, ct_triggers = None, ct_failures = None,
      ct_activeCancel = False, ct_cancelled = False, ct_parentDone = False, ct_activity = Starting, ct_network = Listening, ct_tailnet = Listening,
      ct_tailnetDelay = tailnetWatchInitialDelay\<rparr>"

definition schedule :: "configuration \<Rightarrow> string \<Rightarrow> controller \<Rightarrow> controller" where
  "schedule cfg trigger c =
     c\<lparr>ct_pendingTrigger := coalesce (ct_pendingTrigger c) trigger,
       ct_debounce := (case ct_debounce c of None \<Rightarrow> Some (rtc_EventDebounce (cf_Runtime cfg)) | Some d \<Rightarrow> Some d)\<rparr>"

section \<open>Execution of a run\<close>

text \<open>\<^verbatim>\<open>execute\<close> step by step, as far as it reads or writes what the collectors share.\<close>

definition execute_begin :: "string \<Rightarrow> controller \<Rightarrow> controller" where
  "execute_begin trigger c =
     (let (observedEpoch, status) = BeginReconcile (ct_status c)
      in c\<lparr>ct_status := status, ct_activity := Begun trigger observedEpoch\<rparr>)"

definition execute_activate :: "string \<Rightarrow> 64 word \<Rightarrow> controller \<Rightarrow> controller" where
  "execute_activate trigger observedEpoch c =
     c\<lparr>ct_activeCancel := True, ct_cancelled := False, ct_activity := Activated trigger observedEpoch\<rparr>"

definition execute_current :: "string \<Rightarrow> 64 word \<Rightarrow> controller \<Rightarrow> controller" where
  "execute_current trigger observedEpoch c =
     c\<lparr>ct_cancelled := (ct_cancelled c \<or> \<not> isCurrent observedEpoch (ct_status c)), ct_activity := Reconciling trigger observedEpoch\<rparr>"

text \<open>The return of \<^verbatim>\<open>Reconcile\<close>; its effects on the ports are in the history of the reconciler, in the order of the calls.\<close>

definition execute_reconcile :: "configuration \<Rightarrow> environment \<Rightarrow> string \<Rightarrow> 64 word \<Rightarrow> controller \<Rightarrow> controller" where
  "execute_reconcile cfg env trigger observedEpoch c =
     (let ((report, err), reconciler) = run_state (Reconcile cfg env) (ct_reconciler c)
      in c\<lparr>ct_reconciler := reconciler, ct_activity := Ended trigger observedEpoch report err\<rparr>)"

definition validatedError :: "reconcile_report \<Rightarrow> rec_error option \<Rightarrow> rec_error option" where
  "validatedError report err = (case err of
       None \<Rightarrow> invalid (\<lambda>es. Wrapped ''validate reconciliation report'' (ReportErrors es)) (report_Validate report)
     | Some e \<Rightarrow> Some e)"

definition execute_clear :: "string \<Rightarrow> 64 word \<Rightarrow> reconcile_report \<Rightarrow> rec_error option \<Rightarrow> controller \<Rightarrow> controller" where
  "execute_clear trigger observedEpoch report err c =
     c\<lparr>ct_activeCancel := False, ct_cancelled := True,
       ct_activity := Cleared trigger observedEpoch report (validatedError report err)\<rparr>"

text \<open>After an error, unless the parent is done: fail closed and merge the two reports.\<close>

definition mergeReports :: "reconcile_report \<Rightarrow> reconcile_report \<Rightarrow> reconcile_report" where
  "mergeReports report failClosedReport =
     report\<lparr>rp_RoutingWrites := rp_RoutingWrites report + rp_RoutingWrites failClosedReport,
       rp_PacketFilterWrites := rp_PacketFilterWrites report + rp_PacketFilterWrites failClosedReport,
       rp_TailnetWrites := rp_TailnetWrites report + rp_TailnetWrites failClosedReport,
       rp_Changed := rp_Changed report \<or> rp_Changed failClosedReport\<rparr>"

definition recoverRun ::
  "configuration \<Rightarrow> environment \<Rightarrow> bool \<Rightarrow> reconcile_report \<Rightarrow> rec_error option \<Rightarrow> (reconciler, outcome) state" where
  "recoverRun cfg failEnv parentDone report reconcileErr =
     (if reconcileErr \<noteq> None \<and> \<not> parentDone then do {
        (failClosedReport, failClosedErr) \<leftarrow> FailClosed cfg failEnv;
        State_Monad.return (mergeReports report failClosedReport,
          joinErrors [reconcileErr, wrapOptional ''enforce fail-closed state'' failClosedErr]) }
      else State_Monad.return (report, reconcileErr))"

definition execute_recover ::
  "configuration \<Rightarrow> environment \<Rightarrow> string \<Rightarrow> 64 word \<Rightarrow> reconcile_report \<Rightarrow> rec_error option \<Rightarrow> controller \<Rightarrow> controller" where
  "execute_recover cfg failEnv trigger observedEpoch report err c =
     (let ((report', err'), reconciler) = run_state (recoverRun cfg failEnv (ct_parentDone c) report err) (ct_reconciler c)
      in c\<lparr>ct_reconciler := reconciler, ct_activity := Reconciled trigger observedEpoch report' err'\<rparr>)"

definition execute_record ::
  "(rec_error \<Rightarrow> string) \<Rightarrow> time \<Rightarrow> string \<Rightarrow> 64 word \<Rightarrow> reconcile_report \<Rightarrow> rec_error option \<Rightarrow> controller \<Rightarrow> controller" where
  "execute_record render at trigger observedEpoch report err c =
     (case err of
        Some e \<Rightarrow> c\<lparr>ct_status := RecordFailure at (render e) (ct_status c), ct_records := (trigger, report, err) # ct_records c,
                    ct_activity := Failed trigger report\<rparr>
      | None \<Rightarrow> (let (ready, status) = RecordSuccess at observedEpoch report (ct_status c)
                 in c\<lparr>ct_status := status, ct_records := (trigger, report, None) # ct_records c,
                      ct_activity := Succeeded trigger report ready\<rparr>))"

definition execute_failed :: "controller \<Rightarrow> controller" where
  "execute_failed c =
     c\<lparr>ct_gauge := False, ct_retry := Some (ct_retryDelay c), ct_retryDelay := nextRetryDelay (ct_retryDelay c), ct_activity := Waiting\<rparr>"

definition execute_done :: "bool \<Rightarrow> controller \<Rightarrow> controller" where
  "execute_done ready c =
     c\<lparr>ct_gauge := (if ready then ct_gauge c else False), ct_retry := None, ct_retryDelay := second, ct_activity := Waiting\<rparr>"

text \<open>The configured tickers and the trigger each of them schedules.\<close>

definition tickers :: "configuration \<Rightarrow> string list" where
  "tickers cfg = [''audit'', ''tailnet_audit''] @
     (if tnc_AdvertiseExitNode (cf_Tailnet cfg) then [''capability_audit''] else []) @
     (if lc_Enabled (fc_LocalEgress (cf_PacketFilter cfg)) then [''dns_refresh''] else [])"

inductive loop_step :: "configuration \<Rightarrow> (rec_error \<Rightarrow> string) \<Rightarrow> controller \<Rightarrow> controller \<Rightarrow> bool" for cfg render where
  startup: "ct_activity c = Starting \<Longrightarrow> loop_step cfg render c (execute_begin ''startup'' c)"
| trigger: "ct_activity c = Waiting \<Longrightarrow> ct_triggers c = Some t \<Longrightarrow> loop_step cfg render c (schedule cfg t (c\<lparr>ct_triggers := None\<rparr>))"
| ticker: "ct_activity c = Waiting \<Longrightarrow> t \<in> set (tickers cfg) \<Longrightarrow> loop_step cfg render c (schedule cfg t c)"
| debounce: "ct_activity c = Waiting \<Longrightarrow> ct_debounce c = Some d \<Longrightarrow>
    loop_step cfg render c (execute_begin (ct_pendingTrigger c) (c\<lparr>ct_debounce := None, ct_pendingTrigger := []\<rparr>))"
| retry: "ct_activity c = Waiting \<Longrightarrow> ct_retry c = Some d \<Longrightarrow> loop_step cfg render c (execute_begin ''retry'' c)"
| failure: "ct_activity c = Waiting \<Longrightarrow> ct_failures c = Some e \<Longrightarrow>
    loop_step cfg render c (c\<lparr>ct_failures := None, ct_activity := Returned (Some (Wrapped ''network event source'' e))\<rparr>)"
| stop: "ct_activity c = Waiting \<Longrightarrow> ct_parentDone c \<Longrightarrow> loop_step cfg render c (c\<lparr>ct_activity := Returned None\<rparr>)"
| measure_ready: "ct_activity c = Begun t epoch \<Longrightarrow>
    loop_step cfg render c (c\<lparr>ct_activity := Measured t epoch (Ready instant (ct_status c))\<rparr>)"
| set_ready: "ct_activity c = Measured t epoch ready \<Longrightarrow> loop_step cfg render c (c\<lparr>ct_gauge := ready, ct_activity := Gauged t epoch\<rparr>)"
| activate: "ct_activity c = Gauged t epoch \<Longrightarrow> loop_step cfg render c (execute_activate t epoch c)"
| current: "ct_activity c = Activated t epoch \<Longrightarrow> loop_step cfg render c (execute_current t epoch c)"
| reconcile: "ct_activity c = Reconciling t epoch \<Longrightarrow>
    loop_step cfg render c (execute_reconcile cfg env t epoch c)"
| clear: "ct_activity c = Ended t epoch report err \<Longrightarrow> loop_step cfg render c (execute_clear t epoch report err c)"
| recover: "ct_activity c = Cleared t epoch report err \<Longrightarrow>
    loop_step cfg render c (execute_recover cfg failEnv t epoch report err c)"
| recorded: "ct_activity c = Reconciled t epoch report err \<Longrightarrow>
    loop_step cfg render c (execute_record render at t epoch report err c)"
| failed: "ct_activity c = Failed t report \<Longrightarrow> loop_step cfg render c (execute_failed c)"
| publish: "ct_activity c = Succeeded t report ready \<Longrightarrow> loop_step cfg render c (c\<lparr>ct_gauge := ready, ct_activity := Published ready\<rparr>)"
| reread: "ct_activity c = Published ready \<Longrightarrow>
    loop_step cfg render c (c\<lparr>ct_activity := Reread (ready \<and> Ready instant (ct_status c))\<rparr>)"
| completed: "ct_activity c = Reread ready \<Longrightarrow> loop_step cfg render c (execute_done ready c)"

section \<open>Event collectors\<close>

text \<open>
  Both collectors treat an event alike: they mark the status dirty, lower the gauge, cancel the active run and leave a
  trigger unless one is waiting.
\<close>

definition event_mark :: "controller \<Rightarrow> controller" where
  "event_mark c = c\<lparr>ct_status := MarkDirty (ct_status c)\<rparr>"

definition event_lower :: "controller \<Rightarrow> controller" where
  "event_lower c = c\<lparr>ct_gauge := False\<rparr>"

definition cancelActiveReconcile :: "controller \<Rightarrow> controller" where
  "cancelActiveReconcile c = (if ct_activeCancel c then c\<lparr>ct_cancelled := True\<rparr> else c)"

definition event_trigger :: "string \<Rightarrow> controller \<Rightarrow> controller" where
  "event_trigger trigger c = (case ct_triggers c of None \<Rightarrow> c\<lparr>ct_triggers := Some trigger\<rparr> | Some t \<Rightarrow> c)"

inductive event_step :: "string \<Rightarrow> collector \<times> controller \<Rightarrow> collector \<times> controller \<Rightarrow> bool" for trigger where
  mark: "event_step trigger (Listening, c) (Marked, event_mark c)"
| lower: "event_step trigger (Marked, c) (Lowered, event_lower c)"
| cancel: "event_step trigger (Lowered, c) (Cancelled, cancelActiveReconcile c)"
| notify: "event_step trigger (Cancelled, c) (Listening, event_trigger trigger c)"

definition tailnetWatchRetry :: "bool \<Rightarrow> controller \<Rightarrow> controller" where
  "tailnetWatchRetry observedEvent c =
     (let retryDelay = (if observedEvent then tailnetWatchInitialDelay else ct_tailnetDelay c)
      in c\<lparr>ct_tailnetDelay := nextTailnetWatchDelay retryDelay tailnetWatchMaximumDelay\<rparr>)"

inductive controller_step :: "configuration \<Rightarrow> (rec_error \<Rightarrow> string) \<Rightarrow> controller \<Rightarrow> controller \<Rightarrow> bool" for cfg render where
  loop: "loop_step cfg render c c' \<Longrightarrow> controller_step cfg render c c'"
| network: "event_step ''network_event'' (ct_network c, c) (position, c') \<Longrightarrow> controller_step cfg render c (c'\<lparr>ct_network := position\<rparr>)"
| tailnet: "event_step ''tailnet_event'' (ct_tailnet c, c) (position, c') \<Longrightarrow> controller_step cfg render c (c'\<lparr>ct_tailnet := position\<rparr>)"
| network_failed: "ct_network c = Listening \<Longrightarrow> ct_failures c = None \<Longrightarrow>
    controller_step cfg render c (c\<lparr>ct_failures := Some e, ct_network := Finished\<rparr>)"
| network_closed: "ct_network c = Listening \<Longrightarrow> ct_failures c = None \<Longrightarrow>
    controller_step cfg render c (c\<lparr>ct_failures := Some (Message ''network event stream closed unexpectedly'')\<rparr>)"
| tailnet_failed: "ct_tailnet c = Listening \<Longrightarrow> controller_step cfg render c (tailnetWatchRetry observedEvent c)"
| parent_done: "controller_step cfg render c (c\<lparr>ct_parentDone := True\<rparr>)"
| collectors_done: "ct_activity c = Returned err \<Longrightarrow> ct_network c \<in> {Listening, Finished} \<Longrightarrow> ct_tailnet c \<in> {Listening, Finished} \<Longrightarrow>
    controller_step cfg render c (c\<lparr>ct_network := Finished, ct_tailnet := Finished\<rparr>)"

definition controller_run :: "configuration \<Rightarrow> (rec_error \<Rightarrow> string) \<Rightarrow> controller \<Rightarrow> controller \<Rightarrow> bool" where
  "controller_run cfg render = (controller_step cfg render)\<^sup>*\<^sup>*"

end
