(* ===== verification/Controller_Properties.thy ===== *)
theory Controller_Properties
  imports Controller Reconciler_Properties
begin

text \<open>
  The properties of the controller: delays and coalescing, the life of a run, and what holds in every interleaving of the
  loop with the event collectors.
\<close>

section \<open>Reachable states\<close>

inductive_cases loop_stepE: "loop_step cfg render c c'"
inductive_cases event_stepE: "event_step trigger (position, c) (position', c')"
inductive_cases controller_stepE: "controller_step cfg render c c'"

lemma controller_run_induct [consumes 1, case_names start step]:
  assumes "controller_run cfg render c c'" "P c" "\<And>d d'. P d \<Longrightarrow> controller_step cfg render d d' \<Longrightarrow> P d'"
  shows "P c'"
  using assms(1) unfolding controller_run_def by (induction rule: rtranclp_induct) (auto intro: assms)

lemma controller_run_refl [simp, intro]: "controller_run cfg render c c"
  by (simp add: controller_run_def)

lemma controller_run_step: "controller_run cfg render c d \<Longrightarrow> controller_step cfg render d e \<Longrightarrow> controller_run cfg render c e"
  by (simp add: controller_run_def)

lemmas execute_defs = execute_begin_def execute_activate_def execute_current_def execute_reconcile_def execute_clear_def
  execute_recover_def execute_record_def
  execute_failed_def execute_done_def schedule_def BeginReconcile_def Let_def
lemmas event_defs = event_mark_def event_lower_def cancelActiveReconcile_def event_trigger_def tailnetWatchRetry_def

section \<open>The run and its recovery\<close>

lemma joinErrors_member:
  assumes "Some e \<in> set errs"
  shows "\<exists>es. joinErrors errs = Some (Joined es) \<and> e \<in> set es"
proof -
  have "e \<in> set (List.map_filter (\<lambda>e. e) errs)" using assms by (auto simp: List.map_filter_def image_iff)
  then show ?thesis by (auto simp: joinErrors_def split: list.split)
qed

text \<open>What a run leaves behind: verified convergence, or quarantine with the closed state verified or its failure among the errors.\<close>

definition outcome_ok :: "configuration \<Rightarrow> bool \<Rightarrow> reconcile_report \<Rightarrow> rec_error option \<Rightarrow> reconciler \<Rightarrow> bool" where
  "outcome_ok cfg parentDone report err s \<longleftrightarrow>
     (case err of
        None \<Rightarrow> report_Validate report = [] \<and> (\<exists>snapshot active policy. settled cfg snapshot active policy s)
      | Some e \<Rightarrow> parentDone \<or> quarantine s \<and>
          (failed_closed cfg (rcl_lastPacketPolicy s) s \<or>
           (\<exists>es f. e = Joined es \<and> Wrapped ''enforce fail-closed state'' f \<in> set es)))"

lemma outcome_ok_done: "outcome_ok cfg parentDone report err s \<Longrightarrow> outcome_ok cfg True report err s"
  by (auto simp: outcome_ok_def split: option.splits)

lemma reconcile_outcome:
  assumes "configuration_Validate cfg = []" "run_state (Reconcile cfg env) s = ((report, err), s')"
  shows "err = None \<longrightarrow> outcome_ok cfg parentDone report None s'"
  using wp_run [OF Reconcile_wp [OF assms(1)] assms(2)] reported_valid [OF assms(1)]
  by (auto simp: outcome_ok_def)

lemma recover_outcome:
  assumes "err = None \<longrightarrow> outcome_ok cfg parentDone report None s"
    and "run_state (recoverRun cfg failEnv parentDone report err) s = ((report', err'), s')"
  shows "outcome_ok cfg parentDone report' err' s'"
proof -
  have failing: "wp (recoverRun cfg failEnv False report (Some e)) (\<lambda>(report', err') s'. outcome_ok cfg False report' err' s') s" for e
    unfolding recoverRun_def FailClosed_def
  proof (simp, rule wp_mono [OF failClosed_wp], goal_cases)
    case (1 r s')
    have "\<exists>es. joinErrors [Some e, f] = Some (Joined es)" for f
      using joinErrors_member [of e "[Some e, f]"] by auto
    moreover have "joinErrors [Some e, Some f] = Some (Joined [e, f])" for f
      by (simp add: joinErrors_def List.map_filter_def)
    ultimately show ?case using 1
      by (cases "snd r") (auto simp: outcome_ok_def wrapOptional_def split: prod.split option.split)
  qed
  show ?thesis
  proof (cases "err \<noteq> None \<and> \<not> parentDone")
    case True
    with wp_run [OF failing] assms(2) show ?thesis by auto
  next
    case False
    with assms(2) have "report' = report" "err' = err" "s' = s" by (auto simp: recoverRun_def)
    with assms(1) False show ?thesis by (cases err) (auto simp: outcome_ok_def)
  qed
qed

lemma recoverRun_reachable:
  assumes "reachable cfg s" "run_state (recoverRun cfg failEnv parentDone report err) s = (r, s')"
  shows "reachable cfg s'"
proof -
  have "wp (FailClosed cfg failEnv) (\<lambda>r s'. reachable cfg s') s"
    by (rule wp_runI) (use reachable.step [OF assms(1) reconciler_step.fail_closed] in blast)
  then have "wp (recoverRun cfg failEnv parentDone report err) (\<lambda>r s'. reachable cfg s') s"
    using assms(1) by (auto simp: recoverRun_def elim!: wp_mono)
  from wp_run [OF this assms(2)] show ?thesis .
qed

lemma Reconcile_reachable: "reachable cfg s \<Longrightarrow> run_state (Reconcile cfg env) s = (r, s') \<Longrightarrow> reachable cfg s'"
  by (rule reachable.step [OF _ reconciler_step.reconcile])

lemma loop_reachable:
  assumes "loop_step cfg render c c'" "reachable cfg (ct_reconciler c)"
  shows "reachable cfg (ct_reconciler c')"
  using assms(1)
proof (cases rule: loop_step.cases)
  case (reconcile t epoch env)
  with assms(2) Reconcile_reachable show ?thesis by (auto simp: execute_reconcile_def split: prod.split)
next
  case (recover t epoch report err failEnv)
  with assms(2) recoverRun_reachable show ?thesis by (auto simp: execute_recover_def split: prod.split)
qed (use assms(2) in \<open>simp_all add: execute_begin_def execute_activate_def execute_current_def execute_clear_def execute_record_def
  execute_failed_def execute_done_def schedule_def split: option.split prod.split\<close>)

lemma controller_reachable:
  assumes "controller_run cfg render c c'" "reachable cfg (ct_reconciler c)"
  shows "reachable cfg (ct_reconciler c')"
  using assms(1)
proof (induction rule: controller_run_induct)
  case start
  show ?case by (rule assms(2))
next
  case (step d d')
  from step(2,1) show ?case
    by (auto elim!: controller_stepE event_stepE simp: event_defs split: option.splits if_splits intro: loop_reachable)
qed

section \<open>Delays\<close>

definition backoff :: "nat \<Rightarrow> duration" where
  "backoff n = min (2 ^ n * second) (30 * second)"

lemma backoff_0 [simp]: "backoff 0 = second"
  by (simp add: backoff_def second_def)

lemma nextRetryDelay_backoff [simp]: "nextRetryDelay (backoff n) = backoff (Suc n)"
  by (auto simp: nextRetryDelay_def backoff_def second_def min_def)

lemma nextTailnetWatchDelay_eq: "0 \<le> maximum \<Longrightarrow> nextTailnetWatchDelay delay maximum = min (delay * 2) maximum"
  by (cases "maximum = 0") (auto simp: nextTailnetWatchDelay_def signed_divide_int_def min_def)

lemma nextTailnetWatchDelay_backoff [simp]: "nextTailnetWatchDelay (backoff n) tailnetWatchMaximumDelay = backoff (Suc n)"
  by (auto simp: nextTailnetWatchDelay_eq tailnetWatchMaximumDelay_def backoff_def second_def min_def)

definition delays_ok :: "controller \<Rightarrow> bool" where
  "delays_ok c \<longleftrightarrow> ct_retryDelay c \<in> range backoff \<and> ct_tailnetDelay c \<in> range backoff \<and> (\<forall>d. ct_retry c = Some d \<longrightarrow> d \<in> range backoff)"

lemma backoff_closed:
  "d \<in> range backoff \<Longrightarrow> nextRetryDelay d \<in> range backoff" "d \<in> range backoff \<Longrightarrow> nextTailnetWatchDelay d tailnetWatchMaximumDelay \<in> range backoff"
  "second \<in> range backoff" "tailnetWatchInitialDelay \<in> range backoff"
  unfolding tailnetWatchInitialDelay_def by (auto intro: range_eqI [of _ _ 0])

lemma delays_ok_loop: "delays_ok c \<Longrightarrow> loop_step cfg render c c' \<Longrightarrow> delays_ok c'"
  by (erule loop_stepE) (simp_all add: delays_ok_def execute_defs backoff_closed split: option.splits prod.splits)

lemma delays_ok_step:
  assumes "delays_ok c" "controller_step cfg render c c'"
  shows "delays_ok c'"
  using assms(2)
proof (cases rule: controller_step.cases)
  case loop
  with assms(1) show ?thesis by (rule delays_ok_loop)
qed (use assms(1) in \<open>auto simp: delays_ok_def event_defs backoff_closed Let_def elim!: event_stepE split: option.splits if_splits\<close>)

section \<open>Interleaving\<close>

text \<open>A collector between two of its steps: it still owes the lowering of the gauge, or the cancellation of the run.\<close>

definition lowering :: "controller \<Rightarrow> bool" where
  "lowering c \<longleftrightarrow> ct_network c = Marked \<or> ct_tailnet c = Marked"

definition cancelling :: "controller \<Rightarrow> bool" where
  "cancelling c \<longleftrightarrow> ct_network c \<in> {Marked, Lowered} \<or> ct_tailnet c \<in> {Marked, Lowered}"

abbreviation available :: "controller \<Rightarrow> bool" where
  "available c \<equiv> hs_DataPlaneAvailable (st_snapshot (ct_status c))"

fun gauge_settled :: "activity \<Rightarrow> bool" where
  "gauge_settled Starting = True"
| "gauge_settled Waiting = True"
| "gauge_settled (Begun t e) = True"
| "gauge_settled (Measured t e r) = True"
| "gauge_settled (Reread r) = r"
| "gauge_settled (Returned e) = True"
| "gauge_settled a = False"

definition gauge_ok :: "controller \<Rightarrow> bool" where
  "gauge_ok c \<longleftrightarrow> status_ok (ct_status c) \<and> (gauge_settled (ct_activity c) \<and> ct_gauge c \<longrightarrow> available c \<or> lowering c)"

lemma Ready_available: "status_ok s \<Longrightarrow> Ready instant s \<Longrightarrow> hs_DataPlaneAvailable (st_snapshot s)"
  by (simp add: Ready_iff)

lemma status_ok_operations:
  assumes "status_ok s"
  shows "status_ok (MarkDirty s)" "status_ok (RecordFailure at err s)" "RecordSuccess at e r s = (b, s') \<Longrightarrow> status_ok s'"
    "status_ok (s\<lparr>st_snapshot := (st_snapshot s)\<lparr>hs_Phase := RuntimeReconciling\<rparr>\<rparr>)"
  using status_ok_apply [OF assms, of DoMarkDirty] status_ok_apply [OF assms, of "DoRecordFailure at err"]
    status_ok_apply [OF assms, of "DoRecordSuccess at e r"] status_ok_apply [OF assms, of DoBeginReconcile]
  by (auto simp: BeginReconcile_def)

lemma gauge_ok_loop: "gauge_ok c \<Longrightarrow> loop_step cfg render c c' \<Longrightarrow> gauge_ok c'"
  using status_ok_operations [of "ct_status c"]
  by (auto elim!: loop_stepE simp: gauge_ok_def lowering_def execute_defs dest: Ready_available split: option.splits prod.splits if_splits)

lemma gauge_ok_event:
  assumes "gauge_ok c" "event_step trigger (position, c) (position', c')"
  shows "position = ct_network c \<Longrightarrow> gauge_ok (c'\<lparr>ct_network := position'\<rparr>)"
    "position = ct_tailnet c \<Longrightarrow> gauge_ok (c'\<lparr>ct_tailnet := position'\<rparr>)"
  using assms status_ok_operations(1) [of "ct_status c"]
  by (auto elim!: event_stepE simp: gauge_ok_def lowering_def event_defs split: option.splits if_splits)

lemma gauge_ok_step: "gauge_ok c \<Longrightarrow> controller_step cfg render c c' \<Longrightarrow> gauge_ok c'"
  by (erule controller_stepE)
    (auto simp: gauge_ok_loop gauge_ok_event, auto simp: gauge_ok_def lowering_def event_defs)

text \<open>A run that is no longer current has been cancelled, or is about to be.\<close>

definition cancel_ok :: "controller \<Rightarrow> bool" where
  "cancel_ok c \<longleftrightarrow>
     (\<forall>t e. ct_activity c = Activated t e \<longrightarrow> ct_activeCancel c) \<and>
     (\<forall>t e. ct_activity c = Reconciling t e \<longrightarrow>
        ct_activeCancel c \<and> (st_dirtyEpoch (ct_status c) \<noteq> e \<longrightarrow> ct_cancelled c \<or> cancelling c))"

lemma cancel_ok_loop: "cancel_ok c \<Longrightarrow> loop_step cfg render c c' \<Longrightarrow> cancel_ok c'"
  by (erule loop_stepE) (simp_all add: cancel_ok_def execute_defs isCurrent_def split: option.splits prod.splits)

lemma cancel_ok_event:
  assumes "cancel_ok c" "event_step trigger (position, c) (position', c')"
  shows "position = ct_network c \<Longrightarrow> cancel_ok (c'\<lparr>ct_network := position'\<rparr>)"
    "position = ct_tailnet c \<Longrightarrow> cancel_ok (c'\<lparr>ct_tailnet := position'\<rparr>)"
  using assms
  by (auto elim!: event_stepE simp: cancel_ok_def cancelling_def event_defs split: option.splits if_splits)

lemma cancel_ok_step:
  assumes "cancel_ok c" "controller_step cfg render c c'"
  shows "cancel_ok c'"
  using assms(2)
proof (cases rule: controller_step.cases)
  case loop
  with assms(1) show ?thesis by (rule cancel_ok_loop)
next
  case (network position d)
  with cancel_ok_event(1) [OF assms(1)] show ?thesis by simp
next
  case (tailnet position d)
  with cancel_ok_event(2) [OF assms(1)] show ?thesis by simp
qed (use assms(1) in \<open>auto simp: cancel_ok_def cancelling_def tailnetWatchRetry_def Let_def\<close>)

section \<open>Outcomes\<close>

text \<open>The number of failed runs since the last successful one, and what each point of a run knows of the outcome.\<close>

definition failures :: "controller \<Rightarrow> nat" where
  "failures c = length (takeWhile (\<lambda>(trigger, report, err). err \<noteq> None) (ct_records c))"

definition last_outcome :: "configuration \<Rightarrow> controller \<Rightarrow> bool \<Rightarrow> bool" where
  "last_outcome cfg c failed \<longleftrightarrow> (\<exists>trigger report err earlier. ct_records c = (trigger, report, err) # earlier \<and>
     outcome_ok cfg (ct_parentDone c) report err (ct_reconciler c) \<and> (err \<noteq> None \<longleftrightarrow> failed))"

definition rested :: "configuration \<Rightarrow> controller \<Rightarrow> bool" where
  "rested cfg c \<longleftrightarrow> ct_retryDelay c = backoff (failures c) \<and>
     (if failures c = 0 then last_outcome cfg c False \<and> ct_retry c = None
      else last_outcome cfg c True \<and> ct_retry c = Some (backoff (failures c - 1)) \<and> \<not> ct_gauge c \<and> \<not> available c)"

fun run_ok :: "configuration \<Rightarrow> controller \<Rightarrow> activity \<Rightarrow> bool" where
  "run_ok cfg c Waiting \<longleftrightarrow> rested cfg c"
| "run_ok cfg c (Returned e) \<longleftrightarrow> rested cfg c"
| "run_ok cfg c (Ended t e report err) \<longleftrightarrow> ct_retryDelay c = backoff (failures c) \<and>
     (err = None \<longrightarrow> outcome_ok cfg (ct_parentDone c) report None (ct_reconciler c))"
| "run_ok cfg c (Cleared t e report err) \<longleftrightarrow> ct_retryDelay c = backoff (failures c) \<and>
     (err = None \<longrightarrow> outcome_ok cfg (ct_parentDone c) report None (ct_reconciler c))"
| "run_ok cfg c (Reconciled t e report err) \<longleftrightarrow> ct_retryDelay c = backoff (failures c) \<and>
     outcome_ok cfg (ct_parentDone c) report err (ct_reconciler c)"
| "run_ok cfg c (Failed t report) \<longleftrightarrow> last_outcome cfg c True \<and> \<not> available c \<and> ct_retryDelay c = backoff (failures c - 1)"
| "run_ok cfg c (Succeeded t report r) \<longleftrightarrow> last_outcome cfg c False"
| "run_ok cfg c (Published r) \<longleftrightarrow> last_outcome cfg c False"
| "run_ok cfg c (Reread r) \<longleftrightarrow> last_outcome cfg c False"
| "run_ok cfg c a \<longleftrightarrow> ct_retryDelay c = backoff (failures c)"

lemma last_outcome_failures: "last_outcome cfg c True \<Longrightarrow> 0 < failures c" "last_outcome cfg c False \<Longrightarrow> failures c = 0"
  by (auto simp: last_outcome_def failures_def)

lemma rested_delay: "rested cfg c \<Longrightarrow> ct_retryDelay c = backoff (failures c)"
  by (simp add: rested_def)

definition tracks :: "controller \<Rightarrow> controller \<Rightarrow> bool" where
  "tracks c d \<longleftrightarrow> ct_records d = ct_records c \<and> ct_reconciler d = ct_reconciler c \<and> ct_parentDone d = ct_parentDone c \<and>
     ct_retryDelay d = ct_retryDelay c \<and> ct_retry d = ct_retry c \<and> (ct_gauge d \<longrightarrow> ct_gauge c) \<and> (available d \<longrightarrow> available c)"

lemma tracks_outcome: "tracks c d \<Longrightarrow> last_outcome cfg d = last_outcome cfg c" "tracks c d \<Longrightarrow> failures d = failures c"
  by (simp_all add: tracks_def last_outcome_def failures_def fun_eq_iff)

lemma rested_tracks: "rested cfg c \<Longrightarrow> tracks c d \<Longrightarrow> rested cfg d"
  using tracks_outcome [of c d] by (auto simp: rested_def tracks_def split: if_splits)

lemma run_ok_tracks: "run_ok cfg c a \<Longrightarrow> tracks c d \<Longrightarrow> run_ok cfg d a"
  using tracks_outcome [of c d] by (cases a) (auto simp: tracks_def rested_tracks [unfolded tracks_def])

lemma run_ok_done: "run_ok cfg c a \<Longrightarrow> run_ok cfg (c\<lparr>ct_parentDone := True\<rparr>) a"
  by (cases a) (auto simp: rested_def last_outcome_def failures_def outcome_ok_done split: if_splits intro: outcome_ok_done)

lemma event_tracks:
  assumes "event_step trigger (position, c) (position', c')"
  shows "tracks c c'" "ct_activity c' = ct_activity c"
  using assms by (auto elim!: event_stepE simp: tracks_def event_defs MarkDirty_def split: option.splits if_splits)

lemma run_ok_recorded:
  assumes "run_ok cfg c (Reconciled t epoch report err)" "c' = execute_record render at t epoch report err c"
  shows "run_ok cfg c' (ct_activity c')"
  using assms(1) unfolding assms(2)
  by (auto simp: execute_record_def last_outcome_def failures_def RecordFailure_def split: option.split prod.split)

lemma run_ok_failed: "run_ok cfg c (Failed t report) \<Longrightarrow> rested cfg (execute_failed c)"
  using last_outcome_failures(1) [of cfg c]
  by (auto simp: execute_failed_def rested_def last_outcome_def failures_def)

lemma run_ok_completed: "run_ok cfg c (Reread r) \<Longrightarrow> rested cfg (execute_done r c)"
  by (auto simp: execute_done_def rested_def last_outcome_def failures_def)

lemma run_ok_loop:
  assumes "configuration_Validate cfg = []" "run_ok cfg c (ct_activity c)" "loop_step cfg render c c'"
  shows "run_ok cfg c' (ct_activity c')"
  using assms(3)
proof (cases rule: loop_step.cases)
  case (reconcile t epoch env)
  obtain report err s where run: "run_state (Reconcile cfg env) (ct_reconciler c) = ((report, err), s)" by (metis prod.collapse)
  with reconcile assms(2) reconcile_outcome [OF assms(1) run] show ?thesis
    by (simp add: execute_reconcile_def failures_def)
next
  case (clear t epoch report err)
  with assms(2) show ?thesis by (auto simp: execute_clear_def failures_def validatedError_def split: option.splits)
next
  case (recover t epoch report err failEnv)
  obtain report' err' s where
    run: "run_state (recoverRun cfg failEnv (ct_parentDone c) report err) (ct_reconciler c) = ((report', err'), s)" by (metis prod.collapse)
  with recover assms(2) recover_outcome [OF _ run] show ?thesis by (simp add: execute_recover_def failures_def)
next
  case (recorded t epoch report err at)
  with assms(2) run_ok_recorded show ?thesis by simp
next
  case (failed t report)
  with assms(2) run_ok_failed show ?thesis by (simp add: execute_failed_def)
next
  case (completed ready)
  with assms(2) run_ok_completed show ?thesis by (simp add: execute_done_def)
next
  case (trigger t)
  with assms(2) show ?thesis by (auto simp: schedule_def tracks_def intro: rested_tracks [of cfg c])
next
  case (ticker t)
  with assms(2) show ?thesis by (auto simp: schedule_def tracks_def intro: rested_tracks [of cfg c])
qed (use assms(2) in \<open>auto simp: execute_begin_def execute_activate_def execute_current_def BeginReconcile_def tracks_def failures_def last_outcome_def
  dest: rested_delay intro: rested_tracks [of cfg c]\<close>)

lemma others_track:
  assumes "controller_step cfg render c c'"
  shows "loop_step cfg render c c' \<or> c' = c\<lparr>ct_parentDone := True\<rparr> \<or> tracks c c' \<and> ct_activity c' = ct_activity c"
  using assms
proof (cases rule: controller_step.cases)
  case (network position d)
  with event_tracks [OF network(2)] show ?thesis by (simp add: tracks_def)
next
  case (tailnet position d)
  with event_tracks [OF tailnet(2)] show ?thesis by (simp add: tracks_def)
qed (simp_all add: tracks_def tailnetWatchRetry_def Let_def)

lemma run_ok_step:
  assumes "configuration_Validate cfg = []" "run_ok cfg c (ct_activity c)" "controller_step cfg render c c'"
  shows "run_ok cfg c' (ct_activity c')"
  using others_track [OF assms(3)]
proof (elim disjE)
  assume "c' = c\<lparr>ct_parentDone := True\<rparr>"
  with run_ok_done [OF assms(2)] show ?thesis by simp
next
  assume "tracks c c' \<and> ct_activity c' = ct_activity c"
  with run_ok_tracks [OF assms(2)] show ?thesis by simp
qed (rule run_ok_loop [OF assms(1,2)])

section \<open>Properties\<close>

text \<open>
  C29: a failed run is contained and retried. Whenever the loop waits, in every interleaving with the collectors, the last recorded run tells the state of the gateway. If it had no
  error, its report is valid, the reconciler is out of quarantine, a desired routing plan and an open policy were the last things verified, and no retry is
  armed. If it had an error, the gauge is low and the status not ready, and the retry is armed with \<open>2 ^ k\<close> seconds, at most 30, after \<open>k\<close> failed runs
  directly before it; and unless the parent context is done, the reconciler is quarantined behind a closed policy, and either the closed
  policy and the fail-closed routing were verified or the failure to do so is among the recorded errors.
\<close>

theorem failure_contained:
  assumes "configuration_Validate cfg = []" "controller_run cfg render (controller_start start reconciler) c" "ct_activity c = Waiting"
  shows "\<exists>trigger report err earlier. ct_records c = (trigger, report, err) # earlier \<and>
     (case err of
        None \<Rightarrow> ct_retry c = None \<and> report_Validate report = [] \<and> \<not> rcl_quarantined (ct_reconciler c) \<and>
          \<not> pf_GateClosed (rcl_lastPacketPolicy (ct_reconciler c)) \<and>
          filter_verified (rcl_lastPacketPolicy (ct_reconciler c)) (rcl_history (ct_reconciler c)) \<and>
          (\<exists>snapshot active. routing_verified cfg (buildDesiredRouting cfg snapshot active) (rcl_history (ct_reconciler c)))
      | Some e \<Rightarrow> \<not> ct_gauge c \<and> \<not> Ready instant (ct_status c) \<and>
          ct_retry c = Some (min (2 ^ length (takeWhile (\<lambda>(trigger, report, err). err \<noteq> None) earlier) * second) (30 * second)) \<and>
          (ct_parentDone c \<or> rcl_quarantined (ct_reconciler c) \<and> pf_GateClosed (rcl_lastPacketPolicy (ct_reconciler c)) \<and>
             (filter_verified (rcl_lastPacketPolicy (ct_reconciler c)) (rcl_history (ct_reconciler c)) \<and>
                (\<exists>link proxy. routing_verified cfg (buildFailClosedRouting cfg link proxy) (rcl_history (ct_reconciler c))) \<or>
              (\<exists>es f. e = Joined es \<and> Wrapped ''enforce fail-closed state'' f \<in> set es))))"
proof -
  from assms(2) have "run_ok cfg c (ct_activity c)"
  proof (induction rule: controller_run_induct)
    case start
    show ?case by (simp add: controller_start_def failures_def)
  next
    case (step d d')
    then show ?case by (auto intro: run_ok_step [OF assms(1)])
  qed
  then have rested: "rested cfg c" by (simp add: assms(3))
  then have "\<exists>failed. last_outcome cfg c failed" unfolding rested_def by metis
  then obtain trigger report err earlier where
    last: "ct_records c = (trigger, report, err) # earlier" "outcome_ok cfg (ct_parentDone c) report err (ct_reconciler c)"
    unfolding last_outcome_def by blast
  have "\<not> Ready instant (ct_status c)" if "\<not> available c"
    using that by (simp add: Ready_def status_HealthSnapshot_def healthSnapshotReady_def Let_def)
  with rested last show ?thesis
    by (cases err)
      (auto simp: rested_def failures_def outcome_ok_def settled_def quarantine_def failed_closed_def fail_closed_plan_def backoff_def)
qed

text \<open>
  C30: the readiness gauge at rest is truthful. In every interleaving of the loop and the two collectors, when the loop is waiting
  or has returned and no collector is between marking the status and lowering the gauge, a raised gauge means that the status holds an
  available data plane verified in the current epoch, without an error.
\<close>

theorem gauge_truthful:
  assumes "status_ok start" "controller_run cfg render (controller_start start reconciler) c"
    and "ct_activity c = Waiting \<or> ct_activity c = Returned err" "ct_network c \<noteq> Marked" "ct_tailnet c \<noteq> Marked" "ct_gauge c"
  shows "hs_DataPlaneAvailable (st_snapshot (ct_status c)) \<and> st_verifiedEpoch (ct_status c) = st_dirtyEpoch (ct_status c) \<and>
     hs_LastError (st_snapshot (ct_status c)) = []"
proof -
  from assms(2) have "gauge_ok c"
  proof (induction rule: controller_run_induct)
    case start
    with status_ok_operations(1) [OF assms(1)] show ?case by (simp add: gauge_ok_def controller_start_def)
  next
    case (step d d')
    then show ?case by (auto intro: gauge_ok_step)
  qed
  with assms(3-6) show ?thesis by (auto simp: gauge_ok_def lowering_def status_ok_def)
qed

text \<open>
  C31: no event is missed by a running reconciliation. In every interleaving, a reconciliation whose epoch is no longer the current one has its context
  cancelled, unless a collector has marked the status and is just about to cancel it.
\<close>

theorem stale_run_cancelled:
  assumes "controller_run cfg render (controller_start start reconciler) c"
    and "ct_activity c = Reconciling trigger epoch" "st_dirtyEpoch (ct_status c) \<noteq> epoch"
    and "ct_network c \<notin> {Marked, Lowered}" "ct_tailnet c \<notin> {Marked, Lowered}"
  shows "ct_cancelled c"
proof -
  from assms(1) have "cancel_ok c"
  proof (induction rule: controller_run_induct)
    case start
    show ?case by (simp add: cancel_ok_def controller_start_def)
  next
    case (step d d')
    then show ?case by (auto intro: cancel_ok_step)
  qed
  with assms(2-5) show ?thesis by (auto simp: cancel_ok_def cancelling_def)
qed

text \<open>
  retries back off and stay bounded. In every reachable state the retry delay, the armed retry timer and the delay of the
  Tailnet watch are all of the form \<open>min (2 ^ n) 30\<close> seconds.
\<close>

theorem delays_back_off:
  assumes "controller_run cfg render (controller_start start reconciler) c"
    and "d = ct_retryDelay c \<or> ct_retry c = Some d \<or> d = ct_tailnetDelay c"
  shows "\<exists>n. d = min (2 ^ n * second) (30 * second)"
proof -
  from assms(1) have "delays_ok c"
  proof (induction rule: controller_run_induct)
    case start
    show ?case by (simp add: delays_ok_def controller_start_def backoff_closed)
  next
    case (step d d')
    then show ?case by (auto intro: delays_ok_step)
  qed
  with assms(2) show ?thesis by (auto simp: delays_ok_def backoff_def image_iff)
qed

section \<open>The gauge during a run\<close>

text \<open>
  While a run is under way the gauge can be wrong. \<^verbatim>\<open>execute\<close> reads the health and sets the gauge in two steps; an event that is handled completely
  in between lowers the gauge first, and the stale value raises it again. It stays raised, over a dirty status, until the run ends.
\<close>

lemma gauge_race:
  assumes "ct_activity c = Waiting" "ct_network c = Listening" "Ready instant (ct_status c)"
  shows "\<exists>c' t epoch. controller_run cfg render c c' \<and> ct_activity c' = Reconciling t epoch \<and> ct_network c' = Listening \<and>
     ct_tailnet c' = ct_tailnet c \<and> ct_gauge c' \<and> \<not> available c'"
proof -
  let ?c1 = "schedule cfg ''audit'' c"
  let ?c2 = "execute_begin (ct_pendingTrigger ?c1) (?c1\<lparr>ct_debounce := None, ct_pendingTrigger := []\<rparr>)"
  let ?t = "ct_pendingTrigger ?c1" and ?e = "st_dirtyEpoch (ct_status c)"
  let ?c3 = "?c2\<lparr>ct_activity := Measured ?t ?e (Ready instant (ct_status ?c2))\<rparr>"
  let ?c4 = "(event_mark ?c3)\<lparr>ct_network := Marked\<rparr>"
  let ?c5 = "(event_lower ?c4)\<lparr>ct_network := Lowered\<rparr>"
  let ?c6 = "(cancelActiveReconcile ?c5)\<lparr>ct_network := Cancelled\<rparr>"
  let ?c7 = "(event_trigger ''network_event'' ?c6)\<lparr>ct_network := Listening\<rparr>"
  let ?c8 = "?c7\<lparr>ct_gauge := Ready instant (ct_status ?c2), ct_activity := Gauged ?t ?e\<rparr>"
  let ?c9 = "execute_activate ?t ?e ?c8"
  let ?c10 = "execute_current ?t ?e ?c9"
  obtain d where d: "ct_debounce ?c1 = Some d" by (cases "ct_debounce c") (auto simp: schedule_def)
  have ready: "Ready instant (ct_status ?c2)"
    using assms(3) by (auto simp: execute_defs Ready_def status_HealthSnapshot_def healthSnapshotReady_def)
  have "controller_step cfg render c ?c1"
    by (intro controller_step.loop loop_step.ticker) (simp_all add: assms tickers_def)
  moreover have "controller_step cfg render ?c1 ?c2"
    by (rule controller_step.loop, rule loop_step.debounce [OF _ d]) (simp add: assms schedule_def)
  moreover have "controller_step cfg render ?c2 ?c3"
    by (intro controller_step.loop loop_step.measure_ready) (simp add: execute_defs)
  moreover have "controller_step cfg render ?c3 ?c4"
    by (rule controller_step.network) (simp add: execute_defs assms event_step.mark)
  moreover have "controller_step cfg render ?c4 ?c5"
    by (rule controller_step.network) (simp add: event_step.lower)
  moreover have "controller_step cfg render ?c5 ?c6"
    by (rule controller_step.network) (simp add: event_step.cancel)
  moreover have "controller_step cfg render ?c6 ?c7"
    by (rule controller_step.network) (simp add: event_step.notify)
  moreover have "controller_step cfg render ?c7 ?c8"
    by (intro controller_step.loop loop_step.set_ready) (simp add: event_defs split: option.split)
  moreover have "controller_step cfg render ?c8 ?c9"
    by (intro controller_step.loop loop_step.activate) simp
  moreover have "controller_step cfg render ?c9 ?c10"
    by (intro controller_step.loop loop_step.current) (simp add: execute_activate_def)
  ultimately have "controller_run cfg render c ?c10"
    unfolding controller_run_def by (meson converse_rtranclp_into_rtranclp r_into_rtranclp)
  moreover have "ct_activity ?c10 = Reconciling ?t ?e" "ct_network ?c10 = Listening" "ct_tailnet ?c10 = ct_tailnet c" "ct_gauge ?c10" "\<not> available ?c10"
    using ready by (simp_all add: execute_current_def execute_activate_def)
      (simp_all add: event_defs execute_defs MarkDirty_def split: option.split)
  ultimately show ?thesis by blast
qed

section \<open>Witnesses\<close>

text \<open>A complete run of the example from a fresh status; the collectors stay quiet.\<close>

lemma example_controller_run:
  obtains c where "controller_run example_gateway render (controller_start (NewStatus 60) example_start) c"
    "ct_activity c = Waiting" "ct_network c = Listening" "ct_tailnet c = Listening" "ct_gauge c"
proof -
  obtain report s' where run: "run_state (Reconcile example_gateway example_environment) example_start = ((report, None), s')"
      "rp_DataPlaneAvailable report"
    by (rule example_run)
  have valid: "report_Validate report = []"
    using wp_run [OF Reconcile_wp [OF example_gateway_valid] run(1)] by (auto intro: reported_valid [OF example_gateway_valid])
  define status where "status = snd (BeginReconcile (MarkDirty (NewStatus 60)))"
  define ready where "ready = Ready 150 status"
  define status' where "status' = snd (RecordSuccess 150 1 report status)"
  have recorded: "RecordSuccess 150 1 report status = (True, status')" "Ready 150 status'"
    unfolding status'_def status_def using run(2)
    by (auto simp: BeginReconcile_def NewStatus_def MarkDirty_def RecordSuccess_def healthSnapshotReady_def time_IsZero_def
        Ready_def status_HealthSnapshot_def time_Sub_def min_duration_def max_duration_def)
  define c0 where "c0 = controller_start (NewStatus 60) example_start"
  define c1 where "c1 = c0\<lparr>ct_status := status, ct_activity := Begun ''startup'' 1\<rparr>"
  define c2 where "c2 = c1\<lparr>ct_activity := Measured ''startup'' 1 ready\<rparr>"
  define c3 where "c3 = c2\<lparr>ct_gauge := ready, ct_activity := Gauged ''startup'' 1\<rparr>"
  define c4 where "c4 = c3\<lparr>ct_activeCancel := True, ct_cancelled := False, ct_activity := Activated ''startup'' 1\<rparr>"
  define c5 where "c5 = c4\<lparr>ct_activity := Reconciling ''startup'' 1\<rparr>"
  define c5a where "c5a = c5\<lparr>ct_reconciler := s', ct_activity := Ended ''startup'' 1 report None\<rparr>"
  define c5b where "c5b = execute_clear ''startup'' 1 report None c5a"
  define c6 where "c6 = c5b\<lparr>ct_activity := Reconciled ''startup'' 1 report None\<rparr>"
  define c7 where "c7 = c6\<lparr>ct_status := status', ct_records := (''startup'', report, None) # ct_records c6, ct_activity := Succeeded ''startup'' report True\<rparr>"
  define c8 where "c8 = c7\<lparr>ct_gauge := True, ct_activity := Published True\<rparr>"
  define c9 where "c9 = c8\<lparr>ct_activity := Reread True\<rparr>"
  have epoch: "BeginReconcile (MarkDirty (NewStatus 60)) = (1, status)" "isCurrent 1 status"
    by (simp_all add: status_def BeginReconcile_def MarkDirty_def NewStatus_def isCurrent_def)
  have "loop_step example_gateway render c0 c1"
    using loop_step.startup [of c0 example_gateway render] epoch(1) by (simp add: c0_def c1_def execute_begin_def controller_start_def)
  moreover have "loop_step example_gateway render c1 c2"
    using loop_step.measure_ready [of c1 "''startup''" 1 example_gateway render 150] by (simp add: c1_def c2_def ready_def)
  moreover have "loop_step example_gateway render c2 c3"
    using loop_step.set_ready [of c2 "''startup''" 1 ready example_gateway render] by (simp add: c2_def c3_def)
  moreover have "loop_step example_gateway render c3 c4"
    using loop_step.activate [of c3 "''startup''" 1 example_gateway render] by (simp add: c3_def c4_def execute_activate_def)
  moreover have "loop_step example_gateway render c4 c5"
    using loop_step.current [of c4 "''startup''" 1 example_gateway render] epoch(2)
    by (simp add: c1_def c2_def c3_def c4_def c5_def execute_current_def)
  moreover have "ct_reconciler c5 = example_start"
    by (simp add: c0_def c1_def c2_def c3_def c4_def c5_def controller_start_def)
  then have "loop_step example_gateway render c5 c5a"
    using loop_step.reconcile [of c5 "''startup''" 1 example_gateway render example_environment]
    by (simp add: c5a_def execute_reconcile_def run(1)) (simp add: c5_def)
  moreover have "loop_step example_gateway render c5a c5b"
    unfolding c5b_def by (rule loop_step.clear) (simp add: c5a_def)
  moreover have c5b: "ct_activity c5b = Cleared ''startup'' 1 report None"
    using valid by (simp add: c5b_def execute_clear_def validatedError_def invalid_def)
  then have "loop_step example_gateway render c5b c6"
    using loop_step.recover [of c5b "''startup''" 1 report None example_gateway render]
    by (simp add: c6_def execute_recover_def recoverRun_def)
  moreover have "ct_status c6 = status" by (simp add: c1_def c2_def c3_def c4_def c5_def c5a_def c5b_def c6_def execute_clear_def)
  then have "loop_step example_gateway render c6 c7"
    using loop_step.recorded [of c6 "''startup''" 1 report None example_gateway render 150] recorded(1)
    by (simp add: c7_def execute_record_def) (simp add: c6_def)
  moreover have "loop_step example_gateway render c7 c8"
    using loop_step.publish [of c7 "''startup''" report True example_gateway render] by (simp add: c7_def c8_def)
  moreover have "loop_step example_gateway render c8 c9"
    using loop_step.reread [of c8 True example_gateway render 150] recorded(2) by (simp add: c7_def c8_def c9_def)
  moreover have "loop_step example_gateway render c9 (execute_done True c9)"
    by (rule loop_step.completed) (simp add: c9_def)
  ultimately have "(loop_step example_gateway render)\<^sup>*\<^sup>* c0 (execute_done True c9)"
    by (meson converse_rtranclp_into_rtranclp r_into_rtranclp)
  then have "controller_run example_gateway render c0 (execute_done True c9)"
    unfolding controller_run_def by (rule rtranclp_mono [THEN predicate2D, rotated]) (auto intro: controller_step.loop)
  moreover have "ct_activity (execute_done True c9) = Waiting" "ct_gauge (execute_done True c9)"
    "ct_network (execute_done True c9) = Listening" "ct_tailnet (execute_done True c9) = Listening"
    by (simp_all add: execute_done_def c9_def c8_def c7_def c6_def c5b_def c5a_def execute_clear_def c5_def c4_def c3_def c2_def c1_def c0_def controller_start_def)
  ultimately show thesis using that unfolding c0_def by blast
qed

lemma failure_contained_witness:
  "\<exists>c. controller_run example_gateway (\<lambda>e. ''error'') (controller_start (NewStatus 60) example_start) c \<and>
     \<not> rcl_quarantined (ct_reconciler c) \<and> ct_retry c = None \<and>
     filter_verified (rcl_lastPacketPolicy (ct_reconciler c)) (rcl_history (ct_reconciler c))"
proof -
  obtain c where c: "controller_run example_gateway (\<lambda>e. ''error'') (controller_start (NewStatus 60) example_start) c"
    "ct_activity c = Waiting" "ct_network c = Listening" "ct_tailnet c = Listening" "ct_gauge c"
    by (rule example_controller_run)
  from failure_contained [OF example_gateway_valid c(1,2), of 150] obtain trigger report err earlier where
    "ct_records c = (trigger, report, err) # earlier \<and> err = None \<and> \<not> rcl_quarantined (ct_reconciler c) \<and> ct_retry c = None \<and>
     filter_verified (rcl_lastPacketPolicy (ct_reconciler c)) (rcl_history (ct_reconciler c))"
    using c(5) by (fastforce split: option.splits)
  with c(1) show ?thesis by blast
qed

lemma gauge_truthful_witness:
  "\<exists>c. controller_run example_gateway (\<lambda>e. ''error'') (controller_start (NewStatus 60) example_start) c \<and> ct_gauge c \<and>
     hs_DataPlaneAvailable (st_snapshot (ct_status c))"
proof -
  obtain c where c: "controller_run example_gateway (\<lambda>e. ''error'') (controller_start (NewStatus 60) example_start) c"
    "ct_activity c = Waiting" "ct_network c = Listening" "ct_tailnet c = Listening" "ct_gauge c"
    by (rule example_controller_run)
  then have "ct_network c \<noteq> Marked" "ct_tailnet c \<noteq> Marked" by simp_all
  with gauge_truthful [OF status_ok_new c(1) disjI1 [OF c(2)] this c(5)] c show ?thesis by blast
qed

text \<open>A state inside a run, as the startup run reaches it.\<close>

lemma example_reconciling:
  obtains c where "controller_run example_gateway render (controller_start (NewStatus 60) example_start) c"
    "ct_activity c = Reconciling ''startup'' 1" "ct_activeCancel c" "st_dirtyEpoch (ct_status c) = 1" "ct_network c = Listening" "ct_tailnet c = Listening"
proof -
  define c0 where "c0 = controller_start (NewStatus 60) example_start"
  define c1 where "c1 = execute_begin ''startup'' c0"
  define c2 where "c2 = c1\<lparr>ct_activity := Measured ''startup'' 1 False\<rparr>"
  define c3 where "c3 = c2\<lparr>ct_gauge := False, ct_activity := Gauged ''startup'' 1\<rparr>"
  define c4 where "c4 = execute_activate ''startup'' 1 c3"
  define c5 where "c5 = execute_current ''startup'' 1 c4"
  have c1: "ct_activity c1 = Begun ''startup'' 1" "\<not> Ready 150 (ct_status c1)"
    by (simp_all add: c1_def c0_def controller_start_def execute_begin_def BeginReconcile_def MarkDirty_def NewStatus_def
        Ready_def status_HealthSnapshot_def healthSnapshotReady_def Let_def)
  have "loop_step example_gateway render c0 c1"
    unfolding c1_def by (rule loop_step.startup) (simp add: c0_def controller_start_def)
  moreover have "loop_step example_gateway render c1 c2"
    using loop_step.measure_ready [OF c1(1), of example_gateway render 150] c1(2) by (simp add: c2_def)
  moreover have "loop_step example_gateway render c2 c3"
    unfolding c3_def by (rule loop_step.set_ready) (simp add: c2_def)
  moreover have "loop_step example_gateway render c3 c4"
    unfolding c4_def by (rule loop_step.activate) (simp add: c3_def)
  moreover have "loop_step example_gateway render c4 c5"
    unfolding c5_def by (rule loop_step.current) (simp add: c4_def execute_activate_def)
  ultimately have "(loop_step example_gateway render)\<^sup>*\<^sup>* c0 c5"
    by (meson converse_rtranclp_into_rtranclp r_into_rtranclp)
  then have "controller_run example_gateway render c0 c5"
    unfolding controller_run_def by (rule rtranclp_mono [THEN predicate2D, rotated]) (auto intro: controller_step.loop)
  moreover have "ct_activity c5 = Reconciling ''startup'' 1" "ct_activeCancel c5" "st_dirtyEpoch (ct_status c5) = 1"
    "ct_network c5 = Listening" "ct_tailnet c5 = Listening"
    by (simp_all add: c5_def c4_def c3_def c2_def c1_def c0_def execute_defs controller_start_def MarkDirty_def NewStatus_def)
  ultimately show thesis using that unfolding c0_def by blast
qed

lemma stale_run_cancelled_witness:
  "\<exists>c. controller_run example_gateway (\<lambda>e. ''error'') (controller_start (NewStatus 60) example_start) c \<and>
     ct_activity c = Reconciling ''startup'' 1 \<and> st_dirtyEpoch (ct_status c) = 2 \<and> ct_cancelled c"
proof -
  obtain c where c: "controller_run example_gateway (\<lambda>e. ''error'') (controller_start (NewStatus 60) example_start) c"
    "ct_activity c = Reconciling ''startup'' 1" "ct_activeCancel c" "st_dirtyEpoch (ct_status c) = 1" "ct_network c = Listening" "ct_tailnet c = Listening"
    by (rule example_reconciling)
  define d1 where "d1 = (event_mark c)\<lparr>ct_network := Marked\<rparr>"
  define d2 where "d2 = (event_lower d1)\<lparr>ct_network := Lowered\<rparr>"
  define d3 where "d3 = (cancelActiveReconcile d2)\<lparr>ct_network := Cancelled\<rparr>"
  have d: "ct_activity d3 = Reconciling ''startup'' 1" "st_dirtyEpoch (ct_status d3) = 2" "ct_network d3 = Cancelled" "ct_tailnet d3 = Listening"
    using c(2-6) by (simp_all add: d3_def d2_def d1_def event_mark_def event_lower_def cancelActiveReconcile_def MarkDirty_def)
  have run: "controller_run example_gateway (\<lambda>e. ''error'') (controller_start (NewStatus 60) example_start) d3"
  proof -
    have "controller_step example_gateway (\<lambda>e. ''error'') c d1"
      unfolding d1_def by (rule controller_step.network) (simp add: c(5) event_step.mark)
    moreover have "controller_step example_gateway (\<lambda>e. ''error'') d1 d2"
      unfolding d2_def by (rule controller_step.network) (simp add: d1_def event_step.lower)
    moreover have "controller_step example_gateway (\<lambda>e. ''error'') d2 d3"
      unfolding d3_def by (rule controller_step.network) (simp add: d2_def event_step.cancel)
    ultimately show ?thesis using c(1) by (blast intro: controller_run_step)
  qed
  have "ct_cancelled d3"
    by (rule stale_run_cancelled [OF run d(1)]) (simp_all add: d)
  with run d show ?thesis by blast
qed

lemma delays_back_off_witness:
  "\<exists>n. ct_retryDelay (controller_start (NewStatus 60) example_start) = min (2 ^ n * second) (30 * second)"
  by (rule delays_back_off [OF controller_run_refl disjI1 [OF refl]])

end
