(* ===== verification/Supervisor.thy ===== *)
theory Supervisor
  imports Controller_Properties
begin

text \<open>
  \<^verbatim>\<open>internal/application/supervisor.go\<close>: the life of the agent while it owns the gateway. The supervisor prepares the quarantine, starts the
  managed process, runs the controller until the first of three exits, and then always shuts the reconciler down. Coordinator, health
  server and process are ports; whether an error is a cancellation is a parameter.
\<close>

section \<open>The controller as the supervisor sees it\<close>

text \<open>\<^verbatim>\<open>Controller.Run\<close> as a whole: it fails to subscribe, or its loop returns and its collectors have finished.\<close>

inductive controller_result ::
  "configuration \<Rightarrow> (rec_error \<Rightarrow> string) \<Rightarrow> status \<times> reconciler \<times> bool \<Rightarrow> rec_error option \<times> status \<times> reconciler \<times> bool \<Rightarrow> bool"
  for cfg render where
  subscribe_failed: "controller_result cfg render (status, reconciler, gauge)
    (Some (Wrapped ''subscribe to network events'' (PortFailed e)), status, reconciler, gauge)"
| nil_channels: "controller_result cfg render (status, reconciler, gauge)
    (Some (Message ''network event source returned nil channels''), status, reconciler, gauge)"
| returned: "controller_run cfg render (controller_start status reconciler) c \<Longrightarrow> ct_activity c = Returned err \<Longrightarrow>
    ct_network c = Finished \<Longrightarrow> ct_tailnet c = Finished \<Longrightarrow>
    controller_result cfg render (status, reconciler, gauge) (err, ct_status c, ct_reconciler c, ct_gauge c)"

section \<open>Owning the gateway\<close>

text \<open>\<open>Stopped\<close> is a process whose termination succeeded; after a failed termination it may still be \<open>Running\<close>.\<close>

datatype process = NoProcess | Running | Exited | Stopped

record agent =
  ag_status :: status
  ag_reconciler :: reconciler
  ag_gauge :: bool
  ag_process :: process

text \<open>The first exit the supervisor sees.\<close>

datatype exit_cause = ContextDone | ControllerExited | ProcessExited "port_error option"

definition shutdownReconciler :: "configuration \<Rightarrow> environment \<Rightarrow> (reconciler, rec_error option) state" where
  "shutdownReconciler cfg env = do {
     err \<leftarrow> Shutdown cfg env;
     State_Monad.return (wrapOptional ''shutdown gateway reconciler'' err) }"

definition exitErrors :: "(rec_error \<Rightarrow> bool) \<Rightarrow> exit_cause \<Rightarrow> rec_error option \<Rightarrow> rec_error option list" where
  "exitErrors canceled cause controllerErr =
     (let shutdownErr = (case controllerErr of None \<Rightarrow> None
           | Some e \<Rightarrow> if canceled e then None else Some (Wrapped ''controller shutdown'' e))
      in case cause of
           ContextDone \<Rightarrow> [shutdownErr]
         | ControllerExited \<Rightarrow>
             [Some (case controllerErr of None \<Rightarrow> Message ''controller exited unexpectedly'' | Some e \<Rightarrow> e)]
         | ProcessExited err \<Rightarrow>
             [Some (Wrapped ''supervised process exited unexpectedly''
                (case err of None \<Rightarrow> Message ''supervised process exited without an error'' | Some e \<Rightarrow> PortFailed e)), shutdownErr])"

definition terminateProcess :: "port_error option \<Rightarrow> process \<Rightarrow> rec_error option \<times> process" where
  "terminateProcess terminateErr process =
     (if process = Running
      then (case terminateErr of None \<Rightarrow> (None, Stopped)
            | Some e \<Rightarrow> (Some (Wrapped ''terminate supervised process'' (PortFailed e)), Running))
      else (None, process))"

text \<open>After the exit: stop, shut down, terminate.\<close>

definition stopOwned ::
  "configuration \<Rightarrow> environment \<Rightarrow> port_error option \<Rightarrow> rec_error option list \<Rightarrow> agent \<Rightarrow> rec_error option \<times> agent" where
  "stopOwned cfg env terminateErr errs agent =
     (let (shutdownErr, reconciler) = run_state (shutdownReconciler cfg env) (ag_reconciler agent);
          (processErr, process) = terminateProcess terminateErr (ag_process agent)
      in (joinErrors (errs @ [shutdownErr, processErr]),
          agent\<lparr>ag_status := MarkStopping (ag_status agent), ag_reconciler := reconciler, ag_process := process\<rparr>))"

inductive runOwned ::
  "configuration \<Rightarrow> (rec_error \<Rightarrow> string) \<Rightarrow> (rec_error \<Rightarrow> bool) \<Rightarrow> bool \<Rightarrow> agent \<Rightarrow> rec_error option \<times> agent \<Rightarrow> bool"
  for cfg render canceled managed where
  prepare_failed: "run_state (Prepare cfg env) (ag_reconciler agent) = (Inl e, s) \<Longrightarrow>
    run_state (shutdownReconciler cfg env') s = (shutdownErr, s') \<Longrightarrow>
    runOwned cfg render canceled managed agent
      (joinErrors [Some (Wrapped ''prepare gateway quarantine'' e), shutdownErr], agent\<lparr>ag_reconciler := s'\<rparr>)"
| start_failed: "run_state (Prepare cfg env) (ag_reconciler agent) = (Inr (), s) \<Longrightarrow> managed \<Longrightarrow>
    run_state (shutdownReconciler cfg env') s = (shutdownErr, s') \<Longrightarrow>
    runOwned cfg render canceled managed agent
      (joinErrors [Some (Wrapped ''start supervised process'' (PortFailed e)), shutdownErr],
       agent\<lparr>ag_status := MarkQuarantined (ag_status agent), ag_reconciler := s'\<rparr>)"
| ran: "run_state (Prepare cfg env) (ag_reconciler agent) = (Inr (), s) \<Longrightarrow>
    controller_result cfg render (MarkQuarantined (ag_status agent), s, ag_gauge agent) (controllerErr, status, reconciler, gauge) \<Longrightarrow>
    process = (case cause of ProcessExited err \<Rightarrow> Exited | _ \<Rightarrow> if managed then Running else NoProcess) \<Longrightarrow>
    (\<And>err. cause = ProcessExited err \<Longrightarrow> managed) \<Longrightarrow>
    runOwned cfg render canceled managed agent
      (stopOwned cfg env' terminateErr (exitErrors canceled cause controllerErr)
        \<lparr>ag_status = status, ag_reconciler = reconciler, ag_gauge = gauge, ag_process = process\<rparr>)"

section \<open>Supervision of the components\<close>

text \<open>
  \<^verbatim>\<open>Supervisor.Run\<close>: the results of coordination and health server in the order they arrive, each with whether the parent was done by then.
\<close>

fun superviseResults :: "(rec_error \<Rightarrow> bool) \<Rightarrow> bool \<Rightarrow> (string \<times> rec_error option \<times> bool) list \<Rightarrow> rec_error list" where
  "superviseResults canceled stopped [] = []"
| "superviseResults canceled stopped ((name, err, parentDone) # results) =
     (let err' = (if err = None \<and> \<not> (stopped \<or> parentDone) then Some (Message ''component exited unexpectedly'') else err)
      in (case err' of None \<Rightarrow> [] | Some e \<Rightarrow> if canceled e then [] else [Wrapped name e]) @ superviseResults canceled True results)"

definition supervisor_Run :: "(rec_error \<Rightarrow> bool) \<Rightarrow> (string \<times> rec_error option \<times> bool) list \<Rightarrow> rec_error option" where
  "supervisor_Run canceled results = joinErrors (map Some (superviseResults canceled False results))"

section \<open>Facts\<close>

lemma shutdown_closed:
  assumes "reachable cfg s" "run_state (shutdownReconciler cfg env) s = (err, s')"
  shows "reachable cfg s' \<and> quarantine s' \<and> (err = None \<longrightarrow> failed_closed cfg (rcl_lastPacketPolicy s') s')"
proof -
  have "wp (Shutdown cfg env) (\<lambda>err s'. reachable cfg s') s"
    by (rule wp_runI) (use reachable.step [OF assms(1) reconciler_step.shutdown] in blast)
  moreover have "wp (Shutdown cfg env) (\<lambda>err s'. quarantine s' \<and> (err = None \<longrightarrow> failed_closed cfg (rcl_lastPacketPolicy s') s')) s"
    unfolding Shutdown_def wp_rules by (rule wp_mono [OF failClosed_wp]) auto
  ultimately have "wp (Shutdown cfg env) (\<lambda>err s'. reachable cfg s' \<and> quarantine s' \<and>
      (err = None \<longrightarrow> failed_closed cfg (rcl_lastPacketPolicy s') s')) s"
    by (rule wp_conj)
  then have "wp (shutdownReconciler cfg env) (\<lambda>err s'. reachable cfg s' \<and> quarantine s' \<and>
      (err = None \<longrightarrow> failed_closed cfg (rcl_lastPacketPolicy s') s')) s"
    unfolding shutdownReconciler_def wp_rules by (rule wp_mono) auto
  from wp_run [OF this assms(2)] show ?thesis .
qed

lemma prepared_reachable: "reachable cfg s \<Longrightarrow> run_state (Prepare cfg env) s = (r, s') \<Longrightarrow> reachable cfg s'"
  by (blast intro: reachable.step reconciler_step.prepare)

lemma controller_result_reachable:
  "controller_result cfg render (status, s, gauge) (err, status', s', gauge') \<Longrightarrow> reachable cfg s \<Longrightarrow> reachable cfg s'"
  by (erule controller_result.cases) (auto dest: controller_reachable simp: controller_start_def)

lemma stopping_not_ready: "\<not> Ready t (MarkStopping status)" "\<not> Ready t (MarkQuarantined status)" "\<not> Ready t (NewStatus maximumAge)"
  by (simp_all add: Ready_def status_HealthSnapshot_def Let_def healthSnapshotReady_def MarkStopping_def MarkQuarantined_def
      setUnavailablePhase_def NewStatus_def)

lemma terminate_running: "terminateProcess terminateErr process = (processErr, Running) \<Longrightarrow> \<exists>e. processErr = Some (Wrapped ''terminate supervised process'' (PortFailed e))"
  by (auto simp: terminateProcess_def split: if_splits option.splits)

section \<open>Properties\<close>

text \<open>
  C7: the agent always ends closed. However the agent's ownership of the gateway ends, by a failed preparation, a process that does not start, the exit of
  controller or process, or a request to stop: the reconciler is left quarantined behind a closed policy, all its writes have been in
  the safe order, and the status is not ready. A process is left running only when its termination failed and that failure is
  among the reported errors; and when no error is reported, the packet filter and the routing were last seen to be closed.
\<close>

theorem agent_ends_closed:
  assumes "reachable cfg (ag_reconciler agent)" "ag_status agent = NewStatus maximumAge" "ag_process agent = NoProcess"
    and "runOwned cfg render canceled managed agent (err, agent')"
  shows "rcl_quarantined (ag_reconciler agent') \<and> pf_GateClosed (rcl_lastPacketPolicy (ag_reconciler agent')) \<and>
     safe cfg (rcl_history (ag_reconciler agent')) \<and> \<not> Ready t (ag_status agent') \<and>
     (ag_process agent' = Running \<longrightarrow> (\<exists>es e. err = Some (Joined es) \<and> Wrapped ''terminate supervised process'' (PortFailed e) \<in> set es)) \<and>
     (err = None \<longrightarrow> filter_verified (rcl_lastPacketPolicy (ag_reconciler agent')) (rcl_history (ag_reconciler agent')) \<and>
        (\<exists>link proxy. routing_verified cfg (buildFailClosedRouting cfg link proxy) (rcl_history (ag_reconciler agent'))))"
  using assms(4)
proof (cases rule: runOwned.cases)
  case (prepare_failed env e s env' shutdownErr s')
  with shutdown_closed [OF prepared_reachable [OF assms(1)]] assms(2,3) reachable_safe show ?thesis
    by (auto simp: quarantine_def stopping_not_ready)
next
  case (start_failed env s env' shutdownErr s' e)
  with shutdown_closed [OF prepared_reachable [OF assms(1)]] assms(2,3) reachable_safe show ?thesis
    by (auto simp: quarantine_def stopping_not_ready)
next
  case (ran env s controllerErr status reconciler gauge process cause env' terminateErr)
  obtain shutdownErr s' where sd: "run_state (shutdownReconciler cfg env') reconciler = (shutdownErr, s')" by fastforce
  have "reachable cfg reconciler" by (rule controller_result_reachable [OF ran(3) prepared_reachable [OF assms(1) ran(2)]])
  note closed = shutdown_closed [OF this sd]
  obtain processErr process' where stopped: "terminateProcess terminateErr process = (processErr, process')" by fastforce
  have final: "ag_reconciler agent' = s'" "ag_status agent' = MarkStopping status" "ag_process agent' = process'"
    "err = joinErrors (exitErrors canceled cause controllerErr @ [shutdownErr, processErr])"
    using ran(1) by (simp_all add: stopOwned_def sd stopped)
  have running: "\<exists>es e. err = Some (Joined es) \<and> Wrapped ''terminate supervised process'' (PortFailed e) \<in> set es" if "process' = Running"
  proof -
    from terminate_running [of terminateErr process processErr] stopped that obtain e where
      "Some (Wrapped ''terminate supervised process'' (PortFailed e)) \<in> set (exitErrors canceled cause controllerErr @ [shutdownErr, processErr])"
      by auto
    from joinErrors_member [OF this] show ?thesis unfolding final(4) by blast
  qed
  show ?thesis
    using closed running final(3,4) reachable_safe [of cfg s'] unfolding final(1,2)
    by (auto simp: quarantine_def failed_closed_def fail_closed_plan_def stopping_not_ready)
qed

section \<open>The gauge after the stop\<close>

text \<open>
  The supervisor marks the status as stopping, which ends readiness, but nothing lowers the gauge: an agent that was ready when it was
  stopped leaves the gauge raised.
\<close>

lemma gauge_survives_stop:
  "\<exists>status reconciler. controller_result example_gateway render (NewStatus 60, example_start, False) (None, status, reconciler, True) \<and>
     ag_gauge (snd (stopOwned example_gateway env terminateErr errs
       \<lparr>ag_status = status, ag_reconciler = reconciler, ag_gauge = True, ag_process = process\<rparr>)) \<and>
     \<not> Ready t (ag_status (snd (stopOwned example_gateway env terminateErr errs
       \<lparr>ag_status = status, ag_reconciler = reconciler, ag_gauge = True, ag_process = process\<rparr>)))"
proof -
  obtain c where c: "controller_run example_gateway render (controller_start (NewStatus 60) example_start) c"
    "ct_activity c = Waiting" "ct_network c = Listening" "ct_tailnet c = Listening" "ct_gauge c"
    by (rule example_controller_run)
  define c' where "c' = c\<lparr>ct_parentDone := True\<rparr>"
  define d where "d = c'\<lparr>ct_activity := Returned None\<rparr>"
  define d' where "d' = d\<lparr>ct_network := Finished, ct_tailnet := Finished\<rparr>"
  have "controller_step example_gateway render c c'"
    unfolding c'_def by (rule controller_step.parent_done)
  moreover have "controller_step example_gateway render c' d"
    unfolding d_def by (intro controller_step.loop loop_step.stop) (simp_all add: c'_def c(2))
  moreover have "controller_step example_gateway render d d'"
    unfolding d'_def by (rule controller_step.collectors_done [of d None]) (simp_all add: d_def c'_def c)
  ultimately have "controller_run example_gateway render (controller_start (NewStatus 60) example_start) d'"
    using c(1) by (blast intro: controller_run_step)
  then have "controller_result example_gateway render (NewStatus 60, example_start, False) (None, ct_status d', ct_reconciler d', ct_gauge d')"
    by (rule controller_result.returned) (simp_all add: d'_def d_def)
  moreover have "ct_gauge d'" using c(5) by (simp add: d'_def d_def c'_def)
  ultimately show ?thesis
    by (auto simp: stopOwned_def Let_def stopping_not_ready split: prod.split)
qed

section \<open>Witnesses\<close>

definition example_agent :: agent where
  "example_agent = \<lparr>ag_status = NewStatus 60, ag_reconciler = example_start, ag_gauge = False, ag_process = NoProcess\<rparr>"

lemma agent_ends_closed_witness:
  "\<exists>err agent'. runOwned example_gateway (\<lambda>e. ''error'') (\<lambda>e. False) False example_agent (err, agent') \<and>
     pf_GateClosed (rcl_lastPacketPolicy (ag_reconciler agent'))"
proof -
  have "run_state (Prepare example_gateway example_environment) (ag_reconciler example_agent) =
      (Inr (), snd (run_state (Prepare example_gateway example_environment) example_start))"
    using example_prepared by (simp add: example_agent_def)
  note runOwned.ran [OF this controller_result.subscribe_failed refl, of ControllerExited False "\<lambda>e. ''error''" "\<lambda>e. False" example_environment None]
  then obtain err agent' where run: "runOwned example_gateway (\<lambda>e. ''error'') (\<lambda>e. False) False example_agent (err, agent')"
    by (metis exit_cause.distinct(5) prod.collapse)
  have "reachable example_gateway (ag_reconciler example_agent)" "ag_status example_agent = NewStatus 60" "ag_process example_agent = NoProcess"
    using example_reachable by (simp_all add: example_agent_def)
  from agent_ends_closed [OF this run] run show ?thesis by blast
qed

end
