(* ===== verification/Netip_Bytes.thy ===== *)
theory Netip_Bytes
  imports Netip_String Fingerprint
begin

unbundle bit_operations_syntax

text \<open>
  Addresses and masks as byte slices, the form in which they reach the kernel: \<^verbatim>\<open>Addr.AsSlice\<close>,
  \<^verbatim>\<open>netip.AddrFromSlice\<close>, \<^verbatim>\<open>net.CIDRMask\<close> and \<^verbatim>\<open>IPMask.Size\<close>. The conversions are inverse to each other.
\<close>

type_synonym bytes = "8 word list"

fun addr_AsSlice :: "addr \<Rightarrow> bytes" where
  "addr_AsSlice AddrZero = []"
| "addr_AsSlice (Addr4 a) = be_bytes 4 a"
| "addr_AsSlice (Addr6 a _) = be_bytes 16 a"

text \<open>\<^verbatim>\<open>net.CIDRMask\<close>, which is nil unless the length fits an address of 32 or 128 bits.\<close>

definition CIDRMask :: "int \<Rightarrow> nat \<Rightarrow> bytes" where
  "CIDRMask ones bits =
     (if ones < 0 \<or> int bits < ones then []
      else if bits = 32 then be_bytes 4 (netmask4 (nat ones))
      else if bits = 128 then be_bytes 16 (netmask6 (nat ones))
      else [])"

definition bytes_value :: "bytes \<Rightarrow> nat" where
  "bytes_value bs = foldl (\<lambda>a b. 256 * a + unat b) 0 bs"

text \<open>The Boolean of \<^verbatim>\<open>AddrFromSlice\<close> is false exactly when the address is the zero value.\<close>

definition AddrFromSlice :: "bytes \<Rightarrow> addr" where
  "AddrFromSlice bs =
     (if length bs = 4 then Addr4 (word_of_nat (bytes_value bs))
      else if length bs = 16 then Addr6 (word_of_nat (bytes_value bs)) []
      else AddrZero)"

text \<open>\<^verbatim>\<open>IPMask.Size\<close>: the ones and the length in bits, or two zeros when the ones are not leading.\<close>

definition mask_bits :: "bytes \<Rightarrow> bool list" where
  "mask_bits m = concat (map (\<lambda>b. map (bit b) [7, 6, 5, 4, 3, 2, 1, 0]) m)"

definition mask_Size :: "bytes \<Rightarrow> int \<times> int" where
  "mask_Size m =
     (let bits = mask_bits m; ones = length (takeWhile (\<lambda>x. x) bits)
      in if list_ex (\<lambda>x. x) (drop ones bits) then (0, 0) else (int ones, int (length bits)))"

section \<open>Bytes of words\<close>

lemma length_be_bytes [simp]: "length (be_bytes n x) = n"
  by (simp add: be_bytes_def)

lemma be_bytes_inj:
  fixes x y :: "'a::len word"
  assumes "LENGTH('a) = 8 * n"
  shows "be_bytes n x = be_bytes n y \<longleftrightarrow> x = y"
proof
  assume eq: "be_bytes n x = be_bytes n y"
  show "x = y"
  proof (rule word_eq_from_chunks [of 8])
    fix i
    assume "8 * i < LENGTH('a)"
    with assms have i: "i < n" by simp
    then have "i \<in> set (rev [0..<n])" by simp
    then have "(ucast (drop_bit (8 * i) x) :: 8 word) = ucast (drop_bit (8 * i) y)"
      using eq unfolding be_bytes_def map_eq_conv by blast
    then show "take_bit 8 (drop_bit (8 * i) x) = take_bit 8 (drop_bit (8 * i) y)"
      by (auto simp: bit_eq_iff bit_simps)
  qed simp
qed simp

lemma map2_same: "map2 g (map f xs) (map h xs) = map (\<lambda>i. g (f i) (h i)) xs"
  by (induction xs) simp_all

lemma be_bytes_and: "map2 (AND) (be_bytes n x) (be_bytes n y) = be_bytes n (x AND y)"
  unfolding be_bytes_def map2_same by (simp add: unsigned_and_eq)

lemma be_bytes_xor: "map2 (XOR) (be_bytes n x) (be_bytes n y) = be_bytes n (x XOR y)"
  unfolding be_bytes_def map2_same by (simp add: unsigned_xor_eq)

lemma map2_xor_zero: "length bs = n \<Longrightarrow> map2 (XOR) bs (replicate n 0) = (bs :: bytes)"
  by (induction bs arbitrary: n) auto

lemma rev_map2: "length xs = length ys \<Longrightarrow> map2 f (rev xs) (rev ys) = rev (map2 f xs ys)"
  by (simp add: rev_map zip_rev)

lemma addr_AsSlice_inj:
  assumes "addr_Is6 a = addr_Is6 b" "addr_IsValid a" "addr_IsValid b" "addr_Zone a = []" "addr_Zone b = []"
  shows "addr_AsSlice a = addr_AsSlice b \<longleftrightarrow> a = b"
  using assms by (cases a; cases b) (simp_all add: be_bytes_inj)

section \<open>Slices and back\<close>

lemma be_bytes_Suc: "be_bytes (Suc n) x = ucast (drop_bit (8 * n) x) # be_bytes n x"
  by (simp add: be_bytes_def)

lemma foldl_bytes:
  fixes x :: "'a::len word"
  shows "foldl (\<lambda>a b. 256 * a + unat b) acc (be_bytes n x) = acc * 256 ^ n + unat x mod 256 ^ n"
proof (induction n arbitrary: acc)
  case (Suc n)
  have byte: "unat (ucast (drop_bit (8 * n) x) :: 8 word) = unat x div 256 ^ n mod 256"
  proof -
    have "unat (ucast (drop_bit (8 * n) x) :: 8 word) = take_bit 8 (drop_bit (8 * n) (unat x))"
      by (rule bit_eqI) (auto simp: bit_simps dest: bit_imp_le_length)
    also have "\<dots> = unat x div 256 ^ n mod 256"
      by (simp add: take_bit_eq_mod drop_bit_eq_div power_mult)
    finally show ?thesis .
  qed
  have "unat x mod 256 ^ Suc n = 256 ^ n * (unat x div 256 ^ n mod 256) + unat x mod 256 ^ n"
    using mod_mult2_eq [of "unat x" "256 ^ n" 256] by (simp add: mult.commute)
  moreover have "foldl (\<lambda>a b. 256 * a + unat b) acc (be_bytes (Suc n) x) =
      (256 * acc + unat x div 256 ^ n mod 256) * 256 ^ n + unat x mod 256 ^ n"
    unfolding be_bytes_Suc foldl_Cons byte by (rule Suc)
  ultimately show ?case by (simp add: algebra_simps)
qed (simp add: be_bytes_def)

lemma bytes_value_be_bytes:
  fixes x :: "'a::len word"
  assumes "LENGTH('a) = 8 * n"
  shows "bytes_value (be_bytes n x) = unat x"
proof -
  have "unat x < 2 ^ LENGTH('a)" by (rule unsigned_less)
  then have "unat x < 256 ^ n" using assms by (simp add: power_mult)
  then show ?thesis by (simp add: bytes_value_def foldl_bytes)
qed

lemma AddrFromSlice_AsSlice: "addr_Zone a = [] \<Longrightarrow> AddrFromSlice (addr_AsSlice a) = a"
  by (cases a) (simp_all add: AddrFromSlice_def bytes_value_be_bytes)

lemma mask_bits_be_bytes: "mask_bits (be_bytes n x) = map (bit x) (rev [0..<8 * n])"
proof (induction n)
  case (Suc n)
  have "map (bit (ucast (drop_bit (8 * n) x) :: 8 word)) [7, 6, 5, 4, 3, 2, 1, 0] = map (bit x) (rev [8 * n..<8 * n + 8])"
    by (simp add: upt_rec bit_simps add.commute eval_nat_numeral)
  moreover have "[0..<8 * Suc n] = [0..<8 * n] @ [8 * n..<8 * n + 8]"
    using upt_add_eq_append [of 0 "8 * n" 8] by (simp add: add.commute)
  ultimately show ?case
    using Suc by (simp add: mask_bits_def be_bytes_Suc)
qed (simp add: mask_bits_def be_bytes_def)

lemma mask_Size_netmask:
  fixes k n :: nat
  assumes "k \<le> 8 * n" "LENGTH('a::len) = 8 * n"
  shows "mask_Size (be_bytes n (NOT (mask (8 * n - k)) :: 'a word)) = (int k, int (8 * n))"
proof -
  let ?x = "NOT (mask (8 * n - k)) :: 'a word"
  have bits: "mask_bits (be_bytes n ?x) = replicate k True @ replicate (8 * n - k) False"
  proof (rule nth_equalityI)
    show "length (mask_bits (be_bytes n ?x)) = length (replicate k True @ replicate (8 * n - k) False)"
      using assms(1) by (simp add: mask_bits_be_bytes)
    fix i
    assume "i < length (mask_bits (be_bytes n ?x))"
    then have i: "i < 8 * n" by (simp add: mask_bits_be_bytes)
    then have "mask_bits (be_bytes n ?x) ! i = bit ?x (8 * n - Suc i)"
      by (simp add: mask_bits_be_bytes rev_nth)
    with i assms show "mask_bits (be_bytes n ?x) ! i = (replicate k True @ replicate (8 * n - k) False) ! i"
      by (auto simp: bit_simps nth_append)
  qed
  show ?thesis
    unfolding mask_Size_def bits Let_def using assms(1)
    by (simp add: takeWhile_append takeWhile_replicate list_ex_iff)
qed

lemma mask_Size_CIDRMask:
  assumes "0 \<le> ones" "ones \<le> int bits" "bits = 32 \<or> bits = 128"
  shows "mask_Size (CIDRMask ones bits) = (ones, int bits)"
  using assms(3)
proof
  assume "bits = 32"
  with assms mask_Size_netmask [of "nat ones" 4, where 'a = 32] show ?thesis by (simp add: CIDRMask_def netmask4_def)
next
  assume "bits = 128"
  with assms mask_Size_netmask [of "nat ones" 16, where 'a = 128] show ?thesis by (simp add: CIDRMask_def netmask6_def)
qed

end
