(* ===== verification/Nftables_Rules.thy ===== *)
theory Nftables_Rules
  imports Packet_Filter Netip_Bytes
begin

unbundle bit_operations_syntax

text \<open>
  \<^verbatim>\<open>internal/adapter/nftables/rules_linux.go\<close>: the sets and rules the agent installs for a packet filter
  policy, as the expressions of \<^verbatim>\<open>google/nftables/expr\<close> it builds them from. The byte order of the host, which
  \<^verbatim>\<open>binaryutil.NativeEndian\<close> follows, is an argument. What the kernel does with a rule is the interface
  \<open>nft_machine\<close> of the theory \<open>Nftables_Semantics\<close>.
\<close>

section \<open>Byte order\<close>

datatype byte_order = LittleEndian | BigEndian

fun NativeEndian_PutUint32 :: "byte_order \<Rightarrow> 32 word \<Rightarrow> bytes" where
  "NativeEndian_PutUint32 BigEndian w = be_bytes 4 w"
| "NativeEndian_PutUint32 LittleEndian w = rev (be_bytes 4 w)"

section \<open>Expressions, rules and sets\<close>

text \<open>
  The expressions the agent emits, with the fields it sets. A rule read back from the kernel may hold any other
  expression of the library; it is never equal to one the agent emits.
\<close>

datatype meta_key = MetaKeyNFPROTO | MetaKeyL4PROTO | MetaKeyMARK | MetaKeyOIFNAME

datatype payload_base = PayloadBaseNetworkHeader | PayloadBaseTransportHeader

datatype cmp_op = CmpOpEq

datatype verdict_kind = VerdictDrop | VerdictReturn

datatype nft_expr =
    Meta meta_key bool nat
  | Cmp cmp_op nat bytes
  | Payload nat payload_base nat nat
  | Bitwise nat nat nat bytes bytes
  | Lookup nat string "32 word"
  | Verdict verdict_kind
  | Masq
  | OtherExpr string

record rule_spec =
  rs_expressions :: "nft_expr list"
  rs_userData :: string

record set_datatype =
  sd_Name :: string
  sd_Bytes :: nat

record set_element =
  se_Key :: bytes
  se_Val :: bytes
  se_KeyEnd :: bytes
  se_IntervalEnd :: bool
  se_VerdictData :: "verdict_kind option"
  se_Timeout :: duration
  se_Expires :: duration
  se_Counter :: "(64 word \<times> 64 word) option"
  se_Comment :: string

record set_spec =
  ss_name :: string
  ss_keyType :: set_datatype
  ss_elements :: "set_element list"
  ss_comment :: string

datatype table_family = TableFamilyINet | OtherFamily nat

record nft_table =
  table_Name :: string
  table_Family :: table_family
  table_Flags :: "32 word"

record nft_set =
  set_Table :: "nft_table option"
  set_Name :: string
  set_ID :: "32 word"
  set_Constant :: bool
  set_Anonymous :: bool
  set_Interval :: bool
  set_AutoMerge :: bool
  set_IsMap :: bool
  set_HasTimeout :: bool
  set_Counter :: bool
  set_Dynamic :: bool
  set_Concatenation :: bool
  set_KeyType :: set_datatype
  set_Size :: "32 word"
  set_Comment :: string

definition TypeIPAddr :: set_datatype where
  "TypeIPAddr = \<lparr>sd_Name = ''ipv4_addr'', sd_Bytes = 4\<rparr>"

definition TypeIP6Addr :: set_datatype where
  "TypeIP6Addr = \<lparr>sd_Name = ''ipv6_addr'', sd_Bytes = 16\<rparr>"

section \<open>Building blocks\<close>

definition nfprotoIPv4 :: "8 word" where "nfprotoIPv4 = 2"

definition nfprotoIPv6 :: "8 word" where "nfprotoIPv6 = 10"

definition ipProtocolTCP :: "8 word" where "ipProtocolTCP = 6"

definition ipProtocolUDP :: "8 word" where "ipProtocolUDP = 17"

definition protocolNumber :: "transport_protocol \<Rightarrow> 8 word" where
  "protocolNumber protocol = (if protocol = TransportUDP then ipProtocolUDP else ipProtocolTCP)"

text \<open>\<^verbatim>\<open>copy\<close> stops at the end of the shorter slice, so a long name loses its tail.\<close>

definition interfaceNameBytes :: "string \<Rightarrow> bytes" where
  "interfaceNameBytes name =
     (let n = MaximumInterfaceNameBytes + 1; copied = take n (map of_char name)
      in copied @ replicate (n - length copied) 0)"

text \<open>The verb \<^verbatim>\<open>%04d\<close> for an index.\<close>

definition pad4 :: "nat \<Rightarrow> string" where
  "pad4 n = replicate (4 - length (show_dec n)) CHR ''0'' @ show_dec n"

definition ruleUserData :: "string \<Rightarrow> string \<Rightarrow> string \<Rightarrow> nat \<Rightarrow> string" where
  "ruleUserData component chain revision index =
     ''tailscale-gateway-agent:v1:'' @ component @ '':'' @ chain @ '':'' @ revision @ '':'' @ pad4 index"

definition setComment :: "string \<Rightarrow> string \<Rightarrow> string \<Rightarrow> string" where
  "setComment component revision name =
     ''tailscale-gateway-agent:v1:'' @ component @ '':'' @ revision @ '':'' @ name"

definition metadataRuleSpec :: "string \<Rightarrow> string \<Rightarrow> rule_spec" where
  "metadataRuleSpec component revision =
     \<lparr>rs_expressions = [Verdict VerdictReturn],
      rs_userData = ''tailscale-gateway-agent:v1:'' @ component @ '':'' @ revision @ '':metadata''\<rparr>"

definition key_element :: "bytes \<Rightarrow> set_element" where
  "key_element key =
     \<lparr>se_Key = key, se_Val = [], se_KeyEnd = [], se_IntervalEnd = False, se_VerdictData = None, se_Timeout = 0,
      se_Expires = 0, se_Counter = None, se_Comment = []\<rparr>"

definition addressSetElements :: "addr list \<Rightarrow> set_element list" where
  "addressSetElements addresses =
     map (\<lambda>a. key_element (addr_AsSlice a)) (remdups_adj (sort_func addr_Compare addresses))"

definition rules_compareDNSMasqueradeTargets :: "dns_masquerade_target \<Rightarrow> dns_masquerade_target \<Rightarrow> int" where
  "rules_compareDNSMasqueradeTargets left right =
     (let comparison = addr_Compare (addr_Unmap (dmt_Address left)) (addr_Unmap (dmt_Address right))
      in if comparison \<noteq> 0 then comparison
         else if dmt_OutputInterface left < dmt_OutputInterface right then - 1
         else if dmt_OutputInterface left > dmt_OutputInterface right then 1
         else 0)"

section \<open>Rule bodies\<close>

definition prefixVerdictExpressions :: "prefix \<Rightarrow> bool \<Rightarrow> verdict_kind \<Rightarrow> nft_expr list" where
  "prefixVerdictExpressions pfx source verdict =
     (let masked = prefix_Masked pfx;
          address = prefix_Addr masked;
          offset = (if addr_Is6 address then (if source then 8 else 24) else (if source then 12 else 16));
          nfproto = (if addr_Is6 address then nfprotoIPv6 else nfprotoIPv4);
          mask = CIDRMask (prefix_Bits masked) (addr_BitLen address)
      in [Meta MetaKeyNFPROTO False 1,
          Cmp CmpOpEq 1 [nfproto],
          Payload 1 PayloadBaseNetworkHeader offset (length (addr_AsSlice address)),
          Bitwise 1 1 (length mask) mask (replicate (length mask) 0),
          Cmp CmpOpEq 1 (addr_AsSlice address),
          Verdict verdict])"

definition localEgressExpressions ::
  "byte_order \<Rightarrow> addr \<Rightarrow> nft_set \<Rightarrow> transport_protocol \<Rightarrow> 16 word \<Rightarrow> 32 word \<Rightarrow> nft_expr list" where
  "localEgressExpressions order address nset protocol port mark =
     (let offset = (if addr_Is6 address then 24 else 16);
          nfproto = (if addr_Is6 address then nfprotoIPv6 else nfprotoIPv4)
      in [Meta MetaKeyNFPROTO False 1,
          Cmp CmpOpEq 1 [nfproto],
          Payload 1 PayloadBaseNetworkHeader offset (length (addr_AsSlice address)),
          Lookup 1 (set_Name nset) (set_ID nset),
          Meta MetaKeyL4PROTO False 1,
          Cmp CmpOpEq 1 [protocolNumber protocol],
          Payload 1 PayloadBaseTransportHeader 2 2,
          Cmp CmpOpEq 1 (be_bytes 2 port),
          Meta MetaKeyMARK False 1,
          Bitwise 1 1 4 (NativeEndian_PutUint32 order (NOT LocalEgressPacketMarkMask)) (NativeEndian_PutUint32 order mark),
          Meta MetaKeyMARK True 1])"

definition dnsMasqueradeExpressions :: "prefix \<Rightarrow> addr \<Rightarrow> string \<Rightarrow> transport_protocol \<Rightarrow> nft_expr list" where
  "dnsMasqueradeExpressions sourcePrefix destination outputInterface protocol =
     (let sourcePrefix = prefix_Masked sourcePrefix;
          source = prefix_Addr sourcePrefix;
          sourceOffset = (if addr_Is6 destination then 8 else 12);
          destinationOffset = (if addr_Is6 destination then 24 else 16);
          nfproto = (if addr_Is6 destination then nfprotoIPv6 else nfprotoIPv4);
          mask = CIDRMask (prefix_Bits sourcePrefix) (addr_BitLen source)
      in [Meta MetaKeyNFPROTO False 1,
          Cmp CmpOpEq 1 [nfproto],
          Payload 1 PayloadBaseNetworkHeader sourceOffset (length (addr_AsSlice source)),
          Bitwise 1 1 (length mask) mask (replicate (length mask) 0),
          Cmp CmpOpEq 1 (addr_AsSlice source),
          Payload 1 PayloadBaseNetworkHeader destinationOffset (length (addr_AsSlice destination)),
          Cmp CmpOpEq 1 (addr_AsSlice destination),
          Meta MetaKeyOIFNAME False 1,
          Cmp CmpOpEq 1 (interfaceNameBytes outputInterface),
          Meta MetaKeyL4PROTO False 1,
          Cmp CmpOpEq 1 [protocolNumber protocol],
          Payload 1 PayloadBaseTransportHeader 2 2,
          Cmp CmpOpEq 1 (be_bytes 2 (53 :: 16 word)),
          Masq])"

section \<open>The sets and rules of a policy\<close>

datatype rules_error =
    FilterPolicyInvalid "policy_error list"
  | NATPolicyInvalid "policy_error list"
  | SetUnavailable string

definition family_set_spec :: "packet_filter_policy \<Rightarrow> addr list \<Rightarrow> string \<Rightarrow> set_datatype \<Rightarrow> set_spec list" where
  "family_set_spec policy addresses name keyType =
     (if 0 < length addresses
      then [\<lparr>ss_name = name, ss_keyType = keyType, ss_elements = addressSetElements addresses,
             ss_comment = setComment ''filter'' (FilterRevision policy) name\<rparr>]
      else [])"

definition filterSetSpecs :: "packet_filter_policy \<Rightarrow> set_spec list" where
  "filterSetSpecs policy =
     (if \<not> le_Enabled (pf_LocalEgress policy) then []
      else family_set_spec policy (le_IPv4 (pf_LocalEgress policy)) (pf_LocalEgressIPv4Set policy) TypeIPAddr @
           family_set_spec policy (le_IPv6 (pf_LocalEgress policy)) (pf_LocalEgressIPv6Set policy) TypeIP6Addr)"

definition rule_of :: "nft_expr list \<Rightarrow> rule_spec" where
  "rule_of es = \<lparr>rs_expressions = es, rs_userData = []\<rparr>"

text \<open>The loop that writes the user data of the rules of a chain.\<close>

definition number_rules :: "string \<Rightarrow> string \<Rightarrow> string \<Rightarrow> rule_spec list \<Rightarrow> rule_spec list" where
  "number_rules component chain revision specifications =
     map (\<lambda>(index, s). s\<lparr>rs_userData := ruleUserData component chain revision index\<rparr>) (enumerate 0 specifications)"

definition gate_rules :: "packet_filter_policy \<Rightarrow> rule_spec list" where
  "gate_rules policy =
     (if pf_GateClosed policy
      then [rule_of (prefixVerdictExpressions (pf_TailnetIPv4Prefix policy) True VerdictDrop),
            rule_of (prefixVerdictExpressions (pf_TailnetIPv4Prefix policy) False VerdictDrop),
            rule_of (prefixVerdictExpressions (pf_TailnetIPv6Prefix policy) True VerdictDrop),
            rule_of (prefixVerdictExpressions (pf_TailnetIPv6Prefix policy) False VerdictDrop)]
      else [])"

text \<open>The loop over the two families, each with the nested loops over the sorted protocols and ports.\<close>

fun egress_rules ::
  "byte_order \<Rightarrow> local_egress_policy \<Rightarrow> (string \<rightharpoonup> nft_set) \<Rightarrow> (addr list \<times> string) list \<Rightarrow> (rules_error, rule_spec list) result"
where
  "egress_rules order local sets [] = Inr []"
| "egress_rules order local sets ((addresses, setName) # families) =
     (if addresses = [] then egress_rules order local sets families
      else case sets setName of
          None \<Rightarrow> Inl (SetUnavailable setName)
        | Some nset \<Rightarrow>
            (case egress_rules order local sets families of
               Inl e \<Rightarrow> Inl e
             | Inr rest \<Rightarrow>
                 Inr (concat (map (\<lambda>protocol. map (\<lambda>port.
                        rule_of (localEgressExpressions order (hd addresses) nset protocol port (le_Mark local)))
                        (sort (le_Ports local))) (sort (le_Protocols local))) @ rest)))"

definition filterRuleSpecs ::
  "byte_order \<Rightarrow> packet_filter_policy \<Rightarrow> (string \<rightharpoonup> nft_set) \<Rightarrow> (rules_error, string \<rightharpoonup> rule_spec list) result" where
  "filterRuleSpecs order policy sets =
     (if policy_Validate policy \<noteq> [] then Inl (FilterPolicyInvalid (policy_Validate policy))
      else let local = pf_LocalEgress policy;
               result = [pf_ForwardGuardChain policy \<mapsto> [], pf_LocalEgressChain policy \<mapsto> []];
               result = result(pf_ForwardGuardChain policy \<mapsto> gate_rules policy);
               families = [(le_IPv4 local, pf_LocalEgressIPv4Set policy), (le_IPv6 local, pf_LocalEgressIPv6Set policy)];
               number = (\<lambda>chain specifications. number_rules ''filter'' chain (FilterRevision policy) specifications)
           in case (if le_Enabled local then egress_rules order local sets families else Inr []) of
                Inl e \<Rightarrow> Inl e
              | Inr rules \<Rightarrow>
                  let result = result(pf_LocalEgressChain policy \<mapsto> the (result (pf_LocalEgressChain policy)) @ rules)
                  in Inr (\<lambda>chain. map_option (number chain) (result chain)))"

definition natRuleSpecs :: "packet_filter_policy \<Rightarrow> (rules_error, rule_spec list) result" where
  "natRuleSpecs policy =
     (if policy_Validate policy \<noteq> [] then Inl (NATPolicyInvalid (policy_Validate policy))
      else let targets = sort_func rules_compareDNSMasqueradeTargets (pf_DNSTargets policy);
               specifications = concat (map (\<lambda>target.
                 let pfx = (if addr_Is4 (dmt_Address target) then pf_TailnetIPv4Prefix policy
                               else pf_TailnetIPv6Prefix policy)
                 in map (\<lambda>protocol. rule_of (dnsMasqueradeExpressions pfx (addr_Unmap (dmt_Address target))
                                       (dmt_OutputInterface target) protocol)) [TransportTCP, TransportUDP]) targets)
           in Inr (number_rules ''nat'' (pf_DNSMasqueradeChain policy) (NATRevision policy) specifications))"

text \<open>Numbering the rules leaves what they do unchanged.\<close>

lemma number_rules_expressions [simp]:
  "map rs_expressions (number_rules component chain revision specs) = map rs_expressions specs"
proof -
  have "map rs_expressions (number_rules component chain revision specs) = map (rs_expressions \<circ> snd) (enumerate 0 specs)"
    by (auto simp: number_rules_def)
  then show ?thesis by (metis map_map map_snd_enumerate)
qed

text \<open>Rules can be built for every valid policy whose sets are available.\<close>

lemma egress_rules_total:
  assumes "\<And>addresses name. (addresses, name) \<in> set families \<Longrightarrow> addresses \<noteq> [] \<Longrightarrow> sets name \<noteq> None"
  shows "\<exists>specs. egress_rules order local sets families = Inr specs"
  using assms
proof (induction families)
  case (Cons family families)
  then obtain rest where rest: "egress_rules order local sets families = Inr rest" by force
  obtain addresses name where "family = (addresses, name)" by (cases family)
  with rest Cons.prems [of addresses name] show ?case by auto
qed simp

lemma filterRuleSpecs_total:
  assumes "policy_Validate policy = []"
    and "le_IPv4 (pf_LocalEgress policy) \<noteq> [] \<Longrightarrow> sets (pf_LocalEgressIPv4Set policy) \<noteq> None"
    and "le_IPv6 (pf_LocalEgress policy) \<noteq> [] \<Longrightarrow> sets (pf_LocalEgressIPv6Set policy) \<noteq> None"
  shows "\<exists>rules. filterRuleSpecs order policy sets = Inr rules"
proof -
  have "\<exists>specs. egress_rules order (pf_LocalEgress policy) sets
      [(le_IPv4 (pf_LocalEgress policy), pf_LocalEgressIPv4Set policy),
       (le_IPv6 (pf_LocalEgress policy), pf_LocalEgressIPv6Set policy)] = Inr specs"
    by (rule egress_rules_total) (use assms(2,3) in auto)
  with assms(1) show ?thesis
    by (cases "le_Enabled (pf_LocalEgress policy)") (auto simp: filterRuleSpecs_def Let_def simp del: egress_rules.simps)
qed

end
