(* ===== verification/Nftables_Semantics.thy ===== *)
theory Nftables_Semantics
  imports Nftables_Rules
begin

unbundle bit_operations_syntax

text \<open>
  What the rules of \<open>Nftables_Rules\<close> do to packets. The kernel's evaluation of expressions is not part of the
  repository; the locale \<open>nft_machine\<close> states what \<^verbatim>\<open>nft(8)\<close> documents of the expressions the agent emits, and
  the lemmas proved in it say what each rule body decides. The properties are stated for every machine that obeys
  these laws; \<open>reference_step\<close> is one.
\<close>

section \<open>Native words\<close>

lemma length_PutUint32 [simp]: "length (NativeEndian_PutUint32 order w) = 4"
  by (cases order) simp_all

lemma PutUint32_merge:
  "map2 (XOR) (map2 (AND) (NativeEndian_PutUint32 order x) (NativeEndian_PutUint32 order y)) (NativeEndian_PutUint32 order z) =
     NativeEndian_PutUint32 order ((x AND y) XOR z)"
  by (cases order) (simp_all add: be_bytes_and be_bytes_xor rev_map2)

lemma PutUint32_inj [simp]: "NativeEndian_PutUint32 order x = NativeEndian_PutUint32 order y \<longleftrightarrow> x = y"
  by (cases order) (simp_all add: be_bytes_inj)

section \<open>Packets and the machine\<close>

record packet =
  pk_nfproto :: "8 word"
  pk_network :: bytes
  pk_l4proto :: "8 word"
  pk_transport :: bytes
  pk_mark :: "32 word"
  pk_oifname :: string

definition slice :: "nat \<Rightarrow> nat \<Rightarrow> bytes \<Rightarrow> bytes" where
  "slice offset len bs = take len (drop offset bs)"

fun carries :: "packet \<Rightarrow> addr \<Rightarrow> addr \<Rightarrow> bool" where
  "carries p (Addr4 s) (Addr4 d) \<longleftrightarrow>
     pk_nfproto p = 2 \<and> slice 12 4 (pk_network p) = be_bytes 4 s \<and> slice 16 4 (pk_network p) = be_bytes 4 d"
| "carries p (Addr6 s z) (Addr6 d w) \<longleftrightarrow> z = [] \<and> w = [] \<and>
     pk_nfproto p = 10 \<and> slice 8 16 (pk_network p) = be_bytes 16 s \<and> slice 24 16 (pk_network p) = be_bytes 16 d"
| "carries p _ _ \<longleftrightarrow> False"

definition destined :: "packet \<Rightarrow> 8 word \<Rightarrow> 16 word \<Rightarrow> bool" where
  "destined p protocol port \<longleftrightarrow> pk_l4proto p = protocol \<and> slice 2 2 (pk_transport p) = be_bytes 2 port"

datatype 'm outcome = Continue 'm | Break 'm | Issue nft_expr 'm

fun header_bytes :: "payload_base \<Rightarrow> packet \<Rightarrow> bytes" where
  "header_bytes PayloadBaseNetworkHeader p = pk_network p"
| "header_bytes PayloadBaseTransportHeader p = pk_transport p"

fun meta_bytes :: "byte_order \<Rightarrow> meta_key \<Rightarrow> packet \<Rightarrow> bytes" where
  "meta_bytes order MetaKeyNFPROTO p = [pk_nfproto p]"
| "meta_bytes order MetaKeyL4PROTO p = [pk_l4proto p]"
| "meta_bytes order MetaKeyMARK p = NativeEndian_PutUint32 order (pk_mark p)"
| "meta_bytes order MetaKeyOIFNAME p = map of_char (pk_oifname p) @ replicate (16 - length (pk_oifname p)) 0"

text \<open>
  A machine state holds registers and a packet. An expression lets the rule continue, breaks off the rule, or
  issues a verdict; a set is known by its name and holds keys.
\<close>

locale nft_machine =
  fixes order :: byte_order
    and members :: "string \<Rightarrow> bytes list"
    and step :: "nft_expr \<Rightarrow> 'm \<Rightarrow> 'm outcome"
    and load :: "nat \<Rightarrow> bytes \<Rightarrow> 'm \<Rightarrow> 'm"
    and fetch :: "nat \<Rightarrow> nat \<Rightarrow> 'm \<Rightarrow> bytes"
    and pkt :: "'m \<Rightarrow> packet"
    and remark :: "32 word \<Rightarrow> 'm \<Rightarrow> 'm"
  assumes fetch_load: "n \<le> length bs \<Longrightarrow> length bs \<le> 16 \<Longrightarrow> fetch r n (load r bs m) = take n bs"
    and pkt_load: "pkt (load r bs m) = pkt m"
    and pkt_remark: "pkt (remark k m) = (pkt m)\<lparr>pk_mark := k\<rparr>"
    and step_meta: "step (Meta key False r) m = Continue (load r (meta_bytes order key (pkt m)) m)"
    and step_mark: "fetch r 4 m = NativeEndian_PutUint32 order k \<Longrightarrow> step (Meta MetaKeyMARK True r) m = Continue (remark k m)"
    and step_cmp: "step (Cmp CmpOpEq r data) m = (if fetch r (length data) m = data then Continue m else Break m)"
    and step_payload: "step (Payload r base offset len) m =
          (if offset + len \<le> length (header_bytes base (pkt m))
           then Continue (load r (slice offset len (header_bytes base (pkt m))) m) else Break m)"
    and step_bitwise: "length ands = n \<Longrightarrow> length xors = n \<Longrightarrow>
          step (Bitwise s d n ands xors) m = Continue (load d (map2 (XOR) (map2 (AND) (fetch s n m) ands) xors) m)"
    and step_lookup: "step (Lookup r name i) m =
          (if list_ex (\<lambda>key. fetch r (length key) m = key) (members name) then Continue m else Break m)"
    and step_verdict: "step (Verdict v) m = Issue (Verdict v) m"
    and step_masq: "step Masq m = Issue Masq m"

text \<open>The expressions of a rule in order, and the rules of a base chain with the policy accept.\<close>

fun run_rule :: "(nft_expr \<Rightarrow> 'm \<Rightarrow> 'm outcome) \<Rightarrow> nft_expr list \<Rightarrow> 'm \<Rightarrow> 'm outcome" where
  "run_rule step [] m = Continue m"
| "run_rule step (e # es) m =
     (case step e m of Continue m' \<Rightarrow> run_rule step es m' | Break m' \<Rightarrow> Break m' | Issue v m' \<Rightarrow> Issue v m')"

datatype fate = Accepted | Dropped | Masqueraded

fun run_chain :: "(nft_expr \<Rightarrow> 'm \<Rightarrow> 'm outcome) \<Rightarrow> rule_spec list \<Rightarrow> 'm \<Rightarrow> fate \<times> 'm" where
  "run_chain step [] m = (Accepted, m)"
| "run_chain step (r # rs) m =
     (case run_rule step (rs_expressions r) m of
        Continue m' \<Rightarrow> run_chain step rs m'
      | Break m' \<Rightarrow> run_chain step rs m'
      | Issue v m' \<Rightarrow> (if v = Verdict VerdictDrop then Dropped else if v = Masq then Masqueraded else Accepted, m'))"

section \<open>Chains of like rules\<close>

text \<open>A rule that issues one verdict under a condition on the packet, and a chain of such rules.\<close>

definition decides :: "(nft_expr \<Rightarrow> 'm \<Rightarrow> 'm outcome) \<Rightarrow> ('m \<Rightarrow> packet) \<Rightarrow> packet \<Rightarrow> nft_expr \<Rightarrow> rule_spec \<Rightarrow> bool \<Rightarrow> bool" where
  "decides step pkt p e r b \<longleftrightarrow>
     (\<forall>m. pkt m = p \<longrightarrow> (\<exists>m'. pkt m' = p \<and> run_rule step (rs_expressions r) m = (if b then Issue e m' else Break m')))"

fun fate_of :: "nft_expr \<Rightarrow> fate" where
  "fate_of (Verdict VerdictDrop) = Dropped"
| "fate_of Masq = Masqueraded"
| "fate_of _ = Accepted"

lemma fate_of_eq: "fate_of v = (if v = Verdict VerdictDrop then Dropped else if v = Masq then Masqueraded else Accepted)"
  by (cases v rule: fate_of.cases) simp_all

lemma run_chain_decides:
  assumes "list_all2 (decides step pkt p e) rs bs" "pkt m = p"
  shows "\<exists>m'. pkt m' = p \<and> run_chain step rs m = (if True \<in> set bs then fate_of e else Accepted, m')"
  using assms
proof (induction arbitrary: m rule: list_all2_induct)
  case (Cons r rs b bs)
  then obtain m' where "pkt m' = p" "run_rule step (rs_expressions r) m = (if b then Issue e m' else Break m')"
    unfolding decides_def by blast
  with Cons.IH [of m'] show ?case by (auto simp: fate_of_eq)
qed simp

text \<open>A rule that rewrites the mark under a condition that does not look at the mark.\<close>

definition marks_packet :: "(nft_expr \<Rightarrow> 'm \<Rightarrow> 'm outcome) \<Rightarrow> ('m \<Rightarrow> packet) \<Rightarrow> packet \<Rightarrow> (32 word \<Rightarrow> 32 word) \<Rightarrow> rule_spec \<Rightarrow> bool \<Rightarrow> bool" where
  "marks_packet step pkt p f r b \<longleftrightarrow>
     (\<forall>m k. pkt m = p\<lparr>pk_mark := k\<rparr> \<longrightarrow>
        (\<exists>m'. pkt m' = p\<lparr>pk_mark := if b then f k else k\<rparr> \<and>
           run_rule step (rs_expressions r) m = (if b then Continue m' else Break m')))"

lemma run_chain_marks:
  assumes "list_all2 (marks_packet step pkt p f) rs bs" "\<And>k. f (f k) = f k" "pkt m = p\<lparr>pk_mark := k\<rparr>"
  shows "\<exists>m'. pkt m' = p\<lparr>pk_mark := if True \<in> set bs then f k else k\<rparr> \<and> run_chain step rs m = (Accepted, m')"
  using assms(1,3)
proof (induction arbitrary: m k rule: list_all2_induct)
  case (Cons r rs b bs)
  then obtain m' where "pkt m' = p\<lparr>pk_mark := if b then f k else k\<rparr>"
    "run_rule step (rs_expressions r) m = (if b then Continue m' else Break m')"
    unfolding marks_packet_def by blast
  with Cons.IH [of m' "if b then f k else k"] assms(2) show ?case by (cases b) auto
qed simp

lemma run_chain_expressions:
  "map rs_expressions rs = map rs_expressions rs' \<Longrightarrow> run_chain step rs m = run_chain step rs' m"
proof (induction rs arbitrary: rs' m)
  case (Cons r rs)
  then obtain r' rs'' where "rs' = r' # rs''" "rs_expressions r = rs_expressions r'" "map rs_expressions rs = map rs_expressions rs''"
    by auto
  with Cons.IH show ?case by (auto split: outcome.split)
qed simp

lemma run_chain_number [simp]: "run_chain step (number_rules component chain revision specs) m = run_chain step specs m"
  by (rule run_chain_expressions) simp

section \<open>What a rule body decides\<close>

text \<open>
  A block of expressions that only tests the packet: it breaks off the rule or hands the unchanged packet on, as the
  tested condition says. Blocks compose by conjunction.
\<close>

definition guards :: "(nft_expr \<Rightarrow> 'm \<Rightarrow> 'm outcome) \<Rightarrow> ('m \<Rightarrow> packet) \<Rightarrow> packet \<Rightarrow> nft_expr list \<Rightarrow> bool \<Rightarrow> bool" where
  "guards step pkt p es b \<longleftrightarrow>
     (\<forall>m. pkt m = p \<longrightarrow> (\<exists>m'. pkt m' = p \<and>
        (\<forall>rest. run_rule step (es @ rest) m = (if b then run_rule step rest m' else Break m'))))"

lemma guardsI:
  assumes "\<And>m. pkt m = p \<Longrightarrow>
    \<exists>m'. pkt m' = p \<and> (\<forall>rest. run_rule step (es @ rest) m = (if b then run_rule step rest m' else Break m'))"
  shows "guards step pkt p es b"
  using assms by (simp add: guards_def)

lemma guards_append:
  assumes "guards step pkt p es b" "guards step pkt p fs c"
  shows "guards step pkt p (es @ fs) (b \<and> c)"
proof (rule guardsI)
  fix m
  assume "pkt m = p"
  with assms(1) obtain m1 where m1: "pkt m1 = p"
    "\<And>rest. run_rule step (es @ rest) m = (if b then run_rule step rest m1 else Break m1)"
    unfolding guards_def by blast
  with assms(2) obtain m2 where m2: "pkt m2 = p"
    "\<And>rest. run_rule step (fs @ rest) m1 = (if c then run_rule step rest m2 else Break m2)"
    unfolding guards_def by blast
  show "\<exists>m'. pkt m' = p \<and>
    (\<forall>rest. run_rule step ((es @ fs) @ rest) m = (if b \<and> c then run_rule step rest m' else Break m'))"
  proof (cases b)
    case True
    with m1 m2 show ?thesis by auto
  next
    case False
    with m1 show ?thesis by auto
  qed
qed

lemma guards_false:
  assumes "guards step pkt p es False"
  shows "guards step pkt p (es @ fs) False"
  using assms by (fastforce simp: guards_def)

lemma guards_cong: "guards step pkt p es b \<Longrightarrow> b = c \<Longrightarrow> guards step pkt p es c"
  by simp

lemma slice_length: "slice off n bs = ks \<Longrightarrow> length ks = n \<Longrightarrow> 0 < n \<Longrightarrow> off + n \<le> length bs"
  by (auto simp: slice_def)

lemma and_mask_eq_iff:
  "x AND NOT (mask n) = a AND NOT (mask n) \<longleftrightarrow> drop_bit n x = drop_bit n (a :: 'a::len word)"
proof -
  have "x AND NOT (mask n) = a AND NOT (mask n) \<longleftrightarrow> (x XOR a) AND NOT (mask n) = 0"
    by (auto simp: bit_eq_iff bit_simps)
  then show ?thesis by (simp add: and_netmask_0)
qed

context nft_machine
begin

lemma guards_meta:
  assumes "length data = length (meta_bytes order key p)" "length data \<le> 16"
  shows "guards step pkt p [Meta key False 1, Cmp CmpOpEq 1 data] (meta_bytes order key p = data)"
proof (rule guardsI)
  fix m
  assume "pkt m = p"
  with assms show "\<exists>m'. pkt m' = p \<and> (\<forall>rest. run_rule step ([Meta key False 1, Cmp CmpOpEq 1 data] @ rest) m =
      (if meta_bytes order key p = data then run_rule step rest m' else Break m'))"
    by (intro exI [of _ "load 1 (meta_bytes order key p) m"]) (simp add: step_meta step_cmp fetch_load pkt_load)
qed

lemma guards_payload:
  assumes "length data = n" "0 < n" "n \<le> 16"
  shows "guards step pkt p [Payload 1 base offset n, Cmp CmpOpEq 1 data] (slice offset n (header_bytes base p) = data)"
proof (rule guardsI)
  fix m
  assume pm: "pkt m = p"
  let ?bs = "slice offset n (header_bytes base p)"
  show "\<exists>m'. pkt m' = p \<and> (\<forall>rest. run_rule step ([Payload 1 base offset n, Cmp CmpOpEq 1 data] @ rest) m =
      (if ?bs = data then run_rule step rest m' else Break m'))"
  proof (cases "offset + n \<le> length (header_bytes base p)")
    case True
    then have "length ?bs = n" by (simp add: slice_def)
    with True pm assms show ?thesis
      by (intro exI [of _ "load 1 ?bs m"]) (simp add: step_payload step_cmp fetch_load pkt_load)
  next
    case False
    with slice_length [of offset n "header_bytes base p" data] assms pm show ?thesis
      by (intro exI [of _ m]) (auto simp: step_payload)
  qed
qed

lemma guards_masked:
  assumes "length data = n" "length ands = n" "0 < n" "n \<le> 16"
    and key: "slice offset n (header_bytes base p) = key" "length key = n"
  shows "guards step pkt p
    [Payload 1 base offset n, Bitwise 1 1 n ands (replicate n 0), Cmp CmpOpEq 1 data] (map2 (AND) key ands = data)"
proof (rule guardsI)
  fix m
  assume pm: "pkt m = p"
  have range: "offset + n \<le> length (header_bytes base p)"
    using slice_length [OF key] assms(3) .
  show "\<exists>m'. pkt m' = p \<and> (\<forall>rest. run_rule step
      ([Payload 1 base offset n, Bitwise 1 1 n ands (replicate n 0), Cmp CmpOpEq 1 data] @ rest) m =
      (if map2 (AND) key ands = data then run_rule step rest m' else Break m'))"
    using assms range pm
    by (intro exI [of _ "load 1 (map2 (AND) key ands) (load 1 key m)"])
      (simp add: step_payload step_cmp step_bitwise fetch_load pkt_load map2_xor_zero)
qed

lemma guards_lookup:
  assumes "slice offset n (header_bytes base p) = key" "length key = n" "0 < n" "n \<le> 16"
    and "\<And>k. k \<in> set (members name) \<Longrightarrow> length k = n"
  shows "guards step pkt p [Payload 1 base offset n, Lookup 1 name i] (key \<in> set (members name))"
proof (rule guardsI)
  fix m
  assume pm: "pkt m = p"
  have range: "offset + n \<le> length (header_bytes base p)"
    using slice_length [OF assms(1,2)] assms(3) .
  have "list_ex (\<lambda>k. fetch 1 (length k) (load 1 key m) = k) (members name) \<longleftrightarrow> key \<in> set (members name)"
    using assms(2,4,5) by (auto simp: list_ex_iff fetch_load)
  with assms range pm show "\<exists>m'. pkt m' = p \<and> (\<forall>rest. run_rule step ([Payload 1 base offset n, Lookup 1 name i] @ rest) m =
      (if key \<in> set (members name) then run_rule step rest m' else Break m'))"
    by (intro exI [of _ "load 1 key m"]) (simp add: step_payload step_lookup pkt_load)
qed

lemma guards_prefix4:
  assumes "b \<le> 32" "slice offset 4 (pk_network p) = be_bytes 4 x"
  shows "guards step pkt p
    [Payload 1 PayloadBaseNetworkHeader offset 4, Bitwise 1 1 4 (be_bytes 4 (netmask4 b)) (replicate 4 0),
     Cmp CmpOpEq 1 (be_bytes 4 (a AND netmask4 b))] (prefix_Contains (Prefix (Addr4 a) (Suc b)) (Addr4 x))"
proof (rule guards_cong)
  show "guards step pkt p
    [Payload 1 PayloadBaseNetworkHeader offset 4, Bitwise 1 1 4 (be_bytes 4 (netmask4 b)) (replicate 4 0),
     Cmp CmpOpEq 1 (be_bytes 4 (a AND netmask4 b))]
    (map2 (AND) (be_bytes 4 x) (be_bytes 4 (netmask4 b)) = be_bytes 4 (a AND netmask4 b))"
    using assms by (intro guards_masked) simp_all
qed (simp add: be_bytes_and be_bytes_inj netmask4_def and_mask_eq_iff)

lemma guards_prefix6:
  assumes "b \<le> 128" "slice offset 16 (pk_network p) = be_bytes 16 x"
  shows "guards step pkt p
    [Payload 1 PayloadBaseNetworkHeader offset 16, Bitwise 1 1 16 (be_bytes 16 (netmask6 b)) (replicate 16 0),
     Cmp CmpOpEq 1 (be_bytes 16 (a AND netmask6 b))] (prefix_Contains (Prefix (Addr6 a []) (Suc b)) (Addr6 x []))"
proof (rule guards_cong)
  show "guards step pkt p
    [Payload 1 PayloadBaseNetworkHeader offset 16, Bitwise 1 1 16 (be_bytes 16 (netmask6 b)) (replicate 16 0),
     Cmp CmpOpEq 1 (be_bytes 16 (a AND netmask6 b))]
    (map2 (AND) (be_bytes 16 x) (be_bytes 16 (netmask6 b)) = be_bytes 16 (a AND netmask6 b))"
    using assms by (intro guards_masked) simp_all
qed (simp add: be_bytes_and be_bytes_inj netmask6_def and_mask_eq_iff)

lemma guards_nfproto: "guards step pkt p [Meta MetaKeyNFPROTO False 1, Cmp CmpOpEq 1 [x]] (pk_nfproto p = x)"
  using guards_meta [of "[x]" MetaKeyNFPROTO p] by simp

lemma guards_l4proto: "guards step pkt p [Meta MetaKeyL4PROTO False 1, Cmp CmpOpEq 1 [x]] (pk_l4proto p = x)"
  using guards_meta [of "[x]" MetaKeyL4PROTO p] by simp

lemma guards_prefix_source:
  assumes "prefix_ok pfx" "prefix_IsValid pfx" "carries p src dst"
  shows "guards step pkt p (butlast (prefixVerdictExpressions pfx source v)) (prefix_Contains pfx (if source then src else dst))"
  using assms(1,2)
proof (cases rule: prefix_cases_valid)
  case (v4 a b)
  let ?off = "if source then 12 else 16 :: nat"
  have es: "butlast (prefixVerdictExpressions pfx source v) =
     [Meta MetaKeyNFPROTO False 1, Cmp CmpOpEq 1 [nfprotoIPv4]] @
     [Payload 1 PayloadBaseNetworkHeader ?off 4, Bitwise 1 1 4 (be_bytes 4 (netmask4 b)) (replicate 4 0),
      Cmp CmpOpEq 1 (be_bytes 4 (a AND netmask4 b))]"
    using v4 by (simp add: prefixVerdictExpressions_def Let_def prefix_Masked4 CIDRMask_def prefix_Bits_def)
  show ?thesis
  proof (cases "pk_nfproto p = 2")
    case True
    with assms(3) obtain s d where sd: "src = Addr4 s" "dst = Addr4 d"
      "slice 12 4 (pk_network p) = be_bytes 4 s" "slice 16 4 (pk_network p) = be_bytes 4 d"
      by (cases "(p, src, dst)" rule: carries.cases) auto
    have "guards step pkt p (butlast (prefixVerdictExpressions pfx source v))
        (pk_nfproto p = nfprotoIPv4 \<and> prefix_Contains pfx (if source then src else dst))"
      unfolding es using guards_append [OF guards_nfproto guards_prefix4 [of b ?off p "if source then s else d" a]] v4 sd
      by (cases source) simp_all
    with True show ?thesis by (simp add: nfprotoIPv4_def)
  next
    case False
    with assms(3) v4 have "\<not> prefix_Contains pfx (if source then src else dst)"
      by (cases "(p, src, dst)" rule: carries.cases) auto
    with guards_false [OF guards_cong [OF guards_nfproto [of p nfprotoIPv4], of False]] False show ?thesis
      unfolding es by (simp add: nfprotoIPv4_def)
  qed
next
  case (v6 a b)
  let ?off = "if source then 8 else 24 :: nat"
  have es: "butlast (prefixVerdictExpressions pfx source v) =
     [Meta MetaKeyNFPROTO False 1, Cmp CmpOpEq 1 [nfprotoIPv6]] @
     [Payload 1 PayloadBaseNetworkHeader ?off 16, Bitwise 1 1 16 (be_bytes 16 (netmask6 b)) (replicate 16 0),
      Cmp CmpOpEq 1 (be_bytes 16 (a AND netmask6 b))]"
    using v6 by (simp add: prefixVerdictExpressions_def Let_def prefix_Masked6 CIDRMask_def prefix_Bits_def)
  show ?thesis
  proof (cases "pk_nfproto p = 10")
    case True
    with assms(3) obtain s d where sd: "src = Addr6 s []" "dst = Addr6 d []"
      "slice 8 16 (pk_network p) = be_bytes 16 s" "slice 24 16 (pk_network p) = be_bytes 16 d"
      by (cases "(p, src, dst)" rule: carries.cases) auto
    have "guards step pkt p (butlast (prefixVerdictExpressions pfx source v))
        (pk_nfproto p = nfprotoIPv6 \<and> prefix_Contains pfx (if source then src else dst))"
      unfolding es using guards_append [OF guards_nfproto guards_prefix6 [of b ?off p "if source then s else d" a]] v6 sd
      by (cases source) simp_all
    with True show ?thesis by (simp add: nfprotoIPv6_def)
  next
    case False
    with assms(3) v6 have "\<not> prefix_Contains pfx (if source then src else dst)"
      by (cases "(p, src, dst)" rule: carries.cases) auto
    with guards_false [OF guards_cong [OF guards_nfproto [of p nfprotoIPv6], of False]] False show ?thesis
      unfolding es by (simp add: nfprotoIPv6_def)
  qed
qed

lemma decides_guarded:
  assumes "guards step pkt p es b" "e = Verdict v \<or> e = Masq" "rs_expressions r = es @ [e]"
  shows "decides step pkt p e r b"
  unfolding decides_def
proof (intro allI impI)
  fix m
  assume "pkt m = p"
  with assms(1) obtain m' where "pkt m' = p"
    "run_rule step (es @ [e]) m = (if b then run_rule step [e] m' else Break m')"
    unfolding guards_def by blast
  moreover have "step e m' = Issue e m'"
    using assms(2) by (auto simp: step_verdict step_masq)
  ultimately show "\<exists>m'. pkt m' = p \<and> run_rule step (rs_expressions r) m = (if b then Issue e m' else Break m')"
    using assms(3) by auto
qed

lemma decides_prefix:
  assumes "prefix_ok pfx" "prefix_IsValid pfx" "carries p src dst"
  shows "decides step pkt p (Verdict v) (rule_of (prefixVerdictExpressions pfx source v))
    (prefix_Contains pfx (if source then src else dst))"
proof (rule decides_guarded [OF guards_prefix_source [OF assms]])
  show "rs_expressions (rule_of (prefixVerdictExpressions pfx source v)) = butlast (prefixVerdictExpressions pfx source v) @ [Verdict v]"
    by (simp add: prefixVerdictExpressions_def rule_of_def Let_def)
qed simp

lemma run_gate:
  assumes "policy_Validate policy = []" "carries (pkt m) src dst"
  shows "\<exists>m'. pkt m' = pkt m \<and> run_chain step (gate_rules policy) m =
    (if pf_GateClosed policy \<and> (\<exists>a \<in> {src, dst}. prefix_Contains (pf_TailnetIPv4Prefix policy) a \<or>
         prefix_Contains (pf_TailnetIPv6Prefix policy) a) then Dropped else Accepted, m')"
proof (cases "pf_GateClosed policy")
  case True
  let ?p4 = "pf_TailnetIPv4Prefix policy" and ?p6 = "pf_TailnetIPv6Prefix policy"
  have ok: "prefix_ok ?p4" "prefix_IsValid ?p4" "prefix_ok ?p6" "prefix_IsValid ?p6"
    using policy_prefixes [OF assms(1)] by (auto simp: validMaskedPrefix_ok) (simp_all add: validMaskedPrefix_def)
  note d = decides_prefix [OF _ _ assms(2), of _ VerdictDrop]
  have "list_all2 (decides step pkt (pkt m) (Verdict VerdictDrop)) (gate_rules policy)
      [prefix_Contains ?p4 src, prefix_Contains ?p4 dst, prefix_Contains ?p6 src, prefix_Contains ?p6 dst]"
    using d [OF ok(1,2), of True] d [OF ok(1,2), of False] d [OF ok(3,4), of True] d [OF ok(3,4), of False] True
    by (simp add: gate_rules_def)
  from run_chain_decides [OF this refl] True show ?thesis by auto
next
  case False
  then show ?thesis by (auto simp: gate_rules_def)
qed

lemma guards_port: "guards step pkt p
    [Payload 1 PayloadBaseTransportHeader 2 2, Cmp CmpOpEq 1 (be_bytes 2 port)] (slice 2 2 (pk_transport p) = be_bytes 2 port)"
  using guards_payload [of "be_bytes 2 port" 2 p PayloadBaseTransportHeader 2] by simp

lemma guards_destined: "guards step pkt p
    ([Meta MetaKeyL4PROTO False 1, Cmp CmpOpEq 1 [protocol]] @
     [Payload 1 PayloadBaseTransportHeader 2 2, Cmp CmpOpEq 1 (be_bytes 2 port)]) (destined p protocol port)"
  using guards_append [OF guards_l4proto guards_port] by (simp add: destined_def)

lemma marks_guarded:
  assumes "\<And>k. guards step pkt (p\<lparr>pk_mark := k\<rparr>) es b"
    and "rs_expressions r = es @ [Meta MetaKeyMARK False 1,
          Bitwise 1 1 4 (NativeEndian_PutUint32 order x) (NativeEndian_PutUint32 order y), Meta MetaKeyMARK True 1]"
  shows "marks_packet step pkt p (\<lambda>k. (k AND x) XOR y) r b"
  unfolding marks_packet_def
proof (intro allI impI)
  fix m k
  assume pm: "pkt m = p\<lparr>pk_mark := k\<rparr>"
  let ?tail = "[Meta MetaKeyMARK False 1,
          Bitwise 1 1 4 (NativeEndian_PutUint32 order x) (NativeEndian_PutUint32 order y), Meta MetaKeyMARK True 1]"
  from assms(1) [of k] pm obtain m' where m': "pkt m' = p\<lparr>pk_mark := k\<rparr>"
    "run_rule step (es @ ?tail) m = (if b then run_rule step ?tail m' else Break m')"
    unfolding guards_def by blast
  let ?m1 = "load 1 (NativeEndian_PutUint32 order k) m'"
  let ?m2 = "load 1 (NativeEndian_PutUint32 order ((k AND x) XOR y)) ?m1"
  have "fetch 1 4 ?m2 = NativeEndian_PutUint32 order ((k AND x) XOR y)"
    by (simp add: fetch_load)
  then have tail: "run_rule step ?tail m' = Continue (remark ((k AND x) XOR y) ?m2)"
    using m'(1) by (simp add: step_meta step_bitwise fetch_load PutUint32_merge step_mark)
  show "\<exists>m'. pkt m' = p\<lparr>pk_mark := if b then (k AND x) XOR y else k\<rparr> \<and>
      run_rule step (rs_expressions r) m = (if b then Continue m' else Break m')"
    using m' tail assms(2)
    by (cases b) (auto intro!: exI [of _ "remark ((k AND x) XOR y) ?m2"] exI [of _ m'] simp: pkt_remark pkt_load)
qed

lemma carries_remark [simp]: "carries (p\<lparr>pk_mark := k\<rparr>) src dst = carries p src dst"
  by (cases "(p, src, dst)" rule: carries.cases) auto

lemma destined_remark [simp]: "destined (p\<lparr>pk_mark := k\<rparr>) protocol port = destined p protocol port"
  by (simp add: destined_def)

lemma carries_dest:
  assumes "carries p src dst"
  shows "pk_nfproto p = (if addr_Is6 dst then nfprotoIPv6 else nfprotoIPv4)"
    and "slice (if addr_Is6 dst then 24 else 16) (length (addr_AsSlice dst)) (pk_network p) = addr_AsSlice dst"
    and "length (addr_AsSlice dst) = (if addr_Is6 dst then 16 else 4)"
  using assms by (cases "(p, src, dst)" rule: carries.cases; simp add: nfprotoIPv4_def nfprotoIPv6_def)+

lemma marks_egress:
  assumes "carries p src dst" "addr_IsValid address"
    and keys: "\<And>k. k \<in> set (members (set_Name nset)) \<Longrightarrow> length k = length (addr_AsSlice address)"
  shows "marks_packet step pkt p (\<lambda>k. (k AND NOT LocalEgressPacketMarkMask) XOR mark)
      (rule_of (localEgressExpressions order address nset protocol port mark))
      (addr_Is6 address = addr_Is6 dst \<and> addr_AsSlice dst \<in> set (members (set_Name nset)) \<and>
       destined p (protocolNumber protocol) port)"
proof (rule marks_guarded)
  fix k
  let ?p = "p\<lparr>pk_mark := k\<rparr>"
  let ?nf = "if addr_Is6 address then nfprotoIPv6 else nfprotoIPv4"
  let ?off = "if addr_Is6 address then 24 else 16 :: nat"
  let ?n = "length (addr_AsSlice address)"
  let ?A = "[Meta MetaKeyNFPROTO False 1, Cmp CmpOpEq 1 [?nf]]"
  let ?B = "[Payload 1 PayloadBaseNetworkHeader ?off ?n, Lookup 1 (set_Name nset) (set_ID nset)]"
  let ?C = "[Meta MetaKeyL4PROTO False 1, Cmp CmpOpEq 1 [protocolNumber protocol]] @
     [Payload 1 PayloadBaseTransportHeader 2 2, Cmp CmpOpEq 1 (be_bytes 2 port)]"
  have nf: "pk_nfproto ?p = ?nf \<longleftrightarrow> addr_Is6 address = addr_Is6 dst"
    using carries_dest(1) [OF assms(1)] by (auto simp: nfprotoIPv4_def nfprotoIPv6_def)
  have "guards step pkt ?p (?A @ ?B) (addr_Is6 address = addr_Is6 dst \<and> addr_AsSlice dst \<in> set (members (set_Name nset)))"
  proof (cases "addr_Is6 address = addr_Is6 dst")
    case True
    have "?n = length (addr_AsSlice dst)"
      using True assms(1,2) carries_dest(3) [OF assms(1)] by (cases address) auto
    then have "guards step pkt ?p ?B (addr_AsSlice dst \<in> set (members (set_Name nset)))"
      using carries_dest(2,3) [OF assms(1)] True keys by (intro guards_lookup) (auto split: if_splits)
    from guards_append [OF guards_nfproto this, of ?nf] show ?thesis
      by (rule guards_cong) (use nf in blast)
  next
    case False
    with nf have no: "(pk_nfproto ?p = ?nf) = False" by blast
    from guards_false [OF guards_cong [OF guards_nfproto no], of ?B] show ?thesis
      by (rule guards_cong) (use False in blast)
  qed
  from guards_append [OF this guards_destined, of "protocolNumber protocol" port]
  show "guards step pkt ?p ((?A @ ?B) @ ?C) (addr_Is6 address = addr_Is6 dst \<and>
      addr_AsSlice dst \<in> set (members (set_Name nset)) \<and> destined p (protocolNumber protocol) port)"
    by (rule guards_cong) auto
qed (simp add: rule_of_def localEgressExpressions_def Let_def)

end

section \<open>The forward guard\<close>

lemma filterRuleSpecs_forward:
  assumes "filterRuleSpecs order policy sets = Inr rules"
  shows "policy_Validate policy = []"
    and "rules (pf_ForwardGuardChain policy) =
      Some (number_rules ''filter'' (pf_ForwardGuardChain policy) (FilterRevision policy) (gate_rules policy))"
proof -
  show valid: "policy_Validate policy = []"
    using assms by (auto simp: filterRuleSpecs_def split: if_splits)
  then have "pf_ForwardGuardChain policy \<noteq> pf_LocalEgressChain policy"
    by (auto simp: policy_Validate_def Let_def scan_seen_Nil_iff policy_identifiers_def List.map_filter_def)
  with assms valid show "rules (pf_ForwardGuardChain policy) =
      Some (number_rules ''filter'' (pf_ForwardGuardChain policy) (FilterRevision policy) (gate_rules policy))"
    by (auto simp: filterRuleSpecs_def Let_def split: sum.splits if_splits)
qed

text \<open>
  C8: the rules built for a policy make the forward chain drop exactly the packets whose source or destination lies in
  a Tailnet prefix while the gate is closed, and no packet while it is open, on every machine that evaluates the
  expressions as documented.
\<close>

theorem forward_guard_exact:
  assumes "nft_machine order members step load fetch pkt remark"
    and "filterRuleSpecs order policy sets = Inr rules"
    and "carries (pkt m) src dst"
  shows "fst (run_chain step (the (rules (pf_ForwardGuardChain policy))) m) =
    (if pf_GateClosed policy \<and> (\<exists>a \<in> {src, dst}. prefix_Contains (pf_TailnetIPv4Prefix policy) a \<or>
         prefix_Contains (pf_TailnetIPv6Prefix policy) a) then Dropped else Accepted)"
  using nft_machine.run_gate [OF assms(1) filterRuleSpecs_forward(1) [OF assms(2)] assms(3)]
    filterRuleSpecs_forward(2) [OF assms(2)] by auto

section \<open>The local-egress chain\<close>

lemma filterRuleSpecs_local:
  assumes "filterRuleSpecs order policy sets = Inr rules"
  obtains specs where
    "(if le_Enabled (pf_LocalEgress policy)
      then egress_rules order (pf_LocalEgress policy) sets
        [(le_IPv4 (pf_LocalEgress policy), pf_LocalEgressIPv4Set policy), (le_IPv6 (pf_LocalEgress policy), pf_LocalEgressIPv6Set policy)]
      else Inr []) = Inr specs"
    "rules (pf_LocalEgressChain policy) =
      Some (number_rules ''filter'' (pf_LocalEgressChain policy) (FilterRevision policy) specs)"
proof -
  have valid: "policy_Validate policy = []"
    using filterRuleSpecs_forward(1) [OF assms] .
  then have "pf_ForwardGuardChain policy \<noteq> pf_LocalEgressChain policy"
    by (auto simp: policy_Validate_def Let_def scan_seen_Nil_iff policy_identifiers_def List.map_filter_def)
  with assms valid that show thesis
    by (auto simp: filterRuleSpecs_def Let_def split: sum.splits if_splits)
qed

text \<open>The rules of one family: a rule for each sorted protocol and port.\<close>

definition family_rules :: "byte_order \<Rightarrow> local_egress_policy \<Rightarrow> addr list \<Rightarrow> nft_set \<Rightarrow> rule_spec list" where
  "family_rules order local addresses nset =
     map (\<lambda>(protocol, port). rule_of (localEgressExpressions order (hd addresses) nset protocol port (le_Mark local)))
       (List.product (sort (le_Protocols local)) (sort (le_Ports local)))"

lemma egress_rules_Cons:
  "egress_rules order local sets ((addresses, name) # families) =
     (if addresses = [] then egress_rules order local sets families
      else case sets name of None \<Rightarrow> Inl (SetUnavailable name)
        | Some nset \<Rightarrow> map_sum id ((@) (family_rules order local addresses nset)) (egress_rules order local sets families))"
proof -
  have "concat (map (\<lambda>x. map (\<lambda>y. f x y) ys) xs) = map (\<lambda>(x, y). f x y) (List.product xs ys)" for f xs ys
    by (induction xs) simp_all
  then show ?thesis
    by (auto simp: family_rules_def split: option.splits sum.splits)
qed

lemma set_addressSetElements: "se_Key ` set (addressSetElements addresses) = addr_AsSlice ` set addresses"
  by (simp add: addressSetElements_def key_element_def image_image addr_cmp.set_sort_func)

context nft_machine
begin

lemma family_marks:
  assumes packet: "carries p src dst" and nonempty: "addresses \<noteq> []"
    and family: "\<And>a. a \<in> set addresses \<Longrightarrow> addr_IsValid a \<and> addr_Zone a = [] \<and> addr_Is6 a = six"
    and filled: "set (members (set_Name nset)) = addr_AsSlice ` set addresses"
  shows "list_all2 (marks_packet step pkt p (\<lambda>k. (k AND NOT LocalEgressPacketMarkMask) XOR le_Mark local))
      (family_rules order local addresses nset)
      (map (\<lambda>(protocol, port). dst \<in> set addresses \<and> destined p (protocolNumber protocol) port)
        (List.product (sort (le_Protocols local)) (sort (le_Ports local))))"
proof -
  let ?a = "hd addresses"
  have hd: "addr_IsValid ?a" "addr_Is6 ?a = six"
    using family [of ?a] nonempty by simp_all
  have dst: "addr_IsValid dst" "addr_Zone dst = []"
    using packet by (cases "(p, src, dst)" rule: carries.cases; simp)+
  have len: "length (addr_AsSlice a) = length (addr_AsSlice ?a)" if "a \<in> set addresses" for a
    using family [OF that] hd by (cases a; cases "hd addresses") auto
  have member: "addr_Is6 ?a = addr_Is6 dst \<and> addr_AsSlice dst \<in> set (members (set_Name nset)) \<longleftrightarrow> dst \<in> set addresses"
    using filled family hd(2) dst addr_AsSlice_inj by (auto simp: image_iff)
  have "marks_packet step pkt p (\<lambda>k. (k AND NOT LocalEgressPacketMarkMask) XOR le_Mark local)
      (rule_of (localEgressExpressions order ?a nset protocol port (le_Mark local)))
      (dst \<in> set addresses \<and> destined p (protocolNumber protocol) port)" for protocol port
    using marks_egress [OF packet hd(1), of nset "le_Mark local" protocol port] filled len
    unfolding conj_assoc [symmetric] member by auto
  then show ?thesis
    by (auto simp: family_rules_def list_all2_conv_all_nth split: prod.splits)
qed

lemma egress_marks:
  assumes packet: "carries p src dst"
    and named: "\<And>name nset. sets name = Some nset \<Longrightarrow> set_Name nset = name"
    and "egress_rules order local sets families = Inr specs"
    and "\<And>addresses name. (addresses, name) \<in> set families \<Longrightarrow> addresses \<noteq> [] \<Longrightarrow>
           set (members name) = addr_AsSlice ` set addresses \<and>
           (\<exists>six. \<forall>a \<in> set addresses. addr_IsValid a \<and> addr_Zone a = [] \<and> addr_Is6 a = six)"
  shows "\<exists>bs. list_all2 (marks_packet step pkt p (\<lambda>k. (k AND NOT LocalEgressPacketMarkMask) XOR le_Mark local)) specs bs \<and>
    (True \<in> set bs \<longleftrightarrow> (\<exists>family \<in> set families. dst \<in> set (fst family)) \<and>
       (\<exists>protocol \<in> set (le_Protocols local). \<exists>port \<in> set (le_Ports local). destined p (protocolNumber protocol) port))"
  using assms(3,4)
proof (induction families arbitrary: specs)
  case (Cons family families)
  obtain addresses name where fam: "family = (addresses, name)" by (cases family)
  show ?case
  proof (cases "addresses = []")
    case True
    with Cons.prems(1) fam have "egress_rules order local sets families = Inr specs"
      by simp
    from Cons.IH [OF this Cons.prems(2)] True fam show ?thesis by (auto simp del: egress_rules.simps)
  next
    case False
    with Cons.prems(1) fam obtain nset rest where nset: "sets name = Some nset"
      and rest: "egress_rules order local sets families = Inr rest" and specs: "specs = family_rules order local addresses nset @ rest"
      by (cases "egress_rules order local sets families")
        (auto simp: egress_rules_Cons simp del: egress_rules.simps split: option.splits)
    from Cons.IH [OF rest Cons.prems(2)] obtain bs where bs:
      "list_all2 (marks_packet step pkt p (\<lambda>k. (k AND NOT LocalEgressPacketMarkMask) XOR le_Mark local)) rest bs"
      "True \<in> set bs \<longleftrightarrow> (\<exists>family \<in> set families. dst \<in> set (fst family)) \<and>
         (\<exists>protocol \<in> set (le_Protocols local). \<exists>port \<in> set (le_Ports local). destined p (protocolNumber protocol) port)"
      by auto
    let ?cs = "map (\<lambda>(protocol, port). dst \<in> set addresses \<and> destined p (protocolNumber protocol) port)
        (List.product (sort (le_Protocols local)) (sort (le_Ports local)))"
    from Cons.prems(2) [of addresses name] fam False named [OF nset] obtain six where
      "set (members (set_Name nset)) = addr_AsSlice ` set addresses"
      "\<And>a. a \<in> set addresses \<Longrightarrow> addr_IsValid a \<and> addr_Zone a = [] \<and> addr_Is6 a = six"
      by auto
    from family_marks [OF packet False this(2,1), of local] bs(1) specs
    have "list_all2 (marks_packet step pkt p (\<lambda>k. (k AND NOT LocalEgressPacketMarkMask) XOR le_Mark local)) specs (?cs @ bs)"
      by (simp add: list_all2_appendI)
    moreover have "True \<in> set ?cs \<longleftrightarrow> dst \<in> set addresses \<and>
       (\<exists>protocol \<in> set (le_Protocols local). \<exists>port \<in> set (le_Ports local). destined p (protocolNumber protocol) port)"
      by (auto simp: image_iff)
    ultimately show ?thesis
      using bs(2) fam by (intro exI [of _ "?cs @ bs"]) auto
  qed
qed simp

end

lemma policy_egress_family:
  assumes "policy_Validate policy = []"
  shows "a \<in> set (le_IPv4 (pf_LocalEgress policy)) \<Longrightarrow> addr_IsValid a \<and> (addr_Is4 a \<longrightarrow> addr_Zone a = [])"
    and "a \<in> set (le_IPv6 (pf_LocalEgress policy)) \<Longrightarrow> addr_IsValid a \<and> addr_Zone a = [] \<and> addr_Is6 a"
  using assms
  by (cases a; fastforce simp: policy_Validate_def Let_def validateAddressFamilyList_Nil_iff family_address_ok_def
        FamilyOfAddress_def IPv4_def IPv6_def split: if_splits)+

lemma mark_merge:
  fixes k m :: "32 word"
  assumes "m AND NOT M = 0"
  shows "(k AND NOT M) XOR m = (k AND NOT M) OR m" "(((k AND NOT M) XOR m) AND NOT M) XOR m = (k AND NOT M) XOR m"
proof -
  have bits: "bit m i \<Longrightarrow> bit M i" if "i < 32" for i
    using assms that by (auto simp: bit_eq_iff bit_simps)
  show "(k AND NOT M) XOR m = (k AND NOT M) OR m"
    using bits by (auto simp: bit_eq_iff bit_simps)
  show "(((k AND NOT M) XOR m) AND NOT M) XOR m = (k AND NOT M) XOR m"
    using bits by (auto simp: bit_eq_iff bit_simps)
qed

lemma filterSetSpecs_family:
  assumes "(addresses, name) \<in> set [(le_IPv4 (pf_LocalEgress policy), pf_LocalEgressIPv4Set policy),
      (le_IPv6 (pf_LocalEgress policy), pf_LocalEgressIPv6Set policy)]" "addresses \<noteq> []" "le_Enabled (pf_LocalEgress policy)"
  shows "\<exists>spec \<in> set (filterSetSpecs policy). ss_name spec = name \<and> ss_elements spec = addressSetElements addresses"
proof -
  have "\<exists>spec \<in> set (family_set_spec policy addresses name keyType). ss_name spec = name \<and> ss_elements spec = addressSetElements addresses"
    for keyType using assms(2) by (simp add: family_set_spec_def)
  with assms(1,3) show ?thesis
    unfolding filterSetSpecs_def by (auto simp only: if_False not_True_eq_False set_append list.set simp_thms prod.inject Un_iff)
qed

text \<open>
  C11: the local-egress chain lets every packet continue, and rewrites the mark of exactly the packets to a listed address
  with a listed protocol and port: the bits of the mark mask become the policy's mark, all other bits are kept. The sets
  hold the elements of \<^verbatim>\<open>filterSetSpecs\<close>, and the IPv4 list holds no IPv4-mapped IPv6 address.
\<close>

theorem local_egress_exact:
  assumes machine: "nft_machine order members step load fetch pkt remark"
    and rules: "filterRuleSpecs order policy sets = Inr rules"
    and named: "\<And>name nset. sets name = Some nset \<Longrightarrow> set_Name nset = name"
    and filled: "\<And>spec. spec \<in> set (filterSetSpecs policy) \<Longrightarrow> members (ss_name spec) = map se_Key (ss_elements spec)"
    and plain: "list_all addr_Is4 (le_IPv4 (pf_LocalEgress policy))"
    and packet: "carries (pkt m) src dst"
  shows "\<exists>m'. run_chain step (the (rules (pf_LocalEgressChain policy))) m = (Accepted, m') \<and>
    pkt m' = (pkt m)\<lparr>pk_mark :=
      if le_Enabled (pf_LocalEgress policy) \<and>
         dst \<in> set (le_IPv4 (pf_LocalEgress policy)) \<union> set (le_IPv6 (pf_LocalEgress policy)) \<and>
         (\<exists>protocol \<in> set (le_Protocols (pf_LocalEgress policy)). \<exists>port \<in> set (le_Ports (pf_LocalEgress policy)).
            destined (pkt m) (protocolNumber protocol) port)
      then (pk_mark (pkt m) AND NOT LocalEgressPacketMarkMask) OR le_Mark (pf_LocalEgress policy)
      else pk_mark (pkt m)\<rparr>"
proof -
  let ?local = "pf_LocalEgress policy"
  have valid: "policy_Validate policy = []" using filterRuleSpecs_forward(1) [OF rules] .
  obtain specs where specs:
    "(if le_Enabled ?local then egress_rules order ?local sets
        [(le_IPv4 ?local, pf_LocalEgressIPv4Set policy), (le_IPv6 ?local, pf_LocalEgressIPv6Set policy)] else Inr []) = Inr specs"
    "rules (pf_LocalEgressChain policy) = Some (number_rules ''filter'' (pf_LocalEgressChain policy) (FilterRevision policy) specs)"
    using filterRuleSpecs_local [OF rules] .
  show ?thesis
  proof (cases "le_Enabled ?local")
    case True
    let ?families = "[(le_IPv4 ?local, pf_LocalEgressIPv4Set policy), (le_IPv6 ?local, pf_LocalEgressIPv6Set policy)]"
    have mask: "le_Mark ?local AND NOT LocalEgressPacketMarkMask = 0"
      using valid True by (auto simp: policy_Validate_def Let_def local_egress_shape_def)
    have family: "set (members name) = addr_AsSlice ` set addresses \<and>
           (\<exists>six. \<forall>a \<in> set addresses. addr_IsValid a \<and> addr_Zone a = [] \<and> addr_Is6 a = six)"
      if "(addresses, name) \<in> set ?families" "addresses \<noteq> []" for addresses name
    proof -
      from that True obtain spec where "spec \<in> set (filterSetSpecs policy)" "ss_name spec = name"
        "ss_elements spec = addressSetElements addresses"
        using filterSetSpecs_family by blast
      with filled have "set (members name) = addr_AsSlice ` set addresses"
        by (metis list.set_map set_addressSetElements)
      moreover have "\<exists>six. \<forall>a \<in> set addresses. addr_IsValid a \<and> addr_Zone a = [] \<and> addr_Is6 a = six"
      proof (cases "addresses = le_IPv4 ?local")
        case True
        have "addr_IsValid a \<and> addr_Zone a = [] \<and> addr_Is6 a = False" if "a \<in> set addresses" for a
        proof -
          from that True plain have "addr_Is4 a" by (simp add: list_all_iff)
          with that True policy_egress_family(1) [OF valid, of a] show ?thesis
            by (auto elim: addr_Is4.elims)
        qed
        then show ?thesis by blast
      next
        case False
        with that(1) have "addresses = le_IPv6 ?local" by simp
        then show ?thesis using policy_egress_family(2) [OF valid] by blast
      qed
      ultimately show ?thesis ..
    qed
    from specs(1) True have egress: "egress_rules order ?local sets ?families = Inr specs" by simp
    from nft_machine.egress_marks [OF machine packet named egress family] obtain bs where
      bs: "list_all2 (marks_packet step pkt (pkt m) (\<lambda>k. (k AND NOT LocalEgressPacketMarkMask) XOR le_Mark ?local)) specs bs"
        "True \<in> set bs \<longleftrightarrow> (\<exists>family \<in> set ?families. dst \<in> set (fst family)) \<and>
          (\<exists>protocol \<in> set (le_Protocols ?local). \<exists>port \<in> set (le_Ports ?local). destined (pkt m) (protocolNumber protocol) port)"
      by blast
    obtain m' where "pkt m' = (pkt m)\<lparr>pk_mark := if True \<in> set bs
        then (pk_mark (pkt m) AND NOT LocalEgressPacketMarkMask) XOR le_Mark ?local else pk_mark (pkt m)\<rparr>"
      "run_chain step specs m = (Accepted, m')"
      using run_chain_marks [OF bs(1) mark_merge(2) [OF mask], of m "pk_mark (pkt m)"] by auto
    moreover have "True \<in> set bs \<longleftrightarrow> le_Enabled ?local \<and> dst \<in> set (le_IPv4 ?local) \<union> set (le_IPv6 ?local) \<and>
         (\<exists>protocol \<in> set (le_Protocols ?local). \<exists>port \<in> set (le_Ports ?local). destined (pkt m) (protocolNumber protocol) port)"
      using bs(2) True by simp
    ultimately show ?thesis
      by (intro exI [of _ m'])
        (simp only: specs(2) option.sel run_chain_number mark_merge(1) [OF mask] simp_thms)
  next
    case False
    with specs show ?thesis by auto
  qed
qed

section \<open>The DNS masquerade chain\<close>

lemma char_byte_inj: "(of_char c :: 8 word) = of_char d \<longleftrightarrow> c = d"
proof
  have unat: "unat (of_char c :: 8 word) = of_char c" for c
  proof -
    have "unat (word_of_nat (of_char c) :: 8 word) = of_char c mod 2 ^ 8"
      by (simp add: unsigned_of_nat take_bit_eq_mod)
    then show ?thesis by (simp add: of_nat_of_char)
  qed
  assume "(of_char c :: 8 word) = of_char d"
  then have "(of_char c :: nat) = of_char d"
    by (metis unat)
  then show "c = d" by simp
qed simp

definition interface_name :: "string \<Rightarrow> bool" where
  "interface_name name \<longleftrightarrow> length name \<le> MaximumInterfaceNameBytes \<and> CHR 0x00 \<notin> set name"

lemma padded_name_inj:
  assumes "interface_name a" "interface_name b"
  shows "map of_char a @ replicate (16 - length a) (0 :: 8 word) = interfaceNameBytes b \<longleftrightarrow> a = b"
proof -
  have strip: "takeWhile (\<lambda>x. x \<noteq> 0) (map of_char s @ replicate n (0 :: 8 word)) = map of_char s"
    if "CHR 0x00 \<notin> set s" for s n
  proof -
    have "(of_char c :: 8 word) \<noteq> 0" if "c \<in> set s" for c
      using that \<open>CHR 0x00 \<notin> set s\<close> char_byte_inj [of c "CHR 0x00"] by auto
    then show ?thesis by (simp add: takeWhile_append takeWhile_replicate)
  qed
  have b: "interfaceNameBytes b = map of_char b @ replicate (16 - length b) 0"
    using assms(2) by (simp add: interfaceNameBytes_def interface_name_def MaximumInterfaceNameBytes_def)
  have "a = b" if "map of_char a @ replicate (16 - length a) (0 :: 8 word) = interfaceNameBytes b"
  proof -
    have "map of_char a = (map of_char b :: bytes)"
      using that strip assms unfolding b interface_name_def by metis
    then show ?thesis by (rule list.inj_map_strong [rotated]) (simp add: char_byte_inj)
  qed
  then show ?thesis using b by auto
qed

lemma link_Valid_interface_name:
  "link_Validate \<lparr>link_Index = 1, link_Name = name\<rparr> = None \<Longrightarrow> interface_name name"
  by (fastforce simp: link_Validate_def interface_name_def list_ex_iff control_byte_def split: if_splits)

lemma policy_target_names:
  assumes "policy_Validate p = []" "t \<in> set (pf_DNSTargets p)"
  shows "interface_name (dmt_OutputInterface t)"
  using assms by (intro link_Valid_interface_name) (auto simp: policy_Validate_def Let_def scan_seen_Nil_iff)

lemma carries_source:
  assumes "carries p src dst"
  shows "slice (if addr_Is6 dst then 8 else 12) (length (addr_AsSlice src)) (pk_network p) = addr_AsSlice src"
    and "addr_Is6 src = addr_Is6 dst" "addr_IsValid src" "addr_IsValid dst" "addr_Zone dst = []"
  using assms by (cases "(p, src, dst)" rule: carries.cases; simp)+

context nft_machine
begin

lemma guards_oifname:
  assumes "interface_name (pk_oifname p)" "interface_name name"
  shows "guards step pkt p [Meta MetaKeyOIFNAME False 1, Cmp CmpOpEq 1 (interfaceNameBytes name)] (pk_oifname p = name)"
proof -
  have "length (interfaceNameBytes name) = 16"
    by (simp add: interfaceNameBytes_def MaximumInterfaceNameBytes_def Let_def)
  with guards_meta [of "interfaceNameBytes name" MetaKeyOIFNAME p] padded_name_inj [OF assms] assms(1) show ?thesis
    by (simp add: interface_name_def MaximumInterfaceNameBytes_def)
qed

lemma guards_prefix_family:
  assumes "prefix_ok pfx" "prefix_IsValid pfx" "carries p src dst" "addr_Is6 (prefix_Addr pfx) = addr_Is6 dst"
  shows "guards step pkt p
    [Payload 1 PayloadBaseNetworkHeader (if addr_Is6 dst then 8 else 12) (length (addr_AsSlice (prefix_Addr (prefix_Masked pfx)))),
     Bitwise 1 1 (length (CIDRMask (prefix_Bits (prefix_Masked pfx)) (addr_BitLen (prefix_Addr (prefix_Masked pfx)))))
       (CIDRMask (prefix_Bits (prefix_Masked pfx)) (addr_BitLen (prefix_Addr (prefix_Masked pfx))))
       (replicate (length (CIDRMask (prefix_Bits (prefix_Masked pfx)) (addr_BitLen (prefix_Addr (prefix_Masked pfx))))) 0),
     Cmp CmpOpEq 1 (addr_AsSlice (prefix_Addr (prefix_Masked pfx)))] (prefix_Contains pfx src)"
  using assms(1,2)
proof (cases rule: prefix_cases_valid)
  case (v4 a b)
  with assms(3,4) obtain s where "src = Addr4 s" "\<not> addr_Is6 dst" "slice 12 4 (pk_network p) = be_bytes 4 s"
    by (cases "(p, src, dst)" rule: carries.cases) auto
  with v4 guards_prefix4 [of b 12 p s a] show ?thesis
    by (simp add: prefix_Masked4 CIDRMask_def prefix_Bits_def)
next
  case (v6 a b)
  with assms(3,4) obtain s where "src = Addr6 s []" "addr_Is6 dst" "slice 8 16 (pk_network p) = be_bytes 16 s"
    by (cases "(p, src, dst)" rule: carries.cases) auto
  with v6 guards_prefix6 [of b 8 p s a] show ?thesis
    by (simp add: prefix_Masked6 CIDRMask_def prefix_Bits_def)
qed

lemma decides_masquerade:
  assumes "prefix_ok pfx" "prefix_IsValid pfx" "carries p src dst" "addr_Is6 (prefix_Addr pfx) = addr_Is6 d"
    and d: "addr_IsValid d" "addr_Zone d = []" and names: "interface_name (pk_oifname p)" "interface_name out"
  shows "decides step pkt p Masq (rule_of (dnsMasqueradeExpressions pfx d out protocol))
    (prefix_Contains pfx src \<and> dst = d \<and> pk_oifname p = out \<and> destined p (protocolNumber protocol) 53)"
proof -
  let ?nf = "if addr_Is6 d then nfprotoIPv6 else nfprotoIPv4"
  let ?A = "[Meta MetaKeyNFPROTO False 1, Cmp CmpOpEq 1 [?nf]]"
  let ?m = "prefix_Masked pfx"
  let ?mask = "CIDRMask (prefix_Bits ?m) (addr_BitLen (prefix_Addr ?m))"
  let ?B = "[Payload 1 PayloadBaseNetworkHeader (if addr_Is6 d then 8 else 12) (length (addr_AsSlice (prefix_Addr ?m))),
     Bitwise 1 1 (length ?mask) ?mask (replicate (length ?mask) 0), Cmp CmpOpEq 1 (addr_AsSlice (prefix_Addr ?m))]"
  let ?C = "[Payload 1 PayloadBaseNetworkHeader (if addr_Is6 d then 24 else 16) (length (addr_AsSlice d)),
     Cmp CmpOpEq 1 (addr_AsSlice d)]"
  let ?D = "[Meta MetaKeyOIFNAME False 1, Cmp CmpOpEq 1 (interfaceNameBytes out)]"
  let ?E = "[Meta MetaKeyL4PROTO False 1, Cmp CmpOpEq 1 [protocolNumber protocol]] @
     [Payload 1 PayloadBaseTransportHeader 2 2, Cmp CmpOpEq 1 (be_bytes 2 (53 :: 16 word))]"
  have nf: "pk_nfproto p = ?nf \<longleftrightarrow> addr_Is6 d = addr_Is6 dst"
    using carries_dest(1) [OF assms(3)] by (auto simp: nfprotoIPv4_def nfprotoIPv6_def)
  have "guards step pkt p (?A @ (?B @ ?C)) (prefix_Contains pfx src \<and> dst = d)"
  proof (cases "addr_Is6 d = addr_Is6 dst")
    case True
    have B: "guards step pkt p ?B (prefix_Contains pfx src)"
      using guards_prefix_family [OF assms(1,2,3)] assms(4) True by simp
    have n: "length (addr_AsSlice d) = length (addr_AsSlice dst)" "0 < length (addr_AsSlice d)" "length (addr_AsSlice d) \<le> 16"
      using d(1) True carries_dest(3) [OF assms(3)] by (cases d; simp)+
    from guards_payload [OF refl n(2,3), of p PayloadBaseNetworkHeader "if addr_Is6 d then 24 else 16"]
    have "guards step pkt p ?C (addr_AsSlice dst = addr_AsSlice d)"
      using carries_dest(2) [OF assms(3)] True n(1) by simp
    then have C: "guards step pkt p ?C (dst = d)"
      using addr_AsSlice_inj [of dst d] True carries_source(4,5) [OF assms(3)] d by simp
    from guards_append [OF guards_nfproto guards_append [OF B C]] show ?thesis
      by (rule guards_cong) (use nf True in simp)
  next
    case False
    with nf have no: "(pk_nfproto p = ?nf) = False" by blast
    from guards_false [OF guards_cong [OF guards_nfproto no], of "?B @ ?C"] show ?thesis
      by (rule guards_cong) (use False in blast)
  qed
  from guards_append [OF this guards_append [OF guards_oifname [OF names] guards_destined, of "protocolNumber protocol" 53]]
  show ?thesis
    by (intro decides_guarded [OF guards_cong])
      (auto simp: rule_of_def dnsMasqueradeExpressions_def Let_def)
qed

lemma masquerade_chain:
  assumes "\<And>t protocol. t \<in> set targets \<Longrightarrow> decides step pkt p Masq (f t protocol) (c t protocol)" "pkt m = p"
  shows "fst (run_chain step (concat (map (\<lambda>t. map (f t) protocols) targets)) m) =
    (if \<exists>t \<in> set targets. \<exists>protocol \<in> set protocols. c t protocol then Masqueraded else Accepted)"
proof -
  have "list_all2 (decides step pkt p Masq) (map (f t) protocols) (map (c t) protocols)" if "t \<in> set targets" for t
    using assms(1) [OF that] by (simp add: list_all2_conv_all_nth)
  then have all: "list_all2 (decides step pkt p Masq) (concat (map (\<lambda>t. map (f t) protocols) targets))
      (concat (map (\<lambda>t. map (c t) protocols) targets))"
    by (induction targets) (auto intro!: list_all2_appendI)
  have some: "True \<in> set (concat (map (\<lambda>t. map (c t) protocols) targets)) \<longleftrightarrow>
      (\<exists>t \<in> set targets. \<exists>protocol \<in> set protocols. c t protocol)"
    by auto
  obtain m' where "run_chain step (concat (map (\<lambda>t. map (f t) protocols) targets)) m =
      (if \<exists>t \<in> set targets. \<exists>protocol \<in> set protocols. c t protocol then fate_of Masq else Accepted, m')"
    using run_chain_decides [where m = m, OF all assms(2)] unfolding some by blast
  then show ?thesis by (simp only: fst_conv fate_of.simps)
qed

end

lemma set_sort_rules_targets [simp]: "set (sort_func rules_compareDNSMasqueradeTargets ts) = set ts"
proof -
  have "set (insert_func f x ys) = insert x (set ys)" for f :: "dns_masquerade_target \<Rightarrow> dns_masquerade_target \<Rightarrow> int" and x ys
    by (induction ys) auto
  then show ?thesis by (induction ts) (simp_all add: sort_func_def)
qed

lemma validMaskedPrefix_IPv6:
  assumes "validMaskedPrefix pfx IPv6"
  shows "addr_Is6 (prefix_Addr pfx)"
proof -
  from assms have "prefix_ok pfx" "prefix_IsValid pfx"
    by (auto simp: validMaskedPrefix_ok) (simp add: validMaskedPrefix_def)
  then show ?thesis
    using assms by (cases rule: prefix_cases_valid) (simp_all add: validMaskedPrefix_def FamilyOfPrefix_def FamilyOfAddress_def)
qed

lemma prefix_Contains_family:
  assumes "prefix_Contains pfx src" "carries p src dst"
  shows "addr_Is4 dst \<longleftrightarrow> addr_Is4 (prefix_Addr pfx)"
proof -
  have "addr_BitLen dst = addr_BitLen (prefix_Addr pfx)"
    using prefix_Contains_BitLen [OF assms(1)] assms(2) by (cases "(p, src, dst)" rule: carries.cases) auto
  then show ?thesis by (cases dst; cases "prefix_Addr pfx") simp_all
qed

text \<open>
  C12: for a policy whose IPv4 Tailnet prefix and DNS targets are no IPv4-mapped IPv6 values, the DNS masquerade chain rewrites the source of
  exactly the packets that come from a Tailnet prefix and leave for port 53 of a DNS target, over TCP or UDP, through the interface of
  that target. Validation also accepts mapped values; for a mapped target the chain is not exact, as
  \<open>mapped_target_not_masqueraded\<close> below shows.
\<close>

theorem dns_masquerade_exact:
  assumes machine: "nft_machine order members step load fetch pkt remark"
    and rules: "natRuleSpecs policy = Inr rules"
    and plain: "addr_Is4 (prefix_Addr (pf_TailnetIPv4Prefix policy))"
      "list_all (\<lambda>t. \<not> addr_Is4In6 (dmt_Address t)) (pf_DNSTargets policy)"
    and packet: "carries (pkt m) src dst" "interface_name (pk_oifname (pkt m))"
  shows "fst (run_chain step rules m) =
    (if (prefix_Contains (pf_TailnetIPv4Prefix policy) src \<or> prefix_Contains (pf_TailnetIPv6Prefix policy) src) \<and>
        \<lparr>dmt_Address = dst, dmt_OutputInterface = pk_oifname (pkt m)\<rparr> \<in> set (pf_DNSTargets policy) \<and>
        (destined (pkt m) ipProtocolTCP 53 \<or> destined (pkt m) ipProtocolUDP 53)
     then Masqueraded else Accepted)"
proof -
  let ?p4 = "pf_TailnetIPv4Prefix policy" and ?p6 = "pf_TailnetIPv6Prefix policy"
  let ?pfx = "\<lambda>t. if addr_Is4 (dmt_Address t) then ?p4 else ?p6"
  let ?c = "\<lambda>t protocol. prefix_Contains (?pfx t) src \<and> dst = dmt_Address t \<and> pk_oifname (pkt m) = dmt_OutputInterface t \<and>
      destined (pkt m) (protocolNumber protocol) 53"
  let ?rule = "\<lambda>t protocol. rule_of (dnsMasqueradeExpressions (?pfx t) (addr_Unmap (dmt_Address t)) (dmt_OutputInterface t) protocol)"
  have valid: "policy_Validate policy = []"
    using rules by (auto simp: natRuleSpecs_def split: if_splits)
  note ok = policy_prefixes [OF valid]
  have p6: "addr_Is6 (prefix_Addr ?p6)" "\<not> addr_Is4 (prefix_Addr ?p6)" and p4: "\<not> addr_Is6 (prefix_Addr ?p4)"
    using validMaskedPrefix_IPv6 [OF ok(2)] plain(1) by (auto elim: addr_Is6.elims addr_Is4.elims)
  have each: "decides step pkt (pkt m) Masq (?rule t protocol) (?c t protocol)" if t: "t \<in> set (pf_DNSTargets policy)" for t protocol
  proof -
    have d: "addr_Unmap (dmt_Address t) = dmt_Address t"
      using plain(2) t by (auto simp: list_all_iff addr_Unmap_id)
    with policy_targets [OF valid t] have dv: "addr_IsValid (dmt_Address t)" "addr_Zone (dmt_Address t) = []" by simp_all
    have "prefix_ok (?pfx t)" "prefix_IsValid (?pfx t)"
      using ok validMaskedPrefix_ok by (simp_all add: validMaskedPrefix_def)
    moreover have "addr_Is6 (prefix_Addr (?pfx t)) = addr_Is6 (dmt_Address t)"
    proof (cases "addr_Is4 (dmt_Address t)")
      case True
      with p4 show ?thesis by (simp) (auto elim: addr_Is4.elims)
    next
      case False
      with dv(1) have "addr_Is6 (dmt_Address t)" by (auto elim: addr_IsValid.elims)
      with False p6(1) show ?thesis by simp
    qed
    ultimately show ?thesis
      unfolding d by (rule nft_machine.decides_masquerade [OF machine _ _ packet(1) _ dv packet(2) policy_target_names [OF valid t]])
  qed
  let ?sorted = "sort_func rules_compareDNSMasqueradeTargets (pf_DNSTargets policy)"
  have body: "rules = number_rules ''nat'' (pf_DNSMasqueradeChain policy) (NATRevision policy)
      (concat (map (\<lambda>t. map (?rule t) [TransportTCP, TransportUDP]) ?sorted))"
    using rules valid by (simp add: natRuleSpecs_def Let_def)
  have "fst (run_chain step rules m) = (if \<exists>t \<in> set ?sorted. \<exists>protocol \<in> set [TransportTCP, TransportUDP].
      ?c t protocol then Masqueraded else Accepted)"
    unfolding body run_chain_number
  proof (rule nft_machine.masquerade_chain [OF machine _ refl])
    fix t protocol
    assume "t \<in> set ?sorted"
    then have "t \<in> set (pf_DNSTargets policy)" by (simp only: set_sort_rules_targets)
    then show "decides step pkt (pkt m) Masq (?rule t protocol) (?c t protocol)" by (rule each)
  qed
  then have run: "fst (run_chain step rules m) = (if \<exists>t \<in> set (pf_DNSTargets policy). \<exists>protocol \<in> {TransportTCP, TransportUDP}.
      ?c t protocol then Masqueraded else Accepted)"
    by (simp only: set_sort_rules_targets list.set)
  have family: "prefix_Contains ?p4 src \<Longrightarrow> addr_Is4 dst" "prefix_Contains ?p6 src \<Longrightarrow> \<not> addr_Is4 dst"
    using prefix_Contains_family [OF _ packet(1)] plain(1) p6(2) by blast+
  have "(\<exists>t \<in> set (pf_DNSTargets policy). \<exists>protocol \<in> {TransportTCP, TransportUDP}. ?c t protocol) \<longleftrightarrow>
      (prefix_Contains ?p4 src \<or> prefix_Contains ?p6 src) \<and>
      \<lparr>dmt_Address = dst, dmt_OutputInterface = pk_oifname (pkt m)\<rparr> \<in> set (pf_DNSTargets policy) \<and>
      (destined (pkt m) ipProtocolTCP 53 \<or> destined (pkt m) ipProtocolUDP 53)"
    (is "?L \<longleftrightarrow> ?R")
  proof
    assume ?L
    then obtain t protocol where tp: "t \<in> set (pf_DNSTargets policy)" "protocol \<in> {TransportTCP, TransportUDP}" "?c t protocol"
      by blast
    then have "t = \<lparr>dmt_Address = dst, dmt_OutputInterface = pk_oifname (pkt m)\<rparr>" by simp
    with tp(1) have "\<lparr>dmt_Address = dst, dmt_OutputInterface = pk_oifname (pkt m)\<rparr> \<in> set (pf_DNSTargets policy)" by simp
    moreover have "prefix_Contains ?p4 src \<or> prefix_Contains ?p6 src"
      using tp(3) by (cases "addr_Is4 (dmt_Address t)") simp_all
    moreover have "destined (pkt m) ipProtocolTCP 53 \<or> destined (pkt m) ipProtocolUDP 53"
      using tp(3) by (cases "protocol = TransportUDP") (simp_all add: protocolNumber_def)
    ultimately show ?R by blast
  next
    assume r: ?R
    let ?t = "\<lparr>dmt_Address = dst, dmt_OutputInterface = pk_oifname (pkt m)\<rparr>"
    have "prefix_Contains (?pfx ?t) src"
      using r family by (cases "addr_Is4 dst") auto
    moreover from r have "destined (pkt m) (protocolNumber TransportTCP) 53 \<or> destined (pkt m) (protocolNumber TransportUDP) 53"
      by (auto simp: protocolNumber_def TransportTCP_def TransportUDP_def)
    ultimately have "\<exists>protocol \<in> {TransportTCP, TransportUDP}. ?c ?t protocol"
      by simp
    with r show ?L by blast
  qed
  then show ?thesis unfolding run by (rule arg_cong)
qed

section \<open>A machine that obeys the laws\<close>

record nft_state =
  ns_regs :: "nat \<Rightarrow> bytes"
  ns_pkt :: packet

definition reference_load :: "nat \<Rightarrow> bytes \<Rightarrow> nft_state \<Rightarrow> nft_state" where
  "reference_load r bs m = m\<lparr>ns_regs := (ns_regs m)(r := bs)\<rparr>"

definition reference_fetch :: "nat \<Rightarrow> nat \<Rightarrow> nft_state \<Rightarrow> bytes" where
  "reference_fetch r n m = take n (ns_regs m r)"

definition reference_remark :: "32 word \<Rightarrow> nft_state \<Rightarrow> nft_state" where
  "reference_remark k m = m\<lparr>ns_pkt := (ns_pkt m)\<lparr>pk_mark := k\<rparr>\<rparr>"

definition native_word :: "byte_order \<Rightarrow> bytes \<Rightarrow> 32 word" where
  "native_word order bs = be_word (if order = LittleEndian then rev bs else bs)"

fun reference_step :: "byte_order \<Rightarrow> (string \<Rightarrow> bytes list) \<Rightarrow> nft_expr \<Rightarrow> nft_state \<Rightarrow> nft_state outcome" where
  "reference_step order members (Meta key False r) m = Continue (reference_load r (meta_bytes order key (ns_pkt m)) m)"
| "reference_step order members (Meta MetaKeyMARK True r) m =
     Continue (reference_remark (native_word order (reference_fetch r 4 m)) m)"
| "reference_step order members (Cmp CmpOpEq r data) m =
     (if reference_fetch r (length data) m = data then Continue m else Break m)"
| "reference_step order members (Payload r base offset len) m =
     (if offset + len \<le> length (header_bytes base (ns_pkt m))
      then Continue (reference_load r (slice offset len (header_bytes base (ns_pkt m))) m) else Break m)"
| "reference_step order members (Bitwise s d n ands xors) m =
     Continue (reference_load d (map2 (XOR) (map2 (AND) (reference_fetch s n m) ands) xors) m)"
| "reference_step order members (Lookup r name i) m =
     (if list_ex (\<lambda>key. reference_fetch r (length key) m = key) (members name) then Continue m else Break m)"
| "reference_step order members (Verdict v) m = Issue (Verdict v) m"
| "reference_step order members Masq m = Issue Masq m"
| "reference_step order members _ m = Break m"

lemma be_word_be_bytes: "be_word (be_bytes 4 w) = w"
proof (rule bit_word_eqI)
  fix n
  assume "n < LENGTH(32)"
  then have n: "n < 32" by simp
  have bytes: "be_bytes 4 w = [ucast (drop_bit 24 w), ucast (drop_bit 16 w), ucast (drop_bit 8 w), ucast w]"
    by (simp add: be_bytes_def upt_rec)
  consider "n < 8" | "8 \<le> n" "n < 16" | "16 \<le> n" "n < 24" | "24 \<le> n" using n by linarith
  then show "bit (be_word (be_bytes 4 w)) n = bit w n"
    by cases (use n in \<open>auto simp: bytes be_word_def bit_simps\<close>)
qed

lemma native_word_PutUint32: "native_word order (NativeEndian_PutUint32 order k) = k"
  by (cases order) (simp_all add: native_word_def be_word_be_bytes)

interpretation reference: nft_machine order members "reference_step order members" reference_load reference_fetch ns_pkt
  reference_remark for order members
  by unfold_locales
    (simp_all add: reference_load_def reference_fetch_def reference_remark_def native_word_PutUint32)

section \<open>Witnesses\<close>

definition example_set :: "string \<Rightarrow> nft_set" where
  "example_set name =
     \<lparr>set_Table = None, set_Name = name, set_ID = 1, set_Constant = True, set_Anonymous = False, set_Interval = False,
      set_AutoMerge = False, set_IsMap = False, set_HasTimeout = False, set_Counter = False, set_Dynamic = False,
      set_Concatenation = False, set_KeyType = TypeIPAddr, set_Size = 0, set_Comment = []\<rparr>"

definition example_packet :: "32 word \<Rightarrow> 32 word \<Rightarrow> packet" where
  "example_packet src dst =
     \<lparr>pk_nfproto = 2, pk_network = replicate 12 0 @ be_bytes 4 src @ be_bytes 4 dst, pk_l4proto = 6,
      pk_transport = [0, 0] @ be_bytes 2 (53 :: 16 word), pk_mark = 0xABCD0000, pk_oifname = ''eth0''\<rparr>"

definition example_machine :: "32 word \<Rightarrow> 32 word \<Rightarrow> nft_state" where
  "example_machine src dst = \<lparr>ns_regs = (\<lambda>_. []), ns_pkt = example_packet src dst\<rparr>"

definition example_members :: "string \<Rightarrow> bytes list" where
  "example_members name = (if name = ''s4'' then [be_bytes 4 (1 :: 32 word), be_bytes 4 (2 :: 32 word)] else [])"

lemma example_carries: "carries (ns_pkt (example_machine src dst)) (Addr4 src) (Addr4 dst)"
  by (simp add: example_machine_def example_packet_def slice_def)

lemma example_rules:
  "\<exists>rules. filterRuleSpecs LittleEndian (example_policy gate [Addr4 1, Addr4 2]) (\<lambda>name. Some (example_set name)) = Inr rules"
  by (rule filterRuleSpecs_total) (simp_all add: example_policy_valid)

lemma example_fields:
  "pf_TailnetIPv4Prefix (example_policy gate addresses) = Prefix (Addr4 0x64400000) 11"
  "pf_TailnetIPv6Prefix (example_policy gate addresses) = Prefix (Addr6 0 []) 1"
  "pf_DNSTargets (example_policy gate addresses) = [\<lparr>dmt_Address = Addr4 16, dmt_OutputInterface = ''eth0''\<rparr>]"
  "pf_GateClosed (example_policy gate addresses) = gate" "pf_ForwardGuardChain (example_policy gate addresses) = ''g''"
  by (simp_all add: example_policy_def)

lemma example_prefixes:
  "prefix_Contains (Prefix (Addr4 0x64400000) 11) (Addr4 0x64400001)"
  "\<not> prefix_Contains (Prefix (Addr4 0x64400000) 11) (Addr4 3)" "\<not> prefix_Contains (Prefix (Addr4 0x64400000) 11) (Addr4 5)"
  "\<not> prefix_Contains (Prefix (Addr4 0x64400000) 11) (Addr4 9)" "\<not> prefix_Contains (Prefix (Addr6 0 []) 1) (Addr4 9)"
  by code_simp+

lemma forward_guard_exact_witness:
  "\<exists>closed opened.
     filterRuleSpecs LittleEndian (example_policy True [Addr4 1, Addr4 2]) (\<lambda>name. Some (example_set name)) = Inr closed \<and>
     filterRuleSpecs LittleEndian (example_policy False [Addr4 1, Addr4 2]) (\<lambda>name. Some (example_set name)) = Inr opened \<and>
     fst (run_chain (reference_step LittleEndian example_members) (the (closed ''g'')) (example_machine 0x64400001 5)) = Dropped \<and>
     fst (run_chain (reference_step LittleEndian example_members) (the (closed ''g'')) (example_machine 3 5)) = Accepted \<and>
     fst (run_chain (reference_step LittleEndian example_members) (the (opened ''g'')) (example_machine 0x64400001 5)) = Accepted"
proof -
  obtain closed opened where
    c: "filterRuleSpecs LittleEndian (example_policy True [Addr4 1, Addr4 2]) (\<lambda>name. Some (example_set name)) = Inr closed" and
    o: "filterRuleSpecs LittleEndian (example_policy False [Addr4 1, Addr4 2]) (\<lambda>name. Some (example_set name)) = Inr opened"
    using example_rules by blast
  note exact = forward_guard_exact [OF reference.nft_machine_axioms [of LittleEndian example_members]]
  show ?thesis
    using c o exact [OF c example_carries [of "0x64400001" 5]] exact [OF c example_carries [of 3 5]]
      exact [OF o example_carries [of "0x64400001" 5]]
    by (intro exI [of _ closed] exI [of _ opened]) (simp add: example_prefixes example_fields)
qed

lemma example_filled:
  assumes "spec \<in> set (filterSetSpecs (example_policy gate [Addr4 1, Addr4 2]))"
  shows "example_members (ss_name spec) = map se_Key (ss_elements spec)"
proof -
  have "addressSetElements [Addr4 1, Addr4 2] = [key_element (be_bytes 4 (1 :: 32 word)), key_element (be_bytes 4 (2 :: 32 word))]"
    by (simp add: addressSetElements_def sort_func_def addr_Compare_def cmp3_def)
  with assms show ?thesis
    by (simp add: filterSetSpecs_def family_set_spec_def example_policy_def example_members_def key_element_def)
qed

lemma local_egress_exact_witness:
  "\<exists>rules m'. filterRuleSpecs LittleEndian (example_policy True [Addr4 1, Addr4 2]) (\<lambda>name. Some (example_set name)) = Inr rules \<and>
     run_chain (reference_step LittleEndian example_members) (the (rules ''e'')) (example_machine 9 2) = (Accepted, m') \<and>
     pk_mark (ns_pkt m') = 0xABCD0001"
proof -
  obtain rules where
    r: "filterRuleSpecs LittleEndian (example_policy True [Addr4 1, Addr4 2]) (\<lambda>name. Some (example_set name)) = Inr rules"
    using example_rules by blast
  have chain: "pf_LocalEgressChain (example_policy True [Addr4 1, Addr4 2]) = ''e''"
    and plain: "list_all addr_Is4 (le_IPv4 (pf_LocalEgress (example_policy True [Addr4 1, Addr4 2])))"
    by (simp_all add: example_policy_def)
  have hit: "destined (ns_pkt (example_machine 9 2)) (protocolNumber ''tcp'') 53"
    by (simp add: destined_def example_machine_def example_packet_def protocolNumber_def TransportUDP_def ipProtocolTCP_def slice_def)
  have mark: "pk_mark (ns_pkt (example_machine 9 2)) AND NOT LocalEgressPacketMarkMask OR 1 = 0xABCD0001"
    by (simp add: example_machine_def example_packet_def LocalEgressPacketMarkMask_def)
  obtain m' where "run_chain (reference_step LittleEndian example_members) (the (rules ''e'')) (example_machine 9 2) = (Accepted, m')"
    "ns_pkt m' = (ns_pkt (example_machine 9 2))\<lparr>pk_mark := 0xABCD0001\<rparr>"
    using local_egress_exact [OF reference.nft_machine_axioms [of LittleEndian example_members] r _ example_filled [of _ True] plain
        example_carries [of 9 2]] hit mark
    unfolding chain by (auto simp: example_set_def example_policy_def)
  with r show ?thesis by auto
qed

lemma example_nat_rules: "\<exists>rules. natRuleSpecs (example_policy True [Addr4 1, Addr4 2]) = Inr rules"
  by (simp add: natRuleSpecs_def example_policy_valid)

lemma dns_masquerade_exact_witness:
  "\<exists>rules. natRuleSpecs (example_policy True [Addr4 1, Addr4 2]) = Inr rules \<and>
     fst (run_chain (reference_step LittleEndian example_members) rules (example_machine 0x64400001 16)) = Masqueraded \<and>
     fst (run_chain (reference_step LittleEndian example_members) rules (example_machine 9 16)) = Accepted"
proof -
  obtain rules where r: "natRuleSpecs (example_policy True [Addr4 1, Addr4 2]) = Inr rules"
    using example_nat_rules by blast
  have plain: "addr_Is4 (prefix_Addr (pf_TailnetIPv4Prefix (example_policy True [Addr4 1, Addr4 2])))"
    "list_all (\<lambda>t. \<not> addr_Is4In6 (dmt_Address t)) (pf_DNSTargets (example_policy True [Addr4 1, Addr4 2]))"
    by (simp_all add: example_policy_def)
  have name: "interface_name (pk_oifname (ns_pkt (example_machine src dst)))" "pk_oifname (ns_pkt (example_machine src dst)) = ''eth0''" for src dst
    by (simp_all add: interface_name_def example_machine_def example_packet_def MaximumInterfaceNameBytes_def)
  have hit: "destined (ns_pkt (example_machine src dst)) ipProtocolTCP 53" for src dst
    by (simp add: destined_def example_machine_def example_packet_def ipProtocolTCP_def slice_def)
  note exact = dns_masquerade_exact [OF reference.nft_machine_axioms [of LittleEndian example_members] r plain]
  show ?thesis
    using r exact [OF example_carries [of "0x64400001" 16] name(1)] exact [OF example_carries [of 9 16] name(1)]
    by (intro exI [of _ rules]) (simp only: example_fields example_prefixes hit name(2) list.set insert_iff simp_thms if_True if_False)
qed

section \<open>IPv4-mapped DNS targets\<close>

text \<open>
  Validation and the NAT revision read a DNS target through \<^verbatim>\<open>Unmap\<close>; \<^verbatim>\<open>natRuleSpecs\<close> selects the Tailnet prefix
  before unmapping. A target written as an IPv4-mapped IPv6 address is therefore accepted, has the revision of the plain
  target, and gets a rule that compares IPv4 packets with the IPv6 prefix: a Tailnet query to it is not masqueraded.
\<close>

definition mapped_policy :: "addr \<Rightarrow> packet_filter_policy" where
  "mapped_policy target = (example_policy True [Addr4 1, Addr4 2])
     \<lparr>pf_DNSTargets := [\<lparr>dmt_Address = target, dmt_OutputInterface = ''eth0''\<rparr>],
      pf_TailnetIPv6Prefix := Prefix (Addr6 0xfd7a115ca1e000000000000000000000 []) 49\<rparr>"

definition mapped_machine :: nft_state where
  "mapped_machine = (let m = example_machine 0x64400001 16
     in m\<lparr>ns_pkt := (ns_pkt m)\<lparr>pk_network := pk_network (ns_pkt m) @ replicate 20 0\<rparr>\<rparr>)"

lemma mapped_valid:
  "policy_Validate (mapped_policy (Addr4 16)) = []" "policy_Validate (mapped_policy (Addr6 0xFFFF00000010 [])) = []"
  by code_simp+

definition masquerade_rules :: "packet_filter_policy \<Rightarrow> rule_spec list" where
  "masquerade_rules policy = concat (map (\<lambda>target. map (\<lambda>protocol. rule_of (dnsMasqueradeExpressions
      (if addr_Is4 (dmt_Address target) then pf_TailnetIPv4Prefix policy else pf_TailnetIPv6Prefix policy)
      (addr_Unmap (dmt_Address target)) (dmt_OutputInterface target) protocol)) [TransportTCP, TransportUDP])
      (sort_func rules_compareDNSMasqueradeTargets (pf_DNSTargets policy)))"

lemma natRuleSpecs_run:
  assumes "policy_Validate policy = []" "natRuleSpecs policy = Inr rules"
  shows "run_chain step rules m = run_chain step (masquerade_rules policy) m"
  using assms by (auto simp: natRuleSpecs_def masquerade_rules_def Let_def)

lemma mapped_Unmap: "addr_Unmap (Addr6 0xFFFF00000010 []) = Addr4 16"
  by code_simp

lemma mapped_rules:
  "masquerade_rules (mapped_policy (Addr6 0xFFFF00000010 [])) = map (\<lambda>protocol. rule_of (dnsMasqueradeExpressions
     (Prefix (Addr6 0xfd7a115ca1e000000000000000000000 []) 49) (Addr4 16) ''eth0'' protocol)) [TransportTCP, TransportUDP]"
  by (simp add: masquerade_rules_def mapped_policy_def sort_func_def mapped_Unmap del: addr_Unmap.simps)

lemma mapped_run:
  "fst (run_chain (reference_step LittleEndian example_members) (masquerade_rules (mapped_policy (Addr6 0xFFFF00000010 [])))
     mapped_machine) = Accepted"
proof -
  have "prefix_Masked (Prefix (Addr6 0xfd7a115ca1e000000000000000000000 []) 49) =
      Prefix (Addr6 0xfd7a115ca1e000000000000000000000 []) 49"
    by code_simp
  moreover have "map2 (AND) (slice 12 16 (pk_network (ns_pkt mapped_machine))) (be_bytes 16 (netmask6 48)) \<noteq>
      be_bytes 16 (0xfd7a115ca1e000000000000000000000 :: 128 word)"
    by (simp add: mapped_machine_def example_machine_def example_packet_def be_bytes_def slice_def upt_rec netmask6_def)
  moreover have "length (pk_network (ns_pkt mapped_machine)) = 40" "pk_nfproto (ns_pkt mapped_machine) = 2"
    by (simp_all add: mapped_machine_def example_machine_def example_packet_def)
  ultimately show ?thesis
    unfolding mapped_rules
    by (simp add: rule_of_def dnsMasqueradeExpressions_def Let_def CIDRMask_def prefix_Bits_def reference_load_def
        reference_fetch_def nfprotoIPv4_def map2_xor_zero slice_def)
qed

lemma mapped_target_not_masqueraded:
  "NATRevision (mapped_policy (Addr6 0xFFFF00000010 [])) = NATRevision (mapped_policy (Addr4 16)) \<and>
   (\<forall>rules. natRuleSpecs (mapped_policy (Addr6 0xFFFF00000010 [])) = Inr rules \<longrightarrow>
      fst (run_chain (reference_step LittleEndian example_members) rules mapped_machine) = Accepted)"
proof (intro conjI allI impI)
  have "nat_fields (mapped_policy (Addr6 0xFFFF00000010 [])) = nat_fields (mapped_policy (Addr4 16))"
    by (simp add: nat_fields_def mapped_policy_def sort_func_def mapped_Unmap del: addr_Unmap.simps) simp
  then show "NATRevision (mapped_policy (Addr6 0xFFFF00000010 [])) = NATRevision (mapped_policy (Addr4 16))"
    by (simp add: NATRevision_def)
next
  fix rules
  assume "natRuleSpecs (mapped_policy (Addr6 0xFFFF00000010 [])) = Inr rules"
  then show "fst (run_chain (reference_step LittleEndian example_members) rules mapped_machine) = Accepted"
    using mapped_run by (simp only: natRuleSpecs_run [OF mapped_valid(2)])
qed

end
