(* ===== verification/Nftables_Store.thy ===== *)
theory Nftables_Store
  imports Nftables_Rules
begin

unbundle bit_operations_syntax

text \<open>
  \<^verbatim>\<open>internal/adapter/nftables/store_linux.go\<close>: \<open>Observe\<close> reads the agent's tables and reports the revision of those that
  are exactly what the policy asks for; \<open>Apply\<close> replaces the tables that do not match in one atomic batch. The
  connection of \<^verbatim>\<open>google/nftables\<close> is an argument: what its readers answer for one ruleset, the identifier that
  \<^verbatim>\<open>AddSet\<close> assigns, and the error of \<^verbatim>\<open>Flush\<close>. A batch is the list of messages that \<^verbatim>\<open>Flush\<close> commits.
\<close>

section \<open>The ruleset as the connection shows it\<close>

datatype chain_policy = ChainPolicyAccept | ChainPolicyDrop

record nft_chain =
  chain_Name :: string
  chain_Table :: "nft_table option"
  chain_Type :: string
  chain_Hooknum :: "32 word option"
  chain_Priority :: "int option"
  chain_Policy :: "chain_policy option"
  chain_Device :: string

record nft_rule =
  nr_Table :: nft_table
  nr_Chain :: nft_chain
  nr_Exprs :: "nft_expr list"
  nr_UserData :: string

datatype nft_message =
    DelTable nft_table
  | AddTable nft_table
  | AddSet nft_set "set_element list"
  | AddChain nft_chain
  | AddRule nft_rule

record nft_conn =
  cn_ListTables :: "(port_error, nft_table list) result"
  cn_ListChains :: "(port_error, nft_chain list) result"
  cn_GetRules :: "nft_table \<Rightarrow> nft_chain \<Rightarrow> (port_error, nft_rule list) result"
  cn_GetSets :: "nft_table \<Rightarrow> (port_error, nft_set list) result"
  cn_GetSetElements :: "nft_set \<Rightarrow> (port_error, set_element list) result"
  cn_AddSet :: "nft_set \<Rightarrow> set_element list \<Rightarrow> (port_error, 32 word) result"
  cn_Flush :: "nft_message list \<Rightarrow> port_error option"

definition ChainTypeFilter :: string where "ChainTypeFilter = ''filter''"

definition ChainTypeRoute :: string where "ChainTypeRoute = ''route''"

definition ChainTypeNAT :: string where "ChainTypeNAT = ''nat''"

definition ChainHookForward :: "32 word" where "ChainHookForward = 2"

definition ChainHookOutput :: "32 word" where "ChainHookOutput = 3"

definition ChainHookPostrouting :: "32 word" where "ChainHookPostrouting = 4"

definition ChainPriorityFilter :: int where "ChainPriorityFilter = 0"

definition ChainPriorityMangle :: int where "ChainPriorityMangle = - 150"

definition ChainPriorityNATSource :: int where "ChainPriorityNATSource = 100"

section \<open>Errors\<close>

datatype ownership_error =
    MetadataChainInvalid
  | MetadataUnreadable port_error
  | MetadataRuleInvalid
  | MetadataValueInvalid
  | OwnershipRevisionInvalid

datatype store_error =
    ContextDone port_error
  | StorePolicyInvalid "policy_error list"
  | OpenFailed port_error
  | ListTablesFailed port_error
  | ListChainsFailed port_error
  | NotUniquelyOwned string
  | OwnershipConflict string ownership_error
  | ListSetsFailed string port_error
  | ListElementsFailed string port_error
  | ListRulesFailed string string port_error
  | ListMetadataFailed string port_error
  | RulesFailed rules_error
  | AddSetFailed string port_error
  | FlushFailed port_error

section \<open>Helpers\<close>

definition maximumNetlinkOperationDuration :: duration where
  "maximumNetlinkOperationDuration = 10 * second"

text \<open>The deadline \<^verbatim>\<open>newConnection\<close> sets on the socket.\<close>

definition newConnection :: "time \<Rightarrow> time option \<Rightarrow> time" where
  "newConnection current contextDeadline =
     (let deadline = time_Add current maximumNetlinkOperationDuration
      in case contextDeadline of Some d \<Rightarrow> if d < deadline then d else deadline | None \<Rightarrow> deadline)"

definition tablesNamed :: "nft_table list \<Rightarrow> string \<Rightarrow> nft_table list" where
  "tablesNamed tables name = filter (\<lambda>t. table_Name t = name) tables"

definition chainsOfTable :: "nft_chain list \<Rightarrow> nft_table \<Rightarrow> nft_chain list" where
  "chainsOfTable allChains table =
     filter (\<lambda>c. case chain_Table c of None \<Rightarrow> False
       | Some t \<Rightarrow> table_Name t = table_Name table \<and> table_Family t = table_Family table) allChains"

definition findChain :: "nft_chain list \<Rightarrow> string \<Rightarrow> nft_chain option" where
  "findChain cs name = find (\<lambda>c. chain_Name c = name) cs"

definition pointerEqual :: "'a option \<Rightarrow> 'a option \<Rightarrow> bool" where
  "pointerEqual left right \<longleftrightarrow> (case (left, right) of (Some l, Some r) \<Rightarrow> l = r | _ \<Rightarrow> False)"

definition validBaseChain :: "nft_chain option \<Rightarrow> string \<Rightarrow> 32 word option \<Rightarrow> int option \<Rightarrow> bool" where
  "validBaseChain chain chainType hook priority \<longleftrightarrow>
     (case chain of None \<Rightarrow> False
      | Some c \<Rightarrow> chain_Type c = chainType \<and> pointerEqual (chain_Hooknum c) hook \<and> pointerEqual (chain_Priority c) priority \<and>
          chain_Policy c = Some ChainPolicyAccept \<and> chain_Device c = [])"

text \<open>\<^verbatim>\<open>hex.DecodeString\<close>.\<close>

definition hex_value :: "char \<Rightarrow> nat option" where
  "hex_value c = (let n = of_char c :: nat in
     if 48 \<le> n \<and> n \<le> 57 then Some (n - 48)
     else if 97 \<le> n \<and> n \<le> 102 then Some (n - 87)
     else if 65 \<le> n \<and> n \<le> 70 then Some (n - 55)
     else None)"

fun hex_DecodeString :: "string \<Rightarrow> bytes option" where
  "hex_DecodeString [] = Some []"
| "hex_DecodeString [_] = None"
| "hex_DecodeString (a # b # cs) =
     (case (hex_value a, hex_value b, hex_DecodeString cs) of
        (Some x, Some y, Some bs) \<Rightarrow> Some (word_of_nat (16 * x + y) # bs)
      | _ \<Rightarrow> None)"

definition sha256_Size :: nat where "sha256_Size = 32"

section \<open>Ownership\<close>

definition ownershipRevision :: "nft_conn \<Rightarrow> nft_table \<Rightarrow> nft_chain list \<Rightarrow> string \<Rightarrow> (ownership_error, string) result" where
  "ownershipRevision connection table allChains component =
     (case findChain (chainsOfTable allChains table) ReservedPacketFilterMetadataChain of
        None \<Rightarrow> Inl MetadataChainInvalid
      | Some metadataChain \<Rightarrow>
          if chain_Hooknum metadataChain \<noteq> None \<or> chain_Priority metadataChain \<noteq> None \<or> chain_Type metadataChain \<noteq> [] \<or>
             chain_Policy metadataChain \<noteq> None \<or> chain_Device metadataChain \<noteq> []
          then Inl MetadataChainInvalid
          else case cn_GetRules connection table metadataChain of
              Inl e \<Rightarrow> Inl (MetadataUnreadable e)
            | Inr rules \<Rightarrow>
                if length rules \<noteq> 1 \<or> nr_Exprs (hd rules) \<noteq> rs_expressions (metadataRuleSpec component []) then Inl MetadataRuleInvalid
                else let parts = split_on CHR '':'' (nr_UserData (hd rules)) in
                  if length parts \<noteq> 5 \<or> parts ! 0 \<noteq> ''tailscale-gateway-agent'' \<or> parts ! 1 \<noteq> ''v1'' \<or>
                     parts ! 2 \<noteq> component \<or> parts ! 4 \<noteq> ''metadata''
                  then Inl MetadataValueInvalid
                  else case hex_DecodeString (parts ! 3) of
                      None \<Rightarrow> Inl OwnershipRevisionInvalid
                    | Some digest \<Rightarrow> if length digest \<noteq> sha256_Size then Inl OwnershipRevisionInvalid else Inr (parts ! 3))"

definition observeNamedTable ::
  "nft_conn \<Rightarrow> nft_table list \<Rightarrow> nft_chain list \<Rightarrow> string \<Rightarrow> string \<Rightarrow> (store_error, (nft_table \<times> string) option) result" where
  "observeNamedTable connection tables allChains name component =
     (let matches = tablesNamed tables name in
      if length matches = 0 then Inr None
      else if length matches \<noteq> 1 \<or> table_Family (hd matches) \<noteq> TableFamilyINet then Inl (NotUniquelyOwned name)
      else case ownershipRevision connection (hd matches) allChains component of
          Inl e \<Rightarrow> Inl (OwnershipConflict name e)
        | Inr revision \<Rightarrow> Inr (Some (hd matches, revision)))"

section \<open>Validation of a table\<close>

definition validSetDefinition :: "nft_set option \<Rightarrow> nft_table \<Rightarrow> set_spec \<Rightarrow> bool" where
  "validSetDefinition observed table specification =
     (case observed of None \<Rightarrow> False
      | Some s \<Rightarrow>
          (case set_Table s of None \<Rightarrow> False
           | Some t \<Rightarrow>
               if table_Name t \<noteq> table_Name table \<or> table_Family t \<noteq> table_Family table then False
               else if set_Name s \<noteq> ss_name specification \<or> \<not> set_Constant s \<or> set_Anonymous s \<or> set_Interval s \<or>
                 set_AutoMerge s \<or> set_IsMap s \<or> set_HasTimeout s \<or> set_Counter s \<or> set_Dynamic s \<or> set_Concatenation s
               then False
               else if sd_Name (set_KeyType s) \<noteq> sd_Name (ss_keyType specification) \<or>
                 sd_Bytes (set_KeyType s) \<noteq> sd_Bytes (ss_keyType specification)
               then False
               else set_Size s = 0 \<or> unat (set_Size s) = length (ss_elements specification)))"

definition plain_element :: "set_element \<Rightarrow> bool" where
  "plain_element item \<longleftrightarrow>
     \<not> (length (se_Val item) \<noteq> 0 \<or> length (se_KeyEnd item) \<noteq> 0 \<or> se_IntervalEnd item \<or> se_VerdictData item \<noteq> None \<or>
        se_Timeout item \<noteq> 0 \<or> se_Expires item \<noteq> 0 \<or> se_Counter item \<noteq> None \<or> se_Comment item \<noteq> [])"

definition setElementsEqual :: "set_element list \<Rightarrow> set_element list \<Rightarrow> bool" where
  "setElementsEqual observed expected =
     (if length observed \<noteq> length expected then False
      else let by_key = (\<lambda>l r. cmp3 (se_Key l) (se_Key r));
               observed = sort_func by_key observed;
               expected = sort_func by_key expected
           in list_all (\<lambda>(item, wanted). se_Key item = se_Key wanted \<and> plain_element item) (zip observed expected))"

fun sets_by_name :: "nft_set list \<Rightarrow> (string \<rightharpoonup> nft_set) \<Rightarrow> (string \<rightharpoonup> nft_set) option" where
  "sets_by_name [] seen = Some seen"
| "sets_by_name (s # rest) seen =
     (if set_Name s \<in> dom seen then None else sets_by_name rest (seen(set_Name s \<mapsto> s)))"

fun validate_specs :: "nft_conn \<Rightarrow> nft_table \<Rightarrow> (string \<rightharpoonup> nft_set) \<Rightarrow> set_spec list \<Rightarrow> (store_error, bool) result" where
  "validate_specs connection table observedByName [] = Inr True"
| "validate_specs connection table observedByName (specification # rest) =
     (if \<not> validSetDefinition (observedByName (ss_name specification)) table specification then Inr False
      else let s = the (observedByName (ss_name specification)) in
        case cn_GetSetElements connection s of
          Inl e \<Rightarrow> Inl (ListElementsFailed (set_Name s) e)
        | Inr elements \<Rightarrow>
            if \<not> setElementsEqual elements (ss_elements specification) then Inr False
            else validate_specs connection table observedByName rest)"

text \<open>The answer \<open>Inr None\<close> is \<^verbatim>\<open>false, nil, nil\<close>.\<close>

definition validateSets :: "nft_conn \<Rightarrow> nft_table \<Rightarrow> set_spec list \<Rightarrow> (store_error, (string \<rightharpoonup> nft_set) option) result" where
  "validateSets connection table expected =
     (case cn_GetSets connection table of
        Inl e \<Rightarrow> Inl (ListSetsFailed (table_Name table) e)
      | Inr observed \<Rightarrow>
          if length observed \<noteq> length expected then Inr None
          else case sets_by_name observed Map.empty of
              None \<Rightarrow> Inr None
            | Some observedByName \<Rightarrow>
                (case validate_specs connection table observedByName expected of
                   Inl e \<Rightarrow> Inl e
                 | Inr valid \<Rightarrow> Inr (if valid then Some observedByName else None)))"

definition rulesEqual :: "nft_rule list \<Rightarrow> rule_spec list \<Rightarrow> string \<Rightarrow> string \<Rightarrow> string \<Rightarrow> bool" where
  "rulesEqual observed expected component chain revision =
     (if length observed \<noteq> length expected then False
      else list_all (\<lambda>(index, item, wanted). nr_UserData item = ruleUserData component chain revision index \<and>
             nr_Exprs item = rs_expressions wanted) (enumerate 0 (zip observed expected)))"

definition validMetadataRevision :: "nft_conn \<Rightarrow> nft_table \<Rightarrow> nft_chain \<Rightarrow> string \<Rightarrow> string \<Rightarrow> (store_error, bool) result" where
  "validMetadataRevision connection table chain component revision =
     (case cn_GetRules connection table chain of
        Inl e \<Rightarrow> Inl (ListMetadataFailed (table_Name table) e)
      | Inr rules \<Rightarrow>
          let expected = metadataRuleSpec component revision in
          Inr (length rules = 1 \<and> nr_UserData (hd rules) = rs_userData expected \<and> nr_Exprs (hd rules) = rs_expressions expected))"

text \<open>The loop over the two base chains; a chain missing from the expected map has no expected rules.\<close>

fun validate_chains ::
  "nft_conn \<Rightarrow> nft_table \<Rightarrow> (string \<rightharpoonup> rule_spec list) \<Rightarrow> string \<Rightarrow> nft_chain list \<Rightarrow> (store_error, bool) result" where
  "validate_chains connection table expected revision [] = Inr True"
| "validate_chains connection table expected revision (chain # rest) =
     (case cn_GetRules connection table chain of
        Inl e \<Rightarrow> Inl (ListRulesFailed (table_Name table) (chain_Name chain) e)
      | Inr rules \<Rightarrow>
          let wanted = (case expected (chain_Name chain) of None \<Rightarrow> [] | Some w \<Rightarrow> w) in
          if \<not> rulesEqual rules wanted ''filter'' (chain_Name chain) revision then Inr False
          else validate_chains connection table expected revision rest)"

definition validateFilterTable ::
  "byte_order \<Rightarrow> nft_conn \<Rightarrow> nft_table \<Rightarrow> nft_chain list \<Rightarrow> packet_filter_policy \<Rightarrow> (store_error, bool) result" where
  "validateFilterTable order connection table allChains policy =
     (if table_Flags table \<noteq> 0 then Inr False
      else let chains = chainsOfTable allChains table in
        if length chains \<noteq> 3 then Inr False
        else let forward = findChain chains (pf_ForwardGuardChain policy);
                 local = findChain chains (pf_LocalEgressChain policy);
                 metadata = findChain chains ReservedPacketFilterMetadataChain
             in if \<not> validBaseChain forward ChainTypeFilter (Some ChainHookForward) (Some ChainPriorityFilter) \<or>
                   \<not> validBaseChain local ChainTypeRoute (Some ChainHookOutput) (Some ChainPriorityMangle) \<or> metadata = None
                then Inr False
                else case validateSets connection table (filterSetSpecs policy) of
                    Inl e \<Rightarrow> Inl e
                  | Inr None \<Rightarrow> Inr False
                  | Inr (Some setMap) \<Rightarrow>
                      (case filterRuleSpecs order policy setMap of
                         Inl e \<Rightarrow> Inl (RulesFailed e)
                       | Inr expected \<Rightarrow>
                           (case validate_chains connection table expected (FilterRevision policy) [the forward, the local] of
                              Inl e \<Rightarrow> Inl e
                            | Inr False \<Rightarrow> Inr False
                            | Inr True \<Rightarrow> validMetadataRevision connection table (the metadata) ''filter'' (FilterRevision policy))))"

definition validateNATTable ::
  "nft_conn \<Rightarrow> nft_table \<Rightarrow> nft_chain list \<Rightarrow> packet_filter_policy \<Rightarrow> (store_error, bool) result" where
  "validateNATTable connection table allChains policy =
     (if table_Flags table \<noteq> 0 then Inr False
      else let chains = chainsOfTable allChains table in
        if length chains \<noteq> 2 then Inr False
        else let data = findChain chains (pf_DNSMasqueradeChain policy);
                 metadata = findChain chains ReservedPacketFilterMetadataChain
             in if \<not> validBaseChain data ChainTypeNAT (Some ChainHookPostrouting) (Some ChainPriorityNATSource) \<or> metadata = None
                then Inr False
                else case validateSets connection table [] of
                    Inl e \<Rightarrow> Inl e
                  | Inr None \<Rightarrow> Inr False
                  | Inr (Some _) \<Rightarrow>
                      (case natRuleSpecs policy of
                         Inl e \<Rightarrow> Inl (RulesFailed e)
                       | Inr expected \<Rightarrow>
                           (case cn_GetRules connection table (the data) of
                              Inl e \<Rightarrow> Inl (ListRulesFailed (table_Name table) (chain_Name (the data)) e)
                            | Inr rules \<Rightarrow>
                                if \<not> rulesEqual rules expected ''nat'' (chain_Name (the data)) (NATRevision policy) then Inr False
                                else validMetadataRevision connection table (the metadata) ''nat'' (NATRevision policy))))"

section \<open>Observe\<close>

text \<open>
  One of the two halves of \<open>Observe\<close>: whether the named table exists and, when its metadata carries the wanted revision and the
  table is exactly as wanted, that revision.
\<close>

definition observe_half ::
  "(store_error, (nft_table \<times> string) option) result \<Rightarrow> string \<Rightarrow> (nft_table \<Rightarrow> (store_error, bool) result) \<Rightarrow>
     (store_error, bool \<times> string) result" where
  "observe_half named wanted validate =
     (case named of
        Inl e \<Rightarrow> Inl e
      | Inr None \<Rightarrow> Inr (False, [])
      | Inr (Some (table, revision)) \<Rightarrow>
          if revision = wanted then
            (case validate table of
               Inl e \<Rightarrow> Inl e
             | Inr valid \<Rightarrow> Inr (True, if valid then revision else []))
          else Inr (True, []))"

definition Observe ::
  "byte_order \<Rightarrow> port_error option \<Rightarrow> (port_error, nft_conn) result \<Rightarrow> packet_filter_policy \<Rightarrow>
     (store_error, packet_filter_observation) result" where
  "Observe order ctx opened policy =
     (case ctx of Some e \<Rightarrow> Inl (ContextDone e) | None \<Rightarrow>
      if policy_Validate policy \<noteq> [] then Inl (StorePolicyInvalid (policy_Validate policy))
      else case opened of Inl e \<Rightarrow> Inl (OpenFailed e) | Inr connection \<Rightarrow>
      (case cn_ListTables connection of Inl e \<Rightarrow> Inl (ListTablesFailed e) | Inr tables \<Rightarrow>
      (case cn_ListChains connection of Inl e \<Rightarrow> Inl (ListChainsFailed e) | Inr allChains \<Rightarrow>
      (case observe_half (observeNamedTable connection tables allChains (pf_FilterTable policy) ''filter'') (FilterRevision policy)
              (\<lambda>table. validateFilterTable order connection table allChains policy) of
         Inl e \<Rightarrow> Inl e
       | Inr (filterExists, filterRevision) \<Rightarrow>
      (case observe_half (observeNamedTable connection tables allChains (pf_NATTable policy) ''nat'') (NATRevision policy)
              (\<lambda>table. validateNATTable connection table allChains policy) of
         Inl e \<Rightarrow> Inl e
       | Inr (natExists, natRevision) \<Rightarrow>
           Inr \<lparr>pfo_FilterTableExists = filterExists, pfo_FilterRevision = filterRevision,
                pfo_NATTableExists = natExists, pfo_NATRevision = natRevision\<rparr>)))))"

section \<open>Apply\<close>

definition addBaseChain :: "nft_table \<Rightarrow> string \<Rightarrow> string \<Rightarrow> 32 word \<Rightarrow> int \<Rightarrow> nft_chain" where
  "addBaseChain table name chainType hook priority =
     \<lparr>chain_Name = name, chain_Table = Some table, chain_Type = chainType, chain_Hooknum = Some hook,
      chain_Priority = Some priority, chain_Policy = Some ChainPolicyAccept, chain_Device = []\<rparr>"

definition metadata_chain :: "nft_table \<Rightarrow> nft_chain" where
  "metadata_chain table =
     \<lparr>chain_Name = ReservedPacketFilterMetadataChain, chain_Table = Some table, chain_Type = [], chain_Hooknum = None,
      chain_Priority = None, chain_Policy = None, chain_Device = []\<rparr>"

definition addRules :: "nft_table \<Rightarrow> nft_chain \<Rightarrow> rule_spec list \<Rightarrow> nft_message list" where
  "addRules table chain specifications =
     map (\<lambda>s. AddRule \<lparr>nr_Table = table, nr_Chain = chain, nr_Exprs = rs_expressions s, nr_UserData = rs_userData s\<rparr>)
       specifications"

definition addMetadataRule :: "nft_table \<Rightarrow> nft_chain \<Rightarrow> string \<Rightarrow> string \<Rightarrow> nft_message list" where
  "addMetadataRule table chain component revision =
     (let metadata = metadataRuleSpec component revision in
      [AddRule \<lparr>nr_Table = table, nr_Chain = chain, nr_Exprs = rs_expressions metadata, nr_UserData = rs_userData metadata\<rparr>])"

definition new_set :: "nft_table \<Rightarrow> set_spec \<Rightarrow> nft_set" where
  "new_set table specification =
     \<lparr>set_Table = Some table, set_Name = ss_name specification, set_ID = 0, set_Constant = True, set_Anonymous = False,
      set_Interval = False, set_AutoMerge = False, set_IsMap = False, set_HasTimeout = False, set_Counter = False,
      set_Dynamic = False, set_Concatenation = False, set_KeyType = ss_keyType specification, set_Size = 0,
      set_Comment = ss_comment specification\<rparr>"

fun add_sets ::
  "nft_conn \<Rightarrow> nft_table \<Rightarrow> set_spec list \<Rightarrow> (string \<rightharpoonup> nft_set) \<Rightarrow> (store_error, nft_message list \<times> (string \<rightharpoonup> nft_set)) result"
where
  "add_sets connection table [] sets = Inr ([], sets)"
| "add_sets connection table (specification # rest) sets =
     (case cn_AddSet connection (new_set table specification) (ss_elements specification) of
        Inl e \<Rightarrow> Inl (AddSetFailed (ss_name specification) e)
      | Inr identifier \<Rightarrow>
          let s = (new_set table specification)\<lparr>set_ID := identifier\<rparr> in
          (case add_sets connection table rest (sets(ss_name specification \<mapsto> s)) of
             Inl e \<Rightarrow> Inl e
           | Inr (messages, sets) \<Rightarrow> Inr (AddSet s (ss_elements specification) # messages, sets)))"

definition addFilterTable :: "byte_order \<Rightarrow> nft_conn \<Rightarrow> packet_filter_policy \<Rightarrow> (store_error, nft_message list) result" where
  "addFilterTable order connection policy =
     (let table = \<lparr>table_Name = pf_FilterTable policy, table_Family = TableFamilyINet, table_Flags = 0\<rparr> in
      case add_sets connection table (filterSetSpecs policy) Map.empty of
        Inl e \<Rightarrow> Inl e
      | Inr (messages, sets) \<Rightarrow>
          (case filterRuleSpecs order policy sets of
             Inl e \<Rightarrow> Inl (RulesFailed e)
           | Inr specifications \<Rightarrow>
               let forward = addBaseChain table (pf_ForwardGuardChain policy) ChainTypeFilter ChainHookForward ChainPriorityFilter;
                   local = addBaseChain table (pf_LocalEgressChain policy) ChainTypeRoute ChainHookOutput ChainPriorityMangle;
                   metadata = metadata_chain table;
                   of_chain = (\<lambda>chain. case specifications (chain_Name chain) of None \<Rightarrow> [] | Some s \<Rightarrow> s)
               in Inr ([AddTable table] @ messages @ [AddChain forward, AddChain local, AddChain metadata] @
                       addRules table forward (of_chain forward) @ addRules table local (of_chain local) @
                       addMetadataRule table metadata ''filter'' (FilterRevision policy))))"

definition addNATTable :: "packet_filter_policy \<Rightarrow> (store_error, nft_message list) result" where
  "addNATTable policy =
     (case natRuleSpecs policy of
        Inl e \<Rightarrow> Inl (RulesFailed e)
      | Inr specifications \<Rightarrow>
          let table = \<lparr>table_Name = pf_NATTable policy, table_Family = TableFamilyINet, table_Flags = 0\<rparr>;
              data = addBaseChain table (pf_DNSMasqueradeChain policy) ChainTypeNAT ChainHookPostrouting ChainPriorityNATSource;
              metadata = metadata_chain table
          in Inr ([AddTable table, AddChain data, AddChain metadata] @ addRules table data specifications @
                  addMetadataRule table metadata ''nat'' (NATRevision policy)))"

text \<open>The two replacement blocks of \<open>Apply\<close>: drop the table when it exists and is the agent's, then add the new one.\<close>

definition replace_table ::
  "(store_error, (nft_table \<times> string) option) result \<Rightarrow> (store_error, nft_message list) result \<Rightarrow> (store_error, nft_message list) result"
where
  "replace_table named added =
     (case named of
        Inl e \<Rightarrow> Inl e
      | Inr existing \<Rightarrow>
          (case added of
             Inl e \<Rightarrow> Inl e
           | Inr messages \<Rightarrow> Inr ((case existing of None \<Rightarrow> [] | Some (table, _) \<Rightarrow> [DelTable table]) @ messages)))"

text \<open>
  \<open>Apply\<close> returns the batch it hands to \<^verbatim>\<open>Flush\<close>, if it gets there, and its error. The two context checks may answer
  differently.
\<close>

definition Apply ::
  "byte_order \<Rightarrow> port_error option \<Rightarrow> port_error option \<Rightarrow> (port_error, nft_conn) result \<Rightarrow> packet_filter_policy \<Rightarrow>
     packet_filter_observation \<Rightarrow> nft_message list option \<times> store_error option" where
  "Apply order before after opened policy observation =
     (if policy_Validate policy \<noteq> [] then (None, Some (StorePolicyInvalid (policy_Validate policy)))
      else let filterChanged = (\<not> FilterMatches observation policy); natChanged = (\<not> NATMatches observation policy) in
      if \<not> filterChanged \<and> \<not> natChanged then (None, None)
      else case before of Some e \<Rightarrow> (None, Some (ContextDone e)) | None \<Rightarrow>
      (case opened of Inl e \<Rightarrow> (None, Some (OpenFailed e)) | Inr connection \<Rightarrow>
      (case cn_ListTables connection of Inl e \<Rightarrow> (None, Some (ListTablesFailed e)) | Inr tables \<Rightarrow>
      (case cn_ListChains connection of Inl e \<Rightarrow> (None, Some (ListChainsFailed e)) | Inr allChains \<Rightarrow>
      (case (if filterChanged
             then replace_table (observeNamedTable connection tables allChains (pf_FilterTable policy) ''filter'')
                    (addFilterTable order connection policy)
             else Inr []) of Inl e \<Rightarrow> (None, Some e) | Inr filterBatch \<Rightarrow>
      (case (if natChanged
             then replace_table (observeNamedTable connection tables allChains (pf_NATTable policy) ''nat'')
                    (if 0 < length (pf_DNSTargets policy) then addNATTable policy else Inr [])
             else Inr []) of Inl e \<Rightarrow> (None, Some e) | Inr natBatch \<Rightarrow>
      (case after of Some e \<Rightarrow> (None, Some (ContextDone e)) | None \<Rightarrow>
       (Some (filterBatch @ natBatch), map_option FlushFailed (cn_Flush connection (filterBatch @ natBatch))))))))))"

end
