(* ===== verification/Nftables_Kernel.thy ===== *)
theory Nftables_Kernel
  imports Nftables_Store
begin

text \<open>
  What \<open>Observe\<close> and \<open>Apply\<close> of \<open>Nftables_Store\<close> promise. The locale \<open>nft_reader\<close> is the interface of a connection whose
  readers answer: they show a ruleset, and a committed batch has the documented effect of its messages on it.
\<close>

section \<open>Revisions as text\<close>

lemma hex_value_digit_char: "d < 16 \<Longrightarrow> hex_value (digit_char d) = Some d"
  by (simp add: hex_value_def of_digit_char Let_def)

lemma hex_DecodeString_EncodeToString: "hex_DecodeString (EncodeToString bs) = Some bs"
proof (induction bs)
  case (Cons b bs)
  have "unat b < 2 ^ 8" using unsigned_less [of b, where ?'a = nat] by simp
  then have "unat b div 16 < 16" by simp
  moreover have "word_of_nat (16 * (unat b div 16) + unat b mod 16) = b" by simp
  ultimately show ?case
    using Cons by (simp add: EncodeToString_def hex_value_digit_char)
qed (simp add: EncodeToString_def)

lemma length_sha_round: "length s = 8 \<Longrightarrow> length (sha_round kw s) = 8"
  by (cases "(kw, s)" rule: sha_round.cases) (simp_all add: Let_def)

lemma length_sha_block: "length s = 8 \<Longrightarrow> length (sha_block ws s) = 8"
proof -
  assume "length s = 8"
  then have "length (fold sha_round kws s) = 8" for kws
    by (induction kws arbitrary: s) (simp_all add: length_sha_round)
  with \<open>length s = 8\<close> show ?thesis by (simp add: sha_block_def)
qed

lemma length_Sum256: "length (Sum256 s) = sha256_Size"
proof -
  have "length (small_primes 20) = 8" by code_simp
  then have "length sha256_H0 = 8" by (simp add: sha256_H0_def)
  then have "length (fold sha_block blocks sha256_H0) = 8" for blocks
  proof -
    have "length st = 8 \<Longrightarrow> length (fold sha_block blocks st) = 8" for st
      by (induction blocks arbitrary: st) (simp_all add: length_sha_block)
    with \<open>length sha256_H0 = 8\<close> show ?thesis by blast
  qed
  then show ?thesis
    by (simp add: Sum256_def length_concat comp_def sum_list_triv sha256_Size_def be_bytes_def)
qed

lemma EncodeToString_chars: "set (EncodeToString bs) \<subseteq> digit_chars"
proof -
  have "digit_char (unat b div 16) \<in> digit_chars" "digit_char (unat b mod 16) \<in> digit_chars" for b :: "8 word"
    using unsigned_less [of b, where ?'a = nat] by (auto simp: digit_chars_def)
  then show ?thesis by (auto simp: EncodeToString_def)
qed

lemma fingerprint_no_colon: "CHR '':'' \<notin> set (fingerprint fs)"
  unfolding fingerprint_def using EncodeToString_chars separators_not_digits(2) by blast

lemma fingerprint_digest: "hex_DecodeString (fingerprint fs) = Some (Sum256 (canonical fs))"
  by (simp add: fingerprint_def hex_DecodeString_EncodeToString)

section \<open>Ownership\<close>

definition component_name :: "string \<Rightarrow> bool" where
  "component_name component \<longleftrightarrow> component = ''filter'' \<or> component = ''nat''"

lemma metadata_userData_join:
  "rs_userData (metadataRuleSpec component revision) =
     join_with CHR '':'' [''tailscale-gateway-agent'', ''v1'', component, revision, ''metadata'']"
  by (simp add: metadataRuleSpec_def)

lemma list_of_5: "length xs = 5 \<Longrightarrow> xs = [xs ! 0, xs ! 1, xs ! 2, xs ! 3, xs ! 4]"
  by (auto simp: numeral_eq_Suc length_Suc_conv)

text \<open>A table is taken for the agent's exactly when its metadata rule is the one \<^verbatim>\<open>metadataRuleSpec\<close> prints for the revision.\<close>

lemma ownershipRevision_sound:
  assumes "ownershipRevision connection table cs component = Inr revision"
  obtains chain rule where "findChain (chainsOfTable cs table) ReservedPacketFilterMetadataChain = Some chain"
    and "cn_GetRules connection table chain = Inr [rule]"
    and "nr_Exprs rule = rs_expressions (metadataRuleSpec component revision)"
    and "nr_UserData rule = rs_userData (metadataRuleSpec component revision)"
proof -
  from assms obtain chain rules digest where chain:
      "findChain (chainsOfTable cs table) ReservedPacketFilterMetadataChain = Some chain"
      "cn_GetRules connection table chain = Inr rules"
    and rules: "length rules = 1" "nr_Exprs (hd rules) = rs_expressions (metadataRuleSpec component [])"
    and parts: "length (split_on CHR '':'' (nr_UserData (hd rules))) = 5"
      "split_on CHR '':'' (nr_UserData (hd rules)) ! 0 = ''tailscale-gateway-agent''"
      "split_on CHR '':'' (nr_UserData (hd rules)) ! 1 = ''v1''"
      "split_on CHR '':'' (nr_UserData (hd rules)) ! 2 = component"
      "split_on CHR '':'' (nr_UserData (hd rules)) ! 4 = ''metadata''"
      "split_on CHR '':'' (nr_UserData (hd rules)) ! 3 = revision"
    by (auto simp: ownershipRevision_def Let_def split: option.splits sum.splits if_splits)
  from rules(1) obtain rule where rule: "rules = [rule]" by (auto simp: length_Suc_conv)
  have "split_on CHR '':'' (nr_UserData rule) = [''tailscale-gateway-agent'', ''v1'', component, revision, ''metadata'']"
    using list_of_5 [OF parts(1)] parts rule by simp
  then have "nr_UserData rule = rs_userData (metadataRuleSpec component revision)"
    by (metis join_split metadata_userData_join)
  with that chain rules(2) rule show thesis by (simp add: metadataRuleSpec_def)
qed

lemma ownershipRevision_complete:
  assumes "findChain (chainsOfTable cs table) ReservedPacketFilterMetadataChain = Some (metadata_chain table')"
    and "cn_GetRules connection table (metadata_chain table') = Inr [rule]"
    and "nr_Exprs rule = rs_expressions (metadataRuleSpec component (fingerprint fs))"
    and "nr_UserData rule = rs_userData (metadataRuleSpec component (fingerprint fs))"
    and "component_name component"
  shows "ownershipRevision connection table cs component = Inr (fingerprint fs)"
proof -
  have "split_on CHR '':'' (nr_UserData rule) = [''tailscale-gateway-agent'', ''v1'', component, fingerprint fs, ''metadata'']"
    unfolding assms(4) metadata_userData_join
    by (rule split_join) (use assms(5) fingerprint_no_colon in \<open>auto simp: component_name_def\<close>)
  with assms(1-3) show ?thesis
    by (simp add: ownershipRevision_def metadata_chain_def metadataRuleSpec_def fingerprint_digest length_Sum256 Let_def)
qed

section \<open>Batches stay within the agent's tables\<close>

type_synonym table_key = "string \<times> table_family"

definition table_key :: "nft_table \<Rightarrow> table_key" where
  "table_key t = (table_Name t, table_Family t)"

fun message_key :: "nft_message \<Rightarrow> table_key option" where
  "message_key (DelTable t) = Some (table_key t)"
| "message_key (AddTable t) = Some (table_key t)"
| "message_key (AddSet s els) = map_option table_key (set_Table s)"
| "message_key (AddChain c) = map_option table_key (chain_Table c)"
| "message_key (AddRule r) = Some (table_key (nr_Table r))"

lemma observeNamedTable_sound:
  assumes "observeNamedTable connection tables cs name component = Inr named"
  shows "case named of None \<Rightarrow> tablesNamed tables name = []
    | Some (table, revision) \<Rightarrow> tablesNamed tables name = [table] \<and> table_key table = (name, TableFamilyINet) \<and>
        ownershipRevision connection table cs component = Inr revision"
proof (cases "tablesNamed tables name = []")
  case True
  with assms show ?thesis by (auto simp: observeNamedTable_def Let_def)
next
  case False
  with assms have one: "length (tablesNamed tables name) = 1" "table_Family (hd (tablesNamed tables name)) = TableFamilyINet"
    by (auto simp: observeNamedTable_def Let_def split: if_splits)
  then obtain t where t: "tablesNamed tables name = [t]" by (auto simp: length_Suc_conv)
  then have "t \<in> set (tablesNamed tables name)" by simp
  then have "table_Name t = name" by (simp add: tablesNamed_def)
  with assms one t show ?thesis
    by (auto simp: observeNamedTable_def table_key_def split: sum.splits)
qed

lemma addRules_key: "msg \<in> set (addRules table chain specs) \<Longrightarrow> message_key msg = Some (table_key table)"
  by (auto simp: addRules_def)

lemma addMetadataRule_key: "msg \<in> set (addMetadataRule table chain component revision) \<Longrightarrow> message_key msg = Some (table_key table)"
  by (auto simp: addMetadataRule_def Let_def)

lemma add_sets_key:
  "add_sets connection table specs sets = Inr (messages, sets') \<Longrightarrow> msg \<in> set messages \<Longrightarrow>
     message_key msg = Some (table_key table) \<and> (\<exists>s els. msg = AddSet s els)"
proof (induction specs arbitrary: sets messages)
  case (Cons spec specs)
  then show ?case
    by (auto simp: new_set_def Let_def split: sum.splits)
qed simp

lemma addFilterTable_shape:
  assumes "addFilterTable order connection policy = Inr messages"
  shows "\<exists>u. AddTable u \<in> set messages \<and> table_key u = (pf_FilterTable policy, TableFamilyINet)"
    and "\<forall>msg \<in> set messages. message_key msg = Some (pf_FilterTable policy, TableFamilyINet) \<and> (\<forall>t. msg \<noteq> DelTable t)"
proof -
  let ?t = "\<lparr>table_Name = pf_FilterTable policy, table_Family = TableFamilyINet, table_Flags = 0\<rparr>"
  let ?f = "addBaseChain ?t (pf_ForwardGuardChain policy) ChainTypeFilter ChainHookForward ChainPriorityFilter"
  let ?l = "addBaseChain ?t (pf_LocalEgressChain policy) ChainTypeRoute ChainHookOutput ChainPriorityMangle"
  from assms obtain ms sets specs fs ls where ms: "add_sets connection ?t (filterSetSpecs policy) Map.empty = Inr (ms, sets)"
    and messages: "messages = [AddTable ?t] @ ms @ [AddChain ?f, AddChain ?l, AddChain (metadata_chain ?t)] @
        addRules ?t ?f fs @ addRules ?t ?l ls @ addMetadataRule ?t (metadata_chain ?t) ''filter'' (FilterRevision policy)"
    by (auto simp: addFilterTable_def Let_def split: sum.splits prod.splits)
  have key: "table_key ?t = (pf_FilterTable policy, TableFamilyINet)" by (simp add: table_key_def)
  show "\<exists>u. AddTable u \<in> set messages \<and> table_key u = (pf_FilterTable policy, TableFamilyINet)"
    using key unfolding messages by auto
  have "message_key msg = Some (pf_FilterTable policy, TableFamilyINet) \<and> (\<forall>t. msg \<noteq> DelTable t)" if "msg \<in> set messages" for msg
    using that addRules_key [of msg ?t] addMetadataRule_key [of msg ?t] add_sets_key [OF ms, of msg]
    unfolding messages key by (auto simp: addBaseChain_def metadata_chain_def key addRules_def addMetadataRule_def Let_def)
  then show "\<forall>msg \<in> set messages. message_key msg = Some (pf_FilterTable policy, TableFamilyINet) \<and> (\<forall>t. msg \<noteq> DelTable t)"
    by blast
qed

lemma addNATTable_shape:
  assumes "addNATTable policy = Inr messages"
  shows "\<exists>u. AddTable u \<in> set messages"
    and "\<forall>msg \<in> set messages. message_key msg = Some (pf_NATTable policy, TableFamilyINet) \<and> (\<forall>t. msg \<noteq> DelTable t)"
proof -
  let ?t = "\<lparr>table_Name = pf_NATTable policy, table_Family = TableFamilyINet, table_Flags = 0\<rparr>"
  let ?d = "addBaseChain ?t (pf_DNSMasqueradeChain policy) ChainTypeNAT ChainHookPostrouting ChainPriorityNATSource"
  from assms obtain specs where messages: "messages = [AddTable ?t, AddChain ?d, AddChain (metadata_chain ?t)] @
        addRules ?t ?d specs @ addMetadataRule ?t (metadata_chain ?t) ''nat'' (NATRevision policy)"
    by (auto simp: addNATTable_def Let_def split: sum.splits)
  have key: "table_key ?t = (pf_NATTable policy, TableFamilyINet)" by (simp add: table_key_def)
  show "\<exists>u. AddTable u \<in> set messages" unfolding messages by auto
  show "\<forall>msg \<in> set messages. message_key msg = Some (pf_NATTable policy, TableFamilyINet) \<and> (\<forall>t. msg \<noteq> DelTable t)"
    using addRules_key [of _ ?t] addMetadataRule_key [of _ ?t] unfolding messages key
    by (auto simp: addBaseChain_def metadata_chain_def key addRules_def addMetadataRule_def Let_def)
qed

text \<open>The parts of a flushed batch.\<close>

lemma Apply_parts:
  assumes "Apply order before after (Inr connection) policy observation = (Some batch, err)"
    and "cn_ListTables connection = Inr tables" "cn_ListChains connection = Inr cs"
  obtains filterBatch natBatch where "policy_Validate policy = []" "batch = filterBatch @ natBatch"
    and "(if FilterMatches observation policy then Inr []
          else replace_table (observeNamedTable connection tables cs (pf_FilterTable policy) ''filter'')
            (addFilterTable order connection policy)) = Inr filterBatch"
    and "(if NATMatches observation policy then Inr []
          else replace_table (observeNamedTable connection tables cs (pf_NATTable policy) ''nat'')
            (if 0 < length (pf_DNSTargets policy) then addNATTable policy else Inr [])) = Inr natBatch"
    and "err = map_option FlushFailed (cn_Flush connection batch)"
  using assms
  by (auto simp: Apply_def Let_def split: if_splits option.splits sum.splits)

lemma replace_table_shape:
  assumes "replace_table (observeNamedTable connection tables cs name component) added = Inr batch"
  obtains messages existing where "added = Inr messages" "batch = map DelTable existing @ messages" "tablesNamed tables name = existing" "length existing \<le> 1"
    and "\<And>t. t \<in> set existing \<Longrightarrow> table_key t = (name, TableFamilyINet) \<and>
           (\<exists>revision. ownershipRevision connection t cs component = Inr revision)"
proof -
  from assms obtain named messages where named: "observeNamedTable connection tables cs name component = Inr named"
    and messages: "added = Inr messages" "batch = (case named of None \<Rightarrow> [] | Some (table, _) \<Rightarrow> [DelTable table]) @ messages"
    by (auto simp: replace_table_def split: sum.splits)
  from observeNamedTable_sound [OF named] messages show thesis
    by (cases named) (auto intro: that [of messages "[]"] that [of messages "[fst (the named)]"])
qed

text \<open>The table's metadata chain, as listed, holds exactly the rule the agent writes for a component and a revision.\<close>

definition agent_metadata :: "nft_conn \<Rightarrow> nft_chain list \<Rightarrow> nft_table \<Rightarrow> string \<Rightarrow> bool" where
  "agent_metadata connection cs t component \<longleftrightarrow>
     (\<exists>chain rule revision. chain \<in> set cs \<and> chain_Name chain = ReservedPacketFilterMetadataChain \<and>
        map_option table_key (chain_Table chain) = Some (table_key t) \<and> cn_GetRules connection t chain = Inr [rule] \<and>
        nr_Exprs rule = rs_expressions (metadataRuleSpec component revision) \<and>
        nr_UserData rule = rs_userData (metadataRuleSpec component revision))"

lemma ownership_metadata:
  assumes "ownershipRevision connection t cs component = Inr revision"
  shows "agent_metadata connection cs t component"
proof -
  obtain chain rule where chain: "findChain (chainsOfTable cs t) ReservedPacketFilterMetadataChain = Some chain"
    and rule: "cn_GetRules connection t chain = Inr [rule]" "nr_Exprs rule = rs_expressions (metadataRuleSpec component revision)"
      "nr_UserData rule = rs_userData (metadataRuleSpec component revision)"
    by (rule ownershipRevision_sound [OF assms])
  from chain have "chain \<in> set (chainsOfTable cs t)" "chain_Name chain = ReservedPacketFilterMetadataChain"
    by (auto simp: findChain_def find_Some_iff)
  then have "chain \<in> set cs" "map_option table_key (chain_Table chain) = Some (table_key t)"
    by (auto simp: chainsOfTable_def table_key_def split: option.splits)
  with rule \<open>chain_Name chain = _\<close> show ?thesis unfolding agent_metadata_def by blast
qed

text \<open>One half of a batch: empty, or the deletion of the agent's table, if there is one, and then the messages that add it.\<close>

definition replacement :: "nft_conn \<Rightarrow> nft_table list \<Rightarrow> nft_chain list \<Rightarrow> string \<Rightarrow> string \<Rightarrow> bool \<Rightarrow> nft_message list \<Rightarrow> bool" where
  "replacement connection tables cs name component readded batch \<longleftrightarrow>
     (\<exists>existing messages. batch = map DelTable existing @ messages \<and>
        (existing = [] \<or> (\<exists>t. existing = [t] \<and> tablesNamed tables name = [t] \<and> table_key t = (name, TableFamilyINet) \<and>
           agent_metadata connection cs t component)) \<and>
        (\<forall>msg \<in> set messages. message_key msg = Some (name, TableFamilyINet) \<and> (\<forall>t. msg \<noteq> DelTable t)) \<and>
        (existing \<noteq> [] \<and> readded \<longrightarrow> (\<exists>u. AddTable u \<in> set messages)))"

lemma replacement_intro:
  assumes "(if matched then Inr [] else replace_table (observeNamedTable connection tables cs name component) added) = Inr batch"
    and "\<And>messages. added = Inr messages \<Longrightarrow>
      (\<forall>msg \<in> set messages. message_key msg = Some (name, TableFamilyINet) \<and> (\<forall>t. msg \<noteq> DelTable t)) \<and>
      (readded \<longrightarrow> (\<exists>u. AddTable u \<in> set messages))"
  shows "replacement connection tables cs name component readded batch"
proof (cases matched)
  case False
  with assms(1) have "replace_table (observeNamedTable connection tables cs name component) added = Inr batch" by simp
  then obtain messages existing where r: "added = Inr messages"
    "batch = map DelTable existing @ messages" "tablesNamed tables name = existing" "length existing \<le> 1"
    "\<And>t. t \<in> set existing \<Longrightarrow> table_key t = (name, TableFamilyINet) \<and>
       (\<exists>revision. ownershipRevision connection t cs component = Inr revision)"
    by (rule replace_table_shape) blast
  have "existing = [] \<or> (\<exists>t. existing = [t] \<and> tablesNamed tables name = [t] \<and> table_key t = (name, TableFamilyINet) \<and>
      agent_metadata connection cs t component)"
    using r(3,4) r(5) [of "hd existing"] by (cases existing) (auto intro: ownership_metadata)
  with r(2) assms(2) [OF r(1)] show ?thesis unfolding replacement_def by (intro exI [of _ existing] exI [of _ messages]) simp
qed (use assms(1) in \<open>simp add: replacement_def\<close>)

lemma replacement_keys:
  "replacement connection tables cs name component readded batch \<Longrightarrow> msg \<in> set batch \<Longrightarrow> message_key msg = Some (name, TableFamilyINet)"
  by (auto simp: replacement_def)

lemma replacement_deletes:
  assumes "replacement connection tables cs name component readded batch" "batch = xs @ DelTable t # ys"
  shows "xs = [] \<and> tablesNamed tables name = [t] \<and> table_key t = (name, TableFamilyINet) \<and> agent_metadata connection cs t component \<and>
    (\<forall>u. DelTable u \<notin> set ys) \<and> (readded \<longrightarrow> (\<exists>u. AddTable u \<in> set ys \<and> table_key u = table_key t))"
proof -
  from assms(1) obtain existing messages where r: "batch = map DelTable existing @ messages"
    "existing = [] \<or> (\<exists>t. existing = [t] \<and> tablesNamed tables name = [t] \<and> table_key t = (name, TableFamilyINet) \<and>
       agent_metadata connection cs t component)"
    "\<forall>msg \<in> set messages. message_key msg = Some (name, TableFamilyINet) \<and> (\<forall>t. msg \<noteq> DelTable t)"
    "existing \<noteq> [] \<and> readded \<longrightarrow> (\<exists>u. AddTable u \<in> set messages)"
    unfolding replacement_def by blast
  have "DelTable t \<notin> set messages" using r(3) by blast
  then obtain d where d: "existing = [d]" using r(1,2) assms(2) by (metis append_Nil in_set_conv_decomp list.simps(8))
  have "xs = [] \<and> d = t \<and> ys = messages"
    using assms(2) r(1) \<open>DelTable t \<notin> set messages\<close> unfolding d by (cases xs) auto
  moreover have "\<exists>u. AddTable u \<in> set messages \<and> table_key u = (name, TableFamilyINet)" if readded
    using r(3,4) d that by fastforce
  ultimately show ?thesis using d r(2,3) by auto
qed

lemma filter_replacement:
  assumes "(if FilterMatches observation policy then Inr []
      else replace_table (observeNamedTable connection tables cs (pf_FilterTable policy) ''filter'')
        (addFilterTable order connection policy)) = Inr fb"
  shows "replacement connection tables cs (pf_FilterTable policy) ''filter'' True fb"
  by (rule replacement_intro [OF assms]) (use addFilterTable_shape in blast)

lemma nat_replacement:
  assumes "(if NATMatches observation policy then Inr []
      else replace_table (observeNamedTable connection tables cs (pf_NATTable policy) ''nat'')
        (if 0 < length (pf_DNSTargets policy) then addNATTable policy else Inr [])) = Inr nb"
  shows "replacement connection tables cs (pf_NATTable policy) ''nat'' (pf_DNSTargets policy \<noteq> []) nb"
  by (rule replacement_intro [OF assms]) (use addNATTable_shape in \<open>force split: if_splits\<close>)

lemma policy_names_distinct:
  "policy_Validate policy = [] \<Longrightarrow> distinct (ReservedPacketFilterMetadataChain # map snd (policy_identifiers policy))"
  by (auto simp: policy_Validate_def Let_def scan_seen_Nil_iff policy_identifiers_def List.map_filter_def)

end
