(* ===== verification/Nftables_Commit.thy ===== *)
theory Nftables_Commit
  imports Nftables_Kernel
begin

text \<open>
  Committing a batch and reading it back. A ruleset is what the readers of a connection show; \<open>message_effect\<close> is the
  documented effect of a netlink message on it, and \<open>nft_reader\<close> the interface of a connection whose readers answer: set
  identifiers and comments are not read back, sizes may be missing, and the elements of a set come in any order. The main
  theorem: after \<open>Apply\<close> commits, \<open>Observe\<close> reports a match.
\<close>

section \<open>Rulesets\<close>

record ruleset =
  rv_tables :: "nft_table list"
  rv_chains :: "nft_chain list"
  rv_rules :: "nft_rule list"
  rv_sets :: "(nft_set \<times> set_element list) list"

definition empty_ruleset :: ruleset where
  "empty_ruleset = \<lparr>rv_tables = [], rv_chains = [], rv_rules = [], rv_sets = []\<rparr>"

definition chain_key :: "nft_chain \<Rightarrow> table_key option" where
  "chain_key c = map_option table_key (chain_Table c)"

definition set_key :: "nft_set \<Rightarrow> table_key option" where
  "set_key s = map_option table_key (set_Table s)"

definition keep :: "(table_key option \<Rightarrow> bool) \<Rightarrow> ruleset \<Rightarrow> ruleset" where
  "keep P v =
     \<lparr>rv_tables = filter (\<lambda>t. P (Some (table_key t))) (rv_tables v), rv_chains = filter (\<lambda>c. P (chain_key c)) (rv_chains v),
      rv_rules = filter (\<lambda>r. P (Some (table_key (nr_Table r)))) (rv_rules v),
      rv_sets = filter (\<lambda>s. P (set_key (fst s))) (rv_sets v)\<rparr>"

fun message_effect :: "nft_message \<Rightarrow> ruleset \<Rightarrow> ruleset" where
  "message_effect (DelTable t) v = keep (\<lambda>k. k \<noteq> Some (table_key t)) v"
| "message_effect (AddTable t) v =
     (if table_key t \<in> table_key ` set (rv_tables v) then v else v\<lparr>rv_tables := rv_tables v @ [t]\<rparr>)"
| "message_effect (AddSet s els) v = v\<lparr>rv_sets := rv_sets v @ [(s, els)]\<rparr>"
| "message_effect (AddChain c) v = v\<lparr>rv_chains := rv_chains v @ [c]\<rparr>"
| "message_effect (AddRule r) v = v\<lparr>rv_rules := rv_rules v @ [r]\<rparr>"

definition commit :: "nft_message list \<Rightarrow> ruleset \<Rightarrow> ruleset" where
  "commit batch v = fold message_effect batch v"

text \<open>The part of a ruleset that belongs to one table.\<close>

definition at :: "table_key \<Rightarrow> ruleset \<Rightarrow> ruleset" where
  "at k v = keep (\<lambda>x. x = Some k) v"

text \<open>Chains, rules and sets belong to tables that exist.\<close>

definition grounded :: "ruleset \<Rightarrow> bool" where
  "grounded v \<longleftrightarrow>
     (let ks = map (\<lambda>t. Some (table_key t)) (rv_tables v) in
      list_all (\<lambda>c. chain_key c \<in> set ks) (rv_chains v) \<and>
      list_all (\<lambda>r. Some (table_key (nr_Table r)) \<in> set ks) (rv_rules v) \<and>
      list_all (\<lambda>s. set_key (fst s) \<in> set ks) (rv_sets v))"

lemma keep_keep: "keep P (keep Q v) = keep (\<lambda>k. Q k \<and> P k) v"
  by (simp add: keep_def conj_commute)

lemma keep_none: "keep (\<lambda>k. False) v = empty_ruleset"
  by (simp add: keep_def empty_ruleset_def)

lemma at_effect_other: "message_key msg \<noteq> Some k \<Longrightarrow> at k (message_effect msg v) = at k v"
proof (cases msg)
  case (DelTable t)
  assume "message_key msg \<noteq> Some k"
  with DelTable have "(\<lambda>x. x \<noteq> Some (table_key t) \<and> x = Some k) = (\<lambda>x. x = Some k)" by auto
  with DelTable show ?thesis by (simp add: at_def keep_keep)
qed (auto simp: at_def keep_def chain_key_def set_key_def)

lemma at_effect_same: "message_key msg = Some k \<Longrightarrow> at k (message_effect msg v) = message_effect msg (at k v)"
proof (cases msg)
  case (DelTable t)
  then show ?thesis by (simp add: at_def keep_keep conj_commute)
next
  case (AddTable t)
  assume "message_key msg = Some k"
  with AddTable show ?thesis by (auto simp: at_def keep_def image_iff)
qed (auto simp: at_def keep_def chain_key_def set_key_def)

lemma commit_append: "commit (a @ b) v = commit b (commit a v)"
  by (simp add: commit_def)

lemma commit_simps [simp]: "commit [] v = v" "commit (msg # b) v = commit b (message_effect msg v)"
  by (simp_all add: commit_def)

lemma at_commit_other: "\<forall>msg \<in> set b. message_key msg \<noteq> Some k \<Longrightarrow> at k (commit b v) = at k v"
  by (induction b arbitrary: v) (simp_all add: at_effect_other)

lemma at_commit_same: "\<forall>msg \<in> set b. message_key msg = Some k \<Longrightarrow> at k (commit b v) = commit b (at k v)"
  by (induction b arbitrary: v) (simp_all add: at_effect_same)

lemma delete_at: "message_effect (DelTable t) (at (table_key t) v) = empty_ruleset"
proof -
  have "(\<lambda>x. x = Some (table_key t) \<and> x \<noteq> Some (table_key t)) = (\<lambda>x. False)" by auto
  then show ?thesis by (simp only: message_effect.simps at_def keep_keep keep_none)
qed

lemma at_absent:
  assumes "grounded v" "k \<notin> table_key ` set (rv_tables v)"
  shows "at k v = empty_ruleset"
proof -
  have "Some k \<notin> (\<lambda>t. Some (table_key t)) ` set (rv_tables v)" using assms(2) by auto
  with assms show ?thesis
    by (auto simp: grounded_def Let_def list_all_iff at_def keep_def empty_ruleset_def filter_empty_conv image_iff) (metis option.inject)+
qed

lemma tablesNamed_effect_other:
  assumes "\<forall>family. message_key msg \<noteq> Some (name, family)"
  shows "tablesNamed (rv_tables (message_effect msg v)) name = tablesNamed (rv_tables v) name"
  using assms by (cases msg) (auto simp: tablesNamed_def keep_def table_key_def intro!: filter_cong)

lemma tablesNamed_commit_other:
  "\<forall>msg \<in> set b. \<forall>family. message_key msg \<noteq> Some (name, family) \<Longrightarrow>
     tablesNamed (rv_tables (commit b v)) name = tablesNamed (rv_tables v) name"
  by (induction b arbitrary: v) (simp_all add: tablesNamed_effect_other)

lemma chainsOfTable_at: "chainsOfTable (rv_chains v) t = rv_chains (at (table_key t) v)"
  by (auto simp: chainsOfTable_def at_def keep_def chain_key_def table_key_def intro!: filter_cong split: option.splits)

section \<open>Readers\<close>

fun shown_expr :: "32 word \<Rightarrow> nft_expr \<Rightarrow> nft_expr" where
  "shown_expr rid (Lookup r name i) = Lookup r name rid"
| "shown_expr rid e = e"

definition shown_rule :: "32 word \<Rightarrow> nft_rule \<Rightarrow> nft_rule" where
  "shown_rule rid r = r\<lparr>nr_Exprs := map (shown_expr rid) (nr_Exprs r)\<rparr>"

definition shown_set :: "32 word \<Rightarrow> (set_element list \<Rightarrow> 32 word) \<Rightarrow> nft_set \<times> set_element list \<Rightarrow> nft_set" where
  "shown_set rid size_of s = (fst s)\<lparr>set_ID := rid, set_Comment := [], set_Size := size_of (snd s)\<rparr>"

locale nft_reader =
  fixes rid :: "32 word"
    and size_of :: "set_element list \<Rightarrow> 32 word"
    and shuffle :: "set_element list \<Rightarrow> set_element list"
    and missing :: port_error
    and connection :: "ruleset \<Rightarrow> nft_conn"
  assumes size_of: "size_of els = 0 \<or> unat (size_of els) = length els"
    and shuffle: "mset (shuffle els) = mset els"
    and list_tables: "cn_ListTables (connection v) = Inr (rv_tables v)"
    and list_chains: "cn_ListChains (connection v) = Inr (rv_chains v)"
    and get_rules: "cn_GetRules (connection v) t c =
          Inr (map (shown_rule rid) (filter (\<lambda>r. chain_Name (nr_Chain r) = chain_Name c) (rv_rules (at (table_key t) v))))"
    and get_sets: "cn_GetSets (connection v) t = Inr (map (shown_set rid size_of) (rv_sets (at (table_key t) v)))"
    and get_elements: "cn_GetSetElements (connection v) s =
          (case find (\<lambda>x. set_Name (fst x) = set_Name s \<and> set_key (fst x) = set_key s) (rv_sets v) of
             None \<Rightarrow> Inl missing | Some x \<Rightarrow> Inr (shuffle (snd x)))"

lemma find_filter: "find P (filter Q xs) = find (\<lambda>x. P x \<and> Q x) xs"
  by (induction xs) auto

lemma validSetDefinition_key: "validSetDefinition (Some s) t spec \<Longrightarrow> set_key s = Some (table_key t)"
  by (auto simp: validSetDefinition_def set_key_def table_key_def split: option.splits if_splits)

context nft_reader
begin

lemma get_elements_at:
  assumes "set_key s = Some k"
  shows "cn_GetSetElements (connection v) s =
    (case find (\<lambda>x. set_Name (fst x) = set_Name s) (rv_sets (at k v)) of None \<Rightarrow> Inl missing | Some x \<Rightarrow> Inr (shuffle (snd x)))"
proof -
  have "find (\<lambda>x. set_Name (fst x) = set_Name s) (rv_sets (at k v)) =
      find (\<lambda>x. set_Name (fst x) = set_Name s \<and> set_key (fst x) = Some k) (rv_sets v)"
    by (simp add: at_def keep_def find_filter)
  then show ?thesis by (simp add: get_elements assms)
qed

lemma validate_specs_at:
  assumes "at (table_key t) v = at (table_key t) v'"
  shows "validate_specs (connection v) t m specs = validate_specs (connection v') t m specs"
proof (induction specs)
  case (Cons spec specs)
  show ?case
  proof (cases "validSetDefinition (m (ss_name spec)) t spec")
    case True
    then obtain s where s: "m (ss_name spec) = Some s" by (cases "m (ss_name spec)") (auto simp: validSetDefinition_def)
    with True have "set_key s = Some (table_key t)" by (simp add: validSetDefinition_key)
    from get_elements_at [OF this, of v] get_elements_at [OF this, of v'] assms
    have "cn_GetSetElements (connection v) s = cn_GetSetElements (connection v') s" by simp
    with s Cons show ?thesis by (simp split: sum.split)
  qed simp
qed simp

lemma validateSets_at:
  assumes "at (table_key t) v = at (table_key t) v'"
  shows "validateSets (connection v) t specs = validateSets (connection v') t specs"
  unfolding validateSets_def get_sets validate_specs_at [OF assms] assms ..

lemma rules_at:
  "at (table_key t) v = at (table_key t) v' \<Longrightarrow> cn_GetRules (connection v) t c = cn_GetRules (connection v') t c"
  by (simp add: get_rules)

lemma observeNamedTable_at:
  assumes "tablesNamed (rv_tables v) name = tablesNamed (rv_tables v') name" "at (name, TableFamilyINet) v = at (name, TableFamilyINet) v'"
  shows "observeNamedTable (connection v) (rv_tables v) (rv_chains v) name component =
    observeNamedTable (connection v') (rv_tables v') (rv_chains v') name component"
proof (cases "length (tablesNamed (rv_tables v') name) = 1 \<and> table_Family (hd (tablesNamed (rv_tables v') name)) = TableFamilyINet")
  case True
  then obtain t where t: "tablesNamed (rv_tables v') name = [t]" "table_Family t = TableFamilyINet" by (auto simp: length_Suc_conv)
  then have "t \<in> set (tablesNamed (rv_tables v') name)" by simp
  then have "table_key t = (name, TableFamilyINet)" using t(2) by (simp add: tablesNamed_def table_key_def)
  with assms(2) have "ownershipRevision (connection v) t (rv_chains v) component = ownershipRevision (connection v') t (rv_chains v') component"
    unfolding ownershipRevision_def chainsOfTable_at rules_at [of t v v', simplified \<open>table_key t = _\<close>, OF assms(2)] by simp
  with assms(1) t show ?thesis by (simp add: observeNamedTable_def)
next
  case False
  with assms(1) show ?thesis by (auto simp: observeNamedTable_def Let_def)
qed

lemma validateFilterTable_at:
  assumes "at (table_key t) v = at (table_key t) v'"
  shows "validateFilterTable order (connection v) t (rv_chains v) policy = validateFilterTable order (connection v') t (rv_chains v') policy"
proof -
  have "validate_chains (connection v) t expected revision cs = validate_chains (connection v') t expected revision cs"
    for expected revision cs
    by (induction cs) (simp_all add: rules_at [OF assms] split: sum.split)
  then show ?thesis
    unfolding validateFilterTable_def chainsOfTable_at validMetadataRevision_def validateSets_at [OF assms] rules_at [OF assms] assms
    by presburger
qed

lemma validateNATTable_at:
  assumes "at (table_key t) v = at (table_key t) v'"
  shows "validateNATTable (connection v) t (rv_chains v) policy = validateNATTable (connection v') t (rv_chains v') policy"
  unfolding validateNATTable_def chainsOfTable_at validMetadataRevision_def validateSets_at [OF assms] rules_at [OF assms] assms
  by simp

end

section \<open>What a rebuilt table shows\<close>

definition rule_in :: "nft_table \<Rightarrow> nft_chain \<Rightarrow> rule_spec \<Rightarrow> nft_rule" where
  "rule_in t c s = \<lparr>nr_Table = t, nr_Chain = c, nr_Exprs = rs_expressions s, nr_UserData = rs_userData s\<rparr>"

lemma commit_addRules: "commit (addRules t c specs) v = v\<lparr>rv_rules := rv_rules v @ map (rule_in t c) specs\<rparr>"
  by (induction specs arbitrary: v) (simp_all add: addRules_def rule_in_def)

lemma commit_addMetadataRule:
  "commit (addMetadataRule t c component revision) v = v\<lparr>rv_rules := rv_rules v @ [rule_in t c (metadataRuleSpec component revision)]\<rparr>"
  by (simp add: addMetadataRule_def rule_in_def Let_def)

lemma commit_addSets: "commit (map (\<lambda>x. AddSet (fst x) (snd x)) added) v = v\<lparr>rv_sets := rv_sets v @ added\<rparr>"
  by (induction added arbitrary: v) simp_all

lemma filter_rule_in:
  "filter (\<lambda>r. chain_Name (nr_Chain r) = name) (map (rule_in t c) specs) = (if chain_Name c = name then map (rule_in t c) specs else [])"
  by (simp add: filter_map comp_def rule_in_def filter_empty_conv)

lemma rs_userData_number_rules:
  "i < length specs \<Longrightarrow> rs_userData (number_rules component chain revision specs ! i) = ruleUserData component chain revision i"
  by (simp add: number_rules_def nth_enumerate_eq)

lemma length_number_rules [simp]: "length (number_rules component chain revision specs) = length specs"
  by (simp add: number_rules_def)

definition numbered :: "string \<Rightarrow> string \<Rightarrow> string \<Rightarrow> rule_spec list \<Rightarrow> bool" where
  "numbered component chain revision specs \<longleftrightarrow>
     (\<forall>i < length specs. rs_userData (specs ! i) = ruleUserData component chain revision i)"

lemma numbered_number_rules: "numbered component chain revision (number_rules component chain revision specs)"
  by (simp add: numbered_def rs_userData_number_rules)

definition shown_exprs :: "32 word \<Rightarrow> rule_spec list \<Rightarrow> nft_expr list list" where
  "shown_exprs rid specs = map (\<lambda>s. map (shown_expr rid) (rs_expressions s)) specs"

lemma rulesEqual_shown:
  assumes "numbered component chain revision specs" "map rs_expressions expected = shown_exprs rid specs"
  shows "rulesEqual (map (shown_rule rid) (map (rule_in t c) specs)) expected component chain revision"
proof -
  have len: "length expected = length specs"
    using arg_cong [OF assms(2), of length] by (simp add: shown_exprs_def)
  have "map (shown_expr rid) (rs_expressions (specs ! i)) = rs_expressions (expected ! i)" if "i < length specs" for i
    using arg_cong [OF assms(2), of "\<lambda>xs. xs ! i"] that len by (simp add: shown_exprs_def)
  with assms(1) len show ?thesis
    by (auto simp: rulesEqual_def list_all_iff in_set_enumerate_eq numbered_def shown_rule_def rule_in_def)
qed

lemma shown_prefixVerdict: "map (shown_expr rid) (prefixVerdictExpressions pfx source v) = prefixVerdictExpressions pfx source v"
  by (simp add: prefixVerdictExpressions_def Let_def)

lemma shown_dnsMasquerade: "map (shown_expr rid) (dnsMasqueradeExpressions pfx d out protocol) = dnsMasqueradeExpressions pfx d out protocol"
  by (simp add: dnsMasqueradeExpressions_def Let_def)

lemma shown_localEgress:
  assumes "set_Name s' = set_Name s" "set_ID s' = rid"
  shows "map (shown_expr rid) (localEgressExpressions order a s protocol port mark) = localEgressExpressions order a s' protocol port mark"
  using assms by (simp add: localEgressExpressions_def Let_def)

lemma shown_metadata: "map (shown_expr rid) (rs_expressions (metadataRuleSpec component revision)) = rs_expressions (metadataRuleSpec component revision)"
  by (simp add: metadataRuleSpec_def)

definition sets_shown :: "32 word \<Rightarrow> (string \<rightharpoonup> nft_set) \<Rightarrow> (string \<rightharpoonup> nft_set) \<Rightarrow> bool" where
  "sets_shown rid sets sets' \<longleftrightarrow> (\<forall>n. rel_option (\<lambda>s s'. set_Name s' = set_Name s \<and> set_ID s' = rid) (sets n) (sets' n))"

lemma egress_rules_shown:
  assumes "sets_shown rid sets sets'"
  shows "egress_rules order local sets families = Inr specs \<Longrightarrow>
    \<exists>specs'. egress_rules order local sets' families = Inr specs' \<and> map rs_expressions specs' = shown_exprs rid specs"
proof (induction families arbitrary: specs)
  case (Cons family families)
  obtain addresses name where fam: "family = (addresses, name)" by (cases family)
  show ?case
  proof (cases "addresses = []")
    case False
    define body where "body s = concat (map (\<lambda>protocol. map (\<lambda>port.
        rule_of (localEgressExpressions order (hd addresses) s protocol port (le_Mark local))) (sort (le_Ports local)))
        (sort (le_Protocols local)))" for s
    have step: "egress_rules order local m (family # families) = (case m name of None \<Rightarrow> Inl (SetUnavailable name)
        | Some s \<Rightarrow> (case egress_rules order local m families of Inl e \<Rightarrow> Inl e | Inr rest \<Rightarrow> Inr (body s @ rest)))" for m
      using False fam by (auto simp: body_def split: option.split sum.split)
    from Cons.prems obtain s rest where s: "sets name = Some s" and rest: "egress_rules order local sets families = Inr rest"
      and specs: "specs = body s @ rest"
      unfolding step by (auto simp only: option.case sum.case sum.distinct sum.inject split: option.splits sum.splits)
    from Cons.IH [OF rest] obtain rest' where rest': "egress_rules order local sets' families = Inr rest'"
      "map rs_expressions rest' = shown_exprs rid rest" by blast
    have "rel_option (\<lambda>s s'. set_Name s' = set_Name s \<and> set_ID s' = rid) (sets name) (sets' name)"
      using assms by (simp add: sets_shown_def)
    with s obtain s' where s': "sets' name = Some s'" "set_Name s' = set_Name s" "set_ID s' = rid"
      by (cases "sets' name") auto
    have "map rs_expressions (body s') = shown_exprs rid (body s)"
      by (simp add: body_def shown_exprs_def map_concat comp_def rule_of_def shown_localEgress [OF s'(2,3)])
    then have "map rs_expressions (body s' @ rest') = shown_exprs rid specs"
      using rest'(2) by (simp add: specs shown_exprs_def)
    moreover have "egress_rules order local sets' (family # families) = Inr (body s' @ rest')"
      by (simp only: step s'(1) rest'(1) option.case sum.case)
    ultimately show ?thesis by blast
  next
    case True
    then have "egress_rules order local m (family # families) = egress_rules order local m families" for m
      using fam by simp
    with Cons.IH Cons.prems show ?thesis by metis
  qed
qed (simp add: shown_exprs_def)

lemma filterRuleSpecs_shown:
  assumes "filterRuleSpecs order policy sets = Inr rules" "sets_shown rid sets sets'"
  obtains rules' fs ls fs' ls' where "filterRuleSpecs order policy sets' = Inr rules'"
    and "rules (pf_ForwardGuardChain policy) = Some fs" "rules' (pf_ForwardGuardChain policy) = Some fs'"
    and "rules (pf_LocalEgressChain policy) = Some ls" "rules' (pf_LocalEgressChain policy) = Some ls'"
    and "map rs_expressions fs' = shown_exprs rid fs" "map rs_expressions ls' = shown_exprs rid ls"
    and "numbered ''filter'' (pf_ForwardGuardChain policy) (FilterRevision policy) fs"
    and "numbered ''filter'' (pf_LocalEgressChain policy) (FilterRevision policy) ls"
proof -
  let ?local = "pf_LocalEgress policy"
  let ?families = "[(le_IPv4 ?local, pf_LocalEgressIPv4Set policy), (le_IPv6 ?local, pf_LocalEgressIPv6Set policy)]"
  let ?number = "\<lambda>chain. number_rules ''filter'' chain (FilterRevision policy)"
  let ?egress = "\<lambda>sets. if le_Enabled ?local then egress_rules order ?local sets ?families else Inr []"
  have valid: "policy_Validate policy = []"
    using assms(1) by (auto simp: filterRuleSpecs_def split: if_splits)
  have names: "pf_ForwardGuardChain policy \<noteq> pf_LocalEgressChain policy"
    using policy_names_distinct [OF valid] by (simp add: policy_identifiers_def)
  have eq: "filterRuleSpecs order policy sets = (case ?egress sets of Inl e \<Rightarrow> Inl e
      | Inr specs \<Rightarrow> Inr (\<lambda>chain. map_option (?number chain)
          ([pf_ForwardGuardChain policy \<mapsto> gate_rules policy, pf_LocalEgressChain policy \<mapsto> specs] chain)))" for sets
    using valid names by (auto simp: filterRuleSpecs_def Let_def fun_eq_iff split: sum.splits)
  from assms(1) obtain specs where specs: "?egress sets = Inr specs"
    by (auto simp: eq split: sum.splits)
  with egress_rules_shown [OF assms(2), of order ?local ?families specs] obtain specs' where
    specs': "?egress sets' = Inr specs'" "map rs_expressions specs' = shown_exprs rid specs"
    by (cases "le_Enabled ?local") (auto simp: shown_exprs_def simp del: egress_rules.simps)
  have gate: "map rs_expressions (gate_rules policy) = shown_exprs rid (gate_rules policy)"
    by (cases "pf_GateClosed policy") (simp_all add: gate_rules_def shown_exprs_def rule_of_def shown_prefixVerdict)
  have number: "map rs_expressions (?number chain xs) = shown_exprs rid (?number chain ys)"
    if "map rs_expressions xs = shown_exprs rid ys" for chain xs ys
  proof -
    have "shown_exprs rid zs = map (map (shown_expr rid)) (map rs_expressions zs)" for zs
      by (simp add: shown_exprs_def)
    note flat = this
    show ?thesis using that unfolding flat number_rules_expressions .
  qed
  let ?fwd = "pf_ForwardGuardChain policy" and ?loc = "pf_LocalEgressChain policy"
  define made where "made specs chain = map_option (?number chain) ([?fwd \<mapsto> gate_rules policy, ?loc \<mapsto> specs] chain)" for specs chain
  have chain_rules: "made specs ?fwd = Some (?number ?fwd (gate_rules policy))" "made specs ?loc = Some (?number ?loc specs)" for specs
    using names by (simp_all add: made_def)
  have "filterRuleSpecs order policy sets' = Inr (made specs')"
    using specs'(1) by (simp only: eq sum.case made_def [abs_def])
  moreover have "rules = made specs"
    using assms(1) specs by (simp only: eq sum.case sum.inject made_def [abs_def])
  ultimately show thesis
    by (intro that [of "made specs'" "?number ?fwd (gate_rules policy)" "?number ?fwd (gate_rules policy)"
          "?number ?loc specs" "?number ?loc specs'"])
      (simp_all only: chain_rules number [OF gate] number [OF specs'(2)] numbered_number_rules)
qed

section \<open>Sets that were added\<close>

definition added_for :: "nft_table \<Rightarrow> set_spec \<Rightarrow> nft_set \<times> set_element list \<Rightarrow> bool" where
  "added_for t spec x \<longleftrightarrow> (\<exists>i. fst x = (new_set t spec)\<lparr>set_ID := i\<rparr>) \<and> snd x = ss_elements spec"

lemma added_for_name: "added_for t spec x \<Longrightarrow> set_Name (fst x) = ss_name spec \<and> set_key (fst x) = Some (table_key t)"
  by (auto simp: added_for_def new_set_def set_key_def)

definition by_name :: "nft_set list \<Rightarrow> (string \<rightharpoonup> nft_set) \<Rightarrow> (string \<rightharpoonup> nft_set)" where
  "by_name ss m = fold (\<lambda>s m. m(set_Name s \<mapsto> s)) ss m"

lemma add_sets_added:
  assumes "add_sets connection t specs m = Inr (messages, sets)"
  shows "\<exists>added. messages = map (\<lambda>x. AddSet (fst x) (snd x)) added \<and> list_all2 (added_for t) specs added \<and>
    sets = by_name (map fst added) m"
  using assms
proof (induction specs arbitrary: m messages)
  case (Cons spec specs)
  then obtain i ms where i: "cn_AddSet connection (new_set t spec) (ss_elements spec) = Inr i"
    and rest: "add_sets connection t specs (m(ss_name spec \<mapsto> (new_set t spec)\<lparr>set_ID := i\<rparr>)) = Inr (ms, sets)"
    and messages: "messages = AddSet ((new_set t spec)\<lparr>set_ID := i\<rparr>) (ss_elements spec) # ms"
    by (auto simp: Let_def split: sum.splits)
  from Cons.IH [OF rest] obtain added where added: "ms = map (\<lambda>x. AddSet (fst x) (snd x)) added" "list_all2 (added_for t) specs added"
    "sets = by_name (map fst added) (m(ss_name spec \<mapsto> (new_set t spec)\<lparr>set_ID := i\<rparr>))" by blast
  have "set_Name ((new_set t spec)\<lparr>set_ID := i\<rparr>) = ss_name spec" by (simp add: new_set_def)
  moreover have "added_for t spec ((new_set t spec)\<lparr>set_ID := i\<rparr>, ss_elements spec)"
    by (auto simp: added_for_def)
  ultimately show ?case
    using added messages
    by (intro exI [of _ "((new_set t spec)\<lparr>set_ID := i\<rparr>, ss_elements spec) # added"]) (simp add: by_name_def)
qed (simp add: by_name_def)

lemma sets_by_name_distinct:
  assumes "distinct (map set_Name ss)" "set (map set_Name ss) \<inter> dom m = {}"
  shows "sets_by_name ss m = Some (by_name ss m)"
  using assms by (induction ss arbitrary: m) (auto simp: by_name_def)

lemma by_name_lookup:
  assumes "distinct (map set_Name ss)" "s \<in> set ss"
  shows "by_name ss m (set_Name s) = Some s"
proof -
  have other: "by_name ss m n = m n" if "n \<notin> set_Name ` set ss" for ss m n
    using that by (induction ss arbitrary: m) (auto simp: by_name_def)
  from assms show ?thesis
  proof (induction ss arbitrary: m)
    case (Cons u ss)
    then show ?case
      using other [of "set_Name u" ss "m(set_Name u \<mapsto> u)"] by (auto simp: by_name_def)
  qed simp
qed

lemma sets_shown_by_name:
  assumes "list_all2 (\<lambda>s s'. set_Name s' = set_Name s \<and> set_ID s' = rid) ss ss'" "sets_shown rid m m'"
  shows "sets_shown rid (by_name ss m) (by_name ss' m')"
  using assms
proof (induction arbitrary: m m' rule: list_all2_induct)
  case (Cons s ss s' ss')
  then have "sets_shown rid (m(set_Name s \<mapsto> s)) (m'(set_Name s' \<mapsto> s'))"
    by (auto simp: sets_shown_def)
  with Cons show ?case by (simp add: by_name_def)
qed (simp add: by_name_def)

interpretation element_cmp: comparator_key "\<lambda>l r. cmp3 (se_Key l) (se_Key r)" se_Key
  by unfold_locales (auto simp: cmp3_def)

lemma setElementsEqual_perm:
  assumes "mset observed = mset expected" "list_all plain_element expected"
  shows "setElementsEqual observed expected"
proof -
  let ?o = "sort_func (\<lambda>l r. cmp3 (se_Key l) (se_Key r)) observed" and ?e = "sort_func (\<lambda>l r. cmp3 (se_Key l) (se_Key r)) expected"
  have len: "length observed = length expected" using assms(1) by (rule mset_eq_length)
  have sorted: "map se_Key (sort_func (\<lambda>l r. cmp3 (se_Key l) (se_Key r)) xs) = sort (map se_Key xs)" for xs
    by (rule properties_for_sort [symmetric]) (simp_all add: element_cmp.mset_sort_func element_cmp.sorted_sort_func)
  have "mset (map se_Key observed) = mset (map se_Key expected)" using assms(1) by simp
  then have keys: "map se_Key ?o = map se_Key ?e"
    unfolding sorted sorted_eq_iff_mset .
  have plain: "plain_element x" if "x \<in> set ?o" for x
    using that mset_eq_setD [OF assms(1)] assms(2) by (simp add: element_cmp.set_sort_func list_all_iff)
  have lens: "length ?o = length ?e" using arg_cong [OF keys, of length] by simp
  have "se_Key (?o ! i) = se_Key (?e ! i)" if "i < length ?o" for i
    using arg_cong [OF keys, of "\<lambda>xs. xs ! i"] that lens by simp
  with plain have "list_all (\<lambda>(item, wanted). se_Key item = se_Key wanted \<and> plain_element item) (zip ?o ?e)"
    by (auto simp: list_all_iff in_set_zip)
  with len show ?thesis by (simp add: setElementsEqual_def Let_def)
qed

lemma addressSetElements_plain: "list_all plain_element (addressSetElements addresses)"
  by (auto simp: addressSetElements_def list_all_iff key_element_def plain_element_def)

lemma filterSetSpecs_plain: "spec \<in> set (filterSetSpecs policy) \<Longrightarrow> list_all plain_element (ss_elements spec)"
  by (auto simp: filterSetSpecs_def family_set_spec_def addressSetElements_plain split: if_splits)

lemma filterSetSpecs_distinct:
  assumes "policy_Validate policy = []"
  shows "distinct (map ss_name (filterSetSpecs policy))"
  using policy_names_distinct [OF assms]
  by (auto simp: filterSetSpecs_def family_set_spec_def policy_identifiers_def)

lemma find_distinct:
  "distinct (map f xs) \<Longrightarrow> x \<in> set xs \<Longrightarrow> find (\<lambda>y. f y = f x) xs = Some x"
  by (induction xs) (auto simp: image_iff)

context nft_reader
begin

lemma validSetDefinition_shown:
  assumes "added_for t spec x"
  shows "validSetDefinition (Some (shown_set rid size_of x)) t spec"
proof -
  obtain i where x: "fst x = (new_set t spec)\<lparr>set_ID := i\<rparr>" "snd x = ss_elements spec"
    using assms by (auto simp: added_for_def)
  show ?thesis
    using size_of [of "ss_elements spec"] by (simp add: validSetDefinition_def shown_set_def x new_set_def)
qed

lemma validateSets_added:
  assumes added: "list_all2 (added_for t) specs added" and sets: "rv_sets (at (table_key t) v) = added"
    and names: "distinct (map ss_name specs)" and plain: "\<And>spec. spec \<in> set specs \<Longrightarrow> list_all plain_element (ss_elements spec)"
  shows "validateSets (connection v) t specs = Inr (Some (by_name (map (shown_set rid size_of) added) Map.empty))"
proof -
  let ?shown = "map (shown_set rid size_of) added"
  let ?m = "by_name ?shown Map.empty"
  have shown_name: "set_Name (shown_set rid size_of x) = set_Name (fst x)" "set_key (shown_set rid size_of x) = set_key (fst x)" for x
    by (simp_all add: shown_set_def set_key_def)
  have same: "map (\<lambda>x. set_Name (fst x)) added = map ss_name specs"
    using added by (induction rule: list_all2_induct) (simp_all add: added_for_name)
  then have distinct: "distinct (map set_Name ?shown)"
    using names by (simp add: comp_def shown_name)
  have "validate_specs (connection v) t ?m rest = Inr True" if "set rest \<subseteq> set specs" for rest
    using that
  proof (induction rest)
    case (Cons spec rest)
    then have "spec \<in> set specs" by simp
    then obtain x where x: "x \<in> set added" "added_for t spec x"
      using added by (metis in_set_conv_nth list_all2_conv_all_nth)
    have lookup: "?m (ss_name spec) = Some (shown_set rid size_of x)"
      using by_name_lookup [OF distinct, of "shown_set rid size_of x" Map.empty] x added_for_name [OF x(2)] by (simp add: shown_name)
    have "distinct (map (\<lambda>x. set_Name (fst x)) added)" using same names by simp
    from find_distinct [OF this x(1)] get_elements_at [of "shown_set rid size_of x" "table_key t" v] sets added_for_name [OF x(2)]
    have "cn_GetSetElements (connection v) (shown_set rid size_of x) = Inr (shuffle (ss_elements spec))"
      using x(2) by (simp add: shown_name added_for_def)
    moreover have "setElementsEqual (shuffle (ss_elements spec)) (ss_elements spec)"
      using setElementsEqual_perm [OF shuffle] plain \<open>spec \<in> set specs\<close> by blast
    ultimately show ?case
      using Cons lookup validSetDefinition_shown [OF x(2)] by simp
  qed simp
  moreover have "sets_by_name ?shown Map.empty = Some ?m"
    by (rule sets_by_name_distinct [OF distinct]) simp
  moreover have "length added = length specs" using added by (simp add: list_all2_lengthD)
  ultimately show ?thesis
    by (simp add: validateSets_def get_sets sets)
qed

lemma ownership_rebuilt:
  assumes "table_key t = k" "findChain (rv_chains (at k v)) ReservedPacketFilterMetadataChain = Some (metadata_chain t)"
    and "filter (\<lambda>r. chain_Name (nr_Chain r) = ReservedPacketFilterMetadataChain) (rv_rules (at k v)) =
      [rule_in t (metadata_chain t) (metadataRuleSpec component revision)]"
    and "component_name component" "revision = fingerprint fs" "tablesNamed (rv_tables v) (table_Name t) = [t]" "table_Family t = TableFamilyINet"
  shows "observeNamedTable (connection v) (rv_tables v) (rv_chains v) (table_Name t) component = Inr (Some (t, revision))"
    and "validMetadataRevision (connection v) t (metadata_chain t) component revision = Inr True"
proof -
  have rules: "cn_GetRules (connection v) t (metadata_chain t) =
      Inr [shown_rule rid (rule_in t (metadata_chain t) (metadataRuleSpec component revision))]"
    using assms(1,3) by (simp add: get_rules metadata_chain_def)
  have "ownershipRevision (connection v) t (rv_chains v) component = Inr (fingerprint fs)"
  proof (rule ownershipRevision_complete)
    show "findChain (chainsOfTable (rv_chains v) t) ReservedPacketFilterMetadataChain = Some (metadata_chain t)"
      using assms(1,2) by (simp add: chainsOfTable_at)
    show "cn_GetRules (connection v) t (metadata_chain t) =
      Inr [shown_rule rid (rule_in t (metadata_chain t) (metadataRuleSpec component revision))]" by (rule rules)
  qed (use assms(4,5) in \<open>simp_all add: shown_rule_def rule_in_def shown_metadata\<close>)
  with assms(5,6,7) show "observeNamedTable (connection v) (rv_tables v) (rv_chains v) (table_Name t) component = Inr (Some (t, revision))"
    by (simp add: observeNamedTable_def)
  show "validMetadataRevision (connection v) t (metadata_chain t) component revision = Inr True"
    by (simp add: validMetadataRevision_def rules shown_rule_def rule_in_def shown_metadata)
qed

lemma nat_rebuilt:
  assumes valid: "policy_Validate policy = []" and added: "addNATTable policy = Inr messages"
    and rebuilt: "at (pf_NATTable policy, TableFamilyINet) v = commit messages empty_ruleset"
    and only: "tablesNamed (rv_tables v) (pf_NATTable policy) = rv_tables (at (pf_NATTable policy, TableFamilyINet) v)"
  shows "observe_half (observeNamedTable (connection v) (rv_tables v) (rv_chains v) (pf_NATTable policy) ''nat'') (NATRevision policy)
    (\<lambda>t. validateNATTable (connection v) t (rv_chains v) policy) = Inr (True, NATRevision policy)"
proof -
  define t where "t = \<lparr>table_Name = pf_NATTable policy, table_Family = TableFamilyINet, table_Flags = 0\<rparr>"
  define d where "d = addBaseChain t (pf_DNSMasqueradeChain policy) ChainTypeNAT ChainHookPostrouting ChainPriorityNATSource"
  from added obtain specs where specs: "natRuleSpecs policy = Inr specs"
    and messages: "messages = [AddTable t, AddChain d, AddChain (metadata_chain t)] @ addRules t d specs @
      addMetadataRule t (metadata_chain t) ''nat'' (NATRevision policy)"
    by (auto simp: addNATTable_def Let_def t_def d_def split: sum.splits)
  have key: "table_key t = (pf_NATTable policy, TableFamilyINet)" by (simp add: table_key_def t_def)
  have d: "chain_Name d = pf_DNSMasqueradeChain policy" by (simp add: d_def addBaseChain_def)
  have m: "chain_Name (metadata_chain t) = ReservedPacketFilterMetadataChain" by (simp add: metadata_chain_def)
  have names: "pf_DNSMasqueradeChain policy \<noteq> ReservedPacketFilterMetadataChain"
    using policy_names_distinct [OF valid] by (auto simp: policy_identifiers_def)
  define R where "R = \<lparr>rv_tables = [t], rv_chains = [d, metadata_chain t],
      rv_rules = map (rule_in t d) specs @ [rule_in t (metadata_chain t) (metadataRuleSpec ''nat'' (NATRevision policy))], rv_sets = []\<rparr>"
  have at: "at (table_key t) v = R"
    unfolding key rebuilt messages R_def
    by (simp add: commit_append commit_addRules commit_addMetadataRule empty_ruleset_def)
  have listed: "tablesNamed (rv_tables v) (table_Name t) = [t]"
    using only key at by (simp add: t_def R_def)
  have find: "findChain (rv_chains R) (pf_DNSMasqueradeChain policy) = Some d"
    "findChain (rv_chains R) ReservedPacketFilterMetadataChain = Some (metadata_chain t)"
    using names d m by (simp_all add: R_def findChain_def)
  have frules: "filter (\<lambda>r. chain_Name (nr_Chain r) = ReservedPacketFilterMetadataChain) (rv_rules R) =
      [rule_in t (metadata_chain t) (metadataRuleSpec ''nat'' (NATRevision policy))]"
    "filter (\<lambda>r. chain_Name (nr_Chain r) = chain_Name d) (rv_rules R) = map (rule_in t d) specs"
    using names d m by (simp_all add: R_def filter_rule_in) (simp_all add: rule_in_def)
  note own = ownership_rebuilt [OF refl find(2) [folded at] frules(1) [folded at] _ NATRevision_def]
  have "rulesEqual (map (shown_rule rid) (map (rule_in t d) specs)) specs ''nat'' (chain_Name d) (NATRevision policy)"
  proof (rule rulesEqual_shown)
    show "numbered ''nat'' (chain_Name d) (NATRevision policy) specs"
      using specs valid by (auto simp: natRuleSpecs_def Let_def d numbered_number_rules)
    obtain raw where raw: "specs = number_rules ''nat'' (pf_DNSMasqueradeChain policy) (NATRevision policy) raw"
      "\<forall>s \<in> set raw. map (shown_expr rid) (rs_expressions s) = rs_expressions s"
      using specs valid by (auto simp: natRuleSpecs_def Let_def rule_of_def shown_dnsMasquerade)
    have "map rs_expressions specs = map (map (shown_expr rid)) (map rs_expressions specs)"
      unfolding raw(1) number_rules_expressions using raw(2) by simp
    then show "map rs_expressions specs = shown_exprs rid specs" by (simp add: shown_exprs_def comp_def)
  qed
  moreover have "cn_GetRules (connection v) t d = Inr (map (shown_rule rid) (map (rule_in t d) specs))"
    by (simp only: get_rules at frules)
  moreover have "validateSets (connection v) t [] = Inr (Some Map.empty)"
    using validateSets_added [of t "[]" "[]" v] by (simp add: at R_def by_name_def)
  moreover have "validBaseChain (Some d) ChainTypeNAT (Some ChainHookPostrouting) (Some ChainPriorityNATSource)"
    by (simp add: validBaseChain_def d_def addBaseChain_def pointerEqual_def)
  moreover have "length (rv_chains R) = 2" "table_Flags t = 0" by (simp_all add: R_def t_def)
  moreover have "validMetadataRevision (connection v) t (metadata_chain t) ''nat'' (NATRevision policy) = Inr True"
    using own(2) listed by (simp add: component_name_def t_def)
  ultimately have "validateNATTable (connection v) t (rv_chains v) policy = Inr True"
    using specs find by (simp add: validateNATTable_def chainsOfTable_at at)
  moreover have "observeNamedTable (connection v) (rv_tables v) (rv_chains v) (pf_NATTable policy) ''nat'' = Inr (Some (t, NATRevision policy))"
    using own(1) listed by (simp add: component_name_def t_def)
  ultimately show ?thesis by (simp add: observe_half_def)
qed

lemma filter_rebuilt:
  assumes valid: "policy_Validate policy = []" and added: "addFilterTable order writer policy = Inr messages"
    and rebuilt: "at (pf_FilterTable policy, TableFamilyINet) v = commit messages empty_ruleset"
    and only: "tablesNamed (rv_tables v) (pf_FilterTable policy) = rv_tables (at (pf_FilterTable policy, TableFamilyINet) v)"
  shows "observe_half (observeNamedTable (connection v) (rv_tables v) (rv_chains v) (pf_FilterTable policy) ''filter'') (FilterRevision policy)
    (\<lambda>t. validateFilterTable order (connection v) t (rv_chains v) policy) = Inr (True, FilterRevision policy)"
proof -
  define t where "t = \<lparr>table_Name = pf_FilterTable policy, table_Family = TableFamilyINet, table_Flags = 0\<rparr>"
  define f where "f = addBaseChain t (pf_ForwardGuardChain policy) ChainTypeFilter ChainHookForward ChainPriorityFilter"
  define l where "l = addBaseChain t (pf_LocalEgressChain policy) ChainTypeRoute ChainHookOutput ChainPriorityMangle"
  have key: "table_key t = (pf_FilterTable policy, TableFamilyINet)" by (simp add: table_key_def t_def)
  have cn: "chain_Name f = pf_ForwardGuardChain policy" "chain_Name l = pf_LocalEgressChain policy"
    "chain_Name (metadata_chain t) = ReservedPacketFilterMetadataChain"
    by (simp_all add: f_def l_def addBaseChain_def metadata_chain_def)
  have names: "distinct [pf_ForwardGuardChain policy, pf_LocalEgressChain policy, ReservedPacketFilterMetadataChain]"
    using policy_names_distinct [OF valid] by (auto simp: policy_identifiers_def)
  from added obtain ms sets rules where ms: "add_sets writer t (filterSetSpecs policy) Map.empty = Inr (ms, sets)"
    and rules: "filterRuleSpecs order policy sets = Inr rules"
    and messages: "messages = [AddTable t] @ ms @ [AddChain f, AddChain l, AddChain (metadata_chain t)] @
      addRules t f (case rules (chain_Name f) of None \<Rightarrow> [] | Some s \<Rightarrow> s) @
      addRules t l (case rules (chain_Name l) of None \<Rightarrow> [] | Some s \<Rightarrow> s) @
      addMetadataRule t (metadata_chain t) ''filter'' (FilterRevision policy)"
    unfolding addFilterTable_def Let_def t_def f_def l_def by (auto split: sum.splits prod.splits)
  from add_sets_added [OF ms] obtain sadded where sadded: "ms = map (\<lambda>x. AddSet (fst x) (snd x)) sadded"
    "list_all2 (added_for t) (filterSetSpecs policy) sadded" "sets = by_name (map fst sadded) Map.empty" by blast
  let ?setMap = "by_name (map (shown_set rid size_of) sadded) Map.empty"
  have "sets_shown rid sets ?setMap"
    unfolding sadded(3)
    by (rule sets_shown_by_name) (simp_all add: list_all2_conv_all_nth shown_set_def sets_shown_def)
  from filterRuleSpecs_shown [OF rules this] obtain rules' fs ls fs' ls' where
    r: "filterRuleSpecs order policy ?setMap = Inr rules'"
      "rules (pf_ForwardGuardChain policy) = Some fs" "rules' (pf_ForwardGuardChain policy) = Some fs'"
      "rules (pf_LocalEgressChain policy) = Some ls" "rules' (pf_LocalEgressChain policy) = Some ls'"
      "map rs_expressions fs' = shown_exprs rid fs" "map rs_expressions ls' = shown_exprs rid ls"
      "numbered ''filter'' (pf_ForwardGuardChain policy) (FilterRevision policy) fs"
      "numbered ''filter'' (pf_LocalEgressChain policy) (FilterRevision policy) ls" .
  define R where "R = \<lparr>rv_tables = [t], rv_chains = [f, l, metadata_chain t],
      rv_rules = map (rule_in t f) fs @ map (rule_in t l) ls @
        [rule_in t (metadata_chain t) (metadataRuleSpec ''filter'' (FilterRevision policy))], rv_sets = sadded\<rparr>"
  have at: "at (table_key t) v = R"
    unfolding key rebuilt messages R_def sadded(1) cn r(2,4)
    by (simp add: commit_append commit_addRules commit_addMetadataRule commit_addSets empty_ruleset_def)
  have listed: "tablesNamed (rv_tables v) (table_Name t) = [t]"
    using only key at by (simp add: t_def R_def)
  have find: "findChain (rv_chains R) (pf_ForwardGuardChain policy) = Some f" "findChain (rv_chains R) (pf_LocalEgressChain policy) = Some l"
    "findChain (rv_chains R) ReservedPacketFilterMetadataChain = Some (metadata_chain t)"
    using names cn by (auto simp: R_def findChain_def)
  have frules: "filter (\<lambda>r. chain_Name (nr_Chain r) = ReservedPacketFilterMetadataChain) (rv_rules R) =
      [rule_in t (metadata_chain t) (metadataRuleSpec ''filter'' (FilterRevision policy))]"
    "filter (\<lambda>r. chain_Name (nr_Chain r) = chain_Name f) (rv_rules R) = map (rule_in t f) fs"
    "filter (\<lambda>r. chain_Name (nr_Chain r) = chain_Name l) (rv_rules R) = map (rule_in t l) ls"
    using names cn by (auto simp: R_def filter_rule_in) (auto simp: rule_in_def)
  note own = ownership_rebuilt [OF refl find(3) [folded at] frules(1) [folded at] _ FilterRevision_def]
  have "validate_chains (connection v) t rules' (FilterRevision policy) [f, l] = Inr True"
    using rulesEqual_shown [OF r(8,6), of t f] rulesEqual_shown [OF r(9,7), of t l]
    by (simp add: get_rules at frules(2,3) cn r(3,5) frules(2,3) [unfolded cn])
  moreover have "validateSets (connection v) t (filterSetSpecs policy) = Inr (Some ?setMap)"
    by (rule validateSets_added [OF sadded(2) _ filterSetSpecs_distinct [OF valid] filterSetSpecs_plain]) (simp_all add: at R_def)
  moreover have "validBaseChain (Some f) ChainTypeFilter (Some ChainHookForward) (Some ChainPriorityFilter)"
    "validBaseChain (Some l) ChainTypeRoute (Some ChainHookOutput) (Some ChainPriorityMangle)"
    by (simp_all add: validBaseChain_def f_def l_def addBaseChain_def pointerEqual_def)
  moreover have "length (rv_chains R) = 3" "table_Flags t = 0" by (simp_all add: R_def t_def)
  moreover have "validMetadataRevision (connection v) t (metadata_chain t) ''filter'' (FilterRevision policy) = Inr True"
    using own(2) listed by (simp add: component_name_def t_def)
  ultimately have "validateFilterTable order (connection v) t (rv_chains v) policy = Inr True"
    using r(1) find by (simp add: validateFilterTable_def chainsOfTable_at at)
  moreover have "observeNamedTable (connection v) (rv_tables v) (rv_chains v) (pf_FilterTable policy) ''filter'' = Inr (Some (t, FilterRevision policy))"
    using own(1) listed by (simp add: component_name_def t_def)
  ultimately show ?thesis by (simp add: observe_half_def)
qed

end

section \<open>Apply, then Observe\<close>

definition only_inet :: "string \<Rightarrow> ruleset \<Rightarrow> bool" where
  "only_inet name v \<longleftrightarrow> list_all (\<lambda>t. table_Family t = TableFamilyINet) (tablesNamed (rv_tables v) name)"

lemma tablesNamed_at: "only_inet name v \<Longrightarrow> tablesNamed (rv_tables v) name = rv_tables (at (name, TableFamilyINet) v)"
  by (auto simp: only_inet_def tablesNamed_def list_all_iff at_def keep_def table_key_def intro!: filter_cong)

lemma only_inet_commit:
  assumes "only_inet name v" "\<forall>msg \<in> set b. \<forall>family. message_key msg = Some (name, family) \<longrightarrow> family = TableFamilyINet"
  shows "only_inet name (commit b v)"
  unfolding only_inet_def list_all_iff
proof
  fix t
  assume t: "t \<in> set (tablesNamed (rv_tables (commit b v)) name)"
  show "table_Family t = TableFamilyINet"
  proof (rule ccontr)
    assume other: "table_Family t \<noteq> TableFamilyINet"
    then have "\<forall>msg \<in> set b. message_key msg \<noteq> Some (name, table_Family t)" using assms(2) by auto
    from at_commit_other [OF this, of v] have "rv_tables (at (name, table_Family t) (commit b v)) = rv_tables (at (name, table_Family t) v)"
      by simp
    moreover have "t \<in> set (rv_tables (at (name, table_Family t) (commit b v)))"
      using t by (simp add: at_def keep_def tablesNamed_def table_key_def)
    ultimately have "t \<in> set (tablesNamed (rv_tables v) name)"
      by (simp add: at_def keep_def tablesNamed_def table_key_def)
    with assms(1) other show False by (simp add: only_inet_def list_all_iff)
  qed
qed

lemma rebuilt_at:
  assumes "grounded v" "tablesNamed (rv_tables v) name = existing" "length existing \<le> 1"
    and keys: "\<And>t. t \<in> set existing \<Longrightarrow> table_key t = (name, TableFamilyINet)"
    and messages: "\<forall>msg \<in> set messages. message_key msg = Some (name, TableFamilyINet)"
  shows "at (name, TableFamilyINet) (commit (map DelTable existing @ messages) v) = commit messages empty_ruleset"
proof -
  have "commit (map DelTable existing) (at (name, TableFamilyINet) v) = empty_ruleset"
  proof (cases existing)
    case Nil
    then have "(name, TableFamilyINet) \<notin> table_key ` set (rv_tables v)"
      using assms(2) by (auto simp: tablesNamed_def table_key_def filter_empty_conv)
    from at_absent [OF assms(1) this] Nil show ?thesis by simp
  next
    case (Cons t ts)
    with assms(3) have "existing = [t]" by simp
    with keys [of t] delete_at [of t v] show ?thesis by simp
  qed
  moreover have "\<forall>msg \<in> set (map DelTable existing @ messages). message_key msg = Some (name, TableFamilyINet)"
    using keys messages by auto
  ultimately show ?thesis
    using at_commit_same [of "map DelTable existing @ messages" "(name, TableFamilyINet)" v] by (simp only: commit_append)
qed

text \<open>The two halves of an observation of a ruleset.\<close>

definition halves ::
  "byte_order \<Rightarrow> packet_filter_policy \<Rightarrow> (ruleset \<Rightarrow> nft_conn) \<Rightarrow> ruleset \<Rightarrow>
     (store_error, bool \<times> string) result \<times> (store_error, bool \<times> string) result" where
  "halves order policy connection v =
    (observe_half (observeNamedTable (connection v) (rv_tables v) (rv_chains v) (pf_FilterTable policy) ''filter'') (FilterRevision policy)
       (\<lambda>t. validateFilterTable order (connection v) t (rv_chains v) policy),
     observe_half (observeNamedTable (connection v) (rv_tables v) (rv_chains v) (pf_NATTable policy) ''nat'') (NATRevision policy)
       (\<lambda>t. validateNATTable (connection v) t (rv_chains v) policy))"

lemma observeNamedTable_only_inet:
  assumes "observeNamedTable connection (rv_tables v) cs name component = Inr named"
  shows "only_inet name v"
  using observeNamedTable_sound [OF assms] by (auto simp: only_inet_def table_key_def split: option.splits)

context nft_reader
begin

lemma Observe_halves:
  "Observe order None (Inr (connection v)) policy = Inr observation \<longleftrightarrow> policy_Validate policy = [] \<and>
     halves order policy connection v = (Inr (pfo_FilterTableExists observation, pfo_FilterRevision observation),
       Inr (pfo_NATTableExists observation, pfo_NATRevision observation))"
  by (cases observation) (auto simp: Observe_def halves_def list_tables list_chains split: sum.splits prod.splits)

lemma filter_half_same:
  assumes "tablesNamed (rv_tables v) (pf_FilterTable policy) = tablesNamed (rv_tables v') (pf_FilterTable policy)"
    and at: "at (pf_FilterTable policy, TableFamilyINet) v = at (pf_FilterTable policy, TableFamilyINet) v'"
  shows "fst (halves order policy connection v) = fst (halves order policy connection v')"
proof -
  have "validateFilterTable order (connection v) t (rv_chains v) policy = validateFilterTable order (connection v') t (rv_chains v') policy"
    if "observeNamedTable (connection v') (rv_tables v') (rv_chains v') (pf_FilterTable policy) ''filter'' = Inr (Some (t, revision))" for t revision
    using observeNamedTable_sound [OF that] at by (intro validateFilterTable_at) simp
  then show ?thesis
    by (auto simp: halves_def observe_half_def observeNamedTable_at [OF assms] split: sum.splits option.splits)
qed

lemma nat_half_same:
  assumes "tablesNamed (rv_tables v) (pf_NATTable policy) = tablesNamed (rv_tables v') (pf_NATTable policy)"
    and at: "at (pf_NATTable policy, TableFamilyINet) v = at (pf_NATTable policy, TableFamilyINet) v'"
  shows "snd (halves order policy connection v) = snd (halves order policy connection v')"
proof -
  have "validateNATTable (connection v) t (rv_chains v) policy = validateNATTable (connection v') t (rv_chains v') policy"
    if "observeNamedTable (connection v') (rv_tables v') (rv_chains v') (pf_NATTable policy) ''nat'' = Inr (Some (t, revision))" for t revision
    using observeNamedTable_sound [OF that] at by (intro validateNATTable_at) simp
  then show ?thesis
    by (auto simp: halves_def observe_half_def observeNamedTable_at [OF assms] split: sum.splits option.splits)
qed

lemma filter_half_applied:
  assumes valid: "policy_Validate policy = []" and wf: "grounded v" and batch: "batch = fb @ nb"
    and before: "fst (halves order policy connection v) = Inr (pfo_FilterTableExists observation, pfo_FilterRevision observation)"
    and fb: "(if FilterMatches observation policy then Inr []
          else replace_table (observeNamedTable (connection v) (rv_tables v) (rv_chains v) (pf_FilterTable policy) ''filter'')
            (addFilterTable order (connection v) policy)) = Inr fb"
    and nb: "\<forall>msg \<in> set nb. message_key msg = Some (pf_NATTable policy, TableFamilyINet)"
  shows "\<exists>revision. fst (halves order policy connection (commit batch v)) = Inr (True, revision) \<and> revision = FilterRevision policy"
proof -
  have names: "pf_FilterTable policy \<noteq> pf_NATTable policy"
    using policy_names_distinct [OF valid] by (simp add: policy_identifiers_def)
  have nb_at: "at (pf_FilterTable policy, TableFamilyINet) (commit (fb @ nb) v) = at (pf_FilterTable policy, TableFamilyINet) (commit fb v)"
    using at_commit_other [of nb "(pf_FilterTable policy, TableFamilyINet)"] nb names by (simp add: commit_append)
  have nb_tables: "tablesNamed (rv_tables (commit (fb @ nb) v)) (pf_FilterTable policy) = tablesNamed (rv_tables (commit fb v)) (pf_FilterTable policy)"
    using tablesNamed_commit_other [of nb "pf_FilterTable policy"] nb names by (simp add: commit_append)
  show ?thesis
  proof (cases "FilterMatches observation policy")
    case True
    with fb have "fb = []" by simp
    with filter_half_same [of "commit batch v" policy v order] nb_at nb_tables batch
    have "fst (halves order policy connection (commit batch v)) = fst (halves order policy connection v)" by simp
    with before True show ?thesis by (auto simp: FilterMatches_def)
  next
    case False
    with fb have r: "replace_table (observeNamedTable (connection v) (rv_tables v) (rv_chains v) (pf_FilterTable policy) ''filter'')
            (addFilterTable order (connection v) policy) = Inr fb" by simp
    then obtain messages existing where m: "addFilterTable order (connection v) policy = Inr messages" "fb = map DelTable existing @ messages"
      "tablesNamed (rv_tables v) (pf_FilterTable policy) = existing" "length existing \<le> 1"
      "\<And>t. t \<in> set existing \<Longrightarrow> table_key t = (pf_FilterTable policy, TableFamilyINet)"
      by (rule replace_table_shape) blast
    have "at (pf_FilterTable policy, TableFamilyINet) (commit fb v) = commit messages empty_ruleset"
      unfolding m(2) using addFilterTable_shape(2) [OF m(1)] by (intro rebuilt_at [OF wf m(3,4,5)]) auto
    moreover have "only_inet (pf_FilterTable policy) (commit batch v)"
    proof (rule only_inet_commit)
      show "only_inet (pf_FilterTable policy) v"
        using m(3,5) by (auto simp: only_inet_def list_all_iff table_key_def)
      show "\<forall>msg \<in> set batch. \<forall>family. message_key msg = Some (pf_FilterTable policy, family) \<longrightarrow> family = TableFamilyINet"
        using nb names m(2,5) addFilterTable_shape(2) [OF m(1)] batch by auto
    qed
    ultimately have "fst (halves order policy connection (commit batch v)) = Inr (True, FilterRevision policy)"
      unfolding halves_def fst_conv using nb_at batch tablesNamed_at
      by (intro filter_rebuilt [OF valid m(1)]) simp_all
    then show ?thesis by simp
  qed
qed

lemma nat_half_applied:
  assumes valid: "policy_Validate policy = []" and wf: "grounded v" and batch: "batch = fb @ nb"
    and before: "snd (halves order policy connection v) = Inr (pfo_NATTableExists observation, pfo_NATRevision observation)"
    and nb: "(if NATMatches observation policy then Inr []
          else replace_table (observeNamedTable (connection v) (rv_tables v) (rv_chains v) (pf_NATTable policy) ''nat'')
            (if 0 < length (pf_DNSTargets policy) then addNATTable policy else Inr [])) = Inr nb"
    and fb: "\<forall>msg \<in> set fb. message_key msg = Some (pf_FilterTable policy, TableFamilyINet)"
  shows "\<exists>listed revision. snd (halves order policy connection (commit batch v)) = Inr (listed, revision) \<and>
    (if pf_DNSTargets policy = [] then \<not> listed else listed \<and> revision = NATRevision policy)"
proof -
  have names: "pf_FilterTable policy \<noteq> pf_NATTable policy"
    using policy_names_distinct [OF valid] by (simp add: policy_identifiers_def)
  let ?k = "(pf_NATTable policy, TableFamilyINet)"
  show ?thesis
  proof (cases "NATMatches observation policy")
    case True
    with nb have "nb = []" by simp
    moreover have "at ?k (commit fb v) = at ?k v"
      using at_commit_other [of fb ?k v] fb names by auto
    moreover have "tablesNamed (rv_tables (commit fb v)) (pf_NATTable policy) = tablesNamed (rv_tables v) (pf_NATTable policy)"
      using tablesNamed_commit_other [of fb "pf_NATTable policy" v] fb names by auto
    ultimately have "snd (halves order policy connection (commit batch v)) = snd (halves order policy connection v)"
      using nat_half_same [of "commit batch v" policy v order] batch by simp
    with before True show ?thesis by (auto simp: NATMatches_def split: if_splits)
  next
    case False
    define added where "added = (if 0 < length (pf_DNSTargets policy) then addNATTable policy else Inr [])"
    from nb False have r: "replace_table (observeNamedTable (connection v) (rv_tables v) (rv_chains v) (pf_NATTable policy) ''nat'') added = Inr nb"
      by (simp add: added_def)
    then obtain messages existing where m: "added = Inr messages" "nb = map DelTable existing @ messages"
      "tablesNamed (rv_tables v) (pf_NATTable policy) = existing" "length existing \<le> 1"
      "\<And>t. t \<in> set existing \<Longrightarrow> table_key t = ?k"
      by (rule replace_table_shape) blast
    have keys: "\<forall>msg \<in> set messages. message_key msg = Some ?k"
      using m(1) addNATTable_shape(2) [of policy messages] by (auto simp: added_def split: if_splits)
    have "at ?k (commit fb v) = at ?k v"
      using at_commit_other [of fb ?k v] fb names by auto
    moreover have "\<forall>msg \<in> set nb. message_key msg = Some ?k" using keys m(2,5) by auto
    ultimately have "at ?k (commit batch v) = at ?k (commit nb v)"
      using batch at_commit_same [of nb ?k v] at_commit_same [of nb ?k "commit fb v"] by (simp add: commit_append)
    then have rebuilt: "at ?k (commit batch v) = commit messages empty_ruleset"
      unfolding m(2) using rebuilt_at [OF wf m(3,4,5) keys] by simp
    have "only_inet (pf_NATTable policy) (commit batch v)"
    proof (rule only_inet_commit)
      show "only_inet (pf_NATTable policy) v"
        using m(3,5) by (auto simp: only_inet_def list_all_iff table_key_def)
      show "\<forall>msg \<in> set batch. \<forall>family. message_key msg = Some (pf_NATTable policy, family) \<longrightarrow> family = TableFamilyINet"
        using fb names m(2,5) keys batch by auto
    qed
    note only = tablesNamed_at [OF this]
    show ?thesis
    proof (cases "pf_DNSTargets policy = []")
      case True
      with m(1) have "messages = []" by (simp add: added_def)
      with only rebuilt have "tablesNamed (rv_tables (commit batch v)) (pf_NATTable policy) = []" by (simp add: empty_ruleset_def)
      then show ?thesis using True by (auto simp: halves_def observeNamedTable_def observe_half_def)
    next
      case nonempty: False
      with m(1) have "addNATTable policy = Inr messages" by (simp add: added_def)
      from nat_rebuilt [OF valid this rebuilt only] nonempty show ?thesis by (auto simp: halves_def)
    qed
  qed
qed

end

text \<open>
  C9: when \<open>Apply\<close>, given what \<open>Observe\<close> reported, succeeds, the ruleset its batch leaves behind is one on which \<open>Observe\<close>
  reports a match with the policy: what the agent writes is what it recognises, whatever else the ruleset holds and
  whatever was in its tables before.
\<close>

theorem Apply_then_Observe_matches:
  assumes reader: "nft_reader rid size_of shuffle missing connection" and wf: "grounded v"
    and seen: "Observe order None (Inr (connection v)) policy = Inr observation"
    and written: "Apply order None None (Inr (connection v)) policy observation = (batch, None)"
  shows "\<exists>after. Observe order None (Inr (connection (commit (case batch of None \<Rightarrow> [] | Some b \<Rightarrow> b) v))) policy = Inr after \<and>
    Matches after policy"
proof (cases batch)
  case None
  have "Matches observation policy"
    using written seen None nft_reader.list_tables [OF reader] nft_reader.list_chains [OF reader]
    by (auto simp: Apply_def Observe_def Matches_def Let_def split: if_splits option.splits sum.splits)
  with seen None show ?thesis by auto
next
  case (Some b)
  have valid: "policy_Validate policy = []"
    and halves: "halves order policy connection v = (Inr (pfo_FilterTableExists observation, pfo_FilterRevision observation),
       Inr (pfo_NATTableExists observation, pfo_NATRevision observation))"
    using nft_reader.Observe_halves [OF reader] seen by blast+
  have written': "Apply order None None (Inr (connection v)) policy observation = (Some b, None)" using written Some by simp
  obtain fb nb where b: "b = fb @ nb"
    and fb: "(if FilterMatches observation policy then Inr []
          else replace_table (observeNamedTable (connection v) (rv_tables v) (rv_chains v) (pf_FilterTable policy) ''filter'')
            (addFilterTable order (connection v) policy)) = Inr fb"
    and nb: "(if NATMatches observation policy then Inr []
          else replace_table (observeNamedTable (connection v) (rv_tables v) (rv_chains v) (pf_NATTable policy) ''nat'')
            (if 0 < length (pf_DNSTargets policy) then addNATTable policy else Inr [])) = Inr nb"
    using Apply_parts [OF written' nft_reader.list_tables [OF reader] nft_reader.list_chains [OF reader]] .
  have fkeys: "\<forall>msg \<in> set fb. message_key msg = Some (pf_FilterTable policy, TableFamilyINet)"
    using replacement_keys [OF filter_replacement [OF fb]] by blast
  have nkeys: "\<forall>msg \<in> set nb. message_key msg = Some (pf_NATTable policy, TableFamilyINet)"
    using replacement_keys [OF nat_replacement [OF nb]] by blast
  have before: "fst (halves order policy connection v) = Inr (pfo_FilterTableExists observation, pfo_FilterRevision observation)"
    "snd (halves order policy connection v) = Inr (pfo_NATTableExists observation, pfo_NATRevision observation)"
    by (simp_all add: halves)
  obtain listed revision where "snd (halves order policy connection (commit b v)) = Inr (listed, revision)"
    "if pf_DNSTargets policy = [] then \<not> listed else listed \<and> revision = NATRevision policy"
    using nft_reader.nat_half_applied [OF reader valid wf b before(2) nb fkeys] by blast
  moreover have "fst (halves order policy connection (commit b v)) = Inr (True, FilterRevision policy)"
    using nft_reader.filter_half_applied [OF reader valid wf b before(1) fb nkeys] by blast
  ultimately show ?thesis
    using Some valid nft_reader.Observe_halves [OF reader, of order "commit b v" policy
        "\<lparr>pfo_FilterTableExists = True, pfo_FilterRevision = FilterRevision policy, pfo_NATTableExists = listed, pfo_NATRevision = revision\<rparr>"]
    by (intro exI [of _ "\<lparr>pfo_FilterTableExists = True, pfo_FilterRevision = FilterRevision policy, pfo_NATTableExists = listed, pfo_NATRevision = revision\<rparr>"])
      (auto simp: Matches_def FilterMatches_def NATMatches_def prod_eq_iff)
qed

text \<open>
  C10: a batch that \<open>Apply\<close> commits concerns only the two inet tables the policy names. A table it deletes is the only listed table of that
  name, and the one rule of its listed metadata chain is the rule the agent prints for that component and some revision. No message
  for the table stands before its deletion, it is deleted once, and the messages after the deletion add the filter table
  again, and the NAT table when the policy has DNS targets.
\<close>

theorem Apply_within_ownership:
  assumes "Apply order before after (Inr connection) policy observation = (Some batch, err)"
    and "cn_ListTables connection = Inr tables" "cn_ListChains connection = Inr cs"
  shows "(\<forall>msg \<in> set batch. message_key msg \<in> {Some (pf_FilterTable policy, TableFamilyINet), Some (pf_NATTable policy, TableFamilyINet)}) \<and>
    (\<forall>xs t ys. batch = xs @ DelTable t # ys \<longrightarrow>
       tablesNamed tables (table_Name t) = [t] \<and>
       agent_metadata connection cs t (if table_Name t = pf_FilterTable policy then ''filter'' else ''nat'') \<and>
       (\<forall>msg \<in> set xs. message_key msg \<noteq> Some (table_key t)) \<and>
       (\<forall>u. DelTable u \<in> set ys \<longrightarrow> table_key u \<noteq> table_key t) \<and>
       (table_Name t = pf_FilterTable policy \<or> pf_DNSTargets policy \<noteq> [] \<longrightarrow>
          (\<exists>u. AddTable u \<in> set ys \<and> table_key u = table_key t)))"
proof -
  let ?kf = "(pf_FilterTable policy, TableFamilyINet)" and ?kn = "(pf_NATTable policy, TableFamilyINet)"
  obtain fb nb where valid: "policy_Validate policy = []" and batch: "batch = fb @ nb"
    and fb: "(if FilterMatches observation policy then Inr []
          else replace_table (observeNamedTable connection tables cs (pf_FilterTable policy) ''filter'')
            (addFilterTable order connection policy)) = Inr fb"
    and nb: "(if NATMatches observation policy then Inr []
          else replace_table (observeNamedTable connection tables cs (pf_NATTable policy) ''nat'')
            (if 0 < length (pf_DNSTargets policy) then addNATTable policy else Inr [])) = Inr nb"
    using Apply_parts [OF assms] .
  have names: "pf_FilterTable policy \<noteq> pf_NATTable policy"
    using policy_names_distinct [OF valid] by (simp add: policy_identifiers_def)
  note F = filter_replacement [OF fb] and N = nat_replacement [OF nb]
  have "tablesNamed tables (table_Name t) = [t] \<and>
       agent_metadata connection cs t (if table_Name t = pf_FilterTable policy then ''filter'' else ''nat'') \<and>
       (\<forall>msg \<in> set xs. message_key msg \<noteq> Some (table_key t)) \<and>
       (\<forall>u. DelTable u \<in> set ys \<longrightarrow> table_key u \<noteq> table_key t) \<and>
       (table_Name t = pf_FilterTable policy \<or> pf_DNSTargets policy \<noteq> [] \<longrightarrow>
          (\<exists>u. AddTable u \<in> set ys \<and> table_key u = table_key t))" if split: "batch = xs @ DelTable t # ys" for xs t ys
  proof -
    from split batch consider us where "fb = xs @ DelTable t # us" "ys = us @ nb" | us where "nb = us @ DelTable t # ys" "xs = fb @ us"
      by (auto simp: append_eq_append_conv2 append_eq_Cons_conv Cons_eq_append_conv)
    then show ?thesis
    proof cases
      case 1
      have "table_key u \<noteq> ?kf" if "DelTable u \<in> set nb" for u
        using replacement_keys [OF N that] names by simp
      with replacement_deletes [OF F 1(1)] 1(2) show ?thesis by (auto simp: table_key_def)
    next
      case 2
      have "message_key msg \<noteq> Some ?kn" if "msg \<in> set fb" for msg
        using replacement_keys [OF F that] names by simp
      with replacement_deletes [OF N 2(1)] 2(2) names show ?thesis by (auto simp: table_key_def)
    qed
  qed
  moreover have "message_key msg \<in> {Some ?kf, Some ?kn}" if "msg \<in> set batch" for msg
    using that replacement_keys [OF F, of msg] replacement_keys [OF N, of msg] unfolding batch by auto
  ultimately show ?thesis by blast
qed

section \<open>A connection that obeys the laws\<close>

definition snapshot_conn :: "ruleset \<Rightarrow> nft_conn" where
  "snapshot_conn v =
     \<lparr>cn_ListTables = Inr (rv_tables v), cn_ListChains = Inr (rv_chains v),
      cn_GetRules = (\<lambda>t c. Inr (map (shown_rule 0) (filter (\<lambda>r. chain_Name (nr_Chain r) = chain_Name c) (rv_rules (at (table_key t) v))))),
      cn_GetSets = (\<lambda>t. Inr (map (shown_set 0 (\<lambda>_. 0)) (rv_sets (at (table_key t) v)))),
      cn_GetSetElements = (\<lambda>s. case find (\<lambda>x. set_Name (fst x) = set_Name s \<and> set_key (fst x) = set_key s) (rv_sets v) of
        None \<Rightarrow> Inl ''missing'' | Some x \<Rightarrow> Inr (rev (snd x))),
      cn_AddSet = (\<lambda>s els. Inr 7), cn_Flush = (\<lambda>batch. None)\<rparr>"

interpretation snapshot: nft_reader 0 "\<lambda>_. 0" rev "''missing''" snapshot_conn
  by unfold_locales (simp_all add: snapshot_conn_def)

definition foreign_ruleset :: ruleset where
  "foreign_ruleset = \<lparr>rv_tables = [\<lparr>table_Name = ''other'', table_Family = TableFamilyINet, table_Flags = 0\<rparr>],
     rv_chains = [], rv_rules = [], rv_sets = []\<rparr>"

definition nothing_observed :: packet_filter_observation where
  "nothing_observed = \<lparr>pfo_FilterTableExists = False, pfo_FilterRevision = [], pfo_NATTableExists = False, pfo_NATRevision = []\<rparr>"

lemma foreign_Observe: "Observe LittleEndian None (Inr (snapshot_conn foreign_ruleset)) (example_policy True [Addr4 1, Addr4 2]) = Inr nothing_observed"
proof -
  have "tablesNamed (rv_tables foreign_ruleset) (pf_FilterTable (example_policy True [Addr4 1, Addr4 2])) = []"
    "tablesNamed (rv_tables foreign_ruleset) (pf_NATTable (example_policy True [Addr4 1, Addr4 2])) = []"
    by (simp_all add: tablesNamed_def foreign_ruleset_def example_policy_def)
  then show ?thesis
    by (simp add: Observe_def example_policy_valid snapshot.list_tables snapshot.list_chains observeNamedTable_def observe_half_def
        nothing_observed_def)
qed

lemma snapshot_addFilterTable:
  "\<exists>messages. addFilterTable order (snapshot_conn v) (example_policy True [Addr4 1, Addr4 2]) = Inr messages"
proof -
  let ?p = "example_policy True [Addr4 1, Addr4 2]"
  let ?t = "\<lparr>table_Name = pf_FilterTable ?p, table_Family = TableFamilyINet, table_Flags = 0\<rparr>"
  obtain spec where spec: "filterSetSpecs ?p = [spec]" "ss_name spec = ''s4''"
    by (simp add: filterSetSpecs_def family_set_spec_def example_policy_def)
  have ids: "cn_AddSet (snapshot_conn v) s els = Inr 7" for s els by (simp add: snapshot_conn_def)
  define sets where "sets = [''s4'' \<mapsto> (new_set ?t spec)\<lparr>set_ID := 7\<rparr>]"
  have "add_sets (snapshot_conn v) ?t (filterSetSpecs ?p) Map.empty = Inr ([AddSet ((new_set ?t spec)\<lparr>set_ID := 7\<rparr>) (ss_elements spec)], sets)"
    unfolding spec(1) sets_def by (simp add: spec(2) ids Let_def)
  moreover have "\<exists>rules. filterRuleSpecs order ?p sets = Inr rules"
    by (rule filterRuleSpecs_total) (simp_all add: example_policy_valid sets_def, simp_all add: example_policy_def)
  ultimately show ?thesis
    unfolding addFilterTable_def Let_def by (auto simp: Let_def)
qed

lemma foreign_Apply:
  "\<exists>b. Apply LittleEndian None None (Inr (snapshot_conn foreign_ruleset)) (example_policy True [Addr4 1, Addr4 2]) nothing_observed = (Some b, None)"
proof -
  let ?p = "example_policy True [Addr4 1, Addr4 2]"
  obtain fm where fm: "addFilterTable LittleEndian (snapshot_conn foreign_ruleset) ?p = Inr fm"
    using snapshot_addFilterTable by blast
  have "\<exists>specs. natRuleSpecs ?p = Inr specs" by (simp add: natRuleSpecs_def example_policy_valid)
  then obtain nm where nm: "addNATTable ?p = Inr nm" by (auto simp: addNATTable_def Let_def)
  have none: "observeNamedTable (snapshot_conn foreign_ruleset) (rv_tables foreign_ruleset) cs name component = Inr None"
    if "name \<noteq> ''other''" for cs name component
    using that by (auto simp: observeNamedTable_def tablesNamed_def foreign_ruleset_def)
  have names: "pf_FilterTable ?p = ''f''" "pf_NATTable ?p = ''n''" "length (pf_DNSTargets ?p) = 1" by (simp_all add: example_policy_def)
  have changed: "\<not> FilterMatches nothing_observed ?p" "\<not> NATMatches nothing_observed ?p"
    using names(3) by (simp_all add: FilterMatches_def NATMatches_def nothing_observed_def)
  have flush: "cn_Flush (snapshot_conn foreign_ruleset) b = None" for b by (simp add: snapshot_conn_def)
  show ?thesis
    by (simp add: Apply_def example_policy_valid changed snapshot.list_tables snapshot.list_chains none names fm nm replace_table_def flush)
qed

lemma Apply_then_Observe_matches_witness:
  "\<exists>b after. Apply LittleEndian None None (Inr (snapshot_conn foreign_ruleset)) (example_policy True [Addr4 1, Addr4 2]) nothing_observed = (Some b, None) \<and>
     Observe LittleEndian None (Inr (snapshot_conn (commit b foreign_ruleset))) (example_policy True [Addr4 1, Addr4 2]) = Inr after \<and>
     Matches after (example_policy True [Addr4 1, Addr4 2])"
proof -
  obtain b where b: "Apply LittleEndian None None (Inr (snapshot_conn foreign_ruleset)) (example_policy True [Addr4 1, Addr4 2]) nothing_observed = (Some b, None)"
    using foreign_Apply by blast
  have "grounded foreign_ruleset" by (simp add: grounded_def foreign_ruleset_def)
  from Apply_then_Observe_matches [OF snapshot.nft_reader_axioms this foreign_Observe b] b show ?thesis by auto
qed

lemma Apply_within_ownership_witness:
  "\<exists>b. Apply LittleEndian None None (Inr (snapshot_conn foreign_ruleset)) (example_policy True [Addr4 1, Addr4 2]) nothing_observed = (Some b, None) \<and>
     DelTable \<lparr>table_Name = ''other'', table_Family = TableFamilyINet, table_Flags = 0\<rparr> \<notin> set b"
proof -
  obtain b where b: "Apply LittleEndian None None (Inr (snapshot_conn foreign_ruleset)) (example_policy True [Addr4 1, Addr4 2]) nothing_observed = (Some b, None)"
    using foreign_Apply by blast
  have "message_key (DelTable \<lparr>table_Name = ''other'', table_Family = TableFamilyINet, table_Flags = 0\<rparr>) \<noteq> Some (''f'', TableFamilyINet)"
    "message_key (DelTable \<lparr>table_Name = ''other'', table_Family = TableFamilyINet, table_Flags = 0\<rparr>) \<noteq> Some (''n'', TableFamilyINet)"
    by (simp_all add: table_key_def)
  moreover have "pf_FilterTable (example_policy True [Addr4 1, Addr4 2]) = ''f''" "pf_NATTable (example_policy True [Addr4 1, Addr4 2]) = ''n''"
    by (simp_all add: example_policy_def)
  ultimately show ?thesis
    using Apply_within_ownership [OF b snapshot.list_tables snapshot.list_chains] b
    by (metis insertE singletonD)
qed

end
