(* ===== verification/Netlink_Convert.thy ===== *)
theory Netlink_Convert
  imports Routing Netip_Bytes
begin

unbundle bit_operations_syntax

text \<open>
  The conversions of \<^verbatim>\<open>internal/adapter/netlink/netlink_linux.go\<close> between the domain's routes and rules and the
  messages of \<^verbatim>\<open>vishvananda/netlink\<close>. What the agent writes it reads back as the same route or rule, with no
  unexpected attribute.
\<close>

section \<open>Netlink values\<close>

definition agentRouteProtocol :: int where "agentRouteProtocol = 186"

definition FAMILY_V4 :: int where "FAMILY_V4 = 2"

definition FAMILY_V6 :: int where "FAMILY_V6 = 10"

definition SCOPE_UNIVERSE :: int where "SCOPE_UNIVERSE = 0"

definition SCOPE_LINK :: int where "SCOPE_LINK = 253"

definition RTN_UNICAST :: int where "RTN_UNICAST = 1"

definition RTN_BLACKHOLE :: int where "RTN_BLACKHOLE = 6"

definition RTN_UNREACHABLE :: int where "RTN_UNREACHABLE = 7"

definition RTN_PROHIBIT :: int where "RTN_PROHIBIT = 8"

definition RTN_THROW :: int where "RTN_THROW = 9"

definition RTNH_F_ONLINK :: "64 word" where "RTNH_F_ONLINK = 4"

definition FlagUp :: "64 word" where "FlagUp = 1"

definition FlagLoopback :: "64 word" where "FlagLoopback = 4"

lemmas netlink_constants = agentRouteProtocol_def FAMILY_V4_def FAMILY_V6_def SCOPE_UNIVERSE_def SCOPE_LINK_def
  RTN_UNICAST_def RTN_BLACKHOLE_def RTN_UNREACHABLE_def RTN_PROHIBIT_def RTN_THROW_def RTNH_F_ONLINK_def

record ipnet =
  net_IP :: bytes
  net_Mask :: bytes

text \<open>
  \<^verbatim>\<open>netlink.Route\<close>: the fields the adapter reads. Attributes of interface or pointer type, of which only presence
  matters, are optional opaque values.
\<close>

record nl_route =
  nl_LinkIndex :: int
  nl_ILinkIndex :: int
  nl_Scope :: int
  nl_Dst :: "ipnet option"
  nl_Src :: bytes
  nl_Gw :: bytes
  nl_MultiPath :: "string list"
  nl_Protocol :: int
  nl_Priority :: int
  nl_Family :: int
  nl_Table :: int
  nl_Type :: int
  nl_Tos :: int
  nl_Flags :: "64 word"
  nl_MPLSDst :: "int option"
  nl_NewDst :: "string option"
  nl_Encap :: "string option"
  nl_Via :: "string option"
  nl_Realm :: int
  nl_MTU :: int
  nl_MTULock :: bool
  nl_Window :: int
  nl_Rtt :: int
  nl_RttVar :: int
  nl_Ssthresh :: int
  nl_Cwnd :: int
  nl_AdvMSS :: int
  nl_Reordering :: int
  nl_Hoplimit :: int
  nl_InitCwnd :: int
  nl_Features :: int
  nl_RtoMin :: int
  nl_RtoMinLock :: bool
  nl_InitRwnd :: int
  nl_QuickACK :: int
  nl_Congctl :: string
  nl_FastOpenNoCookie :: int

definition nl_route_zero :: nl_route where
  "nl_route_zero =
     \<lparr>nl_LinkIndex = 0, nl_ILinkIndex = 0, nl_Scope = 0, nl_Dst = None, nl_Src = [], nl_Gw = [], nl_MultiPath = [],
      nl_Protocol = 0, nl_Priority = 0, nl_Family = 0, nl_Table = 0, nl_Type = 0, nl_Tos = 0, nl_Flags = 0, nl_MPLSDst = None,
      nl_NewDst = None, nl_Encap = None, nl_Via = None, nl_Realm = 0, nl_MTU = 0, nl_MTULock = False, nl_Window = 0, nl_Rtt = 0,
      nl_RttVar = 0, nl_Ssthresh = 0, nl_Cwnd = 0, nl_AdvMSS = 0, nl_Reordering = 0, nl_Hoplimit = 0, nl_InitCwnd = 0,
      nl_Features = 0, nl_RtoMin = 0, nl_RtoMinLock = False, nl_InitRwnd = 0, nl_QuickACK = 0, nl_Congctl = [],
      nl_FastOpenNoCookie = 0\<rparr>"

record nl_rule =
  nu_Priority :: int
  nu_Family :: int
  nu_Table :: int
  nu_Mark :: "32 word"
  nu_Mask :: "32 word option"
  nu_Tos :: int
  nu_TunID :: int
  nu_Goto :: int
  nu_Src :: "ipnet option"
  nu_Dst :: "ipnet option"
  nu_Flow :: int
  nu_IifName :: string
  nu_OifName :: string
  nu_SuppressIfgroup :: int
  nu_SuppressPrefixlen :: int
  nu_Invert :: bool
  nu_Dport :: "string option"
  nu_Sport :: "string option"
  nu_IPProto :: int
  nu_UIDRange :: "string option"
  nu_Protocol :: "8 word"
  nu_Type :: int

datatype oper_state = OperUnknown | OperUp | OperOther nat

record link_attrs =
  la_Index :: int
  la_Name :: string
  la_Flags :: "64 word"
  la_OperState :: oper_state

text \<open>A link with its attributes, possibly nil, and whether it is a \<^verbatim>\<open>Tuntap\<close> in TUN mode.\<close>

record nl_link =
  nk_Attrs :: "link_attrs option"
  nk_TUN :: bool

section \<open>Addresses, prefixes and links\<close>

definition linuxFamily :: "family \<Rightarrow> int" where
  "linuxFamily family = (if family = IPv4 then FAMILY_V4 else FAMILY_V6)"

definition domainFamily :: "int \<Rightarrow> family \<times> bool" where
  "domainFamily family =
     (if family = FAMILY_V4 then (IPv4, True) else if family = FAMILY_V6 then (IPv6, True) else (0, False))"

definition addressFromIP :: "bytes \<Rightarrow> addr" where
  "addressFromIP address =
     (if length address = 0 then AddrZero
      else let converted = AddrFromSlice address in
        if \<not> addr_IsValid converted then AddrZero else addr_Unmap converted)"

definition ipNetFromPrefix :: "prefix \<Rightarrow> ipnet" where
  "ipNetFromPrefix p =
     \<lparr>net_IP = addr_AsSlice (prefix_Addr p), net_Mask = CIDRMask (prefix_Bits p) (addr_BitLen (prefix_Addr p))\<rparr>"

definition prefixFromIPNet :: "ipnet \<Rightarrow> prefix" where
  "prefixFromIPNet network =
     (let address = addressFromIP (net_IP network); ones = fst (mask_Size (net_Mask network))
      in prefix_Masked (PrefixFrom address ones))"

datatype convert_error =
    RouteDestinationInvalid family
  | RouteInvalid route_error
  | LinkUnresolved int port_error
  | LinkUnusable int
  | LinkInvalid int link_error
  | BlackholeLinkRefused family int string
  | BlackholeLinkNotLoopback int string
  | LinkIndexNegative int
  | UnicastWithoutLink
  | RouteLinkChanged int string
  | DispositionNotWritable disposition

definition canonicalRoutePrefix :: "family \<Rightarrow> ipnet option \<Rightarrow> (convert_error, prefix) result" where
  "canonicalRoutePrefix family network =
     (let p = (case network of None \<Rightarrow> DefaultPrefix family | Some n \<Rightarrow> prefixFromIPNet n)
      in if \<not> prefix_IsValid p \<or> p \<noteq> prefix_Masked p \<or> FamilyOfPrefix p \<noteq> family then Inl (RouteDestinationInvalid family) else Inr p)"

definition usableLinkAttributes :: "link_attrs option \<Rightarrow> bool" where
  "usableLinkAttributes attributes =
     (case attributes of None \<Rightarrow> False
      | Some a \<Rightarrow>
          if la_Index a \<le> 0 \<or> la_Name a = [] \<or> length (la_Name a) > MaximumInterfaceNameBytes \<or> la_Flags a AND FlagUp = 0 then False
          else la_OperState a = OperUnknown \<or> la_OperState a = OperUp)"

definition isTUNLink :: "nl_link \<Rightarrow> bool" where
  "isTUNLink link \<longleftrightarrow> nk_TUN link"

section \<open>Routes\<close>

definition routeDisposition :: "int \<Rightarrow> disposition" where
  "routeDisposition routeType =
     (if routeType = 0 \<or> routeType = RTN_UNICAST then RouteUnicast
      else if routeType = RTN_BLACKHOLE then RouteBlackhole
      else if routeType = RTN_UNREACHABLE then RouteUnreachable
      else if routeType = RTN_PROHIBIT then RouteProhibit
      else if routeType = RTN_THROW then RouteThrow
      else RouteUnknown)"

definition managedRouteScope :: "family \<Rightarrow> disposition \<Rightarrow> bool \<Rightarrow> int" where
  "managedRouteScope family disposition hasGateway =
     (if disposition = RouteBlackhole \<or> hasGateway \<or> family = IPv6 then SCOPE_UNIVERSE else SCOPE_LINK)"

definition routeHasUnsupportedBaseAttributes :: "nl_route \<Rightarrow> bool" where
  "routeHasUnsupportedBaseAttributes route \<longleftrightarrow>
     nl_ILinkIndex route \<noteq> 0 \<or> nl_MPLSDst route \<noteq> None \<or> nl_NewDst route \<noteq> None \<or> nl_Encap route \<noteq> None \<or> nl_Via route \<noteq> None \<or>
     nl_Realm route \<noteq> 0 \<or> nl_Tos route \<noteq> 0 \<or> nl_Flags route AND NOT RTNH_F_ONLINK \<noteq> 0"

definition routeHasUnsupportedDiscoveryMetrics :: "nl_route \<Rightarrow> bool" where
  "routeHasUnsupportedDiscoveryMetrics route \<longleftrightarrow>
     nl_MTULock route \<or> nl_Window route \<noteq> 0 \<or> nl_Rtt route \<noteq> 0 \<or> nl_RttVar route \<noteq> 0 \<or> nl_Ssthresh route \<noteq> 0 \<or> nl_Cwnd route \<noteq> 0 \<or>
     nl_AdvMSS route \<noteq> 0 \<or> nl_Reordering route \<noteq> 0 \<or> nl_Hoplimit route \<noteq> 0 \<or> nl_InitCwnd route \<noteq> 0 \<or> nl_Features route \<noteq> 0 \<or>
     nl_RtoMin route \<noteq> 0 \<or> nl_RtoMinLock route \<or> nl_InitRwnd route \<noteq> 0 \<or> nl_QuickACK route \<noteq> 0 \<or> nl_Congctl route \<noteq> [] \<or>
     nl_FastOpenNoCookie route \<noteq> 0"

definition routeHasUnsupportedManagedMetrics :: "nl_route \<Rightarrow> bool" where
  "routeHasUnsupportedManagedMetrics route \<longleftrightarrow> nl_MTU route \<noteq> 0 \<or> routeHasUnsupportedDiscoveryMetrics route"

definition routeHasUnsupportedDiscoveryAttributes :: "nl_route \<Rightarrow> bool" where
  "routeHasUnsupportedDiscoveryAttributes route \<longleftrightarrow> routeHasUnsupportedBaseAttributes route \<or> routeHasUnsupportedDiscoveryMetrics route"

definition routeHasUnsupportedManagedAttributes :: "nl_route \<Rightarrow> bool" where
  "routeHasUnsupportedManagedAttributes route \<longleftrightarrow>
     routeHasUnsupportedBaseAttributes route \<or> routeHasUnsupportedManagedMetrics route \<or> length (nl_MultiPath route) \<noteq> 0 \<or>
     length (nl_Src route) \<noteq> 0"

definition unexpectedManaged :: "family \<Rightarrow> nl_route \<Rightarrow> bool" where
  "unexpectedManaged family route \<longleftrightarrow>
     (let disposition = routeDisposition (nl_Type route);
          expectedScope = managedRouteScope family disposition (length (nl_Gw route) \<noteq> 0)
      in nl_Protocol route \<noteq> agentRouteProtocol \<or> nl_Scope route \<noteq> expectedScope \<or>
         nl_Family route \<noteq> 0 \<and> nl_Family route \<noteq> linuxFamily family \<or> nl_Table route \<le> 0 \<or> nl_Priority route \<le> 0 \<or>
         routeHasUnsupportedManagedAttributes route \<or>
         disposition = RouteBlackhole \<and> (length (nl_Gw route) \<noteq> 0 \<or> nl_Flags route \<noteq> 0))"

text \<open>\<open>linkByIndex\<close> is the answer of the kernel for the link index of the route.\<close>

definition managedRouteLink ::
  "(int \<Rightarrow> (port_error, nl_link) result) \<Rightarrow> family \<Rightarrow> nl_route \<Rightarrow> (convert_error, link_identity) result" where
  "managedRouteLink linkByIndex family route =
     (let disposition = routeDisposition (nl_Type route); index = nl_LinkIndex route in
      if 0 < index then
        (case linkByIndex index of
           Inl e \<Rightarrow> Inl (LinkUnresolved index e)
         | Inr resolved \<Rightarrow>
             if \<not> usableLinkAttributes (nk_Attrs resolved) \<or> la_Index (the (nk_Attrs resolved)) \<noteq> index then Inl (LinkUnusable index)
             else let attributes = the (nk_Attrs resolved);
                      link = \<lparr>link_Index = la_Index attributes, link_Name = la_Name attributes\<rparr> in
               (case link_Validate link of
                  Some e \<Rightarrow> Inl (LinkInvalid index e)
                | None \<Rightarrow>
                    if disposition = RouteBlackhole then
                      if family \<noteq> IPv6 \<or> unexpectedManaged family route
                        then Inl (BlackholeLinkRefused family (link_Index link) (link_Name link))
                      else if la_Flags attributes AND FlagLoopback = 0
                        then Inl (BlackholeLinkNotLoopback (link_Index link) (link_Name link))
                      else Inr LinkZero
                    else Inr link))
      else if index < 0 then Inl (LinkIndexNegative index)
      else Inr LinkZero)"

definition routeFromNetlink ::
  "(int \<Rightarrow> (port_error, nl_link) result) \<Rightarrow> family \<Rightarrow> nl_route \<Rightarrow> (convert_error, route) result" where
  "routeFromNetlink linkByIndex family route =
     (case canonicalRoutePrefix family (nl_Dst route) of
        Inl e \<Rightarrow> Inl e
      | Inr p \<Rightarrow>
          (case managedRouteLink linkByIndex family route of
             Inl e \<Rightarrow> Inl e
           | Inr link \<Rightarrow>
               let disposition = routeDisposition (nl_Type route) in
               if disposition = RouteUnicast \<and> \<not> link_Valid link then Inl UnicastWithoutLink
               else Inr \<lparr>route_Family = family, route_Disposition = disposition, route_Table = nl_Table route, route_Prefix = p,
                         route_Gateway = addressFromIP (nl_Gw route), route_Link = link,
                         route_OnLink = (nl_Flags route AND RTNH_F_ONLINK \<noteq> 0), route_Metric = nl_Priority route,
                         route_UnexpectedAttributes = unexpectedManaged family route\<rparr>))"

definition routeToNetlink ::
  "(int \<Rightarrow> (port_error, nl_link) result) \<Rightarrow> route \<Rightarrow> (convert_error, nl_route) result" where
  "routeToNetlink linkByIndex route =
     (case route_Validate route of
        Some e \<Rightarrow> Inl (RouteInvalid e)
      | None \<Rightarrow>
          let result = nl_route_zero\<lparr>nl_Table := route_Table route, nl_Protocol := agentRouteProtocol,
                nl_Family := linuxFamily (route_Family route), nl_Priority := route_Metric route,
                nl_Dst := Some (ipNetFromPrefix (route_Prefix route))\<rparr> in
          case route_Disposition route of
            RouteBlackhole \<Rightarrow> Inr (result\<lparr>nl_Type := RTN_BLACKHOLE, nl_Scope := SCOPE_UNIVERSE\<rparr>)
          | RouteUnicast \<Rightarrow>
              (let index = link_Index (route_Link route) in
               case linkByIndex index of
                 Inl e \<Rightarrow> Inl (LinkUnresolved index e)
               | Inr link \<Rightarrow>
                   if \<not> usableLinkAttributes (nk_Attrs link) \<or> la_Index (the (nk_Attrs link)) \<noteq> index \<or>
                      la_Name (the (nk_Attrs link)) \<noteq> link_Name (route_Link route)
                   then Inl (RouteLinkChanged index (link_Name (route_Link route)))
                   else Inr (result\<lparr>nl_LinkIndex := index, nl_Type := RTN_UNICAST,
                     nl_Scope := managedRouteScope (route_Family route) (route_Disposition route) (addr_IsValid (route_Gateway route)),
                     nl_Gw := (if addr_IsValid (route_Gateway route) then addr_AsSlice (route_Gateway route) else []),
                     nl_Flags := (if route_OnLink route then RTNH_F_ONLINK else 0)\<rparr>))
          | other \<Rightarrow> Inl (DispositionNotWritable other))"

section \<open>Rules\<close>

definition unexpectedRule :: "nl_rule \<Rightarrow> bool" where
  "unexpectedRule rule \<longleftrightarrow>
     nu_OifName rule \<noteq> [] \<or> nu_Src rule \<noteq> None \<or> nu_Dst rule \<noteq> None \<or> nu_Tos rule \<noteq> 0 \<or> nu_TunID rule \<noteq> 0 \<or> 0 \<le> nu_Goto rule \<or>
     0 \<le> nu_Flow rule \<or> 0 \<le> nu_SuppressIfgroup rule \<or> 0 \<le> nu_SuppressPrefixlen rule \<or> nu_Invert rule \<or> nu_Dport rule \<noteq> None \<or>
     nu_Sport rule \<noteq> None \<or> nu_IPProto rule \<noteq> 0 \<or> nu_UIDRange rule \<noteq> None \<or>
     nu_Protocol rule \<noteq> word_of_int agentRouteProtocol \<or> nu_Type rule \<noteq> 0 \<and> nu_Type rule \<noteq> RTN_UNICAST"

definition ruleFromNetlink :: "family \<Rightarrow> nl_rule \<Rightarrow> rule" where
  "ruleFromNetlink family rule =
     \<lparr>rule_Family = family, rule_Priority = nu_Priority rule, rule_Table = nu_Table rule,
      rule_IncomingInterface = nu_IifName rule, rule_Mark = nu_Mark rule,
      rule_Mask = (case nu_Mask rule of None \<Rightarrow> 0 | Some m \<Rightarrow> m), rule_UnexpectedMatch = unexpectedRule rule\<rparr>"

text \<open>\<open>newRule\<close> is the value \<^verbatim>\<open>netlink.NewRule\<close> returns.\<close>

definition ruleToNetlink :: "nl_rule \<Rightarrow> rule \<Rightarrow> nl_rule" where
  "ruleToNetlink newRule rule =
     (let result = newRule\<lparr>nu_Family := linuxFamily (rule_Family rule), nu_Priority := rule_Priority rule,
            nu_Table := rule_Table rule, nu_IifName := rule_IncomingInterface rule,
            nu_Protocol := word_of_int agentRouteProtocol, nu_Type := RTN_UNICAST\<rparr>
      in if rule_Mark rule \<noteq> 0 then result\<lparr>nu_Mark := rule_Mark rule, nu_Mask := Some (rule_Mask rule)\<rparr> else result)"

definition managedRuleIdentity :: "rule \<Rightarrow> string" where
  "managedRuleIdentity rule = show_dec (unat (rule_Family rule)) @ ''/'' @ show_int (rule_Priority rule)"

definition managedRulesEqual :: "rule \<Rightarrow> rule \<Rightarrow> bool" where
  "managedRulesEqual left right \<longleftrightarrow>
     rule_Family left = rule_Family right \<and> rule_Priority left = rule_Priority right \<and> rule_Table left = rule_Table right \<and>
     rule_IncomingInterface left = rule_IncomingInterface right \<and> rule_Mark left = rule_Mark right \<and>
     rule_Mask left = rule_Mask right \<and> rule_UnexpectedMatch left = rule_UnexpectedMatch right"

section \<open>Addresses and prefixes and back\<close>

lemma addressFromIP_AsSlice:
  assumes "addr_Zone (addr_Unmap a) = []"
  shows "addressFromIP (addr_AsSlice a) = addr_Unmap a"
  using assms
  by (cases a) (auto simp: addressFromIP_def AddrFromSlice_def bytes_value_be_bytes Let_def split: if_splits)

lemma length_addr_AsSlice [simp]: "length (addr_AsSlice a) = 0 \<longleftrightarrow> \<not> addr_IsValid a" "addr_AsSlice a = [] \<longleftrightarrow> \<not> addr_IsValid a"
  by (cases a; simp add: be_bytes_def)+

lemma prefixFromIPNet_FromPrefix:
  assumes "prefix_ok p" "prefix_IsValid p" "p = prefix_Masked p" "\<not> addr_Is4In6 (prefix_Addr p)"
  shows "prefixFromIPNet (ipNetFromPrefix p) = p"
proof -
  have address: "addressFromIP (addr_AsSlice (prefix_Addr p)) = prefix_Addr p"
    using assms(1,4) by (simp add: addressFromIP_AsSlice addr_Unmap_id prefix_ok_def)
  have bits: "fst (mask_Size (CIDRMask (prefix_Bits p) (addr_BitLen (prefix_Addr p)))) = prefix_Bits p"
    using assms(1,2) by (cases rule: prefix_cases_valid) (simp_all add: mask_Size_CIDRMask prefix_Bits_def)
  have "PrefixFrom (prefix_Addr p) (prefix_Bits p) = p"
    using assms(1,2) by (cases rule: prefix_cases_valid) (simp_all add: PrefixFrom_def prefix_Bits_def)
  with assms(3) address bits show ?thesis
    by (simp add: prefixFromIPNet_def ipNetFromPrefix_def)
qed

lemma canonicalRoutePrefix_FromPrefix:
  assumes "validMaskedPrefix p family" "\<not> addr_Is4In6 (prefix_Addr p)"
  shows "canonicalRoutePrefix family (Some (ipNetFromPrefix p)) = Inr p"
proof -
  have valid: "prefix_IsValid p" "p = prefix_Masked p" "FamilyOfPrefix p = family"
    using assms(1) by (simp_all add: validMaskedPrefix_def)
  then have "prefix_ok p" by (metis prefix_ok_Masked)
  with valid assms(2) have "prefixFromIPNet (ipNetFromPrefix p) = p"
    by (simp add: prefixFromIPNet_FromPrefix)
  with valid show ?thesis by (simp add: canonicalRoutePrefix_def)
qed

text \<open>
  A masked IPv4-mapped prefix has at least 96 bits. Its address comes back in the IPv4 form, for which that is too many.
\<close>

lemma mapped_prefix_bits:
  assumes "validMaskedPrefix p family" "addr_Is4In6 (prefix_Addr p)"
  obtains m b where "p = Prefix (Addr6 m []) (Suc b)" "96 \<le> b" "b \<le> 128"
proof -
  have "prefix_IsValid p" and masked: "prefix_Masked p = p" using assms(1) by (simp_all add: validMaskedPrefix_def)
  with validMaskedPrefix_ok [OF assms(1)] show thesis
  proof (cases rule: prefix_cases_valid)
    case (v6 m b)
    then have mapped: "drop_bit 32 m = 0xFFFF" and m: "m = m AND NOT (mask (128 - b))"
      using assms(2) masked by (simp_all add: prefix_Masked6 netmask6_def)
    have "bit (drop_bit 32 m) 0" unfolding mapped by simp
    then have "bit m 32" by (simp add: bit_simps)
    then have "bit (m AND NOT (mask (128 - b))) 32" using m by simp
    then have "128 - b \<le> 32" by (simp add: bit_simps)
    with v6 that show thesis by simp
  qed (use assms(2) in simp)
qed

lemma canonicalRoutePrefix_mapped:
  assumes "validMaskedPrefix p family" "addr_Is4In6 (prefix_Addr p)"
  shows "canonicalRoutePrefix family (Some (ipNetFromPrefix p)) = Inl (RouteDestinationInvalid family)"
proof -
  obtain m b where p: "p = Prefix (Addr6 m []) (Suc b)" "96 \<le> b" "b \<le> 128" by (rule mapped_prefix_bits [OF assms])
  then have unmapped: "addr_Unmap (Addr6 m []) = Addr4 (ucast m)" using assms(2) by simp
  have "addressFromIP (addr_AsSlice (Addr6 m [])) = Addr4 (ucast m)"
    using addressFromIP_AsSlice [of "Addr6 m []"] unfolding unmapped by simp
  moreover have "fst (mask_Size (CIDRMask (int b) 128)) = int b" using p by (simp add: mask_Size_CIDRMask)
  moreover have "prefix_Masked (PrefixFrom (Addr4 (ucast m)) (int b)) = PrefixZero"
    using p by (intro prefix_Masked_invalid) (simp add: prefix_IsValid_def PrefixFrom_def)
  ultimately have "prefixFromIPNet (ipNetFromPrefix p) = PrefixZero"
    using p by (simp add: prefixFromIPNet_def ipNetFromPrefix_def prefix_Bits_def del: addr_AsSlice.simps)
  then show ?thesis by (simp add: canonicalRoutePrefix_def)
qed

text \<open>What \<^verbatim>\<open>canonicalRoutePrefix\<close> returns is a valid, masked prefix of the family.\<close>

lemma canonicalRoutePrefix_valid: "canonicalRoutePrefix family network = Inr p \<Longrightarrow> validMaskedPrefix p family"
  by (auto simp: canonicalRoutePrefix_def validMaskedPrefix_def Let_def split: if_splits)

section \<open>Routes and rules and back\<close>

lemma onlink_flags [simp]: "RTNH_F_ONLINK AND NOT RTNH_F_ONLINK = 0" "RTNH_F_ONLINK \<noteq> 0" "RTNH_F_ONLINK AND RTNH_F_ONLINK = RTNH_F_ONLINK"
  by (simp_all add: RTNH_F_ONLINK_def)

lemma routeDisposition_written [simp]:
  "routeDisposition RTN_BLACKHOLE = RouteBlackhole" "routeDisposition RTN_UNICAST = RouteUnicast"
  by (simp_all add: routeDisposition_def netlink_constants)

lemmas unexpected_route_defs = unexpectedManaged_def routeHasUnsupportedManagedAttributes_def
  routeHasUnsupportedBaseAttributes_def routeHasUnsupportedManagedMetrics_def routeHasUnsupportedDiscoveryMetrics_def

lemma route_Validate_facts:
  assumes "route_Validate r = None"
  shows "\<not> route_UnexpectedAttributes r" "0 < route_Table r" "validMaskedPrefix (route_Prefix r) (route_Family r)" "0 < route_Metric r"
    "route_Disposition r = RouteUnicast \<Longrightarrow> unicast_Validate r = None"
    "route_Disposition r = RouteBlackhole \<Longrightarrow> route_Link r = LinkZero \<and> \<not> addr_IsValid (route_Gateway r) \<and> \<not> route_OnLink r"
  using assms by (auto simp: route_Validate_def split: if_splits)

lemma addr_invalid_iff: "\<not> addr_IsValid a \<longleftrightarrow> a = AddrZero"
  by (cases a) simp_all

lemma routeToNetlink_blackhole:
  assumes "routeToNetlink links r = Inr n" "route_Disposition r = RouteBlackhole"
  shows "route_Validate r = None"
    "n = nl_route_zero\<lparr>nl_Table := route_Table r, nl_Protocol := agentRouteProtocol, nl_Family := linuxFamily (route_Family r),
       nl_Priority := route_Metric r, nl_Dst := Some (ipNetFromPrefix (route_Prefix r)), nl_Type := RTN_BLACKHOLE,
       nl_Scope := SCOPE_UNIVERSE\<rparr>"
  using assms by (simp_all add: routeToNetlink_def split: option.splits)

lemma routeToNetlink_unicast:
  assumes "routeToNetlink links r = Inr n" "route_Disposition r = RouteUnicast"
  obtains link attributes where "route_Validate r = None" "links (link_Index (route_Link r)) = Inr link"
    "nk_Attrs link = Some attributes" "usableLinkAttributes (Some attributes)"
    "la_Index attributes = link_Index (route_Link r)" "la_Name attributes = link_Name (route_Link r)"
    "n = nl_route_zero\<lparr>nl_Table := route_Table r, nl_Protocol := agentRouteProtocol, nl_Family := linuxFamily (route_Family r),
       nl_Priority := route_Metric r, nl_Dst := Some (ipNetFromPrefix (route_Prefix r)), nl_LinkIndex := link_Index (route_Link r),
       nl_Type := RTN_UNICAST, nl_Scope := managedRouteScope (route_Family r) RouteUnicast (addr_IsValid (route_Gateway r)),
       nl_Gw := (if addr_IsValid (route_Gateway r) then addr_AsSlice (route_Gateway r) else []),
       nl_Flags := (if route_OnLink r then RTNH_F_ONLINK else 0)\<rparr>"
proof -
  from assms obtain link where valid: "route_Validate r = None" and link: "links (link_Index (route_Link r)) = Inr link"
    by (auto simp: routeToNetlink_def Let_def split: option.splits sum.splits)
  from assms valid link obtain attributes where "nk_Attrs link = Some attributes"
    by (cases "nk_Attrs link") (simp_all add: routeToNetlink_def Let_def usableLinkAttributes_def)
  with assms valid link that show thesis
    by (simp add: routeToNetlink_def Let_def split: if_splits)
qed

lemma managed_unexpected_blackhole:
  assumes "routeToNetlink links r = Inr n" "route_Disposition r = RouteBlackhole"
  shows "\<not> unexpectedManaged (route_Family r) (n\<lparr>nl_LinkIndex := i\<rparr>)"
  using routeToNetlink_blackhole [OF assms] route_Validate_facts [of r]
  by (simp add: unexpected_route_defs nl_route_zero_def managedRouteScope_def)

lemma managed_unexpected_unicast:
  assumes "routeToNetlink links r = Inr n" "route_Disposition r = RouteUnicast"
  shows "\<not> unexpectedManaged (route_Family r) n"
  using assms by (rule routeToNetlink_unicast)
    (use route_Validate_facts [of r] in \<open>simp add: unexpected_route_defs nl_route_zero_def\<close>)

lemma blackhole_roundtrip:
  assumes "routeToNetlink links r = Inr n" "route_Disposition r = RouteBlackhole" "\<not> addr_Is4In6 (prefix_Addr (route_Prefix r))"
  shows "routeFromNetlink links (route_Family r) n = Inr r"
proof -
  note valid = route_Validate_facts [OF routeToNetlink_blackhole(1) [OF assms(1,2)]]
  have "\<not> unexpectedManaged (route_Family r) n"
    using managed_unexpected_blackhole [OF assms(1,2), of "nl_LinkIndex n"] by simp
  with valid canonicalRoutePrefix_FromPrefix [OF valid(3) assms(3)] show ?thesis
    using assms(2) routeToNetlink_blackhole(2) [OF assms(1,2)]
    by (cases r) (simp add: routeFromNetlink_def managedRouteLink_def nl_route_zero_def addressFromIP_def addr_invalid_iff)
qed

lemma unicast_roundtrip:
  assumes "routeToNetlink links r = Inr n" "route_Disposition r = RouteUnicast" "\<not> addr_Is4In6 (prefix_Addr (route_Prefix r))"
  shows "routeFromNetlink links (route_Family r) n = Inr (r\<lparr>route_Gateway := addr_Unmap (route_Gateway r)\<rparr>)"
  using assms(1,2)
proof (rule routeToNetlink_unicast)
  fix link attributes
  assume ok: "route_Validate r = None" and link: "links (link_Index (route_Link r)) = Inr link" "nk_Attrs link = Some attributes"
      "usableLinkAttributes (Some attributes)" "la_Index attributes = link_Index (route_Link r)"
      "la_Name attributes = link_Name (route_Link r)"
    and n: "n = nl_route_zero\<lparr>nl_Table := route_Table r, nl_Protocol := agentRouteProtocol, nl_Family := linuxFamily (route_Family r),
       nl_Priority := route_Metric r, nl_Dst := Some (ipNetFromPrefix (route_Prefix r)), nl_LinkIndex := link_Index (route_Link r),
       nl_Type := RTN_UNICAST, nl_Scope := managedRouteScope (route_Family r) RouteUnicast (addr_IsValid (route_Gateway r)),
       nl_Gw := (if addr_IsValid (route_Gateway r) then addr_AsSlice (route_Gateway r) else []),
       nl_Flags := (if route_OnLink r then RTNH_F_ONLINK else 0)\<rparr>"
  note valid = route_Validate_facts [OF ok]
  have unicast: "unicast_Validate r = None" using valid(5) assms(2) by simp
  then have linkvalid: "link_Valid (route_Link r)" by (auto simp: unicast_Validate_def split: option.splits)
  have "0 < link_Index (route_Link r)" using linkvalid by (simp add: link_Valid_iff)
  moreover have "nl_Type n = RTN_UNICAST" "nl_LinkIndex n = link_Index (route_Link r)" by (simp_all add: n)
  ultimately have "managedRouteLink links (route_Family r) n = Inr (route_Link r)"
    using link linkvalid
    by (cases "route_Link r") (simp add: managedRouteLink_def link_Valid_def Let_def del: link_Validate_None)
  moreover have "addressFromIP (nl_Gw n) = addr_Unmap (route_Gateway r)"
    using unicast linkvalid
    by (auto simp: n unicast_Validate_def Let_def addressFromIP_AsSlice addr_invalid_iff addressFromIP_def [of "[]"] split: if_splits option.splits)
  moreover have "(nl_Flags n AND RTNH_F_ONLINK \<noteq> 0) = route_OnLink r" by (simp add: n)
  ultimately show ?thesis
    using canonicalRoutePrefix_FromPrefix [OF valid(3) assms(3)] linkvalid managed_unexpected_unicast [OF assms(1,2)] valid(1) assms(2)
    by (cases r) (simp add: routeFromNetlink_def n nl_route_zero_def)
qed

lemma routeToNetlink_disposition:
  "routeToNetlink links r = Inr n \<Longrightarrow> route_Disposition r = RouteBlackhole \<or> route_Disposition r = RouteUnicast"
  by (cases "route_Disposition r") (auto simp: routeToNetlink_def Let_def split: option.splits)

lemma routeToNetlink_destination:
  "routeToNetlink links r = Inr n \<Longrightarrow> route_Validate r = None \<and> nl_Dst n = Some (ipNetFromPrefix (route_Prefix r))"
  by (auto simp: routeToNetlink_def Let_def split: option.splits disposition.splits sum.splits if_splits)

text \<open>
  C18: a route the agent sends to the kernel decodes to itself, with no unexpected attribute; only an IPv4-mapped gateway
  comes back in its IPv4 form. The exception are routes whose prefix is an IPv4-mapped one, which validation accepts and the agent sends: reading
  such a route fails with an invalid destination.
\<close>

theorem route_netlink_roundtrip:
  assumes "routeToNetlink links r = Inr n"
  shows "routeFromNetlink links (route_Family r) n =
    (if addr_Is4In6 (prefix_Addr (route_Prefix r)) then Inl (RouteDestinationInvalid (route_Family r))
     else Inr (r\<lparr>route_Gateway := addr_Unmap (route_Gateway r)\<rparr>))"
proof (cases "addr_Is4In6 (prefix_Addr (route_Prefix r))")
  case True
  with canonicalRoutePrefix_mapped [of "route_Prefix r" "route_Family r"] routeToNetlink_destination [OF assms] route_Validate_facts(3)
  show ?thesis by (simp add: routeFromNetlink_def)
next
  case plain: False
  from routeToNetlink_disposition [OF assms] have "routeFromNetlink links (route_Family r) n = Inr (r\<lparr>route_Gateway := addr_Unmap (route_Gateway r)\<rparr>)"
  proof
    assume blackhole: "route_Disposition r = RouteBlackhole"
    then have "route_Gateway r = AddrZero"
      using routeToNetlink_blackhole(1) [OF assms] route_Validate_facts(6) [of r] by (simp add: addr_invalid_iff)
    then have "r\<lparr>route_Gateway := addr_Unmap (route_Gateway r)\<rparr> = r" by (cases r) simp
    with blackhole_roundtrip [OF assms blackhole plain] show ?thesis by simp
  qed (rule unicast_roundtrip [OF assms _ plain])
  with plain show ?thesis by simp
qed

text \<open>
  The kernel reports an IPv6 blackhole route on the loopback link. The link is dropped and the route is the one written.
\<close>

lemma blackhole_on_loopback_roundtrip:
  assumes "routeToNetlink links r = Inr n" "route_Disposition r = RouteBlackhole" "route_Family r = IPv6"
    "\<not> addr_Is4In6 (prefix_Addr (route_Prefix r))"
    and lo: "links i = Inr lo" "nk_Attrs lo = Some attributes" "usableLinkAttributes (Some attributes)" "la_Index attributes = i"
      "link_Valid \<lparr>link_Index = i, link_Name = la_Name attributes\<rparr>" "la_Flags attributes AND FlagLoopback \<noteq> 0"
  shows "routeFromNetlink links IPv6 (n\<lparr>nl_LinkIndex := i\<rparr>) = Inr r"
proof -
  note valid = route_Validate_facts [OF routeToNetlink_blackhole(1) [OF assms(1,2)]]
  have "0 < i" using lo(5) by (simp add: link_Valid_iff)
  moreover have expected: "\<not> unexpectedManaged IPv6 (n\<lparr>nl_LinkIndex := i\<rparr>)"
    using managed_unexpected_blackhole [OF assms(1,2), of i] assms(3) by simp
  moreover have type: "nl_Type n = RTN_BLACKHOLE" using routeToNetlink_blackhole(2) [OF assms(1,2)] by simp
  ultimately have "managedRouteLink links IPv6 (n\<lparr>nl_LinkIndex := i\<rparr>) = Inr LinkZero"
    using lo by (simp add: managedRouteLink_def link_Valid_def Let_def del: link_Validate_None)
  with expected valid canonicalRoutePrefix_FromPrefix [OF valid(3) assms(4)] show ?thesis
    using assms(2,3) routeToNetlink_blackhole(2) [OF assms(1,2)]
    by (cases r) (simp add: routeFromNetlink_def nl_route_zero_def addressFromIP_def addr_invalid_iff)
qed

text \<open>The defaults of \<^verbatim>\<open>netlink.NewRule\<close> as its documentation gives them: every selector unset.\<close>

definition rule_unset :: "nl_rule \<Rightarrow> bool" where
  "rule_unset rule \<longleftrightarrow> nu_OifName rule = [] \<and> nu_Src rule = None \<and> nu_Dst rule = None \<and> nu_Tos rule = 0 \<and> nu_TunID rule = 0 \<and>
     nu_Goto rule < 0 \<and> nu_Flow rule < 0 \<and> nu_SuppressIfgroup rule < 0 \<and> nu_SuppressPrefixlen rule < 0 \<and> \<not> nu_Invert rule \<and>
     nu_Dport rule = None \<and> nu_Sport rule = None \<and> nu_IPProto rule = 0 \<and> nu_UIDRange rule = None \<and> nu_Mark rule = 0 \<and>
     nu_Mask rule = None"

lemma ruleToNetlink_fields [simp]:
  "nu_Protocol (ruleToNetlink newRule r) = word_of_int agentRouteProtocol" "nu_Priority (ruleToNetlink newRule r) = rule_Priority r"
  "nu_Family (ruleToNetlink newRule r) = linuxFamily (rule_Family r)" "nu_Table (ruleToNetlink newRule r) = rule_Table r"
  by (simp_all add: ruleToNetlink_def Let_def)

lemma rule_Validate_facts:
  assumes "rule_Validate r = None"
  shows "\<not> rule_UnexpectedMatch r" "rule_Mark r = 0 \<Longrightarrow> rule_Mask r = 0"
  using assms by (auto simp: rule_Validate_def split: if_splits option.splits)

lemma rule_netlink_roundtrip:
  assumes "rule_unset newRule" "rule_Validate r = None"
  shows "ruleFromNetlink (rule_Family r) (ruleToNetlink newRule r) = r"
proof -
  have "\<not> unexpectedRule (ruleToNetlink newRule r)"
    using assms(1) by (simp add: unexpectedRule_def ruleToNetlink_def rule_unset_def Let_def RTN_UNICAST_def)
  with rule_Validate_facts [OF assms(2)] assms(1) show ?thesis
    by (cases r) (simp add: ruleFromNetlink_def ruleToNetlink_def rule_unset_def Let_def)
qed

lemma managedRulesEqual_iff [simp]: "managedRulesEqual left right \<longleftrightarrow> left = right"
  by (cases left; cases right) (auto simp: managedRulesEqual_def)

lemma managedRuleIdentity_iff:
  "managedRuleIdentity left = managedRuleIdentity right \<longleftrightarrow>
     rule_Family left = rule_Family right \<and> rule_Priority left = rule_Priority right"
  using ruleKey_iff [of left right] by (simp add: managedRuleIdentity_def ruleKey_def)

text \<open>
  A loopback, an Ethernet link and an IPv4 route over it, for the witness.
\<close>

definition sample_links :: "int \<Rightarrow> (port_error, nl_link) result" where
  "sample_links i =
     (if i = 2 then Inr \<lparr>nk_Attrs = Some \<lparr>la_Index = 2, la_Name = ''eth0'', la_Flags = 1, la_OperState = OperUp\<rparr>, nk_TUN = False\<rparr>
      else Inl ''no such link'')"

definition sample_route :: route where
  "sample_route =
     \<lparr>route_Family = IPv4, route_Disposition = RouteUnicast, route_Table = 100, route_Prefix = Prefix (Addr4 0x0A000000) 9,
      route_Gateway = Addr4 0xC0A80001, route_Link = \<lparr>link_Index = 2, link_Name = ''eth0''\<rparr>, route_OnLink = True, route_Metric = 10,
      route_UnexpectedAttributes = False\<rparr>"

definition mapped_route :: route where
  "mapped_route = sample_route\<lparr>route_Prefix := Prefix (Addr6 0xFFFF0A000000 []) 105\<rparr>"

theorem route_netlink_roundtrip_witness:
  "(\<exists>n. routeToNetlink sample_links sample_route = Inr n \<and> routeFromNetlink sample_links IPv4 n = Inr sample_route) \<and>
   (\<exists>n. routeToNetlink sample_links mapped_route = Inr n \<and> routeFromNetlink sample_links IPv4 n = Inl (RouteDestinationInvalid IPv4))"
proof -
  define n where "n = (case routeToNetlink sample_links sample_route of Inr m \<Rightarrow> m | Inl _ \<Rightarrow> nl_route_zero)"
  have written: "routeToNetlink sample_links sample_route = Inr n"
    unfolding n_def by code_simp
  define k where "k = (case routeToNetlink sample_links mapped_route of Inr m \<Rightarrow> m | Inl _ \<Rightarrow> nl_route_zero)"
  have mapped: "routeToNetlink sample_links mapped_route = Inr k"
    unfolding k_def by code_simp
  have "addr_Is4In6 (prefix_Addr (route_Prefix mapped_route))" "\<not> addr_Is4In6 (prefix_Addr (route_Prefix sample_route))" by code_simp+
  with route_netlink_roundtrip [OF written] route_netlink_roundtrip [OF mapped] written mapped show ?thesis
    by (auto simp: sample_route_def mapped_route_def)
qed

end
