(* ===== verification/Netlink_Tracker.thy ===== *)
theory Netlink_Tracker
  imports Netlink_Convert Runtime "HOL-Library.AList"
begin

text \<open>
  \<^verbatim>\<open>internal/adapter/netlink/route_events_linux.go\<close>: the tracker that pairs each route the agent writes with the
  notification the kernel sends for it. The critical sections of the tracker are functions; the goroutines that run
  them, the sends that follow the release of the mutex and the waiters are interleaved by a step relation. Every
  expectation is settled exactly once, no send blocks, and no waiter is left without a result.
\<close>

section \<open>Identity of a route mutation\<close>

definition RTM_NEWROUTE :: "16 word" where "RTM_NEWROUTE = 24"

definition RTM_DELROUTE :: "16 word" where "RTM_DELROUTE = 25"

record mutation_key =
  rmk_messageType :: "16 word"
  rmk_family :: int
  rmk_table :: int
  rmk_protocol :: int
  rmk_routeType :: int
  rmk_prefix :: prefix
  rmk_metric :: int

datatype mutation_error =
    UnsupportedNotification "16 word"
  | MutationNil
  | MutationFamily int
  | MutationDestination convert_error

definition routeMutationIdentity :: "16 word \<Rightarrow> nl_route option \<Rightarrow> (mutation_error, mutation_key) result" where
  "routeMutationIdentity messageType route =
     (if messageType \<noteq> RTM_NEWROUTE \<and> messageType \<noteq> RTM_DELROUTE then Inl (UnsupportedNotification messageType)
      else case route of
        None \<Rightarrow> Inl MutationNil
      | Some r \<Rightarrow>
          (let (family, validFamily) = domainFamily (nl_Family r) in
           if \<not> validFamily then Inl (MutationFamily (nl_Family r))
           else case canonicalRoutePrefix family (nl_Dst r) of
             Inl e \<Rightarrow> Inl (MutationDestination e)
           | Inr p \<Rightarrow>
               Inr \<lparr>rmk_messageType = messageType, rmk_family = nl_Family r, rmk_table = nl_Table r, rmk_protocol = nl_Protocol r,
                    rmk_routeType = nl_Type r, rmk_prefix = p, rmk_metric = nl_Priority r\<rparr>))"

record route_update =
  nup_Type :: "16 word"
  nup_Route :: nl_route

definition networkEventFromRouteUpdate :: "route_update \<Rightarrow> network_event" where
  "networkEventFromRouteUpdate update =
     (let route = nup_Route update;
          event = \<lparr>ne_Kind = NetworkEventRoute, ne_Action = [], ne_Family = 0, ne_Table = nl_Table route,
                   ne_Protocol = word_of_int (nl_Protocol route), ne_RouteType = nl_Type route, ne_Prefix = PrefixZero,
                   ne_Metric = nl_Priority route\<rparr>;
          event = (if nup_Type update = RTM_NEWROUTE then event\<lparr>ne_Action := NetworkEventUpsert\<rparr>
                   else if nup_Type update = RTM_DELROUTE then event\<lparr>ne_Action := NetworkEventDelete\<rparr> else event);
          (family, ok) = domainFamily (nl_Family route)
      in if ok then
           event\<lparr>ne_Family := family,
             ne_Prefix := (case nl_Dst route of
               None \<Rightarrow> DefaultPrefix family
             | Some n \<Rightarrow> if prefix_IsValid (prefixFromIPNet n) then prefixFromIPNet n else DefaultPrefix family)\<rparr>
         else event)"

section \<open>The tracker\<close>

datatype tracker_error =
    SubscriptionActive
  | StaleExpectations
  | SubscriptionClosed
  | NotificationTimeout
  | TrackerContext port_error
  | CloseReason port_error

text \<open>
  Expectations are heap cells, addressed by their position in \<open>ts_heap\<close>: the key and the buffer of the result
  channel, which holds one value.
\<close>

record expectation =
  exp_key :: mutation_key
  exp_result :: "tracker_error option list"

definition result_capacity :: nat where "result_capacity = 1"

record tracker =
  rmt_active :: bool
  rmt_pending :: "(mutation_key \<times> nat list) list"

definition pending_at :: "tracker \<Rightarrow> mutation_key \<Rightarrow> nat list" where
  "pending_at tracker key = (case map_of (rmt_pending tracker) key of None \<Rightarrow> [] | Some l \<Rightarrow> l)"

definition activate :: "tracker \<Rightarrow> tracker_error option \<times> tracker" where
  "activate tracker =
     (if rmt_active tracker then (Some SubscriptionActive, tracker)
      else if length (rmt_pending tracker) \<noteq> 0 then (Some StaleExpectations, tracker)
      else (None, \<lparr>rmt_active = True, rmt_pending = []\<rparr>))"

text \<open>
  The locked part of \<^verbatim>\<open>deactivate\<close>: \<open>order\<close> is the order in which Go's \<^verbatim>\<open>range\<close> visits the keys. It returns the
  expectations that are sent the reason once the mutex is released.
\<close>

definition deactivate :: "mutation_key list \<Rightarrow> tracker \<Rightarrow> nat list \<times> tracker" where
  "deactivate order tracker =
     (if \<not> rmt_active tracker \<and> length (rmt_pending tracker) = 0 then ([], tracker)
      else (concat (map (pending_at tracker) order),
            \<lparr>rmt_active = False, rmt_pending = fold AList.delete order (rmt_pending tracker)\<rparr>))"

definition deactivate_reason :: "tracker_error option \<Rightarrow> tracker_error" where
  "deactivate_reason reason = (case reason of None \<Rightarrow> SubscriptionClosed | Some e \<Rightarrow> e)"

definition expect ::
  "16 word \<Rightarrow> nl_route option \<Rightarrow> expectation list \<Rightarrow> tracker \<Rightarrow>
     (mutation_error, nat option) result \<times> expectation list \<times> tracker" where
  "expect messageType route heap tracker =
     (case routeMutationIdentity messageType route of
        Inl e \<Rightarrow> (Inl e, heap, tracker)
      | Inr key \<Rightarrow>
          if \<not> rmt_active tracker then (Inr None, heap, tracker)
          else (Inr (Some (length heap)), heap @ [\<lparr>exp_key = key, exp_result = []\<rparr>],
                tracker\<lparr>rmt_pending := AList.update key (pending_at tracker key @ [length heap]) (rmt_pending tracker)\<rparr>))"

text \<open>The locked part of \<^verbatim>\<open>acknowledge\<close>: the expectation that is sent nil, when the notification has one.\<close>

definition acknowledge :: "route_update \<Rightarrow> tracker \<Rightarrow> nat option \<times> tracker" where
  "acknowledge update tracker =
     (case routeMutationIdentity (nup_Type update) (Some (nup_Route update)) of
        Inl e \<Rightarrow> (None, tracker)
      | Inr key \<Rightarrow>
          (case pending_at tracker key of
             [] \<Rightarrow> (None, tracker)
           | [i] \<Rightarrow> (Some i, tracker\<lparr>rmt_pending := AList.delete key (rmt_pending tracker)\<rparr>)
           | i # rest \<Rightarrow> (Some i, tracker\<lparr>rmt_pending := AList.update key rest (rmt_pending tracker)\<rparr>)))"

definition cancel :: "nat option \<Rightarrow> expectation list \<Rightarrow> tracker \<Rightarrow> bool \<times> tracker" where
  "cancel expectation heap tracker =
     (case expectation of
        None \<Rightarrow> (False, tracker)
      | Some i \<Rightarrow>
          (let key = exp_key (heap ! i); expectations = pending_at tracker key in
           if i \<notin> set expectations then (False, tracker)
           else if remove1 i expectations = [] then (True, tracker\<lparr>rmt_pending := AList.delete key (rmt_pending tracker)\<rparr>)
           else (True, tracker\<lparr>rmt_pending := AList.update key (remove1 i expectations) (rmt_pending tracker)\<rparr>)))"

text \<open>
  One turn of \<^verbatim>\<open>forwardRouteEvents\<close>: an update that settles an expectation is swallowed, any other is forwarded. Link
  and address updates are always forwarded, without their content.
\<close>

definition forwardRouteEvent :: "route_update \<Rightarrow> tracker \<Rightarrow> network_event option \<times> nat option \<times> tracker" where
  "forwardRouteEvent update tracker =
     (case acknowledge update tracker of
        (Some i, t) \<Rightarrow> (None, Some i, t)
      | (None, t) \<Rightarrow> (Some (networkEventFromRouteUpdate update), None, t))"

definition plain_event :: "network_event_kind \<Rightarrow> network_event" where
  "plain_event kind =
     \<lparr>ne_Kind = kind, ne_Action = [], ne_Family = 0, ne_Table = 0, ne_Protocol = 0, ne_RouteType = 0, ne_Prefix = PrefixZero, ne_Metric = 0\<rparr>"

definition forwardLinkEvent :: network_event where
  "forwardLinkEvent = plain_event NetworkEventLink"

definition forwardAddressEvent :: network_event where
  "forwardAddressEvent = plain_event NetworkEventAddress"

section \<open>Goroutines\<close>

text \<open>
  The goroutine that made a mutation: it talks to the kernel, waits, receives unconditionally after a cancellation
  that came too late, or is through. \<open>Withdrawn\<close> and \<open>Orphaned\<close> say whether its cancellation after a kernel error
  found the expectation.
\<close>

datatype waiter = Registered | Waiting | Receiving | Returned "tracker_error option" | Withdrawn | Orphaned

record tracker_system =
  ts_tracker :: tracker
  ts_heap :: "expectation list"
  ts_sending :: "(nat \<times> tracker_error option) list"
  ts_waiter :: "nat \<Rightarrow> waiter"

definition tracker_start :: tracker_system where
  "tracker_start = \<lparr>ts_tracker = \<lparr>rmt_active = False, rmt_pending = []\<rparr>, ts_heap = [], ts_sending = [], ts_waiter = (\<lambda>_. Registered)\<rparr>"

definition set_waiter :: "nat \<Rightarrow> waiter \<Rightarrow> tracker_system \<Rightarrow> tracker_system" where
  "set_waiter i w s = s\<lparr>ts_waiter := (ts_waiter s)(i := w)\<rparr>"

definition send_result :: "nat \<Rightarrow> tracker_error option \<Rightarrow> expectation list \<Rightarrow> expectation list" where
  "send_result i e heap = heap[i := (heap ! i)\<lparr>exp_result := exp_result (heap ! i) @ [e]\<rparr>]"

text \<open>The \<^verbatim>\<open>select\<close> of \<^verbatim>\<open>wait\<close>, and the cancellation that follows the end of the context or of the timer.\<close>

definition wait_receive :: "nat \<Rightarrow> tracker_system \<Rightarrow> tracker_system option" where
  "wait_receive i s =
     (case exp_result (ts_heap s ! i) of
        [] \<Rightarrow> None
      | e # rest \<Rightarrow> Some (set_waiter i (Returned e) (s\<lparr>ts_heap := (ts_heap s)[i := (ts_heap s ! i)\<lparr>exp_result := rest\<rparr>]\<rparr>)))"

definition wait_interrupted :: "nat \<Rightarrow> tracker_error \<Rightarrow> tracker_system \<Rightarrow> tracker_system" where
  "wait_interrupted i reason s =
     (case cancel (Some i) (ts_heap s) (ts_tracker s) of (cancelled, t) \<Rightarrow>
        set_waiter i (if cancelled then Returned (Some reason) else Receiving) (s\<lparr>ts_tracker := t\<rparr>))"

definition kernel_failed :: "nat \<Rightarrow> tracker_system \<Rightarrow> tracker_system" where
  "kernel_failed i s =
     (case cancel (Some i) (ts_heap s) (ts_tracker s) of (cancelled, t) \<Rightarrow>
        set_waiter i (if cancelled then Withdrawn else Orphaned) (s\<lparr>ts_tracker := t\<rparr>))"

inductive tracker_step :: "tracker_system \<Rightarrow> tracker_system \<Rightarrow> bool" where
  activated: "tracker_step s (s\<lparr>ts_tracker := snd (activate (ts_tracker s))\<rparr>)"
| deactivated:
    "distinct order \<Longrightarrow> set order = fst ` set (rmt_pending (ts_tracker s)) \<Longrightarrow> deactivate order (ts_tracker s) = (pending, t) \<Longrightarrow>
     tracker_step s (s\<lparr>ts_tracker := t, ts_sending := ts_sending s @ map (\<lambda>i. (i, Some (deactivate_reason reason))) pending\<rparr>)"
| expected:
    "expect messageType route (ts_heap s) (ts_tracker s) = (Inr (Some i), heap, t) \<Longrightarrow>
     tracker_step s (set_waiter i Registered (s\<lparr>ts_tracker := t, ts_heap := heap\<rparr>))"
| acknowledged:
    "acknowledge update (ts_tracker s) = (Some i, t) \<Longrightarrow>
     tracker_step s (s\<lparr>ts_tracker := t, ts_sending := ts_sending s @ [(i, None)]\<rparr>)"
| sent:
    "ts_sending s = xs @ (i, e) # ys \<Longrightarrow> length (exp_result (ts_heap s ! i)) < result_capacity \<Longrightarrow>
     tracker_step s (s\<lparr>ts_sending := xs @ ys, ts_heap := send_result i e (ts_heap s)\<rparr>)"
| failed: "i < length (ts_heap s) \<Longrightarrow> ts_waiter s i = Registered \<Longrightarrow> tracker_step s (kernel_failed i s)"
| waits: "i < length (ts_heap s) \<Longrightarrow> ts_waiter s i = Registered \<Longrightarrow> tracker_step s (set_waiter i Waiting s)"
| received:
    "i < length (ts_heap s) \<Longrightarrow> ts_waiter s i = Waiting \<or> ts_waiter s i = Receiving \<Longrightarrow> wait_receive i s = Some s' \<Longrightarrow>
     tracker_step s s'"
| interrupted:
    "i < length (ts_heap s) \<Longrightarrow> ts_waiter s i = Waiting \<Longrightarrow> tracker_step s (wait_interrupted i reason s)"

section \<open>Where an expectation is\<close>

text \<open>
  An expectation is pending, in the hands of a goroutine that sends its result, in its channel or delivered; a
  cancelled one was removed from the pending list by its own waiter. \<open>places\<close> counts where it is found.
\<close>

fun settled :: "waiter \<Rightarrow> nat" where
  "settled (Returned e) = 1"
| "settled Withdrawn = 1"
| "settled _ = 0"

definition places :: "tracker_system \<Rightarrow> nat \<Rightarrow> nat" where
  "places s i =
     count_list (pending_at (ts_tracker s) (exp_key (ts_heap s ! i))) i + count_list (map fst (ts_sending s)) i +
     length (exp_result (ts_heap s ! i)) + settled (ts_waiter s i)"

definition pending_keyed :: "expectation list \<Rightarrow> tracker \<Rightarrow> bool" where
  "pending_keyed heap t \<longleftrightarrow> (\<forall>k. \<forall>i \<in> set (pending_at t k). i < length heap \<and> exp_key (heap ! i) = k)"

definition tracker_invariant :: "tracker_system \<Rightarrow> bool" where
  "tracker_invariant s \<longleftrightarrow>
     pending_keyed (ts_heap s) (ts_tracker s) \<and> (\<forall>p \<in> set (ts_sending s). fst p < length (ts_heap s)) \<and>
     (\<forall>i < length (ts_heap s). places s i = 1) \<and>
     (\<forall>i < length (ts_heap s). ts_waiter s i = Receiving \<longrightarrow> i \<notin> set (pending_at (ts_tracker s) (exp_key (ts_heap s ! i)))) \<and>
     (\<not> rmt_active (ts_tracker s) \<longrightarrow> rmt_pending (ts_tracker s) = [])"

lemma pending_at_update [simp]:
  "pending_at (t\<lparr>rmt_pending := AList.update k l (rmt_pending t)\<rparr>) = (pending_at t)(k := l)"
  by (auto simp: pending_at_def AList.update_conv')

lemma pending_at_delete [simp]:
  "pending_at (t\<lparr>rmt_pending := AList.delete k (rmt_pending t)\<rparr>) = (pending_at t)(k := [])"
  by (auto simp: pending_at_def AList.delete_conv')

lemma pending_at_empty [simp]: "pending_at \<lparr>rmt_active = b, rmt_pending = []\<rparr> k = []"
  by (simp add: pending_at_def)

lemma pending_at_keys: "i \<in> set (pending_at t k) \<Longrightarrow> k \<in> fst ` set (rmt_pending t)"
  by (cases "map_of (rmt_pending t) k") (auto simp: pending_at_def rev_image_eqI dest: map_of_SomeD)

lemma fold_delete_all: "fst ` set l \<subseteq> set order \<Longrightarrow> fold AList.delete order l = []"
proof (induction order arbitrary: l)
  case (Cons k ks)
  have "fst ` set (AList.delete k l) \<subseteq> set ks"
    using Cons.prems by (auto simp: AList.delete_eq)
  with Cons.IH show ?case by simp
qed simp

lemma count_list_remove1: "count_list (remove1 x xs) y = count_list xs y - (if x = y then 1 else 0)"
  by (induction xs) auto

lemma count_list_pos: "x \<in> set xs \<Longrightarrow> 0 < count_list xs x"
  by (metis count_list_0_iff gr0I)

text \<open>Taking a pending expectation out of its list, as \<^verbatim>\<open>acknowledge\<close> and \<^verbatim>\<open>cancel\<close> do.\<close>

definition taken :: "nat \<Rightarrow> tracker \<Rightarrow> tracker \<Rightarrow> bool" where
  "taken i t t' \<longleftrightarrow> (\<exists>k. i \<in> set (pending_at t k) \<and> pending_at t' = (pending_at t)(k := remove1 i (pending_at t k)) \<and>
     rmt_active t' = rmt_active t \<and> (rmt_pending t = [] \<longrightarrow> rmt_pending t' = []))"

lemma acknowledge_taken:
  assumes "acknowledge update t = (Some i, t')"
  shows "taken i t t'"
proof -
  from assms obtain key where key: "routeMutationIdentity (nup_Type update) (Some (nup_Route update)) = Inr key"
    by (auto simp: acknowledge_def split: sum.splits)
  from assms key obtain rest where rest: "pending_at t key = i # rest"
    by (auto simp: acknowledge_def split: list.splits)
  then have "rmt_pending t \<noteq> []" by (auto simp: pending_at_def)
  with assms key rest show ?thesis
    unfolding taken_def by (intro exI [of _ key]) (auto simp: acknowledge_def split: list.splits)
qed

lemma cancel_taken:
  assumes "cancel (Some i) heap t = (True, t')"
  shows "taken i t t'"
proof -
  define key where "key = exp_key (heap ! i)"
  from assms have i: "i \<in> set (pending_at t key)"
    by (auto simp: cancel_def key_def Let_def split: if_splits)
  then have "rmt_pending t \<noteq> []" by (auto simp: pending_at_def)
  with assms i show ?thesis
    unfolding taken_def by (intro exI [of _ key]) (auto simp: cancel_def key_def [symmetric] Let_def split: if_splits)
qed

lemma cancel_missed: "cancel (Some i) heap t = (False, t') \<Longrightarrow> t' = t \<and> i \<notin> set (pending_at t (exp_key (heap ! i)))"
  by (auto simp: cancel_def Let_def split: if_splits)

lemma taken_counts:
  assumes "pending_keyed heap t" "taken i t t'"
  shows "pending_keyed heap t'" "i < length heap"
    "j < length heap \<Longrightarrow> count_list (pending_at t (exp_key (heap ! j))) j =
       count_list (pending_at t' (exp_key (heap ! j))) j + (if i = j then 1 else 0)"
    "j \<notin> set (pending_at t (exp_key (heap ! j))) \<Longrightarrow> j \<notin> set (pending_at t' (exp_key (heap ! j)))"
proof -
  from assms(2) obtain k where k: "i \<in> set (pending_at t k)" "pending_at t' = (pending_at t)(k := remove1 i (pending_at t k))"
    by (auto simp: taken_def)
  have i: "i < length heap" "exp_key (heap ! i) = k"
    using assms(1) k(1) by (auto simp: pending_keyed_def)
  show "i < length heap" by (rule i)
  show "pending_keyed heap t'"
    using assms(1) k(2) subsetD [OF set_remove1_subset, of _ i "pending_at t k"] by (auto simp: pending_keyed_def)
  show "count_list (pending_at t (exp_key (heap ! j))) j =
      count_list (pending_at t' (exp_key (heap ! j))) j + (if i = j then 1 else 0)" if "j < length heap"
    using k i count_list_pos [OF k(1)] by (auto simp: count_list_remove1)
  show "j \<notin> set (pending_at t' (exp_key (heap ! j)))" if "j \<notin> set (pending_at t (exp_key (heap ! j)))"
    using that k notin_set_remove1 [of j "pending_at t k" i] by auto
qed

text \<open>
  A route update is never lost: it either settles the expectation it stands for or is forwarded, with the table, the
  metric and the canonical destination of the route when it has an identity.
\<close>

lemma forwardRouteEvent_cases:
  assumes "forwardRouteEvent update t = (event, settles, t')"
  shows "(event = Some (networkEventFromRouteUpdate update) \<and> settles = None \<and> t' = t) \<or>
    (\<exists>i. event = None \<and> settles = Some i \<and> taken i t t')"
proof (cases "acknowledge update t")
  case (Pair found t1)
  show ?thesis
  proof (cases found)
    case None
    with Pair have "t1 = t" by (auto simp: acknowledge_def split: sum.splits list.splits)
    with None Pair assms show ?thesis by (simp add: forwardRouteEvent_def)
  next
    case (Some i)
    with Pair assms acknowledge_taken [of update t i t1] show ?thesis by (auto simp: forwardRouteEvent_def)
  qed
qed

lemma networkEventFromRouteUpdate_identity:
  assumes "routeMutationIdentity (nup_Type update) (Some (nup_Route update)) = Inr key"
  shows "ne_Prefix (networkEventFromRouteUpdate update) = rmk_prefix key \<and> ne_Table (networkEventFromRouteUpdate update) = rmk_table key \<and>
    ne_Metric (networkEventFromRouteUpdate update) = rmk_metric key"
proof -
  have types: "nup_Type update = RTM_NEWROUTE \<or> nup_Type update = RTM_DELROUTE"
    using assms by (auto simp: routeMutationIdentity_def split: if_splits)
  obtain family valid where family: "domainFamily (nl_Family (nup_Route update)) = (family, valid)" by fastforce
  with assms types obtain p where p: "canonicalRoutePrefix family (nl_Dst (nup_Route update)) = Inr p" and valid: "valid"
    and key: "rmk_prefix key = p" "rmk_table key = nl_Table (nup_Route update)" "rmk_metric key = nl_Priority (nup_Route update)"
    by (auto simp: routeMutationIdentity_def split: if_splits sum.splits)
  from p have "p = (case nl_Dst (nup_Route update) of None \<Rightarrow> DefaultPrefix family | Some n \<Rightarrow>
      if prefix_IsValid (prefixFromIPNet n) then prefixFromIPNet n else DefaultPrefix family)"
    by (auto simp: canonicalRoutePrefix_def Let_def split: option.splits if_splits)
  with family valid key show ?thesis
    by (simp add: networkEventFromRouteUpdate_def Let_def)
qed

section \<open>Every step keeps the expectations settled\<close>

lemma invariantD:
  assumes "tracker_invariant s"
  shows "pending_keyed (ts_heap s) (ts_tracker s)" "p \<in> set (ts_sending s) \<Longrightarrow> fst p < length (ts_heap s)"
    "i < length (ts_heap s) \<Longrightarrow> places s i = 1"
    "i < length (ts_heap s) \<Longrightarrow> ts_waiter s i = Receiving \<Longrightarrow> i \<notin> set (pending_at (ts_tracker s) (exp_key (ts_heap s ! i)))"
    "\<not> rmt_active (ts_tracker s) \<Longrightarrow> rmt_pending (ts_tracker s) = []"
  using assms by (simp_all add: tracker_invariant_def)

lemma activated_invariant:
  assumes "tracker_invariant s"
  shows "tracker_invariant (s\<lparr>ts_tracker := snd (activate (ts_tracker s))\<rparr>)"
proof (cases "rmt_active (ts_tracker s)")
  case False
  then have "rmt_pending (ts_tracker s) = []" by (rule invariantD(5) [OF assms])
  then have "pending_at (snd (activate (ts_tracker s))) = pending_at (ts_tracker s)" "rmt_pending (snd (activate (ts_tracker s))) = []"
    using False by (auto simp: activate_def pending_at_def)
  with assms show ?thesis by (simp add: tracker_invariant_def places_def pending_keyed_def)
qed (use assms in \<open>simp add: activate_def\<close>)

lemma count_concat_pending:
  assumes "pending_keyed heap t" "i < length heap" "distinct order"
  shows "count_list (concat (map (pending_at t) order)) i =
     (if exp_key (heap ! i) \<in> set order then count_list (pending_at t (exp_key (heap ! i))) i else 0)"
  using assms(3)
proof (induction order)
  case (Cons k ks)
  have "count_list (pending_at t k) i = 0" if "k \<noteq> exp_key (heap ! i)"
    using assms(1) that by (auto simp: pending_keyed_def count_list_0_iff)
  with Cons show ?case by auto
qed simp

lemma deactivated_invariant:
  assumes inv: "tracker_invariant s" and order: "distinct order" "set order = fst ` set (rmt_pending (ts_tracker s))"
    and run: "deactivate order (ts_tracker s) = (pending, t)"
  shows "tracker_invariant (s\<lparr>ts_tracker := t, ts_sending := ts_sending s @ map (\<lambda>i. (i, Some reason)) pending\<rparr>)"
proof (cases "\<not> rmt_active (ts_tracker s) \<and> length (rmt_pending (ts_tracker s)) = 0")
  case False
  have keyed: "pending_keyed (ts_heap s) (ts_tracker s)" by (rule invariantD(1) [OF inv])
  have t: "t = \<lparr>rmt_active = False, rmt_pending = []\<rparr>" and pending: "pending = concat (map (pending_at (ts_tracker s)) order)"
    using False run order(2) by (auto simp: deactivate_def fold_delete_all)
  have moved: "count_list pending i = count_list (pending_at (ts_tracker s) (exp_key (ts_heap s ! i))) i" if "i < length (ts_heap s)" for i
    using count_concat_pending [OF keyed that order(1)] pending_at_keys [of i "ts_tracker s"] order(2)
    by (auto simp: pending count_list_0_iff)
  have "i < length (ts_heap s)" if "i \<in> set pending" for i
    using that keyed by (auto simp: pending pending_keyed_def)
  with inv moved show ?thesis
    by (auto simp: tracker_invariant_def places_def pending_keyed_def t comp_def)
qed (use inv run in \<open>auto simp: deactivate_def\<close>)

lemma expected_invariant:
  assumes inv: "tracker_invariant s"
    and run: "expect messageType route (ts_heap s) (ts_tracker s) = (Inr (Some i), heap, t)"
  shows "tracker_invariant (set_waiter i Registered (s\<lparr>ts_tracker := t, ts_heap := heap\<rparr>))"
proof -
  have keyed: "pending_keyed (ts_heap s) (ts_tracker s)" by (rule invariantD(1) [OF inv])
  from run obtain key where "routeMutationIdentity messageType route = Inr key" and active: "rmt_active (ts_tracker s)"
    by (auto simp: expect_def split: sum.splits if_splits)
  with run have i: "i = length (ts_heap s)" and heap: "heap = ts_heap s @ [\<lparr>exp_key = key, exp_result = []\<rparr>]"
    and t: "t = (ts_tracker s)\<lparr>rmt_pending := AList.update key (pending_at (ts_tracker s) key @ [i]) (rmt_pending (ts_tracker s))\<rparr>"
    by (auto simp: expect_def)
  have fresh: "i \<notin> set (pending_at (ts_tracker s) k)" for k
    using keyed by (auto simp: i pending_keyed_def)
  have unsent: "i \<notin> set (map fst (ts_sending s))"
    using invariantD(2) [OF inv] by (fastforce simp: i)
  have "places (set_waiter i Registered (s\<lparr>ts_tracker := t, ts_heap := heap\<rparr>)) j = 1" if "j < length heap" for j
    using that invariantD(3) [OF inv, of j] fresh unsent
    by (cases "j = i") (auto simp: places_def set_waiter_def heap t i nth_append count_list_0_iff)
  moreover have "pending_keyed heap t"
    using keyed by (fastforce simp: pending_keyed_def heap t i nth_append)
  ultimately show ?thesis
    using inv active by (auto simp: tracker_invariant_def set_waiter_def heap t i nth_append)
qed

lemma acknowledged_invariant:
  assumes inv: "tracker_invariant s" and taken: "taken i (ts_tracker s) t"
  shows "tracker_invariant (s\<lparr>ts_tracker := t, ts_sending := ts_sending s @ [(i, e)]\<rparr>)"
proof -
  note counts = taken_counts [OF invariantD(1) [OF inv] taken]
  have "places (s\<lparr>ts_tracker := t, ts_sending := ts_sending s @ [(i, e)]\<rparr>) j = 1" if "j < length (ts_heap s)" for j
    using invariantD(3) [OF inv that] counts(3) [OF that] by (simp add: places_def split: if_splits)
  with inv counts taken show ?thesis by (auto simp: tracker_invariant_def taken_def)
qed

lemma withdrawn_invariant:
  assumes inv: "tracker_invariant s" and taken: "taken i (ts_tracker s) t"
    and waiter: "settled (ts_waiter s i) = 0" "settled w = 1"
  shows "tracker_invariant (set_waiter i w (s\<lparr>ts_tracker := t\<rparr>))"
proof -
  note counts = taken_counts [OF invariantD(1) [OF inv] taken]
  have "places (set_waiter i w (s\<lparr>ts_tracker := t\<rparr>)) j = 1" if "j < length (ts_heap s)" for j
    using invariantD(3) [OF inv that] counts(3) [OF that] waiter by (auto simp: places_def set_waiter_def split: if_splits)
  moreover have "w \<noteq> Receiving" using waiter(2) by auto
  ultimately show ?thesis
    using inv counts taken by (auto simp: tracker_invariant_def taken_def set_waiter_def)
qed

lemma missed_invariant:
  assumes inv: "tracker_invariant s" and missed: "i \<notin> set (pending_at (ts_tracker s) (exp_key (ts_heap s ! i)))"
    and waiter: "settled (ts_waiter s i) = settled w"
  shows "tracker_invariant (set_waiter i w s)"
  using assms by (auto simp: tracker_invariant_def places_def set_waiter_def pending_keyed_def)

lemma sent_invariant:
  assumes inv: "tracker_invariant s" and sending: "ts_sending s = xs @ (i, e) # ys"
  shows "tracker_invariant (s\<lparr>ts_sending := xs @ ys, ts_heap := send_result i e (ts_heap s)\<rparr>)"
proof -
  have i: "i < length (ts_heap s)" using invariantD(2) [OF inv, of "(i, e)"] sending by simp
  have key: "exp_key (send_result i e (ts_heap s) ! j) = exp_key (ts_heap s ! j)" for j
    by (cases "j = i") (use i in \<open>auto simp: send_result_def\<close>)
  have len: "length (send_result i e (ts_heap s)) = length (ts_heap s)" by (simp add: send_result_def)
  have "places (s\<lparr>ts_sending := xs @ ys, ts_heap := send_result i e (ts_heap s)\<rparr>) j = places s j" if "j < length (ts_heap s)" for j
    by (cases "j = i") (use i in \<open>auto simp: places_def key sending send_result_def\<close>)
  with inv show ?thesis
    by (auto simp: tracker_invariant_def pending_keyed_def key len sending)
qed

lemma received_invariant:
  assumes inv: "tracker_invariant s" and i: "i < length (ts_heap s)" and waiter: "settled (ts_waiter s i) = 0"
    and run: "wait_receive i s = Some s'"
  shows "tracker_invariant s'"
proof -
  from run obtain e rest where result: "exp_result (ts_heap s ! i) = e # rest"
    by (auto simp: wait_receive_def split: list.splits)
  define heap where "heap = (ts_heap s)[i := (ts_heap s ! i)\<lparr>exp_result := rest\<rparr>]"
  have s': "s' = set_waiter i (Returned e) (s\<lparr>ts_heap := heap\<rparr>)"
    using run result by (simp add: wait_receive_def heap_def)
  have key: "exp_key (heap ! j) = exp_key (ts_heap s ! j)" for j
    by (cases "j = i") (use i in \<open>auto simp: heap_def\<close>)
  have len: "length heap = length (ts_heap s)" by (simp add: heap_def)
  have "places s' j = places s j" if "j < length (ts_heap s)" for j
    by (cases "j = i") (use i result waiter in \<open>auto simp: places_def s' set_waiter_def key heap_def\<close>)
  with inv show ?thesis
    by (auto simp: tracker_invariant_def pending_keyed_def key len s' set_waiter_def)
qed

lemma cancelled_invariant:
  assumes inv: "tracker_invariant s" and waiter: "settled (ts_waiter s i) = 0" "settled w = 1" "settled w' = 0"
  shows "tracker_invariant (case cancel (Some i) (ts_heap s) (ts_tracker s) of (cancelled, t) \<Rightarrow>
     set_waiter i (if cancelled then w else w') (s\<lparr>ts_tracker := t\<rparr>))"
proof -
  obtain cancelled t where run: "cancel (Some i) (ts_heap s) (ts_tracker s) = (cancelled, t)" by fastforce
  show ?thesis
  proof (cases cancelled)
    case True
    with run withdrawn_invariant [OF inv cancel_taken waiter(1,2)] show ?thesis by simp
  next
    case False
    with run cancel_missed [of i "ts_heap s" "ts_tracker s" t] have "t = ts_tracker s" "i \<notin> set (pending_at (ts_tracker s) (exp_key (ts_heap s ! i)))"
      by simp_all
    with False run missed_invariant [OF inv, of i w'] waiter show ?thesis by simp
  qed
qed

lemma tracker_step_invariant: "tracker_step s s' \<Longrightarrow> tracker_invariant s \<Longrightarrow> tracker_invariant s'"
proof (induction rule: tracker_step.induct)
  case (acknowledged update s i t)
  then show ?case using acknowledged_invariant acknowledge_taken by blast
next
  case (failed i s)
  then show ?case unfolding kernel_failed_def by (intro cancelled_invariant) simp_all
next
  case (interrupted i s reason)
  then show ?case unfolding wait_interrupted_def by (intro cancelled_invariant) simp_all
next
  case (waits i s)
  then show ?case by (auto simp: tracker_invariant_def places_def set_waiter_def)
next
  case (received i s s')
  then show ?case using received_invariant [of s i s'] by auto
qed (auto intro: activated_invariant deactivated_invariant expected_invariant sent_invariant)

abbreviation tracker_steps :: "tracker_system \<Rightarrow> tracker_system \<Rightarrow> bool" where
  "tracker_steps \<equiv> tracker_step\<^sup>*\<^sup>*"

lemma reachable_invariant: "tracker_steps tracker_start s \<Longrightarrow> tracker_invariant s"
proof (induction rule: rtranclp_induct)
  case base
  show ?case by (simp add: tracker_invariant_def tracker_start_def pending_keyed_def)
qed (rule tracker_step_invariant)

section \<open>Results are sent once, never block and always arrive\<close>

text \<open>
  C16: In every interleaving each expectation is in exactly one place: pending, in the hands of the one goroutine that
  sends its result, in its result channel, or settled by its waiter. A goroutine that is about to send a result
  therefore never blocks, and \<^verbatim>\<open>activate\<close> never finds stale expectations of a closed subscription.
\<close>

theorem expectation_settled_once:
  assumes "tracker_steps tracker_start s" "i < length (ts_heap s)"
  shows "places s i = 1 \<and> ((i, e) \<in> set (ts_sending s) \<longrightarrow> length (exp_result (ts_heap s ! i)) < result_capacity) \<and>
     fst (activate (ts_tracker s)) \<noteq> Some StaleExpectations"
proof -
  note inv = reachable_invariant [OF assms(1)]
  have one: "places s i = 1" by (rule invariantD(3) [OF inv assms(2)])
  have "length (exp_result (ts_heap s ! i)) = 0" if "(i, e) \<in> set (ts_sending s)"
  proof -
    have "i \<in> set (map fst (ts_sending s))" using that by force
    from count_list_pos [OF this] one show ?thesis unfolding places_def by arith
  qed
  moreover have "fst (activate (ts_tracker s)) \<noteq> Some StaleExpectations"
    using invariantD(5) [OF inv] by (auto simp: activate_def)
  ultimately show ?thesis using one by (simp add: result_capacity_def)
qed

lemma receive_step:
  assumes "i < length (ts_heap s)" "ts_waiter s i = Receiving" "exp_result (ts_heap s ! i) \<noteq> []"
  shows "\<exists>s' e. tracker_step s s' \<and> ts_waiter s' i = Returned e"
proof -
  from assms(3) obtain s' where "wait_receive i s = Some s'"
    by (cases "exp_result (ts_heap s ! i)") (simp_all add: wait_receive_def)
  moreover from this have "\<exists>e. ts_waiter s' i = Returned e"
    by (auto simp: wait_receive_def set_waiter_def split: list.splits)
  ultimately show ?thesis using tracker_step.received assms(1,2) by blast
qed

text \<open>
  C17: A waiter whose cancellation came too late receives unconditionally. It is not stuck: its result is already in
  the channel, or a goroutine that has left the critical section holds it and can send it.
\<close>

theorem late_waiter_returns:
  assumes "tracker_steps tracker_start s" "i < length (ts_heap s)" "ts_waiter s i = Receiving"
  shows "\<exists>s' e. tracker_steps s s' \<and> ts_waiter s' i = Returned e"
proof (cases "exp_result (ts_heap s ! i) = []")
  case False
  from receive_step [OF assms(2,3) this] show ?thesis by blast
next
  case True
  note inv = reachable_invariant [OF assms(1)]
  have "count_list (map fst (ts_sending s)) i \<noteq> 0"
    using invariantD(3,4) [OF inv assms(2)] assms(3) True by (simp add: places_def count_list_0_iff)
  then obtain e where "(i, e) \<in> set (ts_sending s)" by (auto simp: count_list_0_iff)
  then obtain xs ys where sending: "ts_sending s = xs @ (i, e) # ys" by (meson split_list)
  define s' where "s' = s\<lparr>ts_sending := xs @ ys, ts_heap := send_result i e (ts_heap s)\<rparr>"
  have "tracker_step s s'"
    unfolding s'_def by (rule tracker_step.sent [OF sending]) (simp add: True result_capacity_def)
  moreover have "\<exists>s'' e. tracker_step s' s'' \<and> ts_waiter s'' i = Returned e"
    using assms(2,3) by (intro receive_step) (simp_all add: s'_def send_result_def)
  ultimately show ?thesis by (meson converse_rtranclp_into_rtranclp r_into_rtranclp)
qed

text \<open>
  A route is written while a subscription is open, the subscription closes, and the waiter's context ends before
  the reason is sent.
\<close>

definition sample_mutation :: nl_route where
  "sample_mutation = nl_route_zero\<lparr>nl_Family := FAMILY_V4, nl_Table := 100, nl_Protocol := agentRouteProtocol, nl_Priority := 10\<rparr>"

definition sample_mutation_key :: mutation_key where
  "sample_mutation_key =
     \<lparr>rmk_messageType = RTM_NEWROUTE, rmk_family = FAMILY_V4, rmk_table = 100, rmk_protocol = agentRouteProtocol, rmk_routeType = 0,
      rmk_prefix = DefaultPrefix IPv4, rmk_metric = 10\<rparr>"

definition sample_closing :: tracker_system where
  "sample_closing =
     \<lparr>ts_tracker = \<lparr>rmt_active = False, rmt_pending = []\<rparr>, ts_heap = [\<lparr>exp_key = sample_mutation_key, exp_result = []\<rparr>],
      ts_sending = [(0, Some SubscriptionClosed)], ts_waiter = (\<lambda>_. Registered)(0 := Waiting)\<rparr>"

lemma sample_identity: "routeMutationIdentity RTM_NEWROUTE (Some sample_mutation) = Inr sample_mutation_key"
  by code_simp

lemma sample_closing_reachable: "tracker_steps tracker_start sample_closing"
proof -
  let ?open = "\<lparr>rmt_active = True, rmt_pending = []\<rparr>"
  let ?held = "\<lparr>rmt_active = True, rmt_pending = [(sample_mutation_key, [0])]\<rparr>"
  let ?heap = "[\<lparr>exp_key = sample_mutation_key, exp_result = []\<rparr>]"
  define s1 where "s1 = tracker_start\<lparr>ts_tracker := ?open\<rparr>"
  define s2 where "s2 = set_waiter 0 Registered (s1\<lparr>ts_tracker := ?held, ts_heap := ?heap\<rparr>)"
  define s3 where "s3 = set_waiter 0 Waiting s2"
  have "tracker_step tracker_start s1"
    using tracker_step.activated [of tracker_start] by (simp add: s1_def tracker_start_def activate_def)
  moreover have "tracker_step s1 s2"
    unfolding s2_def
    by (rule tracker_step.expected [of RTM_NEWROUTE "Some sample_mutation"])
      (simp add: s1_def tracker_start_def expect_def sample_identity pending_at_def)
  moreover have "tracker_step s2 s3"
    unfolding s3_def by (rule tracker_step.waits) (simp_all add: s2_def set_waiter_def)
  moreover have "tracker_step s3 sample_closing"
    using tracker_step.deactivated [of "[sample_mutation_key]" s3 "[0]" "\<lparr>rmt_active = False, rmt_pending = []\<rparr>" None]
    by (simp add: s3_def s2_def s1_def set_waiter_def tracker_start_def deactivate_def pending_at_def sample_closing_def
        deactivate_reason_def)
  ultimately show ?thesis by (meson converse_rtranclp_into_rtranclp rtranclp.rtrancl_refl)
qed

theorem expectation_settled_once_witness:
  "tracker_steps tracker_start sample_closing \<and> (0, Some SubscriptionClosed) \<in> set (ts_sending sample_closing) \<and>
   places sample_closing 0 = 1 \<and> length (exp_result (ts_heap sample_closing ! 0)) < result_capacity"
  using expectation_settled_once [OF sample_closing_reachable, of 0 "Some SubscriptionClosed"] sample_closing_reachable
  by (simp add: sample_closing_def)

definition sample_late :: tracker_system where
  "sample_late = wait_interrupted 0 NotificationTimeout sample_closing"

theorem late_waiter_returns_witness:
  "tracker_steps tracker_start sample_late \<and> ts_waiter sample_late 0 = Receiving \<and>
   (\<exists>s' e. tracker_steps sample_late s' \<and> ts_waiter s' 0 = Returned e)"
proof -
  have "tracker_step sample_closing sample_late"
    unfolding sample_late_def by (rule tracker_step.interrupted) (simp_all add: sample_closing_def)
  with sample_closing_reachable have reach: "tracker_steps tracker_start sample_late" by (rule rtranclp.rtrancl_into_rtrancl)
  moreover have waiter: "ts_waiter sample_late 0 = Receiving" "0 < length (ts_heap sample_late)"
    by (simp_all add: sample_late_def wait_interrupted_def sample_closing_def cancel_def pending_at_def set_waiter_def)
  ultimately show ?thesis using late_waiter_returns [OF reach waiter(2,1)] by blast
qed

end
