(* ===== verification/Histories.thy ===== *)
theory Histories
  imports Effects
begin

text \<open>
  Computations that talk to the outside. The state is the list of calls made so far, the latest first; a call is recorded with its
  answer, and the answer comes from a function of all calls before it, so that nothing is assumed about what answers.
\<close>

definition outside :: "('c list \<Rightarrow> 'r) \<Rightarrow> ('r \<Rightarrow> 'c) \<Rightarrow> ('c list, 'r) state" where
  "outside response event = State (\<lambda>h. (response h, event (response h) # h))"

lemma wp_outside [wp_rules, simp]: "wp (outside response event) Q h \<longleftrightarrow> Q (response h) (event (response h) # h)"
  by (simp add: outside_def)

section \<open>Histories that grow\<close>

text \<open>The calls of a part of a run satisfy a condition, which in \<open>extends\<close> may depend on the calls before each of them.\<close>

definition grows :: "('c \<Rightarrow> bool) \<Rightarrow> 'c list \<Rightarrow> 'c list \<Rightarrow> bool" where
  "grows P h h' \<longleftrightarrow> (\<exists>calls. h' = calls @ h \<and> list_all P calls)"

lemma grows_refl [simp]: "grows P h h"
  by (simp add: grows_def)

lemma grows_step: "grows P h h' \<Longrightarrow> P c \<Longrightarrow> grows P h (c # h')"
  by (auto simp: grows_def)

definition extends :: "('c list \<Rightarrow> 'c \<Rightarrow> bool) \<Rightarrow> 'c list \<Rightarrow> 'c list \<Rightarrow> bool" where
  "extends P h h' \<longleftrightarrow> (\<exists>calls. h' = calls @ h \<and> (\<forall>later c earlier. calls = later @ c # earlier \<longrightarrow> P (earlier @ h) c))"

lemma extends_refl [simp, intro]: "extends P h h"
  by (simp add: extends_def)

lemma extends_step:
  assumes "extends P h h'" "P h' c"
  shows "extends P h (c # h')"
proof -
  from assms(1) obtain calls where calls: "h' = calls @ h" "\<And>later c earlier. calls = later @ c # earlier \<Longrightarrow> P (earlier @ h) c"
    by (auto simp: extends_def)
  have "P (earlier @ h) d" if "c # calls = later @ d # earlier" for later d earlier
    using that assms(2) calls by (cases later) auto
  with calls(1) show ?thesis by (auto simp: extends_def intro!: exI [of _ "c # calls"])
qed

text \<open>The same condition on a whole history, in a form that evaluates.\<close>

fun calls_ok :: "('c list \<Rightarrow> 'c \<Rightarrow> bool) \<Rightarrow> 'c list \<Rightarrow> bool" where
  "calls_ok P [] \<longleftrightarrow> True"
| "calls_ok P (c # h) \<longleftrightarrow> P h c \<and> calls_ok P h"

end
