(* ===== verification/Netlink_Adapter.thy ===== *)
theory Netlink_Adapter
  imports Netlink_Tracker Histories
begin

text \<open>
  The reads and writes of \<^verbatim>\<open>internal/adapter/netlink/netlink_linux.go\<close>: \<^verbatim>\<open>ReadRouting\<close>, \<^verbatim>\<open>ApplyRouting\<close> and what they call.
  Every call to the kernel, to the context and to the mutation tracker is an event with its arguments and its answer;
  the answers come from functions of the whole history of calls, so that nothing is assumed about the kernel or about
  other processes that change routes and rules at the same time.
\<close>

section \<open>Calls\<close>

record nl_addr =
  nad_Flags :: "64 word"
  nad_IPNet :: "ipnet option"

datatype kernel_call =
    LinkList "(port_error, nl_link list) result"
  | LinkByIndex int "(port_error, nl_link) result"
  | AddrList nl_link "(port_error, nl_addr list) result"
  | RouteGet bytes "(port_error, nl_route list) result"
  | RouteList int int "(port_error, nl_route list) result"
  | RouteReplace nl_route "port_error option"
  | RouteDel nl_route "port_error option"
  | RuleList int "(port_error, nl_rule list) result"
  | RuleAdd nl_rule "port_error option"
  | RuleDel nl_rule "port_error option"
  | Expect "16 word" nl_route "nat option"
  | Cancel "nat option" bool
  | Wait nat "tracker_error option"
  | Context "port_error option"

type_synonym kernel_history = "kernel_call list"

record kernel_env =
  ke_LinkList :: "kernel_history \<Rightarrow> (port_error, nl_link list) result"
  ke_LinkByIndex :: "kernel_history \<Rightarrow> int \<Rightarrow> (port_error, nl_link) result"
  ke_AddrList :: "kernel_history \<Rightarrow> nl_link \<Rightarrow> (port_error, nl_addr list) result"
  ke_RouteGet :: "kernel_history \<Rightarrow> bytes \<Rightarrow> (port_error, nl_route list) result"
  ke_RouteList :: "kernel_history \<Rightarrow> int \<Rightarrow> int \<Rightarrow> (port_error, nl_route list) result"
  ke_RouteReplace :: "kernel_history \<Rightarrow> nl_route \<Rightarrow> port_error option"
  ke_RouteDel :: "kernel_history \<Rightarrow> nl_route \<Rightarrow> port_error option"
  ke_RuleList :: "kernel_history \<Rightarrow> int \<Rightarrow> (port_error, nl_rule list) result"
  ke_RuleAdd :: "kernel_history \<Rightarrow> nl_rule \<Rightarrow> port_error option"
  ke_RuleDel :: "kernel_history \<Rightarrow> nl_rule \<Rightarrow> port_error option"
  ke_Expect :: "kernel_history \<Rightarrow> nat option"
  ke_Cancel :: "kernel_history \<Rightarrow> nat option \<Rightarrow> bool"
  ke_Wait :: "kernel_history \<Rightarrow> nat \<Rightarrow> tracker_error option"
  ke_Context :: "kernel_history \<Rightarrow> port_error option"
  ke_NewRule :: nl_rule

text \<open>The context of the caller, or \<^verbatim>\<open>context.WithoutCancel\<close> of it, whose \<^verbatim>\<open>Err\<close> is always nil.\<close>

datatype ctx = Cancellable | WithoutCancel

datatype adapter_error =
    ContextEnded port_error
  | ConvertFailed convert_error
  | RegisterFailed mutation_error
  | KernelRefused port_error
  | NotConfirmed tracker_error
  | ReplaceFailed route adapter_error
  | ListRulesFailed family port_error
  | ListRoutesFailed family int port_error
  | ForeignRule int
  | ForeignRoute int
  | DecodeFailed convert_error
  | AddRuleFailed rule port_error
  | DeleteRuleFailed family int port_error
  | DeleteRouteFailed route adapter_error

definition ctxErr :: "kernel_env \<Rightarrow> ctx \<Rightarrow> (kernel_history, adapter_error + unit) state" where
  "ctxErr env ctx =
     (case ctx of
        Cancellable \<Rightarrow> on_error ContextEnded (check (outside (ke_Context env) Context))
      | WithoutCancel \<Rightarrow> ok ())"

section \<open>Tracked route changes\<close>

definition expectMutation :: "kernel_env \<Rightarrow> 16 word \<Rightarrow> nl_route \<Rightarrow> (kernel_history, adapter_error + nat option) state" where
  "expectMutation env messageType route =
     (case routeMutationIdentity messageType (Some route) of
        Inl e \<Rightarrow> fail (RegisterFailed e)
      | Inr key \<Rightarrow> lift (outside (ke_Expect env) (Expect messageType route)))"

definition waitMutation :: "kernel_env \<Rightarrow> nat option \<Rightarrow> (kernel_history, adapter_error + unit) state" where
  "waitMutation env expectation =
     (case expectation of
        None \<Rightarrow> ok ()
      | Some i \<Rightarrow> on_error NotConfirmed (check (outside (\<lambda>h. ke_Wait env h i) (Wait i))))"

definition confirm ::
  "kernel_env \<Rightarrow> nat option \<Rightarrow> port_error option \<Rightarrow> (kernel_history, adapter_error + unit) state" where
  "confirm env expectation err =
     (case err of
        Some e \<Rightarrow> chain (lift (outside (\<lambda>h. ke_Cancel env h expectation) (Cancel expectation))) (\<lambda>_. fail (KernelRefused e))
      | None \<Rightarrow> waitMutation env expectation)"

definition replaceRoute :: "kernel_env \<Rightarrow> nl_route \<Rightarrow> (kernel_history, adapter_error + unit) state" where
  "replaceRoute env route =
     chain (expectMutation env RTM_NEWROUTE route) (\<lambda>expectation.
     chain (lift (outside (\<lambda>h. ke_RouteReplace env h route) (RouteReplace route))) (confirm env expectation))"

definition deleteNetlinkRoute :: "kernel_env \<Rightarrow> nl_route \<Rightarrow> (kernel_history, adapter_error + unit) state" where
  "deleteNetlinkRoute env route =
     chain (expectMutation env RTM_DELROUTE route) (\<lambda>expectation.
     chain (lift (outside (\<lambda>h. ke_RouteDel env h route) (RouteDel route))) (confirm env expectation))"

text \<open>
  The conversions with their call to \<^verbatim>\<open>LinkByIndex\<close>, which is made only when the code before it has not returned.
\<close>

definition writeRoute :: "kernel_env \<Rightarrow> route \<Rightarrow> (kernel_history, convert_error + nl_route) state" where
  "writeRoute env route =
     (if route_Validate route = None \<and> route_Disposition route = RouteUnicast then
        do { link \<leftarrow> outside (\<lambda>h. ke_LinkByIndex env h (link_Index (route_Link route))) (LinkByIndex (link_Index (route_Link route)));
             State_Monad.return (routeToNetlink (\<lambda>_. link) route) }
      else State_Monad.return (routeToNetlink (\<lambda>_. Inl []) route))"

definition decodeRoute :: "kernel_env \<Rightarrow> family \<Rightarrow> nl_route \<Rightarrow> (kernel_history, convert_error + route) state" where
  "decodeRoute env family route =
     (case canonicalRoutePrefix family (nl_Dst route) of
        Inl e \<Rightarrow> fail e
      | Inr p \<Rightarrow>
          if 0 < nl_LinkIndex route then
            do { link \<leftarrow> outside (\<lambda>h. ke_LinkByIndex env h (nl_LinkIndex route)) (LinkByIndex (nl_LinkIndex route));
                 State_Monad.return (routeFromNetlink (\<lambda>_. link) family route) }
          else State_Monad.return (routeFromNetlink (\<lambda>_. Inl []) family route))"

section \<open>Reading\<close>

fun readRoutes :: "kernel_env \<Rightarrow> family \<Rightarrow> int \<Rightarrow> nl_route list \<Rightarrow> route list \<Rightarrow> (kernel_history, adapter_error + route list) state" where
  "readRoutes env family table [] acc = ok acc"
| "readRoutes env family table (r # rs) acc =
     (if nl_Protocol r \<noteq> agentRouteProtocol then fail (ForeignRoute table)
      else chain (on_error DecodeFailed (decodeRoute env family r)) (\<lambda>observed. readRoutes env family table rs (acc @ [observed])))"

fun readTables :: "kernel_env \<Rightarrow> family \<Rightarrow> int list \<Rightarrow> route list \<Rightarrow> (kernel_history, adapter_error + route list) state" where
  "readTables env family [] acc = ok acc"
| "readTables env family (table # tables) acc =
     chain (ctxErr env Cancellable) (\<lambda>_.
     chain (on_error (ListRoutesFailed family table)
       (outside (\<lambda>h. ke_RouteList env h (linuxFamily family) table) (RouteList (linuxFamily family) table))) (\<lambda>routes.
     chain (readRoutes env family table routes acc) (readTables env family tables)))"

fun readRules :: "routing_ownership \<Rightarrow> family \<Rightarrow> nl_rule list \<Rightarrow> rule list \<Rightarrow> adapter_error + rule list" where
  "readRules ownership family [] acc = Inr acc"
| "readRules ownership family (r # rs) acc =
     (if nu_Priority r \<notin> set (own_RulePriorities ownership) then readRules ownership family rs acc
      else if nu_Protocol r \<noteq> word_of_int agentRouteProtocol then Inl (ForeignRule (nu_Priority r))
      else readRules ownership family rs (acc @ [ruleFromNetlink family r]))"

fun readFamilies ::
  "kernel_env \<Rightarrow> routing_ownership \<Rightarrow> family list \<Rightarrow> routing_state \<Rightarrow> (kernel_history, adapter_error + routing_state) state" where
  "readFamilies env ownership [] st = ok st"
| "readFamilies env ownership (family # families) st =
     chain (readTables env family (own_Tables ownership) (rs_Routes st)) (\<lambda>routes.
     chain (on_error (ListRulesFailed family)
       (outside (\<lambda>h. ke_RuleList env h (linuxFamily family)) (RuleList (linuxFamily family)))) (\<lambda>listed.
     chain (State_Monad.return (readRules ownership family listed (rs_Rules st))) (\<lambda>rules.
     readFamilies env ownership families \<lparr>rs_Routes = routes, rs_Rules = rules\<rparr>)))"

definition ReadRouting :: "kernel_env \<Rightarrow> routing_ownership \<Rightarrow> (kernel_history, adapter_error + routing_state) state" where
  "ReadRouting env ownership = readFamilies env ownership [IPv4, IPv6] \<lparr>rs_Routes = [], rs_Rules = []\<rparr>"

section \<open>Writing\<close>

text \<open>Computations of \<^verbatim>\<open>ApplyRouting\<close> that end early return the number of writes with the error.\<close>

fun upsertRoutes :: "kernel_env \<Rightarrow> int \<Rightarrow> route list \<Rightarrow> (kernel_history, (int \<times> adapter_error) + int) state" where
  "upsertRoutes env writes [] = ok writes"
| "upsertRoutes env writes (r # rs) =
     chain (on_error (Pair writes) (ctxErr env Cancellable)) (\<lambda>_.
     chain (on_error (\<lambda>e. (writes, ConvertFailed e)) (writeRoute env r)) (\<lambda>netlinkRoute.
     chain (on_error (\<lambda>e. (writes, ReplaceFailed r e)) (replaceRoute env netlinkRoute)) (\<lambda>_.
     upsertRoutes env (writes + 1) rs)))"

fun deleteRulesLoop ::
  "kernel_env \<Rightarrow> ctx \<Rightarrow> family \<Rightarrow> int \<Rightarrow> rule option \<Rightarrow> int \<Rightarrow> nl_rule list \<Rightarrow> (kernel_history, (int \<times> adapter_error) + int) state" where
  "deleteRulesLoop env ctx family priority keep deleted [] = ok deleted"
| "deleteRulesLoop env ctx family priority keep deleted (r # rs) =
     (if nu_Priority r \<noteq> priority then deleteRulesLoop env ctx family priority keep deleted rs
      else if nu_Protocol r \<noteq> word_of_int agentRouteProtocol then fail (deleted, ForeignRule priority)
      else if (case keep of None \<Rightarrow> False | Some k \<Rightarrow> managedRulesEqual (ruleFromNetlink family r) k)
        then deleteRulesLoop env ctx family priority None deleted rs
      else
        chain (on_error (Pair deleted) (ctxErr env ctx)) (\<lambda>_.
        chain (on_error (\<lambda>e. (deleted, DeleteRuleFailed family priority e))
          (check (outside (\<lambda>h. ke_RuleDel env h r) (RuleDel r)))) (\<lambda>_.
        deleteRulesLoop env ctx family priority keep (deleted + 1) rs)))"

definition deleteRulesAtPriorityExcept ::
  "kernel_env \<Rightarrow> ctx \<Rightarrow> family \<Rightarrow> int \<Rightarrow> rule option \<Rightarrow> (kernel_history, (int \<times> adapter_error) + int) state" where
  "deleteRulesAtPriorityExcept env ctx family priority keep =
     chain (on_error (\<lambda>e. (0, ListRulesFailed family e))
       (outside (\<lambda>h. ke_RuleList env h (linuxFamily family)) (RuleList (linuxFamily family))))
       (deleteRulesLoop env ctx family priority keep 0)"

definition plus_writes :: "int \<Rightarrow> ('s, (int \<times> 'e) + int) state \<Rightarrow> ('s, (int \<times> 'e) + int) state" where
  "plus_writes writes m = do { r \<leftarrow> m; State_Monad.return (map_sum (map_prod (\<lambda>d. writes + d) id) (\<lambda>d. writes + d) r) }"

fun addRules ::
  "kernel_env \<Rightarrow> int \<Rightarrow> (string \<rightharpoonup> rule) \<Rightarrow> rule list \<Rightarrow> (kernel_history, (int \<times> adapter_error) + int \<times> (string \<rightharpoonup> rule)) state" where
  "addRules env writes replacements [] = ok (writes, replacements)"
| "addRules env writes replacements (r # rs) =
     chain (on_error (Pair writes) (ctxErr env Cancellable)) (\<lambda>_.
     chain (on_error (\<lambda>e. (writes, AddRuleFailed r e))
       (check (outside (\<lambda>h. ke_RuleAdd env h (ruleToNetlink (ke_NewRule env) r)) (RuleAdd (ruleToNetlink (ke_NewRule env) r))))) (\<lambda>_.
     if replacements (managedRuleIdentity r) \<noteq> None then
       chain (plus_writes (writes + 1) (deleteRulesAtPriorityExcept env WithoutCancel (rule_Family r) (rule_Priority r) (Some r))) (\<lambda>writes'.
       addRules env writes' (replacements(managedRuleIdentity r := None)) rs)
     else addRules env (writes + 1) replacements rs))"

fun deleteRules ::
  "kernel_env \<Rightarrow> int \<Rightarrow> (string \<rightharpoonup> rule) \<Rightarrow> rule list \<Rightarrow> (kernel_history, (int \<times> adapter_error) + int) state" where
  "deleteRules env writes replacements [] = ok writes"
| "deleteRules env writes replacements (r # rs) =
     (if replacements (managedRuleIdentity r) = None then deleteRules env writes replacements rs
      else
        chain (plus_writes writes (deleteRulesAtPriorityExcept env Cancellable (rule_Family r) (rule_Priority r) None)) (\<lambda>writes'.
        deleteRules env writes' (replacements(managedRuleIdentity r := None)) rs))"

fun deleteRouteLoop :: "kernel_env \<Rightarrow> route \<Rightarrow> int \<Rightarrow> nl_route list \<Rightarrow> (kernel_history, (int \<times> adapter_error) + int) state" where
  "deleteRouteLoop env target deleted [] = ok deleted"
| "deleteRouteLoop env target deleted (r # rs) =
     (if nl_Protocol r \<noteq> agentRouteProtocol then fail (deleted, ForeignRoute (route_Table target))
      else chain (on_error (\<lambda>e. (deleted, DecodeFailed e)) (decodeRoute env (route_Family target) r)) (\<lambda>observed.
        if prefix_Masked (route_Prefix observed) \<noteq> prefix_Masked (route_Prefix target) \<or>
           route_Disposition observed \<noteq> route_Disposition target \<or> route_Metric observed \<noteq> route_Metric target
        then deleteRouteLoop env target deleted rs
        else
          chain (on_error (Pair deleted) (ctxErr env Cancellable)) (\<lambda>_.
          chain (on_error (\<lambda>e. (deleted, DeleteRouteFailed target e)) (deleteNetlinkRoute env r)) (\<lambda>_.
          deleteRouteLoop env target (deleted + 1) rs))))"

definition deleteRoute :: "kernel_env \<Rightarrow> route \<Rightarrow> (kernel_history, (int \<times> adapter_error) + int) state" where
  "deleteRoute env target =
     chain (on_error (\<lambda>e. (0, ListRoutesFailed (route_Family target) (route_Table target) e))
       (outside (\<lambda>h. ke_RouteList env h (linuxFamily (route_Family target)) (route_Table target))
         (RouteList (linuxFamily (route_Family target)) (route_Table target))))
       (deleteRouteLoop env target 0)"

fun deleteRoutes :: "kernel_env \<Rightarrow> int \<Rightarrow> route list \<Rightarrow> (kernel_history, (int \<times> adapter_error) + int) state" where
  "deleteRoutes env writes [] = ok writes"
| "deleteRoutes env writes (r # rs) = chain (plus_writes writes (deleteRoute env r)) (\<lambda>writes'. deleteRoutes env writes' rs)"

definition ruleReplacements :: "rule list \<Rightarrow> string \<rightharpoonup> rule" where
  "ruleReplacements rules = fold (\<lambda>r m. m(managedRuleIdentity r \<mapsto> r)) rules Map.empty"

definition ApplyRouting :: "kernel_env \<Rightarrow> routing_changes \<Rightarrow> (kernel_history, int \<times> adapter_error option) state" where
  "ApplyRouting env changes =
     do { r \<leftarrow> chain (upsertRoutes env 0 (ch_UpsertRoutes changes)) (\<lambda>writes.
                chain (addRules env writes (ruleReplacements (ch_DeleteRules changes)) (ch_AddRules changes)) (\<lambda>(writes, replacements).
                chain (deleteRules env writes replacements (ch_DeleteRules changes)) (\<lambda>writes.
                deleteRoutes env writes (ch_DeleteRoutes changes))));
          State_Monad.return (case r of Inl (writes, e) \<Rightarrow> (writes, Some e) | Inr writes \<Rightarrow> (writes, None)) }"

section \<open>Invariants of computations\<close>

text \<open>A computation keeps an invariant when each of its parts does.\<close>

lemma keep_chain:
  "wp m (\<lambda>_. I) h \<Longrightarrow> (\<And>a h. I h \<Longrightarrow> wp (f a) (\<lambda>_. I) h) \<Longrightarrow> wp (chain m f) (\<lambda>_. I) h"
  unfolding wp_chain by (erule wp_mono) (auto split: sum.split)

text \<open>As \<open>keep_chain\<close>, with a fact about the value that is passed on.\<close>

lemma keep_chain_result:
  "wp m (\<lambda>r h. I h \<and> (\<forall>a. r = Inr a \<longrightarrow> R a h)) h \<Longrightarrow> (\<And>a h. I h \<Longrightarrow> R a h \<Longrightarrow> wp (f a) (\<lambda>_. I) h) \<Longrightarrow>
   wp (chain m f) (\<lambda>_. I) h"
  unfolding wp_chain by (erule wp_mono) (auto split: sum.split)

lemma chain_post:
  "wp m (\<lambda>r h. case r of Inl x \<Rightarrow> Q (Inl x) h | Inr a \<Rightarrow> R a h) h \<Longrightarrow> (\<And>a h. R a h \<Longrightarrow> wp (f a) Q h) \<Longrightarrow> wp (chain m f) Q h"
  unfolding wp_chain by (erule wp_mono) (auto split: sum.splits)

lemma keep_on_error: "wp m (\<lambda>_. I) h \<Longrightarrow> wp (on_error g m) (\<lambda>_. I) h"
  by (auto simp: wp_def on_error_def fail_def ok_def split: prod.splits sum.splits)

lemma keep_on_error_result:
  "wp m (\<lambda>r h. I h \<and> (\<forall>a. r = Inr a \<longrightarrow> R a h)) h \<Longrightarrow> wp (on_error g m) (\<lambda>r h. I h \<and> (\<forall>a. r = Inr a \<longrightarrow> R a h)) h"
  by (auto simp: wp_def on_error_def fail_def ok_def split: prod.splits sum.splits)

lemma keep_plus_writes: "wp m (\<lambda>_. I) h \<Longrightarrow> wp (plus_writes writes m) (\<lambda>_. I) h"
  by (auto simp: wp_def plus_writes_def split: prod.splits)

lemma keep_check: "wp m (\<lambda>_. I) h \<Longrightarrow> wp (check m) (\<lambda>_. I) h"
  by (auto simp: wp_def check_def fail_def ok_def split: prod.splits option.splits)

section \<open>Policies for changes\<close>

text \<open>
  A policy says which changes may be made after which calls. The lemmas show once, for every policy that lets reads
  pass, what each operation asks of it.
\<close>

fun mutating :: "kernel_call \<Rightarrow> bool" where
  "mutating (RouteReplace n e) = True"
| "mutating (RouteDel n e) = True"
| "mutating (RuleAdd n e) = True"
| "mutating (RuleDel n e) = True"
| "mutating _ = False"

locale kernel_policy =
  fixes P :: "kernel_history \<Rightarrow> kernel_call \<Rightarrow> bool"
  assumes reads_pass: "\<not> mutating c \<Longrightarrow> P h c"
begin

definition grown :: "kernel_history \<Rightarrow> kernel_call set \<Rightarrow> kernel_history \<Rightarrow> bool" where
  "grown h0 E h \<longleftrightarrow> extends P h0 h \<and> E \<subseteq> set h"

lemma grown_step: "grown h0 E h \<Longrightarrow> P h c \<Longrightarrow> grown h0 E (c # h)"
  by (auto simp: grown_def extends_step)

lemma grown_read: "grown h0 E h \<Longrightarrow> \<not> mutating c \<Longrightarrow> grown h0 E (c # h)"
  by (simp add: grown_step reads_pass)

lemma grown_insert: "grown h0 E h \<Longrightarrow> c \<in> set h \<Longrightarrow> grown h0 (insert c E) h"
  by (simp add: grown_def)

lemma grown_weaken: "grown h0 E h \<Longrightarrow> E' \<subseteq> E \<Longrightarrow> grown h0 E' h"
  by (auto simp: grown_def)

lemma grown_ctxErr: "grown h0 E h \<Longrightarrow> wp (ctxErr env c) (\<lambda>_. grown h0 E) h"
  by (cases c) (auto simp: ctxErr_def grown_read split: option.split)

lemma grown_expectMutation: "grown h0 E h \<Longrightarrow> wp (expectMutation env messageType n) (\<lambda>_. grown h0 E) h"
  by (auto simp: expectMutation_def grown_read split: sum.split)

lemma grown_confirm: "grown h0 E h \<Longrightarrow> wp (confirm env expectation err) (\<lambda>_. grown h0 E) h"
  by (cases err; cases expectation) (auto simp: confirm_def waitMutation_def grown_read split: option.split)

lemma grown_replaceRoute:
  assumes "grown h0 E h" "\<And>h e. grown h0 E h \<Longrightarrow> P h (RouteReplace n e)"
  shows "wp (replaceRoute env n) (\<lambda>_. grown h0 E) h"
  unfolding replaceRoute_def
  by (intro keep_chain grown_expectMutation grown_confirm assms(1)) (simp add: grown_step assms(2))

lemma grown_deleteNetlinkRoute:
  assumes "grown h0 E h" "\<And>h e. grown h0 E h \<Longrightarrow> P h (RouteDel n e)"
  shows "wp (deleteNetlinkRoute env n) (\<lambda>_. grown h0 E) h"
  unfolding deleteNetlinkRoute_def
  by (intro keep_chain grown_expectMutation grown_confirm assms(1)) (simp add: grown_step assms(2))

lemma grown_writeRoute:
  "grown h0 E h \<Longrightarrow> wp (writeRoute env r) (\<lambda>x h. grown h0 E h \<and> (\<forall>n. x = Inr n \<longrightarrow> (\<exists>links. routeToNetlink links r = Inr n))) h"
  by (auto simp: writeRoute_def grown_read)

lemma grown_decodeRoute:
  "grown h0 E h \<Longrightarrow> wp (decodeRoute env family n)
     (\<lambda>x h. grown h0 E h \<and> (\<forall>observed. x = Inr observed \<longrightarrow> (\<exists>links. routeFromNetlink links family n = Inr observed))) h"
  by (auto simp: decodeRoute_def grown_read split: sum.split)

lemma grown_upsertRoutes:
  assumes "grown h0 E h"
    and allowed: "\<And>h r n links e. r \<in> set rs \<Longrightarrow> routeToNetlink links r = Inr n \<Longrightarrow> grown h0 E h \<Longrightarrow> P h (RouteReplace n e)"
  shows "wp (upsertRoutes env writes rs) (\<lambda>_. grown h0 E) h"
  using assms
proof (induction rs arbitrary: writes h)
  case (Cons r rs)
  have rest: "wp (upsertRoutes env writes' rs) (\<lambda>_. grown h0 E) h'" if "grown h0 E h'" for writes' h'
    using that by (rule Cons.IH) (rule Cons.prems(2), auto)
  show ?case
    unfolding upsertRoutes.simps
  proof (rule keep_chain [OF keep_on_error [OF grown_ctxErr [OF Cons.prems(1)]]], rule keep_chain_result)
    fix h
    assume "grown h0 E h"
    then show "wp (on_error (\<lambda>e. (writes, ConvertFailed e)) (writeRoute env r))
        (\<lambda>x h. grown h0 E h \<and> (\<forall>n. x = Inr n \<longrightarrow> (\<exists>links. routeToNetlink links r = Inr n))) h"
      by (rule keep_on_error_result [OF grown_writeRoute])
  next
    fix n h
    assume "grown h0 E h" "\<exists>links. routeToNetlink links r = Inr n"
    then show "wp (chain (on_error (\<lambda>e. (writes, ReplaceFailed r e)) (replaceRoute env n)) (\<lambda>_. upsertRoutes env (writes + 1) rs)) (\<lambda>_. grown h0 E) h"
      by (intro keep_chain keep_on_error grown_replaceRoute rest) (auto intro: Cons.prems(2))
  qed
qed simp

lemma grown_deleteRulesLoop:
  assumes "grown h0 E h"
    and allowed: "\<And>h r e. r \<in> set rs \<Longrightarrow> nu_Priority r = priority \<Longrightarrow> nu_Protocol r = word_of_int agentRouteProtocol \<Longrightarrow>
      grown h0 E h \<Longrightarrow> P h (RuleDel r e)"
  shows "wp (deleteRulesLoop env c family priority keep deleted rs) (\<lambda>_. grown h0 E) h"
  using assms
proof (induction rs arbitrary: keep deleted h)
  case (Cons r rs)
  have rest: "wp (deleteRulesLoop env c family priority keep' deleted' rs) (\<lambda>_. grown h0 E) h'" if "grown h0 E h'" for keep' deleted' h'
    using that Cons.prems(2) by (intro Cons.IH) auto
  have delete: "wp (outside (\<lambda>h. ke_RuleDel env h r) (RuleDel r)) (\<lambda>_. grown h0 E) h'"
    if "grown h0 E h'" "nu_Priority r = priority" "nu_Protocol r = word_of_int agentRouteProtocol" for h'
    using that Cons.prems(2) by (simp add: grown_step)
  show ?case
    unfolding deleteRulesLoop.simps wp_if
    by (simp add: rest Cons.prems(1) del: wp_chain wp_on_error wp_check)
      (intro impI keep_chain keep_on_error keep_check grown_ctxErr Cons.prems(1) delete rest; simp)
qed simp

lemma grown_deleteRules_at:
  assumes "grown h0 E h"
    and allowed: "\<And>h rs r e. r \<in> set rs \<Longrightarrow> nu_Priority r = priority \<Longrightarrow> nu_Protocol r = word_of_int agentRouteProtocol \<Longrightarrow>
      grown h0 E h \<Longrightarrow> RuleList (linuxFamily family) (Inr rs) \<in> set h \<Longrightarrow> P h (RuleDel r e)"
  shows "wp (deleteRulesAtPriorityExcept env c family priority keep) (\<lambda>_. grown h0 E) h"
proof -
  have loop: "wp (deleteRulesLoop env c family priority keep 0 rs) (\<lambda>_. grown h0 E) h'"
    if "grown h0 E h'" "RuleList (linuxFamily family) (Inr rs) \<in> set h'" for rs h'
  proof -
    let ?E = "insert (RuleList (linuxFamily family) (Inr rs)) E"
    have "wp (deleteRulesLoop env c family priority keep 0 rs) (\<lambda>_. grown h0 ?E) h'"
    proof (rule grown_deleteRulesLoop)
      show "grown h0 ?E h'" using that by (rule grown_insert)
    qed (use allowed in \<open>auto simp: grown_def\<close>)
    then show ?thesis by (rule wp_mono) (auto simp: grown_def)
  qed
  show ?thesis
    unfolding deleteRulesAtPriorityExcept_def
  proof (rule keep_chain_result, rule keep_on_error_result)
    show "wp (outside (\<lambda>h. ke_RuleList env h (linuxFamily family)) (RuleList (linuxFamily family)))
        (\<lambda>r h. grown h0 E h \<and> (\<forall>rs. r = Inr rs \<longrightarrow> RuleList (linuxFamily family) (Inr rs) \<in> set h)) h"
      using assms(1) by (simp add: grown_read)
  qed (rule loop)
qed

lemma grown_deleteRouteLoop:
  assumes "grown h0 E h"
    and allowed: "\<And>h r e links observed. r \<in> set rs \<Longrightarrow> nl_Protocol r = agentRouteProtocol \<Longrightarrow>
      routeFromNetlink links (route_Family target) r = Inr observed \<Longrightarrow>
      prefix_Masked (route_Prefix observed) = prefix_Masked (route_Prefix target) \<Longrightarrow>
      route_Disposition observed = route_Disposition target \<Longrightarrow> route_Metric observed = route_Metric target \<Longrightarrow>
      grown h0 E h \<Longrightarrow> P h (RouteDel r e)"
  shows "wp (deleteRouteLoop env target deleted rs) (\<lambda>_. grown h0 E) h"
  using assms
proof (induction rs arbitrary: deleted h)
  case (Cons r rs)
  have rest: "wp (deleteRouteLoop env target deleted' rs) (\<lambda>_. grown h0 E) h'" if "grown h0 E h'" for deleted' h'
    using that Cons.prems(2) by (intro Cons.IH) auto
  show ?case
  proof (cases "nl_Protocol r = agentRouteProtocol")
    case True
    let ?matches = "\<lambda>observed. prefix_Masked (route_Prefix observed) = prefix_Masked (route_Prefix target) \<and>
      route_Disposition observed = route_Disposition target \<and> route_Metric observed = route_Metric target"
    have delete: "wp (chain (on_error (Pair deleted) (ctxErr env Cancellable)) (\<lambda>_.
        chain (on_error (\<lambda>e. (deleted, DeleteRouteFailed target e)) (deleteNetlinkRoute env r)) (\<lambda>_.
        deleteRouteLoop env target (deleted + 1) rs))) (\<lambda>_. grown h0 E) h'"
      if "grown h0 E h'" "\<exists>links. routeFromNetlink links (route_Family target) r = Inr observed" "?matches observed" for h' observed
      using that True Cons.prems(2)
      by (intro keep_chain keep_on_error grown_ctxErr grown_deleteNetlinkRoute rest) auto
    have "wp (chain (on_error (\<lambda>e. (deleted, DecodeFailed e)) (decodeRoute env (route_Family target) r)) (\<lambda>observed.
        if \<not> ?matches observed then deleteRouteLoop env target deleted rs
        else chain (on_error (Pair deleted) (ctxErr env Cancellable)) (\<lambda>_.
          chain (on_error (\<lambda>e. (deleted, DeleteRouteFailed target e)) (deleteNetlinkRoute env r)) (\<lambda>_.
          deleteRouteLoop env target (deleted + 1) rs)))) (\<lambda>_. grown h0 E) h"
      by (rule keep_chain_result, rule keep_on_error_result, rule grown_decodeRoute [OF Cons.prems(1)])
        (auto simp: wp_if intro: rest delete simp del: wp_chain wp_on_error)
    with True show ?thesis by (simp add: de_Morgan_conj cong: if_cong del: wp_chain wp_on_error)
  qed (simp add: Cons.prems(1))
qed simp

lemma grown_deleteRoute:
  assumes "grown h0 E h"
    and allowed: "\<And>h rs r e links observed. r \<in> set rs \<Longrightarrow> nl_Protocol r = agentRouteProtocol \<Longrightarrow>
      RouteList (linuxFamily (route_Family target)) (route_Table target) (Inr rs) \<in> set h \<Longrightarrow>
      routeFromNetlink links (route_Family target) r = Inr observed \<Longrightarrow>
      prefix_Masked (route_Prefix observed) = prefix_Masked (route_Prefix target) \<Longrightarrow>
      route_Disposition observed = route_Disposition target \<Longrightarrow> route_Metric observed = route_Metric target \<Longrightarrow>
      grown h0 E h \<Longrightarrow> P h (RouteDel r e)"
  shows "wp (deleteRoute env target) (\<lambda>_. grown h0 E) h"
proof -
  let ?listed = "\<lambda>rs. RouteList (linuxFamily (route_Family target)) (route_Table target) (Inr rs)"
  have loop: "wp (deleteRouteLoop env target 0 rs) (\<lambda>_. grown h0 E) h'" if "grown h0 E h'" "?listed rs \<in> set h'" for rs h'
  proof -
    have "wp (deleteRouteLoop env target 0 rs) (\<lambda>_. grown h0 (insert (?listed rs) E)) h'"
    proof (rule grown_deleteRouteLoop)
      show "grown h0 (insert (?listed rs) E) h'" using that by (rule grown_insert)
    qed (use allowed in \<open>auto simp: grown_def\<close>)
    then show ?thesis by (rule wp_mono) (auto simp: grown_def)
  qed
  show ?thesis
    unfolding deleteRoute_def
  proof (rule keep_chain_result, rule keep_on_error_result)
    show "wp (outside (\<lambda>h. ke_RouteList env h (linuxFamily (route_Family target)) (route_Table target))
        (RouteList (linuxFamily (route_Family target)) (route_Table target)))
        (\<lambda>r h. grown h0 E h \<and> (\<forall>rs. r = Inr rs \<longrightarrow> ?listed rs \<in> set h)) h"
      using assms(1) by (simp add: grown_read)
  qed (rule loop)
qed

lemma grown_addRules:
  assumes "grown h0 E h"
    and add: "\<And>h r e. r \<in> set rs \<Longrightarrow> P h (RuleAdd (ruleToNetlink (ke_NewRule env) r) e)"
    and delete: "\<And>h r ns n e. r \<in> set rs \<Longrightarrow> replacements (managedRuleIdentity r) \<noteq> None \<Longrightarrow>
      RuleAdd (ruleToNetlink (ke_NewRule env) r) None \<in> set h \<Longrightarrow> RuleList (linuxFamily (rule_Family r)) (Inr ns) \<in> set h \<Longrightarrow>
      n \<in> set ns \<Longrightarrow> nu_Priority n = rule_Priority r \<Longrightarrow> nu_Protocol n = word_of_int agentRouteProtocol \<Longrightarrow> P h (RuleDel n e)"
  shows "wp (addRules env writes replacements rs)
     (\<lambda>r h. case r of Inl x \<Rightarrow> grown h0 {} h
        | Inr (w, m) \<Rightarrow> grown h0 (E \<union> (\<lambda>r. RuleAdd (ruleToNetlink (ke_NewRule env) r) None) ` set rs) h \<and> m \<subseteq>\<^sub>m replacements) h"
  using assms
proof (induction rs arbitrary: writes replacements E h)
  case (Cons r rs)
  let ?added = "\<lambda>r. RuleAdd (ruleToNetlink (ke_NewRule env) r) None"
  let ?Q = "\<lambda>x h. case x of Inl x \<Rightarrow> grown h0 {} h
        | Inr (w, m) \<Rightarrow> grown h0 (E \<union> ?added ` set (r # rs)) h \<and> m \<subseteq>\<^sub>m replacements"
  have rest: "wp (addRules env writes' m rs) ?Q h'" if "grown h0 (insert (?added r) E) h'" "m \<subseteq>\<^sub>m replacements" for writes' m h'
  proof -
    have wider: "\<exists>x. replacements k = Some x" if "m k = Some y" for k y
      using \<open>m \<subseteq>\<^sub>m replacements\<close> that by (metis domI map_le_def)
    have "wp (addRules env writes' m rs) (\<lambda>r' h. case r' of Inl x \<Rightarrow> grown h0 {} h
        | Inr (w, m') \<Rightarrow> grown h0 (insert (?added r) E \<union> ?added ` set rs) h \<and> m' \<subseteq>\<^sub>m m) h'"
      by (rule Cons.IH [OF that(1)]) (rule Cons.prems(2), simp, rule Cons.prems(3), auto dest: wider)
    then show ?thesis
      by (rule wp_mono) (use that(2) in \<open>auto split: sum.splits dest: map_le_trans\<close>)
  qed
  have removal: "wp (plus_writes w (deleteRulesAtPriorityExcept env WithoutCancel (rule_Family r) (rule_Priority r) (Some r)))
      (\<lambda>x h. case x of Inl x \<Rightarrow> ?Q (Inl x) h | Inr a \<Rightarrow> grown h0 (insert (?added r) E) h) h'"
    if "grown h0 (insert (?added r) E) h'" "replacements (managedRuleIdentity r) \<noteq> None" for w h'
  proof -
    have "wp (plus_writes w (deleteRulesAtPriorityExcept env WithoutCancel (rule_Family r) (rule_Priority r) (Some r)))
        (\<lambda>_. grown h0 (insert (?added r) E)) h'"
      by (intro keep_plus_writes grown_deleteRules_at that(1))
        (rule Cons.prems(3) [of r], use that(2) in \<open>auto simp: grown_def\<close>)
    then show ?thesis by (rule wp_mono) (auto split: sum.split simp: grown_def)
  qed
  have step: "wp (on_error (\<lambda>e. (writes, AddRuleFailed r e))
      (check (outside (\<lambda>h. ke_RuleAdd env h (ruleToNetlink (ke_NewRule env) r)) (RuleAdd (ruleToNetlink (ke_NewRule env) r)))))
      (\<lambda>x h. case x of Inl x \<Rightarrow> ?Q (Inl x) h | Inr a \<Rightarrow> grown h0 (insert (?added r) E) h) h'" if "grown h0 E h'" for h'
    using that Cons.prems(2) [of r] by (auto simp: grown_def extends_step split: option.split)
  have onward: "wp (if replacements (managedRuleIdentity r) \<noteq> None then
         chain (plus_writes (writes + 1) (deleteRulesAtPriorityExcept env WithoutCancel (rule_Family r) (rule_Priority r) (Some r)))
           (\<lambda>writes'. addRules env writes' (replacements(managedRuleIdentity r := None)) rs)
       else addRules env (writes + 1) replacements rs) ?Q h'" if "grown h0 (insert (?added r) E) h'" for h'
  proof (cases "replacements (managedRuleIdentity r) \<noteq> None")
    case True
    have "replacements(managedRuleIdentity r := None) \<subseteq>\<^sub>m replacements" by (auto simp: map_le_def)
    then have "wp (chain (plus_writes (writes + 1) (deleteRulesAtPriorityExcept env WithoutCancel (rule_Family r) (rule_Priority r) (Some r)))
        (\<lambda>writes'. addRules env writes' (replacements(managedRuleIdentity r := None)) rs)) ?Q h'"
      by (intro chain_post [OF removal [OF that True]] rest)
    with True show ?thesis by (simp del: wp_chain)
  next
    case False
    then have "(if replacements (managedRuleIdentity r) \<noteq> None then
         chain (plus_writes (writes + 1) (deleteRulesAtPriorityExcept env WithoutCancel (rule_Family r) (rule_Priority r) (Some r)))
           (\<lambda>writes'. addRules env writes' (replacements(managedRuleIdentity r := None)) rs)
       else addRules env (writes + 1) replacements rs) = addRules env (writes + 1) replacements rs" by simp
    with rest [OF that map_le_refl] show ?thesis by (simp only:)
  qed
  show ?case
    unfolding addRules.simps
  proof (rule chain_post)
    show "wp (on_error (Pair writes) (ctxErr env Cancellable)) (\<lambda>x h. case x of Inl x \<Rightarrow> ?Q (Inl x) h | Inr a \<Rightarrow> grown h0 E h) h"
      by (rule wp_mono [OF keep_on_error [OF grown_ctxErr [OF Cons.prems(1)]]]) (auto split: sum.split simp: grown_def)
  qed (rule chain_post [OF step onward])
qed simp

lemma grown_deleteRules:
  assumes "grown h0 E h"
    and delete: "\<And>h r ns n e. r \<in> set rs \<Longrightarrow> grown h0 E h \<Longrightarrow> RuleList (linuxFamily (rule_Family r)) (Inr ns) \<in> set h \<Longrightarrow>
      n \<in> set ns \<Longrightarrow> nu_Priority n = rule_Priority r \<Longrightarrow> nu_Protocol n = word_of_int agentRouteProtocol \<Longrightarrow> P h (RuleDel n e)"
  shows "wp (deleteRules env writes replacements rs) (\<lambda>_. grown h0 E) h"
  using assms
proof (induction rs arbitrary: writes replacements h)
  case (Cons r rs)
  have rest: "wp (deleteRules env writes' m rs) (\<lambda>_. grown h0 E) h'" if "grown h0 E h'" for writes' m h'
    using that by (rule Cons.IH) (rule Cons.prems(2), auto)
  have "wp (plus_writes writes (deleteRulesAtPriorityExcept env Cancellable (rule_Family r) (rule_Priority r) None)) (\<lambda>_. grown h0 E) h"
    by (intro keep_plus_writes grown_deleteRules_at Cons.prems(1)) (rule Cons.prems(2) [of r], auto)
  then show ?case
    by (auto simp: rest Cons.prems(1) simp del: wp_chain intro!: keep_chain)
qed simp

lemma grown_deleteRoutes:
  assumes "grown h0 E h"
    and delete: "\<And>target h rs r e links observed. target \<in> set targets \<Longrightarrow> r \<in> set rs \<Longrightarrow> nl_Protocol r = agentRouteProtocol \<Longrightarrow>
      RouteList (linuxFamily (route_Family target)) (route_Table target) (Inr rs) \<in> set h \<Longrightarrow>
      routeFromNetlink links (route_Family target) r = Inr observed \<Longrightarrow>
      prefix_Masked (route_Prefix observed) = prefix_Masked (route_Prefix target) \<Longrightarrow>
      route_Disposition observed = route_Disposition target \<Longrightarrow> route_Metric observed = route_Metric target \<Longrightarrow>
      grown h0 E h \<Longrightarrow> P h (RouteDel r e)"
  shows "wp (deleteRoutes env writes targets) (\<lambda>_. grown h0 E) h"
  using assms
proof (induction targets arbitrary: writes h)
  case (Cons target targets)
  have rest: "wp (deleteRoutes env writes' targets) (\<lambda>_. grown h0 E) h'" if "grown h0 E h'" for writes' h'
    using that by (rule Cons.IH) (rule Cons.prems(2) [OF list.set_intros(2)]; assumption)
  have "wp (plus_writes writes (deleteRoute env target)) (\<lambda>_. grown h0 E) h"
    by (intro keep_plus_writes grown_deleteRoute Cons.prems(1)) (rule Cons.prems(2) [OF list.set_intros(1)]; assumption)
  then show ?case
    unfolding deleteRoutes.simps by (rule keep_chain) (rule rest)
qed simp

end

section \<open>What \<^verbatim>\<open>ReadRouting\<close> accepts\<close>

text \<open>The calls of a successful read: every listed route, and every listed rule of an owned priority, is the agent's.\<close>

fun owned_call :: "routing_ownership \<Rightarrow> kernel_call \<Rightarrow> bool" where
  "owned_call ownership (RouteList family table (Inr routes)) \<longleftrightarrow> list_all (\<lambda>r. nl_Protocol r = agentRouteProtocol) routes"
| "owned_call ownership (RuleList family (Inr rules)) \<longleftrightarrow>
     list_all (\<lambda>r. nu_Priority r \<in> set (own_RulePriorities ownership) \<longrightarrow> nu_Protocol r = word_of_int agentRouteProtocol) rules"
| "owned_call ownership c \<longleftrightarrow> \<not> mutating c"

abbreviation owned_since :: "routing_ownership \<Rightarrow> kernel_history \<Rightarrow> kernel_history \<Rightarrow> bool" where
  "owned_since ownership \<equiv> extends (\<lambda>h c. owned_call ownership c)"

lemma readRoutes_foreign:
  "\<not> list_all (\<lambda>r. nl_Protocol r = agentRouteProtocol) rs \<Longrightarrow> wp (readRoutes env family table rs acc) (\<lambda>r h. \<exists>e. r = Inl e) h"
proof (induction rs arbitrary: acc h)
  case (Cons r rs)
  show ?case
  proof (cases "nl_Protocol r = agentRouteProtocol")
    case True
    with Cons have "wp (readRoutes env family table rs acc') (\<lambda>r h. \<exists>e. r = Inl e) h'" for acc' h' by simp
    with True show ?thesis by (auto simp: wp_def [of "decodeRoute env family r"] split: sum.split prod.split)
  qed simp
qed simp

lemma decodeRoute_owned: "owned_since ownership h0 h \<Longrightarrow> wp (decodeRoute env family n) (\<lambda>_. owned_since ownership h0) h"
  by (auto simp: decodeRoute_def extends_step split: sum.split)

lemma readRoutes_owned: "owned_since ownership h0 h \<Longrightarrow> wp (readRoutes env family table rs acc) (\<lambda>_. owned_since ownership h0) h"
proof (induction rs arbitrary: acc h)
  case (Cons r rs)
  then show ?case
    by (auto simp del: wp_chain wp_on_error intro!: keep_chain keep_on_error decodeRoute_owned)
qed simp

definition owned_result :: "routing_ownership \<Rightarrow> kernel_history \<Rightarrow> 'e + 'a \<Rightarrow> kernel_history \<Rightarrow> bool" where
  "owned_result ownership h0 r h \<longleftrightarrow> (case r of Inl e \<Rightarrow> True | Inr a \<Rightarrow> owned_since ownership h0 h)"

lemma owned_chain:
  "wp m (owned_result ownership h0) h \<Longrightarrow> (\<And>a h. owned_since ownership h0 h \<Longrightarrow> wp (f a) (owned_result ownership h0) h) \<Longrightarrow>
   wp (chain m f) (owned_result ownership h0) h"
  by (rule chain_post [where R = "\<lambda>a. owned_since ownership h0"]) (auto elim!: wp_mono simp: owned_result_def split: sum.split)

lemma owned_weaken: "wp m (\<lambda>_. owned_since ownership h0) h \<Longrightarrow> wp m (owned_result ownership h0) h"
  by (erule wp_mono) (auto simp: owned_result_def split: sum.split)

lemma ctxErr_owned: "owned_since ownership h0 h \<Longrightarrow> wp (ctxErr env c) (\<lambda>_. owned_since ownership h0) h"
  by (cases c) (auto simp: ctxErr_def extends_step split: option.split)

lemma readTables_owned: "owned_since ownership h0 h \<Longrightarrow> wp (readTables env family tables acc) (owned_result ownership h0) h"
proof (induction tables arbitrary: acc h)
  case (Cons table tables)
  let ?listed = "RouteList (linuxFamily family) table"
  have read: "wp (chain (readRoutes env family table routes acc) (readTables env family tables)) (owned_result ownership h0) (?listed (Inr routes) # h')"
    if "owned_since ownership h0 h'" for routes h'
  proof (cases "list_all (\<lambda>r. nl_Protocol r = agentRouteProtocol) routes")
    case True
    with that have "owned_since ownership h0 (?listed (Inr routes) # h')" by (simp add: extends_step)
    then show ?thesis by (intro owned_chain owned_weaken readRoutes_owned Cons.IH)
  next
    case False
    show ?thesis
      unfolding wp_chain by (rule wp_mono [OF readRoutes_foreign [OF False]]) (auto simp: owned_result_def)
  qed
  have onward: "wp (chain (on_error (ListRoutesFailed family table) (outside (\<lambda>h. ke_RouteList env h (linuxFamily family) table) ?listed))
      (\<lambda>routes. chain (readRoutes env family table routes acc) (readTables env family tables))) (owned_result ownership h0) h'"
    if "owned_since ownership h0 h'" for h'
    using read [OF that] unfolding wp_chain wp_on_error wp_outside by (auto simp: owned_result_def split: sum.split)
  show ?case
    unfolding readTables.simps by (rule owned_chain [OF owned_weaken [OF ctxErr_owned [OF Cons.prems]] onward])
qed (simp add: owned_result_def)

lemma readRules_spec:
  "readRules ownership family rs acc = Inr found \<Longrightarrow>
     list_all (\<lambda>r. nu_Priority r \<in> set (own_RulePriorities ownership) \<longrightarrow> nu_Protocol r = word_of_int agentRouteProtocol) rs \<and>
     found = acc @ map (ruleFromNetlink family) (filter (\<lambda>r. nu_Priority r \<in> set (own_RulePriorities ownership)) rs)"
proof (induction rs arbitrary: acc)
  case (Cons r rs)
  then show ?case using Cons.IH [of "acc @ [ruleFromNetlink family r]"] by (auto split: if_splits)
qed simp

lemma readFamilies_owned:
  "owned_since ownership h0 h \<Longrightarrow> list_all (\<lambda>r. rule_Priority r \<in> set (own_RulePriorities ownership)) (rs_Rules st) \<Longrightarrow>
   wp (readFamilies env ownership families st)
     (\<lambda>r h. \<forall>st. r = Inr st \<longrightarrow> owned_since ownership h0 h \<and>
        list_all (\<lambda>r. rule_Priority r \<in> set (own_RulePriorities ownership)) (rs_Rules st)) h"
proof (induction families arbitrary: st h)
  case (Cons family families)
  let ?listed = "RuleList (linuxFamily family)"
  let ?priorities = "list_all (\<lambda>r. rule_Priority r \<in> set (own_RulePriorities ownership))"
  let ?Q = "\<lambda>r h. \<forall>st. r = Inr st \<longrightarrow> owned_since ownership h0 h \<and> ?priorities (rs_Rules st)"
  have rules: "wp (chain (State_Monad.return (readRules ownership family listed (rs_Rules st)))
      (\<lambda>rules. readFamilies env ownership families \<lparr>rs_Routes = routes, rs_Rules = rules\<rparr>)) ?Q (?listed (Inr listed) # h')"
    if "owned_since ownership h0 h'" for listed routes h'
  proof (cases "readRules ownership family listed (rs_Rules st)")
    case (Inr found)
    from readRules_spec [OF this] that have "owned_since ownership h0 (?listed (Inr listed) # h')" "?priorities found"
      using Cons.prems(2) by (auto simp: extends_step list_all_iff ruleFromNetlink_def)
    with Inr show ?thesis by (simp add: Cons.IH)
  qed simp
  have onward: "wp (chain (on_error (ListRulesFailed family) (outside (\<lambda>h. ke_RuleList env h (linuxFamily family)) ?listed))
      (\<lambda>listed. chain (State_Monad.return (readRules ownership family listed (rs_Rules st)))
      (\<lambda>rules. readFamilies env ownership families \<lparr>rs_Routes = routes, rs_Rules = rules\<rparr>))) ?Q h'"
    if "owned_since ownership h0 h'" for routes h'
  proof (cases "ke_RuleList env h' (linuxFamily family)")
    case (Inr listed)
    with rules [OF that, of listed routes] show ?thesis unfolding wp_chain [of "on_error _ _"] wp_on_error wp_outside by simp
  qed simp
  show ?case
    unfolding readFamilies.simps
  proof (rule chain_post [OF wp_mono [OF readTables_owned [OF Cons.prems(1)]] onward])
    fix r h'
    assume "owned_result ownership h0 r h'"
    then show "case r of Inl x \<Rightarrow> ?Q (Inl x) h' | Inr a \<Rightarrow> owned_since ownership h0 h'"
      by (cases r) (simp_all add: owned_result_def)
  qed
qed simp

text \<open>
  C14: When \<^verbatim>\<open>ReadRouting\<close> succeeds it has only read, every route the kernel listed in the owned tables and every rule it
  listed at an owned priority carries the agent's protocol, and only rules of owned priorities are reported: a foreign
  route or rule is never mistaken for one of the agent's.
\<close>

theorem ReadRouting_owned:
  assumes "run_state (ReadRouting env ownership) h = (Inr st, h')"
  shows "\<exists>calls. h' = calls @ h \<and> list_all (owned_call ownership) calls \<and>
     list_all (\<lambda>r. rule_Priority r \<in> set (own_RulePriorities ownership)) (rs_Rules st)"
proof -
  have "wp (ReadRouting env ownership) (\<lambda>r h'. \<forall>st. r = Inr st \<longrightarrow> owned_since ownership h h' \<and>
      list_all (\<lambda>r. rule_Priority r \<in> set (own_RulePriorities ownership)) (rs_Rules st)) h"
    unfolding ReadRouting_def by (rule readFamilies_owned) simp_all
  from wp_run [OF this assms] have since: "owned_since ownership h h'"
    and rules: "list_all (\<lambda>r. rule_Priority r \<in> set (own_RulePriorities ownership)) (rs_Rules st)" by simp_all
  from since obtain calls where "h' = calls @ h" "list_all (owned_call ownership) calls"
    unfolding extends_def list_all_iff by (metis split_list)
  with rules show ?thesis by blast
qed

section \<open>What \<^verbatim>\<open>ApplyRouting\<close> may change\<close>

text \<open>
  The changes that \<^verbatim>\<open>ApplyRouting\<close> is allowed after the calls \<open>h\<close>: it writes the routes and rules it was given, and
  deletes only routes and rules of its own protocol that the kernel has just listed and that match a requested
  deletion; a rule that is being replaced only after its replacement was added.
\<close>

definition replaced_safely :: "kernel_env \<Rightarrow> routing_changes \<Rightarrow> kernel_history \<Rightarrow> rule \<Rightarrow> bool" where
  "replaced_safely env changes h d \<longleftrightarrow>
     (\<forall>a \<in> set (ch_AddRules changes). managedRuleIdentity a \<noteq> managedRuleIdentity d) \<or>
     (\<exists>a \<in> set (ch_AddRules changes). managedRuleIdentity a = managedRuleIdentity d \<and>
        RuleAdd (ruleToNetlink (ke_NewRule env) a) None \<in> set h)"

fun permitted :: "kernel_env \<Rightarrow> routing_changes \<Rightarrow> kernel_history \<Rightarrow> kernel_call \<Rightarrow> bool" where
  "permitted env changes h (RouteReplace n e) \<longleftrightarrow> (\<exists>r \<in> set (ch_UpsertRoutes changes). \<exists>links. routeToNetlink links r = Inr n)"
| "permitted env changes h (RuleAdd n e) \<longleftrightarrow> (\<exists>r \<in> set (ch_AddRules changes). n = ruleToNetlink (ke_NewRule env) r)"
| "permitted env changes h (RuleDel n e) \<longleftrightarrow>
     nu_Protocol n = word_of_int agentRouteProtocol \<and>
     (\<exists>d \<in> set (ch_DeleteRules changes). nu_Priority n = rule_Priority d \<and>
        (\<exists>ns. RuleList (linuxFamily (rule_Family d)) (Inr ns) \<in> set h \<and> n \<in> set ns) \<and> replaced_safely env changes h d)"
| "permitted env changes h (RouteDel n e) \<longleftrightarrow>
     nl_Protocol n = agentRouteProtocol \<and>
     (\<exists>d \<in> set (ch_DeleteRoutes changes).
        (\<exists>ns. RouteList (linuxFamily (route_Family d)) (route_Table d) (Inr ns) \<in> set h \<and> n \<in> set ns) \<and>
        canonicalRoutePrefix (route_Family d) (nl_Dst n) = Inr (prefix_Masked (route_Prefix d)) \<and>
        routeDisposition (nl_Type n) = route_Disposition d \<and> nl_Priority n = route_Metric d)"
| "permitted env changes h _ \<longleftrightarrow> True"

interpretation routing: kernel_policy "permitted env changes" for env changes
proof
  fix c h
  assume "\<not> mutating c"
  then show "permitted env changes h c" by (cases c) simp_all
qed

lemma ruleReplacements_Some: "ruleReplacements rules k = Some d \<Longrightarrow> d \<in> set rules \<and> managedRuleIdentity d = k"
proof -
  have "fold (\<lambda>r m. m(managedRuleIdentity r \<mapsto> r)) rules m k = Some d \<Longrightarrow> m k = Some d \<or> d \<in> set rules \<and> managedRuleIdentity d = k" for m
    by (induction rules arbitrary: m) (fastforce split: if_splits)+
  then show "ruleReplacements rules k = Some d \<Longrightarrow> d \<in> set rules \<and> managedRuleIdentity d = k"
    by (fastforce simp: ruleReplacements_def)
qed

lemma routeFromNetlink_identity:
  assumes "routeFromNetlink links family n = Inr observed"
  shows "canonicalRoutePrefix family (nl_Dst n) = Inr (prefix_Masked (route_Prefix observed))"
    "routeDisposition (nl_Type n) = route_Disposition observed" "nl_Priority n = route_Metric observed"
proof -
  from assms obtain p where p: "canonicalRoutePrefix family (nl_Dst n) = Inr p" "route_Prefix observed = p"
    and "routeDisposition (nl_Type n) = route_Disposition observed" "nl_Priority n = route_Metric observed"
    by (auto simp: routeFromNetlink_def Let_def split: sum.splits if_splits)
  moreover from canonicalRoutePrefix_valid [OF p(1)] have "prefix_Masked p = p" by (simp add: validMaskedPrefix_def)
  ultimately show "canonicalRoutePrefix family (nl_Dst n) = Inr (prefix_Masked (route_Prefix observed))"
    "routeDisposition (nl_Type n) = route_Disposition observed" "nl_Priority n = route_Metric observed"
    by simp_all
qed

lemma permitted_replacement:
  assumes "r \<in> set (ch_AddRules changes)" "ruleReplacements (ch_DeleteRules changes) (managedRuleIdentity r) \<noteq> None"
    "RuleAdd (ruleToNetlink (ke_NewRule env) r) None \<in> set h" "RuleList (linuxFamily (rule_Family r)) (Inr ns) \<in> set h"
    "n \<in> set ns" "nu_Priority n = rule_Priority r" "nu_Protocol n = word_of_int agentRouteProtocol"
  shows "permitted env changes h (RuleDel n e)"
proof -
  from assms(2) obtain d where "ruleReplacements (ch_DeleteRules changes) (managedRuleIdentity r) = Some d" by auto
  from ruleReplacements_Some [OF this] have d: "d \<in> set (ch_DeleteRules changes)" "managedRuleIdentity r = managedRuleIdentity d"
    by simp_all
  then have "rule_Family d = rule_Family r" "rule_Priority d = rule_Priority r" by (simp_all add: managedRuleIdentity_iff)
  moreover have "replaced_safely env changes h d"
    using assms(1,3) d(2) unfolding replaced_safely_def by blast
  ultimately show ?thesis using assms(4-7) d(1) unfolding permitted.simps by metis
qed

lemma permitted_removal:
  assumes "d \<in> set (ch_DeleteRules changes)"
    "(\<lambda>r. RuleAdd (ruleToNetlink (ke_NewRule env) r) None) ` set (ch_AddRules changes) \<subseteq> set h"
    "RuleList (linuxFamily (rule_Family d)) (Inr ns) \<in> set h"
    "n \<in> set ns" "nu_Priority n = rule_Priority d" "nu_Protocol n = word_of_int agentRouteProtocol"
  shows "permitted env changes h (RuleDel n e)"
proof -
  have "replaced_safely env changes h d" using assms(2) by (auto simp: replaced_safely_def)
  with assms show ?thesis by auto
qed

lemma ApplyRouting_grown: "wp (ApplyRouting env changes) (\<lambda>_. extends (permitted env changes) h) h"
proof -
  let ?grown = "routing.grown env changes h"
  let ?added = "(\<lambda>r. RuleAdd (ruleToNetlink (ke_NewRule env) r) None) ` set (ch_AddRules changes)"
  have start: "?grown {} h" by (simp add: routing.grown_def)
  have upserts: "wp (upsertRoutes env 0 (ch_UpsertRoutes changes)) (\<lambda>_. ?grown {}) h"
    by (rule routing.grown_upsertRoutes [OF start]) auto
  have adds: "wp (addRules env w (ruleReplacements (ch_DeleteRules changes)) (ch_AddRules changes))
      (\<lambda>r h. case r of Inl x \<Rightarrow> ?grown {} h | Inr (w, m) \<Rightarrow> ?grown ?added h) h'" if "?grown {} h'" for w h'
    by (rule wp_mono [OF routing.grown_addRules [OF that]])
      (auto intro: permitted_replacement split: sum.splits simp del: permitted.simps(3))
  have removals: "wp (deleteRules env w m (ch_DeleteRules changes)) (\<lambda>_. ?grown ?added) h'" if "?grown ?added h'" for w m h'
    by (rule routing.grown_deleteRules [OF that])
      (rule permitted_removal, auto simp: routing.grown_def)
  have deletes: "wp (deleteRoutes env w (ch_DeleteRoutes changes)) (\<lambda>_. ?grown ?added) h'" if "?grown ?added h'" for w h'
    by (rule routing.grown_deleteRoutes [OF that])
      (use routeFromNetlink_identity in \<open>fastforce\<close>)
  let ?tail = "\<lambda>(w, m). chain (deleteRules env w m (ch_DeleteRules changes)) (\<lambda>w. deleteRoutes env w (ch_DeleteRoutes changes))"
  have tail: "wp (?tail a) (\<lambda>_. ?grown {}) h'" if "?grown ?added h'" for a h'
  proof -
    have "wp (?tail a) (\<lambda>_. ?grown ?added) h'"
      by (cases a) (auto intro!: keep_chain removals [OF that] deletes simp del: wp_chain)
    then show ?thesis by (rule wp_mono) (auto simp: routing.grown_def)
  qed
  have "wp (chain (addRules env w (ruleReplacements (ch_DeleteRules changes)) (ch_AddRules changes)) ?tail) (\<lambda>_. ?grown {}) h'"
    if "?grown {} h'" for w h'
    by (rule chain_post [OF _ tail]) (rule wp_mono [OF adds [OF that]], auto split: sum.splits)
  then have "wp (chain (upsertRoutes env 0 (ch_UpsertRoutes changes)) (\<lambda>w.
      chain (addRules env w (ruleReplacements (ch_DeleteRules changes)) (ch_AddRules changes)) ?tail)) (\<lambda>_. ?grown {}) h"
    by (rule keep_chain [OF upserts])
  then show ?thesis
    unfolding ApplyRouting_def wp_bind wp_return by (rule wp_mono) (simp add: routing.grown_def)
qed

text \<open>
  C13: Whatever the kernel answers, and wherever \<^verbatim>\<open>ApplyRouting\<close> stops, every change it has made was permitted at the
  moment it was made: it writes only the routes and rules of the requested changes, deletes only routes and rules
  marked with the agent's protocol that the kernel listed and that match a requested deletion, and removes a rule that
  has a replacement only after the replacement was added.
\<close>

theorem ApplyRouting_changes_permitted:
  assumes "run_state (ApplyRouting env changes) h = (r, h')"
  shows "\<exists>calls. h' = calls @ h \<and> (\<forall>later c earlier. calls = later @ c # earlier \<longrightarrow> permitted env changes (earlier @ h) c)"
  using wp_run [OF ApplyRouting_grown assms] by (simp add: extends_def)

text \<open>A rule that is replaced: the kernel lists the new rule and the stale one at its priority.\<close>

definition sample_newRule :: nl_rule where
  "sample_newRule =
     \<lparr>nu_Priority = - 1, nu_Family = 0, nu_Table = 0, nu_Mark = 0, nu_Mask = None, nu_Tos = 0, nu_TunID = 0, nu_Goto = - 1,
      nu_Src = None, nu_Dst = None, nu_Flow = - 1, nu_IifName = [], nu_OifName = [], nu_SuppressIfgroup = - 1,
      nu_SuppressPrefixlen = - 1, nu_Invert = False, nu_Dport = None, nu_Sport = None, nu_IPProto = 0, nu_UIDRange = None,
      nu_Protocol = 0, nu_Type = 0\<rparr>"

definition sample_rule :: "int \<Rightarrow> rule" where
  "sample_rule table =
     \<lparr>rule_Family = IPv4, rule_Priority = 5200, rule_Table = table, rule_IncomingInterface = ''tailscale0'', rule_Mark = 0, rule_Mask = 0,
      rule_UnexpectedMatch = False\<rparr>"

definition sample_listed :: "nl_rule list" where
  "sample_listed = map (ruleToNetlink sample_newRule) [sample_rule 100, sample_rule 101]"

definition sample_env :: kernel_env where
  "sample_env =
     \<lparr>ke_LinkList = (\<lambda>_. Inr []), ke_LinkByIndex = (\<lambda>_. sample_links), ke_AddrList = (\<lambda>_ _. Inr []), ke_RouteGet = (\<lambda>_ _. Inr []),
      ke_RouteList = (\<lambda>_ _ _. Inr []), ke_RouteReplace = (\<lambda>_ _. None), ke_RouteDel = (\<lambda>_ _. None),
      ke_RuleList = (\<lambda>_ _. Inr sample_listed), ke_RuleAdd = (\<lambda>_ _. None), ke_RuleDel = (\<lambda>_ _. None), ke_Expect = (\<lambda>_. None),
      ke_Cancel = (\<lambda>_ _. False), ke_Wait = (\<lambda>_ _. None), ke_Context = (\<lambda>_. None), ke_NewRule = sample_newRule\<rparr>"

definition sample_changes :: routing_changes where
  "sample_changes = \<lparr>ch_UpsertRoutes = [], ch_DeleteRules = [sample_rule 101], ch_AddRules = [sample_rule 100], ch_DeleteRoutes = []\<rparr>"

definition sample_calls :: kernel_history where
  "sample_calls =
     [RuleDel (ruleToNetlink sample_newRule (sample_rule 101)) None, RuleList FAMILY_V4 (Inr sample_listed),
      RuleAdd (ruleToNetlink sample_newRule (sample_rule 100)) None, Context None]"

lemma sample_answers:
  "ke_RuleList sample_env = (\<lambda>_ _. Inr sample_listed)" "ke_RuleAdd sample_env = (\<lambda>_ _. None)" "ke_RuleDel sample_env = (\<lambda>_ _. None)"
  "ke_Context sample_env = (\<lambda>_. None)" "ke_NewRule sample_env = sample_newRule"
  by (simp_all add: sample_env_def)

lemma sample_rule_same:
  "rule_Family (sample_rule t) = IPv4" "rule_Priority (sample_rule t) = 5200" "linuxFamily IPv4 = FAMILY_V4"
  "sample_rule t = sample_rule u \<longleftrightarrow> t = u"
  by (simp_all add: sample_rule_def linuxFamily_def)

lemma sample_rule_valid: "0 < t \<Longrightarrow> rule_Validate (sample_rule t) = None"
proof -
  have "link_Validate \<lparr>link_Index = 1, link_Name = ''tailscale0''\<rparr> = None"
    by (simp add: link_Validate_def MaximumInterfaceNameBytes_def control_byte_def del: link_Validate_None)
  then show "0 < t \<Longrightarrow> rule_Validate (sample_rule t) = None"
    by (simp add: rule_Validate_def sample_rule_def del: link_Validate_None)
qed

lemma sample_decoded: "0 < t \<Longrightarrow> ruleFromNetlink IPv4 (ruleToNetlink sample_newRule (sample_rule t)) = sample_rule t"
  using rule_netlink_roundtrip [OF _ sample_rule_valid, of sample_newRule t]
  by (simp add: sample_rule_same) (simp add: rule_unset_def sample_newRule_def)

theorem ApplyRouting_changes_permitted_witness:
  "run_state (ApplyRouting sample_env sample_changes) [] = ((2, None), sample_calls) \<and>
   permitted sample_env sample_changes (tl sample_calls) (RuleDel (ruleToNetlink sample_newRule (sample_rule 101)) None)"
proof -
  have "wp (ApplyRouting sample_env sample_changes) (\<lambda>r h. r = (2, None) \<and> h = sample_calls) []"
    by (simp add: ApplyRouting_def sample_changes_def ruleReplacements_def ctxErr_def managedRuleIdentity_iff sample_rule_same
        deleteRulesAtPriorityExcept_def plus_writes_def sample_answers sample_listed_def sample_decoded sample_calls_def)
  then have run: "run_state (ApplyRouting sample_env sample_changes) [] = ((2, None), sample_calls)"
    by (auto simp: wp_def split: prod.splits)
  obtain calls where calls: "sample_calls = calls @ []"
    "\<And>later c earlier. calls = later @ c # earlier \<Longrightarrow> permitted sample_env sample_changes (earlier @ []) c"
    using ApplyRouting_changes_permitted [OF run] by blast
  have "calls = [] @ RuleDel (ruleToNetlink sample_newRule (sample_rule 101)) None # tl sample_calls"
    using calls(1) [symmetric] by (simp add: sample_calls_def)
  from calls(2) [OF this] run show ?thesis by (simp only: append_Nil2)
qed

definition sample_ownership :: routing_ownership where
  "sample_ownership = \<lparr>own_Tables = [100], own_RulePriorities = [5200]\<rparr>"

theorem ReadRouting_owned_witness:
  "\<exists>st h'. run_state (ReadRouting sample_env sample_ownership) [] = (Inr st, h') \<and> length (rs_Rules st) = 4 \<and>
     list_all (\<lambda>r. rule_Priority r \<in> set (own_RulePriorities sample_ownership)) (rs_Rules st)"
proof -
  have lists: "ke_RouteList sample_env = (\<lambda>_ _ _. Inr [])" by (simp add: sample_env_def)
  have "wp (ReadRouting sample_env sample_ownership) (\<lambda>r h. \<exists>st. r = Inr st \<and> length (rs_Rules st) = 4) []"
    by (simp add: ReadRouting_def ctxErr_def sample_answers lists sample_listed_def sample_ownership_def sample_rule_same)
  then obtain st h' where run: "run_state (ReadRouting sample_env sample_ownership) [] = (Inr st, h')" "length (rs_Rules st) = 4"
    by (auto simp: wp_def split: prod.splits)
  with ReadRouting_owned [OF run(1)] show ?thesis by blast
qed

end
