(* ===== verification/Netlink_Discovery.thy ===== *)
theory Netlink_Discovery
  imports Netlink_Adapter Discovery
begin

unbundle bit_operations_syntax

text \<open>
  The discovery half of \<^verbatim>\<open>internal/adapter/netlink/netlink_linux.go\<close>: the tunnel links are found by their addresses, the
  routes of the advertised prefixes and nameservers by asking the kernel. A prefix is reported only when all of its
  addresses take the route that was found for one of them.
\<close>

section \<open>Tunnel links\<close>

definition IFA_F_DADFAILED :: "64 word" where "IFA_F_DADFAILED = 0x08"

definition IFA_F_TENTATIVE :: "64 word" where "IFA_F_TENTATIVE = 0x40"

datatype discovery_error =
    DiscoveryContext adapter_error
  | RequestRejected "request_error list"
  | NoIdentifyingAddress
  | ListLinksFailed port_error
  | ListAddressesFailed string port_error
  | IdentifiedLinkInvalid link_error
  | IdentifiedLinks nat
  | TailnetLinkFailed discovery_error
  | ProxyLinkFailed discovery_error
  | RouteGetFailed port_error
  | RouteCandidates nat
  | OutputLinkFailed int port_error
  | OutputLinkUnusable int
  | ResolutionInvalid resolution_error
  | ListTableFailed int port_error
  | TableDestinationInvalid int
  | MoreSpecificRoute prefix
  | PrefixUnresolved prefix discovery_error
  | PrefixNotCovered prefix
  | PrefixNotUniform prefix discovery_error
  | NameServerUnresolved addr discovery_error
  | SnapshotRejected "snapshot_error list"

text \<open>The address of a link as a prefix, unless it is tentative or does not decode.\<close>

definition observedAddress :: "nl_addr \<Rightarrow> prefix option" where
  "observedAddress address =
     (if nad_Flags address AND (IFA_F_TENTATIVE OR IFA_F_DADFAILED) \<noteq> 0 then None
      else case nad_IPNet address of
        None \<Rightarrow> None
      | Some n \<Rightarrow>
          (let converted = addressFromIP (net_IP n); (ones, bits) = mask_Size (net_Mask n) in
           if addr_IsValid converted \<and> 0 \<le> ones \<and> bits = int (addr_BitLen converted) then Some (PrefixFrom converted ones) else None))"

definition linkMatches :: "addr list \<Rightarrow> prefix list \<Rightarrow> nl_addr list \<Rightarrow> bool" where
  "linkMatches requiredAddresses requiredPrefixes addresses =
     (let observedPrefixes = List.map_filter observedAddress addresses; observedAddresses = map prefix_Addr observedPrefixes in
      list_all (\<lambda>required. addr_Unmap required \<in> set observedAddresses) requiredAddresses \<and>
      list_all (\<lambda>required. required \<in> set observedPrefixes) requiredPrefixes)"

definition tunnelCandidate :: "nl_link \<Rightarrow> bool" where
  "tunnelCandidate link \<longleftrightarrow> usableLinkAttributes (nk_Attrs link) \<and> isTUNLink link"

definition linkIdentity :: "nl_link \<Rightarrow> link_identity" where
  "linkIdentity link = \<lparr>link_Index = la_Index (the (nk_Attrs link)), link_Name = la_Name (the (nk_Attrs link))\<rparr>"

fun tunnelLinkLoop ::
  "kernel_env \<Rightarrow> addr list \<Rightarrow> prefix list \<Rightarrow> link_identity list \<Rightarrow> nl_link list \<Rightarrow>
     (kernel_history, discovery_error + link_identity list) state" where
  "tunnelLinkLoop env requiredAddresses requiredPrefixes matches [] = ok matches"
| "tunnelLinkLoop env requiredAddresses requiredPrefixes matches (link # links) =
     (if \<not> tunnelCandidate link then tunnelLinkLoop env requiredAddresses requiredPrefixes matches links
      else
        chain (on_error (ListAddressesFailed (link_Name (linkIdentity link)))
          (outside (\<lambda>h. ke_AddrList env h link) (AddrList link))) (\<lambda>addresses.
        if linkMatches requiredAddresses requiredPrefixes addresses then
          (case link_Validate (linkIdentity link) of
             Some e \<Rightarrow> fail (IdentifiedLinkInvalid e)
           | None \<Rightarrow> tunnelLinkLoop env requiredAddresses requiredPrefixes (matches @ [linkIdentity link]) links)
        else tunnelLinkLoop env requiredAddresses requiredPrefixes matches links))"

definition discoverTunnelLink :: "kernel_env \<Rightarrow> addr list \<Rightarrow> prefix list \<Rightarrow> (kernel_history, discovery_error + link_identity) state" where
  "discoverTunnelLink env requiredAddresses requiredPrefixes =
     (if length requiredAddresses = 0 then fail NoIdentifyingAddress
      else
        chain (on_error ListLinksFailed (outside (ke_LinkList env) LinkList)) (\<lambda>links.
        chain (tunnelLinkLoop env requiredAddresses requiredPrefixes [] links) (\<lambda>matches.
        case matches of [link] \<Rightarrow> ok link | _ \<Rightarrow> fail (IdentifiedLinks (length matches)))))"

definition DiscoverProxyTunnel :: "kernel_env \<Rightarrow> proxy_tunnel_request \<Rightarrow> (kernel_history, discovery_error + link_identity) state" where
  "DiscoverProxyTunnel env request =
     chain (on_error DiscoveryContext (ctxErr env Cancellable)) (\<lambda>_.
     case proxy_request_Validate request of
       [] \<Rightarrow> discoverTunnelLink env (map (\<lambda>p. addr_Unmap (prefix_Addr p)) (pq_Addresses request)) (pq_Addresses request)
     | errors \<Rightarrow> fail (RequestRejected errors))"

section \<open>Routes\<close>

text \<open>\<^verbatim>\<open>Addr.Next\<close>: the zero address after the last one.\<close>

fun addr_Next :: "addr \<Rightarrow> addr" where
  "addr_Next AddrZero = AddrZero"
| "addr_Next (Addr4 a) = (if a = - 1 then AddrZero else Addr4 (a + 1))"
| "addr_Next (Addr6 a z) = (if a = - 1 then AddrZero else Addr6 (a + 1) z)"

definition routeProbe :: "prefix \<Rightarrow> addr" where
  "routeProbe p =
     (let p = prefix_Masked p; next = addr_Next (prefix_Addr p) in
      if prefix_Bits p < int (addr_BitLen (prefix_Addr p)) \<and> addr_IsValid next \<and> prefix_Contains p next then next
      else prefix_Addr p)"

definition unexpectedResolution :: "family \<Rightarrow> nl_route \<Rightarrow> bool" where
  "unexpectedResolution family route \<longleftrightarrow>
     routeHasUnsupportedDiscoveryAttributes route \<or> nl_Table route \<le> 0 \<or>
     nl_Family route \<noteq> 0 \<and> nl_Family route \<noteq> linuxFamily family \<or>
     (if length (nl_Gw route) \<noteq> 0 then nl_Scope route \<noteq> SCOPE_UNIVERSE
      else if family = IPv4 then nl_Scope route \<noteq> SCOPE_LINK
      else nl_Scope route \<noteq> SCOPE_UNIVERSE \<and> nl_Scope route \<noteq> SCOPE_LINK)"

definition outputLink :: "kernel_env \<Rightarrow> int \<Rightarrow> (kernel_history, discovery_error + link_identity) state" where
  "outputLink env index =
     (if 0 < index then
        chain (on_error (OutputLinkFailed index) (outside (\<lambda>h. ke_LinkByIndex env h index) (LinkByIndex index))) (\<lambda>link.
        if \<not> usableLinkAttributes (nk_Attrs link) \<or> la_Index (the (nk_Attrs link)) \<noteq> index then fail (OutputLinkUnusable index)
        else ok (linkIdentity link))
      else ok LinkZero)"

definition resolution_of :: "addr \<Rightarrow> nl_route \<Rightarrow> link_identity \<Rightarrow> route_resolution" where
  "resolution_of target route link =
     \<lparr>res_Target = target,
      res_MatchedPrefix = (case nl_Dst route of None \<Rightarrow> DefaultPrefix (FamilyOfAddress target) | Some n \<Rightarrow> prefixFromIPNet n),
      res_Disposition = routeDisposition (nl_Type route), res_Table = nl_Table route, res_Gateway = addressFromIP (nl_Gw route),
      res_Link = link, res_OnLink = (nl_Flags route AND RTNH_F_ONLINK \<noteq> 0), res_Multipath = (length (nl_MultiPath route) \<noteq> 0),
      res_UnexpectedAttributes = unexpectedResolution (FamilyOfAddress target) route\<rparr>"

definition resolveRoute :: "kernel_env \<Rightarrow> addr \<Rightarrow> (kernel_history, discovery_error + route_resolution) state" where
  "resolveRoute env target =
     chain (on_error DiscoveryContext (ctxErr env Cancellable)) (\<lambda>_.
     chain (on_error RouteGetFailed (outside (\<lambda>h. ke_RouteGet env h (addr_AsSlice target)) (RouteGet (addr_AsSlice target)))) (\<lambda>routes.
     case routes of
       [route] \<Rightarrow>
         chain (outputLink env (nl_LinkIndex route)) (\<lambda>link.
         case resolution_Validate (resolution_of target route link) of
           Some e \<Rightarrow> fail (ResolutionInvalid e)
         | None \<Rightarrow> ok (resolution_of target route link))
     | _ \<Rightarrow> fail (RouteCandidates (length routes))))"

definition prefixesOverlap :: "prefix \<Rightarrow> prefix \<Rightarrow> bool" where
  "prefixesOverlap left right =
     (if \<not> prefix_IsValid left \<or> \<not> prefix_IsValid right \<or> FamilyOfPrefix left \<noteq> FamilyOfPrefix right then False
      else prefix_Contains left (prefix_Addr right) \<or> prefix_Contains right (prefix_Addr left))"

definition routeCandidate :: "family \<Rightarrow> nl_route \<Rightarrow> prefix" where
  "routeCandidate family route = (case nl_Dst route of None \<Rightarrow> DefaultPrefix family | Some n \<Rightarrow> prefixFromIPNet n)"

fun uniformLoop :: "prefix \<Rightarrow> route_resolution \<Rightarrow> nl_route list \<Rightarrow> discovery_error option" where
  "uniformLoop advertised resolution [] = None"
| "uniformLoop advertised resolution (route # routes) =
     (let candidate = routeCandidate (FamilyOfPrefix advertised) route in
      if \<not> prefix_IsValid candidate \<or> candidate \<noteq> prefix_Masked candidate then Some (TableDestinationInvalid (res_Table resolution))
      else if prefix_Bits candidate \<le> prefix_Bits (res_MatchedPrefix resolution) \<or> \<not> prefixesOverlap candidate advertised
        then uniformLoop advertised resolution routes
      else Some (MoreSpecificRoute candidate))"

definition ensureUniformProjection ::
  "kernel_env \<Rightarrow> prefix \<Rightarrow> route_resolution \<Rightarrow> (kernel_history, discovery_error + unit) state" where
  "ensureUniformProjection env advertised resolution =
     chain (on_error DiscoveryContext (ctxErr env Cancellable)) (\<lambda>_.
     chain (on_error (ListTableFailed (res_Table resolution))
       (outside (\<lambda>h. ke_RouteList env h (linuxFamily (FamilyOfPrefix advertised)) (res_Table resolution))
         (RouteList (linuxFamily (FamilyOfPrefix advertised)) (res_Table resolution)))) (\<lambda>routes.
     require (uniformLoop advertised resolution routes)))"

section \<open>Discovery\<close>

definition coversPrefix :: "route_resolution \<Rightarrow> prefix \<Rightarrow> bool" where
  "coversPrefix resolution p \<longleftrightarrow>
     prefix_IsValid (res_MatchedPrefix resolution) \<and> prefix_Bits (res_MatchedPrefix resolution) \<le> prefix_Bits p \<and>
     prefix_Contains (res_MatchedPrefix resolution) (prefix_Addr p)"

definition projectPrefix :: "kernel_env \<Rightarrow> prefix \<Rightarrow> (kernel_history, discovery_error + direct_route_projection) state" where
  "projectPrefix env p =
     chain (on_error (PrefixUnresolved p) (resolveRoute env (routeProbe p))) (\<lambda>resolution.
     if \<not> coversPrefix resolution p then fail (PrefixNotCovered p)
     else chain (on_error (PrefixNotUniform p) (ensureUniformProjection env p resolution)) (\<lambda>_.
       ok \<lparr>dp_Prefix = p, dp_Gateway = res_Gateway resolution, dp_Link = res_Link resolution, dp_OnLink = res_OnLink resolution\<rparr>))"

definition resolveNameServer :: "kernel_env \<Rightarrow> addr \<Rightarrow> (kernel_history, discovery_error + dns_egress_path) state" where
  "resolveNameServer env nameServer =
     chain (on_error (NameServerUnresolved nameServer) (resolveRoute env nameServer)) (\<lambda>resolution.
     ok \<lparr>dns_NameServer = nameServer, dns_Gateway = res_Gateway resolution, dns_Link = res_Link resolution,
         dns_OnLink = res_OnLink resolution\<rparr>)"

fun each :: "('a \<Rightarrow> ('s, 'x + 'b) state) \<Rightarrow> 'a list \<Rightarrow> ('s, 'x + 'b list) state" where
  "each f [] = ok []"
| "each f (x # xs) = chain (f x) (\<lambda>y. chain (each f xs) (\<lambda>ys. ok (y # ys)))"

definition Discover :: "kernel_env \<Rightarrow> discovery_request \<Rightarrow> (kernel_history, discovery_error + network_snapshot) state" where
  "Discover env request =
     chain (on_error DiscoveryContext (ctxErr env Cancellable)) (\<lambda>_.
     case request_Validate request of
       [] \<Rightarrow>
         chain (on_error TailnetLinkFailed (discoverTunnelLink env (dq_TailnetAddresses request) [])) (\<lambda>tailnetLink.
         chain (on_error ProxyLinkFailed (DiscoverProxyTunnel env \<lparr>pq_Addresses = dq_ProxyTunnelAddresses request\<rparr>)) (\<lambda>proxyTunnelLink.
         chain (each (projectPrefix env) (dq_AdvertisedPrefixes request)) (\<lambda>advertised.
         chain (each (resolveNameServer env) (dq_NameServers request)) (\<lambda>paths.
         let snapshot = \<lparr>sn_TailnetLink = tailnetLink, sn_ProxyTunnelLink = proxyTunnelLink, sn_AdvertisedRoutes = advertised,
                         sn_DNSEgressPaths = paths\<rparr> in
         case snapshot_Validate snapshot request of [] \<Rightarrow> ok snapshot | errors \<Rightarrow> fail (SnapshotRejected errors)))))
     | errors \<Rightarrow> fail (RequestRejected errors))"

section \<open>All addresses of a reported prefix take the same route\<close>

lemma mapped_masked: "drop_bit 32 (x AND NOT (mask k)) = (0xFFFF :: 128 word) \<Longrightarrow> drop_bit 32 x = 0xFFFF"
proof -
  assume eq: "drop_bit 32 (x AND NOT (mask k)) = (0xFFFF :: 128 word)"
  have "bit (drop_bit 32 (x AND NOT (mask k))) 0" unfolding eq by simp
  then have "k \<le> 32" by (simp add: bit_simps)
  then have "drop_bit 32 (x AND NOT (mask k)) = drop_bit 32 x"
    by (auto simp: bit_eq_iff bit_simps dest: bit_imp_le_length)
  with eq show ?thesis by simp
qed

lemma masked_not_4in6:
  assumes "\<not> addr_Is4In6 a"
  shows "\<not> addr_Is4In6 (prefix_Addr (prefix_Masked (PrefixFrom a n)))"
proof (cases "prefix_IsValid (PrefixFrom a n)")
  case True
  from prefix_ok_PrefixFrom True show ?thesis
  proof (cases rule: prefix_cases_valid)
    case (v4 m b)
    then show ?thesis by (simp add: prefix_Masked4)
  next
    case (v6 m b)
    then have "a = Addr6 m (addr_Zone a)" by (cases a) (simp_all add: PrefixFrom_def)
    with assms have "drop_bit 32 m \<noteq> 0xFFFF" by (metis addr_Is4In6.simps(1))
    with v6 mapped_masked [of m "128 - b"] show ?thesis by (auto simp: prefix_Masked6 netmask6_def)
  qed
qed (simp add: prefix_Masked_invalid PrefixZero_def)

lemma addressFromIP_not_4in6: "\<not> addr_Is4In6 (addressFromIP bs)"
  by (simp add: addressFromIP_def Let_def)

lemma DefaultPrefix_not_4in6: "\<not> addr_Is4In6 (prefix_Addr (DefaultPrefix family))"
  by (simp add: DefaultPrefix_def PrefixFrom_def IPv4Unspecified_def IPv6Unspecified_def)

lemma routeCandidate_shape: "prefix_ok (routeCandidate family route)" "\<not> addr_Is4In6 (prefix_Addr (routeCandidate family route))"
  by (auto simp: routeCandidate_def prefixFromIPNet_def Let_def masked_not_4in6 addressFromIP_not_4in6 DefaultPrefix_not_4in6
      split: option.split)

lemma same_family:
  assumes "\<not> addr_Is4In6 a" "\<not> addr_Is4In6 b" "addr_BitLen a = addr_BitLen b"
  shows "FamilyOfAddress a = FamilyOfAddress b"
  using assms by (cases a; cases b) (simp_all add: FamilyOfAddress_def)

lemma overlap_of_common:
  assumes "prefix_ok p" "prefix_ok q" "prefix_Contains p a" "prefix_Contains q a"
    "\<not> addr_Is4In6 (prefix_Addr p)" "\<not> addr_Is4In6 (prefix_Addr q)"
  shows "prefixesOverlap p q"
proof -
  have "FamilyOfPrefix p = FamilyOfPrefix q"
    unfolding FamilyOfPrefix_def using prefix_Contains_BitLen [OF assms(3)] prefix_Contains_BitLen [OF assms(4)]
    by (intro same_family assms(5,6)) simp
  moreover have "prefix_Contains p (prefix_Addr q) \<or> prefix_Contains q (prefix_Addr p)"
    using prefix_Contains_nested [of p q a] prefix_Contains_nested [of q p a] assms(1-4) by (meson linear)
  ultimately show ?thesis
    using assms(3,4) by (simp add: prefixesOverlap_def prefix_Contains_valid)
qed

lemma uniformLoop_None:
  "uniformLoop advertised resolution routes = None \<Longrightarrow> route \<in> set routes \<Longrightarrow>
   prefix_Bits (routeCandidate (FamilyOfPrefix advertised) route) \<le> prefix_Bits (res_MatchedPrefix resolution) \<or>
   \<not> prefixesOverlap (routeCandidate (FamilyOfPrefix advertised) route) advertised"
  by (induction routes) (auto simp: Let_def split: if_splits)

lemma covered_contains:
  assumes "coversPrefix resolution p" "prefix_ok p" "prefix_ok (res_MatchedPrefix resolution)" "prefix_Contains p a"
  shows "prefix_Contains (res_MatchedPrefix resolution) a"
proof -
  have valid: "prefix_IsValid p" using assms(4) by (rule prefix_Contains_valid)
  have m: "prefix_IsValid (res_MatchedPrefix resolution)" "prefix_Bits (res_MatchedPrefix resolution) \<le> prefix_Bits p"
    "prefix_Contains (res_MatchedPrefix resolution) (prefix_Addr p)"
    using assms(1) by (simp_all add: coversPrefix_def)
  from assms(2) valid show ?thesis
  proof (cases rule: prefix_cases_valid)
    case (v4 n b)
    then obtain x where a: "a = Addr4 x" using assms(4) by (cases a) auto
    from v4 m obtain k c where matched: "res_MatchedPrefix resolution = Prefix (Addr4 k) (Suc c)" "c \<le> b"
      using assms(3) by (elim prefix_cases_valid) (auto simp: prefix_Bits_def)
    have "drop_bit (32 - c) x = drop_bit (32 - c) n"
      by (rule drop_bit_mono [of "32 - b"]) (use v4 a assms(4) matched in auto)
    with v4 m matched a show ?thesis by simp
  next
    case (v6 n b)
    then obtain x where a: "a = Addr6 x []" using assms(4) by (cases a) auto
    from v6 m obtain k c where matched: "res_MatchedPrefix resolution = Prefix (Addr6 k []) (Suc c)" "c \<le> b"
      using assms(3) by (elim prefix_cases_valid) (auto simp: prefix_Bits_def)
    have "drop_bit (128 - c) x = drop_bit (128 - c) n"
      by (rule drop_bit_mono [of "128 - b"]) (use v6 a assms(4) matched in auto)
    with v6 m matched a show ?thesis by simp
  qed
qed

text \<open>What a successful resolution has asked, newest first: the one route of the kernel, and its link.\<close>

lemma resolution_link: "resolution_Validate resolution = None \<Longrightarrow> link_Validate (res_Link resolution) = None"
  by (simp add: resolution_Validate_def Let_def del: link_Validate_None split: if_splits option.splits)

lemma unlinked_invalid [simp]: "resolution_Validate (resolution_of target route LinkZero) \<noteq> None"
  using resolution_link [of "resolution_of target route LinkZero"]
  by (auto simp: resolution_of_def link_Valid_iff LinkZero_def)

lemma resolveRoute_post:
  "wp (resolveRoute env target) (\<lambda>r h'. \<forall>resolution. r = Inr resolution \<longrightarrow> (\<exists>route link.
       h' = LinkByIndex (nl_LinkIndex route) (Inr link) # RouteGet (addr_AsSlice target) (Inr [route]) # Context None # h \<and>
       resolution = resolution_of target route (linkIdentity link) \<and> la_Index (the (nk_Attrs link)) = nl_LinkIndex route \<and>
       resolution_Validate resolution = None)) h"
  by (auto simp: resolveRoute_def outputLink_def ctxErr_def simp del: not_None_eq split: sum.split list.split option.split)

lemma ensureUniformProjection_post:
  "wp (ensureUniformProjection env p resolution)
     (\<lambda>r h'. r = Inr () \<longrightarrow> (\<exists>routes. h' = RouteList (linuxFamily (FamilyOfPrefix p)) (res_Table resolution) (Inr routes) # Context None # h \<and>
        uniformLoop p resolution routes = None)) h"
  by (auto simp: ensureUniformProjection_def ctxErr_def split: sum.split option.split)

lemma resolution_matched_ok: "resolution_Validate resolution = None \<Longrightarrow> prefix_ok (res_MatchedPrefix resolution)"
  by (auto simp: resolution_Validate_def validMaskedPrefix_def Let_def split: if_splits option.splits) (metis prefix_ok_Masked)+

definition projection_of :: "prefix \<Rightarrow> route_resolution \<Rightarrow> direct_route_projection" where
  "projection_of p resolution =
     \<lparr>dp_Prefix = p, dp_Gateway = res_Gateway resolution, dp_Link = res_Link resolution, dp_OnLink = res_OnLink resolution\<rparr>"

lemma projectPrefix_post:
  "wp (projectPrefix env p) (\<lambda>r h'. \<forall>projection. r = Inr projection \<longrightarrow> (\<exists>route link routes.
     let resolution = resolution_of (routeProbe p) route (linkIdentity link) in
       h' = [RouteList (linuxFamily (FamilyOfPrefix p)) (nl_Table route) (Inr routes), Context None,
             LinkByIndex (nl_LinkIndex route) (Inr link), RouteGet (addr_AsSlice (routeProbe p)) (Inr [route]), Context None] @ h \<and>
       la_Index (the (nk_Attrs link)) = nl_LinkIndex route \<and> resolution_Validate resolution = None \<and> coversPrefix resolution p \<and>
       uniformLoop p resolution routes = None \<and> projection = projection_of p resolution)) h"
  unfolding projectPrefix_def wp_chain wp_on_error
proof (rule wp_mono [OF resolveRoute_post], goal_cases)
  case (1 r h1)
  show ?case
  proof (cases r)
    case (Inr resolution)
    with 1 obtain route link where
      h1: "h1 = LinkByIndex (nl_LinkIndex route) (Inr link) # RouteGet (addr_AsSlice (routeProbe p)) (Inr [route]) # Context None # h"
      and resolution: "resolution = resolution_of (routeProbe p) route (linkIdentity link)"
      and ok: "la_Index (the (nk_Attrs link)) = nl_LinkIndex route" "resolution_Validate resolution = None" by auto
    have table: "res_Table resolution = nl_Table route" by (simp add: resolution resolution_of_def)
    show ?thesis
    proof (cases "coversPrefix resolution p")
      case True
      show ?thesis
        unfolding Inr sum.case eqTrueI [OF True] not_True_eq_False if_False wp_chain wp_on_error
        by (intro wp_mono [OF ensureUniformProjection_post])
          (use h1 ok True in \<open>auto simp: Let_def table projection_of_def resolution [symmetric] split: sum.split\<close>)
    qed (simp add: Inr)
  qed simp
qed

text \<open>
  C15: a projection that discovery reports holds for the whole prefix. For an advertised prefix that is not an IPv4-mapped one, a successful
  projection has asked the kernel exactly for its route to one address of the prefix, for the link of that route, and for the
  routes of its table. The projection is the gateway and the link of the one route the kernel answered; the destination of
  that route contains every address of the prefix, and among the listed routes none that applies to an address of the
  prefix is more specific: all addresses of the prefix take that route.
\<close>

theorem projectPrefix_uniform:
  assumes "run_state (projectPrefix env p) h = (Inr projection, h')"
    and "prefix_ok p" "\<not> addr_Is4In6 (prefix_Addr p)"
  shows "\<exists>route link routes.
     h' = [RouteList (linuxFamily (FamilyOfPrefix p)) (nl_Table route) (Inr routes), Context None,
           LinkByIndex (nl_LinkIndex route) (Inr link), RouteGet (addr_AsSlice (routeProbe p)) (Inr [route]), Context None] @ h \<and>
     projection = \<lparr>dp_Prefix = p, dp_Gateway = addressFromIP (nl_Gw route), dp_Link = linkIdentity link,
       dp_OnLink = (nl_Flags route AND RTNH_F_ONLINK \<noteq> 0)\<rparr> \<and>
     la_Index (the (nk_Attrs link)) = nl_LinkIndex route \<and>
     resolution_Validate (resolution_of (routeProbe p) route (linkIdentity link)) = None \<and>
     (\<forall>a. prefix_Contains p a \<longrightarrow>
        prefix_Contains (res_MatchedPrefix (resolution_of (routeProbe p) route (linkIdentity link))) a \<and>
        (\<forall>other \<in> set routes. prefix_Contains (routeCandidate (FamilyOfPrefix p) other) a \<longrightarrow>
           prefix_Bits (routeCandidate (FamilyOfPrefix p) other) \<le>
           prefix_Bits (res_MatchedPrefix (resolution_of (routeProbe p) route (linkIdentity link)))))"
proof -
  from wp_run [OF projectPrefix_post assms(1)] obtain route link routes resolution where
    resolution: "resolution = resolution_of (routeProbe p) route (linkIdentity link)"
    and found: "h' = [RouteList (linuxFamily (FamilyOfPrefix p)) (nl_Table route) (Inr routes), Context None,
        LinkByIndex (nl_LinkIndex route) (Inr link), RouteGet (addr_AsSlice (routeProbe p)) (Inr [route]), Context None] @ h"
      "la_Index (the (nk_Attrs link)) = nl_LinkIndex route"
    and ok: "resolution_Validate resolution = None" "coversPrefix resolution p" "uniformLoop p resolution routes = None"
      "projection = projection_of p resolution"
    by (auto simp: Let_def)
  have "prefix_Contains (res_MatchedPrefix resolution) a" if "prefix_Contains p a" for a
    using covered_contains [OF ok(2) assms(2) resolution_matched_ok [OF ok(1)] that] .
  moreover have "prefix_Bits (routeCandidate (FamilyOfPrefix p) other) \<le> prefix_Bits (res_MatchedPrefix resolution)"
    if "other \<in> set routes" "prefix_Contains (routeCandidate (FamilyOfPrefix p) other) a" "prefix_Contains p a" for other a
    using uniformLoop_None [OF ok(3) that(1)]
      overlap_of_common [OF routeCandidate_shape(1) assms(2) that(2,3) routeCandidate_shape(2) assms(3)] by auto
  moreover have "projection = \<lparr>dp_Prefix = p, dp_Gateway = addressFromIP (nl_Gw route), dp_Link = linkIdentity link,
       dp_OnLink = (nl_Flags route AND RTNH_F_ONLINK \<noteq> 0)\<rparr>"
    by (simp add: ok(4) projection_of_def resolution resolution_of_def)
  ultimately show ?thesis using found ok(1) unfolding resolution by blast
qed

section \<open>The tunnel link is unique\<close>

text \<open>What the loop over the links has seen: the addresses the kernel listed for every candidate, in order.\<close>

definition matching :: "addr list \<Rightarrow> prefix list \<Rightarrow> (nl_link \<times> nl_addr list) list \<Rightarrow> link_identity list" where
  "matching requiredAddresses requiredPrefixes answers =
     map (\<lambda>(link, addresses). linkIdentity link)
       (filter (\<lambda>(link, addresses). linkMatches requiredAddresses requiredPrefixes addresses) answers)"

definition listed :: "kernel_history \<Rightarrow> (nl_link \<times> nl_addr list) list \<Rightarrow> bool" where
  "listed h answers \<longleftrightarrow> (\<forall>(link, addresses) \<in> set answers. AddrList link (Inr addresses) \<in> set h)"

definition tunnel_post ::
  "addr list \<Rightarrow> prefix list \<Rightarrow> link_identity list \<Rightarrow> nl_link list \<Rightarrow> kernel_history \<Rightarrow> 'e + link_identity list \<Rightarrow> kernel_history \<Rightarrow> bool" where
  "tunnel_post requiredAddresses requiredPrefixes matches links h r h' \<longleftrightarrow>
     set h \<subseteq> set h' \<and> (\<forall>found. r = Inr found \<longrightarrow>
        (\<exists>answers. map fst answers = filter tunnelCandidate links \<and> listed h' answers \<and>
           found = matches @ matching requiredAddresses requiredPrefixes answers \<and>
           (list_all link_Valid matches \<longrightarrow> list_all link_Valid found)))"

lemma tunnel_post_link:
  assumes "tunnel_post requiredAddresses requiredPrefixes (matches @ extra) links (AddrList link (Inr addresses) # h) r h'"
    and "tunnelCandidate link" "list_all link_Valid extra"
    and extra: "extra = matching requiredAddresses requiredPrefixes [(link, addresses)]"
  shows "tunnel_post requiredAddresses requiredPrefixes matches (link # links) h r h'"
  unfolding tunnel_post_def
proof (intro conjI allI impI)
  fix found
  assume "r = Inr found"
  with assms(1) obtain answers where answers: "map fst answers = filter tunnelCandidate links" "listed h' answers"
    "found = (matches @ extra) @ matching requiredAddresses requiredPrefixes answers"
    "list_all link_Valid (matches @ extra) \<longrightarrow> list_all link_Valid found" and "AddrList link (Inr addresses) \<in> set h'"
    unfolding tunnel_post_def by auto
  moreover have "matching requiredAddresses requiredPrefixes ((link, addresses) # answers) =
      extra @ matching requiredAddresses requiredPrefixes answers"
    by (simp add: extra matching_def)
  ultimately show "\<exists>answers. map fst answers = filter tunnelCandidate (link # links) \<and> listed h' answers \<and>
      found = matches @ matching requiredAddresses requiredPrefixes answers \<and>
      (list_all link_Valid matches \<longrightarrow> list_all link_Valid found)"
    using assms(2,3) by (intro exI [of _ "(link, addresses) # answers"]) (simp add: listed_def)
qed (use assms(1) in \<open>auto simp: tunnel_post_def\<close>)

lemma tunnelLinkLoop_post:
  "wp (tunnelLinkLoop env requiredAddresses requiredPrefixes matches links) (tunnel_post requiredAddresses requiredPrefixes matches links h) h"
proof (induction links arbitrary: matches h)
  case Nil
  show ?case by (auto simp: matching_def listed_def tunnel_post_def)
next
  case (Cons link links)
  let ?loop = "tunnelLinkLoop env requiredAddresses requiredPrefixes"
  let ?post = "tunnel_post requiredAddresses requiredPrefixes"
  show ?case
  proof (cases "tunnelCandidate link")
    case False
    with Cons.IH [of matches h] show ?thesis by (simp add: tunnel_post_def)
  next
    case True
    have body: "wp (if linkMatches requiredAddresses requiredPrefixes addresses then
          (case link_Validate (linkIdentity link) of Some e \<Rightarrow> fail (IdentifiedLinkInvalid e)
           | None \<Rightarrow> ?loop (matches @ [linkIdentity link]) links) else ?loop matches links)
        (?post matches (link # links) h) (AddrList link (Inr addresses) # h)" for addresses
    proof (cases "linkMatches requiredAddresses requiredPrefixes addresses")
      case False
      have "wp (?loop matches links) (?post matches (link # links) h) (AddrList link (Inr addresses) # h)"
        using Cons.IH
      proof (rule wp_mono)
        fix r h'
        assume "?post matches links (AddrList link (Inr addresses) # h) r h'"
        with False True show "?post matches (link # links) h r h'"
          by (intro tunnel_post_link [where extra = "[]"]) (simp_all add: matching_def)
      qed
      with False show ?thesis by simp
    next
      case matched: True
      show ?thesis
      proof (cases "link_Validate (linkIdentity link)")
        case None
        have "wp (?loop (matches @ [linkIdentity link]) links) (?post matches (link # links) h) (AddrList link (Inr addresses) # h)"
          using Cons.IH
        proof (rule wp_mono)
          fix r h'
          assume "?post (matches @ [linkIdentity link]) links (AddrList link (Inr addresses) # h) r h'"
          with matched None True show "?post matches (link # links) h r h'"
            by (intro tunnel_post_link [where extra = "[linkIdentity link]"]) (simp_all add: matching_def)
        qed
        with matched None show ?thesis by (simp del: link_Validate_None)
      qed (use matched in \<open>auto simp: tunnel_post_def\<close>)
    qed
    have "wp (on_error (ListAddressesFailed (link_Name (linkIdentity link))) (outside (\<lambda>h. ke_AddrList env h link) (AddrList link)))
        (\<lambda>r h1. case r of Inl x \<Rightarrow> ?post matches (link # links) h (Inl x) h1 | Inr addresses \<Rightarrow> h1 = AddrList link (Inr addresses) # h) h"
      by (auto simp: tunnel_post_def split: sum.split)
    from chain_post [OF this] body True show ?thesis by (simp del: wp_chain)
  qed
qed

text \<open>
  A tunnel link is reported only when it is the one link that qualifies: of the usable TUN links the kernel listed,
  exactly one carries every required address and prefix, and that one is reported.
\<close>

theorem discoverTunnelLink_unique:
  assumes "run_state (discoverTunnelLink env requiredAddresses requiredPrefixes) h = (Inr link, h')"
  shows "link_Valid link \<and> (\<exists>links answers. LinkList (Inr links) \<in> set h' \<and> map fst answers = filter tunnelCandidate links \<and>
     (\<forall>(k, addresses) \<in> set answers. AddrList k (Inr addresses) \<in> set h') \<and>
     map (\<lambda>(k, addresses). linkIdentity k) (filter (\<lambda>(k, addresses). linkMatches requiredAddresses requiredPrefixes addresses) answers) = [link])"
proof -
  let ?Q = "\<lambda>r h'. \<forall>link. r = Inr link \<longrightarrow> link_Valid link \<and> (\<exists>links answers. LinkList (Inr links) \<in> set h' \<and>
     map fst answers = filter tunnelCandidate links \<and> listed h' answers \<and> matching requiredAddresses requiredPrefixes answers = [link])"
  have loop: "wp (chain (tunnelLinkLoop env requiredAddresses requiredPrefixes [] links)
      (\<lambda>matches. case matches of [link] \<Rightarrow> ok link | _ \<Rightarrow> fail (IdentifiedLinks (length matches)))) ?Q h1"
    if "LinkList (Inr links) \<in> set h1" for links h1
    unfolding wp_chain
  proof (rule wp_mono [OF tunnelLinkLoop_post])
    fix r h2
    assume post: "tunnel_post requiredAddresses requiredPrefixes [] links h1 r h2"
    then have "LinkList (Inr links) \<in> set h2" using that by (auto simp: tunnel_post_def)
    with post show "case r of Inl x \<Rightarrow> ?Q (Inl x) h2
      | Inr matches \<Rightarrow> wp (case matches of [link] \<Rightarrow> ok link | _ \<Rightarrow> fail (IdentifiedLinks (length matches))) ?Q h2"
      by (cases r) (fastforce simp: tunnel_post_def split: list.splits)+
  qed
  have "wp (discoverTunnelLink env requiredAddresses requiredPrefixes) ?Q h"
  proof (cases "length requiredAddresses = 0")
    case False
    have "wp (on_error ListLinksFailed (outside (ke_LinkList env) LinkList))
        (\<lambda>r h. case r of Inl x \<Rightarrow> ?Q (Inl x) h | Inr links \<Rightarrow> LinkList (Inr links) \<in> set h) h"
      by (auto split: sum.split)
    from chain_post [OF this loop] False show ?thesis by (simp add: discoverTunnelLink_def del: wp_chain)
  qed (simp add: discoverTunnelLink_def)
  from wp_run [OF this assms] show ?thesis by (auto simp: listed_def matching_def)
qed

text \<open>The witnesses: a host with one TUN link and an Ethernet link that carries the default route.\<close>

definition sample_tun :: nl_link where
  "sample_tun = \<lparr>nk_Attrs = Some \<lparr>la_Index = 3, la_Name = ''tun0'', la_Flags = 1, la_OperState = OperUnknown\<rparr>, nk_TUN = True\<rparr>"

definition sample_tun_address :: nl_addr where
  "sample_tun_address = \<lparr>nad_Flags = 0, nad_IPNet = Some (ipNetFromPrefix (Prefix (Addr4 0xAC130001) 31))\<rparr>"

definition sample_default_route :: nl_route where
  "sample_default_route =
     nl_route_zero\<lparr>nl_LinkIndex := 2, nl_Table := 254, nl_Type := RTN_UNICAST, nl_Scope := SCOPE_LINK\<rparr>"

definition sample_host :: kernel_env where
  "sample_host = sample_env\<lparr>ke_LinkList := (\<lambda>_. Inr [sample_tun]), ke_AddrList := (\<lambda>_ _. Inr [sample_tun_address]),
     ke_RouteGet := (\<lambda>_ _. Inr [sample_default_route]), ke_RouteList := (\<lambda>_ _ _. Inr [sample_default_route])\<rparr>"

definition sample_prefix :: prefix where "sample_prefix = Prefix (Addr4 0x0A000000) 9"

lemma sample_tun_matches: "linkMatches [Addr4 0xAC130001] [] [sample_tun_address]"
proof -
  have "observedAddress sample_tun_address = Some (PrefixFrom (Addr4 0xAC130001) 30)"
    using addressFromIP_AsSlice [of "Addr4 0xAC130001"]
    by (simp add: observedAddress_def sample_tun_address_def ipNetFromPrefix_def mask_Size_CIDRMask prefix_Bits_def)
  then show ?thesis by (simp add: linkMatches_def map_filter_simps PrefixFrom_def)
qed

lemma sample_tun_candidate: "tunnelCandidate sample_tun" "link_Validate (linkIdentity sample_tun) = None"
  by code_simp+

lemma sample_tun_found:
  "run_state (discoverTunnelLink sample_host [Addr4 0xAC130001] []) [] =
     (Inr (linkIdentity sample_tun), [AddrList sample_tun (Inr [sample_tun_address]), LinkList (Inr [sample_tun])])"
proof -
  have "wp (discoverTunnelLink sample_host [Addr4 0xAC130001] [])
      (\<lambda>r h. r = Inr (linkIdentity sample_tun) \<and> h = [AddrList sample_tun (Inr [sample_tun_address]), LinkList (Inr [sample_tun])]) []"
    using sample_tun_matches sample_tun_candidate by (simp add: discoverTunnelLink_def sample_host_def del: link_Validate_None)
  then show ?thesis by (auto simp: wp_def split: prod.splits)
qed

theorem discoverTunnelLink_unique_witness:
  "\<exists>h'. run_state (discoverTunnelLink sample_host [Addr4 0xAC130001] []) [] = (Inr (linkIdentity sample_tun), h') \<and>
     link_Valid (linkIdentity sample_tun) \<and> (\<exists>links. LinkList (Inr links) \<in> set h')"
  using discoverTunnelLink_unique [OF sample_tun_found] sample_tun_found by blast

definition sample_resolution :: route_resolution where
  "sample_resolution = resolution_of (Addr4 0x0A000001) sample_default_route \<lparr>link_Index = 2, link_Name = ''eth0''\<rparr>"

definition sample_projection :: direct_route_projection where
  "sample_projection =
     \<lparr>dp_Prefix = sample_prefix, dp_Gateway = AddrZero, dp_Link = \<lparr>link_Index = 2, link_Name = ''eth0''\<rparr>, dp_OnLink = False\<rparr>"

lemma sample_resolution_facts [simp]:
  "routeProbe sample_prefix = Addr4 0x0A000001" "resolution_Validate sample_resolution = None" "coversPrefix sample_resolution sample_prefix"
  "uniformLoop sample_prefix sample_resolution [sample_default_route] = None" "res_Gateway sample_resolution = AddrZero"
  "\<not> res_OnLink sample_resolution" "linuxFamily (FamilyOfPrefix sample_prefix) = 2"
  by code_simp+

lemma sample_link_found: "usableLinkAttributes (Some \<lparr>la_Index = 2, la_Name = ''eth0'', la_Flags = 1, la_OperState = OperUp\<rparr>)"
  by code_simp

lemma sample_projected: "\<exists>h'. run_state (projectPrefix sample_host sample_prefix) [] = (Inr sample_projection, h')"
proof -
  have link: "res_Link sample_resolution = \<lparr>link_Index = 2, link_Name = ''eth0''\<rparr>" by (simp add: sample_resolution_def resolution_of_def)
  have answers: "ke_RouteGet sample_host = (\<lambda>_ _. Inr [sample_default_route])" "ke_RouteList sample_host = (\<lambda>_ _ _. Inr [sample_default_route])"
    "ke_LinkByIndex sample_host = (\<lambda>_. sample_links)" "ke_Context sample_host = (\<lambda>_. None)" "nl_LinkIndex sample_default_route = 2"
    by (simp_all add: sample_host_def sample_env_def sample_default_route_def)
  have "wp (projectPrefix sample_host sample_prefix) (\<lambda>r h. r = Inr sample_projection) []"
    using sample_resolution_facts sample_link_found link
    by (simp add: projectPrefix_def resolveRoute_def ctxErr_def outputLink_def sample_links_def linkIdentity_def answers
        sample_resolution_def [symmetric] ensureUniformProjection_def sample_projection_def)
  then show ?thesis by (auto simp: wp_def split: prod.splits)
qed

theorem projectPrefix_uniform_witness:
  "\<exists>h' route routes. run_state (projectPrefix sample_host sample_prefix) [] = (Inr sample_projection, h') \<and>
     RouteGet (addr_AsSlice (routeProbe sample_prefix)) (Inr [route]) \<in> set h' \<and>
     RouteList (linuxFamily (FamilyOfPrefix sample_prefix)) (nl_Table route) (Inr routes) \<in> set h'"
proof -
  from sample_projected obtain h' where run: "run_state (projectPrefix sample_host sample_prefix) [] = (Inr sample_projection, h')" by blast
  have "prefix_ok sample_prefix" "\<not> addr_Is4In6 (prefix_Addr sample_prefix)"
    by code_simp+
  from projectPrefix_uniform [OF run this] run show ?thesis by auto
qed

section \<open>Discovery only reads\<close>

context kernel_policy
begin

lemma grown_kread: "grown h0 E h \<Longrightarrow> (\<And>r. \<not> mutating (event r)) \<Longrightarrow> wp (outside response event) (\<lambda>_. grown h0 E) h"
  by (simp add: grown_read)

lemma grown_ok: "grown h0 E h \<Longrightarrow> wp (ok a) (\<lambda>_. grown h0 E) h"
  by simp

lemma grown_fail: "grown h0 E h \<Longrightarrow> wp (fail x) (\<lambda>_. grown h0 E) h"
  by simp

lemmas grown_parts = keep_chain keep_on_error grown_ctxErr grown_kread grown_ok grown_fail

lemma grown_tunnelLinkLoop: "grown h0 E h \<Longrightarrow> wp (tunnelLinkLoop env as ps matches links) (\<lambda>_. grown h0 E) h"
proof (induction links arbitrary: matches h)
  case (Cons link links)
  have "wp (if linkMatches as ps addresses then
          (case link_Validate (linkIdentity link) of Some e \<Rightarrow> fail (IdentifiedLinkInvalid e)
           | None \<Rightarrow> tunnelLinkLoop env as ps (matches @ [linkIdentity link]) links) else tunnelLinkLoop env as ps matches links)
        (\<lambda>_. grown h0 E) h'" if "grown h0 E h'" for addresses h'
    using that Cons.IH by (cases "link_Validate (linkIdentity link)") (simp_all del: link_Validate_None)
  with Cons show ?case
    by (auto simp del: wp_chain wp_on_error wp_outside intro!: grown_parts)
qed simp

lemma grown_discoverTunnelLink: "grown h0 E h \<Longrightarrow> wp (discoverTunnelLink env as ps) (\<lambda>_. grown h0 E) h"
  unfolding discoverTunnelLink_def
  by (auto simp del: wp_chain wp_on_error wp_outside intro!: grown_parts grown_tunnelLinkLoop split: list.split)

lemma grown_DiscoverProxyTunnel: "grown h0 E h \<Longrightarrow> wp (DiscoverProxyTunnel env request) (\<lambda>_. grown h0 E) h"
  unfolding DiscoverProxyTunnel_def
  by (auto simp del: wp_chain wp_on_error wp_outside intro!: grown_parts grown_discoverTunnelLink split: list.split)

lemma grown_resolveRoute: "grown h0 E h \<Longrightarrow> wp (resolveRoute env target) (\<lambda>_. grown h0 E) h"
  unfolding resolveRoute_def outputLink_def
  by (auto simp del: wp_chain wp_on_error wp_outside intro!: grown_parts split: list.split option.split)

lemma grown_projectPrefix: "grown h0 E h \<Longrightarrow> wp (projectPrefix env p) (\<lambda>_. grown h0 E) h"
  unfolding projectPrefix_def ensureUniformProjection_def
  by (auto simp del: wp_chain wp_on_error wp_outside intro!: grown_parts grown_resolveRoute split: option.split)

lemma grown_resolveNameServer: "grown h0 E h \<Longrightarrow> wp (resolveNameServer env nameServer) (\<lambda>_. grown h0 E) h"
  unfolding resolveNameServer_def
  by (auto simp del: wp_chain wp_on_error intro!: grown_parts grown_resolveRoute)

lemma grown_each:
  assumes "\<And>x h. grown h0 E h \<Longrightarrow> wp (f x) (\<lambda>_. grown h0 E) h"
  shows "grown h0 E h \<Longrightarrow> wp (each f xs) (\<lambda>_. grown h0 E) h"
  by (induction xs arbitrary: h) (auto simp del: wp_chain intro!: keep_chain assms)

lemma grown_Discover: "grown h0 E h \<Longrightarrow> wp (Discover env request) (\<lambda>_. grown h0 E) h"
  unfolding Discover_def
  by (auto simp: Let_def simp del: wp_chain wp_on_error
      intro!: grown_parts grown_discoverTunnelLink grown_DiscoverProxyTunnel grown_each grown_projectPrefix grown_resolveNameServer
      split: list.split)

end

interpretation reading: kernel_policy "\<lambda>h c. \<not> mutating c"
  by unfold_locales

lemma extends_all: "extends (\<lambda>h c. Q c) h h' \<Longrightarrow> \<exists>calls. h' = calls @ h \<and> list_all Q calls"
  unfolding extends_def list_all_iff by (metis split_list)

lemma Discover_snapshot:
  "wp (Discover env request) (\<lambda>r h'. \<forall>snapshot. r = Inr snapshot \<longrightarrow> snapshot_Validate snapshot request = []) h"
proof -
  have guard: "wp (case snapshot_Validate snapshot request of [] \<Rightarrow> ok snapshot | e # es \<Rightarrow> fail (SnapshotRejected (e # es)))
      (\<lambda>r h'. \<forall>snapshot. r = Inr snapshot \<longrightarrow> snapshot_Validate snapshot request = []) h'" for snapshot h'
    by (auto split: list.split)
  have on: "wp (chain m f) (\<lambda>r h'. \<forall>snapshot. r = Inr snapshot \<longrightarrow> snapshot_Validate snapshot request = []) h'"
    if "\<And>a h'. wp (f a) (\<lambda>r h'. \<forall>snapshot. r = Inr snapshot \<longrightarrow> snapshot_Validate snapshot request = []) h'" for m :: "(kernel_history, discovery_error + 'x) state" and f h'
    unfolding wp_chain using that by (intro wp_runI) (auto split: sum.split)
  show ?thesis
    unfolding Discover_def Let_def
    by (rule on, cases "request_Validate request") (auto intro!: on guard simp del: wp_chain)
qed

text \<open>
  Discovery changes nothing in the kernel, whatever it answers and wherever discovery stops, and a snapshot it
  returns satisfies the contract the reconciler validates it against.
\<close>

lemma Discover_reads_and_validates:
  assumes "run_state (Discover env request) h = (r, h')"
  shows "(\<exists>calls. h' = calls @ h \<and> list_all (\<lambda>c. \<not> mutating c) calls) \<and>
     (\<forall>snapshot. r = Inr snapshot \<longrightarrow> snapshot_Validate snapshot request = [])"
proof -
  have "reading.grown h {} h" by (simp add: reading.grown_def)
  from wp_run [OF reading.grown_Discover [OF this] assms] have "extends (\<lambda>h c. \<not> mutating c) h h'"
    by (simp add: reading.grown_def)
  with extends_all wp_run [OF Discover_snapshot assms] show ?thesis by blast
qed

end
