(* ===== verification/Netip_Parse.thy ===== *)
theory Netip_Parse
  imports Netip_Bytes Go_Text
begin

text \<open>
  Reading addresses, prefixes and numbers: \<^verbatim>\<open>netip.ParseAddr\<close>, \<^verbatim>\<open>netip.ParsePrefix\<close>, \<^verbatim>\<open>strconv.ParseInt\<close> and
  \<^verbatim>\<open>strconv.ParseUint\<close>, and the functions of \<^verbatim>\<open>strings\<close> that the readers of text use, on strings of bytes. \<open>None\<close> stands for an
  error. What an IPv4 address is printed as is read back as the address.
\<close>

section \<open>Text\<close>

definition HasPrefix :: "string \<Rightarrow> string \<Rightarrow> bool" where
  "HasPrefix s p \<longleftrightarrow> take (length p) s = p"

fun Contains :: "string \<Rightarrow> string \<Rightarrow> bool" where
  "Contains [] p \<longleftrightarrow> p = []"
| "Contains (c # s) p \<longleftrightarrow> HasPrefix (c # s) p \<or> Contains s p"

definition Cut :: "string \<Rightarrow> char \<Rightarrow> string \<times> string \<times> bool" where
  "Cut s c = (if c \<in> set s then (takeWhile (\<lambda>x. x \<noteq> c) s, tl (dropWhile (\<lambda>x. x \<noteq> c) s), True) else (s, [], False))"

text \<open>
  \<^verbatim>\<open>strings.TrimSpace\<close> on the bytes of a string: the white space of ASCII and the encodings of the white space of
  Unicode.
\<close>

definition ascii_space :: "char \<Rightarrow> bool" where
  "ascii_space c \<longleftrightarrow> (of_char c :: nat) \<in> {9, 10, 11, 12, 13, 32}"

definition wide_spaces :: "nat list list" where
  "wide_spaces = [[0xC2, 0x85], [0xC2, 0xA0], [0xE1, 0x9A, 0x80]] @ map (\<lambda>b. [0xE2, 0x80, b]) [0x80..<0x8B] @
     [[0xE2, 0x80, 0xA8], [0xE2, 0x80, 0xA9], [0xE2, 0x80, 0xAF], [0xE2, 0x81, 0x9F], [0xE3, 0x80, 0x80]]"

definition wide_space_at :: "nat list list \<Rightarrow> string \<Rightarrow> nat" where
  "wide_space_at spaces s =
     (case filter (\<lambda>w. map of_char (take (length w) s) = w) spaces of [] \<Rightarrow> 0 | w # _ \<Rightarrow> length w)"

function trim_left :: "nat list list \<Rightarrow> string \<Rightarrow> string" where
  "trim_left spaces s =
     (case s of
        [] \<Rightarrow> []
      | c # cs \<Rightarrow>
          if ascii_space c then trim_left spaces cs
          else if wide_space_at spaces s = 0 then s
          else trim_left spaces (drop (wide_space_at spaces s) s))"
  by pat_completeness auto
termination
  by (relation "measure (\<lambda>(_, s). length s)") auto

declare trim_left.simps [simp del]

definition TrimSpace :: "string \<Rightarrow> string" where
  "TrimSpace s = rev (trim_left (map rev wide_spaces) (rev (trim_left wide_spaces s)))"

definition ascii :: "char \<Rightarrow> bool" where
  "ascii c \<longleftrightarrow> (of_char c :: nat) < 128"

definition lower_char :: "char \<Rightarrow> char" where
  "lower_char c = (if CHR ''A'' \<le> c \<and> c \<le> CHR ''Z'' then char_of ((of_char c :: nat) + 32) else c)"

text \<open>\<^verbatim>\<open>strings.ToLower\<close>; \<open>unicode\<close> is what it does to a string with a byte outside of ASCII.\<close>

definition ToLower :: "(string \<Rightarrow> string) \<Rightarrow> string \<Rightarrow> string" where
  "ToLower unicode s = (if list_all ascii s then map lower_char s else unicode s)"

section \<open>Numbers\<close>

definition hex_digit :: "char \<Rightarrow> nat option" where
  "hex_digit c =
     (if ascii_digit c then Some (of_char c - 48)
      else if CHR ''a'' \<le> c \<and> c \<le> CHR ''f'' then Some (of_char c - 87)
      else if CHR ''A'' \<le> c \<and> c \<le> CHR ''F'' then Some (of_char c - 55)
      else None)"

definition hex_value :: "string \<Rightarrow> int" where
  "hex_value s = foldl (\<lambda>a c. a * 16 + int (the (hex_digit c))) 0 s"

definition ParseHex :: "string \<Rightarrow> nat \<Rightarrow> int option" where
  "ParseHex s bits =
     (if s = [] \<or> \<not> list_all (\<lambda>c. hex_digit c \<noteq> None) s then None
      else if hex_value s < 2 ^ bits then Some (hex_value s) else None)"

text \<open>\<^verbatim>\<open>strconv.ParseInt(s, 10, bits)\<close>.\<close>

definition ParseInt :: "string \<Rightarrow> nat \<Rightarrow> int option" where
  "ParseInt s bits =
     (let neg = HasPrefix s ''-''; digits = (if neg \<or> HasPrefix s ''+'' then tl s else s) in
      case ParseUint digits bits of
        None \<Rightarrow> None
      | Some n \<Rightarrow>
          if \<not> neg \<and> 2 ^ (bits - 1) \<le> n \<or> neg \<and> 2 ^ (bits - 1) < n then None
          else Some (if neg then - n else n))"

section \<open>Addresses\<close>

definition parse_octet :: "string \<Rightarrow> int option" where
  "parse_octet s =
     (if s = [] \<or> \<not> list_all ascii_digit s \<or> 1 < length s \<and> hd s = CHR ''0'' then None
      else let n = foldl (\<lambda>a c. a * 10 + (of_char c - 48)) (0 :: int) s in if 255 < n then None else Some n)"

definition parseIPv4Fields :: "string \<Rightarrow> int list option" where
  "parseIPv4Fields s =
     (let fields = map parse_octet (split_on CHR ''.'' s)
      in if length fields = 4 \<and> None \<notin> set fields then Some (map the fields) else None)"

definition from_fields :: "int \<Rightarrow> int list \<Rightarrow> 'a::len word" where
  "from_fields b fields = word_of_int (foldl (\<lambda>a d. a * b + d) 0 fields)"

definition parseIPv4 :: "string \<Rightarrow> addr option" where
  "parseIPv4 s = map_option (\<lambda>fields. Addr4 (from_fields 256 fields)) (parseIPv4Fields s)"

text \<open>
  The loop of \<^verbatim>\<open>parseIPv6\<close>: the groups that may still follow, the rest of the text, the groups read so far and the position of
  the ellipsis.
\<close>

fun ipv6_groups :: "nat \<Rightarrow> string \<Rightarrow> int list \<Rightarrow> nat option \<Rightarrow> (string \<times> int list \<times> nat option) option" where
  "ipv6_groups 0 s read ellipsis = Some (s, read, ellipsis)"
| "ipv6_groups (Suc n) s read ellipsis =
     (let digits = takeWhile (\<lambda>c. hex_digit c \<noteq> None) s; rest = drop (length digits) s in
      if digits = [] \<or> 4 < length digits then None
      else if rest \<noteq> [] \<and> hd rest = CHR ''.'' then
        (if ellipsis = None \<and> length read \<noteq> 6 \<or> 6 < length read then None
         else case parseIPv4Fields s of
           Some [a, b, c, d] \<Rightarrow> Some ([], read @ [a * 256 + b, c * 256 + d], ellipsis)
         | _ \<Rightarrow> None)
      else
        let read = read @ [hex_value digits] in
        if rest = [] then Some ([], read, ellipsis)
        else if hd rest \<noteq> CHR '':'' \<or> tl rest = [] then None
        else if hd (tl rest) = CHR '':'' then
          (if ellipsis \<noteq> None then None
           else if tl (tl rest) = [] then Some ([], read, Some (length read))
           else ipv6_groups n (tl (tl rest)) read (Some (length read)))
        else ipv6_groups n (tl rest) read ellipsis)"

definition expand_groups :: "string \<times> int list \<times> nat option \<Rightarrow> int list option" where
  "expand_groups r =
     (case r of (s, read, ellipsis) \<Rightarrow>
        if s \<noteq> [] then None
        else if length read < 8 then map_option (\<lambda>k. take k read @ replicate (8 - length read) 0 @ drop k read) ellipsis
        else if ellipsis \<noteq> None then None else Some read)"

definition parseIPv6 :: "string \<Rightarrow> addr option" where
  "parseIPv6 input =
     (let (s, zone, zoned) = Cut input CHR ''%'' in
      if zoned \<and> zone = [] then None
      else if s = ''::'' then Some (Addr6 0 zone)
      else
        let leading = HasPrefix s ''::'' in
        case ipv6_groups 8 (if leading then drop 2 s else s) [] (if leading then Some 0 else None) of
          None \<Rightarrow> None
        | Some r \<Rightarrow> map_option (\<lambda>fields. Addr6 (from_fields 65536 fields) zone) (expand_groups r))"

definition ParseAddr :: "string \<Rightarrow> addr option" where
  "ParseAddr s =
     (case filter (\<lambda>c. c \<in> {CHR ''.'', CHR '':'', CHR ''%''}) s of
        [] \<Rightarrow> None
      | c # _ \<Rightarrow> if c = CHR ''.'' then parseIPv4 s else if c = CHR '':'' then parseIPv6 s else None)"

definition ParsePrefix :: "string \<Rightarrow> prefix option" where
  "ParsePrefix s =
     (case last_index_of CHR ''/'' s of
        None \<Rightarrow> None
      | Some i \<Rightarrow>
          (case ParseAddr (take i s) of
             None \<Rightarrow> None
           | Some ip \<Rightarrow>
               let bitsStr = drop (i + 1) s in
               if addr_Zone ip \<noteq> [] then None
               else if 1 < length bitsStr \<and> \<not> (CHR ''1'' \<le> hd bitsStr \<and> hd bitsStr \<le> CHR ''9'') then None
               else case ParseInt bitsStr 64 of
                 None \<Rightarrow> None
               | Some bits \<Rightarrow> if bits < 0 \<or> int (addr_BitLen ip) < bits then None else Some (PrefixFrom ip bits)))"

section \<open>Examples\<close>

lemma ParsePrefix_examples:
  "ParsePrefix ''100.64.0.0/10'' = Some (PrefixFrom (Addr4 0x64400000) 10)"
  "ParsePrefix ''fd7a:115c:a1e0::/48'' = Some (PrefixFrom (Addr6 0xfd7a115ca1e000000000000000000000 []) 48)"
  "ParsePrefix ''::ffff:1.2.3.4/128'' = Some (PrefixFrom (Addr6 0xffff01020304 []) 128)"
  "ParsePrefix ''10.0.0.1/33'' = None" "ParsePrefix ''10.0.0.01/8'' = None" "ParsePrefix ''fe80::1%eth0/64'' = None"
  "ParsePrefix ''1::2::3/64'' = None" "ParsePrefix ''10.0.0.0/08'' = None"
  by code_simp+

section \<open>Printed IPv4 addresses are read back\<close>

lemma foldl_digits:
  "list_all (\<lambda>d. d < 10) ds \<Longrightarrow>
     foldl (\<lambda>a c. a * 10 + (of_char c - 48)) (int a) (map digit_char ds) = int (foldl (\<lambda>a d. a * 10 + d) a ds)"
proof (induction ds arbitrary: a)
  case (Cons d ds)
  have "(of_char (digit_char d) :: int) = int (of_char (digit_char d))" by (simp add: of_nat_of_char)
  also have "\<dots> = 48 + int d" using Cons.prems by (simp add: of_digit_char)
  finally have "int a * 10 + (of_char (digit_char d) - 48) = int (a * 10 + d)" by simp
  with Cons.IH [of "a * 10 + d"] Cons.prems show ?case by (simp only: list.map foldl_Cons list.pred_inject simp_thms)
qed simp

lemma to_base_small: "list_all (\<lambda>d. d < 10) (to_base 10 n)"
  using to_base_digits [of 10] by (auto simp: list_all_iff)

lemma dec_value: "foldl (\<lambda>a c. a * 10 + (of_char c - 48)) (0 :: int) (show_dec n) = int n"
  using foldl_digits [OF to_base_small, of 0 n] from_to_base [of 10 n]
  by (simp add: show_dec_def show_base_def from_base_def)

lemma digit_char_digit: "d < 10 \<Longrightarrow> ascii_digit (digit_char d)" "d < 10 \<Longrightarrow> digit_char d = CHR ''0'' \<longleftrightarrow> d = 0"
proof -
  have "list_all (\<lambda>d. ascii_digit (digit_char d) \<and> (digit_char d = CHR ''0'' \<longleftrightarrow> d = 0)) [0..<10]" by code_simp
  then show "d < 10 \<Longrightarrow> ascii_digit (digit_char d)" "d < 10 \<Longrightarrow> digit_char d = CHR ''0'' \<longleftrightarrow> d = 0"
    by (simp_all add: list_all_iff)
qed

lemma show_dec_digits: "list_all ascii_digit (show_dec n)"
  using to_base_small [of n] by (auto simp: show_dec_def show_base_def list_all_iff digit_char_digit)

lemma to_base_leading: "hd (to_base 10 n) = 0 \<Longrightarrow> to_base 10 n = [0]"
proof (induction "10 :: nat" n rule: to_base.induct)
  case (1 n)
  show ?case
  proof (cases "n < 10")
    case False
    then have split: "to_base 10 n = to_base 10 (n div 10) @ [n mod 10]" by (subst to_base.simps) simp
    then have "to_base 10 (n div 10) = [0]" using 1 False by simp
    then have "n div 10 = 0" using from_to_base [of 10 "n div 10"] by (simp add: from_base_def)
    with False show ?thesis by simp
  qed (use 1 in \<open>simp add: to_base.simps [of 10]\<close>)
qed

lemma show_dec_leading: "1 < length (show_dec n) \<Longrightarrow> hd (show_dec n) \<noteq> CHR ''0''"
proof
  assume long: "1 < length (show_dec n)" and "hd (show_dec n) = CHR ''0''"
  moreover have "hd (to_base 10 n) < 10" using to_base_small [of n] by (cases "to_base 10 n") simp_all
  ultimately have "hd (to_base 10 n) = 0" by (simp add: show_dec_def show_base_def hd_map digit_char_digit)
  from to_base_leading [OF this] long show False by (simp add: show_dec_def show_base_def)
qed

lemma parse_octet_show: "n < 256 \<Longrightarrow> parse_octet (show_dec n) = Some (int n)"
  using show_dec_leading [of n] by (simp add: parse_octet_def show_dec_digits dec_value)

lemma octets_bytes: "octets a = map unat (be_bytes 4 a)"
proof -
  have "unat (take_bit 8 (drop_bit n a)) = unat (ucast (drop_bit n a) :: 8 word)" for n
    by (rule bit_eqI) (auto simp: bit_simps)
  then show ?thesis by (simp add: octets_def be_bytes_def eval_nat_numeral)
qed

lemma foldl_int_bytes:
  "foldl (\<lambda>a d. a * 256 + d) (int acc) (map int (map unat bs)) = int (foldl (\<lambda>a b. 256 * a + unat b) acc (bs :: bytes))"
proof (induction bs arbitrary: acc)
  case (Cons b bs)
  from Cons.IH [of "256 * acc + unat b"] show ?case by (simp add: mult.commute)
qed simp

lemma octets_value: "from_fields 256 (map int (octets a)) = a"
  using foldl_int_bytes [of 0 "be_bytes 4 a"] bytes_value_be_bytes [of 4 a]
  by (simp add: from_fields_def octets_bytes bytes_value_def del: map_map)

lemma parseIPv4_string: "parseIPv4 (string4 a) = Some (Addr4 a)"
proof -
  have octets: "n < 256" if "n \<in> set (octets a)" for n
  proof -
    from that obtain i where "n = unat (take_bit 8 (drop_bit (8 * i) a))" unfolding octets_def set_map by blast
    then have "n = take_bit 8 (unat (drop_bit (8 * i) a))" by (simp only: unsigned_take_bit_eq)
    then show ?thesis by (simp add: take_bit_eq_mod)
  qed
  have "split_on CHR ''.'' (string4 a) = map show_dec (octets a)"
    unfolding string4_def by (intro split_join) (auto simp: octets_def not_in_digits)
  then have "map parse_octet (split_on CHR ''.'' (string4 a)) = map (\<lambda>n. Some (int n)) (octets a)"
    using octets by (simp add: parse_octet_show)
  then have "parseIPv4Fields (string4 a) = Some (map int (octets a))"
    by (auto simp: parseIPv4Fields_def Let_def comp_def) (simp_all add: octets_def)
  then show ?thesis by (simp add: parseIPv4_def octets_value)
qed

lemma ParseAddr_String: "ParseAddr (addr_String (Addr4 a)) = Some (Addr4 a)"
proof -
  have "CHR ''%'' \<notin> digit_chars" by (auto dest: digit_charsD)
  then have chars: "CHR '':'' \<notin> set (string4 a)" "CHR ''%'' \<notin> set (string4 a)" by (simp_all add: string4_no_sep)
  define f where "f = filter (\<lambda>c. c \<in> {CHR ''.'', CHR '':'', CHR ''%''}) (string4 a)"
  have "set f \<subseteq> {CHR ''.''}"
    using chars by (auto simp: f_def)
  moreover have "CHR ''.'' \<in> set (string4 a)"
    by (simp add: string4_def octets_def)
  then have "f \<noteq> []" by (auto simp: f_def filter_empty_conv)
  ultimately obtain rest where "f = CHR ''.'' # rest" by (cases f) auto
  then show ?thesis unfolding ParseAddr_def addr_String.simps f_def [symmetric] by (simp add: parseIPv4_string)
qed

end
