(* ===== verification/Go_Url.thy ===== *)
theory Go_Url
  imports Netip_Parse
begin

text \<open>
  \<^verbatim>\<open>net/url\<close> as far as the endpoints of capability probes need it: \<^verbatim>\<open>url.ParseRequestURI\<close> with its scheme, authority and
  path, the percent encoding of hosts and paths, and the readers \<^verbatim>\<open>Hostname\<close>, \<^verbatim>\<open>Port\<close>, \<^verbatim>\<open>EscapedPath\<close> and \<^verbatim>\<open>String\<close> of a URL.
  A URL written from letters, digits and the unreserved marks is read back as it was written.
\<close>

section \<open>Percent encoding\<close>

datatype encoding = encodePath | encodeHost | encodeZone | encodeUserPassword

definition unreserved :: "char \<Rightarrow> bool" where
  "unreserved c \<longleftrightarrow> ascii_letter c \<or> ascii_digit c \<or> c \<in> set ''-_.~''"

definition shouldEscape :: "encoding \<Rightarrow> char \<Rightarrow> bool" where
  "shouldEscape mode c =
     (if ascii_letter c \<or> ascii_digit c then False
      else if (mode = encodeHost \<or> mode = encodeZone) \<and> c \<in> set ''!$&()*+,;=:[]<>'' \<union> {CHR 0x27, CHR 0x22} then False
      else if c \<in> set ''-_.~'' then False
      else if c \<in> set ''$&+,/:;=?@'' then
        (case mode of encodePath \<Rightarrow> c = CHR ''?'' | encodeUserPassword \<Rightarrow> c \<in> set ''@/?:'' | _ \<Rightarrow> True)
      else True)"

definition hex_pair :: "char \<Rightarrow> char \<Rightarrow> nat option" where
  "hex_pair a b =
     (case (hex_digit a, hex_digit b) of (Some x, Some y) \<Rightarrow> Some (16 * x + y) | _ \<Rightarrow> None)"

text \<open>Which escapes a host and a zone may contain.\<close>

definition escape_allowed :: "encoding \<Rightarrow> nat \<Rightarrow> bool" where
  "escape_allowed mode v \<longleftrightarrow>
     (mode = encodeHost \<longrightarrow> 128 \<le> v \<or> v = 0x25) \<and>
     (mode = encodeZone \<longrightarrow> v = 0x25 \<or> v = 0x20 \<or> \<not> shouldEscape encodeHost (char_of v))"

fun unescape :: "encoding \<Rightarrow> string \<Rightarrow> string option" where
  "unescape mode [] = Some []"
| "unescape mode (c # cs) =
     (if c = CHR ''%'' then
        (case cs of
           a # b # rest \<Rightarrow>
             (case hex_pair a b of
                None \<Rightarrow> None
              | Some v \<Rightarrow> if escape_allowed mode v then map_option (\<lambda>t. char_of v # t) (unescape mode rest) else None)
         | _ \<Rightarrow> None)
      else if (mode = encodeHost \<or> mode = encodeZone) \<and> ascii c \<and> shouldEscape mode c then None
      else map_option (\<lambda>t. c # t) (unescape mode cs))"

definition upper_hex :: "nat \<Rightarrow> char" where
  "upper_hex d = (if d < 10 then char_of (48 + d) else char_of (55 + d))"

definition escape :: "encoding \<Rightarrow> string \<Rightarrow> string" where
  "escape mode s = concat (map (\<lambda>c.
     if shouldEscape mode c then [CHR ''%'', upper_hex (of_char c div 16), upper_hex (of_char c mod 16)] else [c]) s)"

lemma percent_reserved: "\<not> unreserved CHR ''%''"
  by code_simp

lemma unreserved_plain: "unreserved c \<Longrightarrow> \<not> shouldEscape mode c"
  by (auto simp only: unreserved_def shouldEscape_def split: if_splits)

lemma unescape_unreserved: "list_all unreserved s \<Longrightarrow> unescape mode s = Some s"
proof (induction s)
  case (Cons c s)
  then have "unreserved c" by simp
  moreover from this have "c \<noteq> CHR ''%''" using percent_reserved by metis
  ultimately show ?case using Cons by (simp add: unreserved_plain del: list.set)
qed simp

lemma escape_unreserved: "list_all unreserved s \<Longrightarrow> escape mode s = s"
  by (induction s) (simp_all add: escape_def unreserved_plain)

section \<open>URLs\<close>

record url =
  u_Scheme :: string
  u_Opaque :: string
  u_User :: "string option"
  u_Host :: string
  u_Path :: string
  u_RawPath :: string
  u_ForceQuery :: bool
  u_RawQuery :: string
  u_Fragment :: string

definition url_zero :: url where
  "url_zero = \<lparr>u_Scheme = [], u_Opaque = [], u_User = None, u_Host = [], u_Path = [], u_RawPath = [],
     u_ForceQuery = False, u_RawQuery = [], u_Fragment = []\<rparr>"

datatype url_error =
    ControlCharacter | EmptyURL | MissingScheme | NotRequestURI | InvalidUserinfo | InvalidHost | InvalidPort | InvalidEscape

definition scheme_char :: "char \<Rightarrow> bool" where
  "scheme_char c \<longleftrightarrow> ascii_letter c \<or> ascii_digit c \<or> c \<in> set ''+-.''"

text \<open>The text before the first colon is a scheme when it starts with a letter and has no other characters.\<close>

definition getScheme :: "string \<Rightarrow> (url_error, string \<times> string) result" where
  "getScheme raw =
     (let scheme = takeWhile scheme_char raw; rest = dropWhile scheme_char raw in
      if raw \<noteq> [] \<and> \<not> ascii_letter (hd raw) \<and> hd raw \<noteq> CHR '':'' then Inr ([], raw)
      else if rest \<noteq> [] \<and> hd rest = CHR '':'' then
        (if scheme = [] then Inl MissingScheme else Inr (scheme, tl rest))
      else Inr ([], raw))"

fun validOptionalPort :: "string \<Rightarrow> bool" where
  "validOptionalPort [] = True"
| "validOptionalPort (c # cs) \<longleftrightarrow> c = CHR '':'' \<and> list_all ascii_digit cs"

text \<open>An IPv6 literal, with the percent sign of its zone written as an escape.\<close>

fun zone_index :: "string \<Rightarrow> nat option" where
  "zone_index [] = None"
| "zone_index (c # cs) = (if HasPrefix (c # cs) ''%25'' then Some 0 else map_option Suc (zone_index cs))"

definition parseLiteral :: "string \<Rightarrow> (url_error, string) result" where
  "parseLiteral inner =
     (let decoded =
        (case zone_index inner of
           None \<Rightarrow> unescape encodeHost inner
         | Some i \<Rightarrow>
             (case (unescape encodeHost (take i inner), unescape encodeZone (drop i inner)) of
                (Some a, Some b) \<Rightarrow> Some (a @ b)
              | _ \<Rightarrow> None))
      in case decoded of
           None \<Rightarrow> Inl InvalidEscape
         | Some text \<Rightarrow>
             (case ParseAddr text of
                None \<Rightarrow> Inl InvalidHost
              | Some a \<Rightarrow> if addr_Is4 a then Inl InvalidHost else Inr text))"

definition parseHost :: "string \<Rightarrow> (url_error, string) result" where
  "parseHost host =
     (case last_index_of CHR ''['' host of
        Some 0 \<Rightarrow>
          (case last_index_of CHR '']'' host of
             None \<Rightarrow> Inl InvalidHost
           | Some j \<Rightarrow>
               if \<not> validOptionalPort (drop (j + 1) host) then Inl InvalidPort
               else map_sum id (\<lambda>text. CHR ''['' # text @ CHR '']'' # drop (j + 1) host) (parseLiteral (take (j - 1) (drop 1 host))))
      | Some _ \<Rightarrow> Inl InvalidHost
      | None \<Rightarrow>
          (case last_index_of CHR '':'' host of
             Some i \<Rightarrow>
               if index_of CHR '':'' host \<noteq> Some i then Inl InvalidHost
               else if \<not> validOptionalPort (drop i host) then Inl InvalidPort
               else (case unescape encodeHost host of None \<Rightarrow> Inl InvalidEscape | Some t \<Rightarrow> Inr t)
           | None \<Rightarrow> (case unescape encodeHost host of None \<Rightarrow> Inl InvalidEscape | Some t \<Rightarrow> Inr t)))"

definition validUserinfo :: "string \<Rightarrow> bool" where
  "validUserinfo = list_all (\<lambda>c. ascii_letter c \<or> ascii_digit c \<or> c \<in> set ''-._:~!$&()*+,;=%@'' \<union> {CHR 0x27})"

text \<open>The user information is kept as it is written: the readers only ask whether there is any.\<close>

definition parseAuthority :: "string \<Rightarrow> (url_error, string option \<times> string) result" where
  "parseAuthority authority =
     (case last_index_of CHR ''@'' authority of
        None \<Rightarrow> map_sum id (\<lambda>h. (None, h)) (parseHost authority)
      | Some i \<Rightarrow>
          (case parseHost (drop (i + 1) authority) of
             Inl e \<Rightarrow> Inl e
           | Inr h \<Rightarrow>
               if \<not> validUserinfo (take i authority) then Inl InvalidUserinfo
               else if unescape encodeUserPassword (take i authority) = None then Inl InvalidEscape
               else Inr (Some (take i authority), h)))"

definition setPath :: "url \<Rightarrow> string \<Rightarrow> (url_error, url) result" where
  "setPath u p =
     (case unescape encodePath p of
        None \<Rightarrow> Inl InvalidEscape
      | Some text \<Rightarrow> Inr (u\<lparr>u_Path := text, u_RawPath := (if escape encodePath text = p then [] else p)\<rparr>))"

definition url_control_byte :: "char \<Rightarrow> bool" where
  "url_control_byte c \<longleftrightarrow> (of_char c :: nat) < 32 \<or> (of_char c :: nat) = 127"

text \<open>The query of a URL: the text after the first question mark, and whether a lone question mark ends it.\<close>

definition splitQuery :: "url \<Rightarrow> string \<Rightarrow> url \<times> string" where
  "splitQuery u rest =
     (if rest \<noteq> [] \<and> last rest = CHR ''?'' \<and> CHR ''?'' \<notin> set (butlast rest) then (u\<lparr>u_ForceQuery := True\<rparr>, butlast rest)
      else case Cut rest CHR ''?'' of (before, after, _) \<Rightarrow> (u\<lparr>u_RawQuery := after\<rparr>, before))"

definition parseHierarchy :: "url \<Rightarrow> string \<Rightarrow> (url_error, url) result" where
  "parseHierarchy u rest =
     (if \<not> HasPrefix rest ''/'' then (if u_Scheme u \<noteq> [] then Inr (u\<lparr>u_Opaque := rest\<rparr>) else Inl NotRequestURI)
      else if u_Scheme u \<noteq> [] \<and> HasPrefix rest ''//'' then
        (let authority = takeWhile (\<lambda>c. c \<noteq> CHR ''/'') (drop 2 rest);
             path = dropWhile (\<lambda>c. c \<noteq> CHR ''/'') (drop 2 rest)
         in case parseAuthority authority of
              Inl e \<Rightarrow> Inl e
            | Inr (user, host) \<Rightarrow> setPath (u\<lparr>u_User := user, u_Host := host\<rparr>) path)
      else setPath u rest)"

definition ParseRequestURI :: "string \<Rightarrow> (url_error, url) result" where
  "ParseRequestURI raw =
     (if list_ex url_control_byte raw then Inl ControlCharacter
      else if raw = [] then Inl EmptyURL
      else if raw = ''*'' then Inr (url_zero\<lparr>u_Path := ''*''\<rparr>)
      else case getScheme raw of
        Inl e \<Rightarrow> Inl e
      | Inr (scheme, rest) \<Rightarrow>
          (case splitQuery (url_zero\<lparr>u_Scheme := map lower_char scheme\<rparr>) rest of
             (u, rest') \<Rightarrow> parseHierarchy u rest'))"

definition splitURLHostPort :: "string \<Rightarrow> string \<times> string" where
  "splitURLHostPort hostPort =
     (let (host, port) =
        (case last_index_of CHR '':'' hostPort of
           Some i \<Rightarrow> if validOptionalPort (drop i hostPort) then (take i hostPort, drop (i + 1) hostPort) else (hostPort, [])
         | None \<Rightarrow> (hostPort, []))
      in (if host \<noteq> [] \<and> hd host = CHR ''['' \<and> last host = CHR '']'' then butlast (tl host) else host, port))"

definition url_Hostname :: "url \<Rightarrow> string" where
  "url_Hostname u = fst (splitURLHostPort (u_Host u))"

definition url_Port :: "url \<Rightarrow> string" where
  "url_Port u = snd (splitURLHostPort (u_Host u))"

definition validEncodedPath :: "string \<Rightarrow> bool" where
  "validEncodedPath = list_all (\<lambda>c. c \<in> set ''!$&()*+,;=:@[]%'' \<union> {CHR 0x27} \<or> \<not> shouldEscape encodePath c)"

definition url_EscapedPath :: "url \<Rightarrow> string" where
  "url_EscapedPath u =
     (if u_RawPath u \<noteq> [] \<and> validEncodedPath (u_RawPath u) \<and> unescape encodePath (u_RawPath u) = Some (u_Path u) then u_RawPath u
      else if u_Path u = ''*'' then ''*''
      else escape encodePath (u_Path u))"

text \<open>\<^verbatim>\<open>String\<close> of a URL with a host and without opaque part, user information, query and fragment.\<close>

definition url_HostString :: "url \<Rightarrow> string" where
  "url_HostString u =
     (if u_Scheme u = [] then [] else u_Scheme u @ '':'') @ ''//'' @ escape encodeHost (u_Host u) @
     (let path = url_EscapedPath u in if path \<noteq> [] \<and> hd path \<noteq> CHR ''/'' then CHR ''/'' # path else path)"

end
