(* ===== verification/Internet_Probe.thy ===== *)
theory Internet_Probe
  imports Capability Histories Go_Url
begin

unbundle bit_operations_syntax

text \<open>
  \<^verbatim>\<open>internal/adapter/internetprobe\<close>: the endpoints of capability probes, the addresses a probe may contact, and the probe itself.
  Lookups, dials and the HTTP client are calls with their answers, decided by functions of the whole history of calls. The
  client may use its dial function any number of times before it answers.
\<close>

section \<open>Addresses\<close>

text \<open>The classification of \<^verbatim>\<open>netip.Addr\<close>; a mapped IPv4 address is classified as the IPv4 address.\<close>

definition addr_IsLoopback :: "addr \<Rightarrow> bool" where
  "addr_IsLoopback a =
     (case addr_Unmap a of AddrZero \<Rightarrow> False | Addr4 v \<Rightarrow> drop_bit 24 v = 127 | Addr6 v _ \<Rightarrow> v = 1)"

definition addr_IsLinkLocalUnicast :: "addr \<Rightarrow> bool" where
  "addr_IsLinkLocalUnicast a =
     (case addr_Unmap a of AddrZero \<Rightarrow> False | Addr4 v \<Rightarrow> drop_bit 16 v = 0xA9FE | Addr6 v _ \<Rightarrow> drop_bit 118 v = 0x3FA)"

definition addr_IsPrivate :: "addr \<Rightarrow> bool" where
  "addr_IsPrivate a =
     (case addr_Unmap a of
        AddrZero \<Rightarrow> False
      | Addr4 v \<Rightarrow> drop_bit 24 v = 10 \<or> drop_bit 20 v = 0xAC1 \<or> drop_bit 16 v = 0xC0A8
      | Addr6 v _ \<Rightarrow> drop_bit 121 v = 0x7E)"

definition addr_IsGlobalUnicast :: "addr \<Rightarrow> bool" where
  "addr_IsGlobalUnicast a =
     (let b = addr_Unmap a in
      addr_IsValid b \<and> b \<noteq> IPv4Unspecified \<and> b \<noteq> Addr4 0xFFFFFFFF \<and> b \<noteq> IPv6Unspecified \<and>
      \<not> addr_IsLoopback b \<and> \<not> addr_IsMulticast b \<and> \<not> addr_IsLinkLocalUnicast b)"

definition prohibitedInternetPrefixes :: "prefix list" where
  "prohibitedInternetPrefixes = map (\<lambda>s. the (ParsePrefix s))
     [''0.0.0.0/8'', ''100.64.0.0/10'', ''192.0.0.0/24'', ''192.0.2.0/24'', ''192.31.196.0/24'', ''192.52.193.0/24'',
      ''192.88.99.0/24'', ''192.175.48.0/24'', ''198.18.0.0/15'', ''198.51.100.0/24'', ''203.0.113.0/24'', ''240.0.0.0/4'',
      ''64:ff9b::/96'', ''64:ff9b:1::/48'', ''100::/64'', ''2001::/23'', ''2001:db8::/32'', ''2002::/16'', ''3fff::/20'', ''5f00::/16'']"

definition publicInternetAddress :: "addr \<Rightarrow> bool" where
  "publicInternetAddress address =
     (if \<not> addr_IsGlobalUnicast address \<or> addr_IsPrivate address \<or> addr_IsLoopback address \<or> addr_IsLinkLocalUnicast address \<or>
         addr_IsMulticast address \<or> addr_IsUnspecified address then False
      else \<not> list_ex (\<lambda>prefix. prefix_Contains prefix address) prohibitedInternetPrefixes)"

definition maximumResolvedAddresses :: nat where
  "maximumResolvedAddresses = 8"

datatype address_error = AddressCount nat | AddressFamilyMismatch addr family | AddressNotPublic addr | NoUniqueAddress

fun validateLoop :: "family \<Rightarrow> addr list \<Rightarrow> addr list \<Rightarrow> (address_error, addr list) result" where
  "validateLoop family addresses [] = Inr addresses"
| "validateLoop family addresses (v # vs) =
     (let address = addr_Unmap v in
      if \<not> addr_IsValid address \<or> addr_Zone address \<noteq> [] \<or> FamilyOfAddress address \<noteq> family then Inl (AddressFamilyMismatch v family)
      else if \<not> publicInternetAddress address then Inl (AddressNotPublic address)
      else if address \<in> set addresses then validateLoop family addresses vs
      else validateLoop family (addresses @ [address]) vs)"

definition validateResolvedAddresses :: "addr list \<Rightarrow> family \<Rightarrow> (address_error, addr list) result" where
  "validateResolvedAddresses vs family =
     (if vs = [] \<or> length vs > maximumResolvedAddresses then Inl (AddressCount (length vs))
      else case validateLoop family [] vs of
        Inl e \<Rightarrow> Inl e
      | Inr addresses \<Rightarrow> if addresses = [] then Inl NoUniqueAddress else Inr (sort_func addr_Compare addresses))"

section \<open>Endpoints\<close>

definition label_ok :: "string \<Rightarrow> bool" where
  "label_ok label \<longleftrightarrow> label \<noteq> [] \<and> length label \<le> 63 \<and> hd label \<noteq> CHR ''-'' \<and> last label \<noteq> CHR ''-'' \<and>
     list_all (\<lambda>c. ascii_lower c \<or> ascii_digit c \<or> c = CHR ''-'') label"

definition validDNSName :: "string \<Rightarrow> bool" where
  "validDNSName name \<longleftrightarrow> name \<noteq> [] \<and> length name \<le> 253 \<and> last name \<noteq> CHR ''.'' \<and> list_all label_ok (split_on CHR ''.'' name)"

definition JoinHostPort :: "string \<Rightarrow> string \<Rightarrow> string" where
  "JoinHostPort host port =
     (if CHR '':'' \<in> set host then CHR ''['' # host @ '']:'' @ port else host @ CHR '':'' # port)"

record endpoint =
  ep_url :: url
  ep_hostname :: string
  ep_port :: string
  ep_family :: family

datatype endpoint_error =
    EndpointFragment | EndpointInvalid url_error | EndpointScheme | EndpointExtras | EndpointHost | EndpointLiteral | EndpointPort
  | EndpointPath

definition parseEndpoint :: "(string \<Rightarrow> string) \<Rightarrow> string \<Rightarrow> family \<Rightarrow> (endpoint_error, endpoint) result" where
  "parseEndpoint unicode text family =
     (if Contains text ''#'' then Inl EndpointFragment
      else case ParseRequestURI text of
        Inl e \<Rightarrow> Inl (EndpointInvalid e)
      | Inr parsed \<Rightarrow>
          if u_Scheme parsed \<noteq> ''https'' \<or> u_Opaque parsed \<noteq> [] then Inl EndpointScheme
          else if u_User parsed \<noteq> None \<or> u_RawQuery parsed \<noteq> [] \<or> u_ForceQuery parsed \<or> u_Fragment parsed \<noteq> [] then Inl EndpointExtras
          else let hostname = ToLower unicode (url_Hostname parsed) in
            if \<not> validDNSName hostname then Inl EndpointHost
            else if ParseAddr hostname \<noteq> None then Inl EndpointLiteral
            else let explicitPort = url_Port parsed in
              if explicitPort \<noteq> [] \<and> explicitPort \<noteq> ''443'' then Inl EndpointPort
              else if u_Path parsed = [] \<or> \<not> HasPrefix (url_EscapedPath parsed) ''/'' then Inl EndpointPath
              else let portNumber = (if explicitPort = [] then ''443'' else explicitPort) in
                Inr \<lparr>ep_url = parsed\<lparr>u_Scheme := ''https'',
                       u_Host := (if explicitPort \<noteq> [] then JoinHostPort hostname portNumber else hostname)\<rparr>,
                     ep_hostname = hostname, ep_port = portNumber, ep_family = family\<rparr>)"

record prober =
  pb_endpoints :: "family \<rightharpoonup> endpoint"
  pb_timeout :: duration

datatype prober_error = ProberTimeout | ProberEndpoint family endpoint_error

definition New :: "(string \<Rightarrow> string) \<Rightarrow> string \<Rightarrow> string \<Rightarrow> duration \<Rightarrow> (prober_error, prober) result" where
  "New unicode ipv4URL ipv6URL timeout =
     (if timeout \<le> 0 then Inl ProberTimeout
      else case parseEndpoint unicode ipv4URL IPv4 of
        Inl e \<Rightarrow> Inl (ProberEndpoint IPv4 e)
      | Inr ipv4 \<Rightarrow>
          (case parseEndpoint unicode ipv6URL IPv6 of
             Inl e \<Rightarrow> Inl (ProberEndpoint IPv6 e)
           | Inr ipv6 \<Rightarrow> Inr \<lparr>pb_endpoints = [IPv4 \<mapsto> ipv4, IPv6 \<mapsto> ipv6], pb_timeout = timeout\<rparr>))"

section \<open>Probes\<close>

record response =
  rsp_StatusCode :: int
  rsp_Body :: string
  rsp_BodyError :: "port_error option"

text \<open>What the client ends with: an error, a redirect it asks \<^verbatim>\<open>CheckRedirect\<close> about, or a response.\<close>

datatype client_answer = ClientError port_error | Redirected response | Responded response

datatype probe_call =
    Lookup string string "(port_error, addr list) result"
  | Dial string string link_identity "32 word" "port_error option"
  | DialContextErr "port_error option"
  | NewRequest string "port_error option"
  | Do string client_answer

type_synonym probe_history = "probe_call list"

record probe_env =
  pe_Lookup :: "probe_history \<Rightarrow> string \<Rightarrow> string \<Rightarrow> (port_error, addr list) result"
  pe_Dial :: "probe_history \<Rightarrow> string \<Rightarrow> string \<Rightarrow> port_error option"
  pe_ContextErr :: "probe_history \<Rightarrow> port_error option"
  pe_NewRequest :: "probe_history \<Rightarrow> string \<Rightarrow> port_error option"
  pe_Dials :: "probe_history \<Rightarrow> nat"
  pe_Do :: "probe_history \<Rightarrow> string \<Rightarrow> client_answer"

datatype probe_error =
    ProbeContextNil
  | ProbeRequestInvalid probe_request_error
  | ProbeNoEndpoint family
  | ProbeFamily family
  | ProbeResolve port_error
  | ProbeAddresses address_error
  | ProbeBuild port_error
  | ProbeExecute port_error
  | ProbeRedirect
  | ProbeStatus int
  | ProbeRead port_error
  | ProbeBodyNotEmpty

definition resolve :: "probe_env \<Rightarrow> endpoint \<Rightarrow> (probe_history, probe_error + addr list) state" where
  "resolve env target =
     (let lookup = (\<lambda>network.
        chain (on_error ProbeResolve (outside (\<lambda>h. pe_Lookup env h network (ep_hostname target)) (Lookup network (ep_hostname target))))
          (\<lambda>addresses.
             case validateResolvedAddresses addresses (ep_family target) of
               Inl e \<Rightarrow> fail (ProbeAddresses e)
             | Inr validated \<Rightarrow> ok validated))
      in if ep_family target = IPv4 then lookup ''ip4''
         else if ep_family target = IPv6 then lookup ''ip6''
         else fail (ProbeFamily (ep_family target)))"

fun dialLoop :: "probe_env \<Rightarrow> probe_request \<Rightarrow> endpoint \<Rightarrow> string \<Rightarrow> port_error list \<Rightarrow> addr list \<Rightarrow> (probe_history, port_error list + unit) state" where
  "dialLoop env request target network dialErrors [] = fail dialErrors"
| "dialLoop env request target network dialErrors (address # addresses) =
     do { err \<leftarrow> outside (\<lambda>h. pe_Dial env h network (JoinHostPort (addr_String address) (ep_port target)))
            (Dial network (JoinHostPort (addr_String address) (ep_port target)) (pr_ProxyLink request) (pr_PacketMark request));
          case err of
            None \<Rightarrow> ok ()
          | Some e \<Rightarrow>
              do { ended \<leftarrow> outside (pe_ContextErr env) DialContextErr;
                   if ended \<noteq> None then fail (dialErrors @ [e])
                   else dialLoop env request target network (dialErrors @ [e]) addresses } }"

definition pinnedDialContext :: "probe_env \<Rightarrow> probe_request \<Rightarrow> endpoint \<Rightarrow> addr list \<Rightarrow> (probe_history, port_error list + unit) state" where
  "pinnedDialContext env request target addresses =
     dialLoop env request target (if pr_Family request = IPv6 then ''tcp6'' else ''tcp4'') [] addresses"

primrec useDial :: "nat \<Rightarrow> (probe_history, 'a) state \<Rightarrow> (probe_history, unit) state" where
  "useDial 0 dial = State_Monad.return ()"
| "useDial (Suc n) dial = do { _ \<leftarrow> dial; useDial n dial }"

definition client_Do :: "probe_env \<Rightarrow> string \<Rightarrow> (probe_history, 'a) state \<Rightarrow> (probe_history, probe_error + response) state" where
  "client_Do env target dial =
     do { n \<leftarrow> State (\<lambda>h. (pe_Dials env h, h));
          _ \<leftarrow> useDial n dial;
          answer \<leftarrow> outside (\<lambda>h. pe_Do env h target) (Do target);
          case answer of
            ClientError e \<Rightarrow> fail (ProbeExecute e)
          | Redirected _ \<Rightarrow> fail ProbeRedirect
          | Responded response \<Rightarrow> ok response }"

text \<open>\<^verbatim>\<open>io.ReadAll(io.LimitReader(body, 2))\<close>: an error after the second byte is not seen.\<close>

definition readLimited :: "response \<Rightarrow> (port_error, string) result" where
  "readLimited response =
     (if length (rsp_Body response) \<ge> 2 then Inr (take 2 (rsp_Body response))
      else case rsp_BodyError response of Some e \<Rightarrow> Inl e | None \<Rightarrow> Inr (rsp_Body response))"

definition judgeResponse :: "response \<Rightarrow> probe_error option" where
  "judgeResponse response =
     (if rsp_StatusCode response \<noteq> 204 then Some (ProbeStatus (rsp_StatusCode response))
      else case readLimited response of
        Inl e \<Rightarrow> Some (ProbeRead e)
      | Inr body \<Rightarrow> if length body \<noteq> 0 then Some ProbeBodyNotEmpty else None)"

definition Probe :: "probe_env \<Rightarrow> prober \<Rightarrow> bool \<Rightarrow> probe_request \<Rightarrow> (probe_history, probe_error + unit) state" where
  "Probe env prober ctxNil request =
     (if ctxNil then fail ProbeContextNil
      else case probe_request_Validate request of
        Some e \<Rightarrow> fail (ProbeRequestInvalid e)
      | None \<Rightarrow>
          (case pb_endpoints prober (pr_Family request) of
             None \<Rightarrow> fail (ProbeNoEndpoint (pr_Family request))
           | Some target \<Rightarrow>
               chain (resolve env target) (\<lambda>addresses.
               chain (on_error ProbeBuild (check (outside (\<lambda>h. pe_NewRequest env h (url_HostString (ep_url target)))
                        (NewRequest (url_HostString (ep_url target)))))) (\<lambda>_.
               chain (client_Do env (url_HostString (ep_url target)) (pinnedDialContext env request target addresses)) (\<lambda>response.
               require (judgeResponse response))))))"

text \<open>
  The dialer of a probe prepares its socket before it connects: the mark first, then the device; an error of the control call
  itself hides theirs.
\<close>

datatype socket_error = SocketControlFailed port_error | SetMarkFailed port_error | BindDeviceFailed port_error

definition controlSocket :: "port_error option \<Rightarrow> (32 word \<Rightarrow> port_error option) \<Rightarrow> (string \<Rightarrow> port_error option) \<Rightarrow> link_identity \<Rightarrow> 32 word
    \<Rightarrow> socket_error option" where
  "controlSocket controlErr setMark bindToDevice proxyLink packetMark =
     (let socketErr =
        (case setMark packetMark of
           Some e \<Rightarrow> Some (SetMarkFailed e)
         | None \<Rightarrow> map_option BindDeviceFailed (bindToDevice (link_Name proxyLink)))
      in case controlErr of Some e \<Rightarrow> Some (SocketControlFailed e) | None \<Rightarrow> socketErr)"

lemma controlSocket_None:
  "controlSocket controlErr setMark bindToDevice proxyLink packetMark = None \<longleftrightarrow>
     controlErr = None \<and> setMark packetMark = None \<and> bindToDevice (link_Name proxyLink) = None"
  by (simp add: controlSocket_def Let_def split: option.split)

section \<open>The addresses a probe may contact\<close>

text \<open>
  The special-purpose blocks as the first and last address of each, in the order of the addresses. IPv4: this network, private use, shared address space,
  loopback, link local, private use, protocol assignments, documentation, AS112, multicast tunnelling, relay anycast, private use, AS112, benchmarking, documentation,
  documentation, multicast, reserved and broadcast. IPv6: unspecified and loopback, translation, local translation, discard only, protocol assignments,
  documentation, 6to4, documentation, segment routing, unique local, link local, multicast.
\<close>

definition specialPurposeIPv4 :: "(32 word \<times> 32 word) list" where
  "specialPurposeIPv4 =
     [(0x00000000, 0x00FFFFFF), (0x0A000000, 0x0AFFFFFF), (0x64400000, 0x647FFFFF),
      (0x7F000000, 0x7FFFFFFF), (0xA9FE0000, 0xA9FEFFFF), (0xAC100000, 0xAC1FFFFF),
      (0xC0000000, 0xC00000FF), (0xC0000200, 0xC00002FF), (0xC01FC400, 0xC01FC4FF),
      (0xC034C100, 0xC034C1FF), (0xC0586300, 0xC05863FF), (0xC0A80000, 0xC0A8FFFF),
      (0xC0AF3000, 0xC0AF30FF), (0xC6120000, 0xC613FFFF), (0xC6336400, 0xC63364FF),
      (0xCB007100, 0xCB0071FF), (0xE0000000, 0xEFFFFFFF), (0xF0000000, 0xFFFFFFFF)]"

definition specialPurposeIPv6 :: "(128 word \<times> 128 word) list" where
  "specialPurposeIPv6 =
     [(0, 0),
      (1, 1),
      (0x0064FF9B000000000000000000000000, 0x0064FF9B0000000000000000FFFFFFFF),
      (0x0064FF9B000100000000000000000000, 0x0064FF9B0001FFFFFFFFFFFFFFFFFFFF),
      (0x01000000000000000000000000000000, 0x0100000000000000FFFFFFFFFFFFFFFF),
      (0x20010000000000000000000000000000, 0x200101FFFFFFFFFFFFFFFFFFFFFFFFFF),
      (0x20010DB8000000000000000000000000, 0x20010DB8FFFFFFFFFFFFFFFFFFFFFFFF),
      (0x20020000000000000000000000000000, 0x2002FFFFFFFFFFFFFFFFFFFFFFFFFFFF),
      (0x3FFF0000000000000000000000000000, 0x3FFF0FFFFFFFFFFFFFFFFFFFFFFFFFFF),
      (0x5F000000000000000000000000000000, 0x5F00FFFFFFFFFFFFFFFFFFFFFFFFFFFF),
      (0xFC000000000000000000000000000000, 0xFDFFFFFFFFFFFFFFFFFFFFFFFFFFFFFF),
      (0xFE800000000000000000000000000000, 0xFEBFFFFFFFFFFFFFFFFFFFFFFFFFFFFF),
      (0xFF000000000000000000000000000000, 0xFFFFFFFFFFFFFFFFFFFFFFFFFFFFFFFF)]"

lemma prohibited_prefixes:
  "prohibitedInternetPrefixes =
     [PrefixFrom (Addr4 0) 8, PrefixFrom (Addr4 0x64400000) 10, PrefixFrom (Addr4 0xC0000000) 24, PrefixFrom (Addr4 0xC0000200) 24,
      PrefixFrom (Addr4 0xC01FC400) 24, PrefixFrom (Addr4 0xC034C100) 24, PrefixFrom (Addr4 0xC0586300) 24, PrefixFrom (Addr4 0xC0AF3000) 24,
      PrefixFrom (Addr4 0xC6120000) 15, PrefixFrom (Addr4 0xC6336400) 24, PrefixFrom (Addr4 0xCB007100) 24, PrefixFrom (Addr4 0xF0000000) 4,
      PrefixFrom (Addr6 0x0064FF9B000000000000000000000000 []) 96, PrefixFrom (Addr6 0x0064FF9B000100000000000000000000 []) 48,
      PrefixFrom (Addr6 0x01000000000000000000000000000000 []) 64, PrefixFrom (Addr6 0x20010000000000000000000000000000 []) 23,
      PrefixFrom (Addr6 0x20010DB8000000000000000000000000 []) 32, PrefixFrom (Addr6 0x20020000000000000000000000000000 []) 16,
      PrefixFrom (Addr6 0x3FFF0000000000000000000000000000 []) 20, PrefixFrom (Addr6 0x5F000000000000000000000000000000 []) 16]"
  by code_simp

lemma Contains_From:
  "b \<le> 32 \<Longrightarrow> prefix_Contains (PrefixFrom (Addr4 n) (int b)) (Addr4 x) \<longleftrightarrow> drop_bit (32 - b) x = drop_bit (32 - b) n"
  "b \<le> 128 \<Longrightarrow> prefix_Contains (PrefixFrom (Addr6 m []) (int b)) (Addr6 y []) \<longleftrightarrow> drop_bit (128 - b) y = drop_bit (128 - b) m"
  by (simp_all add: PrefixFrom_def)

lemma Contains_From4:
  "numeral k \<le> (32::nat) \<Longrightarrow>
   prefix_Contains (PrefixFrom (Addr4 n) (numeral k)) (Addr4 x) \<longleftrightarrow> drop_bit (32 - numeral k) x = drop_bit (32 - numeral k) n"
  by (metis Contains_From(1) of_nat_numeral)

lemma Contains_From6:
  "numeral k \<le> (128::nat) \<Longrightarrow>
   prefix_Contains (PrefixFrom (Addr6 n []) (numeral k)) (Addr6 x []) \<longleftrightarrow> drop_bit (128 - numeral k) x = drop_bit (128 - numeral k) n"
  by (metis Contains_From(2) of_nat_numeral)

lemma Contains_From_mixed:
  "\<not> prefix_Contains (PrefixFrom (Addr4 n) b) (Addr6 x z)" "\<not> prefix_Contains (PrefixFrom (Addr6 m []) b) (Addr4 y)"
  by (simp_all add: PrefixFrom_def)

text \<open>The addresses that share their leading bits are a range.\<close>

lemma div_range: "0 < d \<Longrightarrow> m div d = q \<longleftrightarrow> q * d \<le> m \<and> m \<le> q * d + (d - 1)" for m d q :: nat
proof
  assume "0 < d" "m div d = q"
  then show "q * d \<le> m \<and> m \<le> q * d + (d - 1)"
    using div_times_less_eq_dividend [of m d] dividend_less_div_times [of d m] by auto
next
  assume "0 < d" "q * d \<le> m \<and> m \<le> q * d + (d - 1)"
  then show "m div d = q" by (intro div_nat_eqI) (auto simp: mult.commute)
qed

lemma block_range:
  assumes "unat lo = unat c * 2 ^ k" "unat hi = unat c * 2 ^ k + (2 ^ k - 1)"
  shows "drop_bit k v = c \<longleftrightarrow> lo \<le> v \<and> v \<le> hi"
proof -
  have "drop_bit k v = c \<longleftrightarrow> unat v div 2 ^ k = unat c"
    by (metis drop_bit_eq_div unat_drop_bit_eq word_unat_eq_iff)
  also have "\<dots> \<longleftrightarrow> unat lo \<le> unat v \<and> unat v \<le> unat hi"
    unfolding assms by (rule div_range) simp
  finally show ?thesis by (simp add: word_le_nat_alt)
qed

lemma contains_range4:
  assumes "numeral k \<le> (32::nat)" "unat n = unat (drop_bit (32 - numeral k) n) * 2 ^ (32 - numeral k)"
    "unat hi = unat (drop_bit (32 - numeral k) n) * 2 ^ (32 - numeral k) + (2 ^ (32 - numeral k) - 1)"
  shows "prefix_Contains (PrefixFrom (Addr4 n) (numeral k)) (Addr4 v) \<longleftrightarrow> n \<le> v \<and> v \<le> hi"
  unfolding Contains_From4 [OF assms(1)] by (rule block_range [OF assms(2,3)])

lemma contains_range6:
  assumes "numeral k \<le> (128::nat)" "unat n = unat (drop_bit (128 - numeral k) n) * 2 ^ (128 - numeral k)"
    "unat hi = unat (drop_bit (128 - numeral k) n) * 2 ^ (128 - numeral k) + (2 ^ (128 - numeral k) - 1)"
  shows "prefix_Contains (PrefixFrom (Addr6 n []) (numeral k)) (Addr6 v []) \<longleftrightarrow> n \<le> v \<and> v \<le> hi"
  unfolding Contains_From6 [OF assms(1)] by (rule block_range [OF assms(2,3)])

lemma blocks_IPv4:
  fixes v :: "32 word"
  shows
  "drop_bit 24 v = 10 \<longleftrightarrow> 0x0A000000 \<le> v \<and> v \<le> 0x0AFFFFFF"
  "drop_bit 20 v = 2753 \<longleftrightarrow> 0xAC100000 \<le> v \<and> v \<le> 0xAC1FFFFF"
  "drop_bit 16 v = 49320 \<longleftrightarrow> 0xC0A80000 \<le> v \<and> v \<le> 0xC0A8FFFF"
  "drop_bit 24 v = 127 \<longleftrightarrow> 0x7F000000 \<le> v \<and> v \<le> 0x7FFFFFFF"
  "drop_bit 16 v = 43518 \<longleftrightarrow> 0xA9FE0000 \<le> v \<and> v \<le> 0xA9FEFFFF"
  "drop_bit 28 v = 14 \<longleftrightarrow> 0xE0000000 \<le> v \<and> v \<le> 0xEFFFFFFF"
  by (rule block_range; simp)+

lemma blocks_IPv6:
  fixes v :: "128 word"
  shows
  "drop_bit 121 v = 126 \<longleftrightarrow> 0xFC000000000000000000000000000000 \<le> v \<and> v \<le> 0xFDFFFFFFFFFFFFFFFFFFFFFFFFFFFFFF"
  "drop_bit 118 v = 1018 \<longleftrightarrow> 0xFE800000000000000000000000000000 \<le> v \<and> v \<le> 0xFEBFFFFFFFFFFFFFFFFFFFFFFFFFFFFF"
  "drop_bit 120 v = 255 \<longleftrightarrow> 0xFF000000000000000000000000000000 \<le> v \<and> v \<le> 0xFFFFFFFFFFFFFFFFFFFFFFFFFFFFFFFF"
  by (rule block_range; simp)+

lemma prohibited_IPv4:
  "prefix_Contains (PrefixFrom (Addr4 0) 8) (Addr4 v) \<longleftrightarrow> 0 \<le> v \<and> v \<le> 0x00FFFFFF"
  "prefix_Contains (PrefixFrom (Addr4 0x64400000) 10) (Addr4 v) \<longleftrightarrow> 0x64400000 \<le> v \<and> v \<le> 0x647FFFFF"
  "prefix_Contains (PrefixFrom (Addr4 0xC0000000) 24) (Addr4 v) \<longleftrightarrow> 0xC0000000 \<le> v \<and> v \<le> 0xC00000FF"
  "prefix_Contains (PrefixFrom (Addr4 0xC0000200) 24) (Addr4 v) \<longleftrightarrow> 0xC0000200 \<le> v \<and> v \<le> 0xC00002FF"
  "prefix_Contains (PrefixFrom (Addr4 0xC01FC400) 24) (Addr4 v) \<longleftrightarrow> 0xC01FC400 \<le> v \<and> v \<le> 0xC01FC4FF"
  "prefix_Contains (PrefixFrom (Addr4 0xC034C100) 24) (Addr4 v) \<longleftrightarrow> 0xC034C100 \<le> v \<and> v \<le> 0xC034C1FF"
  "prefix_Contains (PrefixFrom (Addr4 0xC0586300) 24) (Addr4 v) \<longleftrightarrow> 0xC0586300 \<le> v \<and> v \<le> 0xC05863FF"
  "prefix_Contains (PrefixFrom (Addr4 0xC0AF3000) 24) (Addr4 v) \<longleftrightarrow> 0xC0AF3000 \<le> v \<and> v \<le> 0xC0AF30FF"
  "prefix_Contains (PrefixFrom (Addr4 0xC6120000) 15) (Addr4 v) \<longleftrightarrow> 0xC6120000 \<le> v \<and> v \<le> 0xC613FFFF"
  "prefix_Contains (PrefixFrom (Addr4 0xC6336400) 24) (Addr4 v) \<longleftrightarrow> 0xC6336400 \<le> v \<and> v \<le> 0xC63364FF"
  "prefix_Contains (PrefixFrom (Addr4 0xCB007100) 24) (Addr4 v) \<longleftrightarrow> 0xCB007100 \<le> v \<and> v \<le> 0xCB0071FF"
  "prefix_Contains (PrefixFrom (Addr4 0xF0000000) 4) (Addr4 v) \<longleftrightarrow> 0xF0000000 \<le> v \<and> v \<le> 0xFFFFFFFF"
  by (rule contains_range4; simp add: drop_bit_eq_div)+

lemma prohibited_IPv6:
  "prefix_Contains (PrefixFrom (Addr6 0x0064FF9B000000000000000000000000 []) 96) (Addr6 v []) \<longleftrightarrow> 0x0064FF9B000000000000000000000000 \<le> v \<and> v \<le> 0x0064FF9B0000000000000000FFFFFFFF"
  "prefix_Contains (PrefixFrom (Addr6 0x0064FF9B000100000000000000000000 []) 48) (Addr6 v []) \<longleftrightarrow> 0x0064FF9B000100000000000000000000 \<le> v \<and> v \<le> 0x0064FF9B0001FFFFFFFFFFFFFFFFFFFF"
  "prefix_Contains (PrefixFrom (Addr6 0x01000000000000000000000000000000 []) 64) (Addr6 v []) \<longleftrightarrow> 0x01000000000000000000000000000000 \<le> v \<and> v \<le> 0x0100000000000000FFFFFFFFFFFFFFFF"
  "prefix_Contains (PrefixFrom (Addr6 0x20010000000000000000000000000000 []) 23) (Addr6 v []) \<longleftrightarrow> 0x20010000000000000000000000000000 \<le> v \<and> v \<le> 0x200101FFFFFFFFFFFFFFFFFFFFFFFFFF"
  "prefix_Contains (PrefixFrom (Addr6 0x20010DB8000000000000000000000000 []) 32) (Addr6 v []) \<longleftrightarrow> 0x20010DB8000000000000000000000000 \<le> v \<and> v \<le> 0x20010DB8FFFFFFFFFFFFFFFFFFFFFFFF"
  "prefix_Contains (PrefixFrom (Addr6 0x20020000000000000000000000000000 []) 16) (Addr6 v []) \<longleftrightarrow> 0x20020000000000000000000000000000 \<le> v \<and> v \<le> 0x2002FFFFFFFFFFFFFFFFFFFFFFFFFFFF"
  "prefix_Contains (PrefixFrom (Addr6 0x3FFF0000000000000000000000000000 []) 20) (Addr6 v []) \<longleftrightarrow> 0x3FFF0000000000000000000000000000 \<le> v \<and> v \<le> 0x3FFF0FFFFFFFFFFFFFFFFFFFFFFFFFFF"
  "prefix_Contains (PrefixFrom (Addr6 0x5F000000000000000000000000000000 []) 16) (Addr6 v []) \<longleftrightarrow> 0x5F000000000000000000000000000000 \<le> v \<and> v \<le> 0x5F00FFFFFFFFFFFFFFFFFFFFFFFFFFFF"
  by (rule contains_range6; simp add: drop_bit_eq_div)+

lemmas address_classes = addr_IsGlobalUnicast_def addr_IsPrivate_def addr_IsLoopback_def addr_IsLinkLocalUnicast_def addr_IsUnspecified_def
  IPv4Unspecified_def IPv6Unspecified_def

text \<open>
  C24: a probe may contact an IPv4 address exactly when it lies in none of the special-purpose IPv4 ranges, and an IPv6 address
  without a zone that is not an IPv4-mapped one exactly when it lies in none of the special-purpose IPv6 ranges. Addresses are unmapped before
  the check.
\<close>

theorem publicInternetAddress_exact:
  "(publicInternetAddress (Addr4 v) \<longleftrightarrow> \<not> list_ex (\<lambda>(lo, hi). lo \<le> v \<and> v \<le> hi) specialPurposeIPv4) \<and>
   (\<not> addr_Is4In6 (Addr6 w []) \<longrightarrow>
     (publicInternetAddress (Addr6 w []) \<longleftrightarrow> \<not> list_ex (\<lambda>(lo, hi). lo \<le> w \<and> w \<le> hi) specialPurposeIPv6))"
proof (intro conjI impI)
  show "publicInternetAddress (Addr4 v) \<longleftrightarrow> \<not> list_ex (\<lambda>(lo, hi). lo \<le> v \<and> v \<le> hi) specialPurposeIPv4"
    unfolding publicInternetAddress_def prohibited_prefixes specialPurposeIPv4_def
    by (auto simp: prohibited_IPv4 blocks_IPv4 Contains_From_mixed address_classes)
next
  assume "\<not> addr_Is4In6 (Addr6 w [])"
  then show "publicInternetAddress (Addr6 w []) \<longleftrightarrow> \<not> list_ex (\<lambda>(lo, hi). lo \<le> w \<and> w \<le> hi) specialPurposeIPv6"
    unfolding publicInternetAddress_def prohibited_prefixes specialPurposeIPv6_def
    by (auto simp: prohibited_IPv6 blocks_IPv6 Contains_From_mixed address_classes)
qed

section \<open>What a probe contacts\<close>

lemma validateLoop_public:
  assumes "validateLoop family seen vs = Inr addresses"
    and "\<forall>a \<in> set seen. publicInternetAddress a \<and> FamilyOfAddress a = family \<and> a \<in> addr_Unmap ` S" "set vs \<subseteq> S"
  shows "\<forall>a \<in> set addresses. publicInternetAddress a \<and> FamilyOfAddress a = family \<and> a \<in> addr_Unmap ` S"
  using assms
proof (induction vs arbitrary: seen)
  case (Cons v vs)
  let ?a = "addr_Unmap v"
  from Cons.prems(1) have kept: "FamilyOfAddress ?a = family" "publicInternetAddress ?a"
    "validateLoop family (if ?a \<in> set seen then seen else seen @ [?a]) vs = Inr addresses"
    by (simp_all add: Let_def split: if_splits)
  show ?case by (rule Cons.IH [OF kept(3)]) (use Cons.prems kept in auto)
qed simp

lemma validateResolvedAddresses_public:
  assumes "validateResolvedAddresses vs family = Inr addresses" "a \<in> set addresses"
  shows "publicInternetAddress a \<and> FamilyOfAddress a = family \<and> a \<in> addr_Unmap ` set vs"
  using assms validateLoop_public [of family "[]" vs _ "set vs"]
  by (auto simp: validateResolvedAddresses_def addr_sort split: if_splits sum.splits)

text \<open>
  The calls that respect the pin: a dial goes to the endpoint's port on a public address of the requested family that the lookup
  of the endpoint's name returned, through the requested link and with the requested mark.
\<close>

definition pinned :: "probe_request \<Rightarrow> endpoint \<Rightarrow> probe_history \<Rightarrow> probe_call \<Rightarrow> bool" where
  "pinned request target calls call =
     (case call of
        Dial network address link packetMark _ \<Rightarrow>
          link = pr_ProxyLink request \<and> packetMark = pr_PacketMark request \<and>
          network = (if pr_Family request = IPv6 then ''tcp6'' else ''tcp4'') \<and>
          list_ex (\<lambda>c. case c of
              Lookup kind name (Inr found) \<Rightarrow>
                name = ep_hostname target \<and>
                list_ex (\<lambda>v. publicInternetAddress (addr_Unmap v) \<and> FamilyOfAddress v = pr_Family request \<and>
                  address = JoinHostPort (addr_String (addr_Unmap v)) ''443'') found
            | _ \<Rightarrow> False) calls
      | _ \<Rightarrow> True)"

lemma pinned_other [simp]:
  "pinned request target calls (Lookup k n r)" "pinned request target calls (DialContextErr e)"
  "pinned request target calls (NewRequest u e)" "pinned request target calls (Do u w)"
  by (simp_all add: pinned_def)

lemma pinned_dial:
  assumes "Lookup kind (ep_hostname target) (Inr found) \<in> set calls"
    and "validateResolvedAddresses found (pr_Family request) = Inr addresses" "a \<in> set addresses"
    and "ep_port target = ''443''"
  shows "pinned request target calls (Dial (if pr_Family request = IPv6 then ''tcp6'' else ''tcp4'')
     (JoinHostPort (addr_String a) (ep_port target)) (pr_ProxyLink request) (pr_PacketMark request) e)"
proof -
  from validateResolvedAddresses_public [OF assms(2,3)] obtain v where
    "v \<in> set found" "a = addr_Unmap v" "publicInternetAddress a" "FamilyOfAddress a = pr_Family request" by blast
  with assms(1,4) show ?thesis by (force simp: pinned_def list_ex_iff FamilyOfAddress_def)
qed

lemma dialLoop_grows:
  assumes "\<And>a e. a \<in> set addresses \<Longrightarrow>
     P (Dial network (JoinHostPort (addr_String a) (ep_port target)) (pr_ProxyLink request) (pr_PacketMark request) e)"
    and "\<And>e. P (DialContextErr e)" "grows P h0 h"
  shows "wp (dialLoop env request target network errs addresses) (\<lambda>_. grows P h0) h"
  using assms(1,3)
proof (induction addresses arbitrary: errs h)
  case (Cons a addresses)
  then have "wp (dialLoop env request target network errs' addresses) (\<lambda>_. grows P h0) h'" if "grows P h0 h'" for errs' h'
    using that by simp
  with Cons.prems show ?case by (auto simp: wp_cases grows_step assms(2) split: option.splits)
qed simp

lemma useDial_grows:
  assumes "\<And>h. grows P h0 h \<Longrightarrow> wp dial (\<lambda>_. grows P h0) h" "grows P h0 h"
  shows "wp (useDial n dial) (\<lambda>_. grows P h0) h"
  using assms(2) by (induction n arbitrary: h) (auto intro: wp_mono [OF assms(1)])

lemma pinned_mono: "pinned request target calls c \<Longrightarrow> set calls \<subseteq> set calls' \<Longrightarrow> pinned request target calls' c"
  by (cases c) (auto simp: pinned_def list_ex_iff)

lemma parseEndpoint_facts:
  assumes "parseEndpoint unicode text family = Inr target"
  shows "ep_family target = family" "ep_port target = ''443''" "validDNSName (ep_hostname target)" "ParseAddr (ep_hostname target) = None"
    "u_Scheme (ep_url target) = ''https''" "u_User (ep_url target) = None"
  using assms by (auto simp: parseEndpoint_def Let_def split: if_splits sum.splits)

lemma New_endpoint:
  assumes "New unicode ipv4URL ipv6URL timeout = Inr prober" "pb_endpoints prober family = Some target"
  shows "ep_family target = family" "ep_port target = ''443''"
  using assms parseEndpoint_facts(1,2)
  by (auto simp: New_def split: if_splits sum.splits)

lemma judgeResponse_None:
  "judgeResponse response = None \<longleftrightarrow> rsp_StatusCode response = 204 \<and> rsp_Body response = [] \<and> rsp_BodyError response = None"
  by (auto simp: judgeResponse_def readLimited_def split: if_splits option.splits sum.splits)

text \<open>What a successful probe has seen: an empty response with the status 204.\<close>

definition confirmed :: "probe_history \<Rightarrow> bool" where
  "confirmed calls = list_ex (\<lambda>c. case c of
     Do _ (Responded response) \<Rightarrow> rsp_StatusCode response = 204 \<and> rsp_Body response = [] \<and> rsp_BodyError response = None
   | _ \<Rightarrow> False) calls"

definition probe_post :: "probe_request \<Rightarrow> endpoint \<Rightarrow> probe_history \<Rightarrow> probe_error + unit \<Rightarrow> probe_history \<Rightarrow> bool" where
  "probe_post request target h r h' \<longleftrightarrow>
     (\<exists>calls. h' = calls @ h \<and> list_all (pinned request target calls) calls \<and> (r = Inr () \<longrightarrow> confirmed calls))"

lemma client_Do_post:
  assumes "grows (pinned request target [c]) h h1" "c \<in> set (take (length h1 - length h) h1)"
    and dial: "\<And>h'. grows (pinned request target [c]) h1 h' \<Longrightarrow> wp dial (\<lambda>_. grows (pinned request target [c]) h1) h'"
  shows "wp (chain (client_Do env text dial) (\<lambda>response. require (judgeResponse response))) (probe_post request target h) h1"
proof -
  have post: "probe_post request target h r (Do text answer # h2)"
    if "grows (pinned request target [c]) h1 h2" "r = Inr () \<Longrightarrow> confirmed [Do text answer]" for r answer h2
  proof -
    from that(1) assms(1) obtain xs ys where "h2 = xs @ h1" "h1 = ys @ h" "list_all (pinned request target [c]) (xs @ ys)"
      by (auto simp: grows_def)
    moreover from this assms(2) have "c \<in> set ys" by simp
    ultimately show ?thesis
      using that(2) unfolding probe_post_def
      by (intro exI [of _ "Do text answer # xs @ ys"]) (auto simp: list_all_iff confirmed_def intro: pinned_mono [of _ _ "[c]"])
  qed
  have answered: "wp (chain (do { answer \<leftarrow> outside (\<lambda>h. pe_Do env h text) (Do text);
           case answer of ClientError e \<Rightarrow> fail (ProbeExecute e) | Redirected _ \<Rightarrow> fail ProbeRedirect | Responded response \<Rightarrow> ok response })
         (\<lambda>response. require (judgeResponse response))) (probe_post request target h) h2"
    if "grows (pinned request target [c]) h1 h2" for h2
    by (cases "pe_Do env h2 text")
      (auto intro!: post [OF that] simp: confirmed_def judgeResponse_None split: option.splits)
  from wp_mono [OF useDial_grows [OF dial grows_refl, of "pe_Dials env h1"] answered] show ?thesis
    unfolding client_Do_def wp_chain wp_bind wp_State prod.case by assumption
qed

lemma resolve_post:
  assumes "ep_family target = pr_Family request" "ep_port target = ''443''"
    and "\<And>found addresses kind.
       validateResolvedAddresses found (pr_Family request) = Inr addresses \<Longrightarrow>
       wp (f addresses) (probe_post request target h) (Lookup kind (ep_hostname target) (Inr found) # h)"
  shows "wp (chain (resolve env target) f) (probe_post request target h) h"
proof -
  have early: "probe_post request target h (Inl e) (Lookup kind name r # h)" "probe_post request target h (Inl e) h" for e kind name r
    by (auto simp: probe_post_def intro: exI [of _ "[Lookup kind name r]"])
  show ?thesis
    using assms early by (auto simp: resolve_def Let_def wp_cases split: sum.splits)
qed

lemma Probe_post:
  assumes "New unicode ipv4URL ipv6URL timeout = Inr prober" "pb_endpoints prober (pr_Family request) = Some target"
  shows "wp (Probe env prober ctxNil request) (probe_post request target h) h"
proof -
  have none: "probe_post request target h (Inl e) h" for e by (simp add: probe_post_def)
  note target = New_endpoint [OF assms]
  let ?text = "url_HostString (ep_url target)"
  have build: "wp (chain (on_error ProbeBuild (check (outside (\<lambda>h. pe_NewRequest env h ?text) (NewRequest ?text)))) (\<lambda>_.
        chain (client_Do env ?text (pinnedDialContext env request target addresses)) (\<lambda>response. require (judgeResponse response))))
      (probe_post request target h) (Lookup kind (ep_hostname target) (Inr found) # h)"
    if valid: "validateResolvedAddresses found (pr_Family request) = Inr addresses" for found addresses kind
  proof (cases "pe_NewRequest env (Lookup kind (ep_hostname target) (Inr found) # h) ?text")
    case None
    let ?c = "Lookup kind (ep_hostname target) (Inr found)"
    have "wp (pinnedDialContext env request target addresses) (\<lambda>_. grows (pinned request target [?c]) h1) h'"
      if "grows (pinned request target [?c]) h1 h'" for h1 h'
      unfolding pinnedDialContext_def by (intro dialLoop_grows that pinned_dial [OF _ valid _ target(2)] pinned_other) simp_all
    then have "wp (chain (client_Do env ?text (pinnedDialContext env request target addresses)) (\<lambda>response. require (judgeResponse response)))
        (probe_post request target h) (NewRequest ?text None # ?c # h)"
      by (intro client_Do_post [of _ _ ?c]) (auto intro!: grows_step)
    with None show ?thesis by simp
  next
    case (Some e)
    then show ?thesis
      by (auto simp: probe_post_def intro!: exI [of _ "[NewRequest ?text (Some e), Lookup kind (ep_hostname target) (Inr found)]"])
  qed
  show ?thesis
    unfolding Probe_def using assms(2) none resolve_post [OF target build]
    by (auto simp del: wp_chain wp_on_error split: option.splits)
qed

text \<open>
  C23: However the lookup, the dialer and the HTTP client answer and however often the client dials, a probe dials only port 443 of public
  addresses of the requested family that the lookup of the endpoint's name returned, through the proxy link and with the packet mark
  of the request, and it succeeds only on an empty response with status 204.
\<close>

theorem Probe_pinned:
  assumes "New unicode ipv4URL ipv6URL timeout = Inr prober" "pb_endpoints prober (pr_Family request) = Some target"
    and "run_state (Probe env prober ctxNil request) [] = (r, calls)"
  shows "list_all (pinned request target calls) calls \<and> (r = Inr () \<longrightarrow> confirmed calls)"
  using wp_run [OF Probe_post [OF assms(1,2)] assms(3)] by (auto simp: probe_post_def)

section \<open>Reading endpoints\<close>

definition path_char :: "char \<Rightarrow> bool" where
  "path_char c \<longleftrightarrow> unreserved c \<or> c = CHR ''/''"

lemma reserved_marks: "c \<in> set ''#?%@[]:'' \<Longrightarrow> \<not> path_char c" "\<not> unreserved CHR ''/''"
  by (auto simp: path_char_def unreserved_def ascii_letter_def ascii_digit_def less_eq_char_def)

lemma path_char_text: "path_char c \<Longrightarrow> ascii c \<and> \<not> url_control_byte c"
  by (auto simp: path_char_def unreserved_def ascii_letter_def ascii_digit_def less_eq_char_def ascii_def url_control_byte_def)

lemma lower_text:
  "ascii_lower c \<Longrightarrow> unreserved c \<and> lower_char c = c" "ascii_digit c \<Longrightarrow> unreserved c \<and> lower_char c = c"
  "unreserved CHR ''-'' \<and> lower_char CHR ''-'' = CHR ''-''" "unreserved CHR ''.'' \<and> lower_char CHR ''.'' = CHR ''.''"
  by (simp_all add: unreserved_def ascii_letter_def ascii_lower_def ascii_digit_def lower_char_def less_eq_char_def)

lemma hostname_chars:
  assumes "validDNSName h" "c \<in> set h"
  shows "unreserved c \<and> lower_char c = c"
proof -
  from assms(1) have labels: "list_all label_ok (split_on CHR ''.'' h)" by (simp add: validDNSName_def)
  have "set h \<subseteq> insert CHR ''.'' (\<Union> (set ` set (split_on CHR ''.'' h)))"
    using join_with_chars [of "split_on CHR ''.'' h" "CHR ''.''"] by (simp add: join_split)
  with assms(2) have "c = CHR ''.'' \<or> (\<exists>label \<in> set (split_on CHR ''.'' h). c \<in> set label)" by blast
  then have "ascii_lower c \<or> ascii_digit c \<or> c = CHR ''-'' \<or> c = CHR ''.''"
    using labels by (auto simp: label_ok_def list_all_iff)
  then show ?thesis using lower_text by blast
qed

lemma index_absent: "c \<notin> set s \<Longrightarrow> index_of c s = None \<and> last_index_of c s = None"
proof -
  have "c \<notin> set s \<Longrightarrow> index_of c s = None" for s by (induction s) auto
  then show "c \<notin> set s \<Longrightarrow> ?thesis" by (simp add: last_index_of_def)
qed

lemma path_text:
  assumes "list_all path_char p"
  shows "unescape encodePath p = Some p \<and> escape encodePath p = p"
  using assms
proof (induction p)
  case (Cons c p)
  then have c: "c \<noteq> CHR ''%''" "unreserved c \<or> c = CHR ''/''" using reserved_marks(1) by (auto simp: path_char_def)
  moreover have "\<not> shouldEscape encodePath CHR ''/''" by (simp add: shouldEscape_def)
  ultimately have "\<not> shouldEscape encodePath c" using unreserved_plain by blast
  with Cons c show ?case by (simp add: escape_def)
qed (simp add: escape_def)

lemma parse_plain_host:
  assumes "validDNSName h"
  shows "parseAuthority h = Inr (None, h)" "splitURLHostPort h = (h, [])"
proof -
  have plain: "list_all unreserved h" using hostname_chars [OF assms] by (simp add: list_all_iff)
  have "c \<notin> set h" if "c \<in> set ''@[]:''" for c
    using that reserved_marks(1) [of c] plain by (auto simp: list_all_iff path_char_def)
  then have absent: "CHR ''@'' \<notin> set h" "CHR ''['' \<notin> set h" "CHR '':'' \<notin> set h" by simp_all
  then show "parseAuthority h = Inr (None, h)"
    by (simp add: parseAuthority_def parseHost_def index_absent unescape_unreserved plain)
  from absent have "h \<noteq> [] \<Longrightarrow> hd h \<noteq> CHR ''[''" by (metis list.set_sel(1))
  with absent show "splitURLHostPort h = (h, [])"
    by (auto simp: splitURLHostPort_def index_absent)
qed

lemma splitQuery_plain: "CHR ''?'' \<notin> set s \<Longrightarrow> splitQuery u s = (u\<lparr>u_RawQuery := []\<rparr>, s)"
  by (cases s rule: rev_cases) (auto simp: splitQuery_def Cut_def)

lemma cut_at:
  "c \<notin> set s \<Longrightarrow> takeWhile (\<lambda>x. x \<noteq> c) (s @ c # t) = s" "c \<notin> set s \<Longrightarrow> dropWhile (\<lambda>x. x \<noteq> c) (s @ c # t) = c # t"
  by (induction s) auto

lemma no_mark: "c \<notin> set s \<Longrightarrow> \<not> Contains s [c]"
  by (induction s) (auto simp: HasPrefix_def)

text \<open>
  An endpoint written with a lower-case host name that is no address literal and a path of plain characters is accepted, and the
  request goes to exactly the text that was configured.
\<close>

lemma endpoint_roundtrip:
  assumes "validDNSName h" "ParseAddr h = None" "list_all path_char path"
  defines "text \<equiv> ''https://'' @ h @ CHR ''/'' # path"
  shows "\<exists>target. parseEndpoint unicode text family = Inr target \<and> ep_hostname target = h \<and> ep_port target = ''443'' \<and>
     ep_family target = family \<and> url_HostString (ep_url target) = text"
proof -
  have host: "list_all path_char h" "\<forall>c \<in> set h. unreserved c \<and> lower_char c = c"
    using hostname_chars [OF assms(1)] by (auto simp: list_all_iff path_char_def)
  have full: "list_all path_char (CHR ''/'' # path)" using assms(3) by (simp add: path_char_def)
  have marks: "c \<notin> set (h @ CHR ''/'' # path)" if "c \<in> set ''#?''" for c
    using that reserved_marks(1) [of c] host(1) full by (auto simp: list_all_iff)
  have "CHR ''#'' \<notin> set text" using marks by (simp add: text_def)
  moreover have "\<not> list_ex url_control_byte text"
    using host(1) full path_char_text by (auto simp: text_def list_all_iff list_ex_iff url_control_byte_def)
  moreover have "getScheme text = Inr (''https'', ''//'' @ h @ CHR ''/'' # path)"
    by (simp add: text_def getScheme_def scheme_char_def ascii_letter_def ascii_digit_def less_eq_char_def)
  moreover have "splitQuery u (''//'' @ h @ CHR ''/'' # path) = (u\<lparr>u_RawQuery := []\<rparr>, ''//'' @ h @ CHR ''/'' # path)" for u
    using marks by (intro splitQuery_plain) simp
  moreover have "CHR ''/'' \<notin> set h" using host(2) reserved_marks(2) by auto
  then have "takeWhile (\<lambda>c. c \<noteq> CHR ''/'') (h @ CHR ''/'' # path) = h"
    "dropWhile (\<lambda>c. c \<noteq> CHR ''/'') (h @ CHR ''/'' # path) = CHR ''/'' # path"
    by (simp_all add: cut_at)
  ultimately have "ParseRequestURI text = Inr (url_zero\<lparr>u_Scheme := ''https'', u_Host := h, u_Path := CHR ''/'' # path\<rparr>)"
    using parse_plain_host(1) [OF assms(1)] path_text [OF full]
    by (simp add: ParseRequestURI_def text_def parseHierarchy_def HasPrefix_def setPath_def lower_char_def less_eq_char_def url_zero_def)
  moreover have "ToLower unicode h = h"
    using host path_char_text by (auto simp: ToLower_def list_all_iff intro: map_idI)
  moreover have "escape encodeHost h = h" using host(2) by (simp add: escape_unreserved list_all_iff)
  ultimately show ?thesis
    using assms(1,2) no_mark [OF \<open>CHR ''#'' \<notin> set text\<close>] parse_plain_host(2) [OF assms(1)] path_text [OF full]
    by (simp add: parseEndpoint_def url_zero_def url_Hostname_def url_Port_def url_EscapedPath_def HasPrefix_def url_HostString_def text_def)
qed

section \<open>A probe run\<close>

definition sample_url :: string where
  "sample_url = ''https://probe.example/generate_204''"

definition sample_prober :: prober where
  "sample_prober = projr (New id sample_url sample_url second)"

definition sample_target :: endpoint where
  "sample_target = projr (parseEndpoint id sample_url IPv4)"

definition sample_request :: probe_request where
  "sample_request = \<lparr>pr_Family = IPv4, pr_ProxyLink = \<lparr>link_Index = 7, link_Name = ''tun0''\<rparr>, pr_PacketMark = 0x10\<rparr>"

definition sample_env :: probe_env where
  "sample_env = \<lparr>pe_Lookup = \<lambda>_ _ _. Inr [Addr4 0x01010101], pe_Dial = \<lambda>_ _ _. None, pe_ContextErr = \<lambda>_. None,
     pe_NewRequest = \<lambda>_ _. None, pe_Dials = \<lambda>_. 1,
     pe_Do = \<lambda>_ _. Responded \<lparr>rsp_StatusCode = 204, rsp_Body = [], rsp_BodyError = None\<rparr>\<rparr>"

definition sample_calls :: probe_history where
  "sample_calls =
     [Do sample_url (Responded \<lparr>rsp_StatusCode = 204, rsp_Body = [], rsp_BodyError = None\<rparr>),
      Dial ''tcp4'' ''1.1.1.1:443'' \<lparr>link_Index = 7, link_Name = ''tun0''\<rparr> 0x10 None,
      NewRequest sample_url None, Lookup ''ip4'' ''probe.example'' (Inr [Addr4 0x01010101])]"

lemma sample_endpoints: "\<not> isl (parseEndpoint id sample_url IPv4)" "\<not> isl (parseEndpoint id sample_url IPv6)"
  by code_simp+

lemma sample_prober_New: "New id sample_url sample_url second = Inr sample_prober" "pb_endpoints sample_prober IPv4 = Some sample_target"
  using sample_endpoints by (auto simp: sample_prober_def sample_target_def New_def second_def split: sum.splits)

lemma sample_run: "run_state (Probe sample_env sample_prober False sample_request) [] = (Inr (), sample_calls)"
  by code_simp

theorem publicInternetAddress_exact_witness:
  "publicInternetAddress (Addr6 0x26064700000000000000000000001111 []) \<and> \<not> publicInternetAddress (Addr4 0x64400001)"
proof -
  have "\<not> addr_Is4In6 (Addr6 0x26064700000000000000000000001111 [])"
    "\<not> list_ex (\<lambda>(lo, hi). lo \<le> 0x26064700000000000000000000001111 \<and> 0x26064700000000000000000000001111 \<le> hi) specialPurposeIPv6"
    "list_ex (\<lambda>(lo, hi). lo \<le> 0x64400001 \<and> 0x64400001 \<le> hi) specialPurposeIPv4"
    by code_simp+
  with publicInternetAddress_exact [of "0x64400001" "0x26064700000000000000000000001111"] show ?thesis by blast
qed

theorem Probe_pinned_witness:
  "run_state (Probe sample_env sample_prober False sample_request) [] = (Inr (), sample_calls) \<and>
   list_all (pinned sample_request sample_target sample_calls) sample_calls \<and> confirmed sample_calls"
proof -
  have "pb_endpoints sample_prober (pr_Family sample_request) = Some sample_target"
    using sample_prober_New(2) by (simp add: sample_request_def)
  from Probe_pinned [OF sample_prober_New(1) this sample_run] sample_run show ?thesis by simp
qed

end
