(* ===== verification/Resolver.thy ===== *)
theory Resolver
  imports Netip_Parse Family Histories
begin

text \<open>
  \<^verbatim>\<open>internal/adapter/resolver/resolver.go\<close>: reading the nameservers of a resolver configuration, asking them one after the other within
  the deadline of the lookup, and normalising what they answer. The file, the context, the clock and the nameservers answer
  from functions of the history of calls.
\<close>

section \<open>Reading the nameservers\<close>

text \<open>
  \<^verbatim>\<open>strings.Fields\<close>: the words between white space. \<open>trim_left\<close> drops the white space in front of a word.
\<close>

fun leading_word :: "string \<Rightarrow> string" where
  "leading_word [] = []"
| "leading_word (c # cs) = (if ascii_space c \<or> wide_space_at wide_spaces (c # cs) > 0 then [] else c # leading_word cs)"

lemma leading_word_trimmed: "trim_left wide_spaces s = c # cs \<Longrightarrow> leading_word (c # cs) \<noteq> []"
  by (induction wide_spaces s rule: trim_left.induct)
    (subst (asm) (2) trim_left.simps, auto split: list.splits if_splits)

lemma length_trim_left: "length (trim_left spaces s) \<le> length s"
  by (induction spaces s rule: trim_left.induct) (subst trim_left.simps, auto split: list.splits)

function Fields :: "string \<Rightarrow> string list" where
  "Fields s =
     (case trim_left wide_spaces s of
        [] \<Rightarrow> []
      | c # cs \<Rightarrow> leading_word (c # cs) # Fields (drop (length (leading_word (c # cs))) (c # cs)))"
  by pat_completeness auto
termination
proof (relation "measure length")
  fix s c cs
  assume t: "trim_left wide_spaces s = c # cs"
  with length_trim_left [of wide_spaces s] leading_word_trimmed [OF t]
  show "(drop (length (leading_word (c # cs))) (c # cs), s) \<in> measure length"
    by (cases "leading_word (c # cs)") (auto simp del: leading_word.simps)
qed simp

declare Fields.simps [simp del]

text \<open>
  \<^verbatim>\<open>bufio.Scanner\<close> with lines and a buffer of 64 KiB: a line that fills the buffer ends the scan with an error. A file
  is its contents and the error reading ends with, if any.
\<close>

definition maximumLine :: int where
  "maximumLine = 64 * 1024"

record resolv_file =
  file_Contents :: string
  file_ReadError :: "port_error option"

datatype scan_error = LineTooLong | ReadFailed port_error

definition dropCR :: "string \<Rightarrow> string" where
  "dropCR line = (if line \<noteq> [] \<and> last line = CHR 0x0D then butlast line else line)"

definition raw_lines :: "string \<Rightarrow> string list" where
  "raw_lines contents = (let ls = split_on CHR 0x0A contents in if last ls = [] then butlast ls else ls)"

definition scanLines :: "resolv_file \<Rightarrow> string list \<times> scan_error option" where
  "scanLines file =
     (let ls = raw_lines (file_Contents file); short = takeWhile (\<lambda>l. int (length l) < maximumLine) ls in
      (map dropCR short,
       if length short < length ls then Some LineTooLong else map_option ReadFailed (file_ReadError file)))"

datatype resolver_error =
    ContextEnded port_error
  | OpenFailed port_error
  | InvalidDirective nat
  | InvalidNameServer nat string
  | ScanFailed scan_error
  | NoNameServer
  | TooManyNameServers nat

definition maximumNameServers :: nat where
  "maximumNameServers = 16"

text \<open>One line: nothing, an error, or an address.\<close>

definition parseLine :: "nat \<Rightarrow> string \<Rightarrow> (resolver_error, addr) result option" where
  "parseLine lineNumber line =
     (let words = Fields (TrimSpace (takeWhile (\<lambda>c. c \<noteq> CHR ''#'' \<and> c \<noteq> CHR '';'') line)) in
      if words = [] \<or> hd words \<noteq> ''nameserver'' then None
      else if length words \<noteq> 2 then Some (Inl (InvalidDirective lineNumber))
      else case ParseAddr (words ! 1) of
        None \<Rightarrow> Some (Inl (InvalidNameServer lineNumber (words ! 1)))
      | Some address \<Rightarrow>
          if addr_Zone address \<noteq> [] then Some (Inl (InvalidNameServer lineNumber (words ! 1)))
          else Some (Inr (addr_Unmap address)))"

text \<open>\<open>ctxErr n\<close> is what the context reports when it is asked for the \<open>n\<close>-th time.\<close>

fun readLoop :: "(nat \<Rightarrow> port_error option) \<Rightarrow> nat \<Rightarrow> string list \<Rightarrow> (port_error, (resolver_error, addr) result list) result" where
  "readLoop ctxErr lineNumber [] = Inr []"
| "readLoop ctxErr lineNumber (line # ls) =
     (case ctxErr lineNumber of
        Some e \<Rightarrow> Inl e
      | None \<Rightarrow>
          (case readLoop ctxErr (lineNumber + 1) ls of
             Inl e \<Rightarrow> Inl e
           | Inr found \<Rightarrow> Inr (case parseLine lineNumber line of None \<Rightarrow> found | Some r \<Rightarrow> r # found)))"

fun uniqueLoop :: "addr list \<Rightarrow> addr list \<Rightarrow> addr list" where
  "uniqueLoop seen [] = []"
| "uniqueLoop seen (v # vs) =
     (let address = addr_Unmap v in
      if \<not> addr_IsValid address \<or> addr_Zone address \<noteq> [] then uniqueLoop seen vs
      else if address \<in> set seen then uniqueLoop seen vs
      else address # uniqueLoop (address # seen) vs)"

definition uniqueAddresses :: "addr list \<Rightarrow> addr list" where
  "uniqueAddresses addresses = uniqueLoop [] addresses"

definition readNameServers ::
  "(nat \<Rightarrow> port_error option) \<Rightarrow> (port_error, resolv_file) result \<Rightarrow> (resolver_error list, addr list) result" where
  "readNameServers ctxErr opened =
     (case ctxErr 0 of
        Some e \<Rightarrow> Inl [ContextEnded e]
      | None \<Rightarrow>
          (case opened of
             Inl e \<Rightarrow> Inl [OpenFailed e]
           | Inr file \<Rightarrow>
               (case scanLines file of (ls, scanErr) \<Rightarrow>
                  (case readLoop ctxErr 1 ls of
                     Inl e \<Rightarrow> Inl [ContextEnded e]
                   | Inr found \<Rightarrow>
                       let addresses = uniqueAddresses (List.map_filter (\<lambda>r. case r of Inr a \<Rightarrow> Some a | Inl _ \<Rightarrow> None) found);
                           parseErrors = List.map_filter (\<lambda>r. case r of Inl e \<Rightarrow> Some e | Inr _ \<Rightarrow> None) found @
                             wrap_error ScanFailed scanErr @ error_if (addresses = []) NoNameServer @
                             error_if (length addresses > maximumNameServers) (TooManyNameServers (length addresses))
                       in if parseErrors \<noteq> [] then Inl parseErrors else Inr addresses))))"

section \<open>Looking names up\<close>

datatype lookup_error = NoServers | ServerFailed addr port_error | ServerEmpty addr | LookupEnded port_error | NoUsable | TooManyAddresses nat

datatype dns_call =
    Clock time
  | Query addr "time option" string string "(port_error, addr list) result"
  | Ended "port_error option"

type_synonym dns_history = "dns_call list"

record dns_env =
  dns_Now :: "dns_history \<Rightarrow> time"
  dns_Query :: "dns_history \<Rightarrow> addr \<Rightarrow> time option \<Rightarrow> string \<Rightarrow> string \<Rightarrow> (port_error, addr list) result"
  dns_ContextErr :: "dns_history \<Rightarrow> port_error option"

text \<open>The deadline of the context of one attempt; a parent's earlier deadline is kept.\<close>

definition earlier :: "time option \<Rightarrow> time \<Rightarrow> time" where
  "earlier parent t = (case parent of None \<Rightarrow> t | Some d \<Rightarrow> min d t)"

definition resolverAttemptContext :: "dns_env \<Rightarrow> time option \<Rightarrow> nat \<Rightarrow> (dns_history, time option) state" where
  "resolverAttemptContext env deadline remainingServers =
     (case deadline of
        None \<Rightarrow> State_Monad.return None
      | Some d \<Rightarrow>
          if remainingServers \<le> 1 then State_Monad.return (Some d)
          else do { start \<leftarrow> outside (dns_Now env) Clock;
                    let remaining = time_Sub d start in
                    State_Monad.return
                      (if remaining \<le> 0 then Some d
                       else Some (earlier (Some d) (start + remaining div int remainingServers))) })"

fun lookupLoop ::
  "dns_env \<Rightarrow> time option \<Rightarrow> string \<Rightarrow> string \<Rightarrow> lookup_error list \<Rightarrow> addr list \<Rightarrow> (dns_history, lookup_error list + addr list) state" where
  "lookupLoop env deadline network host lookupErrors [] = fail lookupErrors"
| "lookupLoop env deadline network host lookupErrors (server # servers) =
     do { attempt \<leftarrow> resolverAttemptContext env deadline (length (server # servers));
          answer \<leftarrow> outside (\<lambda>h. dns_Query env h server attempt network host) (Query server attempt network host);
          if \<not> isl answer \<and> projr answer \<noteq> [] then ok (projr answer)
          else let failed = (case answer of Inl e \<Rightarrow> ServerFailed server e | Inr _ \<Rightarrow> ServerEmpty server) in
            do { ended \<leftarrow> outside (dns_ContextErr env) Ended;
                 case ended of
                   Some e \<Rightarrow> fail [LookupEnded e]
                 | None \<Rightarrow> lookupLoop env deadline network host (lookupErrors @ [failed]) servers } }"

definition LookupNetIP :: "dns_env \<Rightarrow> time option \<Rightarrow> addr list \<Rightarrow> string \<Rightarrow> string \<Rightarrow> (dns_history, lookup_error list + addr list) state" where
  "LookupNetIP env deadline servers network host =
     (if servers = [] then fail [NoServers] else lookupLoop env deadline network host [] servers)"

section \<open>Snapshots\<close>

record resolver_snapshot =
  rsn_nameServers :: "addr list"
  rsn_lookupTimeout :: duration

definition Snapshot ::
  "duration \<Rightarrow> (nat \<Rightarrow> port_error option) \<Rightarrow> (port_error, resolv_file) result \<Rightarrow> (resolver_error list, resolver_snapshot) result" where
  "Snapshot lookupTimeout ctxErr opened =
     map_sum id (\<lambda>nameServers. \<lparr>rsn_nameServers = nameServers, rsn_lookupTimeout = lookupTimeout\<rparr>) (readNameServers ctxErr opened)"

definition NameServers :: "resolver_snapshot \<Rightarrow> addr list" where
  "NameServers snapshot = rsn_nameServers snapshot"

definition normalizeAddresses :: "addr list \<Rightarrow> addr list" where
  "normalizeAddresses addresses =
     remdups_adj (sort_func addr_Compare (filter (\<lambda>a. addr_IsValid a \<and> addr_Zone a = []) (map addr_Unmap addresses)))"

definition maximumResolvedAddresses :: nat where
  "maximumResolvedAddresses = 64"

definition absoluteName :: "string \<Rightarrow> string" where
  "absoluteName name = (if name \<noteq> [] \<and> last name = CHR ''.'' then butlast name else name) @ ''.''"

definition Resolve :: "dns_env \<Rightarrow> time option \<Rightarrow> resolver_snapshot \<Rightarrow> string \<Rightarrow> (dns_history, lookup_error list + addr list) state" where
  "Resolve env ctxDeadline snapshot domainName =
     do { start \<leftarrow> outside (dns_Now env) Clock;
          chain (LookupNetIP env (Some (earlier ctxDeadline (start + rsn_lookupTimeout snapshot))) (rsn_nameServers snapshot) ''ip''
                   (absoluteName domainName)) (\<lambda>addresses.
            let result = normalizeAddresses addresses in
            if result = [] then fail [NoUsable]
            else if length result > maximumResolvedAddresses then fail [TooManyAddresses (length result)]
            else ok result) }"

section \<open>What is read\<close>

definition usable :: "addr \<Rightarrow> bool" where
  "usable a \<longleftrightarrow> addr_IsValid a \<and> addr_Zone a = [] \<and> addr_Unmap a = a"

lemma uniqueLoop_facts:
  "distinct (uniqueLoop seen vs) \<and> set (uniqueLoop seen vs) \<inter> set seen = {} \<and>
   set (uniqueLoop seen vs) = {a \<in> addr_Unmap ` set vs. addr_IsValid a \<and> addr_Zone a = []} - set seen"
  by (induction seen vs rule: uniqueLoop.induct) (auto simp: Let_def)

lemma uniqueAddresses_usable: "distinct (uniqueAddresses vs)" "a \<in> set (uniqueAddresses vs) \<Longrightarrow> usable a"
  using uniqueLoop_facts [of "[]" vs] by (auto simp: uniqueAddresses_def usable_def)

lemma readNameServers_facts:
  assumes "readNameServers ctxErr opened = Inr addresses"
  shows "distinct addresses" "list_all usable addresses" "addresses \<noteq> []" "length addresses \<le> maximumNameServers"
  using assms uniqueAddresses_usable
  by (auto simp: readNameServers_def Let_def list_all_iff split: option.splits sum.splits prod.splits if_splits)

lemma lookup_addresses_eq:
  "normalizeAddresses vs = sorted_list_of_set {a \<in> addr_Unmap ` set vs. addr_IsValid a \<and> addr_Zone a = []}"
proof -
  have "set (filter (\<lambda>a. addr_IsValid a \<and> addr_Zone a = []) (map addr_Unmap vs)) =
      {a \<in> addr_Unmap ` set vs. addr_IsValid a \<and> addr_Zone a = []}" by auto
  then show ?thesis by (metis normalizeAddresses_def addr_sort compact_sort)
qed

lemma normalizeAddresses_facts:
  "sorted (normalizeAddresses vs)" "distinct (normalizeAddresses vs)"
  "set (normalizeAddresses vs) = {a \<in> addr_Unmap ` set vs. addr_IsValid a \<and> addr_Zone a = []}"
  "list_all usable (normalizeAddresses vs)"
  by (auto simp: lookup_addresses_eq list_all_iff usable_def)

section \<open>Calls\<close>

text \<open>
  How the time passes: the clock does not run backwards, only lookups take time, and a lookup returns at its deadline at the latest.
\<close>

definition prompt :: "dns_env \<Rightarrow> bool" where
  "prompt env \<longleftrightarrow>
     (\<forall>h c. dns_Now env h \<le> dns_Now env (c # h)) \<and>
     (\<forall>h t. dns_Now env (Clock t # h) = dns_Now env h) \<and> (\<forall>h e. dns_Now env (Ended e # h) = dns_Now env h) \<and>
     (\<forall>h server d network host answer. dns_Now env (Query server (Some d) network host answer # h) \<le> max d (dns_Now env h))"

lemma promptD:
  assumes "prompt env"
  shows "dns_Now env h \<le> dns_Now env (c # h)" "dns_Now env (Clock t # h) = dns_Now env h" "dns_Now env (Ended e # h) = dns_Now env h"
    "dns_Now env (Query server (Some d) network host answer # h) \<le> max d (dns_Now env h)"
  using assms by (auto simp: prompt_def)

text \<open>The time a query has from its start to the deadline of its context.\<close>

definition granted :: "dns_env \<Rightarrow> duration \<Rightarrow> dns_history \<Rightarrow> dns_call \<Rightarrow> bool" where
  "granted env share h c =
     (case c of Query _ attempt _ _ _ \<Rightarrow> (case attempt of None \<Rightarrow> False | Some d \<Rightarrow> share \<le> d - dns_Now env h) | _ \<Rightarrow> True)"

lemma share_left:
  fixes q r :: int
  assumes "int (Suc k) * q \<le> r" "0 \<le> r"
  shows "q \<le> r div int (Suc k)" "int k * q \<le> r - r div int (Suc k)" "r div int (Suc k) \<le> r" "0 \<le> r div int (Suc k)"
proof -
  let ?a = "r div int (Suc k)"
  show "q \<le> ?a" using assms(1) by (metis mult.commute of_nat_0_less_iff zdiv_mono1 zero_less_Suc nonzero_mult_div_cancel_left less_irrefl)
  then have "int k * q \<le> int k * ?a" by (simp add: mult_left_mono)
  moreover have whole: "int (Suc k) * ?a \<le> r" by (simp add: minus_mod_eq_mult_div [symmetric])
  ultimately show "int k * q \<le> r - ?a" by (simp add: algebra_simps)
  show "0 \<le> ?a" using assms(2) by (simp add: pos_imp_zdiv_nonneg_iff)
  then have "0 \<le> int k * ?a" by simp
  with whole show "?a \<le> r" by (simp add: algebra_simps)
qed

lemma attempt_share:
  assumes "prompt env" "0 \<le> d - dns_Now env h" "d - dns_Now env h \<le> max_duration" "int (Suc k) * share \<le> d - dns_Now env h"
    and "\<And>h' a. dns_Now env h' = dns_Now env h \<Longrightarrow> calls_ok (granted env share) h' \<Longrightarrow>
       share \<le> a - dns_Now env h \<Longrightarrow> dns_Now env h \<le> a \<Longrightarrow> a \<le> d \<Longrightarrow> int k * share \<le> d - a \<or> k = 0 \<Longrightarrow> Q (Some a) h'"
    and "calls_ok (granted env share) h"
  shows "wp (resolverAttemptContext env (Some d) (Suc k)) Q h"
proof (cases "k = 0")
  case True
  with assms show ?thesis by (simp add: resolverAttemptContext_def)
next
  case False
  let ?r = "d - dns_Now env h"
  have sub: "time_Sub d (dns_Now env h) = ?r" using assms(2,3) by (simp add: time_defs)
  note left = share_left [OF assms(4,2)]
  have "Q (Some (if ?r \<le> 0 then d else dns_Now env h + ?r div int (Suc k))) (Clock (dns_Now env h) # h)"
  proof (rule assms(5))
    show "dns_Now env (Clock (dns_Now env h) # h) = dns_Now env h" using assms(1) by (rule promptD)
    show "calls_ok (granted env share) (Clock (dns_Now env h) # h)" using assms(6) by (simp add: granted_def)
  qed (use left assms(2,4) in \<open>auto split: if_splits\<close>)
  moreover have "earlier (Some d) (dns_Now env h + ?r div int (Suc k)) = dns_Now env h + ?r div int (Suc k)"
    using left(3) by (simp add: earlier_def)
  ultimately show ?thesis
    using False sub by (auto simp: resolverAttemptContext_def split: if_splits)
qed

lemma lookupLoop_share:
  assumes "prompt env" "0 \<le> d - dns_Now env h" "d - dns_Now env h \<le> max_duration"
    and "int (length servers) * share \<le> d - dns_Now env h" "calls_ok (granted env share) h"
  shows "wp (lookupLoop env (Some d) network host errs servers) (\<lambda>_. calls_ok (granted env share)) h"
  using assms(2-5)
proof (induction servers arbitrary: errs h)
  case (Cons server servers)
  show ?case
    unfolding lookupLoop.simps wp_bind length_Cons
  proof (rule attempt_share [OF assms(1) Cons.prems(1,2)])
    show "int (Suc (length servers)) * share \<le> d - dns_Now env h" using Cons.prems(3) by simp
    show "calls_ok (granted env share) h" by (rule Cons.prems(4))
    fix h' a
    assume a: "dns_Now env h' = dns_Now env h" "calls_ok (granted env share) h'" "share \<le> a - dns_Now env h" "dns_Now env h \<le> a" "a \<le> d"
      and left: "int (length servers) * share \<le> d - a \<or> length servers = 0"
    let ?answer = "dns_Query env h' server (Some a) network host"
    let ?h = "Query server (Some a) network host ?answer # h'"
    have ok: "calls_ok (granted env share) ?h" "calls_ok (granted env share) (Ended e # ?h)" for e
      using a by (simp_all add: granted_def)
    have "dns_Now env h \<le> dns_Now env ?h" "dns_Now env ?h \<le> a"
      using promptD(1) [OF assms(1), of h' "Query server (Some a) network host ?answer"] promptD(4) [OF assms(1)] a(1,4) by (metis max.absorb1)+
    then have "wp (lookupLoop env (Some d) network host errs' servers) (\<lambda>_. calls_ok (granted env share)) (Ended e # ?h)" for errs' e
      using a(5) left Cons.prems ok(2) promptD(3) [OF assms(1)] by (intro Cons.IH) auto
    with ok show "wp (outside (\<lambda>h. dns_Query env h server (Some a) network host) (Query server (Some a) network host))
       (\<lambda>answer. wp (if \<not> isl answer \<and> projr answer \<noteq> [] then ok (projr answer)
          else let failed = (case answer of Inl e \<Rightarrow> ServerFailed server e | Inr _ \<Rightarrow> ServerEmpty server) in
            do { ended \<leftarrow> outside (dns_ContextErr env) Ended;
                 case ended of
                   Some e \<Rightarrow> fail [LookupEnded e]
                 | None \<Rightarrow> lookupLoop env (Some d) network host (errs @ [failed]) servers })
          (\<lambda>_. calls_ok (granted env share))) h'"
      by (simp add: wp_cases Let_def split: option.splits)
  qed
qed simp

section \<open>Resolving names\<close>

definition resolve_deadline :: "dns_env \<Rightarrow> time option \<Rightarrow> resolver_snapshot \<Rightarrow> time" where
  "resolve_deadline env ctxDeadline snapshot = earlier ctxDeadline (dns_Now env [] + rsn_lookupTimeout snapshot)"

text \<open>
  C25: A slow nameserver cannot use up the time of the others: when lookups return by their deadlines, every nameserver that is asked
  has at least its share of the time the lookup had in the beginning, divided equally among all nameservers.
\<close>

theorem Resolve_shares_deadline:
  assumes "prompt env" "dns_Now env [] \<le> resolve_deadline env ctxDeadline snapshot" "rsn_lookupTimeout snapshot \<le> max_duration"
    and "run_state (Resolve env ctxDeadline snapshot domainName) [] = (r, calls)"
  shows "calls_ok (granted env ((resolve_deadline env ctxDeadline snapshot - dns_Now env []) div int (length (rsn_nameServers snapshot)))) calls"
proof -
  let ?n = "length (rsn_nameServers snapshot)" and ?d = "resolve_deadline env ctxDeadline snapshot"
  let ?share = "(?d - dns_Now env []) div int ?n" and ?h = "[Clock (dns_Now env [])]"
  have now: "dns_Now env ?h = dns_Now env []" using assms(1) by (rule promptD)
  have "?d \<le> dns_Now env [] + rsn_lookupTimeout snapshot" by (simp add: resolve_deadline_def earlier_def split: option.splits)
  then have "wp (lookupLoop env (Some ?d) ''ip'' (absoluteName domainName) [] (rsn_nameServers snapshot)) (\<lambda>_. calls_ok (granted env ?share)) ?h"
    using assms(1-3) now
    by (intro lookupLoop_share; cases "?n = 0") (auto simp: granted_def minus_mod_eq_mult_div [symmetric])
  then have "wp (LookupNetIP env (Some ?d) (rsn_nameServers snapshot) ''ip'' (absoluteName domainName)) (\<lambda>_. calls_ok (granted env ?share)) ?h"
    by (simp add: LookupNetIP_def granted_def)
  then have "wp (Resolve env ctxDeadline snapshot domainName) (\<lambda>_. calls_ok (granted env ?share)) []"
    by (auto simp: Resolve_def resolve_deadline_def [symmetric] Let_def elim!: wp_mono split: sum.splits)
  from wp_run [OF this assms(4)] show ?thesis .
qed

text \<open>No query of a history returned an address.\<close>

definition barren :: "dns_history \<Rightarrow> bool" where
  "barren h = list_all (\<lambda>c. case c of Query _ _ _ _ answer \<Rightarrow> isl answer \<or> projr answer = [] | _ \<Rightarrow> True) h"

text \<open>Where an answer comes from: the last call, to one of the nameservers, after no other has returned addresses.\<close>

definition answered :: "addr list \<Rightarrow> string \<Rightarrow> addr list \<Rightarrow> dns_history \<Rightarrow> bool" where
  "answered servers host found calls =
     (case calls of
        Query server _ network name answer # before \<Rightarrow>
          server \<in> set servers \<and> network = ''ip'' \<and> name = host \<and> answer = Inr found \<and> found \<noteq> [] \<and> barren before
      | _ \<Rightarrow> False)"

lemma resolverAttemptContext_quiet:
  assumes "\<And>a h'. h' = h \<or> (\<exists>t. h' = Clock t # h) \<Longrightarrow> Q a h'"
  shows "wp (resolverAttemptContext env deadline n) Q h"
  using assms by (auto simp: resolverAttemptContext_def Let_def split: option.splits)

lemma lookupLoop_answered:
  assumes "barren h" "set servers \<subseteq> set every"
  shows "wp (lookupLoop env deadline ''ip'' host errs servers)
     (\<lambda>r calls. case r of Inl _ \<Rightarrow> True | Inr found \<Rightarrow> answered every host found calls) h"
  using assms
proof (induction servers arbitrary: errs h)
  case (Cons server servers)
  show ?case
    unfolding lookupLoop.simps wp_bind
  proof (rule resolverAttemptContext_quiet)
    fix attempt h'
    assume "h' = h \<or> (\<exists>t. h' = Clock t # h)"
    with Cons.prems(1) have quiet: "barren h'" by (auto simp: barren_def)
    let ?answer = "dns_Query env h' server attempt ''ip'' host"
    let ?h = "Query server attempt ''ip'' host ?answer # h'"
    have retry: "wp (lookupLoop env deadline ''ip'' host errs' servers)
        (\<lambda>r calls. case r of Inl _ \<Rightarrow> True | Inr found \<Rightarrow> answered every host found calls) (Ended e # ?h)"
      if "isl ?answer \<or> projr ?answer = []" for errs' e
      using that quiet Cons.prems(2) by (intro Cons.IH) (auto simp: barren_def)
    show "wp (outside (\<lambda>h. dns_Query env h server attempt ''ip'' host) (Query server attempt ''ip'' host))
       (\<lambda>answer. wp (if \<not> isl answer \<and> projr answer \<noteq> [] then ok (projr answer)
          else let failed = (case answer of Inl e \<Rightarrow> ServerFailed server e | Inr _ \<Rightarrow> ServerEmpty server) in
            do { ended \<leftarrow> outside (dns_ContextErr env) Ended;
                 case ended of
                   Some e \<Rightarrow> fail [LookupEnded e]
                 | None \<Rightarrow> lookupLoop env deadline ''ip'' host (errs @ [failed]) servers })
          (\<lambda>r calls. case r of Inl _ \<Rightarrow> True | Inr found \<Rightarrow> answered every host found calls)) h'"
      using retry quiet Cons.prems(2)
      by (auto simp: wp_cases Let_def answered_def split: option.splits)
  qed
qed simp

text \<open>
  C26: A resolved name has between one and 64 addresses, sorted and without duplicates, valid, without zones and with mapped addresses
  in their IPv4 form. They are exactly the usable addresses in the answer of one nameserver of the snapshot to a query for the
  absolute name, and no nameserver asked before it had an answer.
\<close>

theorem Resolve_sound:
  assumes "run_state (Resolve env ctxDeadline snapshot domainName) [] = (Inr addresses, calls)"
  shows "sorted addresses \<and> distinct addresses \<and> list_all usable addresses \<and> 1 \<le> length addresses \<and> length addresses \<le> 64 \<and>
     (\<exists>found. answered (rsn_nameServers snapshot) (absoluteName domainName) found calls \<and>
        set addresses = {a \<in> addr_Unmap ` set found. addr_IsValid a \<and> addr_Zone a = []})"
proof -
  let ?host = "absoluteName domainName" and ?h = "[Clock (dns_Now env [])]"
  let ?post = "\<lambda>r calls. case r of Inl _ \<Rightarrow> True | Inr addresses \<Rightarrow> addresses \<noteq> [] \<and> length addresses \<le> 64 \<and>
     (\<exists>found. answered (rsn_nameServers snapshot) ?host found calls \<and> addresses = normalizeAddresses found)"
  have lookup: "wp (LookupNetIP env deadline (rsn_nameServers snapshot) ''ip'' ?host)
      (\<lambda>r calls. case r of Inl _ \<Rightarrow> True | Inr found \<Rightarrow> answered (rsn_nameServers snapshot) ?host found calls) ?h" for deadline
    unfolding LookupNetIP_def by (auto intro: lookupLoop_answered simp: barren_def)
  have "wp (Resolve env ctxDeadline snapshot domainName) ?post []"
    by (auto simp: Resolve_def Let_def maximumResolvedAddresses_def intro!: wp_mono [OF lookup] split: sum.splits)
  from wp_run [OF this assms] show ?thesis
    using normalizeAddresses_facts by (auto simp: Suc_le_eq)
qed

text \<open>The snapshot asks between one and sixteen nameservers, each once and in a form it can be dialled in.\<close>

lemma Snapshot_facts:
  assumes "Snapshot lookupTimeout ctxErr opened = Inr snapshot"
  shows "distinct (NameServers snapshot)" "list_all usable (NameServers snapshot)"
    "1 \<le> length (NameServers snapshot)" "length (NameServers snapshot) \<le> 16"
  using assms readNameServers_facts
  by (cases "readNameServers ctxErr opened"; force simp: Snapshot_def NameServers_def maximumNameServers_def Suc_le_eq)+

section \<open>Two nameservers\<close>

definition sample_conf :: resolv_file where
  "sample_conf = \<lparr>file_Contents = ''nameserver 9.9.9.9#'' @ [CHR 0x0D, CHR 0x0A] @ ''nameserver 8.8.8.8'', file_ReadError = None\<rparr>"

definition sample_snapshot :: resolver_snapshot where
  "sample_snapshot = \<lparr>rsn_nameServers = [Addr4 0x09090909, Addr4 0x08080808], rsn_lookupTimeout = 1000\<rparr>"

lemma sample_conf_read: "Snapshot 1000 (\<lambda>_. None) (Inr sample_conf) = Inr sample_snapshot"
  by code_simp

text \<open>The first nameserver is silent until its deadline, the second one answers.\<close>

fun sample_now :: "dns_history \<Rightarrow> time" where
  "sample_now [] = 5000"
| "sample_now (Query _ (Some d) _ _ (Inl _) # h) = max d (sample_now h)"
| "sample_now (_ # h) = sample_now h"

definition sample_dns :: dns_env where
  "sample_dns = \<lparr>dns_Now = sample_now,
     dns_Query = \<lambda>h server _ _ _. if server = Addr4 0x09090909 then Inl ''timeout'' else Inr [Addr4 2, Addr4 1, Addr4 2],
     dns_ContextErr = \<lambda>_. None\<rparr>"

lemma sample_now_mono: "sample_now h \<le> sample_now (c # h)"
  by (cases "(c # h)" rule: sample_now.cases) auto

lemma sample_prompt: "prompt sample_dns"
proof -
  have "sample_now (Query server (Some d) network host answer # h) \<le> max d (sample_now h)" for server d network host answer h
    by (cases answer) auto
  then show ?thesis by (auto simp: prompt_def sample_dns_def sample_now_mono)
qed

definition sample_lookup :: dns_history where
  "sample_lookup = snd (run_state (Resolve sample_dns None sample_snapshot ''example.com'') [])"

lemma sample_resolved:
  "run_state (Resolve sample_dns None sample_snapshot ''example.com'') [] = (Inr [Addr4 1, Addr4 2], sample_lookup)"
  by code_simp

theorem Resolve_sound_witness:
  "run_state (Resolve sample_dns None sample_snapshot ''example.com'') [] = (Inr [Addr4 1, Addr4 2], sample_lookup) \<and>
   (\<exists>found. answered (rsn_nameServers sample_snapshot) ''example.com.'' found sample_lookup)"
  using Resolve_sound [OF sample_resolved] sample_resolved by (auto simp: absoluteName_def)

theorem Resolve_shares_deadline_witness: "prompt sample_dns \<and> calls_ok (granted sample_dns 500) sample_lookup \<and> sample_lookup \<noteq> []"
proof -
  have "sample_lookup \<noteq> []" by code_simp
  moreover have "dns_Now sample_dns [] \<le> resolve_deadline sample_dns None sample_snapshot" "rsn_lookupTimeout sample_snapshot \<le> max_duration"
    "(resolve_deadline sample_dns None sample_snapshot - dns_Now sample_dns []) div int (length (rsn_nameServers sample_snapshot)) = 500"
    by code_simp+
  ultimately show ?thesis
    using Resolve_shares_deadline [OF sample_prompt _ _ sample_resolved] sample_prompt by simp
qed

end
