(* ===== verification/Tailnet_Control.thy ===== *)
theory Tailnet_Control
  imports Tailnet Histories
begin

text \<open>
  \<^verbatim>\<open>internal/adapter/tailscale\<close>: reading the state of the local Tailscale daemon, editing its preferences, and forwarding the
  notifications of its bus. The daemon answers from functions of the whole history of calls; the forwarder is a step relation that
  interleaves with its reader and with the cancellation of its context.
\<close>

section \<open>The local API\<close>

record self_node =
  sn_InNetworkMap :: bool
  sn_Online :: bool
  sn_AllowedIPs :: "prefix list option"

record local_status =
  ls_BackendState :: string
  ls_TUN :: bool
  ls_TailscaleIPs :: "addr list"
  ls_Self :: "self_node option"

text \<open>The preferences as far as the agent reads them, and an edit: the routes and whether the daemon takes them over.\<close>

record local_prefs =
  lp_AdvertiseRoutes :: "prefix list"

record masked_prefs =
  mp_AdvertiseRoutes :: "prefix list"
  mp_AdvertiseRoutesSet :: bool

datatype local_call =
    StatusWithoutPeers "(port_error, local_status option) result"
  | GetPrefs "(port_error, local_prefs option) result"
  | EditPrefs masked_prefs "(port_error, local_prefs option) result"
  | Now time

type_synonym local_history = "local_call list"

record local_env =
  le_Status :: "local_history \<Rightarrow> (port_error, local_status option) result"
  le_GetPrefs :: "local_history \<Rightarrow> (port_error, local_prefs option) result"
  le_EditPrefs :: "local_history \<Rightarrow> masked_prefs \<Rightarrow> (port_error, local_prefs option) result"
  le_Now :: "local_history \<Rightarrow> time"
  le_Running :: string

datatype control_error =
    StatusFailed port_error
  | StatusNil
  | PrefsFailed port_error
  | PrefsNil
  | PrefsInvalid "tailnet_error list"
  | SelfAddressInvalid addr
  | ApprovedInvalid control_error
  | ObservationInvalid "tailnet_error list"
  | DesiredInvalid "tailnet_error list"
  | EditFailed port_error
  | EditNil
  | EditInvalid "tailnet_error list"
  | NotConverged "prefix list" "prefix list"

text \<open>A pointer result: an error, nil, or a value.\<close>

definition pointer :: "(port_error \<Rightarrow> control_error) \<Rightarrow> control_error \<Rightarrow> (local_history, (port_error, 'a option) result) state
    \<Rightarrow> (local_history, control_error + 'a) state" where
  "pointer failed isNil m = do { r \<leftarrow> m; case r of Inl e \<Rightarrow> fail (failed e) | Inr None \<Rightarrow> fail isNil | Inr (Some x) \<Rightarrow> ok x }"

lemma wp_pointer [wp_rules, simp]:
  "wp (pointer failed isNil m) Q h \<longleftrightarrow>
     wp m (\<lambda>r. case r of Inl e \<Rightarrow> Q (Inl (failed e)) | Inr None \<Rightarrow> Q (Inl isNil) | Inr (Some x) \<Rightarrow> Q (Inr x)) h"
  by (simp add: pointer_def wp_def fail_def ok_def split: prod.split sum.split option.split)

section \<open>Reading and editing\<close>

fun selfPrefixes :: "addr list \<Rightarrow> (control_error, prefix list) result" where
  "selfPrefixes [] = Inr []"
| "selfPrefixes (v # vs) =
     (let address = addr_Unmap v in
      if \<not> addr_IsValid address \<or> addr_Zone address \<noteq> [] then Inl (SelfAddressInvalid address)
      else map_sum id (\<lambda>ps. PrefixFrom address (int (addr_BitLen address)) # ps) (selfPrefixes vs))"

definition approvedRoutes :: "prefix list \<Rightarrow> addr list \<Rightarrow> (control_error, prefix list) result" where
  "approvedRoutes allowed selfAddresses =
     (case preferences_Validate \<lparr>tp_AdvertiseRoutes = allowed\<rparr> of
        e # es \<Rightarrow> Inl (PrefsInvalid (e # es))
      | [] \<Rightarrow>
          (case selfPrefixes selfAddresses of
             Inl e \<Rightarrow> Inl e
           | Inr own \<Rightarrow>
               Inr (tp_AdvertiseRoutes (NormalizeTailnetPreferences (filter (\<lambda>p. p \<notin> set own) (map prefix_Masked allowed))))))"

definition observeControl :: "local_status \<Rightarrow> time \<Rightarrow> (control_error, tailnet_control_observation) result" where
  "observeControl status observedAt =
     (let empty = \<lparr>tc_SelfPresent = False, tc_InNetworkMap = False, tc_Online = False, tc_AllowedIPsAvailable = False,
                   tc_ApprovedRoutes = [], tc_ObservedAt = observedAt\<rparr>
      in case ls_Self status of
           None \<Rightarrow> Inr empty
         | Some self \<Rightarrow>
             let present = empty\<lparr>tc_SelfPresent := True, tc_InNetworkMap := sn_InNetworkMap self, tc_Online := sn_Online self,
                                tc_AllowedIPsAvailable := sn_AllowedIPs self \<noteq> None\<rparr>
             in case sn_AllowedIPs self of
                  None \<Rightarrow> Inr present
                | Some allowed \<Rightarrow>
                    (case approvedRoutes allowed (ls_TailscaleIPs status) of
                       Inl e \<Rightarrow> Inl (ApprovedInvalid e)
                     | Inr approved \<Rightarrow> Inr (present\<lparr>tc_ApprovedRoutes := approved\<rparr>)))"

definition ReadState :: "local_env \<Rightarrow> (local_history, control_error + tailnet_state) state" where
  "ReadState env =
     chain (pointer StatusFailed StatusNil (outside (le_Status env) StatusWithoutPeers)) (\<lambda>status.
     chain (pointer PrefsFailed PrefsNil (outside (le_GetPrefs env) GetPrefs)) (\<lambda>preferences.
     chain (require (case preferences_Validate \<lparr>tp_AdvertiseRoutes = lp_AdvertiseRoutes preferences\<rparr> of
                       [] \<Rightarrow> None | e # es \<Rightarrow> Some (PrefsInvalid (e # es)))) (\<lambda>_.
     chain (lift (outside (le_Now env) Now)) (\<lambda>observedAt.
       case observeControl status observedAt of
         Inl e \<Rightarrow> fail e
       | Inr control \<Rightarrow>
           (case control_Validate control of
              e # es \<Rightarrow> fail (ObservationInvalid (e # es))
            | [] \<Rightarrow> ok \<lparr>ts_Running = (ls_BackendState status = le_Running env), ts_KernelTunnel = ls_TUN status,
                        ts_SelfAddresses = ls_TailscaleIPs status,
                        ts_Preferences = NormalizeTailnetPreferences (lp_AdvertiseRoutes preferences), ts_Control = control\<rparr>)))))"

definition WritePreferences :: "local_env \<Rightarrow> tailnet_preferences \<Rightarrow> (local_history, control_error + unit) state" where
  "WritePreferences env preferences =
     chain (require (case preferences_Validate preferences of [] \<Rightarrow> None | e # es \<Rightarrow> Some (DesiredInvalid (e # es)))) (\<lambda>_.
     let edit = \<lparr>mp_AdvertiseRoutes = tp_AdvertiseRoutes preferences, mp_AdvertiseRoutesSet = True\<rparr> in
     chain (pointer EditFailed EditNil (outside (\<lambda>h. le_EditPrefs env h edit) (EditPrefs edit))) (\<lambda>updated.
     chain (require (case preferences_Validate \<lparr>tp_AdvertiseRoutes = lp_AdvertiseRoutes updated\<rparr> of
                       [] \<Rightarrow> None | e # es \<Rightarrow> Some (EditInvalid (e # es)))) (\<lambda>_.
     let observed = NormalizeTailnetPreferences (lp_AdvertiseRoutes updated) in
     require (if \<not> preferences_Equal observed preferences
              then Some (NotConverged (tp_AdvertiseRoutes observed) (tp_AdvertiseRoutes preferences)) else None))))"

section \<open>The bus of the daemon\<close>

text \<open>What a notification carries, as far as it is read: which of its parts are set.\<close>

record ipn_notify =
  nf_State :: bool
  nf_InitialStatus :: bool
  nf_PeersChanged :: nat
  nf_PeersRemoved :: nat
  nf_PeerChangedPatch :: nat
  nf_SelfChange :: bool

definition normalizeTailnetEvents :: "ipn_notify \<Rightarrow> tailnet_event list" where
  "normalizeTailnetEvents notification =
     (if nf_State notification \<or> nf_InitialStatus notification then [\<lparr>te_Kind = TailnetEventStateChanged\<rparr>] else []) @
     (if nf_PeersChanged notification \<noteq> 0 \<or> nf_PeersRemoved notification \<noteq> 0 \<or> nf_PeerChangedPatch notification \<noteq> 0
      then [\<lparr>te_Kind = TailnetEventNetworkMap\<rparr>] else []) @
     (if nf_SelfChange notification then [\<lparr>te_Kind = TailnetEventSelfNode\<rparr>] else [])"

datatype subscribe_error = SubscribeContextNil | WatcherMissing | WatchFailed port_error | WatcherNil

text \<open>
  The forwarder: its two channels of capacity one, the events of the notification at hand, the context, and whether it has ended and
  closed its channels. \<open>fw_unseen\<close> tells that an event has been offered since the reader last took one.
\<close>

record forwarder =
  fw_events :: "tailnet_event list"
  fw_errors :: "port_error list"
  fw_batch :: "tailnet_event list"
  fw_done :: bool
  fw_closed :: bool
  fw_reported :: bool
  fw_unseen :: bool

definition Subscribe :: "bool \<Rightarrow> (port_error, bool) result option \<Rightarrow> (subscribe_error, forwarder) result" where
  "Subscribe ctxNil watcher =
     (if ctxNil then Inl SubscribeContextNil
      else case watcher of
        None \<Rightarrow> Inl WatcherMissing
      | Some (Inl e) \<Rightarrow> Inl (WatchFailed e)
      | Some (Inr isNil) \<Rightarrow>
          if isNil then Inl WatcherNil
          else Inr \<lparr>fw_events = [], fw_errors = [], fw_batch = [], fw_done = False, fw_closed = False, fw_reported = False, fw_unseen = False\<rparr>)"

text \<open>
  One event is sent when the channel has room, dropped when it has none and the context is alive; an ended context may end the
  forwarder instead.
\<close>

inductive forward_step :: "forwarder \<Rightarrow> forwarder \<Rightarrow> bool" where
  Next: "\<lbrakk>\<not> fw_closed f; fw_batch f = []\<rbrakk> \<Longrightarrow> forward_step f (f\<lparr>fw_batch := normalizeTailnetEvents notification\<rparr>)"
| Failed: "\<lbrakk>\<not> fw_closed f; fw_batch f = []; \<not> fw_done f; length (fw_errors f) < 1\<rbrakk>
    \<Longrightarrow> forward_step f (f\<lparr>fw_errors := fw_errors f @ [e], fw_closed := True, fw_reported := True\<rparr>)"
| Interrupted: "\<lbrakk>\<not> fw_closed f; fw_batch f = []; fw_done f\<rbrakk> \<Longrightarrow> forward_step f (f\<lparr>fw_closed := True\<rparr>)"
| Send: "\<lbrakk>\<not> fw_closed f; fw_batch f = event # rest; length (fw_events f) < 1\<rbrakk>
    \<Longrightarrow> forward_step f (f\<lparr>fw_events := fw_events f @ [event], fw_batch := rest, fw_unseen := True\<rparr>)"
| Drop: "\<lbrakk>\<not> fw_closed f; fw_batch f = event # rest; \<not> length (fw_events f) < 1; \<not> fw_done f\<rbrakk>
    \<Longrightarrow> forward_step f (f\<lparr>fw_batch := rest, fw_unseen := True\<rparr>)"
| Stop: "\<lbrakk>\<not> fw_closed f; fw_batch f = event # rest; fw_done f\<rbrakk> \<Longrightarrow> forward_step f (f\<lparr>fw_closed := True\<rparr>)"
| Receive: "fw_events f = event # rest \<Longrightarrow> forward_step f (f\<lparr>fw_events := rest, fw_unseen := False\<rparr>)"
| ReceiveError: "fw_errors f = e # rest \<Longrightarrow> forward_step f (f\<lparr>fw_errors := rest\<rparr>)"
| Cancel: "forward_step f (f\<lparr>fw_done := True\<rparr>)"

inductive_cases forward_stepE: "forward_step f f'"

inductive subscribed :: "forwarder \<Rightarrow> bool" where
  opened: "Subscribe ctxNil watcher = Inr f \<Longrightarrow> subscribed f"
| step: "subscribed f \<Longrightarrow> forward_step f f' \<Longrightarrow> subscribed f'"

section \<open>What is read and written\<close>

text \<open>The prefixes of the node's own addresses, which the control plane always allows.\<close>

definition own_prefixes :: "addr list \<Rightarrow> prefix set" where
  "own_prefixes addresses = (\<lambda>a. PrefixFrom (addr_Unmap a) (int (addr_BitLen (addr_Unmap a)))) ` set addresses"

lemma selfPrefixes_set: "selfPrefixes vs = Inr own \<Longrightarrow> set own = own_prefixes vs"
proof (induction vs arbitrary: own)
  case (Cons v vs)
  then obtain ps where "selfPrefixes vs = Inr ps" "own = PrefixFrom (addr_Unmap v) (int (addr_BitLen (addr_Unmap v))) # ps"
    by (cases "selfPrefixes vs") (auto simp: Let_def split: if_splits)
  with Cons.IH show ?case by (simp add: own_prefixes_def)
qed (simp add: own_prefixes_def)

lemma Normalize_masked:
  assumes "preferences_Validate \<lparr>tp_AdvertiseRoutes = ps\<rparr> = []"
  shows "prefix_Masked ` set ps = set ps" "distinct ps"
  using assms by (auto simp: preferences_Validate_def scan_masked_Nil_iff image_iff)

lemma approvedRoutes_spec:
  assumes "approvedRoutes allowed addresses = Inr approved"
  shows "approved = sorted_list_of_set (set allowed - own_prefixes addresses)"
proof -
  from assms obtain own where valid: "preferences_Validate \<lparr>tp_AdvertiseRoutes = allowed\<rparr> = []" and own: "selfPrefixes addresses = Inr own"
    and approved: "approved = tp_AdvertiseRoutes (NormalizeTailnetPreferences (filter (\<lambda>p. p \<notin> set own) (map prefix_Masked allowed)))"
    by (auto simp: approvedRoutes_def split: list.splits sum.splits)
  have masked: "p \<in> set allowed \<Longrightarrow> prefix_Masked p = p" for p
    using valid by (simp add: preferences_Validate_def scan_masked_Nil_iff)
  then have "map prefix_Masked allowed = allowed" by (simp add: map_idI)
  moreover have "prefix_Masked ` {p \<in> set allowed. p \<notin> set own} = set allowed - set own" using masked by force
  ultimately show ?thesis
    by (simp add: approved Normalize_eq selfPrefixes_set [OF own, symmetric])
qed

lemma observeControl_spec:
  assumes "observeControl status observedAt = Inr control"
  shows "case ls_Self status of
        None \<Rightarrow> \<not> tc_SelfPresent control
      | Some self \<Rightarrow> tc_SelfPresent control \<and> tc_Online control = sn_Online self \<and>
          (case sn_AllowedIPs self of
             None \<Rightarrow> \<not> tc_AllowedIPsAvailable control
           | Some allowed \<Rightarrow> tc_ApprovedRoutes control =
               sorted_list_of_set (set allowed - own_prefixes (ls_TailscaleIPs status)))"
  using assms approvedRoutes_spec
  by (auto simp: observeControl_def Let_def split: option.splits sum.splits)

text \<open>
  A state that is read comes from one status and one preference call and no edit. Its preferences are the advertised routes in
  normal form, its control observation is valid, and the routes it reports as approved are exactly the allowed prefixes
  that are not the node's own addresses.
\<close>

theorem ReadState_sound:
  assumes "run_state (ReadState env) [] = (Inr state, calls)"
  shows "\<exists>status preferences observedAt.
     calls = [Now observedAt, GetPrefs (Inr (Some preferences)), StatusWithoutPeers (Inr (Some status))] \<and>
     tp_AdvertiseRoutes (ts_Preferences state) = sorted_list_of_set (set (lp_AdvertiseRoutes preferences)) \<and>
     control_Validate (ts_Control state) = [] \<and>
     (case ls_Self status of
        None \<Rightarrow> \<not> tc_SelfPresent (ts_Control state)
      | Some self \<Rightarrow> tc_SelfPresent (ts_Control state) \<and> tc_Online (ts_Control state) = sn_Online self \<and>
          (case sn_AllowedIPs self of
             None \<Rightarrow> \<not> tc_AllowedIPsAvailable (ts_Control state)
           | Some allowed \<Rightarrow> tc_ApprovedRoutes (ts_Control state) =
               sorted_list_of_set (set allowed - own_prefixes (ls_TailscaleIPs status))))"
proof -
  let ?post = "\<lambda>r calls. \<forall>state. r = Inr state \<longrightarrow> (\<exists>status preferences observedAt.
     calls = [Now observedAt, GetPrefs (Inr (Some preferences)), StatusWithoutPeers (Inr (Some status))] \<and>
     preferences_Validate \<lparr>tp_AdvertiseRoutes = lp_AdvertiseRoutes preferences\<rparr> = [] \<and>
     ts_Preferences state = NormalizeTailnetPreferences (lp_AdvertiseRoutes preferences) \<and>
     observeControl status observedAt = Inr (ts_Control state) \<and> control_Validate (ts_Control state) = [])"
  have "wp (ReadState env) ?post []"
    by (auto simp: ReadState_def wp_cases split: option.splits sum.splits list.splits)
  from wp_run [OF this assms] obtain status preferences observedAt where
    calls: "calls = [Now observedAt, GetPrefs (Inr (Some preferences)), StatusWithoutPeers (Inr (Some status))]"
    and prefs: "preferences_Validate \<lparr>tp_AdvertiseRoutes = lp_AdvertiseRoutes preferences\<rparr> = []"
      "ts_Preferences state = NormalizeTailnetPreferences (lp_AdvertiseRoutes preferences)"
    and control: "observeControl status observedAt = Inr (ts_Control state)" "control_Validate (ts_Control state) = []"
    by blast
  have "tp_AdvertiseRoutes (ts_Preferences state) = sorted_list_of_set (set (lp_AdvertiseRoutes preferences))"
    by (simp add: prefs(2) Normalize_eq Normalize_masked [OF prefs(1)])
  with calls control observeControl_spec [OF control(1)] show ?thesis by (intro exI conjI)
qed

text \<open>
  Preferences that are written without error have been sent in one edit that sets the advertised routes and nothing else, and the
  daemon has answered with exactly these routes.
\<close>

theorem WritePreferences_converged:
  assumes "run_state (WritePreferences env preferences) [] = (Inr (), calls)"
  shows "\<exists>updated.
     calls = [EditPrefs \<lparr>mp_AdvertiseRoutes = tp_AdvertiseRoutes preferences, mp_AdvertiseRoutesSet = True\<rparr> (Inr (Some updated))] \<and>
     tp_AdvertiseRoutes preferences = sorted_list_of_set (set (lp_AdvertiseRoutes updated)) \<and> distinct (lp_AdvertiseRoutes updated)"
proof -
  have "wp (WritePreferences env preferences) (\<lambda>r calls. r = Inr () \<longrightarrow> (\<exists>updated.
     calls = [EditPrefs \<lparr>mp_AdvertiseRoutes = tp_AdvertiseRoutes preferences, mp_AdvertiseRoutesSet = True\<rparr> (Inr (Some updated))] \<and>
     preferences_Validate \<lparr>tp_AdvertiseRoutes = lp_AdvertiseRoutes updated\<rparr> = [] \<and>
     NormalizeTailnetPreferences (lp_AdvertiseRoutes updated) = preferences)) []"
    by (auto simp: WritePreferences_def wp_cases Let_def split: option.splits sum.splits list.splits if_splits)
  from wp_run [OF this assms] obtain updated where
    calls: "calls = [EditPrefs \<lparr>mp_AdvertiseRoutes = tp_AdvertiseRoutes preferences, mp_AdvertiseRoutesSet = True\<rparr> (Inr (Some updated))]"
    and updated: "preferences_Validate \<lparr>tp_AdvertiseRoutes = lp_AdvertiseRoutes updated\<rparr> = []"
      "NormalizeTailnetPreferences (lp_AdvertiseRoutes updated) = preferences" by blast
  have "tp_AdvertiseRoutes preferences = sorted_list_of_set (set (lp_AdvertiseRoutes updated))"
    using updated(2) Normalize_eq [of "lp_AdvertiseRoutes updated"] Normalize_masked(1) [OF updated(1)] by simp
  with calls Normalize_masked(2) [OF updated(1)] show ?thesis by blast
qed

section \<open>What is forwarded\<close>

lemma normalizeTailnetEvents_valid: "event \<in> set (normalizeTailnetEvents notification) \<Longrightarrow> event_Validate event = None"
  by (auto simp: normalizeTailnetEvents_def event_Validate_def split: if_splits)

definition forwarder_ok :: "forwarder \<Rightarrow> bool" where
  "forwarder_ok f \<longleftrightarrow>
     length (fw_events f) \<le> 1 \<and> length (fw_errors f) \<le> 1 \<and>
     list_all (\<lambda>event. event_Validate event = None) (fw_events f @ fw_batch f) \<and>
     (fw_unseen f \<longrightarrow> fw_events f \<noteq> []) \<and>
     (fw_closed f \<longrightarrow> fw_reported f \<or> fw_done f) \<and> (fw_reported f \<longrightarrow> fw_closed f) \<and> (fw_errors f \<noteq> [] \<longrightarrow> fw_reported f)"

lemma forwarder_ok_step: "forward_step f f' \<Longrightarrow> forwarder_ok f \<Longrightarrow> forwarder_ok f'"
  by (induction rule: forward_step.induct)
    (auto simp: forwarder_ok_def list_all_iff dest: normalizeTailnetEvents_valid)

text \<open>
  C27: In every interleaving of the forwarder with its reader and the cancellation of its context, no change is lost: an event offered since
  the reader last took one leaves an event in the channel. Events are valid, no channel overflows, and the forwarder ends only
  after it has reported an error or its context has ended.
\<close>

theorem hints_not_lost:
  assumes "subscribed f"
  shows "(fw_unseen f \<longrightarrow> fw_events f \<noteq> []) \<and> list_all (\<lambda>event. event_Validate event = None) (fw_events f) \<and>
     length (fw_events f) \<le> 1 \<and> length (fw_errors f) \<le> 1 \<and> (fw_closed f \<longrightarrow> fw_reported f \<or> fw_done f)"
proof -
  from assms have "forwarder_ok f"
  proof induction
    case (opened ctxNil watcher f)
    then have "fw_events f = []" "fw_errors f = []" "fw_batch f = []" "\<not> fw_closed f" "\<not> fw_unseen f" "\<not> fw_reported f"
      by (auto simp: Subscribe_def split: if_splits option.splits sum.splits)
    then show ?case by (simp add: forwarder_ok_def)
  qed (rule forwarder_ok_step)
  then show ?thesis by (auto simp: forwarder_ok_def)
qed

section \<open>A daemon\<close>

text \<open>A daemon that keeps the routes of the last edit and allows them and the node's own address.\<close>

fun sample_routes :: "local_history \<Rightarrow> prefix list" where
  "sample_routes [] = []"
| "sample_routes (EditPrefs edit _ # h) = mp_AdvertiseRoutes edit"
| "sample_routes (_ # h) = sample_routes h"

definition sample_status :: "local_history \<Rightarrow> local_status" where
  "sample_status h = \<lparr>ls_BackendState = ''Running'', ls_TUN = True, ls_TailscaleIPs = [Addr4 0x64400001],
     ls_Self = Some \<lparr>sn_InNetworkMap = True, sn_Online = True,
       sn_AllowedIPs = Some (PrefixFrom (Addr4 0x64400001) 32 # sample_routes h)\<rparr>\<rparr>"

definition sample_daemon :: local_env where
  "sample_daemon = \<lparr>le_Status = \<lambda>h. Inr (Some (sample_status h)), le_GetPrefs = \<lambda>h. Inr (Some \<lparr>lp_AdvertiseRoutes = sample_routes h\<rparr>),
     le_EditPrefs = \<lambda>h edit. Inr (Some \<lparr>lp_AdvertiseRoutes = mp_AdvertiseRoutes edit\<rparr>), le_Now = \<lambda>h. 1, le_Running = ''Running''\<rparr>"

definition sample_preferences :: tailnet_preferences where
  "sample_preferences = \<lparr>tp_AdvertiseRoutes = [PrefixFrom (Addr4 0x0A000000) 8]\<rparr>"

lemma sample_write: "fst (run_state (WritePreferences sample_daemon sample_preferences) []) = Inr ()"
  by code_simp

theorem WritePreferences_converged_witness:
  "run_state (WritePreferences sample_daemon sample_preferences) [] = (Inr (), snd (run_state (WritePreferences sample_daemon sample_preferences) [])) \<and>
   length (snd (run_state (WritePreferences sample_daemon sample_preferences) [])) = 1"
proof -
  have run: "run_state (WritePreferences sample_daemon sample_preferences) [] = (Inr (), snd (run_state (WritePreferences sample_daemon sample_preferences) []))"
    using sample_write by (simp add: prod_eq_iff)
  with WritePreferences_converged [OF run] show ?thesis by auto
qed

lemma sample_read: "\<not> isl (fst (run_state (ReadState sample_daemon) []))"
  by code_simp

theorem ReadState_sound_witness:
  "\<exists>state calls. run_state (ReadState sample_daemon) [] = (Inr state, calls) \<and> length calls = 3 \<and> control_Validate (ts_Control state) = []"
proof -
  obtain state calls where run: "run_state (ReadState sample_daemon) [] = (Inr state, calls)"
    using sample_read by (cases "run_state (ReadState sample_daemon) []"; cases "fst (run_state (ReadState sample_daemon) [])") auto
  from ReadState_sound [OF run] run show ?thesis by auto
qed

definition sample_forwarder :: forwarder where
  "sample_forwarder = \<lparr>fw_events = [], fw_errors = [], fw_batch = [], fw_done = False, fw_closed = False, fw_reported = False, fw_unseen = False\<rparr>"

definition sample_notification :: ipn_notify where
  "sample_notification = \<lparr>nf_State = True, nf_InitialStatus = False, nf_PeersChanged = 2, nf_PeersRemoved = 0, nf_PeerChangedPatch = 0, nf_SelfChange = False\<rparr>"

text \<open>Two events of one notification: the first fills the channel, the second is dropped.\<close>

lemma sample_forwarded:
  "subscribed (sample_forwarder\<lparr>fw_events := [\<lparr>te_Kind = TailnetEventStateChanged\<rparr>], fw_unseen := True\<rparr>)"
proof -
  let ?first = "\<lparr>te_Kind = TailnetEventStateChanged\<rparr>" and ?second = "\<lparr>te_Kind = TailnetEventNetworkMap\<rparr>"
  have "Subscribe False (Some (Inr False)) = Inr sample_forwarder" by (simp add: Subscribe_def sample_forwarder_def)
  moreover have "forward_step sample_forwarder (sample_forwarder\<lparr>fw_batch := [?first, ?second]\<rparr>)"
    using Next [of sample_forwarder sample_notification] by (simp add: sample_forwarder_def normalizeTailnetEvents_def sample_notification_def)
  moreover have "forward_step (sample_forwarder\<lparr>fw_batch := [?first, ?second]\<rparr>)
      (sample_forwarder\<lparr>fw_events := [?first], fw_batch := [?second], fw_unseen := True\<rparr>)"
    using Send [of "sample_forwarder\<lparr>fw_batch := [?first, ?second]\<rparr>"] by (simp add: sample_forwarder_def)
  moreover have "forward_step (sample_forwarder\<lparr>fw_events := [?first], fw_batch := [?second], fw_unseen := True\<rparr>)
      (sample_forwarder\<lparr>fw_events := [?first], fw_unseen := True\<rparr>)"
    using Drop [of "sample_forwarder\<lparr>fw_events := [?first], fw_batch := [?second], fw_unseen := True\<rparr>"] by (simp add: sample_forwarder_def)
  ultimately show ?thesis by (meson subscribed.opened subscribed.step)
qed

theorem hints_not_lost_witness:
  "subscribed (sample_forwarder\<lparr>fw_events := [\<lparr>te_Kind = TailnetEventStateChanged\<rparr>], fw_unseen := True\<rparr>) \<and>
   event_Validate \<lparr>te_Kind = TailnetEventStateChanged\<rparr> = None"
  using hints_not_lost [OF sample_forwarded] sample_forwarded by simp

end
