(* ===== verification/Kubernetes_Coordination.thy ===== *)
theory Kubernetes_Coordination
  imports Configuration Fingerprint Netip_Parse
begin

text \<open>
  \<^verbatim>\<open>internal/adapter/kubernetes/coordination.go\<close>: the agent runs only while it holds a Lease. \<^verbatim>\<open>Run\<close>, the callbacks it gives to the leader
  elector and the goroutine that watches the leadership context are steps that interleave on the session, the channels
  and the contexts. The elector is a parameter of the relation only in what it may do: it acquires the lease at any
  time, ends its term at any time or when its context is cancelled, calls \<^verbatim>\<open>OnStartedLeading\<close> once in a goroutine of its own
  and \<^verbatim>\<open>OnStoppedLeading\<close> at its end, after it has cancelled the leadership context.
\<close>

section \<open>The session\<close>

text \<open>The context of the callback: absent, alive, or cancelled with its first cause.\<close>

record owned_session =
  ss_stopping :: bool
  ss_context :: "port_error option option"

definition session_start :: "owned_session \<Rightarrow> port_error option \<Rightarrow> owned_session \<times> bool" where
  "session_start session parentCause =
     (if ss_stopping session \<or> parentCause \<noteq> None then (session, False)
      else (session\<lparr>ss_context := Some None\<rparr>, True))"

text \<open>
  \<^verbatim>\<open>stop\<close> calls the cancel function after it has released the mutex. Between the two, only the context is still alive, so that the
  model takes both as one step.
\<close>

definition session_stop :: "owned_session \<Rightarrow> port_error \<Rightarrow> owned_session \<times> bool" where
  "session_stop session cause =
     (case ss_context session of
        None \<Rightarrow> (session\<lparr>ss_stopping := True\<rparr>, False)
      | Some c \<Rightarrow> (session\<lparr>ss_stopping := True, ss_context := Some (Some (case c of None \<Rightarrow> cause | Some first \<Rightarrow> first))\<rparr>, True))"

section \<open>Goroutines\<close>

datatype elector = Trying | Leading | SteppingDown | StoppedLeading

datatype callback = NotCalled | Called | Refused | Started | Running | Returning "port_error option" | Reported | CallbackEnded

datatype position =
    Acquiring
  | Owning
  | AwaitElection "port_error list" bool
  | AwaitResult "port_error list"
  | AwaitResultFirst
  | Returned "port_error list"

record coordination =
  co_main :: position
  co_session :: owned_session
  co_acquired :: bool
  co_results :: "port_error option list"
  co_electionStopped :: bool
  co_cancelled :: bool
  co_parent :: "port_error option"
  co_elector :: elector
  co_leadershipDone :: bool
  co_callback :: callback
  co_watching :: bool
  co_early :: bool

definition initial :: "port_error option \<Rightarrow> coordination" where
  "initial parent =
     \<lparr>co_main = Acquiring, co_session = \<lparr>ss_stopping = False, ss_context = None\<rparr>, co_acquired = False, co_results = [],
      co_electionStopped = False, co_cancelled = False, co_parent = parent, co_elector = Trying, co_leadershipDone = False,
      co_callback = NotCalled, co_watching = False, co_early = False\<rparr>"

definition errCoordinationLost :: port_error where
  "errCoordinationLost = ''kubernetes Lease ownership was lost''"

definition acquireErr :: port_error where
  "acquireErr = ''coordination lease was not acquired in time''"

definition stoppedErr :: port_error where
  "stoppedErr = ''kubernetes Lease coordination stopped before ownership was acquired''"

definition joined :: "port_error list \<Rightarrow> port_error option \<Rightarrow> port_error list" where
  "joined errors err = errors @ (case err of None \<Rightarrow> [] | Some e \<Rightarrow> [e])"

text \<open>The first \<^verbatim>\<open>select\<close>: the parent ended or the timer fired before the acquisition was seen.\<close>

definition abandon :: "coordination \<Rightarrow> port_error \<Rightarrow> port_error list \<Rightarrow> coordination" where
  "abandon c cause errors =
     (case session_stop (co_session c) cause of (session, started) \<Rightarrow>
        c\<lparr>co_session := session, co_cancelled := True, co_main := AwaitElection errors started, co_early := started\<rparr>)"

inductive coordination_step :: "coordination \<Rightarrow> coordination \<Rightarrow> bool" where
  ParentDone: "co_parent c = None \<Longrightarrow> coordination_step c (c\<lparr>co_parent := Some cause\<rparr>)"
| Acquire: "co_elector c = Trying \<Longrightarrow> coordination_step c (c\<lparr>co_elector := Leading, co_callback := Called\<rparr>)"
| Lose: "co_elector c = Leading \<Longrightarrow> coordination_step c (c\<lparr>co_elector := SteppingDown, co_leadershipDone := True\<rparr>)"
| Abort: "co_elector c = Trying \<Longrightarrow> co_cancelled c \<Longrightarrow> coordination_step c (c\<lparr>co_elector := SteppingDown\<rparr>)"
| OnStoppedLeading: "co_elector c = SteppingDown \<Longrightarrow> coordination_step c (c\<lparr>co_elector := StoppedLeading, co_electionStopped := True\<rparr>)"
| OnStartedLeading: "\<lbrakk>co_callback c = Called; session_start (co_session c) (co_parent c) = (session, True)\<rbrakk>
    \<Longrightarrow> coordination_step c (c\<lparr>co_session := session, co_callback := Started\<rparr>)"
| RefuseStart: "\<lbrakk>co_callback c = Called; session_start (co_session c) (co_parent c) = (session, False)\<rbrakk>
    \<Longrightarrow> coordination_step c (c\<lparr>co_callback := Refused, co_cancelled := True\<rparr>)"
| CloseAcquired: "co_callback c = Started \<Longrightarrow> coordination_step c (c\<lparr>co_acquired := True, co_watching := True, co_callback := Running\<rparr>)"
| OwnedReturns: "co_callback c = Running \<Longrightarrow> coordination_step c (c\<lparr>co_callback := Returning result\<rparr>)"
| SendResult: "\<lbrakk>co_callback c = Returning result; length (co_results c) < 1\<rbrakk>
    \<Longrightarrow> coordination_step c (c\<lparr>co_results := co_results c @ [result], co_callback := Reported\<rparr>)"
| CallbackCancels: "co_callback c = Reported \<Longrightarrow> coordination_step c (c\<lparr>co_cancelled := True, co_callback := CallbackEnded\<rparr>)"
| Watch: "\<lbrakk>co_watching c; co_leadershipDone c\<rbrakk>
    \<Longrightarrow> coordination_step c (c\<lparr>co_session := fst (session_stop (co_session c) errCoordinationLost), co_watching := False\<rparr>)"
| SeeAcquired: "\<lbrakk>co_main c = Acquiring; co_acquired c\<rbrakk> \<Longrightarrow> coordination_step c (c\<lparr>co_main := Owning\<rparr>)"
| ParentFirst: "\<lbrakk>co_main c = Acquiring; co_parent c = Some cause\<rbrakk> \<Longrightarrow> coordination_step c (abandon c cause [])"
| TimerFirst: "co_main c = Acquiring \<Longrightarrow> coordination_step c (abandon c acquireErr [acquireErr])"
| StoppedFirst: "\<lbrakk>co_main c = Acquiring; co_electionStopped c; session_stop (co_session c) stoppedErr = (session, started)\<rbrakk>
    \<Longrightarrow> coordination_step c (c\<lparr>co_session := session, co_main := (if started then AwaitResult [stoppedErr] else Returned [stoppedErr])\<rparr>)"
| ResultOwned: "\<lbrakk>co_main c = Owning; co_results c = result # rest\<rbrakk>
    \<Longrightarrow> coordination_step c (c\<lparr>co_results := rest, co_cancelled := True, co_main := AwaitElection (joined [] result) False\<rparr>)"
| ParentOwned: "\<lbrakk>co_main c = Owning; co_parent c = Some cause\<rbrakk>
    \<Longrightarrow> coordination_step c (c\<lparr>co_session := fst (session_stop (co_session c) cause), co_main := AwaitResultFirst\<rparr>)"
| StoppedOwned: "\<lbrakk>co_main c = Owning; co_electionStopped c\<rbrakk>
    \<Longrightarrow> coordination_step c (c\<lparr>co_session := fst (session_stop (co_session c) errCoordinationLost), co_main := AwaitResult [errCoordinationLost]\<rparr>)"
| ResultFirst: "\<lbrakk>co_main c = AwaitResultFirst; co_results c = result # rest\<rbrakk>
    \<Longrightarrow> coordination_step c (c\<lparr>co_results := rest, co_cancelled := True, co_main := AwaitElection (joined [] result) False\<rparr>)"
| ElectionStopped: "\<lbrakk>co_main c = AwaitElection errors started; co_electionStopped c\<rbrakk>
    \<Longrightarrow> coordination_step c (c\<lparr>co_main := (if started then AwaitResult errors else Returned errors)\<rparr>)"
| Result: "\<lbrakk>co_main c = AwaitResult errors; co_results c = result # rest\<rbrakk>
    \<Longrightarrow> coordination_step c (c\<lparr>co_results := rest, co_main := Returned (joined errors result)\<rparr>)"

inductive coordinated :: "coordination \<Rightarrow> bool" where
  begin_run: "coordinated (initial parent)"
| continue: "coordinated c \<Longrightarrow> coordination_step c c' \<Longrightarrow> coordinated c'"

section \<open>The identity of a holder\<close>

definition newHolderIdentity :: "(port_error, string) result \<Rightarrow> (port_error, 8 word list) result \<Rightarrow> (port_error, string) result" where
  "newHolderIdentity hostname random =
     (case hostname of
        Inl e \<Rightarrow> Inl e
      | Inr host \<Rightarrow>
          (case random of
             Inl e \<Rightarrow> Inl e
           | Inr bytes \<Rightarrow>
               let identity = host @ '':'' @ EncodeToString bytes in
               Inr (if length identity > 128
                    then EncodeToString (take 16 (Sum256 host)) @ '':'' @ EncodeToString bytes
                    else identity)))"

datatype coordinator_error =
    NamespaceUnreadable port_error | NamespaceEmpty | NamespaceInvalid string "string list" | ClusterConfigurationFailed port_error
  | ClientFailed port_error | IdentityFailed port_error

record coordinator =
  cd_configuration :: coordination_configuration
  cd_namespace :: string
  cd_holderIdentity :: string

text \<open>\<open>isLabel\<close> lists what the Kubernetes library finds wrong with a label.\<close>

definition NewCoordinator ::
  "(string \<Rightarrow> string list) \<Rightarrow> coordination_configuration \<Rightarrow> (port_error, string) result \<Rightarrow> port_error option \<Rightarrow> port_error option \<Rightarrow>
   (port_error, string) result \<Rightarrow> (port_error, 8 word list) result \<Rightarrow> (coordinator_error, coordinator) result" where
  "NewCoordinator isLabel configuration namespaceFile clusterErr clientErr hostname random =
     (case namespaceFile of
        Inl e \<Rightarrow> Inl (NamespaceUnreadable e)
      | Inr text \<Rightarrow>
          let namespace = TrimSpace text in
          if namespace = [] then Inl NamespaceEmpty
          else if isLabel namespace \<noteq> [] then Inl (NamespaceInvalid namespace (isLabel namespace))
          else case clusterErr of
            Some e \<Rightarrow> Inl (ClusterConfigurationFailed e)
          | None \<Rightarrow>
              (case clientErr of
                 Some e \<Rightarrow> Inl (ClientFailed e)
               | None \<Rightarrow>
                   (case newHolderIdentity hostname random of
                      Inl e \<Rightarrow> Inl (IdentityFailed e)
                    | Inr identity \<Rightarrow>
                        Inr \<lparr>cd_configuration = configuration, cd_namespace = namespace, cd_holderIdentity = identity\<rparr>)))"

section \<open>Invariants of every interleaving\<close>

fun owned_active :: "callback \<Rightarrow> bool" where
  "owned_active Started = True"
| "owned_active Running = True"
| "owned_active (Returning _) = True"
| "owned_active _ = False"

fun owned_over :: "callback \<Rightarrow> bool" where
  "owned_over Reported = True"
| "owned_over CallbackEnded = True"
| "owned_over _ = False"

definition stopped_context :: "owned_session \<Rightarrow> bool" where
  "stopped_context session \<longleftrightarrow> (\<exists>cause. ss_context session = Some (Some cause))"

text \<open>The callback has reported and its result is still in the channel, or it has not reported yet.\<close>

definition result_due :: "port_error option list \<Rightarrow> callback \<Rightarrow> bool" where
  "result_due results x \<longleftrightarrow> length results = (if owned_over x then 1 else 0)"

text \<open>Nothing of the callback is left: its result has been taken, or it will never be started.\<close>

definition settled :: "port_error option list \<Rightarrow> callback \<Rightarrow> owned_session \<Rightarrow> bool" where
  "settled results x session \<longleftrightarrow> results = [] \<and> (owned_over x \<or> ss_context session = None \<and> ss_stopping session)"

fun awaits_result :: "position \<Rightarrow> bool" where
  "awaits_result (AwaitElection _ started) = started"
| "awaits_result (Returned _) = False"
| "awaits_result _ = True"

fun has_stopped :: "position \<Rightarrow> bool" where
  "has_stopped (AwaitElection _ started) = started"
| "has_stopped (AwaitResult _) = True"
| "has_stopped AwaitResultFirst = True"
| "has_stopped _ = False"

fun awaits_election :: "position \<Rightarrow> bool" where
  "awaits_election (AwaitElection _ _) = True"
| "awaits_election _ = False"

definition position_ok :: "coordination \<Rightarrow> bool" where
  "position_ok c \<longleftrightarrow>
     (if awaits_result (co_main c) then result_due (co_results c) (co_callback c) else settled (co_results c) (co_callback c) (co_session c)) \<and>
     (co_main c = Owning \<longrightarrow> owned_active (co_callback c) \<or> owned_over (co_callback c)) \<and>
     (has_stopped (co_main c) \<longrightarrow> stopped_context (co_session c)) \<and>
     (awaits_election (co_main c) \<longrightarrow> co_cancelled c)"

definition coordination_ok :: "coordination \<Rightarrow> bool" where
  "coordination_ok c \<longleftrightarrow>
     (ss_context (co_session c) \<noteq> None \<longleftrightarrow> owned_active (co_callback c) \<or> owned_over (co_callback c)) \<and>
     (co_acquired c \<longrightarrow> owned_active (co_callback c) \<or> owned_over (co_callback c)) \<and>
     (co_elector c = Trying \<longrightarrow> co_callback c = NotCalled) \<and>
     (co_electionStopped c \<longleftrightarrow> co_elector c = StoppedLeading) \<and>
     (co_callback c = Running \<and> ss_context (co_session c) = Some None \<longrightarrow> co_watching c) \<and>
     (co_cancelled c \<longrightarrow> ss_stopping (co_session c) \<or> co_callback c = Refused \<or> owned_over (co_callback c)) \<and>
     (co_cancelled c \<and> owned_active (co_callback c) \<longrightarrow> co_early c) \<and>
     position_ok c"

lemma coordination_ok_initial: "coordination_ok (initial parent)"
  by (simp add: coordination_ok_def initial_def position_ok_def result_due_def)

lemmas session_defs = session_start_def session_stop_def stopped_context_def

lemmas coordination_defs = coordination_ok_def position_ok_def abandon_def session_defs result_due_def settled_def

lemma over_not_active [simp]: "owned_over x \<Longrightarrow> \<not> owned_active x"
  by (cases x) simp_all

lemma ok_ParentDone: "coordination_ok c \<Longrightarrow> co_parent c = None \<Longrightarrow> coordination_ok (c\<lparr>co_parent := Some cause\<rparr>)"
  by (simp add: coordination_ok_def position_ok_def)

lemma ok_Acquire: "coordination_ok c \<Longrightarrow> co_elector c = Trying \<Longrightarrow> coordination_ok (c\<lparr>co_elector := Leading, co_callback := Called\<rparr>)"
  unfolding coordination_ok_def position_ok_def by (elim conjE) (simp add: result_due_def settled_def split: if_splits)

lemma ok_Lose: "coordination_ok c \<Longrightarrow> co_elector c = Leading \<Longrightarrow> coordination_ok (c\<lparr>co_elector := SteppingDown, co_leadershipDone := True\<rparr>)"
  by (simp add: coordination_ok_def position_ok_def)

lemma ok_Abort: "coordination_ok c \<Longrightarrow> co_elector c = Trying \<Longrightarrow> co_cancelled c \<Longrightarrow> coordination_ok (c\<lparr>co_elector := SteppingDown\<rparr>)"
  unfolding coordination_ok_def position_ok_def by (elim conjE) (simp add: result_due_def settled_def split: if_splits)

lemma ok_OnStoppedLeading: "coordination_ok c \<Longrightarrow> co_elector c = SteppingDown \<Longrightarrow> coordination_ok (c\<lparr>co_elector := StoppedLeading, co_electionStopped := True\<rparr>)"
  by (simp add: coordination_ok_def position_ok_def)

lemma ok_OnStartedLeading: "coordination_ok c \<Longrightarrow> \<lbrakk>co_callback c = Called; session_start (co_session c) (co_parent c) = (session, True)\<rbrakk> \<Longrightarrow> coordination_ok (c\<lparr>co_session := session, co_callback := Started\<rparr>)"
  by (auto simp: coordination_defs split: if_splits option.splits)

lemma ok_RefuseStart: "coordination_ok c \<Longrightarrow> \<lbrakk>co_callback c = Called; session_start (co_session c) (co_parent c) = (session, False)\<rbrakk> \<Longrightarrow> coordination_ok (c\<lparr>co_callback := Refused, co_cancelled := True\<rparr>)"
  by (auto simp: coordination_defs split: if_splits option.splits)

lemma ok_CloseAcquired: "coordination_ok c \<Longrightarrow> co_callback c = Started \<Longrightarrow> coordination_ok (c\<lparr>co_acquired := True, co_watching := True, co_callback := Running\<rparr>)"
  by (auto simp: coordination_defs split: if_splits option.splits)

lemma ok_OwnedReturns: "coordination_ok c \<Longrightarrow> co_callback c = Running \<Longrightarrow> coordination_ok (c\<lparr>co_callback := Returning result\<rparr>)"
  by (auto simp: coordination_defs split: if_splits option.splits)

lemma ok_SendResult: "coordination_ok c \<Longrightarrow> \<lbrakk>co_callback c = Returning result; length (co_results c) < 1\<rbrakk> \<Longrightarrow> coordination_ok (c\<lparr>co_results := co_results c @ [result], co_callback := Reported\<rparr>)"
  by (auto simp: coordination_defs split: if_splits option.splits)

lemma ok_CallbackCancels: "coordination_ok c \<Longrightarrow> co_callback c = Reported \<Longrightarrow> coordination_ok (c\<lparr>co_cancelled := True, co_callback := CallbackEnded\<rparr>)"
  by (auto simp: coordination_defs split: if_splits option.splits)

lemma ok_Watch: "coordination_ok c \<Longrightarrow> \<lbrakk>co_watching c; co_leadershipDone c\<rbrakk> \<Longrightarrow> coordination_ok (c\<lparr>co_session := fst (session_stop (co_session c) errCoordinationLost), co_watching := False\<rparr>)"
proof -
  assume ok: "coordination_ok c"
  let ?s = "fst (session_stop (co_session c) errCoordinationLost)"
  have "ss_context ?s = None \<longleftrightarrow> ss_context (co_session c) = None" "ss_stopping ?s" "ss_context ?s \<noteq> Some None"
    "stopped_context (co_session c) \<Longrightarrow> stopped_context ?s"
    "settled (co_results c) (co_callback c) (co_session c) \<Longrightarrow> settled (co_results c) (co_callback c) ?s"
    by (auto simp: session_defs settled_def split: option.splits)
  with ok show ?thesis
    unfolding coordination_ok_def position_ok_def by (elim conjE) (simp split: if_splits)
qed

lemma ok_SeeAcquired: "coordination_ok c \<Longrightarrow> \<lbrakk>co_main c = Acquiring; co_acquired c\<rbrakk> \<Longrightarrow> coordination_ok (c\<lparr>co_main := Owning\<rparr>)"
  by (auto simp: coordination_defs split: if_splits option.splits)

lemma ok_ParentFirst: "coordination_ok c \<Longrightarrow> \<lbrakk>co_main c = Acquiring; co_parent c = Some cause\<rbrakk> \<Longrightarrow> coordination_ok (abandon c cause [])"
  by (auto simp: coordination_defs split: if_splits option.splits)

lemma ok_TimerFirst: "coordination_ok c \<Longrightarrow> co_main c = Acquiring \<Longrightarrow> coordination_ok (abandon c acquireErr [acquireErr])"
  by (auto simp: coordination_defs split: if_splits option.splits)

lemma ok_StoppedFirst: "coordination_ok c \<Longrightarrow> \<lbrakk>co_main c = Acquiring; co_electionStopped c; session_stop (co_session c) stoppedErr = (session, started)\<rbrakk> \<Longrightarrow> coordination_ok (c\<lparr>co_session := session, co_main := (if started then AwaitResult [stoppedErr] else Returned [stoppedErr])\<rparr>)"
  by (auto simp: coordination_defs split: if_splits option.splits)

lemma ok_ResultOwned: "coordination_ok c \<Longrightarrow> \<lbrakk>co_main c = Owning; co_results c = result # rest\<rbrakk> \<Longrightarrow> coordination_ok (c\<lparr>co_results := rest, co_cancelled := True, co_main := AwaitElection (joined [] result) False\<rparr>)"
  by (auto simp: coordination_defs split: if_splits option.splits)

lemma ok_ParentOwned: "coordination_ok c \<Longrightarrow> \<lbrakk>co_main c = Owning; co_parent c = Some cause\<rbrakk> \<Longrightarrow> coordination_ok (c\<lparr>co_session := fst (session_stop (co_session c) cause), co_main := AwaitResultFirst\<rparr>)"
  by (auto simp: coordination_defs split: if_splits option.splits)

lemma ok_StoppedOwned: "coordination_ok c \<Longrightarrow> \<lbrakk>co_main c = Owning; co_electionStopped c\<rbrakk> \<Longrightarrow> coordination_ok (c\<lparr>co_session := fst (session_stop (co_session c) errCoordinationLost), co_main := AwaitResult [errCoordinationLost]\<rparr>)"
  by (auto simp: coordination_defs split: if_splits option.splits)

lemma ok_ResultFirst: "coordination_ok c \<Longrightarrow> \<lbrakk>co_main c = AwaitResultFirst; co_results c = result # rest\<rbrakk> \<Longrightarrow> coordination_ok (c\<lparr>co_results := rest, co_cancelled := True, co_main := AwaitElection (joined [] result) False\<rparr>)"
  by (auto simp: coordination_defs split: if_splits option.splits)

lemma ok_ElectionStopped: "coordination_ok c \<Longrightarrow> \<lbrakk>co_main c = AwaitElection errors started; co_electionStopped c\<rbrakk> \<Longrightarrow> coordination_ok (c\<lparr>co_main := (if started then AwaitResult errors else Returned errors)\<rparr>)"
  by (auto simp: coordination_defs split: if_splits option.splits)

lemma ok_Result: "coordination_ok c \<Longrightarrow> \<lbrakk>co_main c = AwaitResult errors; co_results c = result # rest\<rbrakk> \<Longrightarrow> coordination_ok (c\<lparr>co_results := rest, co_main := Returned (joined errors result)\<rparr>)"
  by (auto simp: coordination_defs split: if_splits option.splits)

lemmas ok_steps = ok_ParentDone ok_Acquire ok_Lose ok_Abort ok_OnStoppedLeading ok_OnStartedLeading ok_RefuseStart ok_CloseAcquired
  ok_OwnedReturns ok_SendResult ok_CallbackCancels ok_Watch ok_SeeAcquired ok_ParentFirst ok_TimerFirst ok_StoppedFirst ok_ResultOwned
  ok_ParentOwned ok_StoppedOwned ok_ResultFirst ok_ElectionStopped ok_Result

lemma coordination_ok_step: "coordination_step c c' \<Longrightarrow> coordination_ok c \<Longrightarrow> coordination_ok c'"
  by (cases rule: coordination_step.cases) (blast intro: ok_steps)+

lemma coordination_okD:
  assumes "coordination_ok c"
  shows "ss_context (co_session c) \<noteq> None \<longleftrightarrow> owned_active (co_callback c) \<or> owned_over (co_callback c)"
    "co_callback c = Running \<and> ss_context (co_session c) = Some None \<longrightarrow> co_watching c"
    "co_cancelled c \<and> owned_active (co_callback c) \<longrightarrow> co_early c"
    "awaits_result (co_main c) \<Longrightarrow> result_due (co_results c) (co_callback c)"
    "\<not> awaits_result (co_main c) \<Longrightarrow> settled (co_results c) (co_callback c) (co_session c)"
    "has_stopped (co_main c) \<Longrightarrow> stopped_context (co_session c)"
    "awaits_election (co_main c) \<Longrightarrow> co_cancelled c"
  using assms unfolding coordination_ok_def position_ok_def by (elim conjE; simp only: if_True if_False simp_thms)+

lemma coordinated_ok: "coordinated c \<Longrightarrow> coordination_ok c"
  by (induction rule: coordinated.induct) (auto intro: coordination_ok_initial coordination_ok_step)

lemma returned_stays:
  assumes "coordination_step\<^sup>*\<^sup>* c c'" "co_main c = Returned errors"
  shows "co_main c' = Returned errors"
  using assms by (induction rule: rtranclp_induct) (auto elim!: coordination_step.cases simp: abandon_def split: prod.splits)

text \<open>
  C20: Once \<^verbatim>\<open>Run\<close> has returned, the owned function is not running and never runs again, however the goroutines are scheduled after
  that and whatever the elector still does.
\<close>

theorem owned_ends_before_return:
  assumes "coordinated c" "co_main c = Returned errors" "coordination_step\<^sup>*\<^sup>* c c'"
  shows "\<not> owned_active (co_callback c')"
proof -
  from assms(3,1) have "coordinated c'" by (induction rule: rtranclp_induct) (auto intro: coordinated.continue)
  then have "coordination_ok c'" by (rule coordinated_ok)
  moreover have "co_main c' = Returned errors" using returned_stays [OF assms(3,2)] .
  ultimately have "settled (co_results c') (co_callback c') (co_session c')" using coordination_okD(5) by simp
  with coordination_okD(1) [OF \<open>coordination_ok c'\<close>] over_not_active show ?thesis by (auto simp: settled_def)
qed

text \<open>
  C21: \<^verbatim>\<open>Run\<close> never waits in vain. When it waits for the end of the election, the election has ended or its context is cancelled; when it waits for
  the result of the owned function, the result is in the channel, or the function is still on its way and its context has
  been cancelled. While the owned function runs with a live context, the loss of the leadership is watched, and the lease is
  given up under it only when the acquisition itself was abandoned.
\<close>

theorem waits_justified:
  assumes "coordinated c"
  shows "(awaits_election (co_main c) \<longrightarrow> co_electionStopped c \<or> co_cancelled c) \<and>
     (has_stopped (co_main c) \<longrightarrow> co_results c \<noteq> [] \<or> owned_active (co_callback c) \<and> stopped_context (co_session c)) \<and>
     (co_callback c = Running \<and> ss_context (co_session c) = Some None \<longrightarrow> co_watching c) \<and>
     (owned_active (co_callback c) \<and> co_cancelled c \<longrightarrow> co_early c)"
proof -
  have ok: "coordination_ok c" using assms by (rule coordinated_ok)
  have "co_results c \<noteq> [] \<or> owned_active (co_callback c) \<and> stopped_context (co_session c)" if stopped: "has_stopped (co_main c)"
  proof -
    have "awaits_result (co_main c)" using stopped by (cases "co_main c") auto
    then have "result_due (co_results c) (co_callback c)" by (rule coordination_okD(4) [OF ok])
    moreover have "stopped_context (co_session c)" using stopped by (rule coordination_okD(6) [OF ok])
    moreover from this have "owned_active (co_callback c) \<or> owned_over (co_callback c)"
      using coordination_okD(1) [OF ok] by (auto simp: stopped_context_def)
    ultimately show ?thesis by (auto simp: result_due_def)
  qed
  with coordination_okD(2,3,7) [OF ok] show ?thesis by blast
qed

text \<open>
  The exception is real: when the timer fires between the start of the session and the moment \<^verbatim>\<open>Run\<close> sees the acquisition, the election is
  cancelled, and the lease released, while the owned function still runs. In the later branches the lease is kept until the
  function has returned.
\<close>

definition started_run :: coordination where
  "started_run = (initial None)\<lparr>co_elector := Leading, co_session := \<lparr>ss_stopping = False, ss_context = Some None\<rparr>, co_callback := Started\<rparr>"

lemma started_reachable: "coordinated started_run"
proof -
  let ?c = "(initial None)\<lparr>co_elector := Leading, co_callback := Called\<rparr>"
  have "coordination_step (initial None) ?c" by (rule Acquire) (simp add: initial_def)
  moreover have "coordination_step ?c started_run"
    using OnStartedLeading [of ?c "\<lparr>ss_stopping = False, ss_context = Some None\<rparr>"]
    by (simp add: session_start_def initial_def started_run_def)
  ultimately show ?thesis by (meson begin_run coordinated.continue)
qed

definition abandoned_run :: coordination where
  "abandoned_run = (abandon started_run acquireErr [acquireErr])
     \<lparr>co_acquired := True, co_watching := True, co_callback := Running, co_elector := StoppedLeading, co_leadershipDone := True, co_electionStopped := True\<rparr>"

lemma abandoned_reachable: "coordinated abandoned_run"
proof -
  let ?a = "abandon started_run acquireErr [acquireErr]"
  let ?b = "?a\<lparr>co_acquired := True, co_watching := True, co_callback := Running\<rparr>"
  let ?d = "?b\<lparr>co_elector := SteppingDown, co_leadershipDone := True\<rparr>"
  have "coordination_step started_run ?a" by (rule TimerFirst) (simp add: started_run_def initial_def)
  moreover have "coordination_step ?a ?b" by (rule CloseAcquired) (simp add: abandon_def session_stop_def started_run_def initial_def)
  moreover have "coordination_step ?b ?d" by (rule Lose) (simp add: abandon_def session_stop_def started_run_def initial_def)
  moreover have "coordination_step ?d abandoned_run"
    using OnStoppedLeading [of ?d] by (simp add: abandoned_run_def abandon_def session_stop_def started_run_def initial_def)
  ultimately show ?thesis by (meson started_reachable coordinated.continue)
qed

lemma early_release:
  "coordinated abandoned_run \<and> co_callback abandoned_run = Running \<and> co_elector abandoned_run = StoppedLeading \<and> co_parent abandoned_run = None"
  using abandoned_reachable by (simp add: abandoned_run_def abandon_def session_stop_def started_run_def initial_def)

section \<open>A run\<close>

theorem waits_justified_witness: "coordinated abandoned_run \<and> has_stopped (co_main abandoned_run) \<and> owned_active (co_callback abandoned_run) \<and>
   stopped_context (co_session abandoned_run)"
proof -
  have "has_stopped (co_main abandoned_run)" "co_results abandoned_run = []"
    by (simp_all add: abandoned_run_def abandon_def session_stop_def started_run_def initial_def)
  with waits_justified [OF abandoned_reachable] abandoned_reachable show ?thesis by blast
qed

definition returned_run :: coordination where
  "returned_run = (initial (Some ''stop''))\<lparr>co_session := \<lparr>ss_stopping = True, ss_context = None\<rparr>, co_cancelled := True,
     co_elector := StoppedLeading, co_electionStopped := True, co_main := Returned []\<rparr>"

lemma returned_reachable: "coordinated returned_run"
proof -
  let ?i = "initial (Some ''stop'')"
  let ?a = "abandon ?i ''stop'' []"
  let ?b = "?a\<lparr>co_elector := SteppingDown\<rparr>"
  let ?d = "?b\<lparr>co_elector := StoppedLeading, co_electionStopped := True\<rparr>"
  have "coordination_step ?i ?a" by (rule ParentFirst) (simp_all add: initial_def)
  moreover have "coordination_step ?a ?b" by (rule Abort) (simp_all add: abandon_def session_stop_def initial_def)
  moreover have "coordination_step ?b ?d" by (rule OnStoppedLeading) simp
  moreover have "coordination_step ?d returned_run"
    using ElectionStopped [of ?d "[]" False] by (simp add: returned_run_def abandon_def session_stop_def initial_def)
  ultimately show ?thesis by (meson begin_run coordinated.continue)
qed

theorem owned_ends_before_return_witness: "coordinated returned_run \<and> \<not> owned_active (co_callback returned_run)"
proof -
  have "co_main returned_run = Returned []" by (simp add: returned_run_def)
  from owned_ends_before_return [OF returned_reachable this rtranclp.rtrancl_refl] returned_reachable show ?thesis by blast
qed

end
