(* ===== verification/File_Lock.thy ===== *)
theory File_Lock
  imports Configuration Histories
begin

unbundle bit_operations_syntax

text \<open>
  \<^verbatim>\<open>internal/adapter/filelock/coordination_linux.go\<close>: the agent runs only while it holds an advisory lock on a file. Every call to the
  operating system, every wait and the owned function itself are calls with their answers. The loop that waits for the
  lock is bounded by the number of attempts it is given; a run that is still waiting then is told apart by its result.
\<close>

section \<open>Calls\<close>

datatype wakeup = ContextDone | DeadlinePassed | RetryTick

record file_status =
  fst_Mode :: "32 word"
  fst_Uid :: "32 word"

datatype open_flag = O_CREAT | O_RDWR | O_CLOEXEC | O_NOFOLLOW

datatype lock_call =
    LockOpen string "open_flag list" "32 word" "port_error option"
  | LockHandle bool
  | LockFstat "(port_error, file_status) result"
  | LockGeteuid "32 word"
  | LockFchmod "32 word" "port_error option"
  | Flock "port_error option"
  | LockWait wakeup
  | RunOwned "port_error list"
  | Unlock "port_error option"
  | LockClose "port_error option"

type_synonym lock_history = "lock_call list"

record lock_env =
  lk_Open :: "lock_history \<Rightarrow> port_error option"
  lk_Handle :: "lock_history \<Rightarrow> bool"
  lk_Fstat :: "lock_history \<Rightarrow> (port_error, file_status) result"
  lk_Geteuid :: "lock_history \<Rightarrow> 32 word"
  lk_Fchmod :: "lock_history \<Rightarrow> port_error option"
  lk_Flock :: "lock_history \<Rightarrow> port_error option"
  lk_WouldBlock :: "port_error \<Rightarrow> bool"
  lk_Wait :: "lock_history \<Rightarrow> wakeup"
  lk_Owned :: "lock_history \<Rightarrow> port_error list"
  lk_Unlock :: "lock_history \<Rightarrow> port_error option"
  lk_Close :: "lock_history \<Rightarrow> port_error option"

datatype lock_error =
    CallbackRequired
  | LockOpenFailed port_error
  | LockHandleFailed
  | LockInspectFailed port_error
  | LockFileUnsuitable
  | LockSecureFailed port_error
  | LockAcquireFailed port_error
  | LockTimeout duration
  | OwnedFailed port_error
  | ReleaseFailed port_error
  | CloseFailed port_error

definition S_IFMT :: "32 word" where
  "S_IFMT = 0xF000"

definition S_IFREG :: "32 word" where
  "S_IFREG = 0x8000"

text \<open>The mode \<^verbatim>\<open>0o600\<close>: the owner reads and writes.\<close>

definition lockFileMode :: "32 word" where
  "lockFileMode = 0x180"

definition lockFileFlags :: "open_flag list" where
  "lockFileFlags = [O_CREAT, O_RDWR, O_CLOEXEC, O_NOFOLLOW]"

definition suitable :: "file_status \<Rightarrow> 32 word \<Rightarrow> bool" where
  "suitable status euid \<longleftrightarrow> fst_Mode status AND S_IFMT = S_IFREG \<and> fst_Uid status = euid"

section \<open>Acquiring and releasing\<close>

text \<open>How the loop ends: with the lock, with an error, because the context ended, or not yet.\<close>

datatype lock_outcome = Locked | LockFailed lock_error | LockCancelled | StillWaiting

fun acquireLoop :: "lock_env \<Rightarrow> duration \<Rightarrow> nat \<Rightarrow> (lock_history, lock_outcome) state" where
  "acquireLoop env acquireTimeout 0 = State_Monad.return StillWaiting"
| "acquireLoop env acquireTimeout (Suc attempts) =
     do { err \<leftarrow> outside (lk_Flock env) Flock;
          case err of
            None \<Rightarrow> State_Monad.return Locked
          | Some e \<Rightarrow>
              if \<not> lk_WouldBlock env e then State_Monad.return (LockFailed (LockAcquireFailed e))
              else do { woken \<leftarrow> outside (lk_Wait env) LockWait;
                        case woken of
                          ContextDone \<Rightarrow> State_Monad.return LockCancelled
                        | DeadlinePassed \<Rightarrow> State_Monad.return (LockFailed (LockTimeout acquireTimeout))
                        | RetryTick \<Rightarrow> acquireLoop env acquireTimeout attempts } }"

definition holdLock :: "lock_env \<Rightarrow> (lock_history, lock_error list) state" where
  "holdLock env =
     do { callbackErr \<leftarrow> outside (lk_Owned env) RunOwned;
          releaseErr \<leftarrow> outside (lk_Unlock env) Unlock;
          State_Monad.return (map OwnedFailed callbackErr @ wrap_error ReleaseFailed releaseErr) }"

text \<open>The body of \<^verbatim>\<open>Run\<close> once the file handle exists; its deferred \<^verbatim>\<open>Close\<close> joins its own error. \<open>None\<close> tells that it is still waiting.\<close>

definition lockedRun :: "lock_env \<Rightarrow> coordination_configuration \<Rightarrow> nat \<Rightarrow> (lock_history, lock_error list option) state" where
  "lockedRun env configuration attempts =
     do { status \<leftarrow> outside (lk_Fstat env) LockFstat;
          case status of
            Inl e \<Rightarrow> State_Monad.return (Some [LockInspectFailed e])
          | Inr file \<Rightarrow>
              do { euid \<leftarrow> outside (lk_Geteuid env) LockGeteuid;
                   if \<not> suitable file euid then State_Monad.return (Some [LockFileUnsuitable])
                   else do { chmodErr \<leftarrow> outside (lk_Fchmod env) (LockFchmod lockFileMode);
                             case chmodErr of
                               Some e \<Rightarrow> State_Monad.return (Some [LockSecureFailed e])
                             | None \<Rightarrow>
                                 do { outcome \<leftarrow> acquireLoop env (coc_AcquireTimeout configuration) attempts;
                                      case outcome of
                                        Locked \<Rightarrow> do { errs \<leftarrow> holdLock env; State_Monad.return (Some errs) }
                                      | LockFailed e \<Rightarrow> State_Monad.return (Some [e])
                                      | LockCancelled \<Rightarrow> State_Monad.return (Some [])
                                      | StillWaiting \<Rightarrow> State_Monad.return None } } } }"

definition lock_Run :: "lock_env \<Rightarrow> coordination_configuration \<Rightarrow> bool \<Rightarrow> nat \<Rightarrow> (lock_history, lock_error list option) state" where
  "lock_Run env configuration ownedNil attempts =
     (if ownedNil then State_Monad.return (Some [CallbackRequired])
      else do { openErr \<leftarrow> outside (lk_Open env) (LockOpen (coc_LockFile configuration) lockFileFlags lockFileMode);
                case openErr of
                  Some e \<Rightarrow> State_Monad.return (Some [LockOpenFailed e])
                | None \<Rightarrow>
                    do { handle \<leftarrow> outside (lk_Handle env) LockHandle;
                         if \<not> handle
                         then do { _ \<leftarrow> outside (lk_Close env) LockClose; State_Monad.return (Some [LockHandleFailed]) }
                         else do { result \<leftarrow> lockedRun env configuration attempts;
                                   case result of
                                     None \<Rightarrow> State_Monad.return None
                                   | Some errs \<Rightarrow>
                                       do { closeErr \<leftarrow> outside (lk_Close env) LockClose;
                                            State_Monad.return (Some (errs @ wrap_error CloseFailed closeErr)) } } } })"

section \<open>Under the lock\<close>

text \<open>
  What a call may follow: the owned function runs directly after the lock was taken, on a regular file of the current user whose mode was
  set, and for the first time; the lock is released directly after it; a wait follows a refused attempt.
\<close>

fun is_owned :: "lock_call \<Rightarrow> bool" where
  "is_owned (RunOwned _) = True"
| "is_owned _ = False"

fun inspected :: "lock_history \<Rightarrow> bool" where
  "inspected (LockFchmod mode None # LockGeteuid euid # LockFstat (Inr status) # h) \<longleftrightarrow> suitable status euid \<and> mode = lockFileMode"
| "inspected (_ # h) = inspected h"
| "inspected [] = False"

definition lock_order :: "lock_history \<Rightarrow> lock_call \<Rightarrow> bool" where
  "lock_order h c =
     (case c of
        RunOwned _ \<Rightarrow> (case h of Flock None # before \<Rightarrow> inspected before \<and> \<not> list_ex is_owned before | _ \<Rightarrow> False)
      | Unlock _ \<Rightarrow> (case h of RunOwned _ # _ \<Rightarrow> True | _ \<Rightarrow> False)
      | LockWait _ \<Rightarrow> (case h of Flock (Some _) # _ \<Rightarrow> True | _ \<Rightarrow> False)
      | _ \<Rightarrow> True)"

lemma lock_order_simps [simp]:
  "lock_order h (LockOpen p flags mode e)" "lock_order h (LockHandle b)" "lock_order h (LockFstat s)" "lock_order h (LockGeteuid u)"
  "lock_order h (LockFchmod mode e)" "lock_order h (Flock e)" "lock_order h (LockClose e)"
  "lock_order (Flock (Some e') # h) (LockWait w)" "lock_order (RunOwned errs # h) (Unlock e)"
  "lock_order (Flock None # h) (RunOwned errs) \<longleftrightarrow> inspected h \<and> \<not> list_ex is_owned h"
  by (simp_all add: lock_order_def)

fun attempt_call :: "lock_call \<Rightarrow> bool" where
  "attempt_call (Flock _) = True"
| "attempt_call (LockWait _) = True"
| "attempt_call _ = False"

lemma inspected_later: "inspected h \<Longrightarrow> attempt_call c \<Longrightarrow> inspected (c # h)"
  by (cases c) auto

lemma acquireLoop_order:
  assumes "calls_ok lock_order h" "inspected h" "\<not> list_ex is_owned h"
  shows "wp (acquireLoop env t n) (\<lambda>r h'. calls_ok lock_order h' \<and> \<not> list_ex is_owned h' \<and>
     (r = Locked \<longrightarrow> (\<exists>before. h' = Flock None # before \<and> inspected before))) h"
  using assms
proof (induction n arbitrary: h)
  case (Suc n)
  have retry: "wp (acquireLoop env t n) (\<lambda>r h'. calls_ok lock_order h' \<and> \<not> list_ex is_owned h' \<and>
     (r = Locked \<longrightarrow> (\<exists>before. h' = Flock None # before \<and> inspected before))) (LockWait w # Flock (Some e) # h)" for w e
    using Suc.prems by (intro Suc.IH) auto
  with Suc.prems show ?case
    by (auto simp: wp_cases split: option.split wakeup.split)
qed simp

text \<open>
  The calls of a run in which the owned function was called, newest first: it follows the lock, and nothing comes between it and the release; its
  errors and the error of the release are the result.
\<close>

definition lockedRun_post :: "lock_error list option \<Rightarrow> lock_history \<Rightarrow> bool" where
  "lockedRun_post r h \<longleftrightarrow> calls_ok lock_order h \<and>
     (list_ex is_owned h \<longrightarrow> (\<exists>releaseErr errs before. h = Unlock releaseErr # RunOwned errs # Flock None # before \<and>
        inspected before \<and> \<not> list_ex is_owned before \<and> r = Some (map OwnedFailed errs @ wrap_error ReleaseFailed releaseErr)))"

lemma lockedRun_order:
  assumes "calls_ok lock_order h" "\<not> list_ex is_owned h"
  shows "wp (lockedRun env configuration attempts) lockedRun_post h"
proof -
  have acquired: "wp (acquireLoop env t n) (\<lambda>outcome. wp (case outcome of
        Locked \<Rightarrow> do { errs \<leftarrow> holdLock env; State_Monad.return (Some errs) }
      | LockFailed e \<Rightarrow> State_Monad.return (Some [e])
      | LockCancelled \<Rightarrow> State_Monad.return (Some [])
      | StillWaiting \<Rightarrow> State_Monad.return None) lockedRun_post) h'"
    if "calls_ok lock_order h'" "inspected h'" "\<not> list_ex is_owned h'" for h' t n
    by (rule wp_mono [OF acquireLoop_order [OF that]])
      (auto simp: lockedRun_post_def holdLock_def wrap_error_def split: lock_outcome.split option.splits)
  show ?thesis
    using assms acquired
    by (auto simp: lockedRun_def wp_cases lockedRun_post_def split: sum.split option.split)
qed

text \<open>Only the lock file is opened, and without following links.\<close>

fun open_ok :: "coordination_configuration \<Rightarrow> lock_call \<Rightarrow> bool" where
  "open_ok configuration (LockOpen path flags mode e) \<longleftrightarrow> path = coc_LockFile configuration \<and> O_NOFOLLOW \<in> set flags"
| "open_ok configuration c \<longleftrightarrow> True"

abbreviation opened_ok :: "coordination_configuration \<Rightarrow> lock_history \<Rightarrow> bool" where
  "opened_ok configuration h \<equiv> list_all (open_ok configuration) h"

lemma opened_okD:
  "opened_ok configuration h \<Longrightarrow> LockOpen path flags mode e \<in> set h \<Longrightarrow> path = coc_LockFile configuration \<and> O_NOFOLLOW \<in> set flags"
  by (auto simp: list_all_iff)

lemma acquireLoop_opened: "opened_ok configuration h \<Longrightarrow> wp (acquireLoop env t n) (\<lambda>_. opened_ok configuration) h"
  by (induction n arbitrary: h) (auto simp: wp_cases split: option.split wakeup.split)

lemma lockedRun_opened:
  assumes "opened_ok configuration h"
  shows "wp (lockedRun env configuration attempts) (\<lambda>_. opened_ok configuration) h"
proof -
  have "wp (acquireLoop env t n) (\<lambda>outcome. wp (case outcome of
        Locked \<Rightarrow> do { errs \<leftarrow> holdLock env; State_Monad.return (Some errs) }
      | LockFailed e \<Rightarrow> State_Monad.return (Some [e])
      | LockCancelled \<Rightarrow> State_Monad.return (Some [])
      | StillWaiting \<Rightarrow> State_Monad.return None) (\<lambda>_. opened_ok configuration)) h'" if "opened_ok configuration h'" for h' t n
    by (rule wp_mono [OF acquireLoop_opened [OF that]]) (auto simp: holdLock_def split: lock_outcome.split)
  with assms show ?thesis by (auto simp: lockedRun_def wp_cases split: sum.split option.split)
qed

text \<open>
  C22: whatever the operating system answers, the owned function runs at most once and only directly after the lock was taken on a regular
  file of the current user with the mode \<^verbatim>\<open>0o600\<close>. Whenever it ran, with or without errors, the very next call is the release of the lock, the call
  after that the close, and no other follows; the result joins the errors of the three. A descriptor that was opened has been
  closed by the last call when \<^verbatim>\<open>Run\<close> returns, and the file was opened without following links.
\<close>

theorem owned_under_lock:
  assumes "run_state (lock_Run env configuration ownedNil attempts) [] = (result, calls)"
  shows "(list_ex is_owned calls \<longrightarrow> (\<exists>closeErr releaseErr errs before.
       calls = LockClose closeErr # Unlock releaseErr # RunOwned errs # Flock None # before \<and>
       inspected before \<and> \<not> list_ex is_owned before \<and>
       result = Some (map OwnedFailed errs @ wrap_error ReleaseFailed releaseErr @ wrap_error CloseFailed closeErr))) \<and>
     (\<forall>path flags mode. LockOpen path flags mode None \<in> set calls \<longrightarrow> path = coc_LockFile configuration \<and> O_NOFOLLOW \<in> set flags \<and>
       (result \<noteq> None \<longrightarrow> (\<exists>closeErr before. calls = LockClose closeErr # before)))"
proof -
  let ?post = "\<lambda>result calls. (list_ex is_owned calls \<longrightarrow> (\<exists>closeErr releaseErr errs before.
       calls = LockClose closeErr # Unlock releaseErr # RunOwned errs # Flock None # before \<and>
       inspected before \<and> \<not> list_ex is_owned before \<and>
       result = Some (map OwnedFailed errs @ wrap_error ReleaseFailed releaseErr @ wrap_error CloseFailed closeErr))) \<and>
     (\<forall>path flags mode. LockOpen path flags mode None \<in> set calls \<longrightarrow> path = coc_LockFile configuration \<and> O_NOFOLLOW \<in> set flags \<and>
       (result \<noteq> None \<longrightarrow> (\<exists>closeErr before. calls = LockClose closeErr # before)))"
  let ?h = "[LockHandle True, LockOpen (coc_LockFile configuration) lockFileFlags lockFileMode None]"
  have "wp (lockedRun env configuration attempts) (\<lambda>r h. lockedRun_post r h \<and> opened_ok configuration h) ?h"
    by (rule wp_conj [OF lockedRun_order lockedRun_opened]) (simp_all add: lockFileFlags_def)
  then have "wp (lockedRun env configuration attempts) (\<lambda>result. wp (case result of
        None \<Rightarrow> State_Monad.return None
      | Some errs \<Rightarrow> do { closeErr \<leftarrow> outside (lk_Close env) LockClose; State_Monad.return (Some (errs @ wrap_error CloseFailed closeErr)) }) ?post) ?h"
    by (rule wp_mono) (auto simp: lockedRun_post_def dest: opened_okD split: option.split)
  then have "wp (lock_Run env configuration ownedNil attempts) ?post []"
    by (auto simp: lock_Run_def wp_cases lockFileFlags_def split: option.split)
  from wp_run [OF this assms] show ?thesis .
qed

text \<open>
  When the waits end for another reason than a tick after at most \<open>k\<close> ticks, as they do once the deadline has passed, the run returns
  within \<open>k + 1\<close> attempts.
\<close>

definition ticks :: "lock_history \<Rightarrow> nat" where
  "ticks h = count_list h (LockWait RetryTick)"

lemma acquireLoop_returns:
  assumes "\<And>h. k \<le> ticks h \<Longrightarrow> lk_Wait env h \<noteq> RetryTick"
    and "ticks h \<le> k" "k < n + ticks h"
  shows "wp (acquireLoop env t n) (\<lambda>r _. r \<noteq> StillWaiting) h"
  using assms(2,3)
proof (induction n arbitrary: h)
  case (Suc n)
  show ?case
  proof (cases "lk_Flock env h")
    case (Some e)
    let ?h = "Flock (Some e) # h"
    show ?thesis
    proof (cases "lk_Wait env ?h")
      case RetryTick
      have "ticks ?h = ticks h" by (simp add: ticks_def)
      with RetryTick assms(1) [of ?h] have less: "ticks h < k" by (metis not_le)
      let ?w = "LockWait RetryTick # ?h"
      have "ticks ?w \<le> k" "k < n + ticks ?w" using Suc.prems less by (simp_all add: ticks_def)
      then have "wp (acquireLoop env t n) (\<lambda>r _. r \<noteq> StillWaiting) ?w" by (rule Suc.IH)
      then show ?thesis using Some RetryTick by simp
    qed (use Some in simp_all)
  qed simp
qed simp

lemma lock_Run_returns:
  assumes "\<And>h. k \<le> ticks h \<Longrightarrow> lk_Wait env h \<noteq> RetryTick"
  shows "wp (lock_Run env configuration ownedNil (Suc k)) (\<lambda>r _. r \<noteq> None) []"
proof -
  have loop: "wp (acquireLoop env t (Suc k)) (\<lambda>r _. r \<noteq> StillWaiting) h" if "ticks h = 0" for t h
  proof (rule acquireLoop_returns)
    show "lk_Wait env h' \<noteq> RetryTick" if "k \<le> ticks h'" for h' using that by (rule assms)
    show "ticks h \<le> k" "k < Suc k + ticks h" using that by simp_all
  qed
  have acquired: "wp (acquireLoop env t (Suc k)) (\<lambda>outcome. wp (case outcome of
        Locked \<Rightarrow> do { errs \<leftarrow> holdLock env; State_Monad.return (Some errs) }
      | LockFailed e \<Rightarrow> State_Monad.return (Some [e])
      | LockCancelled \<Rightarrow> State_Monad.return (Some [])
      | StillWaiting \<Rightarrow> State_Monad.return None) (\<lambda>r _. r \<noteq> None)) h" if "ticks h = 0" for t h
    by (rule wp_mono [OF loop [OF that]]) (auto simp: holdLock_def split: lock_outcome.split)
  have "wp (lockedRun env configuration (Suc k)) (\<lambda>r _. r \<noteq> None) h" if "ticks h = 0" for h
    unfolding lockedRun_def wp_bind wp_outside using acquired that
    by (auto simp: wp_cases ticks_def simp del: acquireLoop.simps split: sum.split option.split)
  then have "wp (lockedRun env configuration (Suc k)) (\<lambda>result. wp (case result of
        None \<Rightarrow> State_Monad.return None
      | Some errs \<Rightarrow> do { closeErr \<leftarrow> outside (lk_Close env) LockClose; State_Monad.return (Some (errs @ wrap_error CloseFailed closeErr)) })
        (\<lambda>r _. r \<noteq> None)) [LockHandle True, LockOpen (coc_LockFile configuration) lockFileFlags lockFileMode None]"
    by (rule wp_mono) (auto simp: ticks_def)
  then show ?thesis by (auto simp: lock_Run_def wp_cases split: option.split)
qed

section \<open>A contended lock\<close>

definition sample_lock :: lock_env where
  "sample_lock = \<lparr>lk_Open = \<lambda>_. None, lk_Handle = \<lambda>_. True, lk_Fstat = \<lambda>_. Inr \<lparr>fst_Mode = 0x8180, fst_Uid = 0\<rparr>, lk_Geteuid = \<lambda>_. 0,
     lk_Fchmod = \<lambda>_. None, lk_Flock = \<lambda>h. if ticks h = 0 then Some ''busy'' else None, lk_WouldBlock = \<lambda>e. e = ''busy'',
     lk_Wait = \<lambda>_. RetryTick, lk_Owned = \<lambda>_. [], lk_Unlock = \<lambda>_. None, lk_Close = \<lambda>_. None\<rparr>"

definition sample_coordination :: coordination_configuration where
  "sample_coordination = cf_Coordination DefaultConfiguration"

definition sample_locked :: lock_history where
  "sample_locked = snd (run_state (lock_Run sample_lock sample_coordination False 3) [])"

lemma sample_lock_run: "run_state (lock_Run sample_lock sample_coordination False 3) [] = (Some [], sample_locked)"
  by code_simp

theorem owned_under_lock_witness:
  "\<exists>before. run_state (lock_Run sample_lock sample_coordination False 3) [] = (Some [], sample_locked) \<and>
     sample_locked = LockClose None # Unlock None # RunOwned [] # Flock None # before \<and> inspected before"
proof -
  have "list_ex is_owned sample_locked" by code_simp
  with owned_under_lock [OF sample_lock_run] obtain closeErr releaseErr errs before where
    "sample_locked = LockClose closeErr # Unlock releaseErr # RunOwned errs # Flock None # before" "inspected before"
    "[] = map OwnedFailed errs @ wrap_error ReleaseFailed releaseErr @ wrap_error CloseFailed closeErr" by auto
  then show ?thesis using sample_lock_run by (auto simp: wrap_error_def split: option.splits)
qed

end
