(* ===== verification/Environment.thy ===== *)
theory Environment
  imports Configuration Netip_Parse
begin

text \<open>
  \<^verbatim>\<open>internal/adapter/environment/configuration.go\<close>: the configuration read from environment variables, and the variables
  that are handed to \<^verbatim>\<open>containerboot\<close>. The parsers of \<^verbatim>\<open>netip\<close> and \<^verbatim>\<open>strconv\<close> are those of \<open>Netip_Parse\<close>; \<^verbatim>\<open>time.ParseDuration\<close>, which
  computes fractions in floating point, and the lower case of text outside of ASCII are arguments.
\<close>

section \<open>Variables\<close>

record text_library =
  tl_ParseDuration :: "string \<Rightarrow> duration option"
  tl_UnicodeLower :: "string \<Rightarrow> string"

definition ownedPrefix :: string where
  "ownedPrefix = ''TAILSCALE_GATEWAY_''"

definition owned :: "string \<Rightarrow> string" where
  "owned name = ownedPrefix @ name"

definition configAPIVersion :: string where "configAPIVersion = owned ''CONFIG_API_VERSION''"

definition networkVariables :: "string list" where
  "networkVariables = map owned
     [''PROXY_TUNNEL_ADDRESSES'', ''TAILNET_IPV4_PREFIX'', ''TAILNET_IPV6_PREFIX'', ''EXIT_ROUTE_TABLE'', ''EXIT_RULE_PRIORITY'',
      ''LOCAL_EGRESS_ROUTE_TABLE'', ''LOCAL_EGRESS_RULE_PRIORITY'', ''LOCAL_EGRESS_PACKET_MARK'', ''ACTIVE_ROUTE_METRIC'',
      ''FAIL_CLOSED_ROUTE_METRIC'']"

definition packetFilterVariables :: "string list" where
  "packetFilterVariables = map owned
     [''NFTABLES_FILTER_TABLE'', ''NFTABLES_FORWARD_GUARD_CHAIN'', ''NFTABLES_LOCAL_EGRESS_CHAIN'', ''NFTABLES_LOCAL_EGRESS_IPV4_SET'',
      ''NFTABLES_LOCAL_EGRESS_IPV6_SET'', ''NFTABLES_NAT_TABLE'', ''NFTABLES_DNS_MASQUERADE_CHAIN'', ''LOCAL_EGRESS_ENABLED'',
      ''LOCAL_EGRESS_DOMAINS'', ''LOCAL_EGRESS_PROTOCOLS'', ''LOCAL_EGRESS_PORTS'', ''LOCAL_EGRESS_REFRESH_INTERVAL'',
      ''LOCAL_EGRESS_MAXIMUM_STALENESS'']"

definition tailnetVariables :: "string list" where
  "tailnetVariables = map owned
     [''TAILSCALE_SOCKET_PATH'', ''ADVERTISE_ROUTES'', ''ADVERTISE_EXIT_NODE'', ''PREFERENCE_AUDIT_INTERVAL'', ''TAILSCALE_OPERATION_TIMEOUT'']"

definition capabilityVariables :: "string list" where
  "capabilityVariables = map owned
     [''CAPABILITY_PROBE_IPV4_URL'', ''CAPABILITY_PROBE_IPV6_URL'', ''CAPABILITY_PROBE_INTERVAL'', ''CAPABILITY_PROBE_TIMEOUT'',
      ''CAPABILITY_PROBE_VALIDITY'', ''CAPABILITY_PROBE_SUCCESS_THRESHOLD'', ''CAPABILITY_PROBE_FAILURE_THRESHOLD'']"

definition runtimeVariables :: "string list" where
  "runtimeVariables = map owned
     [''AUDIT_INTERVAL'', ''RECONCILE_TIMEOUT'', ''EVENT_DEBOUNCE'', ''READINESS_MAXIMUM_AGE'', ''DNS_LOOKUP_TIMEOUT'', ''SHUTDOWN_TIMEOUT'',
      ''HEALTH_LISTEN_ADDRESS'', ''RESOLVER_PATH'', ''LOG_LEVEL'']"

definition coordinationVariables :: "string list" where
  "coordinationVariables = map owned
     [''COORDINATION_BACKEND'', ''COORDINATION_RESOURCE_NAME'', ''COORDINATION_NAMESPACE_PATH'', ''COORDINATION_LOCK_FILE'',
      ''COORDINATION_LEASE_DURATION'', ''COORDINATION_RENEW_DEADLINE'', ''COORDINATION_RETRY_PERIOD'', ''COORDINATION_ACQUIRE_TIMEOUT'']"

definition knownVariables :: "string list" where
  "knownVariables = configAPIVersion # networkVariables @ packetFilterVariables @ tailnetVariables @ capabilityVariables @
     runtimeVariables @ coordinationVariables"

definition containerbootVariables :: "string list" where
  "containerbootVariables =
     [''HOME'', ''HOSTNAME'', ''PATH'', ''TZ'', ''SSL_CERT_FILE'', ''SSL_CERT_DIR'', ''HTTP_PROXY'', ''HTTPS_PROXY'', ''NO_PROXY'', ''ALL_PROXY'',
      ''http_proxy'', ''https_proxy'', ''no_proxy'', ''all_proxy'', ''KUBERNETES_SERVICE_HOST'', ''KUBERNETES_SERVICE_PORT'',
      ''KUBERNETES_SERVICE_PORT_HTTPS'', ''TS_ACCEPT_DNS'', ''TS_AUTHKEY'', ''TS_AUTH_ONCE'', ''TS_ENABLE_HEALTH_CHECK'', ''TS_HOSTNAME'',
      ''TS_KUBE_SECRET'', ''TS_LOCAL_ADDR_PORT'', ''TS_SOCKET'', ''TS_TAILSCALED_EXTRA_ARGS'', ''TS_EXTRA_ARGS'', ''TS_USERSPACE'']"

definition allowedContainerbootVariable :: "string \<Rightarrow> bool" where
  "allowedContainerbootVariable name \<longleftrightarrow> name \<in> set containerbootVariables"

datatype environment_error =
    EntryInvalid nat
  | DefinedTwice string
  | UnknownVariable string
  | NotBoolean string
  | NotInteger string
  | NotUint32 string
  | NotDuration string
  | NotPrefix string
  | ListPrefixInvalid string string
  | ListPortInvalid string string
  | EmptyItem string nat
  | ProbeWithoutExit string
  | RoutesVariableSet
  | AdvertisementArgument string
  | UnsupportedContainerboot string
  | ConfigurationRejected "configuration_error list"

section \<open>The environment as a map\<close>

fun environmentLoop :: "nat \<Rightarrow> string list \<Rightarrow> (string \<times> string) list \<Rightarrow> (string \<times> string) list \<times> environment_error list" where
  "environmentLoop index [] values = (values, [])"
| "environmentLoop index (entry # entries) values =
     (let (name, value, found) = Cut entry CHR ''='' in
      if \<not> found \<or> name = [] then
        (let (result, errors) = environmentLoop (index + 1) entries values in (result, EntryInvalid index # errors))
      else if map_of values name \<noteq> None then
        (let (result, errors) = environmentLoop (index + 1) entries values in (result, DefinedTwice name # errors))
      else environmentLoop (index + 1) entries (values @ [(name, value)]))"

definition unknownNames :: "(string \<times> string) list \<Rightarrow> string list" where
  "unknownNames values = sort (filter (\<lambda>name. HasPrefix name ownedPrefix \<and> name \<notin> set knownVariables) (map fst values))"

definition environmentMap :: "string list \<Rightarrow> (string \<times> string) list \<times> environment_error list" where
  "environmentMap entries =
     (let (values, errors) = environmentLoop 0 entries [] in (values, errors @ map UnknownVariable (unknownNames values)))"

definition containsAdvertisementArgument :: "string \<Rightarrow> bool" where
  "containsAdvertisementArgument value \<longleftrightarrow> Contains value ''--advertise-exit-node'' \<or> Contains value ''--advertise-routes''"

text \<open>Looking up a missing key of a Go map gives the empty string.\<close>

definition value_or_empty :: "(string \<rightharpoonup> string) \<Rightarrow> string \<Rightarrow> string" where
  "value_or_empty values name = (case values name of None \<Rightarrow> [] | Some v \<Rightarrow> v)"

definition validateTailscaleOwnership :: "(string \<rightharpoonup> string) \<Rightarrow> environment_error list" where
  "validateTailscaleOwnership values =
     error_if (values ''TS_ROUTES'' \<noteq> None) RoutesVariableSet @
     concat (map (\<lambda>name. error_if (containsAdvertisementArgument (value_or_empty values name)) (AdvertisementArgument name))
       [''TS_EXTRA_ARGS'', ''TS_TAILSCALED_EXTRA_ARGS''])"

section \<open>Values\<close>

text \<open>Each reader returns the new value of its target, which stays as it is when the variable is absent or wrong, and the errors.\<close>

definition stringValue :: "(string \<rightharpoonup> string) \<Rightarrow> string \<Rightarrow> string \<Rightarrow> string" where
  "stringValue values name target = (case values name of None \<Rightarrow> target | Some v \<Rightarrow> TrimSpace v)"

definition boolValue :: "text_library \<Rightarrow> (string \<rightharpoonup> string) \<Rightarrow> string \<Rightarrow> bool \<Rightarrow> bool \<times> environment_error list" where
  "boolValue lib values name target =
     (case values name of
        None \<Rightarrow> (target, [])
      | Some v \<Rightarrow>
          (let lowered = ToLower (tl_UnicodeLower lib) (TrimSpace v) in
           if lowered = ''true'' then (True, []) else if lowered = ''false'' then (False, []) else (target, [NotBoolean name])))"

definition parsed_value :: "(string \<rightharpoonup> string) \<Rightarrow> string \<Rightarrow> 'a \<Rightarrow> (string \<Rightarrow> 'a option) \<Rightarrow> environment_error \<Rightarrow> 'a \<times> environment_error list" where
  "parsed_value values name target parse e =
     (case values name of
        None \<Rightarrow> (target, [])
      | Some v \<Rightarrow> (case parse (TrimSpace v) of None \<Rightarrow> (target, [e]) | Some parsed \<Rightarrow> (parsed, [])))"

definition intValue :: "(string \<rightharpoonup> string) \<Rightarrow> string \<Rightarrow> int \<Rightarrow> int \<times> environment_error list" where
  "intValue values name target = parsed_value values name target (\<lambda>v. ParseInt v 32) (NotInteger name)"

definition parseUint32 :: "string \<Rightarrow> 32 word option" where
  "parseUint32 value =
     (let hex = HasPrefix value ''0x'' \<or> HasPrefix value ''0X''; digits = (if hex then drop 2 value else value) in
      if digits = [] \<or> HasPrefix digits ''+'' \<or> HasPrefix digits ''-'' then None
      else map_option word_of_int (if hex then ParseHex digits 32 else ParseUint digits 32))"

definition uint32Value :: "(string \<rightharpoonup> string) \<Rightarrow> string \<Rightarrow> 32 word \<Rightarrow> 32 word \<times> environment_error list" where
  "uint32Value values name target = parsed_value values name target parseUint32 (NotUint32 name)"

definition durationValue :: "text_library \<Rightarrow> (string \<rightharpoonup> string) \<Rightarrow> string \<Rightarrow> duration \<Rightarrow> duration \<times> environment_error list" where
  "durationValue lib values name target = parsed_value values name target (tl_ParseDuration lib) (NotDuration name)"

definition prefixValue :: "(string \<rightharpoonup> string) \<Rightarrow> string \<Rightarrow> prefix \<Rightarrow> prefix \<times> environment_error list" where
  "prefixValue values name target = parsed_value values name target ParsePrefix (NotPrefix name)"

section \<open>Lists\<close>

definition splitList :: "string \<Rightarrow> string \<Rightarrow> string list \<times> environment_error list" where
  "splitList value name =
     (if TrimSpace value = [] then ([], [])
      else let items = map TrimSpace (split_on CHR '','' value)
           in (sort (filter (\<lambda>item. item \<noteq> []) items),
               List.map_filter (\<lambda>(index, item). if item = [] then Some (EmptyItem name (index + 1)) else None) (enumerate 0 items)))"

text \<open>\<^verbatim>\<open>left.Addr().Compare(right.Addr())\<close>, then the difference of the lengths.\<close>

definition comparePrefixes :: "prefix \<Rightarrow> prefix \<Rightarrow> int" where
  "comparePrefixes left right =
     (let comparison = addr_Compare (prefix_Addr left) (prefix_Addr right) in
      if comparison \<noteq> 0 then comparison else prefix_Bits left - prefix_Bits right)"

definition prefixListValue :: "(string \<rightharpoonup> string) \<Rightarrow> string \<Rightarrow> prefix list \<Rightarrow> prefix list \<times> environment_error list" where
  "prefixListValue values name target =
     (case values name of
        None \<Rightarrow> (target, [])
      | Some value \<Rightarrow>
          (let (items, errors) = splitList value name in
           (sort_func comparePrefixes (List.map_filter ParsePrefix items),
            errors @ map (ListPrefixInvalid name) (filter (\<lambda>item. ParsePrefix item = None) items))))"

definition stringListValue :: "text_library \<Rightarrow> (string \<rightharpoonup> string) \<Rightarrow> string \<Rightarrow> string list \<Rightarrow> string list \<times> environment_error list" where
  "stringListValue lib values name target =
     (case values name of None \<Rightarrow> (target, []) | Some value \<Rightarrow> splitList (ToLower (tl_UnicodeLower lib) value) name)"

definition protocolListValue ::
  "text_library \<Rightarrow> (string \<rightharpoonup> string) \<Rightarrow> string \<Rightarrow> transport_protocol list \<Rightarrow> transport_protocol list \<times> environment_error list" where
  "protocolListValue lib values name target =
     (case values name of None \<Rightarrow> (target, []) | Some value \<Rightarrow> splitList (ToLower (tl_UnicodeLower lib) value) name)"

definition parsePort :: "string \<Rightarrow> 16 word option" where
  "parsePort item = (case ParseUint item 16 of None \<Rightarrow> None | Some port \<Rightarrow> if port = 0 then None else Some (word_of_int port))"

definition portListValue :: "(string \<rightharpoonup> string) \<Rightarrow> string \<Rightarrow> 16 word list \<Rightarrow> 16 word list \<times> environment_error list" where
  "portListValue values name target =
     (case values name of
        None \<Rightarrow> (target, [])
      | Some value \<Rightarrow>
          (let (items, errors) = splitList value name in
           (sort (List.map_filter parsePort items), errors @ map (ListPortInvalid name) (filter (\<lambda>item. parsePort item = None) items))))"

section \<open>The configuration\<close>

text \<open>The sections of \<^verbatim>\<open>load\<close> in the order of the code; \<open>d\<close> holds the values so far.\<close>

definition loadNetwork :: "text_library \<Rightarrow> (string \<rightharpoonup> string) \<Rightarrow> network_configuration \<Rightarrow> network_configuration \<times> environment_error list" where
  "loadNetwork lib values d =
     (let (proxyTunnelAddresses, e1) = prefixListValue values (owned ''PROXY_TUNNEL_ADDRESSES'') (nc_ProxyTunnelAddresses d);
          (tailnetIPv4Prefix, e2) = prefixValue values (owned ''TAILNET_IPV4_PREFIX'') (nc_TailnetIPv4Prefix d);
          (tailnetIPv6Prefix, e3) = prefixValue values (owned ''TAILNET_IPV6_PREFIX'') (nc_TailnetIPv6Prefix d);
          (exitRouteTable, e4) = intValue values (owned ''EXIT_ROUTE_TABLE'') (nc_ExitRouteTable d);
          (exitRulePriority, e5) = intValue values (owned ''EXIT_RULE_PRIORITY'') (nc_ExitRulePriority d);
          (localEgressRouteTable, e6) = intValue values (owned ''LOCAL_EGRESS_ROUTE_TABLE'') (nc_LocalEgressRouteTable d);
          (localEgressRulePriority, e7) = intValue values (owned ''LOCAL_EGRESS_RULE_PRIORITY'') (nc_LocalEgressRulePriority d);
          (localEgressPacketMark, e8) = uint32Value values (owned ''LOCAL_EGRESS_PACKET_MARK'') (nc_LocalEgressPacketMark d);
          (activeRouteMetric, e9) = intValue values (owned ''ACTIVE_ROUTE_METRIC'') (nc_ActiveRouteMetric d);
          (failClosedRouteMetric, e10) = intValue values (owned ''FAIL_CLOSED_ROUTE_METRIC'') (nc_FailClosedRouteMetric d)
      in (\<lparr>nc_ProxyTunnelAddresses = proxyTunnelAddresses,
           nc_TailnetIPv4Prefix = tailnetIPv4Prefix,
           nc_TailnetIPv6Prefix = tailnetIPv6Prefix,
           nc_ExitRouteTable = exitRouteTable,
           nc_ExitRulePriority = exitRulePriority,
           nc_LocalEgressRouteTable = localEgressRouteTable,
           nc_LocalEgressRulePriority = localEgressRulePriority,
           nc_LocalEgressPacketMark = localEgressPacketMark,
           nc_ActiveRouteMetric = activeRouteMetric,
           nc_FailClosedRouteMetric = failClosedRouteMetric\<rparr>,
          e1 @ e2 @ e3 @ e4 @ e5 @ e6 @ e7 @ e8 @ e9 @ e10))"

definition loadLocalEgress :: "text_library \<Rightarrow> (string \<rightharpoonup> string) \<Rightarrow> local_egress_configuration \<Rightarrow> local_egress_configuration \<times> environment_error list" where
  "loadLocalEgress lib values d =
     (let (enabled, e1) = boolValue lib values (owned ''LOCAL_EGRESS_ENABLED'') (lc_Enabled d);
          (domains, e2) = stringListValue lib values (owned ''LOCAL_EGRESS_DOMAINS'') (lc_Domains d);
          (protocols, e3) = protocolListValue lib values (owned ''LOCAL_EGRESS_PROTOCOLS'') (lc_Protocols d);
          (ports, e4) = portListValue values (owned ''LOCAL_EGRESS_PORTS'') (lc_Ports d);
          (refreshInterval, e5) = durationValue lib values (owned ''LOCAL_EGRESS_REFRESH_INTERVAL'') (lc_RefreshInterval d);
          (maximumStaleness, e6) = durationValue lib values (owned ''LOCAL_EGRESS_MAXIMUM_STALENESS'') (lc_MaximumStaleness d)
      in (\<lparr>lc_Enabled = enabled,
           lc_Domains = domains,
           lc_Protocols = protocols,
           lc_Ports = ports,
           lc_RefreshInterval = refreshInterval,
           lc_MaximumStaleness = maximumStaleness\<rparr>,
          e1 @ e2 @ e3 @ e4 @ e5 @ e6))"

definition loadPacketFilter :: "text_library \<Rightarrow> (string \<rightharpoonup> string) \<Rightarrow> packet_filter_configuration \<Rightarrow> packet_filter_configuration \<times> environment_error list" where
  "loadPacketFilter lib values d =
     (let (localEgress, errors) = loadLocalEgress lib values (fc_LocalEgress d)
      in (\<lparr>fc_FilterTable = stringValue values (owned ''NFTABLES_FILTER_TABLE'') (fc_FilterTable d),
           fc_ForwardGuardChain = stringValue values (owned ''NFTABLES_FORWARD_GUARD_CHAIN'') (fc_ForwardGuardChain d),
           fc_LocalEgressChain = stringValue values (owned ''NFTABLES_LOCAL_EGRESS_CHAIN'') (fc_LocalEgressChain d),
           fc_LocalEgressIPv4Set = stringValue values (owned ''NFTABLES_LOCAL_EGRESS_IPV4_SET'') (fc_LocalEgressIPv4Set d),
           fc_LocalEgressIPv6Set = stringValue values (owned ''NFTABLES_LOCAL_EGRESS_IPV6_SET'') (fc_LocalEgressIPv6Set d),
           fc_NATTable = stringValue values (owned ''NFTABLES_NAT_TABLE'') (fc_NATTable d),
           fc_DNSMasqueradeChain = stringValue values (owned ''NFTABLES_DNS_MASQUERADE_CHAIN'') (fc_DNSMasqueradeChain d),
           fc_LocalEgress = localEgress\<rparr>, errors))"

definition loadTailnet :: "text_library \<Rightarrow> (string \<rightharpoonup> string) \<Rightarrow> tailnet_configuration \<Rightarrow> tailnet_configuration \<times> environment_error list" where
  "loadTailnet lib values d =
     (let (advertiseRoutes, e2) = prefixListValue values (owned ''ADVERTISE_ROUTES'') (tnc_AdvertiseRoutes d);
          (advertiseExitNode, e3) = boolValue lib values (owned ''ADVERTISE_EXIT_NODE'') (tnc_AdvertiseExitNode d);
          (preferenceAuditInterval, e4) = durationValue lib values (owned ''PREFERENCE_AUDIT_INTERVAL'') (tnc_PreferenceAuditInterval d);
          (operationTimeout, e5) = durationValue lib values (owned ''TAILSCALE_OPERATION_TIMEOUT'') (tnc_OperationTimeout d)
      in (\<lparr>tnc_SocketPath = stringValue values (owned ''TAILSCALE_SOCKET_PATH'') (tnc_SocketPath d),
           tnc_AdvertiseRoutes = advertiseRoutes,
           tnc_AdvertiseExitNode = advertiseExitNode,
           tnc_PreferenceAuditInterval = preferenceAuditInterval,
           tnc_OperationTimeout = operationTimeout\<rparr>,
          e2 @ e3 @ e4 @ e5))"

definition loadCapability :: "text_library \<Rightarrow> (string \<rightharpoonup> string) \<Rightarrow> internet_capability_configuration \<Rightarrow> internet_capability_configuration \<times> environment_error list" where
  "loadCapability lib values d =
     (let (probeInterval, e3) = durationValue lib values (owned ''CAPABILITY_PROBE_INTERVAL'') (icc_ProbeInterval d);
          (probeTimeout, e4) = durationValue lib values (owned ''CAPABILITY_PROBE_TIMEOUT'') (icc_ProbeTimeout d);
          (probeValidity, e5) = durationValue lib values (owned ''CAPABILITY_PROBE_VALIDITY'') (icc_ProbeValidity d);
          (successThreshold, e6) = uint32Value values (owned ''CAPABILITY_PROBE_SUCCESS_THRESHOLD'') (icc_SuccessThreshold d);
          (failureThreshold, e7) = uint32Value values (owned ''CAPABILITY_PROBE_FAILURE_THRESHOLD'') (icc_FailureThreshold d)
      in (\<lparr>icc_IPv4ProbeURL = stringValue values (owned ''CAPABILITY_PROBE_IPV4_URL'') (icc_IPv4ProbeURL d),
           icc_IPv6ProbeURL = stringValue values (owned ''CAPABILITY_PROBE_IPV6_URL'') (icc_IPv6ProbeURL d),
           icc_ProbeInterval = probeInterval,
           icc_ProbeTimeout = probeTimeout,
           icc_ProbeValidity = probeValidity,
           icc_SuccessThreshold = successThreshold,
           icc_FailureThreshold = failureThreshold\<rparr>,
          e3 @ e4 @ e5 @ e6 @ e7))"

definition loadRuntime :: "text_library \<Rightarrow> (string \<rightharpoonup> string) \<Rightarrow> runtime_configuration \<Rightarrow> runtime_configuration \<times> environment_error list" where
  "loadRuntime lib values d =
     (let (auditInterval, e1) = durationValue lib values (owned ''AUDIT_INTERVAL'') (rtc_AuditInterval d);
          (reconcileTimeout, e2) = durationValue lib values (owned ''RECONCILE_TIMEOUT'') (rtc_ReconcileTimeout d);
          (eventDebounce, e3) = durationValue lib values (owned ''EVENT_DEBOUNCE'') (rtc_EventDebounce d);
          (readinessMaximumAge, e4) = durationValue lib values (owned ''READINESS_MAXIMUM_AGE'') (rtc_ReadinessMaximumAge d);
          (dnsLookupTimeout, e5) = durationValue lib values (owned ''DNS_LOOKUP_TIMEOUT'') (rtc_DNSLookupTimeout d);
          (shutdownTimeout, e6) = durationValue lib values (owned ''SHUTDOWN_TIMEOUT'') (rtc_ShutdownTimeout d)
      in (\<lparr>rtc_AuditInterval = auditInterval,
           rtc_ReconcileTimeout = reconcileTimeout,
           rtc_EventDebounce = eventDebounce,
           rtc_ReadinessMaximumAge = readinessMaximumAge,
           rtc_DNSLookupTimeout = dnsLookupTimeout,
           rtc_ShutdownTimeout = shutdownTimeout,
           rtc_HealthListenAddress = stringValue values (owned ''HEALTH_LISTEN_ADDRESS'') (rtc_HealthListenAddress d),
           rtc_ResolverPath = stringValue values (owned ''RESOLVER_PATH'') (rtc_ResolverPath d),
           rtc_LogLevel = ToLower (tl_UnicodeLower lib) (stringValue values (owned ''LOG_LEVEL'') (rtc_LogLevel d))\<rparr>,
          e1 @ e2 @ e3 @ e4 @ e5 @ e6))"

definition loadCoordination :: "text_library \<Rightarrow> (string \<rightharpoonup> string) \<Rightarrow> coordination_configuration \<Rightarrow> coordination_configuration \<times> environment_error list" where
  "loadCoordination lib values d =
     (let (leaseDuration, e5) = durationValue lib values (owned ''COORDINATION_LEASE_DURATION'') (coc_LeaseDuration d);
          (renewDeadline, e6) = durationValue lib values (owned ''COORDINATION_RENEW_DEADLINE'') (coc_RenewDeadline d);
          (retryPeriod, e7) = durationValue lib values (owned ''COORDINATION_RETRY_PERIOD'') (coc_RetryPeriod d);
          (acquireTimeout, e8) = durationValue lib values (owned ''COORDINATION_ACQUIRE_TIMEOUT'') (coc_AcquireTimeout d)
      in (\<lparr>coc_Backend = ToLower (tl_UnicodeLower lib) (stringValue values (owned ''COORDINATION_BACKEND'') (coc_Backend d)),
           coc_ResourceName = stringValue values (owned ''COORDINATION_RESOURCE_NAME'') (coc_ResourceName d),
           coc_NamespacePath = stringValue values (owned ''COORDINATION_NAMESPACE_PATH'') (coc_NamespacePath d),
           coc_LockFile = stringValue values (owned ''COORDINATION_LOCK_FILE'') (coc_LockFile d),
           coc_LeaseDuration = leaseDuration,
           coc_RenewDeadline = renewDeadline,
           coc_RetryPeriod = retryPeriod,
           coc_AcquireTimeout = acquireTimeout\<rparr>,
          e5 @ e6 @ e7 @ e8))"

definition probesWithoutExit :: "(string \<rightharpoonup> string) \<Rightarrow> bool \<Rightarrow> environment_error list" where
  "probesWithoutExit values advertiseExitNode =
     (if advertiseExitNode then []
      else concat (map (\<lambda>name. error_if (values name \<noteq> None) (ProbeWithoutExit name))
        [owned ''CAPABILITY_PROBE_IPV4_URL'', owned ''CAPABILITY_PROBE_IPV6_URL'']))"

definition loadValues :: "text_library \<Rightarrow> (string \<rightharpoonup> string) \<Rightarrow> configuration \<times> environment_error list" where
  "loadValues lib values =
     (let d = DefaultConfiguration;
          (network, e1) = loadNetwork lib values (cf_Network d);
          (packetFilter, e2) = loadPacketFilter lib values (cf_PacketFilter d);
          (tailnet, e3) = loadTailnet lib values (cf_Tailnet d);
          (capability, e4) = loadCapability lib values (cf_InternetCapability d);
          (runtime, e5) = loadRuntime lib values (cf_Runtime d);
          (coordination, e6) = loadCoordination lib values (cf_Coordination d);
          configuration = \<lparr>cf_APIVersion = stringValue values configAPIVersion (cf_APIVersion d), cf_Network = network,
            cf_PacketFilter = packetFilter, cf_Tailnet = tailnet, cf_InternetCapability = capability, cf_Runtime = runtime,
            cf_Coordination = coordination\<rparr>
      in (configuration,
          e1 @ e2 @ e3 @ e4 @ probesWithoutExit values (tnc_AdvertiseExitNode tailnet) @ e5 @ e6 @
          wrap_errors ConfigurationRejected (configuration_Validate configuration)))"

definition load :: "text_library \<Rightarrow> string list \<Rightarrow> configuration \<times> environment_error list" where
  "load lib entries =
     (let (values, environmentErrors) = environmentMap entries; (configuration, parseErrors) = loadValues lib (map_of values)
      in (configuration, environmentErrors @ validateTailscaleOwnership (map_of values) @ parseErrors))"

section \<open>The environment of \<^verbatim>\<open>containerboot\<close>\<close>

definition unsupportedNames :: "(string \<times> string) list \<Rightarrow> string list" where
  "unsupportedNames values =
     sort (filter (\<lambda>name. HasPrefix name ''TS_'' \<and> name \<noteq> ''TS_ROUTES'' \<and> \<not> allowedContainerbootVariable name) (map fst values))"

definition containerbootEnvironment :: "string list \<Rightarrow> (environment_error list, string list) result" where
  "containerbootEnvironment entries =
     (let (values, environmentErrors) = environmentMap entries;
          errors = environmentErrors @ validateTailscaleOwnership (map_of values) @ map UnsupportedContainerboot (unsupportedNames values)
      in if errors \<noteq> [] then Inl errors
         else Inr (sort (map (\<lambda>(name, value). name @ ''='' @ value) (filter (\<lambda>(name, value). allowedContainerbootVariable name) values))))"

section \<open>Well-formed environments\<close>

definition entry_name :: "string \<Rightarrow> string" where
  "entry_name entry = takeWhile (\<lambda>c. c \<noteq> CHR ''='') entry"

definition entry_value :: "string \<Rightarrow> string" where
  "entry_value entry = tl (dropWhile (\<lambda>c. c \<noteq> CHR ''='') entry)"

definition entry_ok :: "string \<Rightarrow> bool" where
  "entry_ok entry \<longleftrightarrow> CHR ''='' \<in> set entry \<and> entry_name entry \<noteq> []"

definition entry_pair :: "string \<Rightarrow> string \<times> string" where
  "entry_pair entry = (entry_name entry, entry_value entry)"

lemma entry_split: "entry_ok entry \<Longrightarrow> entry_name entry @ ''='' @ entry_value entry = entry"
proof -
  have "CHR ''='' \<in> set e \<Longrightarrow> takeWhile (\<lambda>c. c \<noteq> CHR ''='') e @ CHR ''='' # tl (dropWhile (\<lambda>c. c \<noteq> CHR ''='') e) = e" for e
    by (induction e) auto
  then show "entry_ok entry \<Longrightarrow> entry_name entry @ ''='' @ entry_value entry = entry"
    by (simp add: entry_ok_def entry_name_def entry_value_def)
qed

lemma Cut_entry:
  "Cut entry CHR ''='' = (if CHR ''='' \<in> set entry then (entry_name entry, entry_value entry, True) else (entry, [], False))"
  by (simp add: Cut_def entry_name_def entry_value_def)

lemma environmentLoop_ok:
  "environmentLoop index entries vals = (result, []) \<longleftrightarrow>
     list_all entry_ok entries \<and> result = vals @ map entry_pair entries \<and> distinct (map entry_name entries) \<and>
     (\<forall>entry \<in> set entries. entry_name entry \<notin> fst ` set vals)"
proof (induction entries arbitrary: index vals)
  case Nil
  show ?case by auto
next
  case (Cons entry entries)
  have absent: "map_of vals n = None \<longleftrightarrow> n \<notin> fst ` set vals" for n by (simp add: map_of_eq_None_iff)
  show ?case
  proof (cases "entry_ok entry \<and> entry_name entry \<notin> fst ` set vals")
    case True
    then have step: "environmentLoop index (entry # entries) vals = environmentLoop (index + 1) entries (vals @ [entry_pair entry])"
      using absent [of "entry_name entry"] by (simp add: Cut_entry entry_ok_def entry_pair_def)
    show ?thesis unfolding step Cons.IH using True by (auto simp: entry_pair_def image_iff)
  next
    case False
    then have "environmentLoop index (entry # entries) vals \<noteq> (result, [])"
      using absent [of "entry_name entry"]
      by (auto simp: Cut_entry entry_ok_def Let_def split: prod.splits if_splits)
    with False show ?thesis by auto
  qed
qed

text \<open>An environment without errors: every entry names one variable, once, and names of the agent are known.\<close>

definition environment_ok :: "string list \<Rightarrow> bool" where
  "environment_ok entries \<longleftrightarrow>
     list_all entry_ok entries \<and> distinct (map entry_name entries) \<and>
     list_all (\<lambda>entry. HasPrefix (entry_name entry) ownedPrefix \<longrightarrow> entry_name entry \<in> set knownVariables) entries"

lemma environmentMap_ok:
  "environmentMap entries = (vals, []) \<longleftrightarrow> environment_ok entries \<and> vals = map entry_pair entries"
proof -
  obtain result errors where run: "environmentLoop 0 entries [] = (result, errors)" by fastforce
  show ?thesis
  proof (cases "errors = []")
    case True
    with run environmentLoop_ok [of 0 entries "[]" result] have "list_all entry_ok entries" "distinct (map entry_name entries)"
      and result: "result = map entry_pair entries" by simp_all
    moreover have "unknownNames result = [] \<longleftrightarrow>
        list_all (\<lambda>entry. HasPrefix (entry_name entry) ownedPrefix \<longrightarrow> entry_name entry \<in> set knownVariables) entries"
      by (simp add: unknownNames_def result set_empty [symmetric] list_all_iff entry_pair_def del: set_empty) auto
    ultimately show ?thesis using run True by (auto simp: environmentMap_def environment_ok_def)
  next
    case False
    then have "\<not> environment_ok entries"
      using run environmentLoop_ok [of 0 entries "[]" "map entry_pair entries"] by (auto simp: environment_ok_def)
    with False run show ?thesis by (auto simp: environmentMap_def)
  qed
qed

text \<open>The variables of \<^verbatim>\<open>containerboot\<close> that would advertise routes behind the agent's back are absent.\<close>

definition advertises_elsewhere :: "(string \<rightharpoonup> string) \<Rightarrow> bool" where
  "advertises_elsewhere vals \<longleftrightarrow> vals ''TS_ROUTES'' \<noteq> None \<or>
     containsAdvertisementArgument (value_or_empty vals ''TS_EXTRA_ARGS'') \<or>
     containsAdvertisementArgument (value_or_empty vals ''TS_TAILSCALED_EXTRA_ARGS'')"

lemma validateTailscaleOwnership_ok: "validateTailscaleOwnership vals = [] \<longleftrightarrow> \<not> advertises_elsewhere vals"
  by (auto simp: validateTailscaleOwnership_def advertises_elsewhere_def)

lemma loadValues_valid:
  "snd (loadValues lib vals) = [] \<Longrightarrow> configuration_Validate (fst (loadValues lib vals)) = []"
  by (simp add: loadValues_def Let_def split: prod.splits)

lemma load_ok:
  "snd (load lib entries) = [] \<longleftrightarrow>
     environment_ok entries \<and> \<not> advertises_elsewhere (map_of (map entry_pair entries)) \<and>
     snd (loadValues lib (map_of (map entry_pair entries))) = []"
proof -
  obtain vals errors where run: "environmentMap entries = (vals, errors)" by fastforce
  then have "snd (load lib entries) = [] \<longleftrightarrow>
      errors = [] \<and> \<not> advertises_elsewhere (map_of vals) \<and> snd (loadValues lib (map_of vals)) = []"
    by (simp add: load_def validateTailscaleOwnership_ok [symmetric] split: prod.splits)
  moreover have "errors = [] \<longleftrightarrow> environment_ok entries" "environment_ok entries \<Longrightarrow> vals = map entry_pair entries"
    using environmentMap_ok [of entries vals] environmentMap_ok [of entries "map entry_pair entries"] run by auto
  ultimately show ?thesis by auto
qed

lemma load_fst: "environment_ok entries \<Longrightarrow> fst (load lib entries) = fst (loadValues lib (map_of (map entry_pair entries)))"
  using environmentMap_ok [of entries "map entry_pair entries"] by (simp add: load_def split: prod.splits)

section \<open>What a loaded configuration rests on\<close>

text \<open>
  A configuration that loads without error is valid, and comes from an environment in which every entry names a
  variable once, no variable with the agent's prefix is unknown, and no variable of \<^verbatim>\<open>containerboot\<close> advertises routes
  or an exit node beside the agent.
\<close>

theorem load_sound:
  assumes "snd (load lib entries) = []"
  shows "configuration_Validate (fst (load lib entries)) = [] \<and> environment_ok entries \<and>
     \<not> advertises_elsewhere (map_of (map entry_pair entries))"
proof -
  from assms have ok: "environment_ok entries" "\<not> advertises_elsewhere (map_of (map entry_pair entries))"
    "snd (loadValues lib (map_of (map entry_pair entries))) = []" by (simp_all add: load_ok)
  with loadValues_valid [OF ok(3)] load_fst [OF ok(1)] show ?thesis by simp
qed

lemma map_of_entries:
  assumes "environment_ok entries" "mset entries' = mset entries"
  shows "environment_ok entries'" "map_of (map entry_pair entries') = map_of (map entry_pair entries)"
proof -
  have same: "set entries' = set entries" using assms(2) by (metis set_mset_mset)
  have names: "mset (map entry_name entries') = mset (map entry_name entries)" using assms(2) by (metis mset_map)
  have distinct: "distinct (map entry_name entries)" using assms(1) by (simp add: environment_ok_def)
  then have distinct': "distinct (map entry_name entries')" using mset_eq_imp_distinct_iff [OF names] by simp
  with assms(1) same show "environment_ok entries'" by (simp add: environment_ok_def list_all_iff)
  have "map fst (map entry_pair es) = map entry_name es" for es by (simp add: entry_pair_def comp_def)
  with distinct distinct' same show "map_of (map entry_pair entries') = map_of (map entry_pair entries)"
    by (intro map_of_inject_set [THEN iffD2]) (simp_all only:, simp)
qed

text \<open>
  C19: The order in which the operating system lists the variables does not matter: an environment that loads without
  error loads the same configuration, again without error, in every order.
\<close>

theorem load_order_independent:
  assumes "snd (load lib entries) = []" "mset entries' = mset entries"
  shows "load lib entries' = load lib entries"
proof -
  have ok: "environment_ok entries" using assms(1) by (simp add: load_ok)
  note same = map_of_entries [OF ok assms(2)]
  have "snd (load lib entries') = []" using assms(1) same by (simp add: load_ok)
  moreover have "fst (load lib entries') = fst (load lib entries)" using load_fst ok same by simp
  ultimately show ?thesis using assms(1) by (simp add: prod_eq_iff)
qed

section \<open>What \<^verbatim>\<open>containerboot\<close> is given\<close>

lemma owned_start: "HasPrefix s ownedPrefix \<Longrightarrow> take 2 s = ''TA''"
proof -
  assume "HasPrefix s ownedPrefix"
  then have "take 2 (take (length ownedPrefix) s) = take 2 ownedPrefix" by (simp only: HasPrefix_def)
  then show ?thesis by (simp add: ownedPrefix_def numeral_2_eq_2)
qed

lemma allowed_not_owned: "allowedContainerbootVariable name \<Longrightarrow> \<not> HasPrefix (name @ rest) ownedPrefix"
proof
  assume "allowedContainerbootVariable name" "HasPrefix (name @ rest) ownedPrefix"
  moreover have "list_all (\<lambda>name. 2 \<le> length name \<and> take 2 name \<noteq> ''TA'') containerbootVariables" by code_simp
  ultimately have name: "2 \<le> length name" "take 2 name \<noteq> ''TA''" and "take 2 (name @ rest) = ''TA''"
    using owned_start [of "name @ rest"] unfolding allowedContainerbootVariable_def list_all_iff by blast+
  then show False by simp
qed

lemma containerbootEnvironment_passed:
  assumes "containerbootEnvironment entries = Inr passed"
  shows "environment_ok entries" "validateTailscaleOwnership (map_of (map entry_pair entries)) = []"
    "unsupportedNames (map entry_pair entries) = []"
    "passed = sort (filter (\<lambda>entry. allowedContainerbootVariable (entry_name entry)) entries)"
proof -
  obtain vals errors where run: "environmentMap entries = (vals, errors)" by fastforce
  with assms have none: "errors = []" "validateTailscaleOwnership (map_of vals) = []" "unsupportedNames vals = []"
    and passed: "passed = sort (map (\<lambda>(name, value). name @ ''='' @ value) (filter (\<lambda>(name, value). allowedContainerbootVariable name) vals))"
    by (auto simp: containerbootEnvironment_def Let_def split: if_splits)
  with run environmentMap_ok [of entries vals] have ok: "environment_ok entries" and vals: "vals = map entry_pair entries" by auto
  have "map (\<lambda>(name, value). name @ ''='' @ value) (filter (\<lambda>(name, value). allowedContainerbootVariable name) (map entry_pair es)) =
      filter (\<lambda>entry. allowedContainerbootVariable (entry_name entry)) es" if "list_all entry_ok es" for es
    using that by (induction es) (simp_all add: entry_pair_def entry_split del: append_Cons)
  with ok show "passed = sort (filter (\<lambda>entry. allowedContainerbootVariable (entry_name entry)) entries)"
    by (simp add: passed vals environment_ok_def)
  show "environment_ok entries" by (rule ok)
  show "validateTailscaleOwnership (map_of (map entry_pair entries)) = []" "unsupportedNames (map entry_pair entries) = []"
    using none(2,3) by (simp_all add: vals)
qed

text \<open>
  The environment of \<^verbatim>\<open>containerboot\<close> is exactly the allowed variables of the agent's environment, unchanged and sorted.
  It holds none of the agent's own variables and every Tailscale variable that was set, none of which advertises routes.
\<close>

theorem containerbootEnvironment_exact:
  assumes "containerbootEnvironment entries = Inr passed"
  shows "passed = sort (filter (\<lambda>entry. allowedContainerbootVariable (entry_name entry)) entries) \<and>
     list_all (\<lambda>entry. \<not> HasPrefix entry ownedPrefix) passed \<and>
     filter (\<lambda>entry. HasPrefix (entry_name entry) ''TS_'' \<and> entry \<notin> set passed) entries = [] \<and>
     \<not> advertises_elsewhere (map_of (map entry_pair entries))"
proof -
  let ?vals = "map entry_pair entries"
  note none = containerbootEnvironment_passed(2,3) [OF assms] and exact = containerbootEnvironment_passed(4) [OF assms]
  have entries: "entry_ok e" if "e \<in> set entries" for e
    using that containerbootEnvironment_passed(1) [OF assms] by (simp add: environment_ok_def list_all_iff)
  have "\<not> HasPrefix entry ownedPrefix" if "entry \<in> set passed" for entry
    using that allowed_not_owned [of "entry_name entry" "''='' @ entry_value entry"] entry_split [OF entries, of entry]
    by (auto simp: exact)
  moreover have "entry \<in> set passed" if "entry \<in> set entries" "HasPrefix (entry_name entry) ''TS_''" for entry
  proof -
    have "entry_name entry \<in> fst ` set ?vals" using that(1) by (simp add: entry_pair_def image_image)
    then have "map_of ?vals (entry_name entry) \<noteq> None" by (simp add: map_of_eq_None_iff)
    then have "entry_name entry \<noteq> ''TS_ROUTES''" using none(1) by (auto simp: validateTailscaleOwnership_def)
    moreover have "entry_name entry \<notin> set (unsupportedNames ?vals)" using none(2) by simp
    ultimately have "allowedContainerbootVariable (entry_name entry)"
      using that by (auto simp: unsupportedNames_def entry_pair_def image_iff)
    with that(1) show ?thesis by (simp add: exact)
  qed
  ultimately show ?thesis
    using exact none(1) validateTailscaleOwnership_ok by (auto simp: list_all_iff filter_empty_conv)
qed

section \<open>Witnesses\<close>

definition sample_library :: text_library where
  "sample_library = \<lparr>tl_ParseDuration = (\<lambda>s. if s = ''10s'' then Some (10 * second) else None), tl_UnicodeLower = (\<lambda>s. s)\<rparr>"

definition sample_environment :: "string list" where
  "sample_environment =
     [''PATH=/bin'', ''TAILSCALE_GATEWAY_PROXY_TUNNEL_ADDRESSES=172.19.0.1/30, fd00::1/126'', ''TAILSCALE_GATEWAY_DNS_LOOKUP_TIMEOUT=10s'',
      ''TAILSCALE_GATEWAY_COORDINATION_BACKEND=File-Lock'', ''TAILSCALE_GATEWAY_ADVERTISE_ROUTES=10.0.0.0/8'', ''TS_AUTHKEY=key'']"

lemma sample_environment_loads: "snd (load sample_library sample_environment) = []"
  by code_simp

theorem load_sound_witness:
  "snd (load sample_library sample_environment) = [] \<and> configuration_Validate (fst (load sample_library sample_environment)) = [] \<and>
   environment_ok sample_environment"
  using load_sound [OF sample_environment_loads] sample_environment_loads by blast

theorem load_order_independent_witness:
  "load sample_library (rev sample_environment) = load sample_library sample_environment \<and> snd (load sample_library sample_environment) = []"
  using load_order_independent [OF sample_environment_loads mset_rev] sample_environment_loads by blast

lemma sample_containerboot: "containerbootEnvironment sample_environment = Inr [''PATH=/bin'', ''TS_AUTHKEY=key'']"
  by code_simp

theorem containerbootEnvironment_exact_witness:
  "containerbootEnvironment sample_environment = Inr [''PATH=/bin'', ''TS_AUTHKEY=key''] \<and>
   list_all (\<lambda>entry. \<not> HasPrefix entry ownedPrefix) [''PATH=/bin'', ''TS_AUTHKEY=key'']"
  using containerbootEnvironment_exact [OF sample_containerboot] sample_containerboot by blast

end
