(* ===== verification/Child_Process.thy ===== *)
theory Child_Process
  imports Environment Runtime Histories
begin

unbundle bit_operations_syntax

text \<open>
  \<^verbatim>\<open>internal/adapter/process/process_linux.go\<close>: the checks before a child process is started, and its termination with a signal, a grace
  period and a kill. Signals, waits and clocks answer from functions of the history of calls. The environment that
  \<^verbatim>\<open>containerbootEnvironment\<close> builds is one the launcher accepts.
\<close>

section \<open>The environment of the child\<close>

definition name_start :: "char \<Rightarrow> bool" where
  "name_start c \<longleftrightarrow> ascii_letter c \<or> c = CHR ''_''"

fun environmentNamePattern :: "string \<Rightarrow> bool" where
  "environmentNamePattern [] = False"
| "environmentNamePattern (c # cs) \<longleftrightarrow> name_start c \<and> list_all (\<lambda>x. name_start x \<or> ascii_digit x) cs"

datatype child_environment_error = ChildNameInvalid nat | ChildNulByte string | ChildDuplicate string

fun validateLoop :: "nat \<Rightarrow> string list \<Rightarrow> string list \<Rightarrow> child_environment_error option" where
  "validateLoop index seen [] = None"
| "validateLoop index seen (entry # entries) =
     (let (name, _, found) = Cut entry CHR ''='' in
      if \<not> found \<or> \<not> environmentNamePattern name then Some (ChildNameInvalid index)
      else if CHR 0x00 \<in> set entry then Some (ChildNulByte name)
      else if name \<in> set seen then Some (ChildDuplicate name)
      else validateLoop (index + 1) (name # seen) entries)"

definition validateEnvironment :: "string list \<Rightarrow> child_environment_error option" where
  "validateEnvironment entries = validateLoop 0 [] entries"

section \<open>Starting\<close>

text \<open>The mode bits of \<^verbatim>\<open>os.FileMode\<close>: permissions, the symbolic link bit and all type bits.\<close>

definition ModeSymlink :: "32 word" where
  "ModeSymlink = 0x08000000"

definition ModeType :: "32 word" where
  "ModeType = 0x8F280000"

definition ModePerm :: "32 word" where
  "ModePerm = 0x1FF"

datatype start_error =
    ExecutablePath string
  | ExecutableMissing port_error
  | ExecutableSymlink string
  | ExecutableNotRegular string
  | ExecutableWritable string
  | ExecutableEnvironment child_environment_error
  | ExecutableFailed port_error

definition checkExecutable :: "string \<Rightarrow> 32 word \<Rightarrow> start_error option" where
  "checkExecutable path mode =
     (if mode AND ModeSymlink \<noteq> 0 then Some (ExecutableSymlink path)
      else if mode AND ModeType \<noteq> 0 \<or> mode AND ModePerm AND 0x49 = 0 then Some (ExecutableNotRegular path)
      else if mode AND ModePerm AND 0x12 \<noteq> 0 then Some (ExecutableWritable path)
      else None)"

text \<open>\<open>lstat\<close> is what the file system says about the executable, \<open>started\<close> what the operating system answers to the start.\<close>

definition process_Start :: "(port_error, 32 word) result \<Rightarrow> port_error option \<Rightarrow> process_spec \<Rightarrow> start_error option" where
  "process_Start lstat started specification =
     (if \<not> path_IsAbs (ps_Executable specification) \<or> path_Clean (ps_Executable specification) \<noteq> ps_Executable specification
      then Some (ExecutablePath (ps_Executable specification))
      else case lstat of
        Inl e \<Rightarrow> Some (ExecutableMissing e)
      | Inr mode \<Rightarrow>
          (case checkExecutable (ps_Executable specification) mode of
             Some e \<Rightarrow> Some e
           | None \<Rightarrow>
               (case validateEnvironment (ps_Environment specification) of
                  Some e \<Rightarrow> Some (ExecutableEnvironment e)
                | None \<Rightarrow> map_option ExecutableFailed started)))"

section \<open>Terminating\<close>

datatype process_call =
    SignalTerm "port_error option"
  | SignalKill "port_error option"
  | AwaitExit bool
  | AwaitKilled bool
  | ProcessContext "port_error option"

type_synonym process_history = "process_call list"

record process_env =
  px_Term :: "process_history \<Rightarrow> port_error option"
  px_Kill :: "process_history \<Rightarrow> port_error option"
  px_Exit :: "process_history \<Rightarrow> bool"
  px_Killed :: "process_history \<Rightarrow> bool"
  px_Context :: "process_history \<Rightarrow> port_error option"
  px_Gone :: "port_error \<Rightarrow> bool"

datatype terminate_error = SignalFailed port_error | TerminateContext port_error | KillFailed port_error | NotExited

definition ignoreGone :: "process_env \<Rightarrow> port_error option \<Rightarrow> port_error option" where
  "ignoreGone env err = (case err of Some e \<Rightarrow> if px_Gone env e then None else Some e | None \<Rightarrow> None)"

text \<open>\<^verbatim>\<open>terminateOnce\<close>: the signal is sent on the first call only; later calls have no signal error of their own.\<close>

definition signalOnce :: "process_env \<Rightarrow> bool \<Rightarrow> (process_history, port_error option) state" where
  "signalOnce env signalled =
     (if signalled then State_Monad.return None
      else do { err \<leftarrow> outside (px_Term env) SignalTerm; State_Monad.return (ignoreGone env err) })"

text \<open>The answer of \<open>AwaitExit\<close> is true when the process is done and false when the context is; that of \<open>AwaitKilled\<close> is false when the timer fires.\<close>

definition Terminate :: "process_env \<Rightarrow> bool \<Rightarrow> (process_history, terminate_error list) state" where
  "Terminate env signalled =
     do { signalErr \<leftarrow> signalOnce env signalled;
          exited \<leftarrow> outside (px_Exit env) AwaitExit;
          if exited then State_Monad.return (wrap_error SignalFailed signalErr)
          else do { err \<leftarrow> outside (px_Kill env) SignalKill;
                    let killErr = ignoreGone env err in
                    do { killed \<leftarrow> outside (px_Killed env) AwaitKilled;
                         ctxErr \<leftarrow> outside (px_Context env) ProcessContext;
                         State_Monad.return (wrap_error SignalFailed signalErr @ wrap_error TerminateContext ctxErr @
                           wrap_error KillFailed killErr @ (if killed then [] else [NotExited])) } } }"

section \<open>What holds of a termination\<close>

text \<open>The process has been seen to exit.\<close>

definition seen_exit :: "process_history \<Rightarrow> bool" where
  "seen_exit calls \<longleftrightarrow> AwaitExit True \<in> set calls \<or> AwaitKilled True \<in> set calls"

definition signal_order :: "process_history \<Rightarrow> process_call \<Rightarrow> bool" where
  "signal_order h c = (case c of SignalKill _ \<Rightarrow> (case h of AwaitExit False # _ \<Rightarrow> True | _ \<Rightarrow> False) | _ \<Rightarrow> True)"

text \<open>
  Terminating a process reports that it did not exit exactly when it has not been seen to exit. The process is asked with a signal
  before anything else unless that was done before, and killed only after the context of the grace period has ended.
\<close>

theorem Terminate_truthful:
  assumes "run_state (Terminate env signalled) [] = (errs, calls)"
  shows "(NotExited \<in> set errs \<longleftrightarrow> \<not> seen_exit calls) \<and> calls_ok signal_order calls \<and>
     (signalled \<or> (\<exists>e. last calls = SignalTerm e))"
proof -
  have "wp (Terminate env signalled) (\<lambda>errs calls. (NotExited \<in> set errs \<longleftrightarrow> \<not> seen_exit calls) \<and> calls_ok signal_order calls \<and>
     (signalled \<or> (\<exists>e. last calls = SignalTerm e))) []"
    by (auto simp: Terminate_def signalOnce_def wp_cases Let_def seen_exit_def signal_order_def wrap_error_def split: option.splits)
  from wp_run [OF this assms] show ?thesis .
qed

section \<open>What the launcher accepts\<close>

lemma validateLoop_None:
  "validateLoop index seen entries = None \<longleftrightarrow>
     (\<forall>entry \<in> set entries. CHR ''='' \<in> set entry \<and> environmentNamePattern (entry_name entry) \<and> CHR 0x00 \<notin> set entry) \<and>
     distinct (map entry_name entries) \<and> set (map entry_name entries) \<inter> set seen = {}"
  by (induction entries arbitrary: index seen) (auto simp: Cut_entry Let_def)

lemma validateEnvironment_None:
  "validateEnvironment entries = None \<longleftrightarrow>
     (\<forall>entry \<in> set entries. CHR ''='' \<in> set entry \<and> environmentNamePattern (entry_name entry) \<and> CHR 0x00 \<notin> set entry) \<and>
     distinct (map entry_name entries)"
  by (simp add: validateEnvironment_def validateLoop_None)

lemma containerboot_names: "list_all environmentNamePattern containerbootVariables"
  by code_simp

text \<open>
  The launcher accepts every environment that \<^verbatim>\<open>containerbootEnvironment\<close> builds from an environment without NUL bytes, which the operating
  system cannot contain.
\<close>

theorem containerboot_environment_accepted:
  assumes "containerbootEnvironment entries = Inr passed" "list_all (\<lambda>entry. CHR 0x00 \<notin> set entry) entries"
  shows "validateEnvironment passed = None"
proof -
  note passed = containerbootEnvironment_passed(4) [OF assms(1)] and ok = containerbootEnvironment_passed(1) [OF assms(1)]
  let ?kept = "filter (\<lambda>entry. allowedContainerbootVariable (entry_name entry)) entries"
  have names: "distinct (map entry_name entries)" and entries: "list_all entry_ok entries" using ok by (simp_all add: environment_ok_def)
  from names have "distinct (map entry_name ?kept)" by (induction entries) auto
  moreover have "mset (map entry_name passed) = mset (map entry_name ?kept)" by (simp add: passed)
  ultimately have "distinct (map entry_name passed)" by (metis mset_eq_imp_distinct_iff)
  moreover have "CHR ''='' \<in> set entry \<and> environmentNamePattern (entry_name entry) \<and> CHR 0x00 \<notin> set entry" if "entry \<in> set passed" for entry
    using that entries assms(2) containerboot_names by (auto simp: passed list_all_iff entry_ok_def allowedContainerbootVariable_def)
  ultimately show ?thesis by (simp add: validateEnvironment_None)
qed

section \<open>Examples\<close>

theorem containerboot_environment_accepted_witness:
  "containerbootEnvironment sample_environment = Inr [''PATH=/bin'', ''TS_AUTHKEY=key''] \<and> validateEnvironment [''PATH=/bin'', ''TS_AUTHKEY=key''] = None"
proof -
  have "list_all (\<lambda>entry. CHR 0x00 \<notin> set entry) sample_environment" by code_simp
  from containerboot_environment_accepted [OF sample_containerboot this] sample_containerboot show ?thesis by blast
qed

text \<open>A process that ignores the signal and is killed.\<close>

definition sample_process :: process_env where
  "sample_process = \<lparr>px_Term = \<lambda>_. None, px_Kill = \<lambda>_. None, px_Exit = \<lambda>_. False, px_Killed = \<lambda>_. True, px_Context = \<lambda>_. Some ''deadline'',
     px_Gone = \<lambda>_. False\<rparr>"

lemma sample_terminated:
  "run_state (Terminate sample_process False) [] =
     ([TerminateContext ''deadline''], [ProcessContext (Some ''deadline''), AwaitKilled True, SignalKill None, AwaitExit False, SignalTerm None])"
  by code_simp

theorem Terminate_truthful_witness:
  "run_state (Terminate sample_process False) [] =
     ([TerminateContext ''deadline''], [ProcessContext (Some ''deadline''), AwaitKilled True, SignalKill None, AwaitExit False, SignalTerm None]) \<and>
   seen_exit [ProcessContext (Some ''deadline''), AwaitKilled True, SignalKill None, AwaitExit False, SignalTerm None]"
  using Terminate_truthful [OF sample_terminated] sample_terminated by auto

end
