(* ===== verification/Host_Files.thy ===== *)
theory Host_Files
  imports Netip_Parse Histories
begin

text \<open>
  Two small adapters of the host's file system: \<^verbatim>\<open>internal/adapter/install/install.go\<close>, which replaces the installed executable, and
  \<^verbatim>\<open>internal/adapter/kernel/forwarding_linux.go\<close>, which reads whether the kernel forwards. Calls of the file system answer from
  functions of the history of calls; deferred calls are made in the order Go makes them.
\<close>

section \<open>Installing the executable\<close>

text \<open>What \<^verbatim>\<open>Lstat\<close> says about the destination: an error, which may be that nothing exists, or whether it is a symbolic link.\<close>

datatype install_call =
    StatParent string "(port_error, bool) result"
  | LstatDestination string "(port_error, bool) result"
  | FindExecutable "(port_error, string) result"
  | OpenSource string "port_error option"
  | CreateTemp string string "(port_error, string) result"
  | CopyTo string string "port_error option"
  | ChmodTemp string "32 word" "port_error option"
  | SyncTemp string "port_error option"
  | CloseTemp string "port_error option"
  | Rename string string "port_error option"
  | OpenDirectory string "port_error option"
  | SyncDirectory string "port_error option"
  | CloseDirectory string
  | RemoveTemp string
  | CloseSource string

type_synonym install_history = "install_call list"

record install_env =
  in_Stat :: "install_history \<Rightarrow> string \<Rightarrow> (port_error, bool) result"
  in_Lstat :: "install_history \<Rightarrow> string \<Rightarrow> (port_error, bool) result"
  in_NotExist :: "port_error \<Rightarrow> bool"
  in_Executable :: "install_history \<Rightarrow> (port_error, string) result"
  in_Open :: "install_history \<Rightarrow> string \<Rightarrow> port_error option"
  in_CreateTemp :: "install_history \<Rightarrow> string \<Rightarrow> (port_error, string) result"
  in_Copy :: "install_history \<Rightarrow> port_error option"
  in_Chmod :: "install_history \<Rightarrow> port_error option"
  in_Sync :: "install_history \<Rightarrow> port_error option"
  in_Close :: "install_history \<Rightarrow> port_error option"
  in_Rename :: "install_history \<Rightarrow> port_error option"
  in_OpenDirectory :: "install_history \<Rightarrow> port_error option"
  in_SyncDirectory :: "install_history \<Rightarrow> port_error option"

datatype install_error =
    DestinationPath string | ParentInspect port_error | ParentNotDirectory string | DestinationSymlink string | DestinationInspect port_error
  | ExecutableLocate port_error | ExecutableOpen port_error | TempCreate port_error | TempCopy port_error | TempChmod port_error
  | TempSync port_error | TempClose port_error | ActivateFailed port_error | DirectoryOpen port_error | DirectorySync port_error

text \<open>The mode \<^verbatim>\<open>0o555\<close>: everyone reads and executes, nobody writes.\<close>

definition executableMode :: "32 word" where
  "executableMode = 0x16D"

definition temporaryPattern :: string where
  "temporaryPattern = ''.tailscale-gateway-agent-*''"

text \<open>\<^verbatim>\<open>filepath.Dir\<close> of a clean absolute path: the path up to its last slash.\<close>

definition path_Dir :: "string \<Rightarrow> string" where
  "path_Dir p = (let d = rev (dropWhile (\<lambda>c. c \<noteq> CHR ''/'') (rev p)) in if length d \<le> 1 then ''/'' else butlast d)"

definition opt :: "(port_error \<Rightarrow> install_error) \<Rightarrow> (install_history, port_error option) state \<Rightarrow> (install_history, install_error + unit) state" where
  "opt wrap m = on_error wrap (check m)"

text \<open>A failure before the temporary file is closed closes it, ignoring a second error.\<close>

definition orClose :: "install_env \<Rightarrow> string \<Rightarrow> (install_history, install_error + unit) state \<Rightarrow> (install_history, install_error + unit) state" where
  "orClose env temporary m =
     do { r \<leftarrow> m;
          case r of
            Inr u \<Rightarrow> ok u
          | Inl e \<Rightarrow> do { _ \<leftarrow> outside (in_Close env) (CloseTemp temporary); fail e } }"

definition writeTemp :: "install_env \<Rightarrow> string \<Rightarrow> string \<Rightarrow> (install_history, install_error + unit) state" where
  "writeTemp env executable temporary =
     chain (orClose env temporary (opt TempCopy (outside (in_Copy env) (CopyTo executable temporary)))) (\<lambda>_.
     chain (orClose env temporary (opt TempChmod (outside (in_Chmod env) (ChmodTemp temporary executableMode)))) (\<lambda>_.
     chain (orClose env temporary (opt TempSync (outside (in_Sync env) (SyncTemp temporary)))) (\<lambda>_.
       opt TempClose (outside (in_Close env) (CloseTemp temporary)))))"

definition syncParent :: "install_env \<Rightarrow> string \<Rightarrow> (install_history, install_error + unit) state" where
  "syncParent env parent =
     chain (opt DirectoryOpen (outside (in_OpenDirectory env) (OpenDirectory parent))) (\<lambda>_.
       do { r \<leftarrow> opt DirectorySync (outside (in_SyncDirectory env) (SyncDirectory parent));
            _ \<leftarrow> outside (\<lambda>_. ()) (\<lambda>_. CloseDirectory parent);
            State_Monad.return r })"

definition replaceDestination :: "install_env \<Rightarrow> string \<Rightarrow> string \<Rightarrow> string \<Rightarrow> (install_history, install_error + unit) state" where
  "replaceDestination env executable parent destination =
     do { created \<leftarrow> outside (\<lambda>h. in_CreateTemp env h parent) (CreateTemp parent temporaryPattern);
          case created of
            Inl e \<Rightarrow> fail (TempCreate e)
          | Inr temporary \<Rightarrow>
              do { r \<leftarrow> chain (writeTemp env executable temporary) (\<lambda>_.
                          chain (opt ActivateFailed (outside (in_Rename env) (Rename temporary destination))) (\<lambda>_.
                            syncParent env parent));
                   _ \<leftarrow> outside (\<lambda>_. ()) (\<lambda>_. RemoveTemp temporary);
                   State_Monad.return r } }"

definition checkDestination :: "install_env \<Rightarrow> string \<Rightarrow> (port_error, bool) result \<Rightarrow> install_error option" where
  "checkDestination env destination status =
     (case status of
        Inr symlink \<Rightarrow> if symlink then Some (DestinationSymlink destination) else None
      | Inl e \<Rightarrow> if in_NotExist env e then None else Some (DestinationInspect e))"

definition CopySelf :: "install_env \<Rightarrow> string \<Rightarrow> (install_history, install_error + unit) state" where
  "CopySelf env destination =
     (if \<not> path_IsAbs destination \<or> path_Clean destination \<noteq> destination then fail (DestinationPath destination)
      else let parent = path_Dir destination in
        chain (on_error ParentInspect (outside (\<lambda>h. in_Stat env h parent) (StatParent parent))) (\<lambda>isDir.
        chain (require (if isDir then None else Some (ParentNotDirectory parent))) (\<lambda>_.
        chain (lift (outside (\<lambda>h. in_Lstat env h destination) (LstatDestination destination))) (\<lambda>status.
        chain (require (checkDestination env destination status)) (\<lambda>_.
        chain (on_error ExecutableLocate (outside (in_Executable env) FindExecutable)) (\<lambda>executable.
        chain (opt ExecutableOpen (outside (\<lambda>h. in_Open env h executable) (OpenSource executable))) (\<lambda>_.
          do { r \<leftarrow> replaceDestination env executable parent destination;
               _ \<leftarrow> outside (\<lambda>_. ()) (\<lambda>_. CloseSource executable);
               State_Monad.return r })))))))"

section \<open>Replacement is atomic\<close>

text \<open>
  The destination is touched by one call only: the renaming of a temporary file of its directory that was just written completely from the running
  executable, made executable, synced and closed, in a run that had asked for the destination and learned that nothing is there or that it is
  not a symbolic link. \<open>missing\<close> are the errors that say that nothing exists.
\<close>

definition source_opened :: "(port_error \<Rightarrow> bool) \<Rightarrow> string \<Rightarrow> string \<Rightarrow> install_history \<Rightarrow> bool" where
  "source_opened missing destination executable h \<longleftrightarrow>
     (\<exists>status. h = [OpenSource executable None, FindExecutable (Inr executable), LstatDestination destination status,
                    StatParent (path_Dir destination) (Inr True)] \<and>
        (status = Inr False \<or> (\<exists>e. status = Inl e \<and> missing e)))"

definition install_order :: "(port_error \<Rightarrow> bool) \<Rightarrow> string \<Rightarrow> install_history \<Rightarrow> install_call \<Rightarrow> bool" where
  "install_order missing destination h c \<longleftrightarrow>
     (\<forall>temporary target e. c = Rename temporary target e \<longrightarrow> target = destination \<and>
        (\<exists>executable before. h = [CloseTemp temporary None, SyncTemp temporary None, ChmodTemp temporary executableMode None,
             CopyTo executable temporary None, CreateTemp (path_Dir destination) temporaryPattern (Inr temporary)] @ before \<and>
           source_opened missing destination executable before))"

lemma install_order_other [simp]:
  "\<not> (\<exists>a b e. c = Rename a b e) \<Longrightarrow> install_order missing destination h c"
  by (cases c) (auto simp: install_order_def)

definition install_post :: "(port_error \<Rightarrow> bool) \<Rightarrow> string \<Rightarrow> install_error + unit \<Rightarrow> install_history \<Rightarrow> bool" where
  "install_post missing destination r h \<longleftrightarrow> calls_ok (install_order missing destination) h \<and>
     (r = Inr () \<longrightarrow> (\<exists>t. Rename t destination None \<in> set h) \<and> SyncDirectory (path_Dir destination) None \<in> set h)"

definition cleaned :: "install_history \<Rightarrow> bool" where
  "cleaned h \<longleftrightarrow> list_all (\<lambda>c. case c of CreateTemp _ _ (Inr t) \<Rightarrow> RemoveTemp t \<in> set h | _ \<Rightarrow> True) h"

fun plain :: "install_call \<Rightarrow> bool" where
  "plain (Rename _ _ _) = False"
| "plain (CreateTemp _ _ _) = False"
| "plain _ = True"

lemma calls_ok_plain: "grows plain h h' \<Longrightarrow> calls_ok (install_order missing destination) h \<Longrightarrow> calls_ok (install_order missing destination) h'"
proof -
  have "list_all plain calls \<Longrightarrow> calls_ok (install_order missing destination) h \<Longrightarrow> calls_ok (install_order missing destination) (calls @ h)" for calls
    by (induction calls) (auto intro!: install_order_other)
  then show "grows plain h h' \<Longrightarrow> calls_ok (install_order missing destination) h \<Longrightarrow> calls_ok (install_order missing destination) h'"
    by (auto simp: grows_def)
qed

lemma calls_ok_split: "calls_ok P (later @ c # before) \<Longrightarrow> P before c"
  by (induction later) auto

lemma wp_opt:
  "wp (opt wrap (outside f event)) Q h \<longleftrightarrow>
     (case f h of None \<Rightarrow> Q (Inr ()) (event None # h) | Some e \<Rightarrow> Q (Inl (wrap e)) (event (Some e) # h))"
  by (cases "f h") (simp_all add: opt_def)

lemma wp_orClose:
  "wp (orClose env temporary (opt wrap (outside f event))) Q h \<longleftrightarrow>
     (case f h of
        None \<Rightarrow> Q (Inr ()) (event None # h)
      | Some e \<Rightarrow> Q (Inl (wrap e)) (CloseTemp temporary (in_Close env (event (Some e) # h)) # event (Some e) # h))"
  by (cases "f h") (simp_all add: orClose_def wp_opt wp_cases)

lemma wp_deferred: "wp (do { _ \<leftarrow> outside f event; State_Monad.return r }) Q = (\<lambda>h. Q r (event (f h) # h))"
  by (rule ext) simp

lemma writeTemp_post:
  "wp (writeTemp env executable temporary) (\<lambda>r h'. grows plain h h' \<and>
     (r = Inr () \<longrightarrow> h' = [CloseTemp temporary None, SyncTemp temporary None, ChmodTemp temporary executableMode None, CopyTo executable temporary None] @ h)) h"
  unfolding writeTemp_def wp_chain wp_orClose wp_opt by (auto intro!: grows_step split: option.split)

lemma syncParent_post:
  "wp (syncParent env parent) (\<lambda>r h'. grows plain h h' \<and> (r = Inr () \<longrightarrow> SyncDirectory parent None \<in> set h')) h"
  by (auto simp: syncParent_def wp_opt intro!: grows_step split: option.split)

lemma replaceDestination_post:
  assumes "calls_ok (install_order missing destination) h" "source_opened missing destination executable h"
  shows "wp (replaceDestination env executable (path_Dir destination) destination)
    (\<lambda>r h'. install_post missing destination r h' \<and> (\<exists>calls. h' = calls @ h \<and> cleaned calls)) h"
proof (cases "in_CreateTemp env h (path_Dir destination)")
  case (Inl e)
  with assms show ?thesis by (auto simp: replaceDestination_def install_post_def cleaned_def)
next
  case (Inr t)
  let ?h = "CreateTemp (path_Dir destination) temporaryPattern (Inr t) # h"
  have ok: "calls_ok (install_order missing destination) ?h" using assms(1) by simp
  let ?w = "[CloseTemp t None, SyncTemp t None, ChmodTemp t executableMode None, CopyTo executable t None] @ ?h"
  have renamed: "calls_ok (install_order missing destination) (Rename t destination e # ?w)" for e
    using ok assms(2) by (simp add: install_order_def [of missing destination _ "Rename t destination e"])
  have post: "install_post missing destination r (RemoveTemp t # h') \<and> (\<exists>calls. RemoveTemp t # h' = calls @ h \<and> cleaned calls)"
    if "grows plain h1 h'" "calls_ok (install_order missing destination) h1" "\<exists>cs. h1 = cs @ ?h \<and> list_all (\<lambda>c. plain c \<or> (\<exists>e. c = Rename t destination e)) cs"
      "r = Inr () \<Longrightarrow> Rename t destination None \<in> set h' \<and> SyncDirectory (path_Dir destination) None \<in> set h'" for r h1 h'
  proof -
    from that(1) obtain calls where "h' = calls @ h1" "list_all plain calls" by (auto simp: grows_def)
    moreover from that(3) obtain cs where "h1 = cs @ ?h" "list_all (\<lambda>c. plain c \<or> (\<exists>e. c = Rename t destination e)) cs" by blast
    ultimately have "\<exists>cs. h' = cs @ ?h \<and> list_all (\<lambda>c. plain c \<or> (\<exists>e. c = Rename t destination e)) cs"
      by (intro exI [of _ "calls @ cs"]) (auto simp: list_all_iff)
    then obtain cs where cs: "h' = cs @ ?h" "list_all (\<lambda>c. plain c \<or> (\<exists>e. c = Rename t destination e)) cs" by blast
    have "CreateTemp p q r \<notin> set cs" for p q r using cs(2) by (force simp: list_all_iff)
    then have "cleaned (RemoveTemp t # cs @ [CreateTemp (path_Dir destination) temporaryPattern (Inr t)])"
      by (auto simp: cleaned_def list_all_iff split: install_call.splits sum.splits)
    moreover have "calls_ok (install_order missing destination) (RemoveTemp t # h')" using calls_ok_plain [OF that(1,2)] by simp
    ultimately show ?thesis using that(4) cs(1) by (auto simp: install_post_def)
  qed
  have "wp (chain (opt ActivateFailed (outside (in_Rename env) (Rename t destination))) (\<lambda>_. syncParent env (path_Dir destination)))
      (\<lambda>r h'. install_post missing destination r (RemoveTemp t # h') \<and> (\<exists>calls. RemoveTemp t # h' = calls @ h \<and> cleaned calls)) ?w"
  proof (cases "in_Rename env ?w")
    case None
    show ?thesis unfolding wp_chain wp_opt None option.case sum.case
      by (rule wp_mono [OF syncParent_post], rule post [OF _ renamed]) (auto simp: grows_def)
  next
    case (Some e)
    show ?thesis unfolding wp_chain wp_opt Some option.case sum.case
      by (rule post [OF grows_refl renamed]) auto
  qed
  moreover have "install_post missing destination (Inl e) (RemoveTemp t # h') \<and> (\<exists>calls. RemoveTemp t # h' = calls @ h \<and> cleaned calls)"
    if "grows plain ?h h'" for e h' by (rule post [OF that ok]) auto
  ultimately have "wp (chain (writeTemp env executable t) (\<lambda>_.
      chain (opt ActivateFailed (outside (in_Rename env) (Rename t destination))) (\<lambda>_. syncParent env (path_Dir destination))))
      (\<lambda>r h'. install_post missing destination r (RemoveTemp t # h') \<and> (\<exists>calls. RemoveTemp t # h' = calls @ h \<and> cleaned calls)) ?h"
    unfolding wp_chain
    by (intro wp_mono [OF writeTemp_post]) (auto split: sum.split)
  with Inr show ?thesis by (simp add: replaceDestination_def wp_deferred del: wp_chain)
qed

lemma CopySelf_post:
  "wp (CopySelf env destination) (\<lambda>r h. install_post (in_NotExist env) destination r h \<and> cleaned h) []"
proof -
  let ?post = "\<lambda>r h. install_post (in_NotExist env) destination r h \<and> cleaned h"
  let ?parent = "path_Dir destination"
  have early: "?post (Inl e) h" if "list_all plain h" for e h
  proof -
    have "grows plain [] h" using that by (simp add: grows_def)
    then have "calls_ok (install_order (in_NotExist env) destination) h" by (rule calls_ok_plain) simp
    moreover have "cleaned h" using that by (auto simp: cleaned_def list_all_iff split: install_call.splits)
    ultimately show ?thesis by (simp add: install_post_def)
  qed
  have replaced: "wp (replaceDestination env executable ?parent destination) (\<lambda>r h'. ?post r (CloseSource executable # h')) h"
    if "list_all plain h" "source_opened (in_NotExist env) destination executable h" for executable h
  proof (rule wp_mono [OF replaceDestination_post])
    have "grows plain [] h" using that(1) by (simp add: grows_def)
    then show "calls_ok (install_order (in_NotExist env) destination) h" by (rule calls_ok_plain) simp
    show "source_opened (in_NotExist env) destination executable h" by (rule that(2))
    fix r h'
    assume r: "install_post (in_NotExist env) destination r h' \<and> (\<exists>calls. h' = calls @ h \<and> cleaned calls)"
    then have "cleaned (CloseSource executable # h')"
      using that(1) by (auto simp: cleaned_def list_all_iff split: install_call.splits sum.splits)
    with r show "?post r (CloseSource executable # h')" by (auto simp: install_post_def)
  qed
  show ?thesis
    by (auto simp: CopySelf_def Let_def wp_cases wp_opt wp_deferred checkDestination_def source_opened_def intro!: early replaced
        split: sum.split option.split if_splits)
qed

text \<open>
  C28: whatever the file system answers and wherever the installation stops, the destination is only ever replaced by renaming a temporary
  file of its directory that was just copied completely from the running executable, given the mode \<^verbatim>\<open>0o555\<close>, synced and closed, and only after
  \<^verbatim>\<open>Lstat\<close> had answered that nothing is there or that the destination is no symbolic link. Every temporary file is removed. A
  successful installation has renamed it and synced the directory.
\<close>

theorem CopySelf_atomic:
  assumes "run_state (CopySelf env destination) [] = (r, calls)"
  shows "(\<forall>later temporary target e before. calls = later @ Rename temporary target e # before \<longrightarrow>
       target = destination \<and> (\<exists>executable status.
         before = [CloseTemp temporary None, SyncTemp temporary None, ChmodTemp temporary 0x16D None,
           CopyTo executable temporary None, CreateTemp (path_Dir destination) temporaryPattern (Inr temporary),
           OpenSource executable None, FindExecutable (Inr executable), LstatDestination destination status,
           StatParent (path_Dir destination) (Inr True)] \<and>
         (status = Inr False \<or> (\<exists>e. status = Inl e \<and> in_NotExist env e)))) \<and>
     cleaned calls \<and>
     (r = Inr () \<longrightarrow> (\<exists>t. Rename t destination None \<in> set calls) \<and> SyncDirectory (path_Dir destination) None \<in> set calls)"
proof -
  have post: "install_post (in_NotExist env) destination r calls" "cleaned calls"
    using wp_run [OF CopySelf_post assms] by simp_all
  have "install_order (in_NotExist env) destination before (Rename temporary target e)"
    if "calls = later @ Rename temporary target e # before" for later temporary target e before
    using post(1) that calls_ok_split [of "install_order (in_NotExist env) destination" later] by (simp add: install_post_def)
  then show ?thesis
    using post by (fastforce simp: install_post_def install_order_def source_opened_def executableMode_def)
qed

section \<open>Forwarding\<close>

datatype forwarding_error = ForwardingContext port_error | ForwardingUnreadable string port_error | ForwardingDisabled string

definition ipv4ForwardingPath :: string where
  "ipv4ForwardingPath = ''/proc/sys/net/ipv4/ip_forward''"

definition ipv6ForwardingPath :: string where
  "ipv6ForwardingPath = ''/proc/sys/net/ipv6/conf/all/forwarding''"

text \<open>\<open>ctxErr n\<close> is the context's error when it is asked for the \<open>n\<close>-th time; an ended context discards the errors so far.\<close>

fun checkLoop :: "(nat \<Rightarrow> port_error option) \<Rightarrow> (string \<Rightarrow> (port_error, string) result) \<Rightarrow> nat \<Rightarrow> forwarding_error list \<Rightarrow> (string \<times> string) list
    \<Rightarrow> forwarding_error list" where
  "checkLoop ctxErr readFile n errors [] = errors"
| "checkLoop ctxErr readFile n errors ((name, path) # items) =
     (case ctxErr n of
        Some e \<Rightarrow> [ForwardingContext e]
      | None \<Rightarrow>
          checkLoop ctxErr readFile (n + 1)
            (errors @ (case readFile path of
               Inl e \<Rightarrow> [ForwardingUnreadable name e]
             | Inr text \<Rightarrow> error_if (TrimSpace text \<noteq> ''1'') (ForwardingDisabled name))) items)"

definition Check :: "(nat \<Rightarrow> port_error option) \<Rightarrow> (string \<Rightarrow> (port_error, string) result) \<Rightarrow> forwarding_error list" where
  "Check ctxErr readFile = checkLoop ctxErr readFile 0 [] [(''IPv4'', ipv4ForwardingPath), (''IPv6'', ipv6ForwardingPath)]"

lemma Check_exact:
  "Check ctxErr readFile = [] \<longleftrightarrow> ctxErr 0 = None \<and> ctxErr 1 = None \<and>
     (\<exists>text4 text6. readFile ipv4ForwardingPath = Inr text4 \<and> TrimSpace text4 = ''1'' \<and>
        readFile ipv6ForwardingPath = Inr text6 \<and> TrimSpace text6 = ''1'')"
  by (auto simp: Check_def split: option.split sum.split)

section \<open>An installation\<close>

definition sample_install :: install_env where
  "sample_install = \<lparr>in_Stat = \<lambda>_ _. Inr True, in_Lstat = \<lambda>_ _. Inl ''missing'', in_NotExist = \<lambda>e. e = ''missing'', in_Executable = \<lambda>_. Inr ''/agent'',
     in_Open = \<lambda>_ _. None, in_CreateTemp = \<lambda>_ _. Inr ''/tools/.tmp'', in_Copy = \<lambda>_. None, in_Chmod = \<lambda>_. None, in_Sync = \<lambda>_. None,
     in_Close = \<lambda>_. None, in_Rename = \<lambda>_. None, in_OpenDirectory = \<lambda>_. None, in_SyncDirectory = \<lambda>_. None\<rparr>"

definition sample_installed :: install_history where
  "sample_installed = snd (run_state (CopySelf sample_install ''/tools/agent'') [])"

lemma sample_installation: "run_state (CopySelf sample_install ''/tools/agent'') [] = (Inr (), sample_installed)"
  by code_simp

theorem CopySelf_atomic_witness:
  "run_state (CopySelf sample_install ''/tools/agent'') [] = (Inr (), sample_installed) \<and> cleaned sample_installed \<and>
   (\<exists>t. Rename t ''/tools/agent'' None \<in> set sample_installed)"
  using CopySelf_atomic [OF sample_installation] sample_installation by simp

end
