(* ===== verification/Spec2Isabelle.thy ===== *)
theory Spec2Isabelle
  imports Routing Packet_Filter Tailnet Discovery Runtime Configuration Capability Routing_Plan
    Reconciler_Properties Supervisor Nftables_Semantics Nftables_Commit Netlink_Discovery
    Internet_Probe Resolver Tailnet_Control Kubernetes_Coordination File_Lock Child_Process Host_Files
begin

text \<open>
  A verification development for the Tailscale gateway agent, a control-plane program that turns a Linux host into a
  Tailscale subnet router and exit node whose traffic leaves through a proxy tunnel. The agent owns two routing tables, a set of rules, two
  nftables tables and the advertised routes of the local Tailscale node, and keeps them in a desired state. Its promise is that it
  fails closed: whatever goes wrong, traffic of the Tailnet is dropped and not sent out unproxied.

  \<^bold>\<open>Parts of the program and where they are modelled.\<close>

  \<^item> Values of the standard library: \<open>Prelude\<close> (lists, sorting with a comparison function, duplicate scans, time and durations),
    \<open>Netip\<close> and \<open>Netip_String\<close> (\<^verbatim>\<open>netip.Addr\<close> and \<^verbatim>\<open>netip.Prefix\<close> bit by bit, their order and their text form), \<open>Go_Text\<close> (the text
    functions the validators call), \<open>Fingerprint\<close> (SHA-256 and the canonical encoding of \<^verbatim>\<open>fingerprint\<close>).
  \<^item> \<^verbatim>\<open>internal/domain\<close>: \<open>Family\<close> (family.go), \<open>Routing\<close> (routing.go, with the generic algorithm in \<open>Keyed_Diff\<close>), \<open>Packet_Filter\<close>
    (packetfilter.go), \<open>Tailnet\<close> (tailnet.go), \<open>Discovery\<close> (discovery.go), \<open>Runtime\<close> (runtime.go), \<open>Configuration\<close> (configuration.go and the mode check
    of application/mode.go), \<open>Capability\<close> (internet_capability.go, with the hysteresis tracker of application/capability and the evaluation of
    application/internet_capability.go). Structs are records, enumerations are datatypes or strings as in the code, validators return
    the list of errors they join or the first error.
  \<^item> \<^verbatim>\<open>internal/application/routing.go\<close>: \<open>Routing_Plan\<close>, the plans the reconciler wants to see in the kernel, the ownership it claims and
    the classification of changes.
  \<^item> \<^verbatim>\<open>internal/application/reconciler.go\<close>: \<open>Effects\<close> (state computations with early returns and their weakest preconditions), \<open>Ports\<close> (the
    interfaces of \<^verbatim>\<open>internal/port\<close>: a call is an event with its answer, and the answers come from an environment that may depend on the whole
    history of calls), \<open>Reconciler\<close> (every method, one definition each, with long methods split at their steps).
  \<^item> \<^verbatim>\<open>internal/application/status.go\<close>, \<^verbatim>\<open>controller.go\<close> and \<^verbatim>\<open>supervisor.go\<close>: \<open>Status\<close> (the health of the agent), \<open>Controller\<close> (the loop, the run and
    the two event collectors as steps that interleave on the status, the gauge, the cancel function and the trigger channel),
    \<open>Supervisor\<close> (the life of the agent from preparation to shutdown).
  \<^item> The adapters of \<^verbatim>\<open>internal/adapter\<close>. Each of them talks to a library or to the operating system, whose answers are arguments; \<open>Histories\<close>
    holds what they share: a call is recorded with its answer, and the answer is a function of the calls before it.
    \<open>Netip_Bytes\<close>, \<open>Netip_Parse\<close> and \<open>Go_Url\<close> are the parts of \<^verbatim>\<open>netip\<close>, \<^verbatim>\<open>net\<close>, \<^verbatim>\<open>strconv\<close>, \<^verbatim>\<open>strings\<close> and \<^verbatim>\<open>net/url\<close> that they call.
  \<^item> \<^verbatim>\<open>adapter/nftables\<close>: \<open>Nftables_Rules\<close> (rules_linux.go, the expressions of every rule), \<open>Nftables_Semantics\<close> (what the rules decide, in the locale
    \<open>nft_machine\<close>), \<open>Nftables_Store\<close> (store_linux.go), \<open>Nftables_Kernel\<close> and \<open>Nftables_Commit\<close> (the locale \<open>nft_reader\<close> and the effect of a batch).
  \<^item> \<^verbatim>\<open>adapter/netlink\<close>: \<open>Netlink_Convert\<close> (messages), \<open>Netlink_Tracker\<close> (route_events_linux.go), \<open>Netlink_Adapter\<close> (reading and applying routing),
    \<open>Netlink_Discovery\<close> (links and routes).
  \<^item> \<^verbatim>\<open>adapter/environment\<close>: \<open>Environment\<close>. \<^verbatim>\<open>adapter/internetprobe\<close>: \<open>Internet_Probe\<close>. \<^verbatim>\<open>adapter/resolver\<close>: \<open>Resolver\<close>. \<^verbatim>\<open>adapter/tailscale\<close>:
    \<open>Tailnet_Control\<close>. \<^verbatim>\<open>adapter/kubernetes\<close>: \<open>Kubernetes_Coordination\<close>. \<^verbatim>\<open>adapter/filelock\<close>: \<open>File_Lock\<close>. \<^verbatim>\<open>adapter/process\<close>: \<open>Child_Process\<close>.
    \<^verbatim>\<open>adapter/install\<close> and \<^verbatim>\<open>adapter/kernel\<close>: \<open>Host_Files\<close>.

  \<^bold>\<open>State and operations.\<close> The reconciler's state is the record \<open>reconciler\<close>, the fields of the Go struct and the history of port
  calls. \<open>Prepare\<close>, \<open>Reconcile\<close>, \<open>FailClosed\<close> and \<open>Shutdown\<close> are computations over it; \<open>reachable\<close> is what any sequence of them reaches
  from \<open>NewReconciler\<close>, for any environment in each step. Errors of ports are opaque strings, errors of the code are constructors that keep the
  wrapping.

  \<^bold>\<open>What is shown.\<close>

  \<^item> \<open>Routing\<close>: the difference of two states leads from one to the other, is minimal, touches only owned tables and priorities, and does not
    depend on the iteration order of Go maps. The locale \<open>keyed_diff\<close> holds the argument; routes and rules are its two instances.
  \<^item> \<open>Packet_Filter\<close>: revisions identify the content of a policy up to a collision of SHA-256, so that a match tells the gate.
  \<^item> \<open>Tailnet\<close>, \<open>Discovery\<close>, \<open>Configuration\<close>: normal forms, and what validation guarantees to the rest of the program.
  \<^item> \<open>Capability\<close>: the counters implement a run-length hysteresis, and exit routes are offered on fresh evidence only.
  \<^item> \<open>Routing_Plan\<close>: for valid inputs the difference always accepts the fail-closed plan, and the desired plan unless a nameserver is by itself a
    Tailnet prefix; every forwarding route is backed by a blackhole.
  \<^item> \<open>Reconciler_Safety\<close>: monitors over the history and the specification of every step by weakest preconditions.
    \<open>Reconciler_Convergence\<close>: the operations as a whole. \<open>Reconciler_Liveness\<close>: runs over ports that hold what is written
    to them, which converge.
    \<open>Reconciler_Properties\<close>: the order of writes in every reachable history, the meaning of success, of failing closed and of preparation.
  \<^item> \<open>Status\<close>: readiness rests on a current success. \<open>Controller_Properties\<close>: invariants of every interleaving: the outcome of the last run, the gauge, the cancellation of stale runs, and back-off.
    \<open>Supervisor\<close>: however the agent ends, it ends closed.
  \<^item> \<open>Nftables_Semantics\<close>: what the installed rules decide about every packet. \<open>Nftables_Commit\<close>: after \<open>Apply\<close> commits, \<open>Observe\<close> reports a match; a batch
    replaces only tables of the agent.
  \<^item> \<open>Netlink_Convert\<close>: what is written is read back, except routes to IPv4-mapped prefixes. \<open>Netlink_Tracker\<close>: every expectation is settled once and no waiter is left behind.
    \<open>Netlink_Adapter\<close> and \<open>Netlink_Discovery\<close>: what is written to the kernel and in which order, and that a discovered route holds for
    the whole of its prefix.
  \<^item> \<open>Environment\<close>: the result does not depend on the order of variables, and \<^verbatim>\<open>containerboot\<close> gets exactly the variables meant for it.
    \<open>Internet_Probe\<close>: a probe contacts public addresses only, over the tunnel and with the mark. \<open>Resolver\<close>: the nameservers share one deadline.
    \<open>Tailnet_Control\<close>: an event offered to the reader is never lost without another one in its place.
  \<^item> \<open>Kubernetes_Coordination\<close>: the owned function has ended for good when \<^verbatim>\<open>Run\<close> returns, and no wait is in vain; the one case in which the lease
    is given up under it is shown too. \<open>File_Lock\<close>: the owned function runs only under the lock, which is released right after it.
    \<open>Child_Process\<close>: termination tells the truth about the exit of the child, and the child's environment is accepted. \<open>Host_Files\<close>: the installed executable is replaced as a whole or not at all.

  \<^bold>\<open>Bounds.\<close> All definitions are total. Loops of the code run over finite lists and are structural recursion, with one exception: the loop that
  waits for a file lock is given a number of attempts, and \<open>lock_Run_returns\<close> shows that one more than the number of retries is enough. Goroutines are
  step relations, without a bound on the number of steps; a call that does not return is a history in which the step of its return is missing.
  Machine integers keep their width where the code depends on it (packet marks, counters, ports, addresses); Go's \<^verbatim>\<open>int\<close> is unbounded here where the
  code only compares it.

  \<^bold>\<open>Not modelled.\<close> Telemetry (the metrics registry and the health endpoints), logging and the wiring of \<^verbatim>\<open>bootstrap\<close> and \<^verbatim>\<open>main\<close>,
  which only report or hand over; opening sockets and subscriptions of netlink and the exchange of DNS messages; the libraries for netlink, nftables,
  HTTP, Kubernetes and the Tailscale socket, which answer from outside; the stubs for systems other than Linux.
\<close>

end
